(* ===== verification/Prelude.thy ===== *)
theory Prelude
  imports Main "HOL-Library.Word" "HOL-Library.Monad_Syntax"
begin

text \<open>
  Shared ground of the development: the names of the fixed-width types of
  \<^verbatim>\<open>include/aim.h\<close>, the byte-order macros \<^verbatim>\<open>aimutil_put*\<close> and
  \<^verbatim>\<open>aimutil_get*\<close>, the collections of rewrite rules the component theories add to,
  and generic facts on words, lists and options.

  The result of an operation that can run into undefined behaviour of C (a read or write
  outside an object, a null or dangling pointer, a call through a null function pointer) or
  that may not return at all is an \<open>option\<close>: \<open>None\<close> says that the call has no defined
  result, \<open>Some\<close> carries the result together with everything the call changed.
  Errors that the code itself detects and returns are ordinary values inside \<open>Some\<close>.
\<close>

unbundle bit_operations_syntax

named_theorems stream_simps \<open>rewrite rules for reading and writing byte streams\<close>
named_theorems wire_simps \<open>rewrite rules for the byte-order macros\<close>
named_theorems libc_simps \<open>rewrite rules for the modelled C library\<close>
named_theorems frame_simps \<open>what an operation leaves unchanged\<close>

subsection \<open>Types\<close>

type_synonym u8 = "8 word"
type_synonym u16 = "16 word"
type_synonym u32 = "32 word"

text \<open>A C string, as the list of its bytes before the terminating NUL.\<close>

type_synonym cstring = "u8 list"

definition cstr :: "string \<Rightarrow> cstring" where
  "cstr s = map of_char s"

text \<open>A C string held in a buffer ends at the first NUL of the buffer.\<close>

definition c_string_of :: "u8 list \<Rightarrow> cstring" where
  "c_string_of buf = takeWhile (\<lambda>b. b \<noteq> 0) buf"

text \<open>The string in a buffer that may lack a terminator; then reading it is undefined.\<close>

definition buf_string :: "u8 list \<Rightarrow> cstring option" where
  "buf_string buf = (if 0 \<in> set buf then Some (c_string_of buf) else None)"

subsection \<open>Byte-order macros\<close>

text \<open>
  The \<^verbatim>\<open>put\<close> macros store bytes at a pointer; each is modelled by the list of the bytes
  it stores, lowest address first. The \<^verbatim>\<open>get\<close> macros compute in \<^verbatim>\<open>int\<close>, which is 32 bits
  wide here, from bytes that were promoted to it.
\<close>

definition aimutil_put8 :: "u8 \<Rightarrow> u8 list" where
  "aimutil_put8 v = [v AND 0xff]"

definition aimutil_get8 :: "u8 \<Rightarrow> u8" where
  "aimutil_get8 a = a AND 0xff"

definition aimutil_put16 :: "u16 \<Rightarrow> u8 list" where
  "aimutil_put16 v = [ucast (drop_bit 8 v) AND 0xff, ucast v AND 0xff]"

definition aimutil_get16 :: "u8 \<Rightarrow> u8 \<Rightarrow> u16" where
  "aimutil_get16 a b =
     ucast ((push_bit 8 (ucast a :: u32) AND 0xff00) + (ucast b AND 0xff))"

definition aimutil_put32 :: "u32 \<Rightarrow> u8 list" where
  "aimutil_put32 v =
     [ucast (drop_bit 24 v) AND 0xff, ucast (drop_bit 16 v) AND 0xff,
      ucast (drop_bit 8 v) AND 0xff, ucast v AND 0xff]"

definition aimutil_get32 :: "u8 \<Rightarrow> u8 \<Rightarrow> u8 \<Rightarrow> u8 \<Rightarrow> u32" where
  "aimutil_get32 a b c d =
     (push_bit 24 (ucast a) AND 0xff000000) + (push_bit 16 (ucast b) AND 0x00ff0000)
     + (push_bit 8 (ucast c) AND 0x0000ff00) + (ucast d AND 0x000000ff)"

definition aimutil_putle8 :: "u8 \<Rightarrow> u8 list" where
  "aimutil_putle8 v = [v AND 0xff]"

definition aimutil_getle8 :: "u8 \<Rightarrow> u8" where
  "aimutil_getle8 a = a AND 0xff"

definition aimutil_putle16 :: "u16 \<Rightarrow> u8 list" where
  "aimutil_putle16 v = [ucast (drop_bit 0 v) AND 0xff, ucast (drop_bit 8 v) AND 0xff]"

definition aimutil_getle16 :: "u8 \<Rightarrow> u8 \<Rightarrow> u16" where
  "aimutil_getle16 a b =
     ucast ((push_bit 0 (ucast a :: u32) AND 0x00ff) + (push_bit 8 (ucast b) AND 0xff00))"

definition aimutil_putle32 :: "u32 \<Rightarrow> u8 list" where
  "aimutil_putle32 v =
     [ucast (drop_bit 0 v) AND 0xff, ucast (drop_bit 8 v) AND 0xff,
      ucast (drop_bit 16 v) AND 0xff, ucast (drop_bit 24 v) AND 0xff]"

definition aimutil_getle32 :: "u8 \<Rightarrow> u8 \<Rightarrow> u8 \<Rightarrow> u8 \<Rightarrow> u32" where
  "aimutil_getle32 a b c d =
     (push_bit 0 (ucast a) AND 0x000000ff) + (push_bit 8 (ucast b) AND 0x0000ff00)
     + (push_bit 16 (ucast c) AND 0x00ff0000) + (push_bit 24 (ucast d) AND 0xff000000)"

lemma masks:
  "(0xff :: u8) = mask 8" "(0xff :: u32) = mask 8"
  "(0xff00 :: u32) = push_bit 8 (mask 8)" "(0xff0000 :: u32) = push_bit 16 (mask 8)"
  "(0xff000000 :: u32) = push_bit 24 (mask 8)"
  by (simp_all add: mask_eq_exp_minus_1)

lemma bit_u8_ge [simp]: "8 \<le> n \<Longrightarrow> \<not> bit (a :: u8) n"
  using bit_imp_le_length [of a n] by auto

lemma ucast_and_mask8 [simp]: "(ucast (a :: u8) :: u32) AND mask 8 = ucast a"
  by (rule bit_word_eqI) (auto simp: bit_simps dest: bit_imp_le_length)

lemma push_and_mask8 [simp]:
  "push_bit k (ucast (a :: u8) :: u32) AND push_bit k (mask 8) = push_bit k (ucast a)"
  by (simp flip: push_bit_and)

lemma and_ff [simp, wire_simps]: "(x :: u8) AND 0xff = x"
  unfolding masks by (rule bit_word_eqI) (simp add: bit_simps)

lemma get16_put16 [wire_simps]:
  "aimutil_get16 (ucast (drop_bit 8 v)) (ucast v) = v"
  unfolding aimutil_get16_def masks
  apply (subst disjunctive_add)
   apply (simp add: bit_simps)
  apply (rule bit_word_eqI)
  apply (auto simp: bit_simps)
  done

lemma put16_get16 [wire_simps]:
  "ucast (drop_bit 8 (aimutil_get16 a b)) = a" "ucast (aimutil_get16 a b) = b"
  unfolding aimutil_get16_def masks
  by (subst disjunctive_add, simp add: bit_simps, rule bit_word_eqI, auto simp: bit_simps)+

text \<open>The four bytes of a 32-bit value occupy disjoint bits, so the sums are disjunctions.\<close>

lemma get32_or:
  "aimutil_get32 a b c d =
     push_bit 24 (ucast a) OR push_bit 16 (ucast b) OR push_bit 8 (ucast c) OR ucast d"
proof -
  have 1: "push_bit 24 (ucast a) + push_bit 16 (ucast b) = (push_bit 24 (ucast a) OR push_bit 16 (ucast b) :: u32)"
    by (subst disjunctive_add) (auto simp: bit_simps)
  have 2: "(push_bit 24 (ucast a) OR push_bit 16 (ucast b)) + push_bit 8 (ucast c)
     = (push_bit 24 (ucast a) OR push_bit 16 (ucast b) OR push_bit 8 (ucast c) :: u32)"
    by (subst disjunctive_add) (auto simp: bit_simps or.assoc)
  have 3: "(push_bit 24 (ucast a) OR push_bit 16 (ucast b) OR push_bit 8 (ucast c)) + ucast d
     = (push_bit 24 (ucast a) OR push_bit 16 (ucast b) OR push_bit 8 (ucast c) OR ucast d :: u32)"
    by (subst disjunctive_add) (auto simp: bit_simps or.assoc)
  show ?thesis unfolding aimutil_get32_def masks by (simp add: 1 2 3)
qed

lemma getle32_get32: "aimutil_getle32 a b c d = aimutil_get32 d c b a"
  by (simp add: aimutil_getle32_def aimutil_get32_def add_ac)

lemma getle16_get16: "aimutil_getle16 a b = aimutil_get16 b a"
  by (simp add: aimutil_getle16_def aimutil_get16_def add_ac)

lemma get32_put32 [wire_simps]:
  "aimutil_get32 (ucast (drop_bit 24 v)) (ucast (drop_bit 16 v)) (ucast (drop_bit 8 v)) (ucast v) = v"
proof (rule bit_word_eqI)
  fix n :: nat
  assume "n < LENGTH(32)"
  then consider "n < 8" | "8 \<le> n" "n < 16" | "16 \<le> n" "n < 24" | "24 \<le> n" "n < 32"
    by force
  then show "bit (aimutil_get32 (ucast (drop_bit 24 v)) (ucast (drop_bit 16 v))
       (ucast (drop_bit 8 v)) (ucast v)) n = bit v n"
    unfolding get32_or by cases (auto simp: bit_simps)
qed

lemma put32_get32 [wire_simps]:
  "ucast (drop_bit 24 (aimutil_get32 a b c d)) = a"
  "ucast (drop_bit 16 (aimutil_get32 a b c d)) = b"
  "ucast (drop_bit 8 (aimutil_get32 a b c d)) = c"
  "ucast (aimutil_get32 a b c d) = d"
  unfolding get32_or by (rule bit_word_eqI, auto simp: bit_simps)+

lemma length_put [simp]:
  "length (aimutil_put8 v8) = 1" "length (aimutil_put16 v16) = 2"
  "length (aimutil_put32 v32) = 4" "length (aimutil_putle8 v8) = 1"
  "length (aimutil_putle16 v16) = 2" "length (aimutil_putle32 v32) = 4"
  by (simp_all add: aimutil_put8_def aimutil_put16_def aimutil_put32_def
      aimutil_putle8_def aimutil_putle16_def aimutil_putle32_def)

end
