(* ===== verification/Libc.thy ===== *)
theory Libc
  imports Prelude
begin

text \<open>
  The part of the C library and of the operating system the code calls: \<^verbatim>\<open>malloc\<close>,
  \<^verbatim>\<open>time\<close>, \<^verbatim>\<open>sleep\<close>, \<^verbatim>\<open>rand\<close>, \<^verbatim>\<open>errno\<close>, and the blocking socket
  calls \<^verbatim>\<open>recv\<close> and \<^verbatim>\<open>send\<close>. What the environment will do next is part of the
  state, so every behaviour it may show is some initial state:
  \<^item> \<open>os_allocs\<close> lists whether each of the next allocations succeeds; when the list is used
    up, allocations succeed;
  \<^item> \<open>os_junk\<close> is the content of freshly allocated memory;
  \<^item> \<open>os_in fd\<close> is what the next calls of \<^verbatim>\<open>recv\<close> on \<open>fd\<close> deliver, \<open>os_send fd\<close> how
    the next calls of \<^verbatim>\<open>send\<close> end, and \<open>os_out fd\<close> the bytes sent so far;
  \<^item> \<open>os_connect fd\<close> is what the next polls of a connecting socket find: that \<^verbatim>\<open>select\<close>
    failed, that the connection is still in progress, or the pending socket error (0 for none).
\<close>

datatype recv_event = RecvChunk "u8 list" | RecvError int

datatype send_event = SendLimit nat | SendError int

datatype connect_event = SelectError int | StillConnecting | SocketError int

record os =
  os_allocs :: "bool list"
  os_junk :: "nat \<Rightarrow> u8"
  os_now :: int
  os_errno :: int
  os_rand :: "u8 list"
  os_in :: "int \<Rightarrow> recv_event list"
  os_send :: "int \<Rightarrow> send_event list"
  os_out :: "int \<Rightarrow> u8 list"
  os_connect :: "int \<Rightarrow> connect_event list"

definition EINVAL :: int where "EINVAL = 22"
definition ENOMEM :: int where "ENOMEM = 12"
definition ENOENT :: int where "ENOENT = 2"
definition E2BIG :: int where "E2BIG = 7"

subsection \<open>Allocation\<close>

definition malloc :: "'a os_scheme \<Rightarrow> bool \<times> 'a os_scheme" where
  "malloc s = (case os_allocs s of [] \<Rightarrow> (True, s) | b # bs \<Rightarrow> (b, s\<lparr>os_allocs := bs\<rparr>))"

text \<open>The content of a fresh object of \<open>n\<close> bytes.\<close>

definition fresh :: "'a os_scheme \<Rightarrow> nat \<Rightarrow> u8 list" where
  "fresh s n = map (os_junk s) [0..<n]"

text \<open>No allocation fails from here on.\<close>

definition mem_ok :: "'a os_scheme \<Rightarrow> bool" where
  "mem_ok s \<longleftrightarrow> os_allocs s = []"

lemma malloc_ok [simp, libc_simps]: "mem_ok s \<Longrightarrow> malloc s = (True, s)"
  by (simp add: malloc_def mem_ok_def)

lemma malloc_fail: "os_allocs s = False # as \<Longrightarrow> malloc s = (False, s\<lparr>os_allocs := as\<rparr>)"
  by (simp add: malloc_def)

text \<open>Whether the next allocation succeeds.\<close>

definition alloc_ok :: "'a os_scheme \<Rightarrow> bool" where
  "alloc_ok s \<longleftrightarrow> os_allocs s = [] \<or> hd (os_allocs s)"

lemma malloc_eq: "malloc s = (alloc_ok s, s\<lparr>os_allocs := tl (os_allocs s)\<rparr>)"
  by (cases "os_allocs s") (simp_all add: malloc_def alloc_ok_def)

lemma length_fresh [simp]: "length (fresh s n) = n"
  by (simp add: fresh_def)

subsection \<open>Sockets\<close>

text \<open>
  \<^verbatim>\<open>recv(fd, buf, n, 0)\<close>: the value returned and the bytes stored. At the end of the
  script the peer has closed the connection, and \<^verbatim>\<open>recv\<close> returns 0.
\<close>

definition os_recv :: "int \<Rightarrow> nat \<Rightarrow> 'a os_scheme \<Rightarrow> int \<times> u8 list \<times> 'a os_scheme" where
  "os_recv fd n s =
     (case os_in s fd of
        [] \<Rightarrow> (0, [], s)
      | RecvError e # evs \<Rightarrow> (-1, [], s\<lparr>os_in := (os_in s)(fd := evs), os_errno := e\<rparr>)
      | RecvChunk bs # evs \<Rightarrow>
          (if length bs \<le> n then (int (length bs), bs, s\<lparr>os_in := (os_in s)(fd := evs)\<rparr>)
           else (int n, take n bs, s\<lparr>os_in := (os_in s)(fd := RecvChunk (drop n bs) # evs)\<rparr>)))"

text \<open>\<^verbatim>\<open>send(fd, buf, n, 0)\<close> for a buffer of exactly \<open>n\<close> bytes.\<close>

definition os_sendbuf :: "int \<Rightarrow> u8 list \<Rightarrow> 'a os_scheme \<Rightarrow> int \<times> 'a os_scheme" where
  "os_sendbuf fd buf s =
     (case os_send s fd of
        [] \<Rightarrow> (int (length buf), s\<lparr>os_out := (os_out s)(fd := os_out s fd @ buf)\<rparr>)
      | SendError e # evs \<Rightarrow> (-1, s\<lparr>os_send := (os_send s)(fd := evs), os_errno := e\<rparr>)
      | SendLimit k # evs \<Rightarrow>
          (let n = min k (length buf)
           in (int n, s\<lparr>os_send := (os_send s)(fd := evs),
                        os_out := (os_out s)(fd := os_out s fd @ take n buf)\<rparr>)))"

lemma os_recv_len:
  "os_recv fd n s = (r, bs, s') \<Longrightarrow> 0 < r \<Longrightarrow> r = int (length bs) \<and> length bs \<le> n"
  by (auto simp: os_recv_def split: list.splits recv_event.splits if_splits)

lemma os_sendbuf_len:
  "os_sendbuf fd buf s = (r, s') \<Longrightarrow> r \<noteq> -1 \<Longrightarrow> 0 \<le> r \<and> nat r \<le> length buf"
  by (auto simp: os_sendbuf_def Let_def split: list.splits send_event.splits)

subsection \<open>Random bytes\<close>

text \<open>The low bytes of the next values of \<^verbatim>\<open>rand\<close>; 0 when the script is used up.\<close>

definition c_rand :: "'a os_scheme \<Rightarrow> u8 \<times> 'a os_scheme" where
  "c_rand s = (case os_rand s of [] \<Rightarrow> (0, s) | r # rs \<Rightarrow> (r, s\<lparr>os_rand := rs\<rparr>))"

fun rand_bytes :: "nat \<Rightarrow> 'a os_scheme \<Rightarrow> u8 list \<times> 'a os_scheme" where
  "rand_bytes 0 s = ([], s)"
| "rand_bytes (Suc n) s = (let (r, s) = c_rand s; (rs, s) = rand_bytes n s in (r # rs, s))"

lemma length_rand_bytes: "rand_bytes n s = (r, s') \<Longrightarrow> length r = n"
  by (induction n arbitrary: s r s') (auto simp: Let_def split: prod.splits)

subsection \<open>C strings\<close>

text \<open>
  \<^verbatim>\<open>strncpy(dst, src, n)\<close>: \<open>n\<close> bytes are stored, the string cut or padded with zeros;
  a string of \<open>n\<close> bytes or more leaves the destination without a terminator.
\<close>

definition c_strncpy :: "cstring \<Rightarrow> nat \<Rightarrow> u8 list" where
  "c_strncpy src n = take n src @ replicate (n - length src) 0"

text \<open>\<^verbatim>\<open>toupper\<close> in the C locale.\<close>

definition c_toupper :: "u8 \<Rightarrow> u8" where
  "c_toupper b = (if 97 \<le> b \<and> b \<le> 122 then b - 32 else b)"

lemma length_c_strncpy [simp]: "length (c_strncpy src n) = n"
  by (simp add: c_strncpy_def)

lemma buf_string_strncpy: "0 \<notin> set str \<Longrightarrow> length str < n \<Longrightarrow> buf_string (c_strncpy str n) = Some str"
proof -
  assume a: "0 \<notin> set str" "length str < n"
  then obtain k where "n - length str = Suc k" by (metis Suc_diff_Suc)
  moreover have "takeWhile (\<lambda>b. b \<noteq> 0) (str @ 0 # r) = str" for r
    using a(1) by (induction str) auto
  ultimately show ?thesis using a(2) by (simp add: buf_string_def c_strncpy_def c_string_of_def)
qed

end
