(* ===== verification/Bstream.thy ===== *)
theory Bstream
  imports Libc
begin

text \<open>
  Byte streams: \<^verbatim>\<open>aim_bstream_t\<close> and the \<^verbatim>\<open>aim_bstream_*\<close> and \<^verbatim>\<open>aimbs_*\<close>
  operations of \<^verbatim>\<open>src/rxqueue.c\<close>. A stream is a memory block, the length the code
  believes it has and the current offset; length and offset are 16 bits wide in the code and
  kept below \<open>2 ^ 16\<close> here by reducing every value stored. Reading or writing outside the
  block is undefined and gives \<open>None\<close>. On well-formed streams (\<open>bs_ok\<close>) no operation does,
  and each is described by what it takes from \<open>unread\<close> or adds to \<open>written\<close>.
\<close>

record bstream =
  bs_data :: "u8 list"
  bs_len :: nat
  bs_off :: nat

text \<open>Conversion of an \<^verbatim>\<open>int\<close> to \<^verbatim>\<open>fu16_t\<close>.\<close>

definition to_u16 :: "int \<Rightarrow> nat" where
  "to_u16 i = nat (i mod 65536)"

subsection \<open>Memory access\<close>

definition peek :: "bstream \<Rightarrow> int \<Rightarrow> u8 option" where
  "peek bs i = (if 0 \<le> i \<and> nat i < length (bs_data bs) then Some (bs_data bs ! nat i) else None)"

definition poke :: "bstream \<Rightarrow> nat \<Rightarrow> u8 list \<Rightarrow> bstream option" where
  "poke bs i xs =
     (if i + length xs \<le> length (bs_data bs)
      then Some (bs\<lparr>bs_data := take i (bs_data bs) @ xs @ drop (i + length xs) (bs_data bs)\<rparr>)
      else None)"

text \<open>\<^verbatim>\<open>memcpy\<close> out of the block; a negative length is a huge \<^verbatim>\<open>size_t\<close>.\<close>

definition peeks :: "bstream \<Rightarrow> nat \<Rightarrow> int \<Rightarrow> u8 list option" where
  "peeks bs i n =
     (if 0 \<le> n \<and> i + nat n \<le> length (bs_data bs) then Some (take (nat n) (drop i (bs_data bs)))
      else None)"

subsection \<open>Position\<close>

definition aim_bstream_init :: "u8 list \<Rightarrow> int \<Rightarrow> bstream" where
  "aim_bstream_init data len = \<lparr>bs_data = data, bs_len = to_u16 len, bs_off = 0\<rparr>"

definition aim_bstream_empty :: "bstream \<Rightarrow> int" where
  "aim_bstream_empty bs = int (bs_len bs) - int (bs_off bs)"

definition aim_bstream_curpos :: "bstream \<Rightarrow> int" where
  "aim_bstream_curpos bs = int (bs_off bs)"

definition aim_bstream_setpos :: "bstream \<Rightarrow> int \<Rightarrow> int \<times> bstream" where
  "aim_bstream_setpos bs off =
     (if int (bs_len bs) < off then (-1, bs) else (off, bs\<lparr>bs_off := to_u16 off\<rparr>))"

definition aim_bstream_rewind :: "bstream \<Rightarrow> bstream" where
  "aim_bstream_rewind bs = snd (aim_bstream_setpos bs 0)"

definition aim_bstream_advance :: "bstream \<Rightarrow> int \<Rightarrow> int \<times> bstream" where
  "aim_bstream_advance bs n =
     (if aim_bstream_empty bs < n then (0, bs)
      else (n, bs\<lparr>bs_off := to_u16 (int (bs_off bs) + n)\<rparr>))"

text \<open>\<^verbatim>\<open>bs->offset += n\<close> for a small constant or a count that was just written.\<close>

definition bump :: "nat \<Rightarrow> bstream \<Rightarrow> bstream" where
  "bump n bs = bs\<lparr>bs_off := (bs_off bs + n) mod 65536\<rparr>"

subsection \<open>Reading\<close>

definition aimbs_get8 :: "bstream \<Rightarrow> (u8 \<times> bstream) option" where
  "aimbs_get8 bs =
     (if aim_bstream_empty bs < 1 then Some (0, bs)
      else do {
        let bs = bump 1 bs;
        a \<leftarrow> peek bs (int (bs_off bs) - 1);
        Some (aimutil_get8 a, bs)
      })"

definition aimbs_get16 :: "bstream \<Rightarrow> (u16 \<times> bstream) option" where
  "aimbs_get16 bs =
     (if aim_bstream_empty bs < 2 then Some (0, bs)
      else do {
        let bs = bump 2 bs;
        a \<leftarrow> peek bs (int (bs_off bs) - 2);
        b \<leftarrow> peek bs (int (bs_off bs) - 1);
        Some (aimutil_get16 a b, bs)
      })"

definition aimbs_get32 :: "bstream \<Rightarrow> (u32 \<times> bstream) option" where
  "aimbs_get32 bs =
     (if aim_bstream_empty bs < 4 then Some (0, bs)
      else do {
        let bs = bump 4 bs;
        a \<leftarrow> peek bs (int (bs_off bs) - 4);
        b \<leftarrow> peek bs (int (bs_off bs) - 3);
        c \<leftarrow> peek bs (int (bs_off bs) - 2);
        d \<leftarrow> peek bs (int (bs_off bs) - 1);
        Some (aimutil_get32 a b c d, bs)
      })"

definition aimbs_getle8 :: "bstream \<Rightarrow> (u8 \<times> bstream) option" where
  "aimbs_getle8 bs =
     (if aim_bstream_empty bs < 1 then Some (0, bs)
      else do {
        let bs = bump 1 bs;
        a \<leftarrow> peek bs (int (bs_off bs) - 1);
        Some (aimutil_getle8 a, bs)
      })"

definition aimbs_getle16 :: "bstream \<Rightarrow> (u16 \<times> bstream) option" where
  "aimbs_getle16 bs =
     (if aim_bstream_empty bs < 2 then Some (0, bs)
      else do {
        let bs = bump 2 bs;
        a \<leftarrow> peek bs (int (bs_off bs) - 2);
        b \<leftarrow> peek bs (int (bs_off bs) - 1);
        Some (aimutil_getle16 a b, bs)
      })"

definition aimbs_getle32 :: "bstream \<Rightarrow> (u32 \<times> bstream) option" where
  "aimbs_getle32 bs =
     (if aim_bstream_empty bs < 4 then Some (0, bs)
      else do {
        let bs = bump 4 bs;
        a \<leftarrow> peek bs (int (bs_off bs) - 4);
        b \<leftarrow> peek bs (int (bs_off bs) - 3);
        c \<leftarrow> peek bs (int (bs_off bs) - 2);
        d \<leftarrow> peek bs (int (bs_off bs) - 1);
        Some (aimutil_getle32 a b c d, bs)
      })"

text \<open>The value returned, the bytes stored at the destination, and the stream.\<close>

definition aimbs_getrawbuf :: "bstream \<Rightarrow> int \<Rightarrow> (int \<times> u8 list \<times> bstream) option" where
  "aimbs_getrawbuf bs len =
     (if aim_bstream_empty bs < len then Some (0, [], bs)
      else do {
        xs \<leftarrow> peeks bs (bs_off bs) len;
        Some (len, xs, bs\<lparr>bs_off := to_u16 (int (bs_off bs) + len)\<rparr>)
      })"

text \<open>A fresh buffer, or a null pointer where memory or input is short.\<close>

definition aimbs_getraw ::
  "bstream \<Rightarrow> int \<Rightarrow> 'a os_scheme \<Rightarrow> (u8 list option \<times> bstream \<times> 'a os_scheme) option" where
  "aimbs_getraw bs len s =
     (let (ok, s) = malloc s
      in if \<not> ok then Some (None, bs, s)
         else do {
           (r, xs, bs) \<leftarrow> aimbs_getrawbuf bs len;
           if r < len then Some (None, bs, s) else Some (Some xs, bs, s)
         })"

definition aimbs_getstr ::
  "bstream \<Rightarrow> int \<Rightarrow> 'a os_scheme \<Rightarrow> (u8 list option \<times> bstream \<times> 'a os_scheme) option" where
  "aimbs_getstr bs len s =
     (let (ok, s) = malloc s
      in if \<not> ok then Some (None, bs, s)
         else do {
           (r, xs, bs) \<leftarrow> aimbs_getrawbuf bs len;
           if r < len then Some (None, bs, s) else Some (Some (xs @ [0]), bs, s)
         })"

subsection \<open>Writing\<close>

definition aimbs_put8 :: "bstream \<Rightarrow> u8 \<Rightarrow> (int \<times> bstream) option" where
  "aimbs_put8 bs v =
     (if aim_bstream_empty bs < 1 then Some (0, bs)
      else do { bs \<leftarrow> poke bs (bs_off bs) (aimutil_put8 v); Some (1, bump 1 bs) })"

definition aimbs_put16 :: "bstream \<Rightarrow> u16 \<Rightarrow> (int \<times> bstream) option" where
  "aimbs_put16 bs v =
     (if aim_bstream_empty bs < 2 then Some (0, bs)
      else do { bs \<leftarrow> poke bs (bs_off bs) (aimutil_put16 v); Some (2, bump 2 bs) })"

definition aimbs_put32 :: "bstream \<Rightarrow> u32 \<Rightarrow> (int \<times> bstream) option" where
  "aimbs_put32 bs v =
     (if aim_bstream_empty bs < 4 then Some (0, bs)
      else do { bs \<leftarrow> poke bs (bs_off bs) (aimutil_put32 v); Some (1, bump 4 bs) })"

definition aimbs_putle8 :: "bstream \<Rightarrow> u8 \<Rightarrow> (int \<times> bstream) option" where
  "aimbs_putle8 bs v =
     (if aim_bstream_empty bs < 1 then Some (0, bs)
      else do { bs \<leftarrow> poke bs (bs_off bs) (aimutil_putle8 v); Some (1, bump 1 bs) })"

definition aimbs_putle16 :: "bstream \<Rightarrow> u16 \<Rightarrow> (int \<times> bstream) option" where
  "aimbs_putle16 bs v =
     (if aim_bstream_empty bs < 2 then Some (0, bs)
      else do { bs \<leftarrow> poke bs (bs_off bs) (aimutil_putle16 v); Some (2, bump 2 bs) })"

definition aimbs_putle32 :: "bstream \<Rightarrow> u32 \<Rightarrow> (int \<times> bstream) option" where
  "aimbs_putle32 bs v =
     (if aim_bstream_empty bs < 4 then Some (0, bs)
      else do { bs \<leftarrow> poke bs (bs_off bs) (aimutil_putle32 v); Some (1, bump 4 bs) })"

text \<open>\<open>v\<close> is the source object from the pointer on; reading past its end is undefined.\<close>

definition aimbs_putraw :: "bstream \<Rightarrow> u8 list \<Rightarrow> int \<Rightarrow> (int \<times> bstream) option" where
  "aimbs_putraw bs v len =
     (if aim_bstream_empty bs < len then Some (0, bs)
      else if len < 0 \<or> length v < nat len then None
      else do {
        bs \<leftarrow> poke bs (bs_off bs) (take (nat len) v);
        Some (len, bs\<lparr>bs_off := to_u16 (int (bs_off bs) + len)\<rparr>)
      })"

definition aimbs_putbs :: "bstream \<Rightarrow> bstream \<Rightarrow> int \<Rightarrow> (int \<times> bstream \<times> bstream) option" where
  "aimbs_putbs bs srcbs len =
     (if aim_bstream_empty srcbs < len then Some (0, bs, srcbs)
      else if aim_bstream_empty bs < len then Some (0, bs, srcbs)
      else do {
        xs \<leftarrow> peeks srcbs (bs_off srcbs) len;
        bs \<leftarrow> poke bs (bs_off bs) xs;
        Some (len, bs\<lparr>bs_off := to_u16 (int (bs_off bs) + len)\<rparr>,
              srcbs\<lparr>bs_off := to_u16 (int (bs_off srcbs) + len)\<rparr>)
      })"

subsection \<open>The socket side\<close>

text \<open>The value returned, the bytes received in order, and the state.\<close>

function aim_recv_loop ::
  "int \<Rightarrow> nat \<Rightarrow> u8 list \<Rightarrow> 'a os_scheme \<Rightarrow> int \<times> u8 list \<times> 'a os_scheme" where
  "aim_recv_loop fd left acc s =
     (if left = 0 then (int (length acc), acc, s)
      else let (ret, bytes, s') = os_recv fd left s
           in if ret \<le> 0 then (-1, acc, s')
              else aim_recv_loop fd (left - nat ret) (acc @ bytes) s')"
  by pat_completeness auto
termination
  by (relation "measure (\<lambda>(fd, left, acc, s). left)") auto

declare aim_recv_loop.simps [simp del]

definition aim_recv :: "int \<Rightarrow> nat \<Rightarrow> 'a os_scheme \<Rightarrow> int \<times> u8 list \<times> 'a os_scheme" where
  "aim_recv fd count s = aim_recv_loop fd count [] s"

text \<open>
  The count is a \<^verbatim>\<open>size_t\<close>, so what is left of the stream is converted to that type for the
  comparison, and a negative rest, of a stream whose offset is past its length, cuts nothing.
\<close>

definition aim_bstream_recv ::
  "bstream \<Rightarrow> int \<Rightarrow> nat \<Rightarrow> 'a os_scheme \<Rightarrow> (int \<times> bstream \<times> 'a os_scheme) option" where
  "aim_bstream_recv bs fd count s =
     (if fd < 0 then Some (-1, bs, s)
      else let left = aim_bstream_empty bs;
               count = (if 0 \<le> left \<and> left < int count then nat left else count)
           in if count = 0 then Some (0, bs, s)
              else let (red, xs, s) = aim_recv fd count s
                   in do {
                     bs \<leftarrow> poke bs (bs_off bs) xs;
                     if red \<le> 0 then Some (-1, bs, s)
                     else Some (red, bs\<lparr>bs_off := to_u16 (int (bs_off bs) + red)\<rparr>, s)
                   })"

section \<open>Well-formed streams\<close>

definition bs_ok :: "bstream \<Rightarrow> bool" where
  "bs_ok bs \<longleftrightarrow> bs_off bs \<le> bs_len bs \<and> bs_len bs \<le> length (bs_data bs) \<and> bs_len bs < 65536"

text \<open>What is left to read, what lies before the offset, and the space left to write to.\<close>

definition unread :: "bstream \<Rightarrow> u8 list" where
  "unread bs = take (bs_len bs - bs_off bs) (drop (bs_off bs) (bs_data bs))"

definition written :: "bstream \<Rightarrow> u8 list" where
  "written bs = take (bs_off bs) (bs_data bs)"

definition room :: "bstream \<Rightarrow> nat" where
  "room bs = bs_len bs - bs_off bs"

text \<open>The two ways a well-formed stream moves: \<open>n\<close> bytes read, or some bytes written.\<close>

definition adv :: "nat \<Rightarrow> bstream \<Rightarrow> bstream" where
  "adv n bs = bs\<lparr>bs_off := bs_off bs + n\<rparr>"

definition emit :: "u8 list \<Rightarrow> bstream \<Rightarrow> bstream" where
  "emit xs bs = bs\<lparr>bs_data := take (bs_off bs) (bs_data bs) @ xs @ drop (bs_off bs + length xs) (bs_data bs),
                   bs_off := bs_off bs + length xs\<rparr>"

lemma to_u16_id [simp]: "0 \<le> i \<Longrightarrow> i < 65536 \<Longrightarrow> to_u16 i = nat i"
  by (simp add: to_u16_def)

lemma to_u16_lt: "to_u16 i < 65536"
  by (simp add: to_u16_def nat_less_iff)

lemma bs_okD:
  "bs_ok bs \<Longrightarrow> bs_off bs \<le> bs_len bs" "bs_ok bs \<Longrightarrow> bs_len bs \<le> length (bs_data bs)"
  "bs_ok bs \<Longrightarrow> bs_len bs < 65536"
  by (simp_all add: bs_ok_def)

lemma length_unread [stream_simps]: "bs_ok bs \<Longrightarrow> length (unread bs) = room bs"
  by (auto simp: unread_def bs_ok_def room_def)

lemma length_written: "bs_ok bs \<Longrightarrow> length (written bs) = bs_off bs"
  by (simp add: written_def bs_ok_def)

lemma room_lt: "bs_ok bs \<Longrightarrow> room bs < 65536"
  by (auto simp: bs_ok_def room_def)

lemma empty_eq: "bs_ok bs \<Longrightarrow> aim_bstream_empty bs = int (room bs)"
  by (simp add: aim_bstream_empty_def room_def bs_ok_def of_nat_diff)

subsection \<open>Moving over the input\<close>

lemma adv_0 [simp]: "adv 0 bs = bs"
  by (simp add: adv_def)

lemma adv_adv [simp]: "adv n (adv m bs) = adv (m + n) bs"
  by (simp add: adv_def)

lemma adv_sel [simp]:
  "bs_data (adv n bs) = bs_data bs" "bs_len (adv n bs) = bs_len bs" "bs_off (adv n bs) = bs_off bs + n"
  by (simp_all add: adv_def)

lemma unread_adv [simp]: "unread (adv n bs) = drop n (unread bs)"
  by (simp add: unread_def drop_take add.commute)

lemma room_adv [simp]: "room (adv n bs) = room bs - n"
  by (simp add: room_def)

lemma bs_ok_adv [simp]: "bs_ok bs \<Longrightarrow> n \<le> room bs \<Longrightarrow> bs_ok (adv n bs)"
  by (auto simp: bs_ok_def room_def)

lemma bump_adv: "bs_ok bs \<Longrightarrow> n \<le> room bs \<Longrightarrow> bump n bs = adv n bs"
  by (auto simp: bump_def adv_def bs_ok_def room_def)

lemma setoff_adv:
  "bs_ok bs \<Longrightarrow> 0 \<le> n \<Longrightarrow> nat n \<le> room bs \<Longrightarrow>
   bs\<lparr>bs_off := to_u16 (int (bs_off bs) + n)\<rparr> = adv (nat n) bs"
  by (auto simp: adv_def bs_ok_def room_def to_u16_def nat_add_distrib intro!: bstream.equality)

lemma peek_adv:
  "bs_ok bs \<Longrightarrow> n \<le> room bs \<Longrightarrow> 0 < k \<Longrightarrow> k \<le> int n \<Longrightarrow>
   peek (adv n bs) (int (bs_off (adv n bs)) - k) = Some (unread bs ! (n - nat k))"
  by (auto simp: peek_def unread_def bs_ok_def room_def nat_diff_distrib nat_add_distrib
      intro!: arg_cong [where f = "(!) (bs_data bs)"])

lemma peeks_unread:
  "bs_ok bs \<Longrightarrow> 0 \<le> n \<Longrightarrow> nat n \<le> room bs \<Longrightarrow> peeks bs (bs_off bs) n = Some (take (nat n) (unread bs))"
  by (auto simp: peeks_def unread_def bs_ok_def room_def min_def)

subsection \<open>What each read does\<close>

lemma get8_ok [stream_simps]:
  "bs_ok bs \<Longrightarrow> 1 \<le> room bs \<Longrightarrow> aimbs_get8 bs = Some (unread bs ! 0, adv 1 bs)"
  using peek_adv [of bs 1 1]
  by (simp add: aimbs_get8_def empty_eq bump_adv aimutil_get8_def)

lemma get8_short [stream_simps]: "bs_ok bs \<Longrightarrow> room bs < 1 \<Longrightarrow> aimbs_get8 bs = Some (0, bs)"
  by (simp add: aimbs_get8_def empty_eq)

lemma get16_ok [stream_simps]:
  "bs_ok bs \<Longrightarrow> 2 \<le> room bs \<Longrightarrow>
   aimbs_get16 bs = Some (aimutil_get16 (unread bs ! 0) (unread bs ! 1), adv 2 bs)"
  using peek_adv [of bs 2 2] peek_adv [of bs 2 1]
  by (simp add: aimbs_get16_def empty_eq bump_adv)

lemma get16_short [stream_simps]: "bs_ok bs \<Longrightarrow> room bs < 2 \<Longrightarrow> aimbs_get16 bs = Some (0, bs)"
  by (simp add: aimbs_get16_def empty_eq)

lemma get32_ok [stream_simps]:
  "bs_ok bs \<Longrightarrow> 4 \<le> room bs \<Longrightarrow>
   aimbs_get32 bs = Some (aimutil_get32 (unread bs ! 0) (unread bs ! 1) (unread bs ! 2) (unread bs ! 3), adv 4 bs)"
  using peek_adv [of bs 4 4] peek_adv [of bs 4 3] peek_adv [of bs 4 2] peek_adv [of bs 4 1]
  by (simp add: aimbs_get32_def empty_eq bump_adv)

lemma get32_short [stream_simps]: "bs_ok bs \<Longrightarrow> room bs < 4 \<Longrightarrow> aimbs_get32 bs = Some (0, bs)"
  by (simp add: aimbs_get32_def empty_eq)

lemma getle8_get8: "aimbs_getle8 bs = aimbs_get8 bs"
  by (simp add: aimbs_getle8_def aimbs_get8_def aimutil_getle8_def aimutil_get8_def)

lemma getle16_ok [stream_simps]:
  "bs_ok bs \<Longrightarrow> 2 \<le> room bs \<Longrightarrow>
   aimbs_getle16 bs = Some (aimutil_getle16 (unread bs ! 0) (unread bs ! 1), adv 2 bs)"
  using peek_adv [of bs 2 2] peek_adv [of bs 2 1]
  by (simp add: aimbs_getle16_def empty_eq bump_adv)

lemma getle16_short [stream_simps]: "bs_ok bs \<Longrightarrow> room bs < 2 \<Longrightarrow> aimbs_getle16 bs = Some (0, bs)"
  by (simp add: aimbs_getle16_def empty_eq)

lemma getle32_ok [stream_simps]:
  "bs_ok bs \<Longrightarrow> 4 \<le> room bs \<Longrightarrow>
   aimbs_getle32 bs = Some (aimutil_getle32 (unread bs ! 0) (unread bs ! 1) (unread bs ! 2) (unread bs ! 3), adv 4 bs)"
  using peek_adv [of bs 4 4] peek_adv [of bs 4 3] peek_adv [of bs 4 2] peek_adv [of bs 4 1]
  by (simp add: aimbs_getle32_def empty_eq bump_adv)

lemma getle32_short [stream_simps]: "bs_ok bs \<Longrightarrow> room bs < 4 \<Longrightarrow> aimbs_getle32 bs = Some (0, bs)"
  by (simp add: aimbs_getle32_def empty_eq)

lemma getrawbuf_ok [stream_simps]:
  "bs_ok bs \<Longrightarrow> 0 \<le> n \<Longrightarrow> nat n \<le> room bs \<Longrightarrow>
   aimbs_getrawbuf bs n = Some (n, take (nat n) (unread bs), adv (nat n) bs)"
  by (simp add: aimbs_getrawbuf_def empty_eq peeks_unread setoff_adv)

lemma getrawbuf_short [stream_simps]:
  "bs_ok bs \<Longrightarrow> int (room bs) < n \<Longrightarrow> aimbs_getrawbuf bs n = Some (0, [], bs)"
  by (simp add: aimbs_getrawbuf_def empty_eq)

lemma getraw_ok [stream_simps]:
  "mem_ok s \<Longrightarrow> bs_ok bs \<Longrightarrow> 0 \<le> n \<Longrightarrow> nat n \<le> room bs \<Longrightarrow>
   aimbs_getraw bs n s = Some (Some (take (nat n) (unread bs)), adv (nat n) bs, s)"
  by (simp add: aimbs_getraw_def getrawbuf_ok)

lemma getraw_short [stream_simps]:
  "mem_ok s \<Longrightarrow> bs_ok bs \<Longrightarrow> int (room bs) < n \<Longrightarrow> aimbs_getraw bs n s = Some (None, bs, s)"
  by (simp add: aimbs_getraw_def getrawbuf_short)

lemma getstr_ok [stream_simps]:
  "mem_ok s \<Longrightarrow> bs_ok bs \<Longrightarrow> 0 \<le> n \<Longrightarrow> nat n \<le> room bs \<Longrightarrow>
   aimbs_getstr bs n s = Some (Some (take (nat n) (unread bs) @ [0]), adv (nat n) bs, s)"
  by (simp add: aimbs_getstr_def getrawbuf_ok)

lemma getstr_short [stream_simps]:
  "mem_ok s \<Longrightarrow> bs_ok bs \<Longrightarrow> int (room bs) < n \<Longrightarrow> aimbs_getstr bs n s = Some (None, bs, s)"
  by (simp add: aimbs_getstr_def getrawbuf_short)

subsection \<open>What each write does\<close>

lemma emit_sel [simp]:
  "bs_len (emit xs bs) = bs_len bs" "bs_off (emit xs bs) = bs_off bs + length xs"
  by (simp_all add: emit_def)

lemma emit_Nil [simp]: "emit [] bs = bs"
  by (simp add: emit_def)

lemma room_emit [simp]: "room (emit xs bs) = room bs - length xs"
  by (simp add: room_def)

lemma bs_ok_emit [simp]: "bs_ok bs \<Longrightarrow> length xs \<le> room bs \<Longrightarrow> bs_ok (emit xs bs)"
  by (auto simp: bs_ok_def emit_def room_def)

lemma written_emit [simp]: "bs_ok bs \<Longrightarrow> written (emit xs bs) = written bs @ xs"
  by (simp add: written_def emit_def bs_ok_def)

lemma emit_emit [simp]: "bs_ok bs \<Longrightarrow> emit ys (emit xs bs) = emit (xs @ ys) bs"
  by (simp add: emit_def bs_ok_def min_def add_ac)

lemma poke_emit:
  "bs_ok bs \<Longrightarrow> length xs \<le> room bs \<Longrightarrow>
   poke bs (bs_off bs) xs = Some (emit xs bs\<lparr>bs_off := bs_off bs\<rparr>)"
  by (auto simp: poke_def emit_def bs_ok_def room_def)

lemma bump_emit:
  "bs_ok bs \<Longrightarrow> length xs \<le> room bs \<Longrightarrow> n = length xs \<Longrightarrow>
   bump n (emit xs bs\<lparr>bs_off := bs_off bs\<rparr>) = emit xs bs"
  by (auto simp: bump_def emit_def bs_ok_def room_def)

lemma setoff_emit:
  "bs_ok bs \<Longrightarrow> length xs \<le> room bs \<Longrightarrow> n = int (length xs) \<Longrightarrow>
   emit xs bs\<lparr>bs_off := to_u16 (int (bs_off bs) + n)\<rparr> = emit xs bs"
  by (auto simp: emit_def bs_ok_def room_def to_u16_def nat_add_distrib)

lemma put8_ok [stream_simps]:
  "bs_ok bs \<Longrightarrow> 1 \<le> room bs \<Longrightarrow> aimbs_put8 bs v = Some (1, emit (aimutil_put8 v) bs)"
  by (simp add: aimbs_put8_def empty_eq poke_emit bump_emit)

lemma put16_ok [stream_simps]:
  "bs_ok bs \<Longrightarrow> 2 \<le> room bs \<Longrightarrow> aimbs_put16 bs v = Some (2, emit (aimutil_put16 v) bs)"
  by (simp add: aimbs_put16_def empty_eq poke_emit bump_emit)

lemma put32_ok [stream_simps]:
  "bs_ok bs \<Longrightarrow> 4 \<le> room bs \<Longrightarrow> aimbs_put32 bs v = Some (1, emit (aimutil_put32 v) bs)"
  by (simp add: aimbs_put32_def empty_eq poke_emit bump_emit)

lemma putle8_ok [stream_simps]:
  "bs_ok bs \<Longrightarrow> 1 \<le> room bs \<Longrightarrow> aimbs_putle8 bs v = Some (1, emit (aimutil_putle8 v) bs)"
  by (simp add: aimbs_putle8_def empty_eq poke_emit bump_emit)

lemma putle16_ok [stream_simps]:
  "bs_ok bs \<Longrightarrow> 2 \<le> room bs \<Longrightarrow> aimbs_putle16 bs v = Some (2, emit (aimutil_putle16 v) bs)"
  by (simp add: aimbs_putle16_def empty_eq poke_emit bump_emit)

lemma putle32_ok [stream_simps]:
  "bs_ok bs \<Longrightarrow> 4 \<le> room bs \<Longrightarrow> aimbs_putle32 bs v = Some (1, emit (aimutil_putle32 v) bs)"
  by (simp add: aimbs_putle32_def empty_eq poke_emit bump_emit)

lemma put8_full [stream_simps]: "bs_ok bs \<Longrightarrow> room bs < 1 \<Longrightarrow> aimbs_put8 bs v = Some (0, bs)"
  by (simp add: aimbs_put8_def empty_eq)

lemma put16_full [stream_simps]: "bs_ok bs \<Longrightarrow> room bs < 2 \<Longrightarrow> aimbs_put16 bs v = Some (0, bs)"
  by (simp add: aimbs_put16_def empty_eq)

lemma put32_full [stream_simps]: "bs_ok bs \<Longrightarrow> room bs < 4 \<Longrightarrow> aimbs_put32 bs v = Some (0, bs)"
  by (simp add: aimbs_put32_def empty_eq)

lemma putraw_ok [stream_simps]:
  "bs_ok bs \<Longrightarrow> 0 \<le> n \<Longrightarrow> nat n \<le> room bs \<Longrightarrow> nat n \<le> length v \<Longrightarrow>
   aimbs_putraw bs v n = Some (n, emit (take (nat n) v) bs)"
  by (simp add: aimbs_putraw_def empty_eq poke_emit setoff_emit)

lemma putraw_full [stream_simps]:
  "bs_ok bs \<Longrightarrow> int (room bs) < n \<Longrightarrow> aimbs_putraw bs v n = Some (0, bs)"
  by (simp add: aimbs_putraw_def empty_eq)

lemma putbs_ok [stream_simps]:
  "bs_ok bs \<Longrightarrow> bs_ok src \<Longrightarrow> 0 \<le> n \<Longrightarrow> nat n \<le> room bs \<Longrightarrow> nat n \<le> room src \<Longrightarrow>
   aimbs_putbs bs src n = Some (n, emit (take (nat n) (unread src)) bs, adv (nat n) src)"
  by (simp add: aimbs_putbs_def empty_eq peeks_unread length_unread poke_emit setoff_emit setoff_adv
      nat_le_iff)

subsection \<open>Fresh streams\<close>

lemma init_ok [simp]:
  "0 \<le> n \<Longrightarrow> n < 65536 \<Longrightarrow> nat n \<le> length d \<Longrightarrow> bs_ok (aim_bstream_init d n)"
  by (simp add: aim_bstream_init_def bs_ok_def)

lemma init_sel [simp]:
  "bs_data (aim_bstream_init d n) = d" "bs_off (aim_bstream_init d n) = 0"
  "bs_len (aim_bstream_init d n) = to_u16 n"
  by (simp_all add: aim_bstream_init_def)

lemma written_init [simp]: "written (aim_bstream_init d n) = []"
  by (simp add: written_def)

lemma room_init [simp]: "room (aim_bstream_init d n) = to_u16 n"
  by (simp add: room_def)

lemma unread_init [simp]: "unread (aim_bstream_init d n) = take (to_u16 n) d"
  by (simp add: unread_def)

lemma curpos_emit [simp]: "aim_bstream_curpos (emit xs bs) = aim_bstream_curpos bs + int (length xs)"
  by (simp add: aim_bstream_curpos_def)

lemma curpos_init [simp]: "aim_bstream_curpos (aim_bstream_init d n) = 0"
  by (simp add: aim_bstream_curpos_def)

lemma rewind_eq: "aim_bstream_rewind bs = bs\<lparr>bs_off := 0\<rparr>"
  by (simp add: aim_bstream_rewind_def aim_bstream_setpos_def)

lemma bs_ok_rewind [simp]: "bs_ok bs \<Longrightarrow> bs_ok (aim_bstream_rewind bs)"
  by (simp add: rewind_eq bs_ok_def)

lemma bs_ok_setpos: "bs_ok bs \<Longrightarrow> 0 \<le> p \<Longrightarrow> bs_ok (snd (aim_bstream_setpos bs p))"
  by (auto simp: aim_bstream_setpos_def bs_ok_def)

subsection \<open>Receiving\<close>

lemma recv_loop_len:
  "aim_recv_loop fd left acc s = (r, xs, s') \<Longrightarrow>
   length xs \<le> length acc + left \<and> (r \<noteq> -1 \<longrightarrow> r = int (length xs) \<and> length xs = length acc + left)"
proof (induction fd left acc s rule: aim_recv_loop.induct)
  case (1 fd left acc s)
  obtain r1 b1 s1 where rv: "os_recv fd left s = (r1, b1, s1)" by (cases "os_recv fd left s")
  show ?case
  proof (cases "left = 0 \<or> r1 \<le> 0")
    case True
    with 1(2) rv show ?thesis
      by (auto simp: aim_recv_loop.simps [of fd left acc] split: if_splits)
  next
    case False
    with 1(2) rv have "aim_recv_loop fd (left - nat r1) (acc @ b1) s1 = (r, xs, s')"
      by (simp add: aim_recv_loop.simps [of fd left acc])
    with 1(1) [OF _ rv [symmetric] refl] False os_recv_len [OF rv] show ?thesis
      by auto
  qed
qed

text \<open>
  How the bytes were cut into segments on the way makes no difference to what is received.
\<close>

lemma recv_loop_chunks:
  "os_in s fd = map RecvChunk cs @ rest \<Longrightarrow> [] \<notin> set cs \<Longrightarrow> left \<le> length (concat cs) \<Longrightarrow>
   \<exists>cs'. aim_recv_loop fd left acc s =
            (int (length acc + left), acc @ take left (concat cs),
             s\<lparr>os_in := (os_in s)(fd := map RecvChunk cs' @ rest)\<rparr>)
        \<and> [] \<notin> set cs' \<and> concat cs' = drop left (concat cs)"
proof (induction cs arbitrary: left acc s)
  case Nil
  then show ?case
    by (intro exI [of _ "[]"]) (simp add: aim_recv_loop.simps fun_upd_idem)
next
  case (Cons c cs)
  show ?case
  proof (cases "left = 0")
    case True
    with Cons.prems show ?thesis
      by (intro exI [of _ "c # cs"]) (simp add: aim_recv_loop.simps fun_upd_idem)
  next
    case nz: False
    show ?thesis
    proof (cases "length c \<le> left")
      case True
      let ?s = "s\<lparr>os_in := (os_in s)(fd := map RecvChunk cs @ rest)\<rparr>"
      have "os_recv fd left s = (int (length c), c, ?s)"
        using Cons.prems(1) True by (simp add: os_recv_def)
      then have "aim_recv_loop fd left acc s = aim_recv_loop fd (left - length c) (acc @ c) ?s"
        using Cons.prems(2) nz by (subst aim_recv_loop.simps) auto
      with Cons.IH [of ?s "left - length c" "acc @ c"] Cons.prems True show ?thesis
        by (auto simp del: fun_upd_apply simp add: fun_upd_upd fun_upd_same)
    next
      case False
      let ?s = "s\<lparr>os_in := (os_in s)(fd := RecvChunk (drop left c) # map RecvChunk cs @ rest)\<rparr>"
      have "os_recv fd left s = (int left, take left c, ?s)"
        using Cons.prems(1) False by (simp add: os_recv_def)
      then have "aim_recv_loop fd left acc s = (int (length acc + left), acc @ take left c, ?s)"
        using False nz by (simp add: aim_recv_loop.simps)
      with Cons.prems False show ?thesis
        by (intro exI [of _ "drop left c # cs"])
          (auto simp del: fun_upd_apply simp: neq_Nil_conv)
    qed
  qed
qed

lemma recv_chunks:
  assumes "os_in s fd = map RecvChunk cs @ rest" "[] \<notin> set cs" "n \<le> length (concat cs)"
  obtains cs' where
    "aim_recv fd n s = (int n, take n (concat cs),
       s\<lparr>os_in := (os_in s)(fd := map RecvChunk cs' @ rest)\<rparr>)"
    "[] \<notin> set cs'" "concat cs' = drop n (concat cs)"
  using recv_loop_chunks [OF assms, of "[]"] by (auto simp: aim_recv_def)

lemma clamp_room:
  "bs_ok bs \<Longrightarrow>
   (if 0 \<le> aim_bstream_empty bs \<and> aim_bstream_empty bs < int n then nat (aim_bstream_empty bs) else n)
     = min n (room bs)"
  by (auto simp: empty_eq min_def)

lemma bstream_recv_ok:
  assumes "bs_ok bs"
  obtains r bs' s' where "aim_bstream_recv bs fd n s = Some (r, bs', s')" "bs_ok bs'"
proof (cases "fd < 0 \<or> min n (room bs) = 0")
  case True
  then have "aim_bstream_recv bs fd n s = Some (if fd < 0 then -1 else 0, bs, s)"
    unfolding aim_bstream_recv_def Let_def clamp_room [OF assms] by auto
  with assms that show ?thesis by blast
next
  case False
  obtain r xs s' where rv: "aim_recv fd (min n (room bs)) s = (r, xs, s')"
    by (cases "aim_recv fd (min n (room bs)) s")
  then have len: "length xs \<le> room bs" "r \<noteq> -1 \<Longrightarrow> r = int (length xs)"
    using recv_loop_len [of fd "min n (room bs)" "[]" s r xs s'] by (auto simp: aim_recv_def)
  have "aim_bstream_recv bs fd n s =
    (if r \<le> 0 then Some (-1, emit xs bs\<lparr>bs_off := bs_off bs\<rparr>, s') else Some (r, emit xs bs, s'))"
    using False assms len rv unfolding aim_bstream_recv_def Let_def clamp_room [OF assms]
    by (auto simp: poke_emit setoff_emit Let_def)
  moreover have "bs_ok (emit xs bs\<lparr>bs_off := bs_off bs\<rparr>)" "bs_ok (emit xs bs)"
    using assms len by (auto simp: bs_ok_def room_def emit_def)
  ultimately show ?thesis using that by (cases "r \<le> 0") auto
qed

lemma bstream_recv_chunks:
  assumes "bs_ok bs" "0 \<le> fd" "0 < n" "n \<le> room bs"
    and "os_in s fd = map RecvChunk cs @ rest" "[] \<notin> set cs" "n \<le> length (concat cs)"
  obtains cs' where
    "aim_bstream_recv bs fd n s = Some (int n, emit (take n (concat cs)) bs,
       s\<lparr>os_in := (os_in s)(fd := map RecvChunk cs' @ rest)\<rparr>)"
    "[] \<notin> set cs'" "concat cs' = drop n (concat cs)"
proof -
  from recv_chunks [OF assms(5-7)] obtain cs' where *:
    "aim_recv fd n s = (int n, take n (concat cs), s\<lparr>os_in := (os_in s)(fd := map RecvChunk cs' @ rest)\<rparr>)"
    "[] \<notin> set cs'" "concat cs' = drop n (concat cs)" .
  have "aim_bstream_recv bs fd n s = Some (int n, emit (take n (concat cs)) bs,
       s\<lparr>os_in := (os_in s)(fd := map RecvChunk cs' @ rest)\<rparr>)"
    using assms * by (simp add: aim_bstream_recv_def Let_def empty_eq poke_emit setoff_emit)
  with * that show ?thesis by blast
qed

section \<open>Sequences of operations\<close>

text \<open>One use of a stream, with sizes as the callers pass them: never negative.\<close>

inductive bs_step :: "bstream \<Rightarrow> bstream \<Rightarrow> bool" where
  rd8: "aimbs_get8 bs = Some (v8, bs') \<Longrightarrow> bs_step bs bs'"
| rd16: "aimbs_get16 bs = Some (v16, bs') \<Longrightarrow> bs_step bs bs'"
| rd32: "aimbs_get32 bs = Some (v32, bs') \<Longrightarrow> bs_step bs bs'"
| rdle16: "aimbs_getle16 bs = Some (v16, bs') \<Longrightarrow> bs_step bs bs'"
| rdle32: "aimbs_getle32 bs = Some (v32, bs') \<Longrightarrow> bs_step bs bs'"
| rdraw: "0 \<le> n \<Longrightarrow> aimbs_getrawbuf bs n = Some (r, xs, bs') \<Longrightarrow> bs_step bs bs'"
| wr8: "aimbs_put8 bs v8 = Some (r, bs') \<Longrightarrow> bs_step bs bs'"
| wr16: "aimbs_put16 bs v16 = Some (r, bs') \<Longrightarrow> bs_step bs bs'"
| wr32: "aimbs_put32 bs v32 = Some (r, bs') \<Longrightarrow> bs_step bs bs'"
| wrle16: "aimbs_putle16 bs v16 = Some (r, bs') \<Longrightarrow> bs_step bs bs'"
| wrle32: "aimbs_putle32 bs v32 = Some (r, bs') \<Longrightarrow> bs_step bs bs'"
| wrraw: "0 \<le> n \<Longrightarrow> aimbs_putraw bs xs n = Some (r, bs') \<Longrightarrow> bs_step bs bs'"
| wrbs: "0 \<le> n \<Longrightarrow> bs_ok src \<Longrightarrow> aimbs_putbs bs src n = Some (r, bs', src') \<Longrightarrow> bs_step bs bs'"
| seek: "0 \<le> n \<Longrightarrow> bs' = snd (aim_bstream_setpos bs n) \<Longrightarrow> bs_step bs bs'"
| skip: "0 \<le> n \<Longrightarrow> bs' = snd (aim_bstream_advance bs n) \<Longrightarrow> bs_step bs bs'"
| rewind: "bs' = aim_bstream_rewind bs \<Longrightarrow> bs_step bs bs'"
| receive: "aim_bstream_recv bs fd n (s :: os) = Some (r, bs', s') \<Longrightarrow> bs_step bs bs'"

lemma bs_ok_advance: "bs_ok bs \<Longrightarrow> 0 \<le> n \<Longrightarrow> bs_ok (snd (aim_bstream_advance bs n))"
  by (auto simp: aim_bstream_advance_def empty_eq setoff_adv)

lemma putle16_full [stream_simps]: "bs_ok bs \<Longrightarrow> room bs < 2 \<Longrightarrow> aimbs_putle16 bs v = Some (0, bs)"
  by (simp add: aimbs_putle16_def empty_eq)

lemma putle32_full [stream_simps]: "bs_ok bs \<Longrightarrow> room bs < 4 \<Longrightarrow> aimbs_putle32 bs v = Some (0, bs)"
  by (simp add: aimbs_putle32_def empty_eq)

lemma putraw_cases:
  assumes "bs_ok bs" "0 \<le> n" "aimbs_putraw bs xs n = Some (r, bs')"
  shows "bs' = bs \<or> bs' = emit (take (nat n) xs) bs \<and> nat n \<le> room bs"
proof (cases "nat n \<le> room bs")
  case True
  with assms have "nat n \<le> length xs"
    by (auto simp: aimbs_putraw_def empty_eq split: if_splits)
  with True assms show ?thesis by (auto simp: putraw_ok)
next
  case False
  with assms show ?thesis by (simp add: putraw_full)
qed

lemma bs_step_ok: "bs_step bs bs' \<Longrightarrow> bs_ok bs \<Longrightarrow> bs_ok bs'"
proof (induction rule: bs_step.induct)
  case (rd8 bs v bs') then show ?case by (cases "room bs < 1") (auto simp: stream_simps)
next
  case (rd16 bs v bs') then show ?case by (cases "room bs < 2") (auto simp: stream_simps)
next
  case (rd32 bs v bs') then show ?case by (cases "room bs < 4") (auto simp: stream_simps)
next
  case (rdle16 bs v bs') then show ?case by (cases "room bs < 2") (auto simp: stream_simps)
next
  case (rdle32 bs v bs') then show ?case by (cases "room bs < 4") (auto simp: stream_simps)
next
  case (rdraw n bs r xs bs') then show ?case
    by (cases "int (room bs) < n") (auto simp: stream_simps)
next
  case (wr8 bs v r bs') then show ?case by (cases "room bs < 1") (auto simp: stream_simps)
next
  case (wr16 bs v r bs') then show ?case by (cases "room bs < 2") (auto simp: stream_simps)
next
  case (wr32 bs v r bs') then show ?case by (cases "room bs < 4") (auto simp: stream_simps)
next
  case (wrle16 bs v r bs') then show ?case by (cases "room bs < 2") (auto simp: stream_simps)
next
  case (wrle32 bs v r bs') then show ?case by (cases "room bs < 4") (auto simp: stream_simps)
next
  case (wrraw n bs xs r bs') then show ?case using putraw_cases [of bs n xs r bs'] by auto
next
  case (wrbs n src bs r bs' src')
  show ?case
  proof (cases "int (room src) < n \<or> int (room bs) < n")
    case True with wrbs show ?thesis by (auto simp: aimbs_putbs_def empty_eq split: if_splits)
  next
    case False with wrbs show ?thesis by (auto simp: stream_simps)
  qed
next
  case (seek n bs' bs) then show ?case by (simp add: bs_ok_setpos)
next
  case (skip n bs' bs) then show ?case by (simp add: bs_ok_advance)
next
  case (rewind bs' bs) then show ?case by simp
next
  case (receive bs fd n s r bs' s') then show ?case
    using bstream_recv_ok [of bs fd n s] by fastforce
qed

text \<open>On a well-formed stream every read and write of a non-negative size is defined.\<close>

lemma get8_eq: "bs_ok bs \<Longrightarrow>
   aimbs_get8 bs = Some (if room bs < 1 then (0, bs) else (unread bs ! 0, adv 1 bs))"
  by (cases "room bs < 1") (simp_all add: stream_simps)

lemma get16_eq: "bs_ok bs \<Longrightarrow>
   aimbs_get16 bs = Some (if room bs < 2 then (0, bs)
                          else (aimutil_get16 (unread bs ! 0) (unread bs ! 1), adv 2 bs))"
  by (cases "room bs < 2") (simp_all add: stream_simps)

lemma get32_eq: "bs_ok bs \<Longrightarrow>
   aimbs_get32 bs = Some (if room bs < 4 then (0, bs)
     else (aimutil_get32 (unread bs ! 0) (unread bs ! 1) (unread bs ! 2) (unread bs ! 3), adv 4 bs))"
  by (cases "room bs < 4") (simp_all add: stream_simps)

lemma getle16_eq: "bs_ok bs \<Longrightarrow>
   aimbs_getle16 bs = Some (if room bs < 2 then (0, bs)
                            else (aimutil_getle16 (unread bs ! 0) (unread bs ! 1), adv 2 bs))"
  by (cases "room bs < 2") (simp_all add: stream_simps)

lemma getle32_eq: "bs_ok bs \<Longrightarrow>
   aimbs_getle32 bs = Some (if room bs < 4 then (0, bs)
     else (aimutil_getle32 (unread bs ! 0) (unread bs ! 1) (unread bs ! 2) (unread bs ! 3), adv 4 bs))"
  by (cases "room bs < 4") (simp_all add: stream_simps)

lemma getrawbuf_eq: "bs_ok bs \<Longrightarrow> 0 \<le> n \<Longrightarrow>
   aimbs_getrawbuf bs n = Some (if room bs < nat n then (0, [], bs)
                                else (n, take (nat n) (unread bs), adv (nat n) bs))"
  by (cases "room bs < nat n") (simp_all add: stream_simps zless_nat_eq_int_zless)

lemma getstr_eq: "mem_ok s \<Longrightarrow> bs_ok bs \<Longrightarrow> 0 \<le> n \<Longrightarrow>
   aimbs_getstr bs n s = Some (if room bs < nat n then (None, bs, s)
                               else (Some (take (nat n) (unread bs) @ [0]), adv (nat n) bs, s))"
  by (cases "room bs < nat n") (simp_all add: stream_simps zless_nat_eq_int_zless)

lemma getraw_eq: "mem_ok s \<Longrightarrow> bs_ok bs \<Longrightarrow> 0 \<le> n \<Longrightarrow>
   aimbs_getraw bs n s = Some (if room bs < nat n then (None, bs, s)
                               else (Some (take (nat n) (unread bs)), adv (nat n) bs, s))"
  by (cases "room bs < nat n") (simp_all add: stream_simps zless_nat_eq_int_zless)

lemma put8_eq: "bs_ok bs \<Longrightarrow>
   aimbs_put8 bs v = Some (if room bs < 1 then (0, bs) else (1, emit (aimutil_put8 v) bs))"
  by (cases "room bs < 1") (simp_all add: stream_simps)

lemma put16_eq: "bs_ok bs \<Longrightarrow>
   aimbs_put16 bs v = Some (if room bs < 2 then (0, bs) else (2, emit (aimutil_put16 v) bs))"
  by (cases "room bs < 2") (simp_all add: stream_simps)

lemma put32_eq: "bs_ok bs \<Longrightarrow>
   aimbs_put32 bs v = Some (if room bs < 4 then (0, bs) else (1, emit (aimutil_put32 v) bs))"
  by (cases "room bs < 4") (simp_all add: stream_simps)

lemma putraw_eq: "bs_ok bs \<Longrightarrow>
   aimbs_putraw bs xs (int (length xs)) =
     Some (if room bs < length xs then (0, bs) else (int (length xs), emit xs bs))"
  by (cases "room bs < length xs") (simp_all add: stream_simps)

lemmas get_eqs = get8_eq get16_eq get32_eq getle16_eq getle32_eq getrawbuf_eq getstr_eq getraw_eq

lemmas put_eqs = put8_eq put16_eq put32_eq putraw_eq



text \<open>The bytes just written, read back from where they were written.\<close>

lemma back_emit [simp]:
  "bs_ok bs \<Longrightarrow> length xs \<le> room bs \<Longrightarrow> bs_ok (emit xs bs\<lparr>bs_off := bs_off bs\<rparr>)"
  "bs_ok bs \<Longrightarrow> length xs \<le> room bs \<Longrightarrow>
   take (length xs) (unread (emit xs bs\<lparr>bs_off := bs_off bs\<rparr>)) = xs"
  "room (emit xs bs\<lparr>bs_off := bs_off bs\<rparr>) = room bs"
  "adv (length xs) (emit xs bs\<lparr>bs_off := bs_off bs\<rparr>) = emit xs bs"
  by (auto simp: bs_ok_def room_def emit_def unread_def adv_def)

lemma back_nth:
  assumes "bs_ok bs" "length xs \<le> room bs" "i < length xs"
  shows "unread (emit xs bs\<lparr>bs_off := bs_off bs\<rparr>) ! i = xs ! i"
  by (metis assms back_emit(2) nth_take)

lemma back_adv:
  "bs_ok bs \<Longrightarrow> n = length xs \<Longrightarrow> adv n (emit xs bs\<lparr>bs_off := bs_off bs\<rparr>) = emit xs bs"
  by simp

text \<open>For each width and byte order, writing a value and reading at the same place gives
  the value back and leaves the stream exactly where the write had left it.\<close>

theorem put_get_roundtrip:
  assumes "bs_ok bs" "4 \<le> room bs"
  shows
    "do { (_, b) \<leftarrow> aimbs_put8 bs v8; r \<leftarrow> aimbs_get8 (b\<lparr>bs_off := bs_off bs\<rparr>); Some (r = (v8, b)) } = Some True \<and>
     do { (_, b) \<leftarrow> aimbs_put16 bs v16; r \<leftarrow> aimbs_get16 (b\<lparr>bs_off := bs_off bs\<rparr>); Some (r = (v16, b)) } = Some True \<and>
     do { (_, b) \<leftarrow> aimbs_put32 bs v32; r \<leftarrow> aimbs_get32 (b\<lparr>bs_off := bs_off bs\<rparr>); Some (r = (v32, b)) } = Some True \<and>
     do { (_, b) \<leftarrow> aimbs_putle16 bs v16; r \<leftarrow> aimbs_getle16 (b\<lparr>bs_off := bs_off bs\<rparr>); Some (r = (v16, b)) } = Some True \<and>
     do { (_, b) \<leftarrow> aimbs_putle32 bs v32; r \<leftarrow> aimbs_getle32 (b\<lparr>bs_off := bs_off bs\<rparr>); Some (r = (v32, b)) } = Some True"
  using assms
  by (simp add: stream_simps back_nth back_adv aimutil_put8_def aimutil_put16_def aimutil_put32_def
      aimutil_putle16_def aimutil_putle32_def getle16_get16 getle32_get32 wire_simps)

theorem put_get_roundtrip_witness:
  "do { (_, b) \<leftarrow> aimbs_put16 (aim_bstream_init [1, 2, 3, 4, 5] 5) 0x0102;
        r \<leftarrow> aimbs_get16 (b\<lparr>bs_off := bs_off (aim_bstream_init [1, 2, 3, 4, 5] 5)\<rparr>);
        Some (r = (0x0102, b)) } = Some True"
  using put_get_roundtrip [of "aim_bstream_init [1, 2, 3, 4, 5] 5" 0 "0x0102"] by simp

text \<open>A buffer that is written to the end holds what was written.\<close>

lemma data_full:
  assumes "length d = length xs" "length xs < 65536"
  shows "bs_data (emit xs (aim_bstream_init d (int (length xs)))) = xs"
proof -
  have "written (emit xs (aim_bstream_init d (int (length xs)))) = xs" using assms by simp
  then show ?thesis using assms by (simp add: emit_def)
qed

end
