(* ===== verification/Tlv.thy ===== *)
theory Tlv
  imports Bstream
begin

text \<open>
  TLV chains: \<^verbatim>\<open>src/tlv.c\<close>. A chain is the list of its elements from the head on, and
  the null pointer is the empty chain; the \<^verbatim>\<open>aim_tlvlist_t **\<close> arguments are never null
  in this library. An element keeps the length field and the value pointer of \<^verbatim>\<open>aim_tlv_t\<close>
  apart, because the value of an element of length 0 is a null pointer that the accessors do
  not test. Releasing chains has no effect the model can see.

  The reader's loop may not end, so it is a partial function whose value \<open>None\<close> stands for
  that as well; \<open>readtlvchain_spec\<close> compares it with a structural parser of byte lists, which
  says for which inputs it returns, and what. The functions that take capability blocks and
  user information are in the theory of \<^verbatim>\<open>src/info.c\<close>.
\<close>

record tlv =
  tlv_type :: u16
  tlv_length :: u16
  tlv_value :: "u8 list option"

type_synonym tlvlist = "tlv list"

subsection \<open>Reading a chain\<close>

text \<open>\<^verbatim>\<open>createtlv\<close>: a zeroed element, or a null pointer.\<close>

definition createtlv :: "'a os_scheme \<Rightarrow> tlv option \<times> 'a os_scheme" where
  "createtlv s =
     (let (ok, s) = malloc s
      in (if ok then Some \<lparr>tlv_type = 0, tlv_length = 0, tlv_value = None\<rparr> else None, s))"

partial_function (option) readtlv_loop ::
  "bstream \<Rightarrow> tlvlist \<Rightarrow> 'a os_scheme \<Rightarrow> (tlvlist \<times> bstream \<times> 'a os_scheme) option" where
  [code]: "readtlv_loop bs list s =
     (if \<not> 0 < aim_bstream_empty bs then Some (list, bs, s)
      else do {
        (ty, bs) \<leftarrow> aimbs_get16 bs;
        (len, bs) \<leftarrow> aimbs_get16 bs;
        if int (unat len) > aim_bstream_empty bs then Some ([], bs, s)
        else let (ok, s) = malloc s
             in if \<not> ok then Some ([], bs, s)
                else case createtlv s of
                  (None, s) \<Rightarrow> Some ([], bs, s)
                | (Some new, s) \<Rightarrow>
                    if len = 0
                    then readtlv_loop bs (new\<lparr>tlv_type := ty, tlv_length := len\<rparr> # list) s
                    else do {
                      (v, bs, s) \<leftarrow> aimbs_getraw bs (int (unat len)) s;
                      case v of
                        None \<Rightarrow> Some ([], bs, s)
                      | Some xs \<Rightarrow>
                          readtlv_loop bs
                            (new\<lparr>tlv_type := ty, tlv_length := len, tlv_value := Some xs\<rparr> # list) s
                    }
      })"

definition aim_readtlvchain ::
  "bstream \<Rightarrow> 'a os_scheme \<Rightarrow> (tlvlist \<times> bstream \<times> 'a os_scheme) option" where
  "aim_readtlvchain bs s = readtlv_loop bs [] s"

text \<open>
  The function releases every element but then assigns to its own argument, so the caller's
  pointer is left as it was; the model keeps that pointer, now dangling, by returning the chain.
\<close>

definition aim_freetlvchain :: "tlvlist \<Rightarrow> tlvlist" where
  "aim_freetlvchain list = list"

primrec aim_counttlvchain :: "tlvlist \<Rightarrow> int" where
  "aim_counttlvchain [] = 0"
| "aim_counttlvchain (t # ts) = 1 + aim_counttlvchain ts"

primrec aim_sizetlvchain :: "tlvlist \<Rightarrow> int" where
  "aim_sizetlvchain [] = 0"
| "aim_sizetlvchain (t # ts) = (4 + int (unat (tlv_length t))) + aim_sizetlvchain ts"

subsection \<open>Adding elements\<close>

text \<open>
  The source object \<open>v\<close> must hold \<open>l\<close> bytes. The allocation of the value is not checked.
\<close>

definition aim_addtlvtochain_raw ::
  "tlvlist \<Rightarrow> u16 \<Rightarrow> u16 \<Rightarrow> u8 list \<Rightarrow> 'a os_scheme \<Rightarrow> (int \<times> tlvlist \<times> 'a os_scheme) option" where
  "aim_addtlvtochain_raw list t l v s =
     (let (ok, s) = malloc s
      in if \<not> ok then Some (0, list, s)
         else case createtlv s of
           (None, s) \<Rightarrow> Some (0, list, s)
         | (Some new, s) \<Rightarrow>
             if l = 0 then Some (0, list @ [new\<lparr>tlv_type := t, tlv_length := l\<rparr>], s)
             else let (ok, s) = malloc s
                  in if \<not> ok \<or> length v < unat l then None
                     else Some (int (unat l),
                            list @ [new\<lparr>tlv_type := t, tlv_length := l,
                                        tlv_value := Some (take (unat l) v)\<rparr>], s))"

definition aim_addtlvtochain8 ::
  "tlvlist \<Rightarrow> u16 \<Rightarrow> u8 \<Rightarrow> 'a os_scheme \<Rightarrow> (int \<times> tlvlist \<times> 'a os_scheme) option" where
  "aim_addtlvtochain8 list t v s = aim_addtlvtochain_raw list t 1 (aimutil_put8 v) s"

definition aim_addtlvtochain16 ::
  "tlvlist \<Rightarrow> u16 \<Rightarrow> u16 \<Rightarrow> 'a os_scheme \<Rightarrow> (int \<times> tlvlist \<times> 'a os_scheme) option" where
  "aim_addtlvtochain16 list t v s = aim_addtlvtochain_raw list t 2 (aimutil_put16 v) s"

definition aim_addtlvtochain32 ::
  "tlvlist \<Rightarrow> u16 \<Rightarrow> u32 \<Rightarrow> 'a os_scheme \<Rightarrow> (int \<times> tlvlist \<times> 'a os_scheme) option" where
  "aim_addtlvtochain32 list t v s = aim_addtlvtochain_raw list t 4 (aimutil_put32 v) s"

definition aim_addtlvtochain_noval ::
  "tlvlist \<Rightarrow> u16 \<Rightarrow> 'a os_scheme \<Rightarrow> (int \<times> tlvlist \<times> 'a os_scheme) option" where
  "aim_addtlvtochain_noval list t s = aim_addtlvtochain_raw list t 0 [] s"

subsection \<open>Writing a chain\<close>

primrec writetlv_loop :: "bstream \<Rightarrow> tlvlist \<Rightarrow> bstream option" where
  "writetlv_loop bs [] = Some bs"
| "writetlv_loop bs (t # ts) = do {
     (_, bs) \<leftarrow> aimbs_put16 bs (tlv_type t);
     (_, bs) \<leftarrow> aimbs_put16 bs (tlv_length t);
     if tlv_length t = 0 then writetlv_loop bs ts
     else do {
       v \<leftarrow> tlv_value t;
       (_, bs) \<leftarrow> aimbs_putraw bs v (int (unat (tlv_length t)));
       writetlv_loop bs ts
     }
   }"

definition aim_writetlvchain :: "bstream \<Rightarrow> tlvlist \<Rightarrow> (int \<times> bstream) option" where
  "aim_writetlvchain bs list =
     (let goodbuflen = foldl (\<lambda>n cur. n + (2 + 2) + int (unat (tlv_length cur))) 0 list
      in if goodbuflen > aim_bstream_empty bs then Some (0, bs)
         else do { bs \<leftarrow> writetlv_loop bs list; Some (1, bs) })"

definition aim_addtlvtochain_frozentlvlist ::
  "tlvlist \<Rightarrow> u16 \<Rightarrow> tlvlist \<Rightarrow> 'a os_scheme \<Rightarrow> (int \<times> tlvlist \<times> 'a os_scheme) option" where
  "aim_addtlvtochain_frozentlvlist list ty inner s =
     (let buflen = aim_sizetlvchain inner
      in if buflen \<le> 0 then Some (0, list, s)
         else let (ok, s) = malloc s
              in if \<not> ok then Some (0, list, s)
                 else do {
                   let bs = aim_bstream_init (fresh s (nat buflen)) buflen;
                   (_, bs) \<leftarrow> aim_writetlvchain bs inner;
                   (_, list, s) \<leftarrow> aim_addtlvtochain_raw list ty
                                     (word_of_int (aim_bstream_curpos bs)) (bs_data bs) s;
                   Some (buflen, list, s)
                 })"

subsection \<open>Looking elements up\<close>

primrec gettlv_loop :: "tlvlist \<Rightarrow> u16 \<Rightarrow> int \<Rightarrow> int \<Rightarrow> tlv option" where
  "gettlv_loop [] t n i = None"
| "gettlv_loop (cur # rest) t n i =
     (let i = (if tlv_type cur = t then i + 1 else i)
      in if n \<le> i then Some cur else gettlv_loop rest t n i)"

text \<open>Here \<open>None\<close> is the null pointer the code returns.\<close>

definition aim_gettlv :: "tlvlist \<Rightarrow> u16 \<Rightarrow> int \<Rightarrow> tlv option" where
  "aim_gettlv list t n = gettlv_loop list t n 0"

text \<open>The bytes of a fresh string, terminator excluded, or a null pointer.\<close>

definition aim_gettlv_str ::
  "tlvlist \<Rightarrow> u16 \<Rightarrow> int \<Rightarrow> 'a os_scheme \<Rightarrow> (u8 list option \<times> 'a os_scheme) option" where
  "aim_gettlv_str list t n s =
     (case aim_gettlv list t n of
        None \<Rightarrow> Some (None, s)
      | Some tlv \<Rightarrow>
          (let (ok, s) = malloc s
           in if \<not> ok then None
              else if tlv_length tlv = 0 then Some (Some [], s)
              else do {
                v \<leftarrow> tlv_value tlv;
                if length v < unat (tlv_length tlv) then None
                else Some (Some (take (unat (tlv_length tlv)) v), s)
              }))"

text \<open>The first \<open>k\<close> bytes at the value pointer.\<close>

definition tlv_bytes_at :: "tlv \<Rightarrow> nat \<Rightarrow> u8 list option" where
  "tlv_bytes_at tlv k =
     do { v \<leftarrow> tlv_value tlv; if length v < k then None else Some (take k v) }"

definition aim_gettlv8 :: "tlvlist \<Rightarrow> u16 \<Rightarrow> int \<Rightarrow> u8 option" where
  "aim_gettlv8 list t n =
     (case aim_gettlv list t n of
        None \<Rightarrow> Some 0
      | Some tlv \<Rightarrow> do { v \<leftarrow> tlv_bytes_at tlv 1; Some (aimutil_get8 (v ! 0)) })"

definition aim_gettlv16 :: "tlvlist \<Rightarrow> u16 \<Rightarrow> int \<Rightarrow> u16 option" where
  "aim_gettlv16 list t n =
     (case aim_gettlv list t n of
        None \<Rightarrow> Some 0
      | Some tlv \<Rightarrow> do { v \<leftarrow> tlv_bytes_at tlv 2; Some (aimutil_get16 (v ! 0) (v ! 1)) })"

definition aim_gettlv32 :: "tlvlist \<Rightarrow> u16 \<Rightarrow> int \<Rightarrow> u32 option" where
  "aim_gettlv32 list t n =
     (case aim_gettlv list t n of
        None \<Rightarrow> Some 0
      | Some tlv \<Rightarrow> do {
          v \<leftarrow> tlv_bytes_at tlv 4;
          Some (aimutil_get32 (v ! 0) (v ! 1) (v ! 2) (v ! 3))
        })"


section \<open>Well-formed chains and their bytes\<close>

text \<open>The length field counts the value, and only an empty value is a null pointer.\<close>

definition tlv_ok :: "tlv \<Rightarrow> bool" where
  "tlv_ok t \<longleftrightarrow>
     (case tlv_value t of
        None \<Rightarrow> tlv_length t = 0
      | Some v \<Rightarrow> v \<noteq> [] \<and> length v = unat (tlv_length t))"

definition chain_ok :: "tlvlist \<Rightarrow> bool" where
  "chain_ok ts \<longleftrightarrow> list_all tlv_ok ts"

text \<open>The bytes of a value.\<close>

definition tlv_val :: "tlv \<Rightarrow> u8 list" where
  "tlv_val t = (case tlv_value t of None \<Rightarrow> [] | Some v \<Rightarrow> v)"

text \<open>The element with the given type and value.\<close>

definition mk_tlv :: "u16 \<Rightarrow> u8 list \<Rightarrow> tlv" where
  "mk_tlv ty v = \<lparr>tlv_type = ty, tlv_length = of_nat (length v),
                  tlv_value = (if v = [] then None else Some v)\<rparr>"

definition tlv_wire :: "tlv \<Rightarrow> u8 list" where
  "tlv_wire t = aimutil_put16 (tlv_type t) @ aimutil_put16 (tlv_length t) @ tlv_val t"

definition chain_wire :: "tlvlist \<Rightarrow> u8 list" where
  "chain_wire ts = concat (map tlv_wire ts)"

lemma tlv_sel [simp]:
  "tlv_type (mk_tlv ty v) = ty" "tlv_length (mk_tlv ty v) = of_nat (length v)"
  "tlv_val (mk_tlv ty v) = v" "tlv_value (mk_tlv ty v) = (if v = [] then None else Some v)"
  by (auto simp: mk_tlv_def tlv_val_def)

lemma mk_tlv_Nil: "mk_tlv ty [] = \<lparr>tlv_type = ty, tlv_length = 0, tlv_value = None\<rparr>"
  by (simp add: mk_tlv_def)

lemma unat_len [simp]: "n < 65536 \<Longrightarrow> unat (of_nat n :: u16) = n"
  by (simp add: unat_of_nat)

lemma unat_u16_lt: "unat (w :: u16) < 65536"
  using unsigned_less [of w] by simp

lemma tlv_ok_mk [simp]: "length v < 65536 \<Longrightarrow> tlv_ok (mk_tlv ty v)"
  by (simp add: tlv_ok_def)

lemma length_tlv_val: "tlv_ok t \<Longrightarrow> length (tlv_val t) = unat (tlv_length t)"
  by (auto simp: tlv_ok_def tlv_val_def split: option.splits)

lemma length_tlv_wire: "tlv_ok t \<Longrightarrow> length (tlv_wire t) = 4 + unat (tlv_length t)"
  by (simp add: tlv_wire_def length_tlv_val)

lemma mk_tlv_eta: "tlv_ok t \<Longrightarrow> mk_tlv (tlv_type t) (tlv_val t) = t"
  by (cases t) (auto simp: tlv_ok_def tlv_val_def mk_tlv_def split: option.splits)

lemma chain_wire_simps [simp]:
  "chain_wire [] = []" "chain_wire (t # ts) = tlv_wire t @ chain_wire ts"
  "chain_wire (ts @ us) = chain_wire ts @ chain_wire us"
  by (simp_all add: chain_wire_def)

lemma chain_ok_simps [simp]:
  "chain_ok []" "chain_ok (t # ts) \<longleftrightarrow> tlv_ok t \<and> chain_ok ts"
  "chain_ok (ts @ us) \<longleftrightarrow> chain_ok ts \<and> chain_ok us"
  by (simp_all add: chain_ok_def)

lemma chain_ok_rev [simp]: "chain_ok (rev ts) = chain_ok ts"
  by (simp add: chain_ok_def)

lemma size_wire: "chain_ok ts \<Longrightarrow> aim_sizetlvchain ts = int (length (chain_wire ts))"
  by (induction ts) (simp_all add: length_tlv_wire)

lemma foldl_size:
  "foldl (\<lambda>n cur. n + (2 + 2) + int (unat (tlv_length cur))) k ts = k + aim_sizetlvchain ts"
  by (induction ts arbitrary: k) simp_all

lemma size_nonneg: "0 \<le> aim_sizetlvchain ts"
  by (induction ts) simp_all

lemma count_length: "aim_counttlvchain ts = int (length ts)"
  by (induction ts) simp_all

subsection \<open>Writing\<close>

lemma writetlv_loop_ok:
  "bs_ok bs \<Longrightarrow> chain_ok ts \<Longrightarrow> length (chain_wire ts) \<le> room bs \<Longrightarrow>
   writetlv_loop bs ts = Some (emit (chain_wire ts) bs)"
proof (induction ts arbitrary: bs)
  case (Cons t ts)
  then have ok: "tlv_ok t" "chain_ok ts" and
    le: "4 + unat (tlv_length t) + length (chain_wire ts) \<le> room bs"
    by (simp_all add: length_tlv_wire)
  note IH = Cons.IH [OF bs_ok_emit [OF Cons.prems(1)], OF _ ok(2)]
  show ?case
  proof (cases "tlv_length t = 0")
    case True
    then have "tlv_val t = []"
      using length_tlv_val [OF ok(1)] by simp
    with True le show ?thesis
      by (simp add: Cons.prems stream_simps IH tlv_wire_def)
  next
    case False
    then obtain v where v: "tlv_value t = Some v" "tlv_val t = v" "length v = unat (tlv_length t)"
      using ok(1) by (auto simp: tlv_ok_def tlv_val_def split: option.splits)
    with False le show ?thesis
      by (simp add: Cons.prems stream_simps IH tlv_wire_def)
  qed
qed simp

lemma write_chain [stream_simps]:
  "bs_ok bs \<Longrightarrow> chain_ok ts \<Longrightarrow> length (chain_wire ts) \<le> room bs \<Longrightarrow>
   aim_writetlvchain bs ts = Some (1, emit (chain_wire ts) bs)"
  unfolding aim_writetlvchain_def foldl_size
  by (simp add: empty_eq size_wire writetlv_loop_ok)

lemma write_chain_full [stream_simps]:
  "bs_ok bs \<Longrightarrow> chain_ok ts \<Longrightarrow> room bs < length (chain_wire ts) \<Longrightarrow>
   aim_writetlvchain bs ts = Some (0, bs)"
  unfolding aim_writetlvchain_def foldl_size
  by (simp add: empty_eq size_wire)

subsection \<open>Adding\<close>

lemma createtlv_ok [simp, libc_simps]:
  "mem_ok s \<Longrightarrow> createtlv s = (Some \<lparr>tlv_type = 0, tlv_length = 0, tlv_value = None\<rparr>, s)"
  by (simp add: createtlv_def)

lemma addraw_ok [libc_simps]:
  "mem_ok s \<Longrightarrow> unat l \<le> length v \<Longrightarrow>
   aim_addtlvtochain_raw ts t l v s = Some (int (unat l), ts @ [mk_tlv t (take (unat l) v)], s)"
  by (cases "l = 0") (auto simp: aim_addtlvtochain_raw_def mk_tlv_def Let_def min_def unat_eq_zero)

lemma add8_ok [libc_simps]:
  "mem_ok s \<Longrightarrow> aim_addtlvtochain8 ts t v s = Some (1, ts @ [mk_tlv t (aimutil_put8 v)], s)"
  by (simp add: aim_addtlvtochain8_def addraw_ok)

lemma add16_ok [libc_simps]:
  "mem_ok s \<Longrightarrow> aim_addtlvtochain16 ts t v s = Some (2, ts @ [mk_tlv t (aimutil_put16 v)], s)"
  by (simp add: aim_addtlvtochain16_def addraw_ok)

lemma add32_ok [libc_simps]:
  "mem_ok s \<Longrightarrow> aim_addtlvtochain32 ts t v s = Some (4, ts @ [mk_tlv t (aimutil_put32 v)], s)"
  by (simp add: aim_addtlvtochain32_def addraw_ok)

lemma addnoval_ok [libc_simps]:
  "mem_ok s \<Longrightarrow> aim_addtlvtochain_noval ts t s = Some (0, ts @ [mk_tlv t []], s)"
  by (simp add: aim_addtlvtochain_noval_def addraw_ok)

lemma frozen_ok [libc_simps]:
  assumes "mem_ok s" "chain_ok inner" "inner \<noteq> []" "length (chain_wire inner) < 65536"
  shows "aim_addtlvtochain_frozentlvlist ts t inner s =
           Some (int (length (chain_wire inner)), ts @ [mk_tlv t (chain_wire inner)], s)"
proof -
  let ?n = "length (chain_wire inner)" and ?d = "fresh s (length (chain_wire inner))"
  have pos: "0 < ?n"
    using assms(2,3) by (cases inner) (simp_all add: length_tlv_wire)
  have "written (emit (chain_wire inner) (aim_bstream_init ?d (int ?n))) = chain_wire inner"
    using assms(4) by simp
  then have "bs_data (emit (chain_wire inner) (aim_bstream_init ?d (int ?n))) = chain_wire inner"
    using assms(4) by (simp add: emit_def)
  with assms pos show ?thesis
    by (simp add: aim_addtlvtochain_frozentlvlist_def size_wire write_chain addraw_ok)
qed

subsection \<open>Looking up\<close>

text \<open>The elements of a type, in order.\<close>

definition of_type :: "u16 \<Rightarrow> tlvlist \<Rightarrow> tlvlist" where
  "of_type t ts = filter (\<lambda>x. tlv_type x = t) ts"

lemma gettlv_loop_nth:
  "i < n \<Longrightarrow> gettlv_loop ts t n i =
     (if nat (n - i) \<le> length (of_type t ts) then Some (of_type t ts ! (nat (n - i) - 1)) else None)"
proof (induction ts arbitrary: i)
  case (Cons a ts)
  show ?case
  proof (cases "tlv_type a = t")
    case True
    show ?thesis
    proof (cases "n = i + 1")
      case False
      with True Cons.prems have "nat (n - i) = Suc (nat (n - (i + 1)))" "0 < nat (n - (i + 1))"
        by auto
      with True False Cons show ?thesis
        by (auto simp: of_type_def Let_def nth_Cons')
    qed (use True in \<open>simp add: of_type_def\<close>)
  next
    case False
    with Cons show ?thesis by (simp add: of_type_def)
  qed
qed (simp add: of_type_def)

lemma gettlv_nth [libc_simps]:
  "0 < n \<Longrightarrow> aim_gettlv ts t n =
     (if nat n \<le> length (of_type t ts) then Some (of_type t ts ! (nat n - 1)) else None)"
  by (simp add: aim_gettlv_def gettlv_loop_nth)

lemma gettlv_in: "aim_gettlv ts t n = Some x \<Longrightarrow> x \<in> set ts"
proof -
  have "gettlv_loop ts t n i = Some x \<Longrightarrow> x \<in> set ts" for i
    by (induction ts arbitrary: i) (auto simp: Let_def split: if_splits)
  then show "aim_gettlv ts t n = Some x \<Longrightarrow> x \<in> set ts"
    by (simp add: aim_gettlv_def)
qed

lemma gettlv_type: "0 < n \<Longrightarrow> aim_gettlv ts t n = Some x \<Longrightarrow> tlv_type x = t"
proof -
  assume "0 < n" "aim_gettlv ts t n = Some x"
  then have "x \<in> set (of_type t ts)"
    by (auto simp: gettlv_nth nth_mem split: if_splits)
  then show "tlv_type x = t" by (simp add: of_type_def)
qed

lemma of_type_simps [simp]:
  "of_type t [] = []" "of_type t (ts @ us) = of_type t ts @ of_type t us"
  "of_type t (x # ts) = (if tlv_type x = t then x # of_type t ts else of_type t ts)"
  by (simp_all add: of_type_def)

lemma gettlv_str_ok [libc_simps]:
  "mem_ok s \<Longrightarrow> chain_ok ts \<Longrightarrow>
   aim_gettlv_str ts t n s = Some (map_option tlv_val (aim_gettlv ts t n), s)"
proof (cases "aim_gettlv ts t n")
  case (Some x)
  assume "mem_ok s" "chain_ok ts"
  with gettlv_in [OF Some] have "tlv_ok x"
    by (auto simp: chain_ok_def list_all_iff)
  with \<open>mem_ok s\<close> Some show ?thesis
    by (cases "tlv_value x") (auto simp: aim_gettlv_str_def tlv_ok_def tlv_val_def)
qed (simp add: aim_gettlv_str_def)

section \<open>What the reader accepts\<close>

text \<open>
  The reader as a function of the bytes to read: \<open>None\<close> where it never returns, which is
  when one or three bytes are left at the start of an element, the empty chain where an
  element claims more bytes than there are.
\<close>

function parse_chain :: "u8 list \<Rightarrow> tlvlist \<Rightarrow> tlvlist option" where
  "parse_chain [] acc = Some acc"
| "parse_chain [a] acc = None"
| "parse_chain [a, b] acc = Some (mk_tlv (aimutil_get16 a b) [] # acc)"
| "parse_chain [a, b, c] acc = None"
| "parse_chain (a # b # c # d # rest) acc =
     (let n = unat (aimutil_get16 c d)
      in if length rest < n then Some []
         else parse_chain (drop n rest) (mk_tlv (aimutil_get16 a b) (take n rest) # acc))"
  by pat_completeness auto
termination by (relation "measure (\<lambda>(xs, acc). length xs)") auto

text \<open>
  How many of the bytes the reader takes, where it returns: all of them, or up to the end of the
  type and length fields of the element that claims too much.
\<close>

function parse_stop :: "u8 list \<Rightarrow> nat" where
  "parse_stop [] = 0"
| "parse_stop [a] = 0"
| "parse_stop [a, b] = 2"
| "parse_stop [a, b, c] = 2"
| "parse_stop (a # b # c # d # rest) =
     (let n = unat (aimutil_get16 c d)
      in if length rest < n then 4 else 4 + n + parse_stop (drop n rest))"
  by pat_completeness auto
termination by (relation "measure length") auto

text \<open>A chain that is not empty was read to the end of the stream.\<close>

lemma parse_stop_end:
  "parse_chain xs acc = Some ts \<Longrightarrow> ts \<noteq> [] \<Longrightarrow> parse_stop xs = length xs"
proof (induction xs acc rule: parse_chain.induct)
  case (5 a b c d rest acc)
  then show ?case by (auto simp: Let_def split: if_splits)
qed auto

lemma parse_stop_le: "parse_stop xs \<le> length xs"
  by (induction xs rule: parse_stop.induct) (auto simp: Let_def)

text \<open>With one byte left the loop adds empty elements of type 0 for ever.\<close>

lemma readtlv_loop_one:
  assumes "bs_ok bs" "room bs = 1" "mem_ok s"
  shows "readtlv_loop bs list s = None"
proof -
  have "readtlv_loop b l z = Some y \<Longrightarrow> \<not> (bs_ok b \<and> room b = 1 \<and> mem_ok z)"
    for b l y and z :: "'a os_scheme"
    by (erule readtlv_loop.raw_induct [rotated])
      (auto simp: empty_eq stream_simps mem_ok_def malloc_def createtlv_def)
  with assms show ?thesis by (cases "readtlv_loop bs list s") auto
qed

lemma readtlv_loop_eq:
  "bs_ok bs \<Longrightarrow> mem_ok s \<Longrightarrow>
   readtlv_loop bs list s =
     map_option (\<lambda>ts. (ts, adv (parse_stop (unread bs)) bs, s)) (parse_chain (unread bs) list)"
proof (induction "unread bs" list arbitrary: bs rule: parse_chain.induct)
  case (1 acc)
  then have "room bs = 0" by (metis length_unread list.size(3))
  with 1 show ?case by (simp add: readtlv_loop.simps empty_eq)
next
  case (2 a acc)
  then have "room bs = 1" by (metis length_unread length_Cons list.size(3) One_nat_def)
  with 2(2,3) show ?case by (simp add: readtlv_loop_one flip: 2(1))
next
  case (3 a b acc)
  then have r: "room bs = 2" using length_unread [of bs] by (simp flip: 3(1))
  note u = 3(1) [symmetric]
  have "readtlv_loop (adv 2 bs) l s = Some (l, adv 2 bs, s)" for l
    using 3 r by (subst readtlv_loop.simps) (simp add: empty_eq)
  with 3(2,3) r show ?case
    by (subst readtlv_loop.simps) (simp add: empty_eq stream_simps u mk_tlv_def)
next
  case (4 a b c acc)
  then have r: "room bs = 3" using length_unread [of bs] by (simp flip: 4(1))
  note u = 4(1) [symmetric]
  have "readtlv_loop (adv 2 bs) l s = None" for l
    using 4(2,3) r by (intro readtlv_loop_one) simp_all
  with 4(2,3) r show ?case
    by (subst readtlv_loop.simps) (simp add: empty_eq stream_simps u)
next
  case (5 a b c d rest acc)
  then have r: "room bs = 4 + length rest" using length_unread [of bs] by (simp flip: 5(2))
  note u = 5(2) [symmetric]
  note ok = 5(3,4)
  let ?n = "unat (aimutil_get16 c d)"
  show ?case
  proof (cases "length rest < ?n")
    case True
    then have "int (length rest) < uint (aimutil_get16 c d)"
      by (metis of_nat_unat of_nat_less_iff)
    with True r ok show ?thesis
      by (subst readtlv_loop.simps) (simp add: empty_eq stream_simps u)
  next
    case False
    then have le: "\<not> int (length rest) < uint (aimutil_get16 c d)"
      by (metis of_nat_unat of_nat_less_iff)
    have mk: "mk_tlv (aimutil_get16 a b) (take ?n rest) =
        \<lparr>tlv_type = aimutil_get16 a b, tlv_length = aimutil_get16 c d,
         tlv_value = (if aimutil_get16 c d = 0 then None else Some (take ?n rest))\<rparr>"
      using False by (auto simp: mk_tlv_def min_def unat_eq_zero)
    have dr: "drop ?n rest = unread (adv (4 + ?n) bs)"
      by (simp add: u numeral_eq_Suc)
    have IH: "readtlv_loop (adv (4 + ?n) bs) l s =
        map_option (\<lambda>ts. (ts, adv (parse_stop (drop ?n rest)) (adv (4 + ?n) bs), s)) (parse_chain (drop ?n rest) l)"
      if "l = mk_tlv (aimutil_get16 a b) (take ?n rest) # acc" for l
      using 5(1) [OF refl False dr] that ok r False dr by simp
    show ?thesis
      using False le r ok IH
      by (cases "aimutil_get16 c d = 0"; subst readtlv_loop.simps)
        (simp_all add: empty_eq stream_simps u mk mk_tlv_Nil Let_def)
  qed
qed

lemma readtlv_loop_parse:
  "bs_ok bs \<Longrightarrow> mem_ok s \<Longrightarrow>
   map_option fst (readtlv_loop bs list s) = parse_chain (unread bs) list"
  by (simp add: readtlv_loop_eq option.map_comp comp_def option.map_ident)

lemma readtlvchain_spec:
  "bs_ok bs \<Longrightarrow> mem_ok s \<Longrightarrow> map_option fst (aim_readtlvchain bs s) = parse_chain (unread bs) []"
  by (simp add: aim_readtlvchain_def readtlv_loop_parse)

section \<open>Round trips and lookups\<close>

lemma tlv_wire_cons:
  "tlv_ok t \<Longrightarrow>
   tlv_wire t @ rest = ucast (drop_bit 8 (tlv_type t)) # ucast (tlv_type t)
     # ucast (drop_bit 8 (tlv_length t)) # ucast (tlv_length t) # (tlv_val t @ rest)"
  by (simp add: tlv_wire_def aimutil_put16_def)

lemma parse_wire:
  "chain_ok ts \<Longrightarrow> parse_chain (chain_wire ts @ rest) acc = parse_chain rest (rev ts @ acc)"
proof (induction ts arbitrary: acc)
  case (Cons t ts)
  then show ?case
    by (simp add: tlv_wire_cons wire_simps length_tlv_val Let_def mk_tlv_eta)
qed simp

lemma stop_wire:
  "chain_ok ts \<Longrightarrow> parse_stop (chain_wire ts @ rest) = length (chain_wire ts) + parse_stop rest"
proof (induction ts)
  case (Cons t ts)
  then show ?case
    by (simp add: tlv_wire_cons wire_simps length_tlv_val Let_def)
qed simp

lemma parse_wire_only: "chain_ok ts \<Longrightarrow> parse_chain (chain_wire ts) [] = Some (rev ts)"
  using parse_wire [of ts "[]" "[]"] by simp

lemma parse_chain_ok:
  "parse_chain xs acc = Some ts \<Longrightarrow> chain_ok acc \<Longrightarrow> chain_ok ts"
proof (induction xs acc rule: parse_chain.induct)
  case (5 a b c d rest acc)
  then show ?case
    using unat_u16_lt [of "aimutil_get16 c d"] by (auto simp: Let_def split: if_splits)
qed auto

lemma readtlvchain_chain_ok:
  assumes "bs_ok bs" "mem_ok s" "aim_readtlvchain bs s = Some (ts, r)"
  shows "chain_ok ts"
  using readtlvchain_spec [OF assms(1,2)] assms(3) parse_chain_ok [of "unread bs" "[]" ts] by auto

lemma readtlvchain_wire:
  assumes "bs_ok bs" "mem_ok s" "unread bs = chain_wire ts" "chain_ok ts"
  obtains bs' s' where "aim_readtlvchain bs s = Some (rev ts, bs', s')"
  using readtlvchain_spec [OF assms(1,2)] parse_wire_only [OF assms(4)] assms(3) by auto

text \<open>C1: reading a chain returns exactly what the structural parser of its bytes returns, with
  the stream moved on by the bytes the parser takes and the rest of the state as it was; in
  particular it fails to return exactly when the parser meets one or three left-over bytes. A
  chain that is not empty comes with the stream at its end.\<close>

theorem readtlvchain_is_parser:
  assumes "bs_ok bs" "mem_ok s"
  shows "aim_readtlvchain bs s =
      (case parse_chain (unread bs) [] of
         None \<Rightarrow> None
       | Some ts \<Rightarrow> Some (ts, adv (parse_stop (unread bs)) bs, s)) \<and>
    (\<forall>ts. parse_chain (unread bs) [] = Some ts \<and> ts \<noteq> [] \<longrightarrow>
       unread (adv (parse_stop (unread bs)) bs) = [])"
  using readtlv_loop_eq [OF assms, of "[]"] parse_stop_end [of "unread bs" "[]"]
  by (auto simp: aim_readtlvchain_def split: option.split)

theorem readtlvchain_is_parser_witness:
  "aim_readtlvchain (aim_bstream_init [0, 1, 0, 2, 7, 8] 6) (undefined\<lparr>os_allocs := []\<rparr> :: os) =
     Some ([mk_tlv 1 [7, 8]], adv 6 (aim_bstream_init [0, 1, 0, 2, 7, 8] 6), undefined\<lparr>os_allocs := []\<rparr>)"
  using readtlvchain_is_parser [of "aim_bstream_init [0, 1, 0, 2, 7, 8] 6"
      "undefined\<lparr>os_allocs := []\<rparr> :: os"]
  by (simp add: mem_ok_def aimutil_get16_def)

text \<open>C2: a chain read back from the bytes it was written as has the same elements, in the
  opposite order. After whole elements, two stray bytes become an empty element of that type,
  one or three stray bytes keep the reader from ever returning, and an element that claims more
  bytes than follow makes it give up everything: it returns the empty chain, with the stream
  just after the four bytes of that element.\<close>

theorem readtlvchain_of_wire:
  assumes "bs_ok bs" "mem_ok s" "chain_ok ts" "unread bs = chain_wire ts @ rest"
  shows "(rest = [] \<longrightarrow> aim_readtlvchain bs s = Some (rev ts, adv (length (chain_wire ts)) bs, s)) \<and>
    (\<forall>a b. rest = [a, b] \<longrightarrow>
       aim_readtlvchain bs s =
         Some (mk_tlv (aimutil_get16 a b) [] # rev ts, adv (length (chain_wire ts) + 2) bs, s)) \<and>
    (length rest = 1 \<or> length rest = 3 \<longrightarrow> aim_readtlvchain bs s = None) \<and>
    (\<forall>a b c d tail. rest = a # b # c # d # tail \<and> length tail < unat (aimutil_get16 c d) \<longrightarrow>
       aim_readtlvchain bs s = Some ([], adv (length (chain_wire ts) + 4) bs, s))"
proof -
  have *: "aim_readtlvchain bs s = map_option (\<lambda>ts'. (ts', adv (length (chain_wire ts) + parse_stop rest) bs, s))
      (parse_chain rest (rev ts))"
    using readtlv_loop_eq [OF assms(1,2), of "[]"] parse_wire [OF assms(3), of rest "[]"] stop_wire [OF assms(3), of rest]
    by (simp add: aim_readtlvchain_def assms(4))
  have "length rest = 1 \<or> length rest = 3 \<Longrightarrow> parse_chain rest (rev ts) = None"
    by (auto simp: length_Suc_conv numeral_3_eq_3)
  with * show ?thesis by (auto simp: Let_def)
qed

theorem readtlvchain_of_wire_witness:
  "aim_readtlvchain (aim_bstream_init [0, 1, 0, 1, 9, 5] 6) (undefined\<lparr>os_allocs := []\<rparr> :: os) = None"
  using readtlvchain_of_wire [of "aim_bstream_init [0, 1, 0, 1, 9, 5] 6"
      "undefined\<lparr>os_allocs := []\<rparr> :: os" "[mk_tlv 1 [9]]" "[5]"]
  by (simp add: mem_ok_def tlv_wire_def aimutil_put16_def)

text \<open>Writing a chain needs exactly as many bytes as \<^verbatim>\<open>aim_sizetlvchain\<close> says: with that
  much room the stream grows by the elements in order, with less it is left untouched.\<close>

theorem writetlvchain_all_or_nothing:
  assumes "bs_ok bs" "chain_ok ts"
  shows "aim_writetlvchain bs ts =
      (if aim_sizetlvchain ts \<le> aim_bstream_empty bs then Some (1, emit (chain_wire ts) bs)
       else Some (0, bs))
    \<and> int (length (chain_wire ts)) = aim_sizetlvchain ts"
  using assms by (simp add: size_wire empty_eq write_chain write_chain_full)

theorem writetlvchain_all_or_nothing_witness:
  "aim_writetlvchain (aim_bstream_init (replicate 4 0) 4) [mk_tlv 1 [9]] =
     Some (0, aim_bstream_init (replicate 4 0) 4)"
  using writetlvchain_all_or_nothing [of "aim_bstream_init (replicate 4 0) 4" "[mk_tlv 1 [9]]"]
  by (simp add: empty_eq)

text \<open>C3: adding an element appends it, with the bytes given, and looking a type up by number
  finds the elements of that type in order, those added before this one unchanged.\<close>

theorem addtlv_then_gettlv:
  assumes "mem_ok s" "unat l \<le> length v" "0 < n"
  shows "\<exists>ts'. aim_addtlvtochain_raw ts t l v s = Some (int (unat l), ts', s) \<and>
    (aim_gettlv ts' t' n =
       (if t' = t \<and> nat n = Suc (length (of_type t ts)) then Some (mk_tlv t (take (unat l) v))
        else aim_gettlv ts t' n))"
  using assms
  by (intro exI [of _ "ts @ [mk_tlv t (take (unat l) v)]"])
    (auto simp: addraw_ok gettlv_nth nth_append)

theorem addtlv_then_gettlv_witness:
  "\<exists>ts'. aim_addtlvtochain_raw [mk_tlv 3 [4]] 3 2 [5, 6] (undefined\<lparr>os_allocs := []\<rparr> :: os) =
       Some (2, ts', undefined\<lparr>os_allocs := []\<rparr>) \<and> aim_gettlv ts' 3 2 = Some (mk_tlv 3 [5, 6])"
  using addtlv_then_gettlv [of "undefined\<lparr>os_allocs := []\<rparr> :: os" 2 "[5, 6]" 2 "[mk_tlv 3 [4]]" 3 3]
  by (simp add: mem_ok_def)

lemma length_mk_wire: "length v < 65536 \<Longrightarrow> length (tlv_wire (mk_tlv t v)) = 4 + length v"
  by (simp add: tlv_wire_def tlv_val_def mk_tlv_def)

lemma addraw_all:
  "mem_ok s \<Longrightarrow> length v < 65536 \<Longrightarrow>
   aim_addtlvtochain_raw ts t (of_nat (length v)) v s = Some (int (length v), ts @ [mk_tlv t v], s)"
  by (simp add: addraw_ok)

end
