(* ===== verification/Session.thy ===== *)
theory Session
  imports Tlv
begin

text \<open>
  The data of a session: the structures of \<^verbatim>\<open>include/aim.h\<close>,
  \<^verbatim>\<open>include/aim_internal.h\<close> and \<^verbatim>\<open>src/rxhandlers.c\<close>, and the client the library
  calls back.

  Connections live at addresses, so that a frame can refer to a connection that was released
  in the meantime: \<open>conns\<close> maps the address of a live connection to its content, and
  \<open>connlist\<close> holds the addresses in the order of the linked list. What the \<open>priv\<close> and
  \<open>internal\<close> pointers of a connection point to lives in \<open>objs\<close> in the same way. Frames and
  message cookies are kept in the lists they are linked in; each carries the address it was
  allocated at, which is its identity. \<open>next_addr\<close> is an address no object has had.

  A session extends the state of the C library and operating system of theory \<open>Libc\<close>.
\<close>

subsection \<open>Constants\<close>

definition AIM_CONN_TYPE_AUTH :: u16 where "AIM_CONN_TYPE_AUTH = 0x0007"
definition AIM_CONN_TYPE_ADS :: u16 where "AIM_CONN_TYPE_ADS = 0x0005"
definition AIM_CONN_TYPE_BOS :: u16 where "AIM_CONN_TYPE_BOS = 0x0002"
definition AIM_CONN_TYPE_CHAT :: u16 where "AIM_CONN_TYPE_CHAT = 0x000e"
definition AIM_CONN_TYPE_CHATNAV :: u16 where "AIM_CONN_TYPE_CHATNAV = 0x000d"
definition AIM_CONN_TYPE_RENDEZVOUS :: u16 where "AIM_CONN_TYPE_RENDEZVOUS = 0x0101"
definition AIM_CONN_TYPE_RENDEZVOUS_OUT :: u16 where "AIM_CONN_TYPE_RENDEZVOUS_OUT = 0x0102"

definition AIM_CONN_SUBTYPE_OFT_DIRECTIM :: u16 where "AIM_CONN_SUBTYPE_OFT_DIRECTIM = 0x0001"
definition AIM_CONN_SUBTYPE_OFT_GETFILE :: u16 where "AIM_CONN_SUBTYPE_OFT_GETFILE = 0x0002"
definition AIM_CONN_SUBTYPE_OFT_SENDFILE :: u16 where "AIM_CONN_SUBTYPE_OFT_SENDFILE = 0x0003"

definition AIM_CONN_STATUS_CONNERR :: u32 where "AIM_CONN_STATUS_CONNERR = 0x0080"
definition AIM_CONN_STATUS_RESOLVERR :: u32 where "AIM_CONN_STATUS_RESOLVERR = 0x0040"
definition AIM_CONN_STATUS_INPROGRESS :: u32 where "AIM_CONN_STATUS_INPROGRESS = 0x0100"

definition AIM_FRAMETYPE_FLAP :: u8 where "AIM_FRAMETYPE_FLAP = 0x00"
definition AIM_FRAMETYPE_OFT :: u8 where "AIM_FRAMETYPE_OFT = 0x01"

definition AIM_SESS_FLAGS_SNACLOGIN :: u32 where "AIM_SESS_FLAGS_SNACLOGIN = 0x00000001"
definition AIM_SESS_FLAGS_XORLOGIN :: u32 where "AIM_SESS_FLAGS_XORLOGIN = 0x00000002"
definition AIM_SESS_FLAGS_NONBLOCKCONNECT :: u32 where "AIM_SESS_FLAGS_NONBLOCKCONNECT = 0x00000004"
definition AIM_SESS_FLAGS_DONTTIMEOUTONICBM :: u32 where
  "AIM_SESS_FLAGS_DONTTIMEOUTONICBM = 0x00000008"

definition AIM_CB_FAM_SPECIAL :: u16 where "AIM_CB_FAM_SPECIAL = 0xffff"
definition AIM_CB_SPECIAL_CONNERR :: u16 where "AIM_CB_SPECIAL_CONNERR = 0x0003"
definition AIM_CB_SPECIAL_CONNCOMPLETE :: u16 where "AIM_CB_SPECIAL_CONNCOMPLETE = 0x0004"
definition AIM_CB_SPECIAL_FLAPVER :: u16 where "AIM_CB_SPECIAL_FLAPVER = 0x0005"
definition AIM_CB_SPECIAL_CONNINITDONE :: u16 where "AIM_CB_SPECIAL_CONNINITDONE = 0x0006"
definition AIM_CB_SPECIAL_DEFAULT :: u16 where "AIM_CB_SPECIAL_DEFAULT = 0xffff"

definition AIM_MODFLAG_MULTIFAMILY :: u16 where "AIM_MODFLAG_MULTIFAMILY = 0x0001"
definition FAIM_SNAC_HASH_SIZE :: nat where "FAIM_SNAC_HASH_SIZE = 16"
definition MAXSNLEN :: nat where "MAXSNLEN = 32"

definition AIM_COOKIETYPE_UNKNOWN :: int where "AIM_COOKIETYPE_UNKNOWN = 0x00"
definition AIM_COOKIETYPE_CHAT :: int where "AIM_COOKIETYPE_CHAT = 0x05"
definition AIM_COOKIETYPE_INVITE :: int where "AIM_COOKIETYPE_INVITE = 0x07"
definition AIM_COOKIETYPE_OFTIM :: int where "AIM_COOKIETYPE_OFTIM = 0x10"
definition AIM_COOKIETYPE_OFTGET :: int where "AIM_COOKIETYPE_OFTGET = 0x11"
definition AIM_COOKIETYPE_OFTSEND :: int where "AIM_COOKIETYPE_OFTSEND = 0x12"
definition AIM_COOKIETYPE_OFTVOICE :: int where "AIM_COOKIETYPE_OFTVOICE = 0x13"
definition AIM_COOKIETYPE_OFTIMAGE :: int where "AIM_COOKIETYPE_OFTIMAGE = 0x14"
definition AIM_COOKIETYPE_OFTICON :: int where "AIM_COOKIETYPE_OFTICON = 0x15"

subsection \<open>User information\<close>

text \<open>\<open>ui_sn\<close> is the whole buffer of 33 bytes, not just the string in it.\<close>

record aim_userinfo =
  ui_sn :: "u8 list"
  ui_warnlevel :: u16
  ui_idletime :: u16
  ui_flags :: u16
  ui_createtime :: u32
  ui_membersince :: u32
  ui_onlinesince :: u32
  ui_sessionlen :: u32
  ui_capabilities :: u32
  ui_icqstatus :: u32
  ui_icqipaddr :: u32
  ui_icqcrap :: "u8 list"
  ui_present :: u32

subsection \<open>Arguments of callbacks\<close>

text \<open>
  The arguments the variadic callbacks get after the session and the frame. Structures are
  passed by their fields; a null \<^verbatim>\<open>char *\<close> is \<open>ArgStr None\<close>.
\<close>

datatype cb_arg =
    ArgInt int
  | ArgStr "cstring option"
  | ArgBytes "u8 list option"
  | ArgConn "nat option"
  | ArgUserinfo aim_userinfo
  | ArgList "cb_arg list"

subsection \<open>Connections\<close>

text \<open>Callbacks: the library's own \<^verbatim>\<open>bleck\<close>, or a function of the client.\<close>

datatype rxhandler = Bleck | UserCb nat

record aim_rxcblist =
  cb_family :: u16
  cb_type :: u16
  cb_handler :: rxhandler
  cb_flags :: u16

record rateclass =
  rc_classid :: u16
  rc_windowsize :: u32
  rc_clear :: u32
  rc_alert :: u32
  rc_limit :: u32
  rc_disconnect :: u32
  rc_current :: u32
  rc_max :: u32
  rc_unknown :: "u8 list"
  rc_members :: "(u16 \<times> u16) list"

record conn_inside =
  in_groups :: "u16 list"
  in_rates :: "rateclass list"

record aim_conn =
  conn_fd :: int
  conn_type :: u16
  conn_subtype :: u16
  conn_seqnum :: u16
  conn_status :: u32
  conn_priv :: "nat option"
  conn_internal :: "nat option"
  conn_lastactivity :: int
  conn_forcedlatency :: int
  conn_handlerlist :: "aim_rxcblist list"
  conn_sessv :: bool
  conn_inside :: "conn_inside option"

text \<open>
  What \<open>priv\<close> and \<open>internal\<close> point to: the room of a chat connection, the cookie of a file
  transfer, the cookie and the buffers for the name (33 bytes) and the address (22 bytes) of
  the peer of a direct connection; what is kept with the cookie of an invitation: whom it went to,
  and the room; and a structure of the client's own, by its members, which \<^verbatim>\<open>aux_data\<close> of the
  session may point to.
\<close>

datatype obj =
    ChatPriv u16 "cstring option" u16
  | XferPriv "u8 list"
  | DirectimData "u8 list" "u8 list" "u8 list"
  | InvitePriv "cstring option" "cstring option" u16 u16
  | ClientData "cb_arg list"

subsection \<open>Frames\<close>

datatype frame_hdr =
    Flap u8 u16
  | Oft u16 "u8 list" u16 "u8 list option"

record aim_frame =
  fr_id :: nat
  fr_hdr :: frame_hdr
  fr_data :: bstream
  fr_handled :: u8
  fr_nofree :: u8
  fr_conn :: "nat option"

definition fr_hdrtype :: "aim_frame \<Rightarrow> u8" where
  "fr_hdrtype fr = (case fr_hdr fr of Flap _ _ \<Rightarrow> AIM_FRAMETYPE_FLAP | Oft _ _ _ _ \<Rightarrow> AIM_FRAMETYPE_OFT)"

subsection \<open>Modules\<close>

text \<open>The functions that module structures point to as \<^verbatim>\<open>snachandler\<close>, one per module.\<close>

datatype modkind =
    HMisc | HGeneral | HLocate | HBuddylist | HMessaging | HAdverts | HAdmin | HPopups | HBos
  | HSearch | HStats | HChatnav | HChat | HSsi | HIcq | HAuth

record aim_module =
  mod_family :: u16
  mod_version :: u16
  mod_toolid :: u16
  mod_toolversion :: u16
  mod_flags :: u16
  mod_name :: cstring
  mod_snachandler :: "modkind option"

record aim_modsnac =
  ms_family :: u16
  ms_subtype :: u16
  ms_flags :: u16
  ms_id :: u32

subsection \<open>Outstanding requests and message cookies\<close>

text \<open>
  The data kept with a request, by the structure its sender copied: plain bytes (among them
  strings with their terminator), the screen name and kind of an information request, the
  room of a chat service request, with its name in a field of 128 bytes.
\<close>

datatype snac_data =
    SnacBytes "u8 list"
  | SnacInfoReq cstring u16
  | SnacChat u16 "u8 list" u16

record aim_snac =
  snac_id :: u32
  snac_family :: u16
  snac_type :: u16
  snac_flags :: u16
  snac_data :: "snac_data option"
  snac_issuetime :: int

record aim_msgcookie =
  ck_addr :: nat
  ck_cookie :: "u8 list"
  ck_type :: int
  ck_data :: "nat option"
  ck_addtime :: int

subsection \<open>Sessions\<close>

datatype tx_mode = TxQueued | TxImmediate | TxUser nat

record aim_session = os +
  sess_sn :: cstring
  conns :: "nat \<Rightarrow> aim_conn option"
  connlist :: "nat list"
  objs :: "nat \<Rightarrow> obj option"
  next_addr :: nat
  queue_outgoing :: "aim_frame list"
  queue_incoming :: "aim_frame list"
  tx_enqueue :: tx_mode
  snac_hash :: "aim_snac list list"
  snacid_next :: u32
  socks_server :: "u8 list"
  socks_username :: "u8 list"
  socks_password :: "u8 list"
  sess_flags :: u32
  sess_debug :: int
  msgcookies :: "aim_msgcookie list"
  modlist :: "aim_module list"

text \<open>
  The client: what its callbacks and its own transmit function do. A callback is given the
  frame (or a null pointer), the arguments and the stream of the frame, which it may read on.
\<close>

record client =
  cl_callback :: "nat \<Rightarrow> aim_frame option \<Rightarrow> cb_arg list \<Rightarrow> bstream \<Rightarrow> aim_session
                   \<Rightarrow> (int \<times> bstream \<times> aim_session) option"
  cl_tx :: "nat \<Rightarrow> aim_frame \<Rightarrow> aim_session \<Rightarrow> (int \<times> aim_session) option"

subsection \<open>Access through pointers\<close>

text \<open>Reading, writing and releasing a connection; null and dangling pointers are undefined.\<close>

definition conn_at :: "aim_session \<Rightarrow> nat option \<Rightarrow> aim_conn option" where
  "conn_at s p = do { a \<leftarrow> p; conns s a }"

definition put_conn :: "nat \<Rightarrow> aim_conn \<Rightarrow> aim_session \<Rightarrow> aim_session" where
  "put_conn a c s = s\<lparr>conns := (conns s)(a := Some c)\<rparr>"

definition obj_at :: "aim_session \<Rightarrow> nat option \<Rightarrow> obj option" where
  "obj_at s p = do { a \<leftarrow> p; objs s a }"

text \<open>\<^verbatim>\<open>free(p)\<close>: nothing for a null pointer, undefined for one that was released already.\<close>

definition free_obj :: "nat option \<Rightarrow> aim_session \<Rightarrow> aim_session option" where
  "free_obj p s =
     (case p of
        None \<Rightarrow> Some s
      | Some a \<Rightarrow> (if objs s a = None then None else Some (s\<lparr>objs := (objs s)(a := None)\<rparr>)))"

text \<open>An address for a new object.\<close>

definition new_addr :: "aim_session \<Rightarrow> nat \<times> aim_session" where
  "new_addr s = (next_addr s, s\<lparr>next_addr := Suc (next_addr s)\<rparr>)"

definition conn_inprogress :: "aim_conn \<Rightarrow> bool" where
  "conn_inprogress c \<longleftrightarrow> conn_status c AND AIM_CONN_STATUS_INPROGRESS \<noteq> 0"

text \<open>The connections of the session in the order of the list.\<close>

definition live_conns :: "aim_session \<Rightarrow> (nat \<times> aim_conn) list option" where
  "live_conns s = those (map (\<lambda>a. map_option (Pair a) (conns s a)) (connlist s))"

text \<open>A session all of whose memory is zero, on an idle system at time \<open>now\<close>.\<close>

definition session0 :: "int \<Rightarrow> aim_session" where
  "session0 now =
     \<lparr>os_allocs = [], os_junk = (\<lambda>_. 0), os_now = now, os_errno = 0, os_rand = [],
      os_in = (\<lambda>_. []), os_send = (\<lambda>_. []), os_out = (\<lambda>_. []), os_connect = (\<lambda>_. []),
      sess_sn = [], conns = (\<lambda>_. None), connlist = [], objs = (\<lambda>_. None), next_addr = 0,
      queue_outgoing = [], queue_incoming = [], tx_enqueue = TxQueued,
      snac_hash = replicate FAIM_SNAC_HASH_SIZE [], snacid_next = 0,
      socks_server = replicate 128 0, socks_username = replicate 128 0,
      socks_password = replicate 128 0, sess_flags = 0, sess_debug = 0, msgcookies = [],
      modlist = []\<rparr>"

lemma session0_sel [simp]:
  "mem_ok (session0 now)" "os_now (session0 now) = now" "snacid_next (session0 now) = 0"
  "snac_hash (session0 now) = replicate FAIM_SNAC_HASH_SIZE []" "msgcookies (session0 now) = []"
  "connlist (session0 now) = []" "conns (session0 now) = (\<lambda>_. None)"
  "queue_outgoing (session0 now) = []" "queue_incoming (session0 now) = []"
  "tx_enqueue (session0 now) = TxQueued" "os_send (session0 now) = (\<lambda>_. [])"
  "os_in (session0 now) = (\<lambda>_. [])" "os_out (session0 now) = (\<lambda>_. [])"
  "objs (session0 now) = (\<lambda>_. None)" "next_addr (session0 now) = 0" "modlist (session0 now) = []"
  "sess_debug (session0 now) = 0" "os_allocs (session0 now) = []"
  by (simp_all add: session0_def mem_ok_def)

lemma conn_at_simps [simp]: "conn_at s None = None" "conn_at s (Some a) = conns s a"
  by (simp_all add: conn_at_def)

lemma obj_at_simps [simp]: "obj_at s None = None" "obj_at s (Some a) = objs s a"
  by (simp_all add: obj_at_def)

lemma put_conn_simps [simp]:
  "conns (put_conn a c s) = (conns s)(a := Some c)" "connlist (put_conn a c s) = connlist s"
  "objs (put_conn a c s) = objs s" "queue_incoming (put_conn a c s) = queue_incoming s"
  "queue_outgoing (put_conn a c s) = queue_outgoing s" "os_allocs (put_conn a c s) = os_allocs s"
  "os_in (put_conn a c s) = os_in s" "os_out (put_conn a c s) = os_out s"
  "os_send (put_conn a c s) = os_send s" "os_now (put_conn a c s) = os_now s"
  "modlist (put_conn a c s) = modlist s" "next_addr (put_conn a c s) = next_addr s"
  "tx_enqueue (put_conn a c s) = tx_enqueue s" "snac_hash (put_conn a c s) = snac_hash s"
  "snacid_next (put_conn a c s) = snacid_next s" "msgcookies (put_conn a c s) = msgcookies s"
  by (simp_all add: put_conn_def)

lemma mem_ok_update [simp]:
  "mem_ok (put_conn a c s) = mem_ok s"
  "mem_ok (s\<lparr>conns := x1\<rparr>) = mem_ok s" "mem_ok (s\<lparr>connlist := x2\<rparr>) = mem_ok s"
  "mem_ok (s\<lparr>queue_outgoing := x3\<rparr>) = mem_ok s" "mem_ok (s\<lparr>queue_incoming := x3\<rparr>) = mem_ok s"
  "mem_ok (s\<lparr>snac_hash := x4\<rparr>) = mem_ok s" "mem_ok (s\<lparr>snacid_next := x5\<rparr>) = mem_ok s"
  "mem_ok (s\<lparr>msgcookies := x6\<rparr>) = mem_ok s" "mem_ok (s\<lparr>next_addr := x7\<rparr>) = mem_ok s"
  "mem_ok (s\<lparr>modlist := x8\<rparr>) = mem_ok s" "mem_ok (s\<lparr>objs := x9\<rparr>) = mem_ok s"
  by (simp_all add: mem_ok_def put_conn_def)

end
