(* ===== verification/Cache.thy ===== *)
theory Cache
  imports Main
begin

text \<open>
  The contract two parts of the library share: entries are put under a key while a request is
  outstanding, and taken out again when the answer comes. \<open>request_cache\<close> allows several
  entries under one key, of which the newest is found, and any other activity (\<open>idle\<close>) that leaves the entries alone; \<open>unique_cache\<close> keeps one. The lemmas say
  that an entry survives any traffic about other keys, which is what pairing an answer with
  its request rests on. The theories \<open>Snac\<close> and \<open>Msgcookie\<close> interpret the contract.
\<close>

locale request_cache =
  fixes wf :: "'s \<Rightarrow> bool"
    and can_put :: "'e \<Rightarrow> 's \<Rightarrow> bool"
    and key :: "'e \<Rightarrow> 'k"
    and stored :: "'e \<Rightarrow> 's \<Rightarrow> 'e"
    and put :: "'e \<Rightarrow> 's \<Rightarrow> 's"
    and grab :: "'k \<Rightarrow> 's \<Rightarrow> 'e option \<times> 's"
    and idle :: "'s \<Rightarrow> 's \<Rightarrow> bool"
  assumes wf_put: "wf s \<Longrightarrow> can_put e s \<Longrightarrow> wf (put e s)"
    and wf_grab: "wf s \<Longrightarrow> wf (snd (grab k s))"
    and key_stored: "key (stored e s) = key e"
    and grab_put: "wf s \<Longrightarrow> can_put e s \<Longrightarrow>
      fst (grab k (put e s)) = (if k = key e then Some (stored e s) else fst (grab k s))"
    and grab_other: "wf s \<Longrightarrow> k \<noteq> k' \<Longrightarrow> fst (grab k' (snd (grab k s))) = fst (grab k' s)"
    and idle_keeps: "wf s \<Longrightarrow> idle s s' \<Longrightarrow> wf s' \<and> fst (grab k s') = fst (grab k s)"
begin

definition other_traffic :: "'k \<Rightarrow> 's \<Rightarrow> 's \<Rightarrow> bool" where
  "other_traffic k s s' \<longleftrightarrow>
     (\<exists>e. can_put e s \<and> key e \<noteq> k \<and> s' = put e s) \<or> (\<exists>j. j \<noteq> k \<and> s' = snd (grab j s))
     \<or> idle s s'"

lemma other_traffic_step:
  "wf s \<Longrightarrow> other_traffic k s s' \<Longrightarrow> wf s' \<and> fst (grab k s') = fst (grab k s)"
  by (auto simp: other_traffic_def grab_put grab_other wf_put wf_grab idle_keeps)

lemma survives:
  assumes "(other_traffic k)\<^sup>*\<^sup>* s s'" "wf s"
  shows "wf s' \<and> fst (grab k s') = fst (grab k s)"
  using assms by (induction rule: rtranclp_induct) (auto dest: other_traffic_step)

lemma put_survives:
  assumes "wf s" "can_put e s" "(other_traffic (key e))\<^sup>*\<^sup>* (put e s) s'"
  shows "fst (grab (key e) s') = Some (stored e s)"
  using survives [OF assms(3) wf_put [OF assms(1,2)]] assms(1,2) by (simp add: grab_put)

end

locale unique_cache = request_cache +
  assumes grab_gone: "wf s \<Longrightarrow> fst (grab k (snd (grab k s))) = None"
begin

lemma grabbed_once:
  assumes "wf s" "(other_traffic k)\<^sup>*\<^sup>* (snd (grab k s)) s'"
  shows "fst (grab k s') = None"
  using survives [OF assms(2) wf_grab [OF assms(1)]] grab_gone [OF assms(1)] by simp

end

end
