(* ===== verification/Snac.thy ===== *)
theory Snac
  imports Session Cache
begin

text \<open>
  Outstanding SNACs: \<^verbatim>\<open>src/snac.c\<close>. The requests waiting for an answer are kept in
  \<open>FAIM_SNAC_HASH_SIZE\<close> chains, each found by the id modulo that number; the newest stands first.
\<close>

definition aim_initsnachash :: "aim_session \<Rightarrow> aim_session" where
  "aim_initsnachash s = s\<lparr>snac_hash := replicate FAIM_SNAC_HASH_SIZE []\<rparr>"

definition snac_index :: "u32 \<Rightarrow> nat" where
  "snac_index i = unat i mod FAIM_SNAC_HASH_SIZE"

definition aim_newsnac :: "aim_session \<Rightarrow> aim_snac \<Rightarrow> u32 \<times> aim_session" where
  "aim_newsnac s newsnac =
     (let (ok, s) = malloc s
      in if \<not> ok then (0, s)
         else let snac = newsnac\<lparr>snac_issuetime := os_now s\<rparr>;
                  index = snac_index (snac_id snac)
              in (snac_id snac,
                  s\<lparr>snac_hash := (snac_hash s)[index := snac # snac_hash s ! index]\<rparr>))"

text \<open>\<open>data = None\<close> is a call with \<^verbatim>\<open>datalen\<close> 0.\<close>

definition aim_cachesnac ::
  "aim_session \<Rightarrow> u16 \<Rightarrow> u16 \<Rightarrow> u16 \<Rightarrow> snac_data option \<Rightarrow> u32 \<times> aim_session" where
  "aim_cachesnac s family type flags data =
     (let snac = \<lparr>snac_id = snacid_next s, snac_family = family, snac_type = type,
                  snac_flags = flags, snac_data = data, snac_issuetime = 0\<rparr>;
          s = s\<lparr>snacid_next := snacid_next s + 1\<rparr>
      in case data of
           None \<Rightarrow> aim_newsnac s snac
         | Some _ \<Rightarrow> (let (ok, s) = malloc s in if \<not> ok then (0, s) else aim_newsnac s snac))"

primrec remsnac_loop :: "u32 \<Rightarrow> aim_snac list \<Rightarrow> aim_snac option \<times> aim_snac list" where
  "remsnac_loop i [] = (None, [])"
| "remsnac_loop i (cur # rest) =
     (if snac_id cur = i then (Some cur, rest)
      else let (r, rest) = remsnac_loop i rest in (r, cur # rest))"

definition aim_remsnac :: "aim_session \<Rightarrow> u32 \<Rightarrow> aim_snac option \<times> aim_session" where
  "aim_remsnac s i =
     (let index = snac_index i;
          (cur, chain) = remsnac_loop i (snac_hash s ! index)
      in (cur, s\<lparr>snac_hash := (snac_hash s)[index := chain]\<rparr>))"

primrec cleansnacs_loop :: "int \<Rightarrow> int \<Rightarrow> aim_snac list \<Rightarrow> aim_snac list" where
  "cleansnacs_loop curtime maxage [] = []"
| "cleansnacs_loop curtime maxage (cur # rest) =
     (if curtime - snac_issuetime cur > maxage then cleansnacs_loop curtime maxage rest
      else cur # cleansnacs_loop curtime maxage rest)"

definition aim_cleansnacs :: "aim_session \<Rightarrow> int \<Rightarrow> aim_session" where
  "aim_cleansnacs s maxage =
     s\<lparr>snac_hash := map (cleansnacs_loop (os_now s) maxage) (snac_hash s)\<rparr>"

definition aim_putsnac :: "bstream \<Rightarrow> u16 \<Rightarrow> u16 \<Rightarrow> u16 \<Rightarrow> u32 \<Rightarrow> (int \<times> bstream) option" where
  "aim_putsnac bs family subtype flags snacid = do {
     (_, bs) \<leftarrow> aimbs_put16 bs family;
     (_, bs) \<leftarrow> aimbs_put16 bs subtype;
     (_, bs) \<leftarrow> aimbs_put16 bs flags;
     (_, bs) \<leftarrow> aimbs_put32 bs snacid;
     Some (10, bs)
   }"

section \<open>The hash\<close>

text \<open>Every request stands in the chain of its id.\<close>

definition snacs_ok :: "aim_session \<Rightarrow> bool" where
  "snacs_ok s \<longleftrightarrow>
     length (snac_hash s) = FAIM_SNAC_HASH_SIZE \<and>
     (\<forall>i < FAIM_SNAC_HASH_SIZE. \<forall>x \<in> set (snac_hash s ! i). snac_index (snac_id x) = i)"

definition outstanding :: "aim_session \<Rightarrow> u32 \<Rightarrow> aim_snac list" where
  "outstanding s i = filter (\<lambda>x. snac_id x = i) (concat (snac_hash s))"

definition snac_wire :: "u16 \<Rightarrow> u16 \<Rightarrow> u16 \<Rightarrow> u32 \<Rightarrow> u8 list" where
  "snac_wire family subtype flags i =
     aimutil_put16 family @ aimutil_put16 subtype @ aimutil_put16 flags @ aimutil_put32 i"

lemma index_lt [simp]: "snac_index i < FAIM_SNAC_HASH_SIZE"
  by (simp add: snac_index_def FAIM_SNAC_HASH_SIZE_def)

lemma snacs_okD:
  "snacs_ok s \<Longrightarrow> length (snac_hash s) = FAIM_SNAC_HASH_SIZE"
  "snacs_ok s \<Longrightarrow> i < FAIM_SNAC_HASH_SIZE \<Longrightarrow> x \<in> set (snac_hash s ! i) \<Longrightarrow> snac_index (snac_id x) = i"
  by (auto simp: snacs_ok_def)

lemma putsnac_ok [stream_simps]:
  "bs_ok bs \<Longrightarrow> 10 \<le> room bs \<Longrightarrow>
   aim_putsnac bs f t fl i = Some (10, emit (snac_wire f t fl i) bs)"
  by (simp add: aim_putsnac_def stream_simps snac_wire_def)

lemma length_snac_wire [simp]: "length (snac_wire f t fl i) = 10"
  by (simp add: snac_wire_def)

lemma init_snacs_ok [simp]: "snacs_ok (aim_initsnachash s)"
  by (auto simp: snacs_ok_def aim_initsnachash_def)

lemma snacs_ok_session0 [simp]: "snacs_ok (session0 now)"
  by (simp add: snacs_ok_def)

lemma newsnac_ok [libc_simps]:
  "mem_ok s \<Longrightarrow> aim_newsnac s x =
    (snac_id x, s\<lparr>snac_hash := (snac_hash s)[snac_index (snac_id x) :=
        x\<lparr>snac_issuetime := os_now s\<rparr> # snac_hash s ! snac_index (snac_id x)]\<rparr>)"
  by (simp add: aim_newsnac_def Let_def)

lemma cachesnac_ok [libc_simps]:
  "mem_ok s \<Longrightarrow> aim_cachesnac s f t fl d =
     aim_newsnac (s\<lparr>snacid_next := snacid_next s + 1\<rparr>)
       \<lparr>snac_id = snacid_next s, snac_family = f, snac_type = t, snac_flags = fl, snac_data = d,
        snac_issuetime = 0\<rparr>"
  by (auto simp: aim_cachesnac_def Let_def split: option.splits)

lemma snacs_ok_newsnac: "snacs_ok s \<Longrightarrow> snacs_ok (snd (aim_newsnac s x))"
  by (auto simp: aim_newsnac_def snacs_ok_def Let_def malloc_def nth_list_update
      split: list.splits)

lemma remsnac_loop_fst: "fst (remsnac_loop i xs) = find (\<lambda>x. snac_id x = i) xs"
  by (induction xs) (auto split: prod.splits)

lemma remsnac_loop_set: "set (snd (remsnac_loop i xs)) \<subseteq> set xs"
  by (induction xs) (auto split: prod.splits)

lemma remsnac_loop_other:
  "j \<noteq> i \<Longrightarrow> find (\<lambda>x. snac_id x = j) (snd (remsnac_loop i xs)) = find (\<lambda>x. snac_id x = j) xs"
  by (induction xs) (auto split: prod.splits)

lemma remsnac_sel:
  "fst (aim_remsnac s i) = find (\<lambda>x. snac_id x = i) (snac_hash s ! snac_index i)"
  "snd (aim_remsnac s i) =
     s\<lparr>snac_hash := (snac_hash s)[snac_index i := snd (remsnac_loop i (snac_hash s ! snac_index i))]\<rparr>"
  by (simp_all add: aim_remsnac_def Let_def remsnac_loop_fst [symmetric] split: prod.splits)

lemma snacs_ok_remsnac: "snacs_ok s \<Longrightarrow> snacs_ok (snd (aim_remsnac s i))"
  using remsnac_loop_set [of i "snac_hash s ! snac_index i"]
  by (auto simp: snacs_ok_def remsnac_sel nth_list_update)

lemma cleansnacs_filter:
  "cleansnacs_loop now maxage xs = filter (\<lambda>x. now - snac_issuetime x \<le> maxage) xs"
  by (induction xs) auto

lemma snacs_ok_cleansnacs: "snacs_ok s \<Longrightarrow> snacs_ok (aim_cleansnacs s maxage)"
  by (auto simp: snacs_ok_def aim_cleansnacs_def cleansnacs_filter)

interpretation snacs: request_cache
  "\<lambda>s. snacs_ok s \<and> mem_ok s" "\<lambda>_ _. True" snac_id
  "\<lambda>x s. x\<lparr>snac_issuetime := os_now s\<rparr>" "\<lambda>x s. snd (aim_newsnac s x)" "\<lambda>i s. aim_remsnac s i"
  "\<lambda>s s'. snac_hash s' = snac_hash s \<and> mem_ok s'"
proof unfold_locales
  fix s s' :: aim_session and x :: aim_snac and i j :: u32
  assume s: "snacs_ok s \<and> mem_ok s"
  then show "snacs_ok (snd (aim_newsnac s x)) \<and> mem_ok (snd (aim_newsnac s x))"
    using snacs_ok_newsnac [of s x] by (auto simp: newsnac_ok)
  from s show "snacs_ok (snd (aim_remsnac s i)) \<and> mem_ok (snd (aim_remsnac s i))"
    by (simp add: snacs_ok_remsnac) (simp add: remsnac_sel)
  from s show "fst (aim_remsnac (snd (aim_newsnac s x)) i) =
      (if i = snac_id x then Some (x\<lparr>snac_issuetime := os_now s\<rparr>) else fst (aim_remsnac s i))"
    by (auto simp: newsnac_ok remsnac_sel snacs_okD nth_list_update)
  show "snac_hash s' = snac_hash s \<and> mem_ok s' \<Longrightarrow>
      (snacs_ok s' \<and> mem_ok s') \<and> fst (aim_remsnac s' i) = fst (aim_remsnac s i)"
    using s by (auto simp: snacs_ok_def remsnac_sel)
  assume "i \<noteq> j"
  with s show "fst (aim_remsnac (snd (aim_remsnac s i)) j) = fst (aim_remsnac s j)"
    by (auto simp: remsnac_sel snacs_okD nth_list_update remsnac_loop_other)
qed simp

section \<open>Pairing answers with requests\<close>

text \<open>What may happen between a request with id \<open>i\<close> and its answer.\<close>

inductive snac_traffic :: "u32 \<Rightarrow> aim_session \<Rightarrow> aim_session \<Rightarrow> bool" where
  another_request: "snac_id x \<noteq> i \<Longrightarrow> snac_traffic i s (snd (aim_newsnac s x))"
| another_answer: "j \<noteq> i \<Longrightarrow> snac_traffic i s (snd (aim_remsnac s j))"
| elsewhere: "snac_hash s' = snac_hash s \<Longrightarrow> mem_ok s' \<Longrightarrow> snac_traffic i s s'"

lemma snac_traffic_other: "snac_traffic i s s' \<Longrightarrow> snacs.other_traffic i s s'"
  by (auto simp: snacs.other_traffic_def elim!: snac_traffic.cases)

lemma snac_traffics_other: "(snac_traffic i)\<^sup>*\<^sup>* s s' \<Longrightarrow> (snacs.other_traffic i)\<^sup>*\<^sup>* s s'"
  by (erule rtranclp_mono [THEN predicate2D, rotated]) (auto intro: snac_traffic_other)

text \<open>A request that was cached is found again by its id, with the data its sender gave and
  the time it was issued, after any number of other requests, answers to other requests and
  other activity of the library.\<close>

theorem request_found_by_id:
  assumes "snacs_ok s" "mem_ok s" "aim_cachesnac s f t fl d = (i, s1)" "(snac_traffic i)\<^sup>*\<^sup>* s1 s2"
  shows "fst (aim_remsnac s2 i) =
    Some \<lparr>snac_id = i, snac_family = f, snac_type = t, snac_flags = fl, snac_data = d,
          snac_issuetime = os_now s\<rparr> \<and> i = snacid_next s"
proof -
  let ?s = "s\<lparr>snacid_next := snacid_next s + 1\<rparr>"
    and ?x = "\<lparr>snac_id = snacid_next s, snac_family = f, snac_type = t, snac_flags = fl,
               snac_data = d, snac_issuetime = 0\<rparr>"
  have ok: "snacs_ok ?s \<and> mem_ok ?s" using assms(1,2) by (auto simp: snacs_ok_def)
  have i: "i = snac_id ?x" "s1 = snd (aim_newsnac ?s ?x)"
    using assms(2,3) by (auto simp: cachesnac_ok newsnac_ok)
  have "(snacs.other_traffic (snac_id ?x))\<^sup>*\<^sup>* (snd (aim_newsnac ?s ?x)) s2"
    using snac_traffics_other [OF assms(4)] i by simp
  from snacs.put_survives [OF ok _ this] i show ?thesis by simp
qed

theorem request_found_by_id_witness:
  "fst (aim_remsnac (snd (aim_newsnac (snd (aim_cachesnac (session0 3) 1 4 0 None))
     \<lparr>snac_id = 16, snac_family = 2, snac_type = 5, snac_flags = 0, snac_data = None, snac_issuetime = 0\<rparr>)) 0)
   = Some \<lparr>snac_id = 0, snac_family = 1, snac_type = 4, snac_flags = 0, snac_data = None,
           snac_issuetime = 3\<rparr>"
proof -
  let ?x = "\<lparr>snac_id = 16, snac_family = 2, snac_type = 5, snac_flags = 0, snac_data = None,
             snac_issuetime = 0\<rparr>"
  obtain i s1 where c: "aim_cachesnac (session0 3) 1 4 0 None = (i, s1)" by fastforce
  then have i: "i = 0" by (auto simp: cachesnac_ok newsnac_ok)
  have "(snac_traffic i)\<^sup>*\<^sup>* s1 (snd (aim_newsnac s1 ?x))"
    by (rule r_into_rtranclp, rule another_request) (simp add: i)
  from request_found_by_id [OF snacs_ok_session0 _ c this] i c show ?thesis by simp
qed

text \<open>Cleaning keeps exactly the requests that are at most \<open>maxage\<close> seconds old, each in its
  chain; the age -1 that ending a session uses leaves none.\<close>

theorem cleansnacs_exact:
  "concat (snac_hash (aim_cleansnacs s maxage)) =
     filter (\<lambda>x. os_now s - snac_issuetime x \<le> maxage) (concat (snac_hash s)) \<and>
   (snacs_ok s \<longrightarrow> snacs_ok (aim_cleansnacs s maxage)) \<and>
   ((\<forall>x \<in> set (concat (snac_hash s)). snac_issuetime x \<le> os_now s) \<longrightarrow>
      concat (snac_hash (aim_cleansnacs s (-1))) = [])"
proof -
  have *: "concat (snac_hash (aim_cleansnacs s m)) =
     filter (\<lambda>x. os_now s - snac_issuetime x \<le> m) (concat (snac_hash s))" for m
    by (simp add: aim_cleansnacs_def cleansnacs_filter [abs_def] filter_concat)
  show ?thesis
    unfolding * by (fastforce simp: snacs_ok_cleansnacs filter_empty_conv)
qed

theorem cleansnacs_exact_witness:
  "concat (snac_hash (aim_cleansnacs (snd (aim_cachesnac (session0 3) 1 4 0 None)) (-1))) = []"
proof -
  have "snac_index 0 = 0" by (simp add: snac_index_def)
  then show ?thesis
    using cleansnacs_exact [of "snd (aim_cachesnac (session0 3) 1 4 0 None)" 0]
    by (simp add: cachesnac_ok newsnac_ok FAIM_SNAC_HASH_SIZE_def numeral_eq_Suc)
qed

section \<open>The hash as stacks of requests\<close>

text \<open>
  The abstract cache: for each id the requests that wait under it, the newest first. Putting,
  finding and cleaning on the sixteen chains are a push, a pop and a filter of these stacks.
\<close>

definition abs_snacs :: "aim_session \<Rightarrow> u32 \<Rightarrow> aim_snac list" where
  "abs_snacs s i = filter (\<lambda>x. snac_id x = i) (snac_hash s ! snac_index i)"

lemma remsnac_loop_stack:
  "filter (\<lambda>x. snac_id x = j) (snd (remsnac_loop i xs)) =
     (if j = i then tl (filter (\<lambda>x. snac_id x = j) xs) else filter (\<lambda>x. snac_id x = j) xs)"
  by (induction xs) (auto split: prod.splits)

lemma find_stack: "find P xs = (case filter P xs of [] \<Rightarrow> None | x # _ \<Rightarrow> Some x)"
  by (induction xs) auto

text \<open>C28: the hash of outstanding requests implements a stack of requests per id: storing pushes
  on the stack of the id, an answer pops it and returns what was on top or nothing, and
  cleaning filters every stack by age; no other stack is touched.\<close>

theorem snac_hash_refines_stacks:
  assumes "snacs_ok s"
  shows "(mem_ok s \<longrightarrow> abs_snacs (snd (aim_newsnac s x)) =
      (abs_snacs s)(snac_id x := x\<lparr>snac_issuetime := os_now s\<rparr> # abs_snacs s (snac_id x))) \<and>
    fst (aim_remsnac s i) = (case abs_snacs s i of [] \<Rightarrow> None | y # _ \<Rightarrow> Some y) \<and>
    abs_snacs (snd (aim_remsnac s i)) = (abs_snacs s)(i := tl (abs_snacs s i)) \<and>
    abs_snacs (aim_cleansnacs s maxage) =
      (\<lambda>j. filter (\<lambda>y. os_now s - snac_issuetime y \<le> maxage) (abs_snacs s j)) \<and>
    abs_snacs (aim_initsnachash s) = (\<lambda>_. [])"
proof (intro conjI)
  note len = snacs_okD(1) [OF assms]
  show "mem_ok s \<longrightarrow> abs_snacs (snd (aim_newsnac s x)) =
      (abs_snacs s)(snac_id x := x\<lparr>snac_issuetime := os_now s\<rparr> # abs_snacs s (snac_id x))"
    using len by (auto simp: newsnac_ok abs_snacs_def fun_eq_iff nth_list_update)
  show "fst (aim_remsnac s i) = (case abs_snacs s i of [] \<Rightarrow> None | y # _ \<Rightarrow> Some y)"
    by (simp add: remsnac_sel abs_snacs_def find_stack)
  show "abs_snacs (snd (aim_remsnac s i)) = (abs_snacs s)(i := tl (abs_snacs s i))"
    using len by (auto simp: remsnac_sel abs_snacs_def fun_eq_iff nth_list_update remsnac_loop_stack)
  show "abs_snacs (aim_cleansnacs s maxage) =
      (\<lambda>j. filter (\<lambda>y. os_now s - snac_issuetime y \<le> maxage) (abs_snacs s j))"
    using len by (auto simp: abs_snacs_def aim_cleansnacs_def cleansnacs_filter fun_eq_iff intro: filter_cong)
  show "abs_snacs (aim_initsnachash s) = (\<lambda>_. [])"
    by (simp add: abs_snacs_def aim_initsnachash_def fun_eq_iff)
qed

theorem snac_hash_refines_stacks_witness:
  "abs_snacs (snd (aim_newsnac (session0 3) \<lparr>snac_id = 16, snac_family = 2, snac_type = 5, snac_flags = 0,
     snac_data = None, snac_issuetime = 0\<rparr>)) 16 = [\<lparr>snac_id = 16, snac_family = 2, snac_type = 5,
     snac_flags = 0, snac_data = None, snac_issuetime = 3\<rparr>]"
  using snac_hash_refines_stacks [OF snacs_ok_session0, of 3 "\<lparr>snac_id = 16, snac_family = 2, snac_type = 5,
     snac_flags = 0, snac_data = None, snac_issuetime = 0\<rparr>"]
  by (simp add: abs_snacs_def)

end
