(* ===== verification/Msgcookie.thy ===== *)
theory Msgcookie
  imports Session Cache
begin

text \<open>
  Message cookies: \<^verbatim>\<open>src/msgcookie.c\<close>. The cookies wait in one list; \<open>ck_addr\<close> is the
  address of the structure, which \<^verbatim>\<open>aim_cachecookie\<close> and \<^verbatim>\<open>aim_cookie_free\<close> compare.
  The data pointer of a cookie is released with \<open>free_obj\<close>. Null cookie strings and sessions
  are not passed by the callers modelled here.
\<close>

definition same_cookie :: "u8 list \<Rightarrow> int \<Rightarrow> aim_msgcookie \<Rightarrow> bool" where
  "same_cookie c ty cur \<longleftrightarrow> ck_type cur = ty \<and> take 8 (ck_cookie cur) = take 8 c"

primrec checkcookie_loop :: "u8 list \<Rightarrow> int \<Rightarrow> aim_msgcookie list \<Rightarrow> aim_msgcookie option" where
  "checkcookie_loop c ty [] = None"
| "checkcookie_loop c ty (cur # rest) =
     (if same_cookie c ty cur then Some cur else checkcookie_loop c ty rest)"

definition aim_checkcookie :: "aim_session \<Rightarrow> u8 list \<Rightarrow> int \<Rightarrow> aim_msgcookie option" where
  "aim_checkcookie s c ty = checkcookie_loop c ty (msgcookies s)"

primrec uncache_loop ::
  "u8 list \<Rightarrow> int \<Rightarrow> aim_msgcookie list \<Rightarrow> aim_msgcookie option \<times> aim_msgcookie list" where
  "uncache_loop c ty [] = (None, [])"
| "uncache_loop c ty (cur # rest) =
     (if same_cookie c ty cur then (Some cur, rest)
      else let (r, rest) = uncache_loop c ty rest in (r, cur # rest))"

definition aim_uncachecookie ::
  "aim_session \<Rightarrow> u8 list \<Rightarrow> int \<Rightarrow> aim_msgcookie option \<times> aim_session" where
  "aim_uncachecookie s c ty =
     (let (r, rest) = uncache_loop c ty (msgcookies s) in (r, s\<lparr>msgcookies := rest\<rparr>))"

text \<open>A fresh cookie structure, or a null pointer.\<close>

definition aim_mkcookie ::
  "u8 list \<Rightarrow> int \<Rightarrow> nat option \<Rightarrow> aim_session \<Rightarrow> aim_msgcookie option \<times> aim_session" where
  "aim_mkcookie c ty data s =
     (let (ok, s) = malloc s
      in if \<not> ok then (None, s)
         else let (a, s) = new_addr s
              in (Some \<lparr>ck_addr = a, ck_cookie = take 8 c, ck_type = ty, ck_data = data,
                       ck_addtime = 0\<rparr>, s))"

definition aim_cookie_free :: "aim_session \<Rightarrow> aim_msgcookie option \<Rightarrow> (int \<times> aim_session) option" where
  "aim_cookie_free s cookie =
     (case cookie of
        None \<Rightarrow> Some (- EINVAL, s)
      | Some ck \<Rightarrow> do {
          s \<leftarrow> free_obj (ck_data ck)
                 (s\<lparr>msgcookies := filter (\<lambda>cur. ck_addr cur \<noteq> ck_addr ck) (msgcookies s)\<rparr>);
          Some (0, s)
        })"

definition aim_cachecookie :: "aim_session \<Rightarrow> aim_msgcookie option \<Rightarrow> (int \<times> aim_session) option" where
  "aim_cachecookie s cookie =
     (case cookie of
        None \<Rightarrow> Some (- EINVAL, s)
      | Some ck \<Rightarrow>
          (case aim_checkcookie s (ck_cookie ck) (ck_type ck) of
             Some newcook \<Rightarrow>
               (if ck_addr newcook = ck_addr ck
                then Some (1, s\<lparr>msgcookies :=
                       map (\<lambda>cur. if ck_addr cur = ck_addr ck then cur\<lparr>ck_addtime := os_now s\<rparr>
                                  else cur) (msgcookies s)\<rparr>)
                else do {
                  (_, s) \<leftarrow> aim_cookie_free s (Some newcook);
                  Some (0, s\<lparr>msgcookies := ck\<lparr>ck_addtime := os_now s\<rparr> # msgcookies s\<rparr>)
                })
           | None \<Rightarrow> Some (0, s\<lparr>msgcookies := ck\<lparr>ck_addtime := os_now s\<rparr> # msgcookies s\<rparr>)))"

definition aim_msgcookie_gettype :: "int \<Rightarrow> int" where
  "aim_msgcookie_gettype reqclass =
     (if reqclass = 0x01 then AIM_COOKIETYPE_OFTICON
      else if reqclass = 0x02 then AIM_COOKIETYPE_OFTVOICE
      else if reqclass = 0x04 then AIM_COOKIETYPE_OFTIMAGE
      else if reqclass = 0x08 then AIM_COOKIETYPE_CHAT
      else if reqclass = 0x10 then AIM_COOKIETYPE_OFTGET
      else if reqclass = 0x20 then AIM_COOKIETYPE_OFTSEND
      else AIM_COOKIETYPE_UNKNOWN)"

section \<open>One cookie per kind and string\<close>

definition ck_key :: "aim_msgcookie \<Rightarrow> int \<times> u8 list" where
  "ck_key ck = (ck_type ck, take 8 (ck_cookie ck))"

definition cookies_ok :: "aim_session \<Rightarrow> bool" where
  "cookies_ok s \<longleftrightarrow>
     distinct (map ck_key (msgcookies s)) \<and> distinct (map ck_addr (msgcookies s)) \<and>
     (\<forall>ck \<in> set (msgcookies s). ck_addr ck < next_addr s) \<and>
     (\<forall>ck \<in> set (msgcookies s). \<forall>a. ck_data ck = Some a \<longrightarrow> objs s a \<noteq> None) \<and>
     distinct (List.map_filter ck_data (msgcookies s))"

lemma same_cookie_key: "same_cookie c ty ck \<longleftrightarrow> ck_key ck = (ty, take 8 c)"
  by (auto simp: same_cookie_def ck_key_def)

lemma checkcookie_find: "checkcookie_loop c ty cks = find (\<lambda>ck. ck_key ck = (ty, take 8 c)) cks"
  by (induction cks) (auto simp: same_cookie_key)

lemma uncache_loop_eq:
  "distinct (map ck_key cks) \<Longrightarrow>
   uncache_loop c ty cks =
     (find (\<lambda>ck. ck_key ck = (ty, take 8 c)) cks, filter (\<lambda>ck. ck_key ck \<noteq> (ty, take 8 c)) cks)"
proof (induction cks)
  case (Cons a cks)
  then show ?case
    by (auto simp: same_cookie_key image_iff split: prod.splits intro!: filter_True [THEN sym])
qed simp


text \<open>The entry left under a key, and a cookie structure that may be handed to the cache.\<close>

definition cookie_under :: "int \<times> u8 list \<Rightarrow> aim_session \<Rightarrow> aim_msgcookie option" where
  "cookie_under k s = find (\<lambda>ck. ck_key ck = k) (msgcookies s)"

definition own_cookie :: "aim_msgcookie \<Rightarrow> aim_session \<Rightarrow> bool" where
  "own_cookie ck s \<longleftrightarrow>
     ck_addr ck < next_addr s \<and> ck_addr ck \<notin> ck_addr ` set (msgcookies s) \<and>
     (\<forall>a. ck_data ck = Some a \<longrightarrow> objs s a \<noteq> None \<and> a \<notin> set (List.map_filter ck_data (msgcookies s)))"

definition grab_cookie ::
  "int \<times> u8 list \<Rightarrow> aim_session \<Rightarrow> aim_msgcookie option \<times> aim_session" where
  "grab_cookie k s =
     (if length (snd k) \<le> 8 then aim_uncachecookie s (snd k) (fst k) else (None, s))"

definition cache_cookie :: "aim_msgcookie \<Rightarrow> aim_session \<Rightarrow> aim_session" where
  "cache_cookie ck s = snd (the (aim_cachecookie s (Some ck)))"

lemma map_filter_simps [simp]:
  "List.map_filter f [] = []"
  "List.map_filter f (x # xs) = (case f x of None \<Rightarrow> List.map_filter f xs | Some y \<Rightarrow> y # List.map_filter f xs)"
  by (simp_all add: List.map_filter_def split: option.splits)

lemma map_filter_filter_sub: "set (List.map_filter f (filter P xs)) \<subseteq> set (List.map_filter f xs)"
  by (induction xs) (auto split: option.splits)

lemma distinct_map_filter_filter:
  "distinct (List.map_filter f xs) \<Longrightarrow> distinct (List.map_filter f (filter P xs))"
  using map_filter_filter_sub [of f P] by (induction xs) (auto split: option.splits)

lemma distinct_map_filter_filter2:
  "distinct (map f xs) \<Longrightarrow> distinct (map f (filter P xs))"
  by (induction xs) auto

lemma in_map_filter: "y \<in> set (List.map_filter f xs) \<longleftrightarrow> (\<exists>x \<in> set xs. f x = Some y)"
  by (induction xs) (auto split: option.splits)

lemma map_filter_inj:
  "distinct (List.map_filter f xs) \<Longrightarrow> x \<in> set xs \<Longrightarrow> y \<in> set xs \<Longrightarrow>
   f x = Some a \<Longrightarrow> f y = Some a \<Longrightarrow> x = y"
  by (induction xs) (auto simp: in_map_filter split: option.splits)

lemma cookies_ok_filter:
  "cookies_ok s \<Longrightarrow> cookies_ok (s\<lparr>msgcookies := filter P (msgcookies s)\<rparr>)"
  unfolding cookies_ok_def by (auto simp: distinct_map_filter_filter distinct_map_filter_filter2)

lemma find_filter_other:
  "(\<And>x. Q x \<Longrightarrow> P x) \<Longrightarrow> find Q (filter P xs) = find Q xs"
  by (induction xs) auto

lemma find_cookie_unique:
  assumes "distinct (map f xs)" "x \<in> set xs"
  shows "find (\<lambda>y. f y = f x) xs = Some x"
  using assms by (induction xs) (auto simp: image_iff)

lemma distinct_map_inj: "distinct (map f xs) \<Longrightarrow> x \<in> set xs \<Longrightarrow> y \<in> set xs \<Longrightarrow> f x = f y \<Longrightarrow> x = y"
  by (induction xs) (auto simp: image_iff)

lemma addr_key:
  "cookies_ok s \<Longrightarrow> x \<in> set (msgcookies s) \<Longrightarrow> y \<in> set (msgcookies s) \<Longrightarrow>
   (ck_addr x = ck_addr y) = (ck_key x = ck_key y)"
  unfolding cookies_ok_def by (metis distinct_map_inj)

lemma check_under: "aim_checkcookie s c ty = cookie_under (ty, take 8 c) s"
  by (simp add: aim_checkcookie_def checkcookie_find cookie_under_def)

lemma uncache_eq:
  "cookies_ok s \<Longrightarrow> aim_uncachecookie s c ty =
     (cookie_under (ty, take 8 c) s,
      s\<lparr>msgcookies := filter (\<lambda>ck. ck_key ck \<noteq> (ty, take 8 c)) (msgcookies s)\<rparr>)"
  by (simp add: aim_uncachecookie_def uncache_loop_eq cookie_under_def cookies_ok_def)

text \<open>Releasing a cookie of the list is defined, and takes exactly that cookie out.\<close>

lemma cookie_free_ok:
  assumes ok: "cookies_ok s" and in_list: "ck \<in> set (msgcookies s)"
  defines "s1 \<equiv> s\<lparr>msgcookies := filter (\<lambda>x. ck_key x \<noteq> ck_key ck) (msgcookies s)\<rparr>"
  defines "s2 \<equiv> (case ck_data ck of None \<Rightarrow> s1 | Some a \<Rightarrow> s1\<lparr>objs := (objs s1)(a := None)\<rparr>)"
  shows "aim_cookie_free s (Some ck) = Some (0, s2)" "cookies_ok s2"
proof -
  have f: "filter (\<lambda>x. ck_addr x \<noteq> ck_addr ck) (msgcookies s) =
           filter (\<lambda>x. ck_key x \<noteq> ck_key ck) (msgcookies s)"
    by (rule filter_cong) (auto simp: addr_key [OF ok _ in_list])
  show "aim_cookie_free s (Some ck) = Some (0, s2)"
    using ok in_list unfolding s2_def s1_def
    by (auto simp: aim_cookie_free_def f free_obj_def cookies_ok_def split: option.splits)
  have ok1: "cookies_ok s1" unfolding s1_def by (rule cookies_ok_filter [OF ok])
  have "ck_data x \<noteq> Some a" if "ck_data ck = Some a" "x \<in> set (msgcookies s1)" for x a
  proof
    assume x: "ck_data x = Some a"
    have "x \<in> set (msgcookies s)" "x \<noteq> ck"
      using that(2) by (auto simp: s1_def)
    with map_filter_inj [of ck_data "msgcookies s" x ck a] in_list that(1) x ok show False
      by (simp add: cookies_ok_def)
  qed
  with ok1 show "cookies_ok s2"
    unfolding s2_def cookies_ok_def by (auto split: option.splits)
qed

lemma key_stamp [simp]: "ck_key (ck\<lparr>ck_addtime := t\<rparr>) = ck_key ck"
  by (simp add: ck_key_def)

lemma find_other_key:
  "k \<noteq> k' \<Longrightarrow> find (\<lambda>x. ck_key x = k') (filter (\<lambda>x. ck_key x \<noteq> k) xs) = find (\<lambda>x. ck_key x = k') xs"
  by (rule find_filter_other) auto

lemma key_len [simp]: "length (snd (ck_key ck)) \<le> 8"
  by (simp add: ck_key_def)

lemma cookie_under_in: "cookie_under k s = Some ck \<Longrightarrow> ck \<in> set (msgcookies s) \<and> ck_key ck = k"
  by (auto simp: cookie_under_def find_Some_iff)

lemma own_cookie_check:
  "own_cookie ck s \<Longrightarrow> cookie_under k s = Some old \<Longrightarrow> ck_addr old \<noteq> ck_addr ck"
  by (metis cookie_under_in image_eqI own_cookie_def)

text \<open>Caching a structure of one's own replaces what was there under its key.\<close>

lemma cachecookie_ok:
  assumes ok: "cookies_ok s" and own: "own_cookie ck s"
  obtains s' where
    "aim_cachecookie s (Some ck) = Some (0, s')" "cookies_ok s'"
    "msgcookies s' = ck\<lparr>ck_addtime := os_now s\<rparr> # filter (\<lambda>x. ck_key x \<noteq> ck_key ck) (msgcookies s)"
proof (cases "cookie_under (ck_key ck) s")
  case None
  then have f: "filter (\<lambda>x. ck_key x \<noteq> ck_key ck) (msgcookies s) = msgcookies s"
    by (auto simp: cookie_under_def find_None_iff filter_id_conv)
  let ?s = "s\<lparr>msgcookies := ck\<lparr>ck_addtime := os_now s\<rparr> # msgcookies s\<rparr>"
  from None have "aim_cachecookie s (Some ck) = Some (0, ?s)"
    by (simp add: aim_cachecookie_def check_under ck_key_def)
  moreover have "cookies_ok ?s"
    using ok own None
    by (auto simp: cookies_ok_def own_cookie_def cookie_under_def find_None_iff ck_key_def
        split: option.splits)
  ultimately show ?thesis using that f by simp
next
  case (Some old)
  then have old: "old \<in> set (msgcookies s)" "ck_key old = ck_key ck"
    by (auto dest: cookie_under_in)
  let ?s1 = "s\<lparr>msgcookies := filter (\<lambda>x. ck_key x \<noteq> ck_key ck) (msgcookies s)\<rparr>"
  let ?s2 = "case ck_data old of None \<Rightarrow> ?s1 | Some a \<Rightarrow> ?s1\<lparr>objs := (objs ?s1)(a := None)\<rparr>"
  note free = cookie_free_ok [OF ok old(1), unfolded old(2)]
  have sel: "msgcookies ?s2 = msgcookies ?s1" "os_now ?s2 = os_now s" "next_addr ?s2 = next_addr s"
    by (simp_all split: option.splits)
  let ?s = "?s2\<lparr>msgcookies := ck\<lparr>ck_addtime := os_now s\<rparr> # msgcookies ?s1\<rparr>"
  have "aim_cachecookie s (Some ck) = Some (0, ?s)"
    using Some own_cookie_check [OF own Some] free(1) sel
    by (simp add: aim_cachecookie_def check_under ck_key_def [symmetric] eq_commute [of "_ ck"])
  moreover have "cookies_ok ?s"
  proof -
    have "objs ?s2 a \<noteq> None \<and> a \<notin> set (List.map_filter ck_data (msgcookies ?s1))" if "ck_data ck = Some a" for a
      using own that old(1) map_filter_filter_sub [of ck_data _ "msgcookies s"]
      by (force simp: own_cookie_def in_map_filter split: option.splits)
    with free(2) own show ?thesis
      by (auto simp: cookies_ok_def own_cookie_def sel ck_key_def split: option.splits)
  qed
  ultimately show ?thesis using that sel by simp
qed

interpretation cookies: unique_cache
  cookies_ok own_cookie ck_key "\<lambda>ck s. ck\<lparr>ck_addtime := os_now s\<rparr>" cache_cookie grab_cookie
  "\<lambda>s s'. cookies_ok s' \<and> msgcookies s' = msgcookies s"
proof unfold_locales
  fix s s' :: aim_session and ck :: aim_msgcookie and k k' :: "int \<times> u8 list"
  assume ok: "cookies_ok s"
  have gone: "fst (grab_cookie k t) = (if length (snd k) \<le> 8 then cookie_under k t else None)"
    if "cookies_ok t" for k t
    using that by (cases k) (auto simp: grab_cookie_def uncache_eq)
  show wf: "cookies_ok (snd (grab_cookie k s))" for k
    using ok by (simp add: grab_cookie_def uncache_eq cookies_ok_filter)
  show "cookies_ok s' \<and> msgcookies s' = msgcookies s \<Longrightarrow>
      cookies_ok s' \<and> fst (grab_cookie k s') = fst (grab_cookie k s)"
    using ok by (auto simp: gone cookie_under_def)
  show "k \<noteq> k' \<Longrightarrow> fst (grab_cookie k' (snd (grab_cookie k s))) = fst (grab_cookie k' s)"
    using ok by (cases k; cases k')
      (auto simp: gone [OF wf] gone, auto simp: grab_cookie_def uncache_eq cookie_under_def find_other_key)
  show "fst (grab_cookie k (snd (grab_cookie k s))) = None"
    using ok by (cases k)
      (auto simp: gone [OF wf], auto simp: grab_cookie_def uncache_eq cookie_under_def find_None_iff)
  assume own: "own_cookie ck s"
  obtain t where t: "aim_cachecookie s (Some ck) = Some (0, t)" "cookies_ok t"
    "msgcookies t = ck\<lparr>ck_addtime := os_now s\<rparr> # filter (\<lambda>x. ck_key x \<noteq> ck_key ck) (msgcookies s)"
    using cachecookie_ok [OF ok own] .
  then show "cookies_ok (cache_cookie ck s)" by (simp add: cache_cookie_def)
  show "fst (grab_cookie k (cache_cookie ck s)) =
      (if k = ck_key ck then Some (ck\<lparr>ck_addtime := os_now s\<rparr>) else fst (grab_cookie k s))"
    using t ok
    by (auto simp: cache_cookie_def gone cookie_under_def find_other_key)
qed (simp add: ck_key_def)

text \<open>Caching a cookie is always defined and replaces the cookie of the same kind and string,
  whose data it releases; afterwards that kind and string find the new structure, every other
  kind and string what they found before, and no two cookies share kind and string.\<close>

theorem cachecookie_replaces:
  assumes "cookies_ok s" "own_cookie ck s"
  shows "\<exists>s'. aim_cachecookie s (Some ck) = Some (0, s') \<and> cookies_ok s' \<and>
    (\<forall>c ty. aim_checkcookie s' c ty =
       (if (ty, take 8 c) = ck_key ck then Some (ck\<lparr>ck_addtime := os_now s\<rparr>)
        else aim_checkcookie s c ty))"
proof -
  obtain s' where s': "aim_cachecookie s (Some ck) = Some (0, s')" "cookies_ok s'"
    "msgcookies s' = ck\<lparr>ck_addtime := os_now s\<rparr> # filter (\<lambda>x. ck_key x \<noteq> ck_key ck) (msgcookies s)"
    using cachecookie_ok [OF assms] .
  then have "aim_checkcookie s' c ty =
       (if (ty, take 8 c) = ck_key ck then Some (ck\<lparr>ck_addtime := os_now s\<rparr>)
        else aim_checkcookie s c ty)" for c ty
    by (auto simp: check_under cookie_under_def find_other_key)
  with s' show ?thesis by blast
qed

theorem cachecookie_replaces_witness:
  "\<exists>s'. aim_cachecookie (session0 5\<lparr>next_addr := 1\<rparr>)
       (Some \<lparr>ck_addr = 0, ck_cookie = [1, 2, 3, 4, 5, 6, 7, 8], ck_type = 4, ck_data = None, ck_addtime = 0\<rparr>) =
       Some (0, s') \<and> aim_checkcookie s' [1, 2, 3, 4, 5, 6, 7, 8] 4 =
       Some \<lparr>ck_addr = 0, ck_cookie = [1, 2, 3, 4, 5, 6, 7, 8], ck_type = 4, ck_data = None, ck_addtime = 5\<rparr>"
proof -
  let ?s = "session0 5\<lparr>next_addr := 1\<rparr>"
    and ?ck = "\<lparr>ck_addr = 0, ck_cookie = [1, 2, 3, 4, 5, 6, 7, 8], ck_type = 4, ck_data = None,
               ck_addtime = 0\<rparr>"
  have "cookies_ok ?s" "own_cookie ?ck ?s" "(4, take 8 [1, 2, 3, 4, 5, 6, 7, 8]) = ck_key ?ck"
    by (simp_all add: cookies_ok_def own_cookie_def ck_key_def)
  with cachecookie_replaces [of ?s ?ck] show ?thesis by fastforce
qed

text \<open>Use of the cookie cache for other kinds and strings than \<open>k\<close>, and other activity.\<close>

inductive cookie_traffic :: "int \<times> u8 list \<Rightarrow> aim_session \<Rightarrow> aim_session \<Rightarrow> bool" where
  cache_other: "own_cookie ck s \<Longrightarrow> ck_key ck \<noteq> k \<Longrightarrow> aim_cachecookie s (Some ck) = Some (r, s') \<Longrightarrow>
     cookie_traffic k s s'"
| uncache_other: "length c \<le> 8 \<Longrightarrow> (ty, c) \<noteq> k \<Longrightarrow> aim_uncachecookie s c ty = (r, s') \<Longrightarrow>
     cookie_traffic k s s'"
| cookies_idle: "cookies_ok s' \<Longrightarrow> msgcookies s' = msgcookies s \<Longrightarrow> cookie_traffic k s s'"


lemma cookie_traffic_other:
  assumes "cookies_ok s" "cookie_traffic k s s'"
  shows "cookies.other_traffic k s s'"
  using assms(2,1)
proof (cases rule: cookie_traffic.cases)
  case (cache_other ck r)
  then have "s' = cache_cookie ck s" by (simp add: cache_cookie_def)
  with cache_other show ?thesis by (auto simp: cookies.other_traffic_def)
next
  case (uncache_other c ty r)
  then have "s' = snd (grab_cookie (ty, c) s)" by (simp add: grab_cookie_def)
  with uncache_other show ?thesis by (auto simp: cookies.other_traffic_def)
next
  case cookies_idle
  then show ?thesis by (auto simp: cookies.other_traffic_def)
qed

lemma cookie_traffics_other:
  "(cookie_traffic k)\<^sup>*\<^sup>* s s' \<Longrightarrow> cookies_ok s \<Longrightarrow> (cookies.other_traffic k)\<^sup>*\<^sup>* s s' \<and> cookies_ok s'"
proof (induction rule: rtranclp_induct)
  case (step t u)
  then have "cookies_ok t" "(cookies.other_traffic k)\<^sup>*\<^sup>* s t" by auto
  moreover from cookie_traffic_other [OF this(1) step(2)] have tu: "cookies.other_traffic k t u" .
  ultimately show ?case
    using cookies.other_traffic_step [OF _ tu] by (auto intro: rtranclp.rtrancl_into_rtrancl)
qed simp

text \<open>A cookie that was cached is handed out once, and only to its own kind and string: it
  survives all other use of the cache, and once taken it is gone until it is cached again.\<close>

theorem cookie_handed_out_once:
  assumes "cookies_ok s" "own_cookie ck s" "length c = 8" "ck_key ck = (ty, c)"
    and "aim_cachecookie s (Some ck) = Some (r, s1)" "(cookie_traffic (ty, c))\<^sup>*\<^sup>* s1 s2"
    and "aim_uncachecookie s2 c ty = (got, s3)" "(cookie_traffic (ty, c))\<^sup>*\<^sup>* s3 s4"
  shows "got = Some (ck\<lparr>ck_addtime := os_now s\<rparr>) \<and> fst (aim_uncachecookie s4 c ty) = None"
proof -
  have s1: "s1 = cache_cookie ck s" using assms(5) by (simp add: cache_cookie_def)
  have ok1: "cookies_ok s1" unfolding s1 by (rule cookies.wf_put [OF assms(1,2)])
  note t2 = cookie_traffics_other [OF assms(6) ok1]
  have g2: "grab_cookie (ty, c) s2 = (got, s3)" using assms(3,7) by (simp add: grab_cookie_def)
  have ok3: "cookies_ok s3" using cookies.wf_grab [of s2 "(ty, c)"] t2 g2 by simp
  note t4 = cookie_traffics_other [OF assms(8) ok3]
  have "got = Some (ck\<lparr>ck_addtime := os_now s\<rparr>)"
    using cookies.put_survives [OF assms(1,2), of s2] t2 g2 s1 assms(4) by simp
  moreover have "fst (grab_cookie (ty, c) s4) = None"
    using cookies.grabbed_once [of s2 "(ty, c)" s4] t2 t4 g2 by simp
  ultimately show ?thesis using assms(3) by (simp add: grab_cookie_def)
qed

theorem cookie_handed_out_once_witness:
  "fst (aim_uncachecookie (snd (aim_uncachecookie
     (session0 5\<lparr>next_addr := 1, msgcookies := [\<lparr>ck_addr = 0, ck_cookie = [1, 2, 3, 4, 5, 6, 7, 8],
        ck_type = 4, ck_data = None, ck_addtime = 5\<rparr>]\<rparr>) [1, 2, 3, 4, 5, 6, 7, 8] 4))
     [1, 2, 3, 4, 5, 6, 7, 8] 4) = None"
proof -
  let ?s = "session0 5\<lparr>next_addr := 1\<rparr>" and ?c = "[1, 2, 3, 4, 5, 6, 7, 8] :: u8 list"
  let ?ck = "\<lparr>ck_addr = 0, ck_cookie = ?c, ck_type = 4, ck_data = None, ck_addtime = 0\<rparr>"
  let ?s1 = "?s\<lparr>msgcookies := [?ck\<lparr>ck_addtime := 5\<rparr>]\<rparr>"
  obtain got s3 where g: "aim_uncachecookie ?s1 ?c 4 = (got, s3)" by fastforce
  have "cookies_ok ?s" "own_cookie ?ck ?s" "length ?c = 8" "ck_key ?ck = (4, ?c)"
    "aim_cachecookie ?s (Some ?ck) = Some (0, ?s1)"
    by (simp_all add: cookies_ok_def own_cookie_def ck_key_def aim_cachecookie_def aim_checkcookie_def)
  from cookie_handed_out_once [OF this rtranclp.rtrancl_refl g rtranclp.rtrancl_refl] g
  show ?thesis by simp
qed

end
