(* ===== verification/Conn.thy ===== *)
theory Conn
  imports Session
begin

text \<open>
  Connections: the parts of \<^verbatim>\<open>src/conn.c\<close> that allocate connections, find them and read
  or set their fields. Functions that take a connection pointer take a \<open>nat option\<close>; those
  that return one return it inside the \<open>option\<close> of undefined behaviour. What the name
  service and the socket calls return for a new connection is an argument of \<open>aim_newconn\<close>.
  Closing and killing connections is in theory \<open>Connlife\<close>.
\<close>

subsection \<open>SNAC groups\<close>

definition aim_conn_addgroup :: "nat option \<Rightarrow> u16 \<Rightarrow> aim_session \<Rightarrow> aim_session option" where
  "aim_conn_addgroup conn grp s = do {
     a \<leftarrow> conn;
     c \<leftarrow> conns s a;
     let (ok, s) = malloc s;
     if \<not> ok then Some s
     else do {
       ins \<leftarrow> conn_inside c;
       Some (put_conn a (c\<lparr>conn_inside := Some (ins\<lparr>in_groups := grp # in_groups ins\<rparr>)\<rparr>) s)
     }
   }"

text \<open>The first connection of the list that passes a test.\<close>

primrec conn_walk ::
  "(aim_conn \<Rightarrow> bool option) \<Rightarrow> aim_session \<Rightarrow> nat list \<Rightarrow> nat option option" where
  "conn_walk P s [] = Some None"
| "conn_walk P s (a # as) = do {
     c \<leftarrow> conns s a;
     b \<leftarrow> P c;
     if b then Some (Some a) else conn_walk P s as
   }"

definition aim_conn_findbygroup :: "aim_session \<Rightarrow> u16 \<Rightarrow> nat option option" where
  "aim_conn_findbygroup s grp =
     conn_walk (\<lambda>c. do { ins \<leftarrow> conn_inside c; Some (grp \<in> set (in_groups ins)) }) s (connlist s)"

definition aim_getconn_type :: "aim_session \<Rightarrow> int \<Rightarrow> nat option option" where
  "aim_getconn_type s type =
     conn_walk (\<lambda>c. Some (int (unat (conn_type c)) = type \<and> \<not> conn_inprogress c)) s (connlist s)"

definition aim_getconn_type_all :: "aim_session \<Rightarrow> int \<Rightarrow> nat option option" where
  "aim_getconn_type_all s type =
     conn_walk (\<lambda>c. Some (int (unat (conn_type c)) = type)) s (connlist s)"

definition aim_getconn_fd :: "aim_session \<Rightarrow> int \<Rightarrow> nat option option" where
  "aim_getconn_fd s fd = conn_walk (\<lambda>c. Some (conn_fd c = fd)) s (connlist s)"

primrec maxfd_loop :: "aim_session \<Rightarrow> nat list \<Rightarrow> int \<Rightarrow> int option" where
  "maxfd_loop s [] j = Some j"
| "maxfd_loop s (a # as) j = do {
     cur \<leftarrow> conns s a;
     maxfd_loop s as (if conn_fd cur > j then conn_fd cur else j)
   }"

definition aim_conngetmaxfd :: "aim_session \<Rightarrow> int option" where
  "aim_conngetmaxfd s = maxfd_loop s (connlist s) 0"

definition aim_conn_in_sess :: "aim_session \<Rightarrow> nat option \<Rightarrow> int" where
  "aim_conn_in_sess s conn = (if conn \<in> Some ` set (connlist s) then 1 else 0)"

definition aim_conn_setlatency :: "nat option \<Rightarrow> int \<Rightarrow> aim_session \<Rightarrow> (int \<times> aim_session) option" where
  "aim_conn_setlatency conn newval s =
     (case conn of
        None \<Rightarrow> Some (-1, s)
      | Some a \<Rightarrow> do {
          c \<leftarrow> conns s a;
          Some (0, put_conn a (c\<lparr>conn_forcedlatency := newval, conn_lastactivity := 0\<rparr>) s)
        })"

definition aim_conn_isconnecting :: "nat option \<Rightarrow> aim_session \<Rightarrow> int option" where
  "aim_conn_isconnecting conn s =
     (case conn of
        None \<Rightarrow> Some 0
      | Some a \<Rightarrow> do { c \<leftarrow> conns s a; Some (if conn_inprogress c then 1 else 0) })"

subsection \<open>New connections\<close>

definition aim_conn_init :: "aim_conn \<Rightarrow> aim_conn" where
  "aim_conn_init c =
     c\<lparr>conn_fd := -1, conn_subtype := -1, conn_type := -1, conn_seqnum := 0,
       conn_lastactivity := 0, conn_forcedlatency := 0, conn_handlerlist := [], conn_priv := None,
       conn_inside := Some \<lparr>in_groups = [], in_rates = []\<rparr>\<rparr>"

definition zero_conn :: aim_conn where
  "zero_conn =
     \<lparr>conn_fd = 0, conn_type = 0, conn_subtype = 0, conn_seqnum = 0, conn_status = 0,
      conn_priv = None, conn_internal = None, conn_lastactivity = 0, conn_forcedlatency = 0,
      conn_handlerlist = [], conn_sessv = False, conn_inside = None\<rparr>"

definition aim_conn_getnext :: "aim_session \<Rightarrow> nat option \<times> aim_session" where
  "aim_conn_getnext s =
     (let (ok, s) = malloc s
      in if \<not> ok then (None, s)
         else let (ok, s) = malloc s
              in if \<not> ok then (None, s)
                 else let newconn = aim_conn_init
                            (zero_conn\<lparr>conn_inside := Some \<lparr>in_groups = [], in_rates = []\<rparr>\<rparr>);
                          (a, s) = new_addr s
                      in (Some a, put_conn a newconn (s\<lparr>connlist := a # connlist s\<rparr>)))"

text \<open>\<^verbatim>\<open>atoi\<close>: blanks, a sign, digits.\<close>

primrec atoi_digits :: "cstring \<Rightarrow> int \<Rightarrow> int" where
  "atoi_digits [] n = n"
| "atoi_digits (b # bs) n =
     (if 48 \<le> b \<and> b \<le> 57 then atoi_digits bs (n * 10 + int (unat (b - 48))) else n)"

definition c_atoi :: "cstring \<Rightarrow> int" where
  "c_atoi str =
     (case dropWhile (\<lambda>b. b = 32 \<or> 9 \<le> b \<and> b \<le> 13) str of
        [] \<Rightarrow> 0
      | b # bs \<Rightarrow> (if b = 45 then - atoi_digits bs 0 else if b = 43 then atoi_digits bs 0
                  else atoi_digits (b # bs) 0))"

definition FAIM_LOGIN_PORT :: u16 where "FAIM_LOGIN_PORT = 5190"

subsection \<open>Opening a socket\<close>

text \<open>
  What the name service and the socket calls return: the address of a name (or nothing and
  \<^verbatim>\<open>h_errno\<close>), the new descriptor, the result of \<^verbatim>\<open>connect\<close> with \<^verbatim>\<open>errno\<close>, and
  the results of the calls that make a listening socket. \<open>ne_hostaddr\<close> is the first address of
  the own host, if it has a name. \<open>ne_addrinfo\<close> is \<^verbatim>\<open>getaddrinfo\<close> on systems that have it: for
  a service nothing, or for every address (there is at least one) what \<^verbatim>\<open>socket\<close> and
  \<^verbatim>\<open>bind\<close> return for it.
\<close>

record netenv =
  ne_resolve :: "cstring \<Rightarrow> u8 list option"
  ne_herrno :: u32
  ne_socket :: int
  ne_connect :: "u8 list \<Rightarrow> u16 \<Rightarrow> int \<times> int"
  ne_gethostname :: int
  ne_hostaddr :: "u8 list option"
  ne_setsockopt :: int
  ne_bind :: "u16 \<Rightarrow> int"
  ne_listen :: int
  ne_addrinfo :: "(cstring \<Rightarrow> (int \<times> int) list option) option"

text \<open>A system on which nothing can be reached.\<close>

definition no_network :: netenv where
  "no_network = \<lparr>ne_resolve = (\<lambda>_. None), ne_herrno = 1, ne_socket = -1, ne_connect = (\<lambda>_ _. (-1, 0)),
     ne_gethostname = -1, ne_hostaddr = None, ne_setsockopt = -1, ne_bind = (\<lambda>_. -1), ne_listen = -1,
     ne_addrinfo = None\<rparr>"

definition EINTR :: int where "EINTR = 4"
definition EINPROGRESS :: int where "EINPROGRESS = 115"

text \<open>The messages of the dialogue with the proxy.\<close>

definition socks_methods :: "cstring \<Rightarrow> u8 list" where
  "socks_methods username = (if username \<noteq> [] then [0x05, 0x02, 0x00, 0x02] else [0x05, 0x01, 0x00])"

definition socks_userpass :: "cstring \<Rightarrow> cstring \<Rightarrow> u8 list" where
  "socks_userpass username password =
     [0x01, of_nat (length username)] @ username @ [of_nat (length password)] @ password"

definition socks_connect :: "cstring \<Rightarrow> u16 \<Rightarrow> u8 list" where
  "socks_connect host port = [0x05, 0x01, 0x00, 0x03, of_nat (length host)] @ host @ aimutil_put16 port"

text \<open>
  One message and the reply to it, with one \<^verbatim>\<open>write\<close> and one \<^verbatim>\<open>read\<close>: the status that is
  stored when something is wrong, or the reply.
\<close>

definition socks_exchange ::
  "int \<Rightarrow> u8 list \<Rightarrow> nat \<Rightarrow> (u8 list \<Rightarrow> bool) \<Rightarrow> aim_session \<Rightarrow> (u32 + u8 list) \<times> aim_session" where
  "socks_exchange fd msg n good s =
     (let (w, s) = os_sendbuf fd msg s
      in if w < int (length msg) then (Inl (word_of_int (os_errno s)), s)
         else let (r, reply, s) = os_recv fd n s
              in if r < int n then (Inl (word_of_int (os_errno s)), s)
                 else if \<not> good reply then (Inl (word_of_int EINVAL), s)
                 else (Inr reply, s))"

text \<open>
  The dialogue once the proxy is connected. The last message has to fit into the 512 bytes of the
  buffer. The name and password are read from theirs only when they are needed.
\<close>

definition socks_dialogue ::
  "int \<Rightarrow> cstring \<Rightarrow> u16 \<Rightarrow> u32 \<Rightarrow> aim_session \<Rightarrow> (int \<times> u32 \<times> aim_session) option" where
  "socks_dialogue fd host port status s = do {
     username \<leftarrow> buf_string (socks_username s);
     case socks_exchange fd (socks_methods username) 2 (\<lambda>r. r ! 0 = 0x05 \<and> r ! 1 \<noteq> 0xff) s of
       (Inl st, s) \<Rightarrow> Some (-1, st, s)
     | (Inr reply, s) \<Rightarrow> do {
         (login, s) \<leftarrow>
           (if reply ! 1 = 0x02
            then do {
              password \<leftarrow> buf_string (socks_password s);
              Some (socks_exchange fd (socks_userpass username password) 2 (\<lambda>r. r ! 0 = 0x01 \<and> r ! 1 = 0x00) s)
            }
            else Some (Inr [], s));
         case login of
           Inl st \<Rightarrow> Some (-1, st, s)
         | Inr _ \<Rightarrow>
             (if 512 < length (socks_connect host port) then None
              else case socks_exchange fd (socks_connect host port) 10 (\<lambda>r. r ! 0 = 0x05 \<and> r ! 1 = 0x00) s of
                     (Inl st, s) \<Rightarrow> Some (-1, st, s)
                   | (Inr _, s) \<Rightarrow> Some (fd, status, s))
       }
   }"

text \<open>The descriptor or a negative number, and the status of the connection as it is left.\<close>

definition aim_proxyconnect ::
  "netenv \<Rightarrow> aim_session \<Rightarrow> cstring \<Rightarrow> u16 \<Rightarrow> u32 \<Rightarrow> (int \<times> u32 \<times> aim_session) option" where
  "aim_proxyconnect ne s host port status = do {
     server \<leftarrow> buf_string (socks_server s);
     if server \<noteq> [] then
       (let proxy = takeWhile (\<lambda>b. b \<noteq> 58) server;
            proxyport = (if 58 \<in> set server then word_of_int (c_atoi (drop (length proxy + 1) server)) else 1080);
            (ok, s) = malloc s
        in if \<not> ok then None
           else case ne_resolve ne proxy of
                  None \<Rightarrow> Some (-1, ne_herrno ne OR AIM_CONN_STATUS_RESOLVERR, s)
                | Some addr \<Rightarrow>
                    (let fd = ne_socket ne;
                         (r, e) = ne_connect ne addr proxyport
                     in if r < 0 then Some (-1, status, s\<lparr>os_errno := e\<rparr>)
                        else socks_dialogue fd host port status s))
     else
       (case ne_resolve ne host of
          None \<Rightarrow> Some (-1, ne_herrno ne OR AIM_CONN_STATUS_RESOLVERR, s)
        | Some addr \<Rightarrow>
            (let fd = ne_socket ne;
                 (r, e) = ne_connect ne addr port
             in if r < 0
                then let s = s\<lparr>os_errno := e\<rparr>
                     in if sess_flags s AND AIM_SESS_FLAGS_NONBLOCKCONNECT \<noteq> 0 \<and> (e = EINPROGRESS \<or> e = EINTR)
                        then Some (fd, status OR AIM_CONN_STATUS_INPROGRESS, s)
                        else Some (-1, status, s)
                else Some (fd, status, s)))
   }"

definition aim_newconn ::
  "netenv \<Rightarrow> aim_session \<Rightarrow> int \<Rightarrow> cstring option \<Rightarrow> (nat option \<times> aim_session) option" where
  "aim_newconn ne s type dest =
     (case aim_conn_getnext s of
        (None, s) \<Rightarrow> Some (None, s)
      | (Some a, s) \<Rightarrow> do {
          c \<leftarrow> conns s a;
          let c = c\<lparr>conn_sessv := True, conn_type := word_of_int type\<rparr>;
          case dest of
            None \<Rightarrow> Some (Some a, put_conn a (c\<lparr>conn_fd := -1, conn_status := 0\<rparr>) s)
          | Some dest \<Rightarrow>
              (let host = takeWhile (\<lambda>b. b \<noteq> 58) dest;
                   port = (if 58 \<in> set dest then word_of_int (c_atoi (drop (length host + 1) dest))
                           else FAIM_LOGIN_PORT);
                   (ok, s) = malloc s
               in if \<not> ok then None
                  else do {
                    (ret, status, s) \<leftarrow> aim_proxyconnect ne (put_conn a c s) host port (conn_status c);
                    if ret < 0
                    then Some (Some a, put_conn a
                           (c\<lparr>conn_fd := -1,
                              conn_status := word_of_int (os_errno s) OR AIM_CONN_STATUS_CONNERR\<rparr>) s)
                    else Some (Some a, put_conn a (c\<lparr>conn_fd := ret, conn_status := status\<rparr>) s)
                  })
        })"

section \<open>Well-formed connections\<close>

text \<open>
  Every connection of the list is live, is the session's own, and has its private part; no
  connection is listed twice; addresses given out lie below \<open>next_addr\<close>.
\<close>

definition conns_ok :: "aim_session \<Rightarrow> bool" where
  "conns_ok s \<longleftrightarrow>
     distinct (connlist s) \<and> set (connlist s) = dom (conns s) \<and>
     (\<forall>a \<in> dom (conns s). a < next_addr s) \<and>
     (\<forall>a c. conns s a = Some c \<longrightarrow> conn_inside c \<noteq> None \<and> conn_sessv c)"

definition conn_groups :: "aim_conn \<Rightarrow> u16 list" where
  "conn_groups c = in_groups (the (conn_inside c))"

text \<open>The first address of the list whose connection has a property.\<close>

definition first_conn :: "(aim_conn \<Rightarrow> bool) \<Rightarrow> aim_session \<Rightarrow> nat option" where
  "first_conn P s = find (\<lambda>a. P (the (conns s a))) (connlist s)"

lemma conns_okD:
  "conns_ok s \<Longrightarrow> a \<in> set (connlist s) \<Longrightarrow> \<exists>c. conns s a = Some c \<and> conn_inside c \<noteq> None \<and> conn_sessv c"
  "conns_ok s \<Longrightarrow> conns s a = Some c \<Longrightarrow> a \<in> set (connlist s)"
  "conns_ok s \<Longrightarrow> conns s a = Some c \<Longrightarrow> a < next_addr s"
  "conns_ok s \<Longrightarrow> distinct (connlist s)"
  by (auto simp: conns_ok_def)

lemma conn_walk_first:
  assumes "\<And>a. a \<in> set as \<Longrightarrow> \<exists>c. conns s a = Some c \<and> P c = Some (Q c)"
  shows "conn_walk P s as = Some (find (\<lambda>a. Q (the (conns s a))) as)"
  using assms by (induction as) fastforce+

lemma getconn_type_first:
  "conns_ok s \<Longrightarrow>
   aim_getconn_type s t = Some (first_conn (\<lambda>c. int (unat (conn_type c)) = t \<and> \<not> conn_inprogress c) s)"
  unfolding aim_getconn_type_def first_conn_def
  by (rule conn_walk_first) (auto dest: conns_okD(1))

lemma getconn_type_all_first:
  "conns_ok s \<Longrightarrow> aim_getconn_type_all s t = Some (first_conn (\<lambda>c. int (unat (conn_type c)) = t) s)"
  unfolding aim_getconn_type_all_def first_conn_def
  by (rule conn_walk_first) (auto dest: conns_okD(1))

lemma getconn_fd_first:
  "conns_ok s \<Longrightarrow> aim_getconn_fd s fd = Some (first_conn (\<lambda>c. conn_fd c = fd) s)"
  unfolding aim_getconn_fd_def first_conn_def
  by (rule conn_walk_first) (auto dest: conns_okD(1))

lemma findbygroup_first:
  "conns_ok s \<Longrightarrow> aim_conn_findbygroup s g = Some (first_conn (\<lambda>c. g \<in> set (conn_groups c)) s)"
  unfolding aim_conn_findbygroup_def first_conn_def
  by (rule conn_walk_first) (auto dest!: conns_okD(1) simp: conn_groups_def)

lemma first_conn_None: "first_conn P s = None \<longleftrightarrow> (\<forall>a \<in> set (connlist s). \<not> P (the (conns s a)))"
  by (auto simp: first_conn_def find_None_iff)

lemma first_conn_Some:
  "conns_ok s \<Longrightarrow> first_conn P s = Some a \<Longrightarrow> \<exists>c. conns s a = Some c \<and> P c \<and> a \<in> set (connlist s)"
  by (auto simp: first_conn_def find_Some_iff conns_ok_def dest!: nth_mem)

lemma maxfd_loop_eq:
  "(\<And>a. a \<in> set as \<Longrightarrow> conns s a \<noteq> None) \<Longrightarrow>
   maxfd_loop s as j = Some (foldl max j (map (\<lambda>a. conn_fd (the (conns s a))) as))"
proof (induction as arbitrary: j)
  case (Cons a as)
  then obtain c where "conns s a = Some c" by fastforce
  with Cons show ?case by (auto simp: max_def)
qed simp

lemma conns_ok_put [simp]:
  "conns_ok s \<Longrightarrow> conns s a \<noteq> None \<Longrightarrow> conn_inside c \<noteq> None \<Longrightarrow> conn_sessv c \<Longrightarrow>
   conns_ok (put_conn a c s)"
  by (auto simp: conns_ok_def)

lemma conns_ok_fields [simp]:
  "conns_ok (s\<lparr>queue_incoming := q\<rparr>) = conns_ok s" "conns_ok (s\<lparr>queue_outgoing := q\<rparr>) = conns_ok s"
  "conns_ok (s\<lparr>os_allocs := xs\<rparr>) = conns_ok s" "conns_ok (s\<lparr>msgcookies := cks\<rparr>) = conns_ok s"
  "conns_ok (s\<lparr>snac_hash := h\<rparr>) = conns_ok s" "conns_ok (s\<lparr>snacid_next := i\<rparr>) = conns_ok s"
  "conns_ok (s\<lparr>objs := obs\<rparr>) = conns_ok s" "conns_ok (s\<lparr>os_out := f1\<rparr>) = conns_ok s"
  "conns_ok (s\<lparr>os_send := f2\<rparr>) = conns_ok s" "conns_ok (s\<lparr>os_errno := e\<rparr>) = conns_ok s"
  "conns_ok (s\<lparr>os_in := f3\<rparr>) = conns_ok s" "conns_ok (s\<lparr>os_now := now\<rparr>) = conns_ok s"
  by (auto simp: conns_ok_def)

lemma malloc_conns [simp]: "malloc s = (b, s') \<Longrightarrow> conns_ok s' = conns_ok s"
  by (cases "os_allocs s") (auto simp: malloc_def conns_ok_def)

text \<open>A new connection comes first in the list and is well-formed once it has its session.\<close>

lemma getnext_ok [libc_simps]:
  "mem_ok s \<Longrightarrow> aim_conn_getnext s =
     (Some (next_addr s),
      put_conn (next_addr s)
        (aim_conn_init (zero_conn\<lparr>conn_inside := Some \<lparr>in_groups = [], in_rates = []\<rparr>\<rparr>))
        (s\<lparr>next_addr := Suc (next_addr s), connlist := next_addr s # connlist s\<rparr>))"
  by (simp add: aim_conn_getnext_def new_addr_def Let_def put_conn_def)

end
