(* ===== verification/Txqueue.thy ===== *)
theory Txqueue
  imports Conn
begin

text \<open>
  The transmit side: \<^verbatim>\<open>src/txqueue.c\<close>. A frame under construction is a value of its
  own; enqueueing it moves it into \<open>queue_outgoing\<close> (or sends and releases it at once, or hands
  it to the client's function). \<open>aim_tx_flushqueue\<close> writes the frames that wait to their
  sockets. The headers and payloads are written into blocks of exactly the size the code
  allocates, whose 16-bit length the model truncates as the code does.
\<close>

subsection \<open>Building frames\<close>

definition aim_get_next_txseqnum :: "nat option \<Rightarrow> aim_session \<Rightarrow> (u16 \<times> aim_session) option" where
  "aim_get_next_txseqnum conn s = do {
     a \<leftarrow> conn;
     c \<leftarrow> conns s a;
     let ret = conn_seqnum c + 1;
     Some (ret, put_conn a (c\<lparr>conn_seqnum := ret\<rparr>) s)
   }"

text \<open>The new frame, or a null pointer.\<close>

definition aim_tx_new ::
  "aim_session \<Rightarrow> nat option \<Rightarrow> u8 \<Rightarrow> u8 \<Rightarrow> int \<Rightarrow> (aim_frame option \<times> aim_session) option" where
  "aim_tx_new s conn framing chan datalen =
     (case conn of
        None \<Rightarrow> Some (None, s)
      | Some a \<Rightarrow> do {
          c \<leftarrow> conns s a;
          let rend = (conn_type c = AIM_CONN_TYPE_RENDEZVOUS \<or> conn_type c = AIM_CONN_TYPE_RENDEZVOUS_OUT);
          if rend \<and> framing \<noteq> AIM_FRAMETYPE_OFT then Some (None, s)
          else if \<not> rend \<and> framing \<noteq> AIM_FRAMETYPE_FLAP then Some (None, s)
          else let (ok, s) = malloc s
               in if \<not> ok then Some (None, s)
                  else let (i, s) = new_addr s;
                           fr = \<lparr>fr_id = i,
                                 fr_hdr = (if framing = AIM_FRAMETYPE_FLAP then Flap chan 0
                                           else Oft (ucast chan) [0, 0, 0, 0] 0 None),
                                 fr_data = \<lparr>bs_data = [], bs_len = 0, bs_off = 0\<rparr>,
                                 fr_handled = 0, fr_nofree = 0, fr_conn = conn\<rparr>
                       in if 0 < datalen
                          then let (ok, s) = malloc s
                               in if \<not> ok then Some (None, s)
                                  else Some (Some (fr\<lparr>fr_data :=
                                         aim_bstream_init (fresh s (nat datalen)) datalen\<rparr>), s)
                          else Some (Some fr, s)
        })"

subsection \<open>Writing frames to the socket\<close>

function aim_send_loop :: "int \<Rightarrow> u8 list \<Rightarrow> int \<Rightarrow> 'a os_scheme \<Rightarrow> int \<times> 'a os_scheme" where
  "aim_send_loop fd buf cur s =
     (if buf = [] then (cur, s)
      else let (ret, s') = os_sendbuf fd buf s
           in if ret = -1 then (-1, s')
              else if ret \<le> 0 then (cur, s')
              else aim_send_loop fd (drop (nat ret) buf) (cur + ret) s')"
  by pat_completeness auto
termination by (relation "measure (\<lambda>(fd, buf, cur, s). length buf)") auto

declare aim_send_loop.simps [simp del]

definition aim_send :: "int \<Rightarrow> u8 list \<Rightarrow> 'a os_scheme \<Rightarrow> int \<times> 'a os_scheme" where
  "aim_send fd buf s = aim_send_loop fd buf 0 s"

text \<open>
  \<^verbatim>\<open>count\<close> is unsigned, so the comparison with what is left in the stream is unsigned too.
\<close>

definition aim_bstream_send ::
  "bstream \<Rightarrow> nat option \<Rightarrow> nat \<Rightarrow> aim_session \<Rightarrow> (int \<times> bstream \<times> aim_session) option" where
  "aim_bstream_send bs conn count s =
     (case conn of
        None \<Rightarrow> Some (- EINVAL, bs, s)
      | Some a \<Rightarrow> do {
          c \<leftarrow> conns s a;
          let left = nat (aim_bstream_empty bs mod 2 ^ 32);
          let count = (if count > left then left else count);
          (wrote, s) \<leftarrow>
            (if count = 0 then Some (0, s)
             else do { buf \<leftarrow> peeks bs (bs_off bs) (int count); Some (aim_send (conn_fd c) buf s) });
          if \<not> conn_sessv c then None
          else Some (wrote, bs\<lparr>bs_off := to_u16 (int (bs_off bs) + wrote)\<rparr>, s)
        })"

definition sendframe_flap :: "aim_session \<Rightarrow> aim_frame \<Rightarrow> (int \<times> aim_frame \<times> aim_session) option" where
  "sendframe_flap s fr =
     (case fr_hdr fr of
        Oft _ _ _ _ \<Rightarrow> None
      | Flap type seqnum \<Rightarrow>
          (let payloadlen = aim_bstream_curpos (fr_data fr);
               (ok, s) = malloc s
           in if \<not> ok then Some (- ENOMEM, fr, s)
              else do {
                let obs = aim_bstream_init (fresh s (nat (6 + payloadlen))) (6 + payloadlen);
                (_, obs) \<leftarrow> aimbs_put8 obs 0x2a;
                (_, obs) \<leftarrow> aimbs_put8 obs type;
                (_, obs) \<leftarrow> aimbs_put16 obs seqnum;
                (_, obs) \<leftarrow> aimbs_put16 obs (word_of_int payloadlen);
                (_, obs, data) \<leftarrow> aimbs_putbs obs (aim_bstream_rewind (fr_data fr)) payloadlen;
                let obslen = aim_bstream_curpos obs;
                let obs = aim_bstream_rewind obs;
                (n, obs, s) \<leftarrow> aim_bstream_send obs (fr_conn fr) (nat obslen) s;
                a \<leftarrow> fr_conn fr;
                c \<leftarrow> conns s a;
                Some (if n \<noteq> obslen then - os_errno s else 0,
                      fr\<lparr>fr_data := data, fr_handled := 1\<rparr>,
                      put_conn a (c\<lparr>conn_lastactivity := os_now s\<rparr>) s)
              }))"

definition sendframe_oft :: "aim_session \<Rightarrow> aim_frame \<Rightarrow> (int \<times> aim_frame \<times> aim_session) option" where
  "sendframe_oft s fr =
     (case fr_hdr fr of
        Flap _ _ \<Rightarrow> None
      | Oft type magic hdr2len hdr2 \<Rightarrow>
          (let hbslen = 8 + int (unat hdr2len);
               (ok, s) = malloc s
           in if \<not> ok then Some (-1, fr, s)
              else do {
                let hbs = aim_bstream_init (fresh s (nat hbslen)) hbslen;
                (_, hbs) \<leftarrow> aimbs_putraw hbs magic 4;
                (_, hbs) \<leftarrow> aimbs_put16 hbs (hdr2len + 8);
                (_, hbs) \<leftarrow> aimbs_put16 hbs type;
                (_, hbs) \<leftarrow> aimbs_putraw hbs (case hdr2 of None \<Rightarrow> [] | Some h \<Rightarrow> h) (int (unat hdr2len));
                let hbs = aim_bstream_rewind hbs;
                (n, hbs, s) \<leftarrow> aim_bstream_send hbs (fr_conn fr) (nat hbslen) s;
                (err, data, s) \<leftarrow>
                  (if n \<noteq> hbslen then Some (- os_errno s, fr_data fr, s)
                   else if aim_bstream_curpos (fr_data fr) \<noteq> 0
                   then do {
                     let len = aim_bstream_curpos (fr_data fr);
                     (m, data, s) \<leftarrow> aim_bstream_send (aim_bstream_rewind (fr_data fr)) (fr_conn fr) (nat len) s;
                     Some (if m \<noteq> len then - os_errno s else 0, data, s)
                   }
                   else Some (0, fr_data fr, s));
                a \<leftarrow> fr_conn fr;
                c \<leftarrow> conns s a;
                Some (err, fr\<lparr>fr_data := data, fr_handled := 1\<rparr>,
                      put_conn a (c\<lparr>conn_lastactivity := os_now s\<rparr>) s)
              }))"

definition aim_tx_sendframe :: "aim_session \<Rightarrow> aim_frame \<Rightarrow> (int \<times> aim_frame \<times> aim_session) option" where
  "aim_tx_sendframe s fr =
     (if fr_hdrtype fr = AIM_FRAMETYPE_FLAP then sendframe_flap s fr
      else if fr_hdrtype fr = AIM_FRAMETYPE_OFT then sendframe_oft s fr
      else Some (-1, fr, s))"

subsection \<open>Enqueueing\<close>

text \<open>The header with the next sequence number of the connection; only FLAP frames carry one.\<close>

definition stamp_frame :: "aim_session \<Rightarrow> aim_frame \<Rightarrow> (aim_frame \<times> aim_session) option" where
  "stamp_frame s fr =
     (case fr_hdr fr of
        Flap type _ \<Rightarrow> do {
          (seqnum, s) \<leftarrow> aim_get_next_txseqnum (fr_conn fr) s;
          Some (fr\<lparr>fr_hdr := Flap type seqnum\<rparr>, s)
        }
      | Oft _ _ _ _ \<Rightarrow> Some (fr, s))"

definition aim_tx_enqueue__queuebased :: "aim_session \<Rightarrow> aim_frame \<Rightarrow> (int \<times> aim_session) option" where
  "aim_tx_enqueue__queuebased s fr = do {
     fr \<leftarrow> (case fr_conn fr of
              None \<Rightarrow> do {
                bos \<leftarrow> aim_getconn_type s (int (unat AIM_CONN_TYPE_BOS));
                Some (fr\<lparr>fr_conn := bos\<rparr>)
              }
            | Some _ \<Rightarrow> Some fr);
     (fr, s) \<leftarrow> stamp_frame s fr;
     let fr = fr\<lparr>fr_handled := 0\<rparr>;
     Some (0, s\<lparr>queue_outgoing := queue_outgoing s @ [fr]\<rparr>)
   }"

definition aim_tx_enqueue__immediate :: "aim_session \<Rightarrow> aim_frame \<Rightarrow> (int \<times> aim_session) option" where
  "aim_tx_enqueue__immediate s fr =
     (if fr_conn fr = None then Some (0, s)
      else do {
        (fr, s) \<leftarrow> stamp_frame s fr;
        let fr = fr\<lparr>fr_handled := 0\<rparr>;
        (_, fr, s) \<leftarrow> aim_tx_sendframe s fr;
        Some (0, s)
      })"

definition AIM_TX_QUEUED :: int where "AIM_TX_QUEUED = 0"
definition AIM_TX_IMMEDIATE :: int where "AIM_TX_IMMEDIATE = 1"
definition AIM_TX_USER :: int where "AIM_TX_USER = 2"

definition aim_tx_setenqueue :: "aim_session \<Rightarrow> int \<Rightarrow> nat option \<Rightarrow> int \<times> aim_session" where
  "aim_tx_setenqueue s what func =
     (if what = AIM_TX_QUEUED then (0, s\<lparr>tx_enqueue := TxQueued\<rparr>)
      else if what = AIM_TX_IMMEDIATE then (0, s\<lparr>tx_enqueue := TxImmediate\<rparr>)
      else if what = AIM_TX_USER
      then (case func of None \<Rightarrow> (- EINVAL, s) | Some f \<Rightarrow> (0, s\<lparr>tx_enqueue := TxUser f\<rparr>))
      else (- EINVAL, s))"

definition aim_tx_enqueue :: "client \<Rightarrow> aim_session \<Rightarrow> aim_frame \<Rightarrow> (int \<times> aim_session) option" where
  "aim_tx_enqueue cl s fr = do {
     inprogress \<leftarrow> (case fr_conn fr of
                      None \<Rightarrow> Some False
                    | Some a \<Rightarrow> do { c \<leftarrow> conns s a; Some (conn_inprogress c) });
     if inprogress then aim_tx_enqueue__queuebased s fr
     else case tx_enqueue s of
       TxQueued \<Rightarrow> aim_tx_enqueue__queuebased s fr
     | TxImmediate \<Rightarrow> aim_tx_enqueue__immediate s fr
     | TxUser f \<Rightarrow> cl_tx cl f fr s
   }"

subsection \<open>Flushing, purging, cleaning\<close>

primrec flush_loop :: "aim_frame list \<Rightarrow> aim_session \<Rightarrow> (aim_frame list \<times> aim_session) option" where
  "flush_loop [] s = Some ([], s)"
| "flush_loop (cur # rest) s =
     (if fr_handled cur \<noteq> 0 then do { (rest, s) \<leftarrow> flush_loop rest s; Some (cur # rest, s) }
      else do {
        a \<leftarrow> fr_conn cur;
        c \<leftarrow> conns s a;
        if conn_inprogress c then do { (rest, s) \<leftarrow> flush_loop rest s; Some (cur # rest, s) }
        else do {
          let due = conn_lastactivity c + conn_forcedlatency c;
          let s = (if due \<ge> os_now s then s\<lparr>os_now := due\<rparr> else s);
          (_, cur, s) \<leftarrow> aim_tx_sendframe s cur;
          (rest, s) \<leftarrow> flush_loop rest s;
          Some (cur # rest, s)
        }
      })"

definition aim_tx_purgequeue :: "aim_session \<Rightarrow> aim_session" where
  "aim_tx_purgequeue s = s\<lparr>queue_outgoing := filter (\<lambda>cur. fr_handled cur = 0) (queue_outgoing s)\<rparr>"

definition aim_tx_flushqueue :: "aim_session \<Rightarrow> (int \<times> aim_session) option" where
  "aim_tx_flushqueue s = do {
     (frames, s) \<leftarrow> flush_loop (queue_outgoing s) s;
     Some (0, aim_tx_purgequeue (s\<lparr>queue_outgoing := frames\<rparr>))
   }"

definition aim_tx_cleanqueue :: "aim_session \<Rightarrow> nat option \<Rightarrow> aim_session" where
  "aim_tx_cleanqueue s conn =
     s\<lparr>queue_outgoing :=
         map (\<lambda>cur. if fr_conn cur = conn then cur\<lparr>fr_handled := 1\<rparr> else cur) (queue_outgoing s)\<rparr>"

section \<open>Sending\<close>

text \<open>
  The peer takes everything that is sent, though maybe in pieces: every call of \<^verbatim>\<open>send\<close>
  takes at least one byte.
\<close>

definition sends_ok :: "'a os_scheme \<Rightarrow> bool" where
  "sends_ok s \<longleftrightarrow> (\<forall>fd. \<exists>ks. os_send s fd = map SendLimit ks \<and> 0 \<notin> set ks)"

definition flap_wire :: "u8 \<Rightarrow> u16 \<Rightarrow> u8 list \<Rightarrow> u8 list" where
  "flap_wire type seqnum payload =
     0x2a # type # aimutil_put16 seqnum @ aimutil_put16 (of_nat (length payload)) @ payload"

lemma aim_send_loop_all:
  "os_send s fd = map SendLimit ks \<Longrightarrow> 0 \<notin> set ks \<Longrightarrow>
   \<exists>ks'. aim_send_loop fd buf cur s =
            (cur + int (length buf),
             s\<lparr>os_send := (os_send s)(fd := map SendLimit ks'),
               os_out := (os_out s)(fd := os_out s fd @ buf)\<rparr>) \<and> 0 \<notin> set ks'"
proof (induction ks arbitrary: buf cur s)
  case Nil
  then have "s\<lparr>os_send := (os_send s)(fd := [])\<rparr> = s"
    by (simp add: fun_upd_idem)
  with Nil show ?case
    by (intro exI [of _ "[]"])
      (cases "buf = []"; simp add: aim_send_loop.simps [of fd buf] aim_send_loop.simps [of fd "[]"]
        os_sendbuf_def fun_upd_triv del: fun_upd_apply)
next
  case (Cons k ks)
  show ?case
  proof (cases "buf = []")
    case True
    with Cons.prems show ?thesis
      by (intro exI [of _ "k # ks"]) (simp add: aim_send_loop.simps fun_upd_idem)
  next
    case False
    let ?n = "min k (length buf)"
    let ?s = "s\<lparr>os_send := (os_send s)(fd := map SendLimit ks),
                os_out := (os_out s)(fd := os_out s fd @ take ?n buf)\<rparr>"
    have n: "0 < ?n" using Cons.prems(2) False by simp
    have "aim_send_loop fd buf cur s = aim_send_loop fd (drop ?n buf) (cur + int ?n) ?s"
      using Cons.prems(1) False n
      by (subst aim_send_loop.simps) (auto simp: os_sendbuf_def Let_def min_def)
    moreover obtain ks' where "aim_send_loop fd (drop ?n buf) (cur + int ?n) ?s =
        (cur + int ?n + int (length (drop ?n buf)),
         ?s\<lparr>os_send := (os_send ?s)(fd := map SendLimit ks'),
            os_out := (os_out ?s)(fd := os_out ?s fd @ drop ?n buf)\<rparr>)" "0 \<notin> set ks'"
      using Cons.IH [of ?s "drop ?n buf" "cur + int ?n"] Cons.prems(2)
      by (auto simp del: fun_upd_apply simp: fun_upd_same)
    ultimately show ?thesis
      by (intro exI [of _ ks']) (simp del: fun_upd_apply add: fun_upd_same)
  qed
qed

lemma aim_send_all:
  assumes "sends_ok s"
  obtains ks where "aim_send fd buf s =
     (int (length buf), s\<lparr>os_send := (os_send s)(fd := map SendLimit ks),
                          os_out := (os_out s)(fd := os_out s fd @ buf)\<rparr>)" "0 \<notin> set ks"
proof -
  from assms obtain ks where "os_send s fd = map SendLimit ks" "0 \<notin> set ks"
    by (auto simp: sends_ok_def)
  from aim_send_loop_all [OF this, of buf 0] that show ?thesis
    by (auto simp: aim_send_def)
qed

text \<open>What sending leaves alone: everything but the output, the script and the activity time.\<close>

definition sent :: "int \<Rightarrow> u8 list \<Rightarrow> aim_session \<Rightarrow> aim_session \<Rightarrow> bool" where
  "sent fd bytes s s' \<longleftrightarrow>
     (\<exists>f. s' = s\<lparr>os_send := f, os_out := (os_out s)(fd := os_out s fd @ bytes)\<rparr>) \<and> sends_ok s'"

lemma sent_nothing: "sends_ok s \<Longrightarrow> sent fd [] s s"
  unfolding sent_def by (auto intro!: exI [of _ "os_send s"])

lemma bstream_send_ok:
  assumes "sends_ok s" "conns s a = Some c" "conn_sessv c" "bs_ok bs" "n \<le> room bs"
  obtains s' where "aim_bstream_send bs (Some a) n s = Some (int n, adv n bs, s')"
    "sent (conn_fd c) (take n (unread bs)) s s'"
proof (cases "n = 0")
  case True
  with assms have "aim_bstream_send bs (Some a) n s = Some (int n, adv n bs, s)"
    using setoff_adv [of bs 0] by (simp add: aim_bstream_send_def)
  with that True sent_nothing [OF assms(1)] show ?thesis by simp
next
  case False
  have r: "nat (aim_bstream_empty bs mod 4294967296) = room bs"
    using assms(4) room_lt [of bs] by (simp add: empty_eq)
  obtain ks where s: "aim_send (conn_fd c) (take n (unread bs)) s =
     (int n, s\<lparr>os_send := (os_send s)(conn_fd c := map SendLimit ks),
               os_out := (os_out s)(conn_fd c := os_out s (conn_fd c) @ take n (unread bs))\<rparr>)"
    "0 \<notin> set ks"
    using aim_send_all [OF assms(1), of "conn_fd c" "take n (unread bs)"] assms(4,5)
    by (auto simp: length_unread)
  let ?s = "s\<lparr>os_send := (os_send s)(conn_fd c := map SendLimit ks),
               os_out := (os_out s)(conn_fd c := os_out s (conn_fd c) @ take n (unread bs))\<rparr>"
  have "aim_bstream_send bs (Some a) n s = Some (int n, adv n bs, ?s)"
    using assms s False setoff_adv [of bs "int n"]
    by (simp add: aim_bstream_send_def r peeks_unread Let_def del: fun_upd_apply)
  moreover have "sends_ok ?s"
    using assms(1) s(2) by (auto simp: sends_ok_def)
  ultimately show ?thesis using that unfolding sent_def by blast
qed

lemma putbs_payload:
  assumes "bs_ok d"
  shows "bs_ok (aim_bstream_rewind d)" "room (aim_bstream_rewind d) = bs_len d"
    "take (bs_off d) (unread (aim_bstream_rewind d)) = written d"
  using assms by (auto simp: rewind_eq bs_ok_def room_def unread_def written_def min_def)

lemma rewind_emit_init:
  "bs_ok (emit xs (aim_bstream_init d (int n))) \<Longrightarrow> length xs = n \<Longrightarrow> length d = n \<Longrightarrow> n < 65536 \<Longrightarrow>
   unread (aim_bstream_rewind (emit xs (aim_bstream_init d (int n)))) = xs"
  by (simp add: rewind_eq unread_def emit_def)

lemma sendframe_flap_ok:
  assumes "mem_ok s" "sends_ok s" "fr_hdr fr = Flap ty sq" "fr_conn fr = Some a"
    "conns s a = Some c" "conn_sessv c" "bs_ok (fr_data fr)" "bs_off (fr_data fr) \<le> 65529"
  obtains s' d' where
    "sendframe_flap s fr = Some (0, fr\<lparr>fr_data := d', fr_handled := 1\<rparr>,
       put_conn a (c\<lparr>conn_lastactivity := os_now s\<rparr>) s')"
    "sent (conn_fd c) (flap_wire ty sq (written (fr_data fr))) s s'"
proof -
  let ?d = "fr_data fr" and ?p = "bs_off (fr_data fr)" and ?n = "6 + bs_off (fr_data fr)"
  let ?w = "flap_wire ty sq (written (fr_data fr))"
  define obs where "obs = aim_bstream_init (fresh s ?n) (int ?n)"
  have len: "length ?w = ?n" using length_written [OF assms(7)] by (simp add: flap_wire_def)
  have ok: "bs_ok obs" "room obs = ?n"
    using assms(8) by (simp_all add: obs_def)
  note d = putbs_payload [OF assms(7)]
  have w: "?w = aimutil_put8 0x2a @ aimutil_put8 ty @ aimutil_put16 sq
      @ aimutil_put16 (of_nat ?p) @ written ?d"
    using length_written [OF assms(7)]
    by (simp add: flap_wire_def aimutil_put8_def)
  define r where "r = aim_bstream_rewind (emit ?w obs)"
  have oke: "bs_ok (emit ?w obs)" using ok len by simp
  have r: "bs_ok r" "unread r = ?w" "room r = ?n"
    using rewind_emit_init [of ?w "fresh s ?n" ?n] oke len assms(8)
    unfolding r_def by (simp_all add: obs_def) (simp_all add: rewind_eq room_def)
  have pd: "?p \<le> room (aim_bstream_rewind ?d)" using assms(7) d by (simp add: bs_ok_def)
  obtain s' where s': "aim_bstream_send r (Some a) ?n s = Some (int ?n, adv ?n r, s')"
    "sent (conn_fd c) ?w s s'"
    using bstream_send_ok [OF assms(2,5,6) r(1), of ?n] r len by auto
  then have c: "conns s' a = Some c" by (auto simp: sent_def assms(5))
  have now: "os_now s' = os_now s" using s'(2) by (auto simp: sent_def)
  have "sendframe_flap s fr = Some (0, fr\<lparr>fr_data := adv ?p (aim_bstream_rewind ?d), fr_handled := 1\<rparr>,
       put_conn a (c\<lparr>conn_lastactivity := os_now s\<rparr>) s')"
  proof -
    have o: "aim_bstream_init (fresh s (nat (6 + aim_bstream_curpos ?d))) (6 + aim_bstream_curpos ?d) = obs"
      by (simp add: obs_def aim_bstream_curpos_def nat_add_distrib)
    have pos: "aim_bstream_curpos obs = 0"
      by (simp add: obs_def)
    have cur: "aim_bstream_curpos ?d = int ?p"
      by (simp add: aim_bstream_curpos_def)
    show ?thesis
      unfolding sendframe_flap_def Let_def assms(3) frame_hdr.case malloc_ok [OF assms(1)] prod.case o
      using assms(4) s'(1) c now ok d pd pos r_def
      by (simp add: stream_simps cur w [symmetric] len nat_add_distrib)
  qed
  with that s'(2) show ?thesis by blast
qed


section \<open>The queue\<close>

text \<open>
  A frame the queue can send: a FLAP frame for a live connection, whose payload leaves room
  for the header in the 16 bits of a stream's length.
\<close>

definition frame_ready :: "aim_session \<Rightarrow> aim_frame \<Rightarrow> bool" where
  "frame_ready s fr \<longleftrightarrow>
     (\<exists>ty sq a c. fr_hdr fr = Flap ty sq \<and> fr_conn fr = Some a \<and> conns s a = Some c \<and> conn_sessv c)
     \<and> bs_ok (fr_data fr) \<and> bs_off (fr_data fr) \<le> 65529"

text \<open>The descriptor of the frame's connection, whether it is still connecting, and its bytes.\<close>

definition fr_fd :: "aim_session \<Rightarrow> aim_frame \<Rightarrow> int" where
  "fr_fd s fr = conn_fd (the (conn_at s (fr_conn fr)))"

definition fr_waits :: "aim_session \<Rightarrow> aim_frame \<Rightarrow> bool" where
  "fr_waits s fr = conn_inprogress (the (conn_at s (fr_conn fr)))"

definition fr_wire :: "aim_frame \<Rightarrow> u8 list" where
  "fr_wire fr = (case fr_hdr fr of Flap ty sq \<Rightarrow> flap_wire ty sq (written (fr_data fr)) | _ \<Rightarrow> [])"

text \<open>What the frames of a list put on descriptor \<open>fd\<close>.\<close>

definition wires :: "aim_session \<Rightarrow> int \<Rightarrow> aim_frame list \<Rightarrow> u8 list" where
  "wires s fd frs =
     concat (map fr_wire (filter (\<lambda>fr. fr_handled fr = 0 \<and> \<not> fr_waits s fr \<and> fr_fd s fr = fd) frs))"

text \<open>Sessions whose connections differ in nothing but the time of their last activity.\<close>

definition same_conns :: "aim_session \<Rightarrow> aim_session \<Rightarrow> bool" where
  "same_conns s s' \<longleftrightarrow>
     (\<forall>a. map_option (\<lambda>c. c\<lparr>conn_lastactivity := 0\<rparr>) (conns s' a)
        = map_option (\<lambda>c. c\<lparr>conn_lastactivity := 0\<rparr>) (conns s a))"

lemma same_conns_refl [simp]: "same_conns s s"
  by (simp add: same_conns_def)

lemma same_conns_trans: "same_conns s t \<Longrightarrow> same_conns t u \<Longrightarrow> same_conns s u"
  by (simp add: same_conns_def)

lemma lastactivity_eq:
  "c\<lparr>conn_lastactivity := 0\<rparr> = c'\<lparr>conn_lastactivity := 0\<rparr> \<Longrightarrow>
   conn_fd c = conn_fd c' \<and> conn_status c = conn_status c' \<and> conn_sessv c = conn_sessv c'
   \<and> conn_inside c = conn_inside c' \<and> conn_type c = conn_type c'"
  by (metis aim_conn.select_convs aim_conn.update_convs(8) aim_conn.surjective)

lemma same_conns_at:
  assumes "same_conns s s'" "conns s a = Some c"
  obtains c' where "conns s' a = Some c'" "conn_fd c' = conn_fd c" "conn_inprogress c' = conn_inprogress c"
    "conn_sessv c' = conn_sessv c"
proof -
  have "map_option (\<lambda>c. c\<lparr>conn_lastactivity := 0\<rparr>) (conns s' a) = Some (c\<lparr>conn_lastactivity := 0\<rparr>)"
    using assms by (simp add: same_conns_def)
  then obtain c' where "conns s' a = Some c'" "c'\<lparr>conn_lastactivity := 0\<rparr> = c\<lparr>conn_lastactivity := 0\<rparr>"
    by (auto simp: map_option_eq_Some)
  with lastactivity_eq [OF this(2)] that show ?thesis
    by (simp add: conn_inprogress_def)
qed

lemma same_conns_frame:
  assumes "same_conns s s'" "frame_ready s fr"
  shows "frame_ready s' fr" "fr_fd s' fr = fr_fd s fr" "fr_waits s' fr = fr_waits s fr"
proof -
  from assms(2) obtain ty sq a c where h: "fr_hdr fr = Flap ty sq" "fr_conn fr = Some a" "conns s a = Some c"
    "conn_sessv c" by (auto simp: frame_ready_def)
  obtain c' where "conns s' a = Some c'" "conn_fd c' = conn_fd c" "conn_inprogress c' = conn_inprogress c"
    "conn_sessv c' = conn_sessv c"
    using same_conns_at [OF assms(1) h(3)] .
  with h assms(2) show "frame_ready s' fr" "fr_fd s' fr = fr_fd s fr" "fr_waits s' fr = fr_waits s fr"
    by (auto simp: frame_ready_def fr_fd_def fr_waits_def)
qed

lemma same_conns_put:
  "conns s a = Some c \<Longrightarrow> same_conns s (put_conn a (c\<lparr>conn_lastactivity := t\<rparr>) s)"
  by (simp add: same_conns_def)

lemma wires_cong:
  assumes "same_conns s s'" "\<forall>fr \<in> set frs. frame_ready s fr"
  shows "wires s' fd frs = wires s fd frs"
proof -
  have "filter (\<lambda>fr. fr_handled fr = 0 \<and> \<not> fr_waits s' fr \<and> fr_fd s' fr = fd) frs =
        filter (\<lambda>fr. fr_handled fr = 0 \<and> \<not> fr_waits s fr \<and> fr_fd s fr = fd) frs"
    using assms by (intro filter_cong) (auto simp: same_conns_frame)
  then show ?thesis by (simp add: wires_def)
qed

text \<open>Sending one frame that is ready, and all of a list.\<close>

lemma sendframe_ready:
  assumes "mem_ok s" "sends_ok s" "frame_ready s fr"
  obtains s' fr' where "aim_tx_sendframe s fr = Some (0, fr', s')" "fr_handled fr' = 1"
    "mem_ok s'" "sends_ok s'" "same_conns s s'" "queue_outgoing s' = queue_outgoing s"
    "\<And>fd. os_out s' fd = os_out s fd @ (if fd = fr_fd s fr then fr_wire fr else [])"
proof -
  from assms(3) obtain ty sq a c where h: "fr_hdr fr = Flap ty sq" "fr_conn fr = Some a"
    "conns s a = Some c" "conn_sessv c" "bs_ok (fr_data fr)" "bs_off (fr_data fr) \<le> 65529"
    by (auto simp: frame_ready_def)
  obtain s' d' where s': "sendframe_flap s fr = Some (0, fr\<lparr>fr_data := d', fr_handled := 1\<rparr>,
       put_conn a (c\<lparr>conn_lastactivity := os_now s\<rparr>) s')"
    "sent (conn_fd c) (flap_wire ty sq (written (fr_data fr))) s s'"
    using sendframe_flap_ok [OF assms(1,2) h] .
  show ?thesis
  proof (rule that)
    show "aim_tx_sendframe s fr = Some (0, fr\<lparr>fr_data := d', fr_handled := 1\<rparr>,
       put_conn a (c\<lparr>conn_lastactivity := os_now s\<rparr>) s')"
      using s'(1) h(1) by (simp add: aim_tx_sendframe_def fr_hdrtype_def)
    have "conns s' = conns s" using s'(2) by (auto simp: sent_def)
    then show "same_conns s (put_conn a (c\<lparr>conn_lastactivity := os_now s\<rparr>) s')"
      using h(3) by (simp add: same_conns_def)
  qed (use s'(2) assms(1) h in \<open>auto simp: sent_def mem_ok_def fr_fd_def fr_wire_def sends_ok_def\<close>)
qed

lemma flush_loop_ok:
  assumes "mem_ok s" "sends_ok s" "\<forall>fr \<in> set frs. fr_handled fr = 0 \<longrightarrow> frame_ready s fr"
  shows "\<exists>frs' s'. flush_loop frs s = Some (frs', s') \<and> mem_ok s' \<and> sends_ok s' \<and> same_conns s s' \<and>
    filter (\<lambda>fr. fr_handled fr = 0) frs' = filter (\<lambda>fr. fr_handled fr = 0 \<and> fr_waits s fr) frs \<and>
    (\<forall>fd. os_out s' fd = os_out s fd @ wires s fd frs)"
  using assms
proof (induction frs arbitrary: s)
  case Nil
  then show ?case by (simp add: wires_def)
next
  case (Cons fr frs)
  then have ready: "\<forall>f \<in> set frs. fr_handled f = 0 \<longrightarrow> frame_ready s f"
    by simp
  show ?case
  proof (cases "fr_handled fr = 0 \<and> \<not> fr_waits s fr")
    case False
    from Cons.IH [OF Cons.prems(1,2) ready] obtain frs' s' where IH:
      "flush_loop frs s = Some (frs', s')" "mem_ok s'" "sends_ok s'" "same_conns s s'"
      "filter (\<lambda>fr. fr_handled fr = 0) frs' = filter (\<lambda>fr. fr_handled fr = 0 \<and> fr_waits s fr) frs"
      "\<forall>fd. os_out s' fd = os_out s fd @ wires s fd frs"
      by blast
    have "flush_loop (fr # frs) s = Some (fr # frs', s')"
      using False IH(1) Cons.prems(3) by (auto simp: fr_waits_def frame_ready_def)
    with IH False show ?thesis by (auto simp: wires_def)
  next
    case True
    then have r: "frame_ready s fr" using Cons.prems(3) by simp
    then obtain a c where ac: "fr_conn fr = Some a" "conns s a = Some c" "\<not> conn_inprogress c"
      using True by (auto simp: frame_ready_def fr_waits_def)
    define t where "t = (if conn_lastactivity c + conn_forcedlatency c \<ge> os_now s
      then s\<lparr>os_now := conn_lastactivity c + conn_forcedlatency c\<rparr> else s)"
    have t: "mem_ok t" "sends_ok t" "same_conns s t" "os_out t = os_out s"
      using Cons.prems by (auto simp: t_def mem_ok_def sends_ok_def same_conns_def)
    obtain u fr' where u: "aim_tx_sendframe t fr = Some (0, fr', u)" "fr_handled fr' = 1" "mem_ok u"
      "sends_ok u" "same_conns t u"
      "\<And>fd. os_out u fd = os_out t fd @ (if fd = fr_fd t fr then fr_wire fr else [])"
      using sendframe_ready [OF t(1,2) same_conns_frame(1) [OF t(3) r]] by metis
    have su: "same_conns s u" using same_conns_trans t(3) u(5) .
    have "\<forall>f \<in> set frs. fr_handled f = 0 \<longrightarrow> frame_ready u f"
      using ready same_conns_frame(1) [OF su] by blast
    from Cons.IH [OF u(3,4) this] obtain frs' s' where IH:
      "flush_loop frs u = Some (frs', s')" "mem_ok s'" "sends_ok s'" "same_conns u s'"
      "filter (\<lambda>fr. fr_handled fr = 0) frs' = filter (\<lambda>fr. fr_handled fr = 0 \<and> fr_waits u fr) frs"
      "\<forall>fd. os_out s' fd = os_out u fd @ wires u fd frs"
      by blast
    have "filter (\<lambda>fr. fr_handled fr = 0 \<and> fr_waits u fr) frs =
          filter (\<lambda>fr. fr_handled fr = 0 \<and> fr_waits s fr) frs"
      using ready same_conns_frame(3) [OF su] by (intro filter_cong) auto
    moreover have "wires u fd frs = wires s fd frs" for fd
      unfolding wires_def
      using ready same_conns_frame(2,3) [OF su] by (intro arg_cong [where f = "\<lambda>x. concat (map fr_wire x)"] filter_cong) auto
    moreover have "fr_fd t fr = fr_fd s fr" using same_conns_frame(2) [OF t(3) r] .
    moreover have "flush_loop (fr # frs) s = Some (fr' # frs', s')"
      using True ac u(1) IH(1) t_def by (simp add: Let_def)
    ultimately show ?thesis
      using IH u t True same_conns_trans [OF su IH(4)] by (auto simp: wires_def)
  qed
qed

section \<open>Properties of the transmit side\<close>

text \<open>A connection and a frame to try the properties on.\<close>

definition demo_conn :: "int \<Rightarrow> aim_conn" where
  "demo_conn fd = (aim_conn_init (zero_conn\<lparr>conn_inside := Some \<lparr>in_groups = [], in_rates = []\<rparr>\<rparr>))
     \<lparr>conn_fd := fd, conn_type := AIM_CONN_TYPE_BOS, conn_sessv := True\<rparr>"

definition demo_frame :: "u8 \<Rightarrow> u8 list \<Rightarrow> nat option \<Rightarrow> aim_frame" where
  "demo_frame ty payload conn =
     \<lparr>fr_id = 1, fr_hdr = Flap ty 0,
      fr_data = \<lparr>bs_data = payload, bs_len = length payload, bs_off = length payload\<rparr>,
      fr_handled = 0, fr_nofree = 0, fr_conn = conn\<rparr>"

definition demo_session :: aim_session where
  "demo_session = (session0 9)\<lparr>conns := [0 \<mapsto> demo_conn 5], connlist := [0], next_addr := 2\<rparr>"

lemma demo_sel [simp]:
  "mem_ok demo_session" "conns demo_session = [0 \<mapsto> demo_conn 5]" "conn_sessv (demo_conn fd)"
  "conn_fd (demo_conn fd) = fd" "connlist demo_session = [0]" "os_send demo_session = (\<lambda>_. [])"
  "os_out demo_session = (\<lambda>_. [])" "queue_outgoing demo_session = []" "conn_seqnum (demo_conn fd) = 0"
  "tx_enqueue demo_session = TxQueued" "\<not> conn_inprogress (demo_conn fd)" "sends_ok demo_session"
  "conn_type (demo_conn fd) = AIM_CONN_TYPE_BOS" "queue_incoming demo_session = []"
  "conn_inside (demo_conn fd) = Some \<lparr>in_groups = [], in_rates = []\<rparr>" "os_now demo_session = 9"
  "conn_handlerlist (demo_conn fd) = []" "conn_priv (demo_conn fd) = None"
  "conn_lastactivity (demo_conn fd) = 0" "conn_forcedlatency (demo_conn fd) = 0"
  by (simp_all add: demo_session_def demo_conn_def aim_conn_init_def zero_conn_def conn_inprogress_def
      mem_ok_def sends_ok_def)

lemma put8_keeps:
  assumes "bs_ok bs"
  obtains r bs' where "aimbs_put8 bs v = Some (r, bs')" "bs_ok bs'" "bs_len bs' = bs_len bs"
  using assms by (cases "room bs < 1") (auto simp: stream_simps)

lemma put16_keeps:
  assumes "bs_ok bs"
  obtains r bs' where "aimbs_put16 bs v = Some (r, bs')" "bs_ok bs'" "bs_len bs' = bs_len bs"
  using assms by (cases "room bs < 2") (auto simp: stream_simps)

text \<open>C4: sending a FLAP frame with a payload of up to 65529 bytes always succeeds; it puts the
  six header bytes and the payload on the socket of its connection, whole and in order however the
  socket cuts the writes, marks the frame as sent, stamps the connection with the time of the
  activity, and changes nothing else of the session.\<close>

theorem sendframe_flap_wire:
  assumes "mem_ok s" "sends_ok s" "fr_hdr fr = Flap ty sq" "fr_conn fr = Some a"
    "conns s a = Some c" "conn_sessv c" "bs_ok (fr_data fr)" "bs_off (fr_data fr) \<le> 65529"
  shows "\<exists>d' f. aim_tx_sendframe s fr = Some (0, fr\<lparr>fr_data := d', fr_handled := 1\<rparr>,
    s\<lparr>os_send := f,
      os_out := (os_out s)(conn_fd c := os_out s (conn_fd c) @ [0x2a, ty] @ aimutil_put16 sq
        @ aimutil_put16 (of_nat (bs_off (fr_data fr))) @ written (fr_data fr)),
      conns := (conns s)(a \<mapsto> c\<lparr>conn_lastactivity := os_now s\<rparr>)\<rparr>)"
proof -
  have len: "length (written (fr_data fr)) = bs_off (fr_data fr)"
    using assms(7) by (simp add: length_written)
  obtain s' d' where s': "sendframe_flap s fr = Some (0, fr\<lparr>fr_data := d', fr_handled := 1\<rparr>,
       put_conn a (c\<lparr>conn_lastactivity := os_now s\<rparr>) s')"
    "sent (conn_fd c) (flap_wire ty sq (written (fr_data fr))) s s'"
    using sendframe_flap_ok [OF assms] .
  then show ?thesis
    by (auto simp: aim_tx_sendframe_def fr_hdrtype_def assms(3) sent_def flap_wire_def len put_conn_def)
qed

theorem sendframe_flap_wire_witness:
  "\<exists>fr' s'. aim_tx_sendframe demo_session (demo_frame 2 [7, 8] (Some 0)) = Some (0, fr', s') \<and>
     os_out s' 5 = [0x2a, 2, 0, 0, 0, 2, 7, 8] \<and> map_option conn_lastactivity (conns s' 0) = Some 9"
proof -
  have fr: "fr_hdr (demo_frame 2 [7, 8] (Some 0)) = Flap 2 0" "fr_conn (demo_frame 2 [7, 8] (Some 0)) = Some 0"
    "bs_ok (fr_data (demo_frame 2 [7, 8] (Some 0)))" "bs_off (fr_data (demo_frame 2 [7, 8] (Some 0))) = 2"
    "written (fr_data (demo_frame 2 [7, 8] (Some 0))) = [7, 8]"
    by (simp_all add: demo_frame_def bs_ok_def written_def)
  show ?thesis
    using sendframe_flap_wire [OF demo_sel(1,12) fr(1,2), of "demo_conn 5"] fr
    by (fastforce simp: aimutil_put16_def)
qed

text \<open>A payload of 65530 to 65535 bytes makes the length of the header and payload wrap
  around: the frame counts as sent without an error, but at most five bytes have gone out.\<close>

theorem sendframe_flap_wraps:
  assumes "mem_ok s" "sends_ok s" "fr_hdr fr = Flap ty sq" "fr_conn fr = Some a"
    "conns s a = Some c" "conn_sessv c" "bs_ok (fr_data fr)" "65530 \<le> bs_off (fr_data fr)"
  shows "\<exists>fr' s' out. aim_tx_sendframe s fr = Some (0, fr', s') \<and> fr_handled fr' = 1 \<and>
    os_out s' (conn_fd c) = os_out s (conn_fd c) @ out \<and> length out \<le> 5"
proof -
  let ?d = "fr_data fr" and ?p = "bs_off (fr_data fr)"
  define obs where "obs = aim_bstream_init (fresh s (nat (6 + int ?p))) (6 + int ?p)"
  have p: "?p < 65536" using assms(7) by (simp add: bs_ok_def)
  have m: "(6 + int ?p) mod 65536 = int ?p - 65530"
    using minus_mod_self2 [of "6 + int ?p" 65536] assms(8) p by simp
  have obs: "bs_ok obs" "bs_len obs \<le> 5"
    using assms(8) p by (auto simp: obs_def aim_bstream_init_def bs_ok_def to_u16_def m)
  obtain r1 b1 where b1: "aimbs_put8 obs 0x2a = Some (r1, b1)" "bs_ok b1" "bs_len b1 = bs_len obs"
    using put8_keeps [OF obs(1)] .
  obtain r2 b2 where b2: "aimbs_put8 b1 ty = Some (r2, b2)" "bs_ok b2" "bs_len b2 = bs_len b1"
    using put8_keeps [OF b1(2)] .
  obtain r3 b3 where b3: "aimbs_put16 b2 sq = Some (r3, b3)" "bs_ok b3" "bs_len b3 = bs_len b2"
    using put16_keeps [OF b2(2)] .
  obtain r4 b4 where b4: "aimbs_put16 b3 (word_of_int (int ?p)) = Some (r4, b4)" "bs_ok b4" "bs_len b4 = bs_len b3"
    using put16_keeps [OF b3(2)] .
  have small: "bs_len b4 \<le> 5" using b1(3) b2(3) b3(3) b4(3) obs(2) by simp
  have pb: "aimbs_putbs b4 (aim_bstream_rewind ?d) (int ?p) = Some (0, b4, aim_bstream_rewind ?d)"
    using small assms(8) by (simp add: aimbs_putbs_def aim_bstream_empty_def)
  let ?r = "aim_bstream_rewind b4"
  have r: "bs_ok ?r" "bs_off b4 \<le> room ?r" "bs_off b4 \<le> 5"
    using b4(2) small by (auto simp: rewind_eq bs_ok_def room_def)
  obtain s' where s': "aim_bstream_send ?r (Some a) (bs_off b4) s = Some (int (bs_off b4), adv (bs_off b4) ?r, s')"
    "sent (conn_fd c) (take (bs_off b4) (unread ?r)) s s'"
    using bstream_send_ok [OF assms(2,5,6) r(1,2)] .
  then have s: "conns s' a = Some c" "os_out s' (conn_fd c) = os_out s (conn_fd c) @ take (bs_off b4) (unread ?r)"
    using assms(5) by (auto simp: sent_def)
  have "aim_tx_sendframe s fr = Some (0, fr\<lparr>fr_data := aim_bstream_rewind ?d, fr_handled := 1\<rparr>,
      put_conn a (c\<lparr>conn_lastactivity := os_now s'\<rparr>) s')"
    using assms(1,3,4) b1(1) b2(1) b3(1) b4(1) pb s'(1) s(1)
    by (simp add: aim_tx_sendframe_def fr_hdrtype_def sendframe_flap_def Let_def
        aim_bstream_curpos_def obs_def)
  moreover have "length (take (bs_off b4) (unread ?r)) \<le> 5" using r(3) by simp
  ultimately show ?thesis using s(2) by fastforce
qed

theorem sendframe_flap_wraps_witness:
  "\<exists>fr' s'. aim_tx_sendframe demo_session (demo_frame 2 (replicate 65530 1) (Some 0)) = Some (0, fr', s')
     \<and> length (os_out s' 5) \<le> 5"
  using sendframe_flap_wraps [of demo_session "demo_frame 2 (replicate 65530 1) (Some 0)" 2 0 0 "demo_conn 5"]
  by (auto simp: demo_frame_def bs_ok_def)

text \<open>C7: flushing sends the waiting frames of all connections that are not still connecting,
  each connection's frames in the order they were queued, and leaves exactly the frames of
  connecting connections, unsent and in order.\<close>

theorem flushqueue_in_order:
  assumes "mem_ok s" "sends_ok s" "\<forall>fr \<in> set (queue_outgoing s). fr_handled fr = 0 \<and> frame_ready s fr"
  shows "\<exists>s'. aim_tx_flushqueue s = Some (0, s') \<and> same_conns s s' \<and>
    queue_outgoing s' = filter (fr_waits s) (queue_outgoing s) \<and>
    (\<forall>fd. os_out s' fd = os_out s fd @
       concat (map fr_wire (filter (\<lambda>fr. \<not> fr_waits s fr \<and> fr_fd s fr = fd) (queue_outgoing s))))"
proof -
  obtain frs' s' where f: "flush_loop (queue_outgoing s) s = Some (frs', s')" "same_conns s s'"
    "filter (\<lambda>fr. fr_handled fr = 0) frs' =
       filter (\<lambda>fr. fr_handled fr = 0 \<and> fr_waits s fr) (queue_outgoing s)"
    "\<forall>fd. os_out s' fd = os_out s fd @ wires s fd (queue_outgoing s)"
    using flush_loop_ok [OF assms(1,2)] assms(3) by blast
  have "filter (\<lambda>fr. fr_handled fr = 0 \<and> fr_waits s fr) (queue_outgoing s) = filter (fr_waits s) (queue_outgoing s)"
    "wires s fd (queue_outgoing s) =
       concat (map fr_wire (filter (\<lambda>fr. \<not> fr_waits s fr \<and> fr_fd s fr = fd) (queue_outgoing s)))" for fd
    using assms(3) by (auto simp: wires_def intro!: filter_cong arg_cong [where f = "\<lambda>x. concat (map fr_wire x)"])
  with f show ?thesis
    by (simp add: aim_tx_flushqueue_def aim_tx_purgequeue_def same_conns_def)
qed

theorem flushqueue_in_order_witness:
  "\<exists>s'. aim_tx_flushqueue (demo_session\<lparr>queue_outgoing := [demo_frame 2 [7] (Some 0), demo_frame 2 [8] (Some 0)]\<rparr>)
     = Some (0, s') \<and> queue_outgoing s' = [] \<and>
     os_out s' 5 = [0x2a, 2, 0, 0, 0, 1, 7, 0x2a, 2, 0, 0, 0, 1, 8]"
proof -
  let ?s = "demo_session\<lparr>queue_outgoing := [demo_frame 2 [7] (Some 0), demo_frame 2 [8] (Some 0)]\<rparr>"
  have "mem_ok ?s" "sends_ok ?s" by (simp_all add: sends_ok_def)
  moreover have "\<forall>fr \<in> set (queue_outgoing ?s). fr_handled fr = 0 \<and> frame_ready ?s fr"
    by (simp add: frame_ready_def demo_frame_def bs_ok_def)
  ultimately obtain s' where "aim_tx_flushqueue ?s = Some (0, s')"
    "queue_outgoing s' = filter (fr_waits ?s) (queue_outgoing ?s)"
    "os_out s' 5 = os_out ?s 5 @
       concat (map fr_wire (filter (\<lambda>fr. \<not> fr_waits ?s fr \<and> fr_fd ?s fr = 5) (queue_outgoing ?s)))"
    using flushqueue_in_order [of ?s] by blast
  then show ?thesis
    by (simp add: fr_waits_def fr_fd_def fr_wire_def flap_wire_def demo_frame_def written_def aimutil_put16_def)
qed

text \<open>Enqueueing a list of frames, one after the other.\<close>

primrec enqueue_all :: "client \<Rightarrow> aim_frame list \<Rightarrow> aim_session \<Rightarrow> aim_session option" where
  "enqueue_all cl [] s = Some s"
| "enqueue_all cl (fr # frs) s = do { (_, s) \<leftarrow> aim_tx_enqueue cl s fr; enqueue_all cl frs s }"

text \<open>The frames with consecutive sequence numbers.\<close>

primrec numbered :: "u16 \<Rightarrow> aim_frame list \<Rightarrow> aim_frame list" where
  "numbered n [] = []"
| "numbered n (fr # frs) =
     fr\<lparr>fr_hdr := (case fr_hdr fr of Flap ty _ \<Rightarrow> Flap ty n | h \<Rightarrow> h), fr_handled := 0\<rparr> # numbered (n + 1) frs"

text \<open>C8: FLAP frames enqueued for a connection in queued mode (or one still connecting, in any
  mode) join the end of the queue in the order they were enqueued, with consecutive sequence
  numbers modulo \<open>2 ^ 16\<close> that continue those of the connection; nothing is sent.\<close>

theorem enqueue_numbers_frames:
  assumes "conns s a = Some c" "conn_inprogress c \<or> tx_enqueue s = TxQueued"
    "\<forall>fr \<in> set frs. fr_conn fr = Some a \<and> (\<exists>ty sq. fr_hdr fr = Flap ty sq)"
  shows "enqueue_all cl frs s =
    Some ((if frs = [] then s else put_conn a (c\<lparr>conn_seqnum := conn_seqnum c + of_nat (length frs)\<rparr>) s)
      \<lparr>queue_outgoing := queue_outgoing s @ numbered (conn_seqnum c + 1) frs\<rparr>)"
  using assms
proof (induction frs arbitrary: s c)
  case (Cons fr frs)
  then obtain ty sq where fr: "fr_conn fr = Some a" "fr_hdr fr = Flap ty sq" by auto
  let ?c = "c\<lparr>conn_seqnum := conn_seqnum c + 1\<rparr>"
  let ?s = "(put_conn a ?c s)\<lparr>queue_outgoing := queue_outgoing s @
      [fr\<lparr>fr_hdr := Flap ty (conn_seqnum c + 1), fr_handled := 0\<rparr>]\<rparr>"
  have "aim_tx_enqueue cl s fr = Some (0, ?s)"
    using Cons.prems(1,2) fr
    by (auto simp: aim_tx_enqueue_def aim_tx_enqueue__queuebased_def stamp_frame_def
        aim_get_next_txseqnum_def put_conn_def Let_def)
  moreover have "enqueue_all cl frs ?s = Some ((if frs = [] then ?s
      else put_conn a (?c\<lparr>conn_seqnum := conn_seqnum ?c + of_nat (length frs)\<rparr>) ?s)
      \<lparr>queue_outgoing := queue_outgoing ?s @ numbered (conn_seqnum ?c + 1) frs\<rparr>)"
    using Cons.prems by (intro Cons.IH) (auto simp: conn_inprogress_def)
  ultimately show ?case
    using fr by (auto simp: put_conn_def add_ac)
qed simp

theorem enqueue_numbers_frames_witness:
  "map_option (map fr_hdr \<circ> queue_outgoing)
     (enqueue_all \<lparr>cl_callback = (\<lambda>_ _ _ _ _. None), cl_tx = (\<lambda>_ _ _. None)\<rparr>
       [demo_frame 2 [7] (Some 0), demo_frame 5 [] (Some 0)] demo_session)
   = Some [Flap 2 1, Flap 5 2]"
  by (subst enqueue_numbers_frames [of _ 0 "demo_conn 5"]) (auto simp: demo_frame_def)

end
