(* ===== verification/Handlers.thy ===== *)
theory Handlers
  imports Conn
begin

text \<open>
  The callbacks of a connection: the handler lists of \<^verbatim>\<open>src/rxhandlers.c\<close>. A handler is
  found by family and type; where there is none, by the family's default. The library's own
  handler \<^verbatim>\<open>bleck\<close> only prints; what it prints is not modelled, what it reads is.
\<close>

subsection \<open>Registering\<close>

definition dontuse :: "(u16 \<times> u16) list" where
  "dontuse = [(0x0001, 0x0002), (0x0001, 0x0003), (0x0001, 0x0006), (0x0001, 0x0007),
              (0x0001, 0x0008), (0x0001, 0x0017), (0x0001, 0x0018)]"

definition checkdisallowed :: "u16 \<Rightarrow> u16 \<Rightarrow> int" where
  "checkdisallowed grp type = (if (grp, type) \<in> set dontuse then 1 else 0)"

definition aim_conn_addhandler ::
  "aim_session \<Rightarrow> nat option \<Rightarrow> u16 \<Rightarrow> u16 \<Rightarrow> rxhandler option \<Rightarrow> u16
   \<Rightarrow> (int \<times> aim_session) option" where
  "aim_conn_addhandler s conn family type newhandler flags =
     (case conn of
        None \<Rightarrow> Some (-1, s)
      | Some a \<Rightarrow>
          if checkdisallowed family type \<noteq> 0 then Some (-1, s)
          else let (ok, s) = malloc s
               in if \<not> ok then Some (-1, s)
                  else do {
                    c \<leftarrow> conns s a;
                    let newcb = \<lparr>cb_family = family, cb_type = type,
                          cb_handler = (case newhandler of None \<Rightarrow> Bleck | Some h \<Rightarrow> h),
                          cb_flags = flags\<rparr>;
                    Some (0, put_conn a (c\<lparr>conn_handlerlist := conn_handlerlist c @ [newcb]\<rparr>) s)
                  })"

definition aim_clearhandlers :: "aim_session \<Rightarrow> nat option \<Rightarrow> (int \<times> aim_session) option" where
  "aim_clearhandlers s conn =
     (case conn of
        None \<Rightarrow> Some (-1, s)
      | Some a \<Rightarrow> do {
          c \<leftarrow> conns s a;
          Some (0, put_conn a (c\<lparr>conn_handlerlist := []\<rparr>) s)
        })"

primrec clonehandlers_loop ::
  "aim_rxcblist list \<Rightarrow> nat option \<Rightarrow> aim_session \<Rightarrow> aim_session option" where
  "clonehandlers_loop [] dest s = Some s"
| "clonehandlers_loop (cur # rest) dest s = do {
     (_, s) \<leftarrow> aim_conn_addhandler s dest (cb_family cur) (cb_type cur) (Some (cb_handler cur)) (cb_flags cur);
     clonehandlers_loop rest dest s
   }"

definition aim_clonehandlers :: "aim_session \<Rightarrow> nat option \<Rightarrow> nat option \<Rightarrow> aim_session option" where
  "aim_clonehandlers s dest src = do {
     c \<leftarrow> conn_at s src;
     clonehandlers_loop (conn_handlerlist c) dest s
   }"

text \<open>The clone of a connection shares the descriptor and the private data of its parent.\<close>

definition aim_cloneconn :: "aim_session \<Rightarrow> nat option \<Rightarrow> (nat option \<times> aim_session) option" where
  "aim_cloneconn s src =
     (case aim_conn_getnext s of
        (None, s) \<Rightarrow> Some (None, s)
      | (Some a, s) \<Rightarrow> do {
          c \<leftarrow> conns s a;
          p \<leftarrow> conn_at s src;
          let c = c\<lparr>conn_fd := conn_fd p, conn_type := conn_type p, conn_subtype := conn_subtype p,
                    conn_seqnum := conn_seqnum p, conn_priv := conn_priv p,
                    conn_internal := conn_internal p, conn_lastactivity := conn_lastactivity p,
                    conn_forcedlatency := conn_forcedlatency p, conn_sessv := conn_sessv p\<rparr>;
          s \<leftarrow> aim_clonehandlers (put_conn a c s) (Some a) src;
          Some (Some a, s)
        })"

subsection \<open>Calling\<close>

text \<open>The handler, or a null pointer.\<close>

primrec callhandler_loop :: "aim_rxcblist list \<Rightarrow> u16 \<Rightarrow> u16 \<Rightarrow> rxhandler option" where
  "callhandler_loop [] family type = None"
| "callhandler_loop (cur # rest) family type =
     (if cb_family cur = family \<and> cb_type cur = type then Some (cb_handler cur)
      else callhandler_loop rest family type)"

definition aim_callhandler :: "aim_session \<Rightarrow> nat option \<Rightarrow> u16 \<Rightarrow> u16 \<Rightarrow> rxhandler option option" where
  "aim_callhandler s conn family type =
     (case conn of
        None \<Rightarrow> Some None
      | Some a \<Rightarrow> do {
          c \<leftarrow> conns s a;
          case callhandler_loop (conn_handlerlist c) family type of
            Some h \<Rightarrow> Some (Some h)
          | None \<Rightarrow>
              (if type = AIM_CB_SPECIAL_DEFAULT then Some None
               else Some (callhandler_loop (conn_handlerlist c) family AIM_CB_SPECIAL_DEFAULT))
        })"

text \<open>The channel \<^verbatim>\<open>hdr.flap.type\<close>; of an OFT header, the byte the union has there.\<close>

definition fr_channel :: "aim_frame \<Rightarrow> u8" where
  "fr_channel fr = (case fr_hdr fr of Flap type _ \<Rightarrow> type | Oft type _ _ _ \<Rightarrow> ucast type)"

definition bleck :: "aim_frame option \<Rightarrow> bstream \<Rightarrow> (int \<times> bstream) option" where
  "bleck frame bs = do {
     fr \<leftarrow> frame;
     if fr_channel fr = 0x02 then do {
       (family, bs) \<leftarrow> aimbs_get16 bs;
       (subtype, bs) \<leftarrow> aimbs_get16 bs;
       Some (1, bs)
     } else Some (1, bs)
   }"

text \<open>A call through a handler pointer.\<close>

definition call_cb ::
  "client \<Rightarrow> rxhandler \<Rightarrow> aim_frame option \<Rightarrow> cb_arg list \<Rightarrow> bstream \<Rightarrow> aim_session
   \<Rightarrow> (int \<times> bstream \<times> aim_session) option" where
  "call_cb cl h frame args bs s =
     (case h of
        Bleck \<Rightarrow> do { (r, bs) \<leftarrow> bleck frame bs; Some (r, bs, s) }
      | UserCb n \<Rightarrow> cl_callback cl n frame args bs s)"

text \<open>
  The pattern all modules share: look the handler up, call it if there is one, and otherwise
  leave the result at \<open>d\<close>.
\<close>

definition call_user ::
  "client \<Rightarrow> aim_session \<Rightarrow> nat option \<Rightarrow> u16 \<Rightarrow> u16 \<Rightarrow> int \<Rightarrow> aim_frame option \<Rightarrow> cb_arg list
   \<Rightarrow> bstream \<Rightarrow> (int \<times> bstream \<times> aim_session) option" where
  "call_user cl s conn family type d frame args bs = do {
     userfunc \<leftarrow> aim_callhandler s conn family type;
     case userfunc of
       Some h \<Rightarrow> call_cb cl h frame args bs s
     | None \<Rightarrow> Some (d, bs, s)
   }"

definition aim_callhandler_noparam ::
  "client \<Rightarrow> aim_session \<Rightarrow> nat option \<Rightarrow> u16 \<Rightarrow> u16 \<Rightarrow> aim_frame option \<Rightarrow> bstream
   \<Rightarrow> (int \<times> bstream \<times> aim_session) option" where
  "aim_callhandler_noparam cl s conn family type ptr bs = call_user cl s conn family type 1 ptr [] bs"

section \<open>Lookup and registration\<close>

lemma callhandler_loop_find:
  "callhandler_loop hs f t = map_option cb_handler (find (\<lambda>h. cb_family h = f \<and> cb_type h = t) hs)"
  by (induction hs) auto

lemma callhandler_loop_append:
  "callhandler_loop (hs @ [h]) f t =
     (case callhandler_loop hs f t of Some x \<Rightarrow> Some x
      | None \<Rightarrow> if cb_family h = f \<and> cb_type h = t then Some (cb_handler h) else None)"
  by (induction hs) auto

lemma addhandler_cases:
  assumes "aim_conn_addhandler s conn f t h fl = Some (r, s')"
  obtains "s' = s" | "s' = s\<lparr>os_allocs := tl (os_allocs s)\<rparr>"
  | a c where "conn = Some a" "conns s a = Some c" "checkdisallowed f t = 0"
      "s' = put_conn a (c\<lparr>conn_handlerlist := conn_handlerlist c @
         [\<lparr>cb_family = f, cb_type = t, cb_handler = (case h of None \<Rightarrow> Bleck | Some h \<Rightarrow> h), cb_flags = fl\<rparr>]\<rparr>)
         (s\<lparr>os_allocs := tl (os_allocs s)\<rparr>)"
  using assms
  by (auto simp: aim_conn_addhandler_def malloc_eq Let_def split: option.splits if_splits bind_splits)

lemma conns_ok_addhandler:
  assumes "conns_ok s" "aim_conn_addhandler s conn f t h fl = Some (r, s')"
  shows "conns_ok s'"
  using assms(2)
proof (cases rule: addhandler_cases)
  case (3 a c)
  with conns_okD(1) [OF assms(1) conns_okD(2) [OF assms(1)]] assms(1) show ?thesis
    by (fastforce intro!: conns_ok_put)
qed (use assms(1) in simp_all)

text \<open>No handler of a disallowed SNAC is on the list.\<close>

definition handlers_ok :: "aim_session \<Rightarrow> bool" where
  "handlers_ok s \<longleftrightarrow>
     (\<forall>a c. conns s a = Some c \<longrightarrow>
        (\<forall>h \<in> set (conn_handlerlist c). (cb_family h, cb_type h) \<notin> set dontuse))"

lemma checkdisallowed_iff: "checkdisallowed f t = 0 \<longleftrightarrow> (f, t) \<notin> set dontuse"
  by (simp add: checkdisallowed_def)

lemma handlers_ok_addhandler:
  assumes "handlers_ok s" "aim_conn_addhandler s conn f t h fl = Some (r, s')"
  shows "handlers_ok s'"
  using assms(2)
  by (cases rule: addhandler_cases)
    (use assms(1) in \<open>auto simp: handlers_ok_def checkdisallowed_iff\<close>)

lemma handlers_ok_clone_loop:
  "handlers_ok s \<Longrightarrow> clonehandlers_loop hs dest s = Some s' \<Longrightarrow> handlers_ok s'"
  by (induction hs arbitrary: s) (auto split: bind_splits dest: handlers_ok_addhandler)

lemma handlers_ok_put:
  "handlers_ok s \<Longrightarrow> conn_handlerlist c = [] \<Longrightarrow> handlers_ok (put_conn a c s)"
  by (auto simp: handlers_ok_def)

lemma handlers_ok_malloc: "malloc s = (b, s') \<Longrightarrow> handlers_ok s' = handlers_ok s"
  by (auto simp: malloc_eq handlers_ok_def)

lemma handlers_ok_getnext: "handlers_ok s \<Longrightarrow> aim_conn_getnext s = (r, s') \<Longrightarrow> handlers_ok s'"
  by (auto simp: aim_conn_getnext_def Let_def new_addr_def split: prod.splits if_splits
      dest!: handlers_ok_malloc intro!: handlers_ok_put)
    (auto simp: handlers_ok_def aim_conn_init_def)

lemma getnext_handlers:
  "aim_conn_getnext s = (Some a, s') \<Longrightarrow> \<exists>c. conns s' a = Some c \<and> conn_handlerlist c = []"
  by (auto simp: aim_conn_getnext_def Let_def new_addr_def aim_conn_init_def split: prod.splits if_splits)

lemma handlers_ok_cloneconn:
  assumes "handlers_ok s" "aim_cloneconn s src = Some (r, s')"
  shows "handlers_ok s'"
proof (cases "aim_conn_getnext s")
  case (Pair b t)
  then have t: "handlers_ok t" using handlers_ok_getnext assms(1) by blast
  show ?thesis
  proof (cases b)
    case (Some a)
    obtain c where c: "conns t a = Some c" "conn_handlerlist c = []"
      using getnext_handlers Pair Some by blast
    have "handlers_ok (put_conn a d t)" if "conn_handlerlist d = conn_handlerlist c" for d
      using that c t by (simp add: handlers_ok_put)
    with assms(2) Pair Some c(1) show ?thesis
      by (auto simp: aim_cloneconn_def aim_clonehandlers_def Let_def split: bind_splits
          elim!: handlers_ok_clone_loop [rotated])
  qed (use assms(2) Pair t in \<open>simp add: aim_cloneconn_def\<close>)
qed

text \<open>A client whose callbacks do nothing.\<close>

definition quiet_client :: client where
  "quiet_client = \<lparr>cl_callback = (\<lambda>n fr args bs s. Some (1, bs, s)), cl_tx = (\<lambda>n fr s. Some (0, s))\<rparr>"

section \<open>Properties of the handler lists\<close>

definition hooked :: "aim_session \<Rightarrow> nat \<Rightarrow> u16 \<Rightarrow> u16 \<Rightarrow> rxhandler option" where
  "hooked s a f t = callhandler_loop (conn_handlerlist (the (conns s a))) f t"

lemma callhandler_hooked:
  "conns s a \<noteq> None \<Longrightarrow> aim_callhandler s (Some a) f t =
     Some (case hooked s a f t of Some h \<Rightarrow> Some h | None \<Rightarrow> hooked s a f AIM_CB_SPECIAL_DEFAULT)"
  by (auto simp: aim_callhandler_def hooked_def split: option.splits)

text \<open>A handler registered on a connection is called for its family and type unless one was
  registered for them before, and for the other types of its family if it is the default and
  the first one; what any other connection calls does not change.\<close>

theorem addhandler_then_call:
  assumes "mem_ok s" "conns s a \<noteq> None" "conns s b \<noteq> None" "checkdisallowed f t = 0"
  shows "\<exists>s'. aim_conn_addhandler s (Some a) f t h fl = Some (0, s') \<and>
    aim_callhandler s' (Some b) f' t' =
      (if a = b \<and> f' = f \<and> hooked s a f t' = None \<and> (t' = t \<or>
            t = AIM_CB_SPECIAL_DEFAULT \<and> hooked s a f AIM_CB_SPECIAL_DEFAULT = None)
       then Some (Some (case h of None \<Rightarrow> Bleck | Some h \<Rightarrow> h))
       else aim_callhandler s (Some b) f' t')"
proof -
  from assms(2) obtain c where c: "conns s a = Some c" by auto
  let ?cb = "\<lparr>cb_family = f, cb_type = t, cb_handler = (case h of None \<Rightarrow> Bleck | Some h \<Rightarrow> h), cb_flags = fl\<rparr>"
  let ?s = "put_conn a (c\<lparr>conn_handlerlist := conn_handlerlist c @ [?cb]\<rparr>) s"
  have "aim_conn_addhandler s (Some a) f t h fl = Some (0, ?s)"
    using assms(1,4) c by (simp add: aim_conn_addhandler_def)
  moreover have "hooked ?s b g u = (if a = b \<and> hooked s a g u = None \<and> g = f \<and> u = t
      then Some (case h of None \<Rightarrow> Bleck | Some h \<Rightarrow> h) else hooked s b g u)" for g u
    using c by (auto simp: hooked_def callhandler_loop_append split: option.splits)
  ultimately show ?thesis
    using assms(2,3) c
    by (intro exI [of _ ?s]) (auto simp: callhandler_hooked split: option.splits)
qed


theorem addhandler_then_call_witness:
  "\<exists>s'. aim_conn_addhandler (session0 0\<lparr>conns := [0 \<mapsto> zero_conn]\<rparr>) (Some 0) 4 7 (Some (UserCb 1)) 0 = Some (0, s')
     \<and> aim_callhandler s' (Some 0) 4 7 = Some (Some (UserCb 1))"
  using addhandler_then_call [of "session0 0\<lparr>conns := [0 \<mapsto> zero_conn]\<rparr>" 0 0 4 7 "Some (UserCb 1)" 0 4 7]
  by (auto simp: hooked_def zero_conn_def checkdisallowed_def dontuse_def)

text \<open>What clients can do to handler lists: register, clear, clone a connection, open a new one.\<close>

inductive hook_step :: "aim_session \<Rightarrow> aim_session \<Rightarrow> bool" where
  hook: "aim_conn_addhandler s conn f t h fl = Some (r, s') \<Longrightarrow> hook_step s s'"
| unhook: "aim_clearhandlers s conn = Some (r, s') \<Longrightarrow> hook_step s s'"
| clone: "aim_cloneconn s conn = Some (r, s') \<Longrightarrow> hook_step s s'"
| open_conn: "aim_conn_getnext s = (r, s') \<Longrightarrow> hook_step s s'"

lemma hook_step_ok: "hook_step s s' \<Longrightarrow> handlers_ok s \<Longrightarrow> handlers_ok s'"
proof (induction rule: hook_step.induct)
  case (unhook s conn r s')
  then show ?case
    by (auto simp: aim_clearhandlers_def handlers_ok_def split: option.splits bind_splits if_splits)
qed (auto intro: handlers_ok_addhandler handlers_ok_cloneconn handlers_ok_getnext)

text \<open>Whatever handlers a client registers, clears and clones, and on whatever connections,
  the SNACs the library reserves for itself are never given to a handler registered for them:
  they reach at most the default handler of their family.\<close>

theorem disallowed_never_hooked:
  assumes "hook_step\<^sup>*\<^sup>* s s'" "handlers_ok s" "checkdisallowed f t \<noteq> 0" "conns s' a \<noteq> None"
  shows "aim_callhandler s' (Some a) f t = Some (hooked s' a f AIM_CB_SPECIAL_DEFAULT)
       \<and> hooked s' a f t = None"
proof -
  have "handlers_ok s'"
    using assms(1,2) by (induction rule: rtranclp_induct) (auto intro: hook_step_ok)
  with assms(3,4) have "hooked s' a f t = None"
    by (auto simp: handlers_ok_def hooked_def callhandler_loop_find checkdisallowed_iff find_None_iff)
  with assms(4) show ?thesis by (simp add: callhandler_hooked)
qed

theorem disallowed_never_hooked_witness:
  "aim_callhandler (snd (the (aim_conn_addhandler (session0 0\<lparr>conns := [0 \<mapsto> zero_conn]\<rparr>) (Some 0)
      1 7 (Some (UserCb 1)) 0))) (Some 0) 1 7 = Some None"
proof -
  let ?s = "session0 0\<lparr>conns := [0 \<mapsto> zero_conn]\<rparr>"
  have add: "aim_conn_addhandler ?s (Some 0) 1 7 (Some (UserCb 1)) 0 = Some (-1, ?s)"
    by (simp add: aim_conn_addhandler_def checkdisallowed_def dontuse_def)
  have ok: "handlers_ok ?s" by (simp add: handlers_ok_def zero_conn_def)
  have "hook_step\<^sup>*\<^sup>* ?s ?s" using hook_step.hook [OF add] by (rule r_into_rtranclp)
  from disallowed_never_hooked [OF this ok, of 1 7 0] add show ?thesis
    by (simp add: hooked_def zero_conn_def checkdisallowed_def dontuse_def)
qed

end
