(* ===== verification/Connlife.thy ===== *)
theory Connlife
  imports Handlers Txqueue Msgcookie
begin

text \<open>
  The end of a connection: closing and killing it (\<^verbatim>\<open>src/conn.c\<close>), what becomes of the
  frames that refer to it (\<^verbatim>\<open>aim_rxqueue_cleanbyconn\<close> and \<^verbatim>\<open>aim_purge_rxqueue\<close> of
  \<^verbatim>\<open>src/rxqueue.c\<close>), of its message cookie and private data (\<^verbatim>\<open>src/ft.c\<close>), and the
  room a chat connection carries (\<^verbatim>\<open>src/chat.c\<close>). Closing the descriptor itself has no
  effect in the model.
\<close>

subsection \<open>Frames of a dying connection\<close>

definition aim_rxqueue_cleanbyconn :: "aim_session \<Rightarrow> nat option \<Rightarrow> aim_session" where
  "aim_rxqueue_cleanbyconn s conn =
     s\<lparr>queue_incoming :=
         map (\<lambda>fr. if fr_handled fr = 0 \<and> fr_conn fr = conn then fr\<lparr>fr_handled := 1\<rparr> else fr)
           (queue_incoming s)\<rparr>"

definition aim_purge_rxqueue :: "aim_session \<Rightarrow> aim_session" where
  "aim_purge_rxqueue s = s\<lparr>queue_incoming := filter (\<lambda>fr. fr_handled fr = 0) (queue_incoming s)\<rparr>"

subsection \<open>The room of a chat connection\<close>

definition aim_conn_kill_chat :: "aim_session \<Rightarrow> nat option \<Rightarrow> aim_session option" where
  "aim_conn_kill_chat s conn = do {
     c \<leftarrow> conn_at s conn;
     case conn_priv c of
       None \<Rightarrow> Some s
     | Some p \<Rightarrow> do {
         ccp \<leftarrow> objs s p;
         case ccp of
           ChatPriv exchange name inst \<Rightarrow> free_obj (Some p) s
         | _ \<Rightarrow> None
       }
   }"

definition aim_chat_attachname ::
  "nat option \<Rightarrow> u16 \<Rightarrow> cstring option \<Rightarrow> u16 \<Rightarrow> aim_session \<Rightarrow> (int \<times> aim_session) option" where
  "aim_chat_attachname conn exchange roomname inst s =
     (if conn = None \<or> roomname = None then Some (- EINVAL, s)
      else do {
        a \<leftarrow> conn;
        c \<leftarrow> conns s a;
        s \<leftarrow> free_obj (conn_priv c) s;
        let (ok, s) = malloc s;
        if \<not> ok then Some (- ENOMEM, s)
        else let (dup, s) = malloc s;
                 (p, s) = new_addr s;
                 name = (if dup then roomname else None)
             in Some (0, put_conn a (c\<lparr>conn_priv := Some p\<rparr>)
                  (s\<lparr>objs := (objs s)(p := Some (ChatPriv exchange name inst))\<rparr>))
      })"

text \<open>The name, or a null pointer.\<close>

definition aim_chat_getname :: "nat option \<Rightarrow> aim_session \<Rightarrow> cstring option option" where
  "aim_chat_getname conn s =
     (case conn of
        None \<Rightarrow> Some None
      | Some a \<Rightarrow> do {
          c \<leftarrow> conns s a;
          if conn_type c \<noteq> AIM_CONN_TYPE_CHAT then Some None
          else do {
            ccp \<leftarrow> obj_at s (conn_priv c);
            case ccp of ChatPriv exchange name inst \<Rightarrow> Some name | _ \<Rightarrow> None
          }
        })"

definition aim_chat_getconn :: "aim_session \<Rightarrow> cstring \<Rightarrow> nat option option" where
  "aim_chat_getconn s name =
     conn_walk (\<lambda>cur.
       if conn_type cur \<noteq> AIM_CONN_TYPE_CHAT then Some False
       else if conn_priv cur = None then Some False
       else do {
         ccp \<leftarrow> obj_at s (conn_priv cur);
         case ccp of
           ChatPriv exchange cname inst \<Rightarrow> do { n \<leftarrow> cname; Some (n = name) }
         | _ \<Rightarrow> None
       }) s (connlist s)"

subsection \<open>Direct connections and file transfers\<close>

text \<open>The cookie kept in the private data, taken out of the cache and released.\<close>

definition drop_cookie :: "u8 list \<Rightarrow> int \<Rightarrow> aim_session \<Rightarrow> aim_session option" where
  "drop_cookie c ty s =
     (let (cook, s) = aim_uncachecookie s c ty
      in do { (_, s) \<leftarrow> aim_cookie_free s cook; Some s })"

definition connclose_sendfile :: "aim_session \<Rightarrow> aim_conn \<Rightarrow> aim_session option" where
  "connclose_sendfile s c = do {
     priv \<leftarrow> obj_at s (conn_priv c);
     case priv of XferPriv cookie \<Rightarrow> drop_cookie cookie AIM_COOKIETYPE_OFTSEND s | _ \<Rightarrow> None
   }"

definition connclose_getfile :: "aim_session \<Rightarrow> aim_conn \<Rightarrow> aim_session option" where
  "connclose_getfile s c = do {
     priv \<leftarrow> obj_at s (conn_priv c);
     case priv of XferPriv cookie \<Rightarrow> drop_cookie cookie AIM_COOKIETYPE_OFTGET s | _ \<Rightarrow> None
   }"

definition connclose_directim :: "aim_session \<Rightarrow> aim_conn \<Rightarrow> aim_session option" where
  "connclose_directim s c = do {
     intdata \<leftarrow> obj_at s (conn_internal c);
     case intdata of DirectimData cookie sn ip \<Rightarrow> drop_cookie cookie AIM_COOKIETYPE_OFTIM s | _ \<Rightarrow> None
   }"

definition aim_conn_close_rend :: "aim_session \<Rightarrow> nat option \<Rightarrow> aim_session option" where
  "aim_conn_close_rend s conn = do {
     c \<leftarrow> conn_at s conn;
     if conn_type c \<noteq> AIM_CONN_TYPE_RENDEZVOUS then Some s
     else if conn_subtype c = AIM_CONN_SUBTYPE_OFT_SENDFILE then connclose_sendfile s c
     else if conn_subtype c = AIM_CONN_SUBTYPE_OFT_GETFILE then connclose_getfile s c
     else if conn_subtype c = AIM_CONN_SUBTYPE_OFT_DIRECTIM then connclose_directim s c
     else Some s
   }"

definition aim_conn_kill_rend :: "aim_session \<Rightarrow> nat option \<Rightarrow> aim_session option" where
  "aim_conn_kill_rend s conn = do {
     c \<leftarrow> conn_at s conn;
     if conn_type c \<noteq> AIM_CONN_TYPE_RENDEZVOUS then Some s
     else if conn_subtype c = AIM_CONN_SUBTYPE_OFT_SENDFILE
           \<or> conn_subtype c = AIM_CONN_SUBTYPE_OFT_GETFILE
           \<or> conn_subtype c = AIM_CONN_SUBTYPE_OFT_DIRECTIM
     then free_obj (conn_internal c) s
     else Some s
   }"

subsection \<open>Closing and killing\<close>

definition aim_conn_close :: "nat option \<Rightarrow> aim_session \<Rightarrow> aim_session option" where
  "aim_conn_close deadconn s = do {
     a \<leftarrow> deadconn;
     c \<leftarrow> conns s a;
     let s = put_conn a (c\<lparr>conn_fd := -1\<rparr>) s;
     (_, s) \<leftarrow> (if conn_handlerlist c \<noteq> [] then aim_clearhandlers s deadconn else Some (0, s));
     if conn_type c = AIM_CONN_TYPE_RENDEZVOUS
     then (if conn_sessv c then aim_conn_close_rend s deadconn else None)
     else Some s
   }"

definition connkill_real :: "aim_session \<Rightarrow> nat \<Rightarrow> aim_session option" where
  "connkill_real s a = do {
     let s = aim_rxqueue_cleanbyconn s (Some a);
     let s = aim_tx_cleanqueue s (Some a);
     c \<leftarrow> conns s a;
     s \<leftarrow> (if conn_fd c \<noteq> -1 then aim_conn_close (Some a) s else Some s);
     c \<leftarrow> conns s a;
     s \<leftarrow> free_obj (conn_priv c) s;
     s \<leftarrow> (if conn_type c = AIM_CONN_TYPE_RENDEZVOUS then aim_conn_kill_rend s (Some a)
           else if conn_type c = AIM_CONN_TYPE_CHAT then aim_conn_kill_chat s (Some a)
           else Some s);
     Some (s\<lparr>conns := (conns s)(a := None)\<rparr>)
   }"

primrec connrst_loop :: "nat list \<Rightarrow> aim_session \<Rightarrow> aim_session option" where
  "connrst_loop [] s = Some s"
| "connrst_loop (cur # rest) s = do {
     s \<leftarrow> aim_conn_close (Some cur) s;
     s \<leftarrow> connkill_real s cur;
     connrst_loop rest s
   }"

definition aim_connrst :: "aim_session \<Rightarrow> aim_session option" where
  "aim_connrst s = do { s \<leftarrow> connrst_loop (connlist s) s; Some (s\<lparr>connlist := []\<rparr>) }"

definition aim_conn_kill :: "aim_session \<Rightarrow> nat option \<Rightarrow> aim_session option" where
  "aim_conn_kill s deadconn =
     (case deadconn of
        None \<Rightarrow> Some s
      | Some a \<Rightarrow> (if a \<in> set (connlist s)
                  then connkill_real (s\<lparr>connlist := remove1 a (connlist s)\<rparr>) a else Some s))"

definition aim_logoff :: "aim_session \<Rightarrow> (int \<times> aim_session) option" where
  "aim_logoff s = do { s \<leftarrow> aim_connrst s; Some (0, s) }"

section \<open>What sending and closing leave alone\<close>

text \<open>Only the environment changed.\<close>

definition os_only :: "aim_session \<Rightarrow> aim_session \<Rightarrow> bool" where
  "os_only s s' \<longleftrightarrow> os.more s' = os.more s"

lemma os_only_fields [frame_simps]:
  "os_only s s' \<Longrightarrow> conns s' = conns s" "os_only s s' \<Longrightarrow> connlist s' = connlist s"
  "os_only s s' \<Longrightarrow> queue_incoming s' = queue_incoming s"
  "os_only s s' \<Longrightarrow> queue_outgoing s' = queue_outgoing s"
  "os_only s s' \<Longrightarrow> next_addr s' = next_addr s" "os_only s s' \<Longrightarrow> objs s' = objs s"
  "os_only s s' \<Longrightarrow> msgcookies s' = msgcookies s" "os_only s s' \<Longrightarrow> snac_hash s' = snac_hash s"
  "os_only s s' \<Longrightarrow> modlist s' = modlist s"
  by (cases s; cases s'; simp add: os_only_def)+

lemma os_only_refl [simp]: "os_only s s"
  by (simp add: os_only_def)

lemma os_only_trans: "os_only s t \<Longrightarrow> os_only t u \<Longrightarrow> os_only s u"
  by (simp add: os_only_def)

lemma os_only_upd [simp]:
  "os_only s (s\<lparr>os_allocs := x1\<rparr>)" "os_only s (s\<lparr>os_errno := x2\<rparr>)" "os_only s (s\<lparr>os_now := x3\<rparr>)"
  "os_only s (s\<lparr>os_in := x4\<rparr>)" "os_only s (s\<lparr>os_out := x5\<rparr>)" "os_only s (s\<lparr>os_send := x6\<rparr>)"
  "os_only s (s\<lparr>os_send := x6, os_out := x5\<rparr>)" "os_only s (s\<lparr>os_send := x6, os_errno := x2\<rparr>)"
  "os_only s (s\<lparr>os_in := x4, os_errno := x2\<rparr>)"
  by (cases s; simp add: os_only_def)+

lemma malloc_os_only: "malloc s = (b, s') \<Longrightarrow> os_only s s'"
  by (auto simp: malloc_eq)

lemma sendbuf_os_only: "os_sendbuf fd buf s = (r, s') \<Longrightarrow> os_only s s'"
  by (auto simp: os_sendbuf_def Let_def split: list.splits send_event.splits)

lemma send_os_only: "aim_send_loop fd buf cur s = (r, s') \<Longrightarrow> os_only s s'"
proof (induction fd buf cur s rule: aim_send_loop.induct)
  case (1 fd buf cur s)
  show ?case
  proof (cases "buf = []")
    case True
    with 1(2) show ?thesis by (simp add: aim_send_loop.simps)
  next
    case False
    obtain ret t where t: "os_sendbuf fd buf s = (ret, t)" by fastforce
    show ?thesis
    proof (cases "ret = -1 \<or> ret \<le> 0")
      case True
      with 1(2) False t show ?thesis
        by (auto simp: aim_send_loop.simps [of fd buf] dest: sendbuf_os_only split: if_splits)
    next
      case neg: False
      with 1(2) False t have "aim_send_loop fd (drop (nat ret) buf) (cur + ret) t = (r, s')"
        by (simp add: aim_send_loop.simps [of fd buf])
      from 1(1) [OF False t [symmetric] refl _ _ this] neg sendbuf_os_only [OF t] show ?thesis
        by (auto intro: os_only_trans)
    qed
  qed
qed

lemma bstream_send_os_only:
  "aim_bstream_send bs conn n s = Some (r, bs', s') \<Longrightarrow> os_only s s'"
  by (auto simp: aim_bstream_send_def aim_send_def Let_def dest!: send_os_only
      split: option.splits bind_splits if_splits)

text \<open>
  Sending a frame changes, besides the environment, at most the activity time of its
  connection; the frame keeps its connection.
\<close>

definition touched :: "aim_session \<Rightarrow> nat option \<Rightarrow> aim_session \<Rightarrow> bool" where
  "touched s p s' \<longleftrightarrow> os_only s s' \<or>
     (\<exists>a t c x. p = Some a \<and> os_only s t \<and> conns s a = Some c \<and>
        s' = put_conn a (c\<lparr>conn_lastactivity := x\<rparr>) t)"

lemma touched_fields:
  assumes "touched s p s'"
  shows "connlist s' = connlist s" "queue_incoming s' = queue_incoming s"
    "queue_outgoing s' = queue_outgoing s" "next_addr s' = next_addr s" "same_conns s s'"
    "objs s' = objs s" "msgcookies s' = msgcookies s"
  using assms by (auto simp: touched_def frame_simps same_conns_def)

lemma touchedI:
  "os_only s t \<Longrightarrow> p = Some a \<Longrightarrow> conns t a = Some c \<Longrightarrow>
   touched s p (put_conn a (c\<lparr>conn_lastactivity := x\<rparr>) t)"
  unfolding touched_def by (metis os_only_fields(1))

lemma os_only_allocs: "os_only (s\<lparr>os_allocs := x\<rparr>) t = os_only s t"
  by (cases s) (simp add: os_only_def)

lemma sendframe_flap_touched:
  assumes "sendframe_flap s fr = Some (r, fr', s')"
  shows "touched s (fr_conn fr) s' \<and> fr_conn fr' = fr_conn fr"
  using assms
  by (auto simp: sendframe_flap_def malloc_eq Let_def os_only_allocs
      split: frame_hdr.splits bind_splits if_splits dest!: bstream_send_os_only)
    (simp_all add: touchedI, simp_all add: touched_def)

lemma sendframe_oft_touched:
  assumes "sendframe_oft s fr = Some (r, fr', s')"
  shows "touched s (fr_conn fr) s' \<and> fr_conn fr' = fr_conn fr"
  using assms
  by (auto simp: sendframe_oft_def malloc_eq Let_def os_only_allocs
      split: frame_hdr.splits bind_splits if_splits dest!: bstream_send_os_only)
    (simp_all add: touchedI touchedI [OF os_only_trans], simp_all add: touched_def)


lemma sendframe_touched:
  "aim_tx_sendframe s fr = Some (r, fr', s') \<Longrightarrow> touched s (fr_conn fr) s' \<and> fr_conn fr' = fr_conn fr"
  by (auto simp: aim_tx_sendframe_def split: if_splits
      dest: sendframe_flap_touched sendframe_oft_touched) (simp add: touched_def)

text \<open>What releasing a cookie changes: the cookies and the data released with them.\<close>

definition data_only :: "aim_session \<Rightarrow> aim_session \<Rightarrow> bool" where
  "data_only s s' \<longleftrightarrow> s'\<lparr>objs := objs s, msgcookies := msgcookies s\<rparr> = s"

lemma data_only_refl [simp]: "data_only s s"
  by (simp add: data_only_def)

lemma data_only_trans:
  assumes "data_only s t" "data_only t u"
  shows "data_only s u"
proof -
  have "u\<lparr>objs := objs s, msgcookies := msgcookies s\<rparr> =
      (u\<lparr>objs := objs t, msgcookies := msgcookies t\<rparr>)\<lparr>objs := objs s, msgcookies := msgcookies s\<rparr>"
    by simp
  also have "\<dots> = s" using assms by (simp add: data_only_def)
  finally show ?thesis by (simp add: data_only_def)
qed

lemma data_only_upd [simp]:
  "data_only s (s\<lparr>msgcookies := x\<rparr>)" "data_only s (s\<lparr>objs := y\<rparr>)"
  by (simp_all add: data_only_def)

lemma data_only_fields [frame_simps]:
  assumes "data_only s s'"
  shows "conns s' = conns s" "connlist s' = connlist s" "queue_incoming s' = queue_incoming s"
    "queue_outgoing s' = queue_outgoing s" "next_addr s' = next_addr s"
proof -
  have *: "s'\<lparr>objs := objs s, msgcookies := msgcookies s\<rparr> = s"
    using assms by (simp add: data_only_def)
  show "conns s' = conns s" using arg_cong [OF *, of conns] by simp
  show "connlist s' = connlist s" using arg_cong [OF *, of connlist] by simp
  show "queue_incoming s' = queue_incoming s" using arg_cong [OF *, of queue_incoming] by simp
  show "queue_outgoing s' = queue_outgoing s" using arg_cong [OF *, of queue_outgoing] by simp
  show "next_addr s' = next_addr s" using arg_cong [OF *, of next_addr] by simp
qed

lemma free_obj_data: "free_obj p s = Some s' \<Longrightarrow> data_only s s'"
  by (auto simp: free_obj_def split: option.splits if_splits)

lemma cookie_free_data: "aim_cookie_free s ck = Some (r, s') \<Longrightarrow> data_only s s'"
  by (auto simp: aim_cookie_free_def split: option.splits bind_splits
      dest!: free_obj_data intro: data_only_trans [OF data_only_upd(1)])

lemma drop_cookie_data: "drop_cookie c ty s = Some s' \<Longrightarrow> data_only s s'"
  by (auto simp: drop_cookie_def aim_uncachecookie_def Let_def split: prod.splits bind_splits
      dest!: cookie_free_data intro: data_only_trans [OF data_only_upd(1)])

lemma close_rend_data: "aim_conn_close_rend s p = Some s' \<Longrightarrow> data_only s s'"
  by (auto simp: aim_conn_close_rend_def connclose_sendfile_def connclose_getfile_def
      connclose_directim_def split: if_splits bind_splits obj.splits dest: drop_cookie_data)

lemma kill_rend_data: "aim_conn_kill_rend s p = Some s' \<Longrightarrow> data_only s s'"
  by (auto simp: aim_conn_kill_rend_def split: if_splits bind_splits dest: free_obj_data)

lemma kill_chat_data: "aim_conn_kill_chat s p = Some s' \<Longrightarrow> data_only s s'"
  by (auto simp: aim_conn_kill_chat_def split: bind_splits option.splits obj.splits dest: free_obj_data)

text \<open>Closing a connection keeps it, without a descriptor and without handlers.\<close>

definition closed :: "aim_conn \<Rightarrow> aim_conn" where
  "closed c = c\<lparr>conn_fd := -1, conn_handlerlist := []\<rparr>"

lemma conn_close_data:
  assumes "aim_conn_close (Some a) s = Some s'"
  obtains c where "conns s a = Some c" "data_only (put_conn a (closed c) s) s'"
proof -
  from assms obtain c where c: "conns s a = Some c" by (auto simp: aim_conn_close_def split: bind_splits)
  have "put_conn a (closed c) s = (if conn_handlerlist c \<noteq> []
      then put_conn a ((c\<lparr>conn_fd := -1\<rparr>)\<lparr>conn_handlerlist := []\<rparr>) (put_conn a (c\<lparr>conn_fd := -1\<rparr>) s)
      else put_conn a (c\<lparr>conn_fd := -1\<rparr>) s)"
    by (cases c) (simp add: closed_def put_conn_def)
  then have "data_only (put_conn a (closed c) s) s'"
    using assms c
    by (auto simp: aim_conn_close_def aim_clearhandlers_def Let_def split: if_splits
        dest: close_rend_data)
  with c that show ?thesis by blast
qed


text \<open>Killing a connection, whatever its type, releases it and marks its frames as handled.\<close>

definition mark_of :: "nat option \<Rightarrow> aim_frame \<Rightarrow> aim_frame" where
  "mark_of p fr = (if fr_conn fr = p then fr\<lparr>fr_handled := 1\<rparr> else fr)"

definition mark_new_of :: "nat option \<Rightarrow> aim_frame \<Rightarrow> aim_frame" where
  "mark_new_of p fr = (if fr_handled fr = 0 \<and> fr_conn fr = p then fr\<lparr>fr_handled := 1\<rparr> else fr)"

lemma clean_sel:
  "queue_incoming (aim_tx_cleanqueue (aim_rxqueue_cleanbyconn s p) p) = map (mark_new_of p) (queue_incoming s)"
  "queue_outgoing (aim_tx_cleanqueue (aim_rxqueue_cleanbyconn s p) p) = map (mark_of p) (queue_outgoing s)"
  "conns (aim_tx_cleanqueue (aim_rxqueue_cleanbyconn s p) p) = conns s"
  "connlist (aim_tx_cleanqueue (aim_rxqueue_cleanbyconn s p) p) = connlist s"
  "next_addr (aim_tx_cleanqueue (aim_rxqueue_cleanbyconn s p) p) = next_addr s"
  "objs (aim_tx_cleanqueue (aim_rxqueue_cleanbyconn s p) p) = objs s"
  by (simp_all add: aim_tx_cleanqueue_def aim_rxqueue_cleanbyconn_def mark_of_def mark_new_of_def
      cong: map_cong)

lemma connkill_fields:
  assumes "connkill_real s a = Some s'"
  shows "conns s a \<noteq> None" "conns s' = (conns s)(a := None)" "connlist s' = connlist s"
    "queue_incoming s' = map (mark_new_of (Some a)) (queue_incoming s)"
    "queue_outgoing s' = map (mark_of (Some a)) (queue_outgoing s)" "next_addr s' = next_addr s"
proof -
  let ?t = "aim_tx_cleanqueue (aim_rxqueue_cleanbyconn s (Some a)) (Some a)"
  obtain c where c: "conns s a = Some c"
    using assms by (auto simp: connkill_real_def clean_sel Let_def split: bind_splits)
  obtain u where u: "(if conn_fd c \<noteq> -1 then aim_conn_close (Some a) ?t else Some ?t) = Some u"
    using assms c by (auto simp: connkill_real_def clean_sel Let_def split: bind_splits)
  have uc: "\<exists>d. conns u = (conns s)(a := Some d)" "connlist u = connlist s"
    "queue_incoming u = map (mark_new_of (Some a)) (queue_incoming s)"
    "queue_outgoing u = map (mark_of (Some a)) (queue_outgoing s)" "next_addr u = next_addr s"
  proof -
    have "\<exists>d. data_only (put_conn a d ?t) u"
    proof (cases "conn_fd c = -1")
      case True
      have "(conns s)(a := Some c) = conns s" using c by (simp add: fun_upd_idem)
      then have "put_conn a c ?t = ?t" by (simp add: put_conn_def clean_sel)
      with True u show ?thesis by (intro exI [of _ c]) simp
    next
      case False
      with u have "aim_conn_close (Some a) ?t = Some u" by simp
      from conn_close_data [OF this] show ?thesis by blast
    qed
    then obtain d where d: "data_only (put_conn a d ?t) u" by blast
    from data_only_fields [OF d]
    show "\<exists>d. conns u = (conns s)(a := Some d)" "connlist u = connlist s"
      "queue_incoming u = map (mark_new_of (Some a)) (queue_incoming s)"
      "queue_outgoing u = map (mark_of (Some a)) (queue_outgoing s)" "next_addr u = next_addr s"
      by (auto simp: clean_sel)
  qed
  then obtain d where d: "conns u = (conns s)(a := Some d)" by blast
  obtain v w where v: "free_obj (conn_priv d) u = Some v"
    and w: "(if conn_type d = AIM_CONN_TYPE_RENDEZVOUS then aim_conn_kill_rend v (Some a)
             else if conn_type d = AIM_CONN_TYPE_CHAT then aim_conn_kill_chat v (Some a)
             else Some v) = Some w"
    and s': "s' = w\<lparr>conns := (conns w)(a := None)\<rparr>"
    using assms c u d by (auto simp: connkill_real_def clean_sel Let_def split: bind_splits)
  have "data_only v w"
    using w by (auto split: if_splits dest: kill_rend_data kill_chat_data)
  then have dw: "data_only u w" using free_obj_data [OF v] data_only_trans by blast
  show "conns s a \<noteq> None" using c by simp
  show "conns s' = (conns s)(a := None)" "connlist s' = connlist s"
    "queue_incoming s' = map (mark_new_of (Some a)) (queue_incoming s)"
    "queue_outgoing s' = map (mark_of (Some a)) (queue_outgoing s)" "next_addr s' = next_addr s"
    using data_only_fields [OF dw] d uc by (simp_all add: s')
qed

section \<open>No frame outlives its connection\<close>

text \<open>Every frame that still waits, in either queue, refers to a live connection.\<close>

definition refs_ok :: "aim_session \<Rightarrow> bool" where
  "refs_ok s \<longleftrightarrow>
     (\<forall>fr \<in> set (queue_incoming s) \<union> set (queue_outgoing s).
        fr_handled fr = 0 \<longrightarrow> (\<exists>a. fr_conn fr = Some a \<and> conns s a \<noteq> None))"

definition session_ok :: "aim_session \<Rightarrow> bool" where
  "session_ok s \<longleftrightarrow> conns_ok s \<and> refs_ok s"

lemma session_okI: "conns_ok s \<Longrightarrow> refs_ok s \<Longrightarrow> session_ok s"
  by (simp add: session_ok_def)

lemma session_okD: "session_ok s \<Longrightarrow> conns_ok s" "session_ok s \<Longrightarrow> refs_ok s"
  by (simp_all add: session_ok_def)

lemma refs_ok_cong:
  assumes "refs_ok s" "dom (conns s) \<subseteq> dom (conns s')" "queue_incoming s' = queue_incoming s"
    "queue_outgoing s' = queue_outgoing s"
  shows "refs_ok s'"
  using assms unfolding refs_ok_def by (auto simp: dom_def subset_iff)

lemma session_ok_conns:
  assumes "session_ok s" "conns s' = conns s" "connlist s' = connlist s"
    "queue_incoming s' = queue_incoming s" "queue_outgoing s' = queue_outgoing s"
    "next_addr s' = next_addr s"
  shows "session_ok s'"
  using assms unfolding session_ok_def conns_ok_def refs_ok_def by simp

lemma session_ok_os: "session_ok s \<Longrightarrow> os_only s s' \<Longrightarrow> session_ok s'"
  by (erule session_ok_conns) (simp_all add: frame_simps)

lemma session_ok_data: "session_ok s \<Longrightarrow> data_only s s' \<Longrightarrow> session_ok s'"
  by (erule session_ok_conns) (simp_all add: frame_simps)

lemma session_ok_put:
  "session_ok s \<Longrightarrow> conns s a = Some c \<Longrightarrow> conn_inside d = conn_inside c \<Longrightarrow> conn_sessv d = conn_sessv c \<Longrightarrow>
   session_ok (put_conn a d s)"
  using conns_okD(1) [OF session_okD(1) conns_okD(2) [OF session_okD(1)], of s a c]
  by (auto simp: session_ok_def intro!: conns_ok_put intro: refs_ok_cong)

lemma session_ok_kill:
  assumes "session_ok s" "aim_conn_kill s p = Some s'"
  shows "session_ok s'"
proof (cases "\<exists>a. p = Some a \<and> a \<in> set (connlist s)")
  case False
  with assms show ?thesis by (auto simp: aim_conn_kill_def split: option.splits)
next
  case True
  then obtain a where a: "p = Some a" "a \<in> set (connlist s)" by blast
  with assms(2) have k: "connkill_real (s\<lparr>connlist := remove1 a (connlist s)\<rparr>) a = Some s'"
    by (simp add: aim_conn_kill_def)
  note f = connkill_fields [OF k, simplified]
  have "conns_ok s'"
    using assms(1) unfolding session_ok_def conns_ok_def f by (auto simp: set_remove1_eq)
  moreover have "refs_ok s'"
    using assms(1) unfolding session_ok_def refs_ok_def f
    by (auto simp: mark_of_def mark_new_of_def split: if_splits) fastforce+
  ultimately show ?thesis by (rule session_okI)
qed

subsection \<open>The operations keep it\<close>

lemma refs_okD:
  "refs_ok s \<Longrightarrow> fr \<in> set (queue_incoming s) \<or> fr \<in> set (queue_outgoing s) \<Longrightarrow> fr_handled fr = 0 \<Longrightarrow>
   \<exists>a. fr_conn fr = Some a \<and> conns s a \<noteq> None"
  by (auto simp: refs_ok_def)

lemma session_ok_newaddr:
  "session_ok s \<Longrightarrow> conn_inside c \<noteq> None \<Longrightarrow> conn_sessv c \<Longrightarrow>
   session_ok (put_conn (next_addr s) c
     (s\<lparr>next_addr := Suc (next_addr s), connlist := next_addr s # connlist s\<rparr>))"
  by (auto simp: session_ok_def conns_ok_def less_Suc_eq intro: refs_ok_cong [of s])

text \<open>What allocating a connection does, when it succeeds.\<close>

lemma getnext_cases:
  assumes "aim_conn_getnext s = (p, s')"
  obtains "p = None" "os_only s s'"
  | t where "os_only s t" "p = Some (next_addr s)"
      "s' = put_conn (next_addr s)
        (aim_conn_init (zero_conn\<lparr>conn_inside := Some \<lparr>in_groups = [], in_rates = []\<rparr>\<rparr>))
        (t\<lparr>next_addr := Suc (next_addr s), connlist := next_addr s # connlist s\<rparr>)"
proof -
  let ?t = "s\<lparr>os_allocs := tl (os_allocs s)\<rparr>" and ?u = "s\<lparr>os_allocs := tl (tl (os_allocs s))\<rparr>"
  consider "\<not> alloc_ok s" | "alloc_ok s" "\<not> alloc_ok ?t" | "alloc_ok s" "alloc_ok ?t" by blast
  then show ?thesis
  proof cases
    case 3
    then have "p = Some (next_addr s)" "s' = put_conn (next_addr s)
        (aim_conn_init (zero_conn\<lparr>conn_inside := Some \<lparr>in_groups = [], in_rates = []\<rparr>\<rparr>))
        (?u\<lparr>next_addr := Suc (next_addr s), connlist := next_addr s # connlist s\<rparr>)"
      using assms by (auto simp: aim_conn_getnext_def malloc_eq new_addr_def Let_def put_conn_def)
    then show ?thesis using that(2) [of ?u] by simp
  qed (use assms that(1) in \<open>auto simp: aim_conn_getnext_def malloc_eq\<close>)
qed

lemma put_put [simp]: "put_conn a c (put_conn a d s) = put_conn a c s"
  by (simp add: put_conn_def)

lemma recv1_os_only: "os_recv fd n s = (r, xs, s') \<Longrightarrow> os_only s s'"
  by (auto simp: os_recv_def split: list.splits recv_event.splits if_splits)

lemma exchange_os_only: "socks_exchange fd msg n good s = (r, s') \<Longrightarrow> os_only s s'"
  by (auto simp: socks_exchange_def Let_def split: prod.splits if_splits
      intro: os_only_trans [OF sendbuf_os_only recv1_os_only] sendbuf_os_only)

lemma dialogue_os_only:
  assumes "socks_dialogue fd host port st s = Some (r, st', s')"
  shows "os_only s s'"
proof -
  have "os_only s u" if "os_only s t" "socks_exchange fd msg n good t = (r, u)" for t u fd msg n good r
    using os_only_trans [OF that(1) exchange_os_only [OF that(2)]] .
  note next_one = this and first_one = this [OF os_only_refl]
  from assms show ?thesis
    unfolding socks_dialogue_def
    by (auto split: bind_splits prod.splits sum.splits if_splits
        intro: first_one next_one dest: first_one next_one)
qed

lemma proxyconnect_os_only:
  "aim_proxyconnect ne s host port st = Some (r, st', s') \<Longrightarrow> os_only s s'"
  by (auto simp: aim_proxyconnect_def Let_def split: bind_splits prod.splits option.splits if_splits
      dest: dialogue_os_only malloc_os_only intro: os_only_trans)

lemma session_ok_newconn:
  assumes "session_ok s" "aim_newconn ne s ty dest = Some (p, s')"
  shows "session_ok s'"
proof (cases "aim_conn_getnext s")
  case (Pair q t)
  then show ?thesis
  proof (cases rule: getnext_cases)
    case 1
    with assms(1,2) Pair show ?thesis by (auto simp: aim_newconn_def intro: session_ok_os)
  next
    case (2 u)
    let ?a = "next_addr s"
    let ?v = "u\<lparr>next_addr := Suc ?a, connlist := ?a # connlist s\<rparr>"
    have new: "session_ok (put_conn ?a c w)" if "conn_inside c \<noteq> None" "conn_sessv c" "os_only ?v w" for c w
    proof -
      have "session_ok (put_conn ?a c ?v)"
        using session_ok_newaddr [OF session_ok_os [OF assms(1) 2(1)], of c] that 2(1)
        by (simp add: frame_simps)
      then show ?thesis
        by (rule session_ok_conns) (simp_all add: frame_simps(1-5) [OF that(3)])
    qed
    define c where "c = (aim_conn_init (zero_conn\<lparr>conn_inside := Some \<lparr>in_groups = [], in_rates = []\<rparr>\<rparr>))
       \<lparr>conn_sessv := True, conn_type := word_of_int ty\<rparr>"
    have c: "conn_inside c \<noteq> None" "conn_sessv c" by (simp_all add: c_def aim_conn_init_def)
    show ?thesis
    proof (cases dest)
      case None
      with assms(2) Pair 2 have "s' = put_conn ?a (c\<lparr>conn_fd := -1, conn_status := 0\<rparr>) ?v"
        by (auto simp: aim_newconn_def c_def)
      then show ?thesis using c by (auto intro: new)
    next
      case (Some d)
      let ?t = "put_conn ?a c (t\<lparr>os_allocs := tl (os_allocs t)\<rparr>)"
      obtain ret status w where px: "aim_proxyconnect ne ?t (takeWhile (\<lambda>b. b \<noteq> 58) d)
          (if 58 \<in> set d then word_of_int (c_atoi (drop (length (takeWhile (\<lambda>b. b \<noteq> 58) d) + 1) d))
           else FAIM_LOGIN_PORT) (conn_status c) = Some (ret, status, w)"
        using assms(2) Pair 2 Some
        by (auto simp: aim_newconn_def c_def [symmetric] malloc_eq Let_def split: if_splits bind_splits)
      have w: "os_only ?t w" using proxyconnect_os_only [OF px] .
      have "\<exists>d. s' = put_conn ?a d w \<and> conn_inside d \<noteq> None \<and> conn_sessv d"
        using assms(2) Pair 2 Some px c
        by (auto simp: aim_newconn_def c_def [symmetric] malloc_eq Let_def split: if_splits)
      then obtain d where d: "s' = put_conn ?a d w" "conn_inside d \<noteq> None" "conn_sessv d" by blast
      have "session_ok (put_conn ?a d ?v)" by (rule new) (use d in auto)
      then show ?thesis
        by (rule session_ok_conns) (use 2 in \<open>simp_all add: d(1) frame_simps(1-5) [OF w]\<close>)
    qed
  qed
qed


lemma session_ok_addhandler:
  assumes "session_ok s" "aim_conn_addhandler s conn f t h fl = Some (r, s')"
  shows "session_ok s'"
  using assms(2)
proof (cases rule: addhandler_cases)
  case (3 a c)
  with session_ok_put [OF session_ok_os [OF assms(1)], of "s\<lparr>os_allocs := tl (os_allocs s)\<rparr>" a c]
  show ?thesis by simp
qed (use assms(1) session_ok_os in auto)

lemma session_ok_clone_loop:
  "session_ok s \<Longrightarrow> clonehandlers_loop hs dest s = Some s' \<Longrightarrow> session_ok s'"
  by (induction hs arbitrary: s) (auto split: bind_splits dest: session_ok_addhandler)

lemma session_ok_cloneconn:
  assumes "session_ok s" "aim_cloneconn s src = Some (r, s')" "src \<in> Some ` set (connlist s)"
  shows "session_ok s'"
proof (cases "aim_conn_getnext s")
  case (Pair q t)
  then show ?thesis
  proof (cases rule: getnext_cases)
    case 1
    with assms(1,2) Pair show ?thesis by (auto simp: aim_cloneconn_def intro: session_ok_os)
  next
    case (2 u)
    let ?a = "next_addr s"
    from assms(3) obtain b where b: "src = Some b" "b \<in> set (connlist s)" by blast
    obtain p where p: "conns s b = Some p" "conn_sessv p"
      using conns_okD(1) [OF session_okD(1) [OF assms(1)] b(2)] by blast
    have "b < ?a" using conns_okD(3) [OF session_okD(1) [OF assms(1)] p(1)] .
    then have tb: "conn_at t src = Some p" using 2 b p by (simp add: frame_simps)
    have new: "session_ok (put_conn ?a c (u\<lparr>next_addr := Suc ?a, connlist := ?a # connlist s\<rparr>))"
      if "conn_inside c \<noteq> None" "conn_sessv c" for c
      using session_ok_newaddr [OF session_ok_os [OF assms(1) 2(1)], of c] that 2(1)
      by (simp add: frame_simps)
    define i where "i = aim_conn_init (zero_conn\<lparr>conn_inside := Some \<lparr>in_groups = [], in_rates = []\<rparr>\<rparr>)"
    define c where "c = i\<lparr>conn_fd := conn_fd p, conn_type := conn_type p, conn_subtype := conn_subtype p,
        conn_seqnum := conn_seqnum p, conn_priv := conn_priv p, conn_internal := conn_internal p,
        conn_lastactivity := conn_lastactivity p, conn_forcedlatency := conn_forcedlatency p,
        conn_sessv := conn_sessv p\<rparr>"
    have ta: "conns t ?a = Some i" using 2(3) by (simp add: i_def)
    have "clonehandlers_loop (conn_handlerlist (the (conn_at (put_conn ?a c t) src))) (Some ?a)
        (put_conn ?a c t) = Some s'"
      using assms(2) Pair 2(2) ta tb
      by (auto simp: aim_cloneconn_def aim_clonehandlers_def Let_def c_def [symmetric] split: bind_splits)
    moreover have "session_ok (put_conn ?a c t)"
      using new [of c] p 2(3) by (simp add: c_def i_def aim_conn_init_def)
    ultimately show ?thesis using session_ok_clone_loop by blast
  qed
qed

lemma session_ok_touched:
  assumes "session_ok s" "touched s p s'"
  shows "session_ok s'"
  using assms(2) unfolding touched_def
proof (elim disjE exE conjE)
  assume "os_only s s'"
  with assms(1) show ?thesis by (rule session_ok_os)
next
  fix a t c x
  assume h: "os_only s t" "conns s a = Some c" "s' = put_conn a (c\<lparr>conn_lastactivity := x\<rparr>) t"
  have "session_ok t" using session_ok_os [OF assms(1) h(1)] .
  then show ?thesis unfolding h(3)
    by (rule session_ok_put) (use h in \<open>simp_all add: frame_simps\<close>)
qed

lemma next_txseqnum_ok:
  assumes "session_ok s" "aim_get_next_txseqnum p s = Some (n, s')"
  shows "session_ok s' \<and> (\<exists>a. p = Some a \<and> conns s' a \<noteq> None) \<and> queue_outgoing s' = queue_outgoing s"
  using assms by (auto simp: aim_get_next_txseqnum_def Let_def split: bind_splits intro: session_ok_put)

lemma session_ok_enqueue_tail:
  "session_ok s \<Longrightarrow> \<exists>a. fr_conn fr = Some a \<and> conns s a \<noteq> None \<Longrightarrow>
   session_ok (s\<lparr>queue_outgoing := queue_outgoing s @ [fr]\<rparr>)"
  by (auto simp: session_ok_def refs_ok_def)

lemma session_ok_queuebased:
  assumes "session_ok s" "aim_tx_enqueue__queuebased s fr = Some (r, s')"
    "fr_hdrtype fr = AIM_FRAMETYPE_FLAP \<or> (\<exists>a. fr_conn fr = Some a \<and> conns s a \<noteq> None)"
  shows "session_ok s'"
proof -
  obtain f g t where f: "stamp_frame s f = Some (g, t)" "s' = t\<lparr>queue_outgoing := queue_outgoing t @ [g\<lparr>fr_handled := 0\<rparr>]\<rparr>"
    "fr_hdr f = fr_hdr fr" "fr_conn fr \<noteq> None \<Longrightarrow> f = fr"
    using assms(2) by (auto simp: aim_tx_enqueue__queuebased_def Let_def split: bind_splits option.splits)
  have "session_ok t \<and> (\<exists>a. fr_conn g = Some a \<and> conns t a \<noteq> None)"
  proof (cases "fr_hdr f")
    case (Flap ty sq)
    with f(1) obtain n where "aim_get_next_txseqnum (fr_conn f) s = Some (n, t)" "fr_conn g = fr_conn f"
      by (auto simp: stamp_frame_def split: bind_splits)
    with next_txseqnum_ok [OF assms(1)] show ?thesis by auto
  next
    case (Oft ty m l h)
    with f assms(3) have "\<exists>a. fr_conn fr = Some a \<and> conns s a \<noteq> None"
      by (auto simp: fr_hdrtype_def AIM_FRAMETYPE_FLAP_def AIM_FRAMETYPE_OFT_def split: frame_hdr.splits)
    with Oft f assms(1) show ?thesis by (auto simp: stamp_frame_def)
  qed
  then show ?thesis unfolding f(2) by (intro session_ok_enqueue_tail) auto
qed

lemma session_ok_immediate:
  assumes "session_ok s" "aim_tx_enqueue__immediate s fr = Some (r, s')"
  shows "session_ok s'"
proof (cases "fr_conn fr")
  case None
  with assms show ?thesis by (simp add: aim_tx_enqueue__immediate_def)
next
  case (Some a)
  then obtain g t h q u where g: "stamp_frame s fr = Some (g, t)"
    "aim_tx_sendframe t (g\<lparr>fr_handled := 0\<rparr>) = Some (q, h, u)" "s' = u"
    using assms(2) by (auto simp: aim_tx_enqueue__immediate_def Let_def split: bind_splits)
  have "session_ok t"
    using g(1) assms(1) next_txseqnum_ok
    by (auto simp: stamp_frame_def split: frame_hdr.splits bind_splits)
  with session_ok_touched sendframe_touched [OF g(2)] g(3) show ?thesis by blast
qed

lemma session_ok_txenqueue:
  assumes "session_ok s" "aim_tx_enqueue cl s fr = Some (r, s')"
    "fr_hdrtype fr = AIM_FRAMETYPE_FLAP \<or> (\<exists>a. fr_conn fr = Some a \<and> conns s a \<noteq> None)"
    "\<And>n f t q t'. session_ok t \<Longrightarrow> cl_tx cl n f t = Some (q, t') \<Longrightarrow> session_ok t'"
  shows "session_ok s'"
  using assms(2) session_ok_queuebased [OF assms(1) _ assms(3)] session_ok_immediate [OF assms(1)]
    assms(4) [OF assms(1)]
  by (auto simp: aim_tx_enqueue_def split: bind_splits if_splits tx_mode.splits)

lemma touched_dom: "touched s p s' \<Longrightarrow> dom (conns s) \<subseteq> dom (conns s')"
  by (auto simp: touched_def frame_simps)

lemma flush_loop_touched:
  "flush_loop frs s = Some (frs', s') \<Longrightarrow> session_ok s \<Longrightarrow>
   session_ok s' \<and> dom (conns s) \<subseteq> dom (conns s') \<and> queue_incoming s' = queue_incoming s \<and>
   (\<forall>fr \<in> set frs'. fr_handled fr = 0 \<longrightarrow> (\<exists>f \<in> set frs. fr_handled f = 0 \<and> fr_conn f = fr_conn fr))"
proof (induction frs arbitrary: s frs' s')
  case (Cons cur rest)
  show ?case
  proof (cases "fr_handled cur \<noteq> 0 \<or> (\<exists>a c. fr_conn cur = Some a \<and> conns s a = Some c \<and> conn_inprogress c)")
    case True
    with Cons.prems(1) obtain r where r: "flush_loop rest s = Some (r, s')" "frs' = cur # r"
      by (auto split: bind_splits if_splits)
    from Cons.IH [OF r(1) Cons.prems(2)] show ?thesis by (auto simp: r(2))
  next
    case False
    then obtain a c where ac: "fr_conn cur = Some a" "conns s a = Some c" "fr_handled cur = 0"
      using Cons.prems(1) by (auto split: bind_splits)
    define t where "t = (if conn_lastactivity c + conn_forcedlatency c \<ge> os_now s
      then s\<lparr>os_now := conn_lastactivity c + conn_forcedlatency c\<rparr> else s)"
    have t: "os_only s t" by (simp add: t_def)
    obtain q g u r where u: "aim_tx_sendframe t cur = Some (q, g, u)" "flush_loop rest u = Some (r, s')"
      "frs' = g # r"
      using Cons.prems(1) False ac by (auto simp: Let_def t_def split: bind_splits)
    have tu: "touched t (fr_conn cur) u" "fr_conn g = fr_conn cur"
      using sendframe_touched [OF u(1)] by auto
    have "session_ok u" using session_ok_touched [OF session_ok_os [OF Cons.prems(2) t] tu(1)] .
    note IH = Cons.IH [OF u(2) this]
    have "dom (conns s) \<subseteq> dom (conns s')"
      using IH touched_dom [OF tu(1)] frame_simps(1) [OF t] by auto
    moreover have "queue_incoming s' = queue_incoming s"
      using IH touched_fields(2) [OF tu(1)] frame_simps(3) [OF t] by simp
    moreover have "\<exists>f \<in> set (cur # rest). fr_handled f = 0 \<and> fr_conn f = fr_conn fr"
      if h: "fr \<in> set frs'" "fr_handled fr = 0" for fr
    proof (cases "fr = g")
      case True
      with ac tu(2) show ?thesis by auto
    next
      case False
      with h u(3) have "fr \<in> set r" by simp
      with IH h(2) show ?thesis by (metis list.set_intros(2))
    qed
    ultimately show ?thesis using IH by blast
  qed
qed simp

lemma session_ok_flush:
  assumes "session_ok s" "aim_tx_flushqueue s = Some (r, s')"
  shows "session_ok s'"
proof -
  from assms(2) obtain frs t where t: "flush_loop (queue_outgoing s) s = Some (frs, t)"
    "s' = aim_tx_purgequeue (t\<lparr>queue_outgoing := frs\<rparr>)"
    by (auto simp: aim_tx_flushqueue_def split: bind_splits)
  note f = flush_loop_touched [OF t(1) assms(1)]
  have "refs_ok (t\<lparr>queue_outgoing := frs\<rparr>)"
  proof -
    have "\<exists>a. fr_conn fr = Some a \<and> conns t a \<noteq> None" if h: "fr \<in> set frs" "fr_handled fr = 0" for fr
    proof -
      obtain g where "g \<in> set (queue_outgoing s)" "fr_handled g = 0" "fr_conn g = fr_conn fr"
        using f h by metis
      then obtain a where "fr_conn fr = Some a" "conns s a \<noteq> None"
        using refs_okD [OF session_okD(2) [OF assms(1)], of g] by auto
      then show ?thesis using f by blast
    qed
    then show ?thesis using f unfolding session_ok_def refs_ok_def by auto
  qed
  with f show ?thesis
    unfolding t(2) aim_tx_purgequeue_def session_ok_def by (auto simp: refs_ok_def)
qed

lemma session_ok_purge:
  "session_ok s \<Longrightarrow> session_ok (aim_purge_rxqueue s)" "session_ok s \<Longrightarrow> session_ok (aim_tx_purgequeue s)"
  by (auto simp: session_ok_def refs_ok_def aim_purge_rxqueue_def aim_tx_purgequeue_def)

lemma session_ok_close:
  assumes "session_ok s" "aim_conn_close p s = Some s'"
  shows "session_ok s'"
proof -
  from assms(2) obtain a where a: "p = Some a" by (auto simp: aim_conn_close_def split: bind_splits)
  with assms(2) obtain c where c: "conns s a = Some c" "data_only (put_conn a (closed c) s) s'"
    using conn_close_data by blast
  have "session_ok (put_conn a (closed c) s)"
    by (rule session_ok_put [OF assms(1) c(1)]) (simp_all add: closed_def)
  then show ?thesis using session_ok_data c(2) by blast
qed

lemma session_ok_addgroup:
  "session_ok s \<Longrightarrow> aim_conn_addgroup p g s = Some s' \<Longrightarrow> session_ok s'"
  by (auto simp: aim_conn_addgroup_def malloc_eq Let_def conns_ok_def session_ok_def
      split: bind_splits if_splits intro: refs_ok_cong [of s])

lemma session_ok_setlatency:
  "session_ok s \<Longrightarrow> aim_conn_setlatency p n s = Some (r, s') \<Longrightarrow> session_ok s'"
  by (auto simp: aim_conn_setlatency_def split: option.splits bind_splits intro: session_ok_put)

text \<open>Ending a session kills every connection.\<close>

lemma refs_ok_killed:
  assumes "refs_ok s" "connkill_real s a = Some s'"
  shows "refs_ok s'"
  using assms(1) unfolding refs_ok_def connkill_fields [OF assms(2)]
  by (auto simp: mark_of_def mark_new_of_def split: if_splits) fastforce+

lemma connrst_loop_fields:
  "connrst_loop as s = Some s' \<Longrightarrow>
   conns s' = (\<lambda>a. if a \<in> set as then None else conns s a) \<and> next_addr s' = next_addr s \<and>
   (refs_ok s \<longrightarrow> refs_ok s')"
proof (induction as arbitrary: s)
  case (Cons a as)
  from Cons.prems obtain t u where t: "aim_conn_close (Some a) s = Some t" "connkill_real t a = Some u"
    "connrst_loop as u = Some s'"
    by (auto split: bind_splits)
  obtain c where c: "conns s a = Some c" "data_only (put_conn a (closed c) s) t"
    using conn_close_data [OF t(1)] .
  note d = data_only_fields [OF c(2)] and k = connkill_fields [OF t(2)]
  have "refs_ok t" if "refs_ok s"
    by (rule refs_ok_cong [OF that]) (auto simp: d)
  with refs_ok_killed [OF _ t(2)] Cons.IH [OF t(3)] show ?case
    by (auto simp: k d)
qed (simp add: fun_eq_iff)

lemma session_ok_connrst:
  assumes "session_ok s" "aim_connrst s = Some s'"
  shows "session_ok s' \<and> connlist s' = [] \<and> conns s' = (\<lambda>_. None)"
proof -
  from assms(2) obtain t where t: "connrst_loop (connlist s) s = Some t" "s' = t\<lparr>connlist := []\<rparr>"
    by (auto simp: aim_connrst_def split: bind_splits)
  have "conns t = (\<lambda>_. None)" "refs_ok t"
    using connrst_loop_fields [OF t(1)] assms(1) by (auto simp: session_ok_def conns_ok_def dom_def fun_eq_iff)
  then show ?thesis unfolding t(2) by (auto simp: session_ok_def conns_ok_def refs_ok_def)
qed

end
