(* ===== verification/Rxqueue.thy ===== *)
theory Rxqueue
  imports Connlife
begin

text \<open>
  The receive side: \<^verbatim>\<open>aim_get_command\<close> of \<^verbatim>\<open>src/rxqueue.c\<close>, which takes one FLAP
  frame off a socket, and \<^verbatim>\<open>aim_conn_completeconnect\<close> of \<^verbatim>\<open>src/conn.c\<close>, which it
  calls for a connection still connecting. Peer-to-peer connections do not speak FLAP; what
  reads them (\<^verbatim>\<open>aim_get_command_rendezvous\<close> of \<^verbatim>\<open>src/ft.c\<close>) is an argument.
\<close>

text \<open>
  One poll of a connecting socket: whether \<^verbatim>\<open>select\<close> failed, found it still connecting, or
  ready with a socket error. The stream a callback gets here belongs to no frame.
\<close>

definition aim_conn_completeconnect ::
  "client \<Rightarrow> aim_session \<Rightarrow> nat option \<Rightarrow> (int \<times> aim_session) option" where
  "aim_conn_completeconnect cl s conn =
     (case conn of
        None \<Rightarrow> Some (-1, s)
      | Some a \<Rightarrow> do {
          c \<leftarrow> conns s a;
          if conn_fd c = -1 then Some (-1, s)
          else if \<not> conn_inprogress c then Some (-1, s)
          else
            let (ev, rest) = (case os_connect s (conn_fd c) of
                                [] \<Rightarrow> (StillConnecting, []) | ev # evs \<Rightarrow> (ev, evs));
                s = s\<lparr>os_connect := (os_connect s)(conn_fd c := rest)\<rparr>
            in case ev of
                 SelectError e \<Rightarrow> do { s \<leftarrow> aim_conn_close conn s; Some (-1, s\<lparr>os_errno := e\<rparr>) }
               | StillConnecting \<Rightarrow> Some (0, s)
               | SocketError e \<Rightarrow>
                   (if e \<noteq> 0 then do { s \<leftarrow> aim_conn_close conn s; Some (-1, s\<lparr>os_errno := e\<rparr>) }
                    else do {
                      let s = put_conn a
                        (c\<lparr>conn_status := conn_status c AND NOT AIM_CONN_STATUS_INPROGRESS\<rparr>) s;
                      userfunc \<leftarrow> aim_callhandler s conn AIM_CB_FAM_SPECIAL AIM_CB_SPECIAL_CONNCOMPLETE;
                      s \<leftarrow> (case userfunc of
                             Some h \<Rightarrow> do {
                               (_, _, s) \<leftarrow> call_cb cl h None [ArgConn conn] (aim_bstream_init [] 0) s;
                               Some s
                             }
                           | None \<Rightarrow> Some s);
                      (_, s) \<leftarrow> aim_tx_flushqueue s;
                      Some (0, s)
                    })
        })"

text \<open>The payload of a frame, in a buffer of its own; without memory or without all of it, nothing.\<close>

definition recv_payload ::
  "nat option \<Rightarrow> int \<Rightarrow> u16 \<Rightarrow> aim_session \<Rightarrow> ((unit + bstream) \<times> aim_session) option" where
  "recv_payload conn fd payloadlen s =
     (if payloadlen \<noteq> 0
      then let (ok, s) = malloc s
           in if \<not> ok then Some (Inl (), s)
              else do {
                let data = aim_bstream_init (fresh s (unat payloadlen)) (int (unat payloadlen));
                (m, data, s) \<leftarrow> aim_bstream_recv data fd (unat payloadlen) s;
                if m < int (unat payloadlen)
                then do { s \<leftarrow> aim_conn_close conn s; Some (Inl (), s) }
                else Some (Inr data, s)
              }
      else Some (Inr (aim_bstream_init [] 0), s))"

definition aim_get_command ::
  "client \<Rightarrow> (nat \<Rightarrow> aim_session \<Rightarrow> (int \<times> aim_session) option) \<Rightarrow> aim_session \<Rightarrow> nat option
   \<Rightarrow> (int \<times> aim_session) option" where
  "aim_get_command cl rendezvous s conn =
     (case conn of
        None \<Rightarrow> Some (0, s)
      | Some a \<Rightarrow> do {
          c \<leftarrow> conns s a;
          if conn_fd c = -1 then Some (-1, s)
          else if conn_fd c < 3 then Some (0, s)
          else if conn_inprogress c then aim_conn_completeconnect cl s conn
          else if conn_type c = AIM_CONN_TYPE_RENDEZVOUS then rendezvous a s
          else if conn_type c = AIM_CONN_TYPE_RENDEZVOUS_OUT then Some (0, s)
          else do {
            let flaphdr = aim_bstream_init (fresh s 6) 6;
            (n, flaphdr, s) \<leftarrow> aim_bstream_recv flaphdr (conn_fd c) 6 s;
            if n < 6 then do { s \<leftarrow> aim_conn_close conn s; Some (-1, s) }
            else do {
              let flaphdr = aim_bstream_rewind flaphdr;
              (start, flaphdr) \<leftarrow> aimbs_get8 flaphdr;
              if start \<noteq> 0x2a then do { s \<leftarrow> aim_conn_close conn s; Some (-1, s) }
              else let (ok, s) = malloc s
                   in if \<not> ok then Some (-1, s)
                      else do {
                        (type, flaphdr) \<leftarrow> aimbs_get8 flaphdr;
                        (seqnum, flaphdr) \<leftarrow> aimbs_get16 flaphdr;
                        (payloadlen, flaphdr) \<leftarrow> aimbs_get16 flaphdr;
                        let (i, s) = new_addr s;
                        (data, s) \<leftarrow> recv_payload conn (conn_fd c) payloadlen s;
                        case data of
                          Inl _ \<Rightarrow> Some (-1, s)
                        | Inr data \<Rightarrow> do {
                            let newrx = \<lparr>fr_id = i, fr_hdr = Flap type seqnum,
                                  fr_data = aim_bstream_rewind data, fr_handled = 0, fr_nofree = 0,
                                  fr_conn = conn\<rparr>;
                            c \<leftarrow> conns s a;
                            Some (0, put_conn a (c\<lparr>conn_lastactivity := os_now s\<rparr>)
                                       (s\<lparr>queue_incoming := queue_incoming s @ [newrx]\<rparr>))
                          }
                      }
            }
          }
        })"

section \<open>Receiving a frame\<close>

text \<open>A connection frames can be read from.\<close>

definition flap_conn :: "aim_conn \<Rightarrow> bool" where
  "flap_conn c \<longleftrightarrow> 3 \<le> conn_fd c \<and> \<not> conn_inprogress c
     \<and> conn_type c \<noteq> AIM_CONN_TYPE_RENDEZVOUS \<and> conn_type c \<noteq> AIM_CONN_TYPE_RENDEZVOUS_OUT"

text \<open>What is still to come on a descriptor: the bytes of some segments, then the rest.\<close>

definition incoming :: "'a os_scheme \<Rightarrow> int \<Rightarrow> u8 list \<Rightarrow> recv_event list \<Rightarrow> bool" where
  "incoming s fd bytes rest \<longleftrightarrow>
     (\<exists>cs. os_in s fd = map RecvChunk cs @ rest \<and> [] \<notin> set cs \<and> concat cs = bytes)"

lemma recv_incoming:
  assumes "bs_ok bs" "0 \<le> fd" "0 < n" "n \<le> room bs" "incoming s fd bytes rest" "n \<le> length bytes"
  obtains f where
    "aim_bstream_recv bs fd n s = Some (int n, emit (take n bytes) bs, s\<lparr>os_in := f\<rparr>)"
    "incoming (s\<lparr>os_in := f\<rparr>) fd (drop n bytes) rest"
proof -
  from assms(5) obtain cs where cs: "os_in s fd = map RecvChunk cs @ rest" "[] \<notin> set cs" "concat cs = bytes"
    by (auto simp: incoming_def)
  with assms obtain cs' where
    "aim_bstream_recv bs fd n s = Some (int n, emit (take n (concat cs)) bs,
       s\<lparr>os_in := (os_in s)(fd := map RecvChunk cs' @ rest)\<rparr>)"
    "[] \<notin> set cs'" "concat cs' = drop n (concat cs)"
    using bstream_recv_chunks [of bs fd n s cs rest] by metis
  with cs that show ?thesis unfolding incoming_def by fastforce
qed

lemma incoming_cong: "os_in s' = os_in s \<Longrightarrow> incoming s' fd bytes rest = incoming s fd bytes rest"
  by (simp add: incoming_def)

lemma emit_all:
  assumes "length xs = n" "n < 65536" "length d = n"
  shows "emit xs (aim_bstream_init d (int n)) = \<lparr>bs_data = xs, bs_len = n, bs_off = n\<rparr>"
  using assms by (simp add: emit_def aim_bstream_init_def)

lemma stream_of:
  assumes "length xs = n" "n < 65536"
  shows "bs_ok \<lparr>bs_data = xs, bs_len = n, bs_off = 0\<rparr>" "room \<lparr>bs_data = xs, bs_len = n, bs_off = 0\<rparr> = n"
    "unread \<lparr>bs_data = xs, bs_len = n, bs_off = 0\<rparr> = xs"
  using assms by (simp_all add: bs_ok_def room_def unread_def)

lemma get_command_frame:
  assumes "mem_ok s" "conns s a = Some c" "flap_conn c" "length payload < 65536"
    "incoming s (conn_fd c) (flap_wire ty sq payload @ later) rest"
  shows "\<exists>s'. aim_get_command cl rv s (Some a) = Some (0, s') \<and>
    queue_incoming s' = queue_incoming s @
      [\<lparr>fr_id = next_addr s, fr_hdr = Flap ty sq,
        fr_data = \<lparr>bs_data = payload, bs_len = length payload, bs_off = 0\<rparr>,
        fr_handled = 0, fr_nofree = 0, fr_conn = Some a\<rparr>] \<and>
    incoming s' (conn_fd c) later rest \<and>
    conns s' = (conns s)(a := Some (c\<lparr>conn_lastactivity := os_now s\<rparr>)) \<and>
    connlist s' = connlist s \<and> queue_outgoing s' = queue_outgoing s \<and> mem_ok s' \<and>
    next_addr s' = Suc (next_addr s) \<and> modlist s' = modlist s \<and> objs s' = objs s \<and>
    snac_hash s' = snac_hash s \<and> snacid_next s' = snacid_next s \<and> tx_enqueue s' = tx_enqueue s"
proof -
  let ?fd = "conn_fd c" and ?n = "length payload" and ?w = "flap_wire ty sq payload"
  define hdr where "hdr = [0x2a, ty] @ aimutil_put16 sq @ aimutil_put16 (of_nat ?n)"
  have w: "?w = hdr @ payload" and hl: "length hdr = 6"
    by (simp_all add: hdr_def flap_wire_def)
  have fd: "0 \<le> ?fd" "?fd \<noteq> -1" "\<not> ?fd < 3" using assms(3) by (simp_all add: flap_conn_def)
  have ok6: "bs_ok (aim_bstream_init (fresh s 6) 6)" by simp
  obtain f where f:
    "aim_bstream_recv (aim_bstream_init (fresh s 6) 6) ?fd 6 s =
       Some (int 6, emit (take 6 (?w @ later)) (aim_bstream_init (fresh s 6) 6), s\<lparr>os_in := f\<rparr>)"
    "incoming (s\<lparr>os_in := f\<rparr>) ?fd (drop 6 (?w @ later)) rest"
    using recv_incoming [OF ok6 fd(1) _ _ assms(5), of 6] w hl by auto
  let ?s1 = "s\<lparr>os_in := f\<rparr>"
  have t6: "take 6 (?w @ later) = hdr" "drop 6 (?w @ later) = payload @ later"
    using hl w by simp_all
  note f1 = f(1) [unfolded t6] and f2 = f(2) [unfolded t6]
  let ?h = "\<lparr>bs_data = hdr, bs_len = 6, bs_off = 0\<rparr>"
  have rw: "aim_bstream_rewind (emit hdr (aim_bstream_init (fresh s 6) 6)) = ?h"
    using emit_all [of hdr 6 "fresh s 6"] hl by (simp add: rewind_eq)
  note h = stream_of [OF hl]
  have gets: "aimbs_get8 ?h = Some (0x2a, adv 1 ?h)" "aimbs_get8 (adv 1 ?h) = Some (ty, adv 2 ?h)"
    "aimbs_get16 (adv 2 ?h) = Some (sq, adv 4 ?h)" "aimbs_get16 (adv 4 ?h) = Some (of_nat ?n, adv 6 ?h)"
    using h by (simp_all add: stream_simps hdr_def aimutil_put16_def wire_simps)
  have mem1: "mem_ok ?s1" using assms(1) by (simp add: mem_ok_def)
  have un: "unat (of_nat ?n :: u16) = ?n" using assms(4) by simp
  have e0: "aim_bstream_rewind (aim_bstream_init [] 0) = \<lparr>bs_data = [], bs_len = 0, bs_off = 0\<rparr>"
    by (simp add: rewind_eq aim_bstream_init_def)
  have ep: "aim_bstream_rewind \<lparr>bs_data = payload, bs_len = ?n, bs_off = ?n\<rparr> =
      \<lparr>bs_data = payload, bs_len = ?n, bs_off = 0\<rparr>"
    by (simp add: rewind_eq)
  show ?thesis
  proof (cases "?n = 0")
    case True
    then have "aim_get_command cl rv s (Some a) = Some (0, put_conn a (c\<lparr>conn_lastactivity := os_now s\<rparr>)
      (?s1\<lparr>next_addr := Suc (next_addr s), queue_incoming := queue_incoming s @
      [\<lparr>fr_id = next_addr s, fr_hdr = Flap ty sq, fr_data = \<lparr>bs_data = [], bs_len = 0, bs_off = 0\<rparr>,
        fr_handled = 0, fr_nofree = 0, fr_conn = Some a\<rparr>]\<rparr>))"
      using assms(2,3) f1 fd gets mem1
      by (simp add: aim_get_command_def recv_payload_def flap_conn_def Let_def rw new_addr_def e0)
    then show ?thesis using f2 True assms(1) by (auto simp: incoming_def put_conn_def mem_ok_def)
  next
    case False
    then have nz: "(of_nat ?n :: u16) \<noteq> 0" using un by (metis unat_0)
    let ?s2 = "?s1\<lparr>next_addr := Suc (next_addr s)\<rparr>"
    have okp: "bs_ok (aim_bstream_init (fresh ?s2 ?n) (int ?n))" using assms(4) by simp
    have inc: "incoming ?s2 ?fd (payload @ later) rest" using f2 by (simp add: incoming_def)
    obtain g where g:
      "aim_bstream_recv (aim_bstream_init (fresh ?s2 ?n) (int ?n)) ?fd ?n ?s2 =
         Some (int ?n, emit (take ?n (payload @ later)) (aim_bstream_init (fresh ?s2 ?n) (int ?n)), ?s2\<lparr>os_in := g\<rparr>)"
      "incoming (?s2\<lparr>os_in := g\<rparr>) ?fd (drop ?n (payload @ later)) rest"
      using recv_incoming [OF okp fd(1) _ _ inc, of ?n] False assms(4) by auto
    have e: "emit (take ?n (payload @ later)) (aim_bstream_init (fresh ?s2 ?n) (int ?n)) =
        \<lparr>bs_data = payload, bs_len = ?n, bs_off = ?n\<rparr>"
      using emit_all [of payload ?n "fresh ?s2 ?n"] assms(4) by simp
    note g1 = g(1) [unfolded e]
    have "aim_get_command cl rv s (Some a) = Some (0, put_conn a (c\<lparr>conn_lastactivity := os_now s\<rparr>)
      (?s2\<lparr>os_in := g, queue_incoming := queue_incoming s @
      [\<lparr>fr_id = next_addr s, fr_hdr = Flap ty sq,
        fr_data = \<lparr>bs_data = payload, bs_len = length payload, bs_off = 0\<rparr>,
        fr_handled = 0, fr_nofree = 0, fr_conn = Some a\<rparr>]\<rparr>))"
      using assms(2,3) f1 fd gets mem1 nz un g1
      by (simp add: aim_get_command_def recv_payload_def flap_conn_def Let_def rw new_addr_def ep del: of_nat_eq_0_iff)
    then show ?thesis using g(2) assms(1) by (auto simp: incoming_def put_conn_def mem_ok_def)
  qed
qed

section \<open>Properties of connections and of the receive side\<close>

text \<open>C5: one call takes exactly one FLAP frame off the socket, in whatever segments it arrives
  and whatever follows it, and appends it to the incoming queue with its channel, sequence
  number and payload, ready to be read from the start.\<close>

theorem get_command_one_frame:
  assumes "mem_ok s" "conns s a = Some c" "flap_conn c" "length payload < 65536"
    "os_in s (conn_fd c) = map RecvChunk cs @ rest" "[] \<notin> set cs"
    "concat cs = [0x2a, ty] @ aimutil_put16 sq @ aimutil_put16 (of_nat (length payload)) @ payload @ later"
  shows "\<exists>s' fr cs'. aim_get_command cl rv s (Some a) = Some (0, s') \<and>
    queue_incoming s' = queue_incoming s @ [fr] \<and> fr_hdr fr = Flap ty sq \<and> fr_conn fr = Some a \<and>
    fr_handled fr = 0 \<and> bs_ok (fr_data fr) \<and> unread (fr_data fr) = payload \<and>
    os_in s' (conn_fd c) = map RecvChunk cs' @ rest \<and> concat cs' = later"
proof -
  have "incoming s (conn_fd c) (flap_wire ty sq payload @ later) rest"
    using assms(5-7) by (auto simp: incoming_def flap_wire_def)
  from get_command_frame [OF assms(1-4) this, of cl rv] obtain s' where s':
    "aim_get_command cl rv s (Some a) = Some (0, s')"
    "queue_incoming s' = queue_incoming s @ [\<lparr>fr_id = next_addr s, fr_hdr = Flap ty sq,
        fr_data = \<lparr>bs_data = payload, bs_len = length payload, bs_off = 0\<rparr>,
        fr_handled = 0, fr_nofree = 0, fr_conn = Some a\<rparr>]"
    "incoming s' (conn_fd c) later rest"
    by blast
  then show ?thesis
    using stream_of [OF refl assms(4)] unfolding incoming_def by fastforce
qed

theorem get_command_one_frame_witness:
  "\<exists>s' fr. aim_get_command quiet_client (\<lambda>_ _. None) (demo_session\<lparr>os_in := (\<lambda>_. [RecvChunk [0x2a, 2, 0], RecvChunk [7, 0, 1, 9]])\<rparr>)
      (Some 0) = Some (0, s') \<and> queue_incoming s' = [fr] \<and> unread (fr_data fr) = [9]"
  using get_command_one_frame [of "demo_session\<lparr>os_in := (\<lambda>_. [RecvChunk [0x2a, 2, 0], RecvChunk [7, 0, 1, 9]])\<rparr>"
      0 "demo_conn 5" "[9]" "[[0x2a, 2, 0], [7, 0, 1, 9]]" "[]" 2 7 "[]" quiet_client "\<lambda>_ _. None"]
  by (auto simp: flap_conn_def aimutil_put16_def AIM_CONN_TYPE_BOS_def AIM_CONN_TYPE_RENDEZVOUS_def
      AIM_CONN_TYPE_RENDEZVOUS_OUT_def mem_ok_def demo_session_def)

text \<open>C6: what one session sends, another receives: the frame that arrives has the channel, the
  sequence number and the payload of the frame that was sent.\<close>

theorem send_receive_roundtrip:
  assumes "mem_ok s" "sends_ok s" "frame_ready s fr" "fr_hdr fr = Flap ty sq"
    "aim_tx_sendframe s fr = Some (0, fr', s')"
    "os_out s' (fr_fd s fr) = os_out s (fr_fd s fr) @ bytes"
    "mem_ok r" "conns r a = Some c" "flap_conn c"
    "os_in r (conn_fd c) = map RecvChunk cs @ rest" "[] \<notin> set cs" "concat cs = bytes"
  shows "\<exists>r' got. aim_get_command cl rv r (Some a) = Some (0, r') \<and>
    queue_incoming r' = queue_incoming r @ [got] \<and> fr_hdr got = Flap ty sq \<and>
    unread (fr_data got) = written (fr_data fr)"
proof -
  obtain t g where t: "aim_tx_sendframe s fr = Some (0, g, t)"
    "\<And>fd. os_out t fd = os_out s fd @ (if fd = fr_fd s fr then fr_wire fr else [])"
    using sendframe_ready [OF assms(1-3)] by metis
  with assms(5,6) have b: "bytes = flap_wire ty sq (written (fr_data fr)) @ []"
    by (simp add: fr_wire_def assms(4))
  have len: "length (written (fr_data fr)) < 65536"
    using assms(3) by (auto simp: frame_ready_def length_written)
  have "incoming r (conn_fd c) (flap_wire ty sq (written (fr_data fr)) @ []) rest"
    using assms(10-12) b unfolding incoming_def by blast
  from get_command_frame [OF assms(7-9) len this, of cl rv] show ?thesis
    using stream_of [OF refl len] by fastforce
qed

theorem send_receive_roundtrip_witness:
  "\<exists>r' got. aim_get_command quiet_client (\<lambda>_ _. None) (demo_session\<lparr>os_in := (\<lambda>_. [RecvChunk [0x2a, 2, 0, 0, 0, 1, 9]])\<rparr>) (Some 0)
     = Some (0, r') \<and> queue_incoming r' = [got] \<and> fr_hdr got = Flap 2 0 \<and>
     unread (fr_data got) = written (fr_data (demo_frame 2 [9] (Some 0)))"
proof -
  let ?f = "demo_frame 2 [9] (Some 0)"
    and ?r = "demo_session\<lparr>os_in := (\<lambda>_. [RecvChunk [0x2a, 2, 0, 0, 0, 1, 9]])\<rparr>"
  have rd: "frame_ready demo_session ?f" "fr_hdr ?f = Flap 2 0"
    by (simp_all add: frame_ready_def demo_frame_def bs_ok_def)
  obtain t g where t: "aim_tx_sendframe demo_session ?f = Some (0, g, t)"
    "\<And>fd. os_out t fd = os_out demo_session fd @ (if fd = fr_fd demo_session ?f then fr_wire ?f else [])"
    using sendframe_ready [OF demo_sel(1,12) rd(1)] by metis
  have w: "fr_wire ?f = [0x2a, 2, 0, 0, 0, 1, 9]"
    by (simp add: fr_wire_def demo_frame_def flap_wire_def written_def aimutil_put16_def)
  have c: "mem_ok ?r" "conns ?r 0 = Some (demo_conn 5)" "flap_conn (demo_conn 5)"
    by (simp_all add: flap_conn_def AIM_CONN_TYPE_BOS_def AIM_CONN_TYPE_RENDEZVOUS_def
      AIM_CONN_TYPE_RENDEZVOUS_OUT_def mem_ok_def demo_session_def)
  have o: "os_out t (fr_fd demo_session ?f) = os_out demo_session (fr_fd demo_session ?f) @ [0x2a, 2, 0, 0, 0, 1, 9]"
    using t(2) w by simp
  show ?thesis
    using send_receive_roundtrip [OF demo_sel(1,12) rd t(1) o c, of "[[0x2a, 2, 0, 0, 0, 1, 9]]" "[]" quiet_client "\<lambda>_ _. None"]
    by simp
qed

text \<open>C19: when the first byte of a header is not the FLAP mark, in whatever segments the header
  arrives and whatever follows it, the call fails with -1 and the connection is closed: its
  descriptor and handlers are gone, while the structure stays in the list. Nothing is added to the
  queue and nothing is taken from it, the other connections are as they were, and a second call
  for the connection fails without touching anything.\<close>

theorem get_command_framing_error:
  assumes "mem_ok s" "conns s a = Some c" "flap_conn c" "start \<noteq> 0x2a" "length more5 = 5"
    "os_in s (conn_fd c) = map RecvChunk cs @ rest" "[] \<notin> set cs" "concat cs = (start # more5) @ later"
  shows "\<exists>s'. aim_get_command cl rv s (Some a) = Some (-1, s') \<and>
    conns s' = (conns s)(a := Some (c\<lparr>conn_fd := -1, conn_handlerlist := []\<rparr>)) \<and>
    queue_incoming s' = queue_incoming s \<and> connlist s' = connlist s \<and>
    (\<exists>cs'. os_in s' (conn_fd c) = map RecvChunk cs' @ rest \<and> concat cs' = later) \<and>
    aim_get_command cl rv s' (Some a) = Some (-1, s')"
proof -
  let ?fd = "conn_fd c" and ?hdr = "start # more5"
  have fd: "0 \<le> ?fd" "?fd \<noteq> -1" "\<not> ?fd < 3" and ty: "conn_type c \<noteq> AIM_CONN_TYPE_RENDEZVOUS"
    using assms(3) by (simp_all add: flap_conn_def)
  have ok6: "bs_ok (aim_bstream_init (fresh s 6) 6)" by simp
  have "incoming s ?fd (?hdr @ later) rest"
    using assms(6-8) unfolding incoming_def by blast
  from recv_incoming [OF ok6 fd(1) _ _ this, of 6] assms(5) obtain f where f:
    "aim_bstream_recv (aim_bstream_init (fresh s 6) 6) ?fd 6 s =
       Some (6, emit ?hdr (aim_bstream_init (fresh s 6) 6), s\<lparr>os_in := f\<rparr>)"
    "incoming (s\<lparr>os_in := f\<rparr>) ?fd later rest"
    by auto
  have hl: "length ?hdr = 6" using assms(5) by simp
  let ?h = "\<lparr>bs_data = ?hdr, bs_len = 6, bs_off = 0\<rparr>"
  have rw: "aim_bstream_rewind (emit ?hdr (aim_bstream_init (fresh s 6) 6)) = ?h"
    using emit_all [OF hl, of "fresh s 6"] by (simp add: rewind_eq)
  have g: "aimbs_get8 ?h = Some (start, adv 1 ?h)"
    using stream_of [OF hl] by (simp add: stream_simps)
  let ?s1 = "s\<lparr>os_in := f\<rparr>"
  have close: "aim_conn_close (Some a) ?s1 = Some (put_conn a (closed c) ?s1)"
    using assms(2) ty
    by (cases c) (auto simp: aim_conn_close_def aim_clearhandlers_def Let_def closed_def put_conn_def)
  have "aim_get_command cl rv s (Some a) = Some (-1, put_conn a (closed c) ?s1)"
    using assms(2,3,4) f(1) fd g close by (simp add: aim_get_command_def recv_payload_def flap_conn_def Let_def rw)
  moreover have "aim_get_command cl rv (put_conn a (closed c) ?s1) (Some a) = Some (-1, put_conn a (closed c) ?s1)"
    by (simp add: aim_get_command_def closed_def)
  ultimately show ?thesis using f(2) by (auto simp: closed_def incoming_def)
qed

theorem get_command_framing_error_witness:
  "\<exists>s'. aim_get_command quiet_client (\<lambda>_ _. None) (demo_session\<lparr>os_in := (\<lambda>_. [RecvChunk [0x2b, 2], RecvChunk [0, 0, 0, 0]])\<rparr>) (Some 0)
     = Some (-1, s') \<and> queue_incoming s' = []"
  using get_command_framing_error [of "demo_session\<lparr>os_in := (\<lambda>_. [RecvChunk [0x2b, 2], RecvChunk [0, 0, 0, 0]])\<rparr>" 0
      "demo_conn 5" "0x2b" "[2, 0, 0, 0, 0]" "[[0x2b, 2], [0, 0, 0, 0]]" "[]" "[]" quiet_client "\<lambda>_ _. None"]
  by (auto simp: flap_conn_def AIM_CONN_TYPE_BOS_def AIM_CONN_TYPE_RENDEZVOUS_def
      AIM_CONN_TYPE_RENDEZVOUS_OUT_def mem_ok_def demo_session_def)

subsection \<open>Killing connections\<close>

text \<open>Killing a connection of the session that carries no private data (a server connection
  without a chat room) is defined; it leaves the list, is released, and every frame queued for
  it in either direction counts as handled, while other connections and their frames are
  untouched.\<close>

theorem conn_kill_plain:
  assumes "conns_ok s" "conns s a = Some c" "conn_type c \<noteq> AIM_CONN_TYPE_RENDEZVOUS" "conn_priv c = None"
  shows "\<exists>s'. aim_conn_kill s (Some a) = Some s' \<and> conns_ok s' \<and>
    connlist s' = remove1 a (connlist s) \<and> conns s' = (conns s)(a := None) \<and>
    queue_incoming s' = map (mark_new_of (Some a)) (queue_incoming s) \<and>
    queue_outgoing s' = map (mark_of (Some a)) (queue_outgoing s)"
proof -
  let ?s1 = "s\<lparr>connlist := remove1 a (connlist s)\<rparr>"
  let ?t = "aim_tx_cleanqueue (aim_rxqueue_cleanbyconn ?s1 (Some a)) (Some a)"
  have t: "conns ?t = conns s" by (simp add: clean_sel)
  have close: "aim_conn_close (Some a) ?t = Some (put_conn a (closed c) ?t)"
    using assms(2,3) t
    by (cases c) (auto simp: aim_conn_close_def aim_clearhandlers_def Let_def closed_def put_conn_def)
  have "\<exists>s'. connkill_real ?s1 a = Some s'"
    using assms(2-4) t close
    by (auto simp: connkill_real_def Let_def free_obj_def aim_conn_kill_chat_def closed_def)
  then obtain s' where k: "connkill_real ?s1 a = Some s'" by blast
  have "a \<in> set (connlist s)" using conns_okD(2) [OF assms(1,2)] .
  with k have "aim_conn_kill s (Some a) = Some s'" by (simp add: aim_conn_kill_def)
  moreover note connkill_fields [OF k, simplified]
  moreover from this have "conns_ok s'"
    using assms(1) unfolding conns_ok_def by (auto simp: set_remove1_eq)
  ultimately show ?thesis by blast
qed

theorem conn_kill_plain_witness:
  "\<exists>s'. aim_conn_kill (demo_session\<lparr>queue_outgoing := [demo_frame 2 [9] (Some 0)]\<rparr>) (Some 0) = Some s' \<and>
     connlist s' = [] \<and> map fr_handled (queue_outgoing s') = [1]"
proof -
  let ?s = "demo_session\<lparr>queue_outgoing := [demo_frame 2 [9] (Some 0)]\<rparr>"
  have "conns_ok ?s" by (auto simp: conns_ok_def demo_session_def)
  from conn_kill_plain [OF this, of 0 "demo_conn 5"] show ?thesis
    by (fastforce simp: AIM_CONN_TYPE_BOS_def AIM_CONN_TYPE_RENDEZVOUS_def mark_of_def demo_frame_def)
qed

text \<open>C22: killing a chat connection that a room was attached to is undefined: its private data
  is released once as \<^verbatim>\<open>priv\<close> and then read and released again as the room.\<close>

theorem conn_kill_chat_room:
  assumes "mem_ok s" "conns_ok s" "conns s a = Some c" "conn_type c = AIM_CONN_TYPE_CHAT"
    "conn_priv c = None" "roomname \<noteq> None" "objs s (next_addr s) = None"
  shows "\<exists>s'. aim_chat_attachname (Some a) exchange roomname inst s = Some (0, s') \<and>
    aim_chat_getname (Some a) s' = Some roomname \<and> aim_conn_kill s' (Some a) = None"
proof -
  let ?p = "next_addr s"
  let ?c = "c\<lparr>conn_priv := Some ?p\<rparr>"
  let ?s = "put_conn a ?c (s\<lparr>next_addr := Suc ?p,
      objs := (objs s)(?p := Some (ChatPriv exchange roomname inst))\<rparr>)"
  have att: "aim_chat_attachname (Some a) exchange roomname inst s = Some (0, ?s)"
    using assms(1,3,5,6) by (auto simp: aim_chat_attachname_def free_obj_def new_addr_def Let_def put_conn_def)
  have nr: "conn_type c \<noteq> AIM_CONN_TYPE_RENDEZVOUS"
    using assms(4) by (simp add: AIM_CONN_TYPE_CHAT_def AIM_CONN_TYPE_RENDEZVOUS_def)
  let ?s1 = "?s\<lparr>connlist := remove1 a (connlist s)\<rparr>"
  let ?t = "aim_tx_cleanqueue (aim_rxqueue_cleanbyconn ?s1 (Some a)) (Some a)"
  have t: "conns ?t a = Some ?c" "objs ?t ?p = Some (ChatPriv exchange roomname inst)"
    by (simp_all add: clean_sel)
  have close: "aim_conn_close (Some a) ?t = Some (put_conn a (closed ?c) ?t)"
    using t(1) nr
    by (cases c) (auto simp: aim_conn_close_def aim_clearhandlers_def Let_def closed_def put_conn_def)
  have "connkill_real ?s1 a = None"
    using t close nr assms(4)
    by (auto simp: connkill_real_def Let_def free_obj_def aim_conn_kill_chat_def closed_def split: bind_splits)
  then have "aim_conn_kill ?s (Some a) = None"
    using conns_okD(2) [OF assms(2,3)] by (simp add: aim_conn_kill_def)
  moreover have "aim_chat_getname (Some a) ?s = Some roomname"
    using assms(4) by (simp add: aim_chat_getname_def)
  ultimately show ?thesis using att by blast
qed

theorem conn_kill_chat_room_witness:
  "\<exists>s'. aim_chat_attachname (Some 0) 4 (Some [104, 105]) 0
       (demo_session\<lparr>conns := [0 \<mapsto> (demo_conn 5)\<lparr>conn_type := AIM_CONN_TYPE_CHAT\<rparr>]\<rparr>) = Some (0, s')
     \<and> aim_conn_kill s' (Some 0) = None"
proof -
  let ?c = "(demo_conn 5)\<lparr>conn_type := AIM_CONN_TYPE_CHAT\<rparr>"
  let ?s = "demo_session\<lparr>conns := [0 \<mapsto> ?c]\<rparr>"
  have "conns_ok ?s" by (auto simp: conns_ok_def demo_session_def)
  moreover have "objs ?s (next_addr ?s) = None" by (simp add: demo_session_def)
  ultimately show ?thesis
    using conn_kill_chat_room [of ?s 0 ?c "Some [104, 105]" 4 0] by fastforce
qed

section \<open>Receiving and the session\<close>

lemma recv_os_only: "aim_recv_loop fd left acc s = (r, xs, s') \<Longrightarrow> os_only s s'"
proof (induction fd left acc s rule: aim_recv_loop.induct)
  case (1 fd left acc s)
  obtain ret b t where t: "os_recv fd left s = (ret, b, t)" by (cases "os_recv fd left s")
  have st: "os_only s t"
    using t by (auto simp: os_recv_def split: list.splits recv_event.splits if_splits)
  show ?case
  proof (cases "left = 0 \<or> ret \<le> 0")
    case True
    with 1(2) t st show ?thesis by (auto simp: aim_recv_loop.simps [of fd left] split: if_splits)
  next
    case False
    with 1(2) t have "aim_recv_loop fd (left - nat ret) (acc @ b) t = (r, xs, s')"
      by (simp add: aim_recv_loop.simps [of fd left])
    from 1(1) [OF _ t [symmetric] refl refl _ this] False st show ?thesis by (auto intro: os_only_trans)
  qed
qed

lemma bstream_recv_os_only: "aim_bstream_recv bs fd n s = Some (r, bs', s') \<Longrightarrow> os_only s s'"
  by (auto simp: aim_bstream_recv_def aim_recv_def Let_def split: if_splits prod.splits bind_splits
      dest: recv_os_only)

lemma os_only_connect [simp]: "os_only s (s\<lparr>os_connect := f\<rparr>)"
  by (cases s) (simp add: os_only_def)

lemma session_ok_frames:
  assumes "session_ok s"
  shows "distinct (connlist s) \<and> set (connlist s) = dom (conns s) \<and>
    (\<forall>fr \<in> set (queue_incoming s) \<union> set (queue_outgoing s).
       fr_handled fr = 0 \<longrightarrow> (\<exists>a \<in> set (connlist s). fr_conn fr = Some a))"
proof -
  have "\<exists>a \<in> set (connlist s). fr_conn fr = Some a"
    if "fr \<in> set (queue_incoming s) \<union> set (queue_outgoing s)" "fr_handled fr = 0" for fr
    using refs_okD [OF session_okD(2) [OF assms], of fr] that conns_okD(2) [OF session_okD(1) [OF assms]] by auto
  with assms show ?thesis by (auto simp: session_ok_def conns_ok_def)
qed

lemma session_ok_session0 [simp]: "session_ok (session0 now)"
  by (simp add: session_ok_def conns_ok_def refs_ok_def)

end
