(* ===== verification/Modules.thy ===== *)
theory Modules
  imports Connlife Snac
begin

text \<open>
  Modules and the life of a session: the module registry of \<^verbatim>\<open>src/rxhandlers.c\<close>, the
  \<^verbatim>\<open>*_modfirst\<close> functions in which every module fills its structure in, and
  \<^verbatim>\<open>aim_session_init\<close>, \<^verbatim>\<open>aim_session_kill\<close> and \<^verbatim>\<open>aim_setupproxy\<close> of
  \<^verbatim>\<open>src/conn.c\<close>. No module of the library sets the \<^verbatim>\<open>shutdown\<close> or \<^verbatim>\<open>priv\<close>
  members, so these are left out; the names are shorter than the 17 bytes they are copied to.
\<close>

subsection \<open>The registry\<close>

definition aim__findmodulebygroup :: "aim_session \<Rightarrow> u16 \<Rightarrow> aim_module option" where
  "aim__findmodulebygroup s grp = find (\<lambda>cur. mod_family cur = grp) (modlist s)"

definition aim__findmodule :: "aim_session \<Rightarrow> cstring \<Rightarrow> aim_module option" where
  "aim__findmodule s name = find (\<lambda>cur. name = mod_name cur) (modlist s)"

definition zero_module :: aim_module where
  "zero_module = \<lparr>mod_family = 0, mod_version = 0, mod_toolid = 0, mod_toolversion = 0,
     mod_flags = 0, mod_name = [], mod_snachandler = None\<rparr>"

definition aim__registermodule ::
  "aim_session \<Rightarrow> (aim_module \<Rightarrow> int \<times> aim_module) option \<Rightarrow> int \<times> aim_session" where
  "aim__registermodule s modfirst =
     (case modfirst of
        None \<Rightarrow> (-1, s)
      | Some modfirst \<Rightarrow>
          let (ok, s) = malloc s
          in if \<not> ok then (-1, s)
             else let (r, m) = modfirst zero_module
                  in if r = -1 then (-1, s)
                     else if aim__findmodule s (mod_name m) \<noteq> None then (-1, s)
                     else (0, s\<lparr>modlist := m # modlist s\<rparr>))"

definition aim__shutdownmodules :: "aim_session \<Rightarrow> aim_session" where
  "aim__shutdownmodules s = s\<lparr>modlist := []\<rparr>"

subsection \<open>The modules\<close>

definition AIM_TOOL_NEWWIN :: u16 where "AIM_TOOL_NEWWIN = 0x0010"

definition misc_modfirst :: "aim_module \<Rightarrow> int \<times> aim_module" where
  "misc_modfirst m = (0, m\<lparr>mod_family := 0xffff, mod_version := 0x0000,
     mod_flags := AIM_MODFLAG_MULTIFAMILY, mod_name := cstr ''misc'', mod_snachandler := Some HMisc\<rparr>)"

definition general_modfirst :: "aim_module \<Rightarrow> int \<times> aim_module" where
  "general_modfirst m = (0, m\<lparr>mod_family := 0x0001, mod_version := 0x0003, mod_toolid := 0x0110, mod_toolversion := 0x047b,
     mod_flags := 0, mod_name := cstr ''general'', mod_snachandler := Some HGeneral\<rparr>)"

definition locate_modfirst :: "aim_module \<Rightarrow> int \<times> aim_module" where
  "locate_modfirst m = (0, m\<lparr>mod_family := 0x0002, mod_version := 0x0001, mod_toolid := 0x0101, mod_toolversion := 0x047b,
     mod_flags := 0, mod_name := cstr ''locate'', mod_snachandler := Some HLocate\<rparr>)"

definition buddylist_modfirst :: "aim_module \<Rightarrow> int \<times> aim_module" where
  "buddylist_modfirst m = (0, m\<lparr>mod_family := 0x0003, mod_version := 0x0001, mod_toolid := 0x0110, mod_toolversion := 0x047b,
     mod_flags := 0, mod_name := cstr ''buddylist'', mod_snachandler := Some HBuddylist\<rparr>)"

definition msg_modfirst :: "aim_module \<Rightarrow> int \<times> aim_module" where
  "msg_modfirst m = (0, m\<lparr>mod_family := 0x0004, mod_version := 0x0001, mod_toolid := 0x0110, mod_toolversion := 0x047b,
     mod_flags := 0, mod_name := cstr ''messaging'', mod_snachandler := Some HMessaging\<rparr>)"

definition adverts_modfirst :: "aim_module \<Rightarrow> int \<times> aim_module" where
  "adverts_modfirst m = (0, m\<lparr>mod_family := 0x0005, mod_version := 0x0001, mod_toolid := 0x0001, mod_toolversion := 0x0001,
     mod_flags := 0, mod_name := cstr ''adverts'', mod_snachandler := Some HAdverts\<rparr>)"

definition invite_modfirst :: "aim_module \<Rightarrow> int \<times> aim_module" where
  "invite_modfirst m = (0, m\<lparr>mod_family := 0x0006, mod_version := 0x0001, mod_toolid := 0x0110, mod_toolversion := 0x047b,
     mod_flags := 0, mod_name := cstr ''invite'', mod_snachandler := None\<rparr>)"

definition admin_modfirst :: "aim_module \<Rightarrow> int \<times> aim_module" where
  "admin_modfirst m = (0, m\<lparr>mod_family := 0x0007, mod_version := 0x0001, mod_toolid := AIM_TOOL_NEWWIN, mod_toolversion := 0x0361,
     mod_flags := 0, mod_name := cstr ''admin'', mod_snachandler := Some HAdmin\<rparr>)"

definition popups_modfirst :: "aim_module \<Rightarrow> int \<times> aim_module" where
  "popups_modfirst m = (0, m\<lparr>mod_family := 0x0008, mod_version := 0x0001, mod_toolid := 0x0104, mod_toolversion := 0x0001,
     mod_flags := 0, mod_name := cstr ''popups'', mod_snachandler := Some HPopups\<rparr>)"

definition bos_modfirst :: "aim_module \<Rightarrow> int \<times> aim_module" where
  "bos_modfirst m = (0, m\<lparr>mod_family := 0x0009, mod_version := 0x0001, mod_toolid := 0x0110, mod_toolversion := 0x047b,
     mod_flags := 0, mod_name := cstr ''bos'', mod_snachandler := Some HBos\<rparr>)"

definition search_modfirst :: "aim_module \<Rightarrow> int \<times> aim_module" where
  "search_modfirst m = (0, m\<lparr>mod_family := 0x000a, mod_version := 0x0001, mod_toolid := 0x0110, mod_toolversion := 0x047b,
     mod_flags := 0, mod_name := cstr ''search'', mod_snachandler := Some HSearch\<rparr>)"

definition stats_modfirst :: "aim_module \<Rightarrow> int \<times> aim_module" where
  "stats_modfirst m = (0, m\<lparr>mod_family := 0x000b, mod_version := 0x0001, mod_toolid := 0x0104, mod_toolversion := 0x0001,
     mod_flags := 0, mod_name := cstr ''stats'', mod_snachandler := Some HStats\<rparr>)"

definition translate_modfirst :: "aim_module \<Rightarrow> int \<times> aim_module" where
  "translate_modfirst m = (0, m\<lparr>mod_family := 0x000c, mod_version := 0x0001, mod_toolid := 0x0104, mod_toolversion := 0x0001,
     mod_flags := 0, mod_name := cstr ''translate'', mod_snachandler := None\<rparr>)"

definition chatnav_modfirst :: "aim_module \<Rightarrow> int \<times> aim_module" where
  "chatnav_modfirst m = (0, m\<lparr>mod_family := 0x000d, mod_version := 0x0001, mod_toolid := 0x0010, mod_toolversion := 0x047c,
     mod_flags := 0, mod_name := cstr ''chatnav'', mod_snachandler := Some HChatnav\<rparr>)"

definition chat_modfirst :: "aim_module \<Rightarrow> int \<times> aim_module" where
  "chat_modfirst m = (0, m\<lparr>mod_family := 0x000e, mod_version := 0x0001, mod_toolid := 0x0004, mod_toolversion := 0x0001,
     mod_flags := 0, mod_name := cstr ''chat'', mod_snachandler := Some HChat\<rparr>)"

definition ssi_modfirst :: "aim_module \<Rightarrow> int \<times> aim_module" where
  "ssi_modfirst m = (0, m\<lparr>mod_family := 0x0013, mod_version := 0x0001, mod_toolid := 0x0110, mod_toolversion := 0x047b,
     mod_flags := 0, mod_name := cstr ''ssi'', mod_snachandler := Some HSsi\<rparr>)"

definition icq_modfirst :: "aim_module \<Rightarrow> int \<times> aim_module" where
  "icq_modfirst m = (0, m\<lparr>mod_family := 0x0015, mod_version := 0x0001, mod_toolid := 0x0110, mod_toolversion := 0x047b,
     mod_flags := 0, mod_name := cstr ''icq'', mod_snachandler := Some HIcq\<rparr>)"

definition auth_modfirst :: "aim_module \<Rightarrow> int \<times> aim_module" where
  "auth_modfirst m = (0, m\<lparr>mod_family := 0x0017, mod_version := 0x0000,
     mod_flags := 0, mod_name := cstr ''auth'', mod_snachandler := Some HAuth\<rparr>)"

lemmas modfirst_defs =
  misc_modfirst_def general_modfirst_def locate_modfirst_def buddylist_modfirst_def
  msg_modfirst_def adverts_modfirst_def invite_modfirst_def admin_modfirst_def
  popups_modfirst_def bos_modfirst_def search_modfirst_def stats_modfirst_def
  translate_modfirst_def chatnav_modfirst_def chat_modfirst_def ssi_modfirst_def
  icq_modfirst_def auth_modfirst_def

subsection \<open>Sessions\<close>

definition aim_setupproxy ::
  "aim_session \<Rightarrow> cstring option \<Rightarrow> cstring option \<Rightarrow> cstring option \<Rightarrow> aim_session" where
  "aim_setupproxy s server username password =
     (if server = None \<or> server = Some []
      then s\<lparr>socks_server := replicate 128 0, socks_username := replicate 128 0,
             socks_password := replicate 128 0\<rparr>
      else let s = s\<lparr>socks_server := c_strncpy (the server) 128\<rparr>;
               s = (if username \<noteq> None \<and> username \<noteq> Some []
                    then s\<lparr>socks_username := c_strncpy (the username) 128\<rparr> else s)
           in if password \<noteq> None \<and> password \<noteq> Some []
              then s\<lparr>socks_password := c_strncpy (the password) 128\<rparr> else s)"

text \<open>\<^verbatim>\<open>memset(sess, 0, sizeof(aim_session_t))\<close>; other objects stay where they are.\<close>

definition zero_session :: "aim_session \<Rightarrow> aim_session" where
  "zero_session s = s\<lparr>sess_sn := [], connlist := [], queue_outgoing := [], queue_incoming := [],
     snac_hash := replicate FAIM_SNAC_HASH_SIZE [], snacid_next := 0,
     socks_server := replicate 128 0, socks_username := replicate 128 0,
     socks_password := replicate 128 0, sess_flags := 0, sess_debug := 0, msgcookies := [],
     modlist := []\<rparr>"

definition session_modules :: "(aim_module \<Rightarrow> int \<times> aim_module) list" where
  "session_modules =
     [misc_modfirst, general_modfirst, locate_modfirst, buddylist_modfirst, msg_modfirst,
      adverts_modfirst, invite_modfirst, admin_modfirst, popups_modfirst, bos_modfirst,
      search_modfirst, stats_modfirst, translate_modfirst, chatnav_modfirst, chat_modfirst,
      ssi_modfirst, icq_modfirst, auth_modfirst]"

definition aim_session_init :: "aim_session \<Rightarrow> u32 \<Rightarrow> int \<Rightarrow> aim_session option" where
  "aim_session_init s flags debuglevel = do {
     let s = zero_session s;
     s \<leftarrow> aim_connrst s;
     let s = s\<lparr>queue_outgoing := [], queue_incoming := []\<rparr>;
     let s = aim_initsnachash s;
     let s = s\<lparr>msgcookies := [], snacid_next := 1, sess_flags := 0, sess_debug := debuglevel,
               modlist := []\<rparr>;
     let s = (if flags AND AIM_SESS_FLAGS_XORLOGIN = 0
              then s\<lparr>sess_flags := sess_flags s OR AIM_SESS_FLAGS_SNACLOGIN\<rparr> else s);
     let s = s\<lparr>sess_flags := sess_flags s OR flags\<rparr>;
     let (_, s) = aim_tx_setenqueue s AIM_TX_QUEUED None;
     Some (fold (\<lambda>mf s. snd (aim__registermodule s (Some mf))) session_modules s)
   }"

definition aim_session_kill :: "aim_session \<Rightarrow> aim_session option" where
  "aim_session_kill s = do {
     let s = aim_cleansnacs s (-1);
     (_, s) \<leftarrow> aim_logoff s;
     Some (aim__shutdownmodules s)
   }"

definition aim_conn_getsess :: "nat option \<Rightarrow> aim_session \<Rightarrow> bool option" where
  "aim_conn_getsess conn s =
     (case conn of None \<Rightarrow> Some False | Some a \<Rightarrow> do { c \<leftarrow> conns s a; Some (conn_sessv c) })"

definition aim_flap_nop :: "client \<Rightarrow> aim_session \<Rightarrow> nat option \<Rightarrow> (int \<times> aim_session) option" where
  "aim_flap_nop cl s conn = do {
     (fr, s) \<leftarrow> aim_tx_new s conn AIM_FRAMETYPE_FLAP 0x05 0;
     case fr of
       None \<Rightarrow> Some (- ENOMEM, s)
     | Some fr \<Rightarrow> do { (_, s) \<leftarrow> aim_tx_enqueue cl s fr; Some (0, s) }
   }"

lemma registermodule_new:
  assumes "mem_ok s" "mf zero_module = (0, m)" "\<forall>x \<in> set (modlist s). mod_name x \<noteq> mod_name m"
  shows "aim__registermodule s (Some mf) = (0, s\<lparr>modlist := m # modlist s\<rparr>)"
proof -
  have "aim__findmodule s (mod_name m) = None"
    using assms(3) by (fastforce simp: aim__findmodule_def find_None_iff)
  with assms(1,2) show ?thesis by (simp add: aim__registermodule_def)
qed

text \<open>Modules with different names all get registered, the first at the end of the list.\<close>

lemma register_all:
  assumes "mem_ok s" "\<forall>mf \<in> set mfs. fst (mf zero_module) = 0"
    "distinct (map mod_name (rev (map (\<lambda>mf. snd (mf zero_module)) mfs) @ modlist s))"
  shows "fold (\<lambda>mf s. snd (aim__registermodule s (Some mf))) mfs s =
     s\<lparr>modlist := rev (map (\<lambda>mf. snd (mf zero_module)) mfs) @ modlist s\<rparr>"
  using assms
proof (induction mfs arbitrary: s)
  case (Cons mf mfs)
  let ?m = "snd (mf zero_module)"
  have "mf zero_module = (0, ?m)" using Cons.prems(2) by (cases "mf zero_module") auto
  moreover have "mod_name ?m \<notin> set (map mod_name (modlist s))" using Cons.prems(3) by simp
  then have "\<forall>x \<in> set (modlist s). mod_name x \<noteq> mod_name ?m" by (metis imageI image_set)
  ultimately have "aim__registermodule s (Some mf) = (0, s\<lparr>modlist := ?m # modlist s\<rparr>)"
    using Cons.prems(1) by (intro registermodule_new)
  moreover have "fold (\<lambda>mf s. snd (aim__registermodule s (Some mf))) mfs (s\<lparr>modlist := ?m # modlist s\<rparr>) =
     s\<lparr>modlist := ?m # modlist s\<rparr>\<lparr>modlist := rev (map (\<lambda>mf. snd (mf zero_module)) mfs) @ ?m # modlist s\<rparr>"
    using Cons.IH [of "s\<lparr>modlist := ?m # modlist s\<rparr>"] Cons.prems by simp
  ultimately show ?case by simp
qed simp

lemma session_module_names:
  "map (\<lambda>mf. mod_name (snd (mf zero_module))) session_modules =
   map cstr [''misc'', ''general'', ''locate'', ''buddylist'', ''messaging'', ''adverts'', ''invite'',
     ''admin'', ''popups'', ''bos'', ''search'', ''stats'', ''translate'', ''chatnav'', ''chat'',
     ''ssi'', ''icq'', ''auth'']"
  by (simp add: session_modules_def modfirst_defs)

lemma distinct_module_names:
  "distinct (map (\<lambda>mf. mod_name (snd (mf zero_module))) session_modules)"
  unfolding session_module_names by (simp add: cstr_def)

lemma session_module_ok: "mf \<in> set session_modules \<Longrightarrow> fst (mf zero_module) = 0"
  by (auto simp: session_modules_def modfirst_defs)

text \<open>The modules of a fresh session, in the order in which they are asked.\<close>

definition default_modules :: "aim_module list" where
  "default_modules = rev (map (\<lambda>mf. snd (mf zero_module)) session_modules)"

lemma register_session_modules:
  assumes "mem_ok s" "modlist s = []"
  shows "fold (\<lambda>mf s. snd (aim__registermodule s (Some mf))) session_modules s =
    s\<lparr>modlist := default_modules\<rparr>"
proof -
  have "distinct (map mod_name (rev (map (\<lambda>mf. snd (mf zero_module)) session_modules) @ modlist s))"
    using distinct_module_names assms(2) by (simp add: rev_map [symmetric] comp_def)
  from register_all [OF assms(1) _ this] session_module_ok assms(2) show ?thesis
    by (simp add: default_modules_def)
qed

lemma default_families:
  "map mod_family default_modules =
     [0x17, 0x15, 0x13, 0xe, 0xd, 0xc, 0xb, 0xa, 9, 8, 7, 6, 5, 4, 3, 2, 1, 0xffff]"
  by (simp add: default_modules_def session_modules_def modfirst_defs)

lemma default_module_facts:
  "map mod_flags default_modules = replicate 17 0 @ [AIM_MODFLAG_MULTIFAMILY]"
  "map mod_snachandler default_modules =
    [Some HAuth, Some HIcq, Some HSsi, Some HChat, Some HChatnav, None, Some HStats, Some HSearch,
     Some HBos, Some HPopups, Some HAdmin, None, Some HAdverts, Some HMessaging, Some HBuddylist,
     Some HLocate, Some HGeneral, Some HMisc]"
  by (simp_all add: default_modules_def session_modules_def modfirst_defs numeral_eq_Suc)

lemma session_init_eq:
  assumes "mem_ok s"
  shows "aim_session_init s flags dbg = Some ((zero_session s)\<lparr>snacid_next := 1,
    sess_flags := (if flags AND AIM_SESS_FLAGS_XORLOGIN = 0 then AIM_SESS_FLAGS_SNACLOGIN OR flags else flags),
    sess_debug := dbg, tx_enqueue := TxQueued, modlist := default_modules\<rparr>)"
  using assms
  by (simp add: aim_session_init_def zero_session_def aim_connrst_def aim_initsnachash_def
      aim_tx_setenqueue_def register_session_modules mem_ok_def Let_def)

lemma and_one_odd: "((x :: u32) AND 1 = 0) = even x"
  by (simp add: and_one_eq even_iff_mod_2_eq_zero)

text \<open>C24: initialising a session (with no other connection in memory) always succeeds and gives
  a session in which every invariant of the library holds, login is by SNAC unless the flags
  ask for the older way, and the registry holds one module per family with the one that takes
  every family last.\<close>

theorem session_init_ready:
  assumes "mem_ok s" "conns s = (\<lambda>_. None)"
  shows "\<exists>s'. aim_session_init s flags dbg = Some s' \<and>
    session_ok s' \<and> handlers_ok s' \<and> snacs_ok s' \<and> cookies_ok s' \<and> outstanding s' i = [] \<and>
    map mod_family (modlist s') =
      [0x17, 0x15, 0x13, 0xe, 0xd, 0xc, 0xb, 0xa, 9, 8, 7, 6, 5, 4, 3, 2, 1, 0xffff] \<and>
    distinct (map mod_name (modlist s')) \<and>
    (\<forall>m \<in> set (modlist s'). aim__findmodule s' (mod_name m) = Some m \<and>
       aim__findmodulebygroup s' (mod_family m) = Some m) \<and>
    (sess_flags s' AND AIM_SESS_FLAGS_SNACLOGIN \<noteq> 0) =
      (flags AND AIM_SESS_FLAGS_XORLOGIN = 0 \<or> flags AND AIM_SESS_FLAGS_SNACLOGIN \<noteq> 0)"
proof -
  let ?s = "(zero_session s)\<lparr>snacid_next := 1,
    sess_flags := (if flags AND AIM_SESS_FLAGS_XORLOGIN = 0 then AIM_SESS_FLAGS_SNACLOGIN OR flags else flags),
    sess_debug := dbg, tx_enqueue := TxQueued, modlist := default_modules\<rparr>"
  have "session_ok ?s" "handlers_ok ?s"
    using assms(2) by (simp_all add: session_ok_def conns_ok_def refs_ok_def handlers_ok_def zero_session_def)
  moreover have "snacs_ok ?s" "cookies_ok ?s" "outstanding ?s i = []"
    by (simp_all add: snacs_ok_def cookies_ok_def outstanding_def zero_session_def)
  moreover have names: "distinct (map mod_name default_modules)"
    using distinct_module_names by (simp add: default_modules_def rev_map [symmetric] comp_def)
  moreover have fams: "distinct (map mod_family default_modules)"
    unfolding default_families by simp
  moreover have "find (\<lambda>x. f x = f m) ms = Some m" if "distinct (map f ms)" "m \<in> set ms"
    for f :: "aim_module \<Rightarrow> 'b" and ms m
    using that by (induction ms) auto
  then have "aim__findmodule ?s (mod_name m) = Some m" "aim__findmodulebygroup ?s (mod_family m) = Some m"
    if "m \<in> set default_modules" for m
    using that names fams by (simp_all add: aim__findmodule_def aim__findmodulebygroup_def eq_commute [of "mod_name m"])
  moreover have "(sess_flags ?s AND AIM_SESS_FLAGS_SNACLOGIN \<noteq> 0) =
      (flags AND AIM_SESS_FLAGS_XORLOGIN = 0 \<or> flags AND AIM_SESS_FLAGS_SNACLOGIN \<noteq> 0)"
    by (simp add: AIM_SESS_FLAGS_SNACLOGIN_def and_one_odd even_or_iff)
  ultimately show ?thesis
    using session_init_eq [OF assms(1), of flags dbg] default_families
    by (intro exI [of _ ?s]) simp
qed

theorem session_init_ready_witness:
  "\<exists>s'. aim_session_init (session0 0) 0 2 = Some s' \<and> session_ok s' \<and>
     sess_flags s' AND AIM_SESS_FLAGS_SNACLOGIN \<noteq> 0 \<and> length (modlist s') = 18"
proof -
  from session_init_ready [of "session0 0" 0 2 0] obtain s' where
    "aim_session_init (session0 0) 0 2 = Some s'" "session_ok s'" "sess_flags s' AND AIM_SESS_FLAGS_SNACLOGIN \<noteq> 0"
    "map mod_family (modlist s') = [0x17, 0x15, 0x13, 0xe, 0xd, 0xc, 0xb, 0xa, 9, 8, 7, 6, 5, 4, 3, 2, 1, 0xffff]"
    by auto
  moreover from arg_cong [OF this(4), of length] have "length (modlist s') = 18" by simp
  ultimately show ?thesis by blast
qed

end
