(* ===== verification/Rxhandlers.thy ===== *)
theory Rxhandlers
  imports Modules Rxqueue
begin

text \<open>
  Dispatching received frames: \<^verbatim>\<open>aim_rxdispatch\<close> and what it hands frames to, in
  \<^verbatim>\<open>src/rxhandlers.c\<close>. The table \<open>hs\<close> gives the function each module structure points to
  as \<^verbatim>\<open>snachandler\<close>. A handler gets the frame and the stream of the frame; it returns the
  stream where it left it, so that the next one reads on from there. The bytes that
  \<^verbatim>\<open>aim_parse_unknown\<close> prints are not modelled.
\<close>

type_synonym snachandler =
  "aim_module \<Rightarrow> aim_frame \<Rightarrow> aim_modsnac \<Rightarrow> bstream \<Rightarrow> aim_session \<Rightarrow> (int \<times> bstream \<times> aim_session) option"

subsection \<open>Modules\<close>

text \<open>
  The walk over the module list. A null \<^verbatim>\<open>snachandler\<close> is called as well; when a handler
  returns after its own module was released, the walk cannot go on.
\<close>

primrec consume_loop ::
  "(modkind \<Rightarrow> snachandler) \<Rightarrow> aim_module list \<Rightarrow> aim_frame \<Rightarrow> aim_modsnac \<Rightarrow> bstream \<Rightarrow> aim_session
   \<Rightarrow> (int \<times> bstream \<times> aim_session) option" where
  "consume_loop hs [] rx snac bs s = Some (0, bs, s)"
| "consume_loop hs (cur # rest) rx snac bs s =
     (if mod_flags cur AND AIM_MODFLAG_MULTIFAMILY = 0 \<and> mod_family cur \<noteq> ms_family snac
      then consume_loop hs rest rx snac bs s
      else do {
        h \<leftarrow> mod_snachandler cur;
        (r, bs, s) \<leftarrow> hs h cur rx snac bs s;
        if r \<noteq> 0 then Some (1, bs, s)
        else if cur \<in> set (modlist s) then consume_loop hs rest rx snac bs s
        else None
      })"

definition consumesnac ::
  "(modkind \<Rightarrow> snachandler) \<Rightarrow> aim_session \<Rightarrow> aim_frame \<Rightarrow> (int \<times> bstream \<times> aim_session) option" where
  "consumesnac hs s rx = do {
     let bs = fr_data rx;
     if aim_bstream_empty bs < 10 then Some (0, bs, s)
     else do {
       (family, bs) \<leftarrow> aimbs_get16 bs;
       (subtype, bs) \<leftarrow> aimbs_get16 bs;
       (flags, bs) \<leftarrow> aimbs_get16 bs;
       (i, bs) \<leftarrow> aimbs_get32 bs;
       consume_loop hs (modlist s) rx
         \<lparr>ms_family = family, ms_subtype = subtype, ms_flags = flags, ms_id = i\<rparr> bs s
     }
   }"

definition consumenonsnac ::
  "(modkind \<Rightarrow> snachandler) \<Rightarrow> aim_session \<Rightarrow> aim_frame \<Rightarrow> bstream \<Rightarrow> u16 \<Rightarrow> u16
   \<Rightarrow> (int \<times> bstream \<times> aim_session) option" where
  "consumenonsnac hs s rx bs family subtype =
     consume_loop hs (modlist s) rx
       \<lparr>ms_family = family, ms_subtype = subtype, ms_flags = 0, ms_id = 0\<rparr> bs s"

subsection \<open>The negotiation channel\<close>

definition negchan_middle ::
  "client \<Rightarrow> (modkind \<Rightarrow> snachandler) \<Rightarrow> aim_session \<Rightarrow> aim_frame
   \<Rightarrow> (int \<times> bstream \<times> aim_session) option" where
  "negchan_middle cl hs s fr = do {
     let bs = fr_data fr;
     if aim_bstream_empty bs = 0 then Some (1, bs, s)
     else do {
       c \<leftarrow> conn_at s (fr_conn fr);
       if conn_type c = AIM_CONN_TYPE_AUTH then consumenonsnac hs s fr bs 0x0017 0x0003
       else do {
         (tlvlist, bs, s) \<leftarrow> aim_readtlvchain bs s;
         code \<leftarrow> (if aim_gettlv tlvlist 0x0009 1 \<noteq> None then aim_gettlv16 tlvlist 0x0009 1 else Some 0);
         (msg, s) \<leftarrow> (if aim_gettlv tlvlist 0x000b 1 \<noteq> None then aim_gettlv_str tlvlist 0x000b 1 s
                      else Some (None, s));
         call_user cl s (fr_conn fr) AIM_CB_FAM_SPECIAL AIM_CB_SPECIAL_CONNERR 1 (Some fr)
           [ArgInt (uint code), ArgStr (map_option c_string_of msg)] bs
       }
     }
   }"

subsection \<open>The dispatcher\<close>

text \<open>One frame that was not handled: what becomes of its \<^verbatim>\<open>handled\<close> mark and its stream.\<close>

definition last_chance ::
  "(modkind \<Rightarrow> snachandler) \<Rightarrow> aim_frame \<Rightarrow> bstream \<Rightarrow> aim_session \<Rightarrow> (u8 \<times> bstream \<times> aim_session) option" where
  "last_chance hs cur bs s = do {
     (_, bs, s) \<leftarrow> consumenonsnac hs s cur bs 0xffff 0xffff;
     Some (1, bs, s)
   }"

definition dispatch_frame ::
  "client \<Rightarrow> (modkind \<Rightarrow> snachandler) \<Rightarrow> aim_frame \<Rightarrow> aim_session \<Rightarrow> (u8 \<times> bstream \<times> aim_session) option" where
  "dispatch_frame cl hs cur s = do {
     c \<leftarrow> conn_at s (fr_conn cur);
     if fr_hdrtype cur = AIM_FRAMETYPE_OFT \<and> conn_type c \<noteq> AIM_CONN_TYPE_RENDEZVOUS
        \<or> fr_hdrtype cur = AIM_FRAMETYPE_FLAP \<and> conn_type c = AIM_CONN_TYPE_RENDEZVOUS
     then Some (1, fr_data cur, s)
     else if conn_type c = AIM_CONN_TYPE_RENDEZVOUS then Some (1, fr_data cur, s)
     else if conn_type c = AIM_CONN_TYPE_RENDEZVOUS_OUT then Some (1, fr_data cur, s)
     else if fr_channel cur = 0x01 then do {
       (r, bs, s) \<leftarrow> aim_callhandler_noparam cl s (fr_conn cur) AIM_CB_FAM_SPECIAL
                       AIM_CB_SPECIAL_FLAPVER (Some cur) (fr_data cur);
       Some (word_of_int r, bs, s)
     }
     else if fr_channel cur = 0x02 then do {
       (r, bs, s) \<leftarrow> consumesnac hs s cur;
       if (word_of_int r :: u8) \<noteq> 0 then Some (word_of_int r, bs, s) else last_chance hs cur bs s
     }
     else if fr_channel cur = 0x04 then do {
       (r, bs, s) \<leftarrow> negchan_middle cl hs s cur;
       Some (word_of_int r, bs, s)
     }
     else last_chance hs cur (fr_data cur) s
   }"

text \<open>Storing the mark and stream in the frame, unless it was released in the meantime.\<close>

definition store_frame :: "nat \<Rightarrow> u8 \<Rightarrow> bstream \<Rightarrow> aim_session \<Rightarrow> aim_session option" where
  "store_frame i h bs s =
     (if i \<in> fr_id ` set (queue_incoming s)
      then Some (s\<lparr>queue_incoming :=
        map (\<lambda>fr. if fr_id fr = i then fr\<lparr>fr_handled := h, fr_data := bs\<rparr> else fr) (queue_incoming s)\<rparr>)
      else None)"

text \<open>The frame after the one at address \<open>i\<close>.\<close>

definition next_frame :: "nat \<Rightarrow> aim_session \<Rightarrow> aim_frame option option" where
  "next_frame i s =
     (case dropWhile (\<lambda>fr. fr_id fr \<noteq> i) (queue_incoming s) of
        [] \<Rightarrow> None
      | fr # rest \<Rightarrow> Some (case rest of [] \<Rightarrow> None | nxt # _ \<Rightarrow> Some nxt))"

text \<open>Callbacks can make the queue grow while it is walked, so the walk may not end.\<close>

partial_function (option) rxdispatch_loop ::
  "client \<Rightarrow> (modkind \<Rightarrow> snachandler) \<Rightarrow> aim_frame option \<Rightarrow> aim_session \<Rightarrow> aim_session option" where
  "rxdispatch_loop cl hs cur s =
     (case cur of
        None \<Rightarrow> Some s
      | Some fr \<Rightarrow> do {
          s \<leftarrow> (if fr_handled fr \<noteq> 0 then Some s
                else do { (h, bs, s) \<leftarrow> dispatch_frame cl hs fr s; store_frame (fr_id fr) h bs s });
          nxt \<leftarrow> next_frame (fr_id fr) s;
          rxdispatch_loop cl hs nxt s
        })"

definition aim_rxdispatch ::
  "client \<Rightarrow> (modkind \<Rightarrow> snachandler) \<Rightarrow> aim_session \<Rightarrow> aim_session option" where
  "aim_rxdispatch cl hs s = do {
     s \<leftarrow> rxdispatch_loop cl hs (case queue_incoming s of [] \<Rightarrow> None | fr # _ \<Rightarrow> Some fr) s;
     Some (aim_purge_rxqueue s)
   }"

partial_function (option) parse_unknown_loop :: "bstream \<Rightarrow> bstream option" where
  "parse_unknown_loop bs =
     (if aim_bstream_empty bs = 0 then Some bs
      else do { (_, bs) \<leftarrow> aimbs_get8 bs; parse_unknown_loop bs })"

definition aim_parse_unknown :: "bstream \<Rightarrow> (int \<times> bstream) option" where
  "aim_parse_unknown bs = do { bs \<leftarrow> parse_unknown_loop bs; Some (1, bs) }"

section \<open>Routing\<close>

text \<open>A module takes a SNAC of its own family, or of any family.\<close>

definition takes :: "u16 \<Rightarrow> aim_module \<Rightarrow> bool" where
  "takes f m \<longleftrightarrow> mod_flags m AND AIM_MODFLAG_MULTIFAMILY \<noteq> 0 \<or> mod_family m = f"

lemma consume_loop_filter:
  "consume_loop hs ms rx snac bs s = consume_loop hs (filter (takes (ms_family snac)) ms) rx snac bs s"
  by (induction ms arbitrary: bs s)
    (auto simp: takes_def intro!: Option.bind_cong)

lemma consumesnac_loop:
  assumes "bs_ok (fr_data rx)" "10 \<le> room (fr_data rx)" "unread (fr_data rx) = snac_wire f t fl i @ rest"
  shows "consumesnac hs s rx = consume_loop hs (modlist s) rx
     \<lparr>ms_family = f, ms_subtype = t, ms_flags = fl, ms_id = i\<rparr> (adv 10 (fr_data rx)) s"
  using assms
  by (simp add: consumesnac_def Let_def empty_eq stream_simps snac_wire_def aimutil_put16_def
      aimutil_put32_def wire_simps)

definition misc_module :: aim_module where
  "misc_module = snd (misc_modfirst zero_module)"

definition own_module :: "u16 \<Rightarrow> aim_module option" where
  "own_module f = find (\<lambda>m. mod_family m = f) (butlast default_modules)"

lemma default_split: "default_modules = butlast default_modules @ [misc_module]"
  by (simp add: default_modules_def session_modules_def misc_module_def)

lemma butlast_modules:
  "m \<in> set (butlast default_modules) \<Longrightarrow> mod_flags m AND AIM_MODFLAG_MULTIFAMILY = 0"
  by (auto simp: default_modules_def session_modules_def modfirst_defs)

lemma distinct_families: "distinct (map mod_family (butlast default_modules))"
  using arg_cong [OF default_families, of butlast] by (simp add: map_butlast)

lemma filter_find:
  "distinct (map f ms) \<Longrightarrow> filter (\<lambda>m. f m = k) ms =
    (case find (\<lambda>m. f m = k) ms of None \<Rightarrow> [] | Some m \<Rightarrow> [m])"
proof (induction ms)
  case (Cons a ms)
  show ?case
  proof (cases "f a = k")
    case True
    with Cons.prems have "filter (\<lambda>m. f m = k) ms = []"
      by (auto simp: filter_empty_conv image_iff)
    with True show ?thesis by simp
  qed (use Cons in simp)
qed simp

lemma takes_default:
  "filter (takes f) default_modules =
     (case own_module f of None \<Rightarrow> [] | Some m \<Rightarrow> [m]) @ [misc_module]"
proof -
  have "filter (takes f) (butlast default_modules) = filter (\<lambda>m. mod_family m = f) (butlast default_modules)"
    by (rule filter_cong) (auto simp: takes_def butlast_modules)
  moreover have "takes f misc_module"
    by (simp add: takes_def misc_module_def misc_modfirst_def AIM_MODFLAG_MULTIFAMILY_def)
  ultimately show ?thesis
    by (subst default_split) (simp add: filter_find [OF distinct_families] own_module_def)
qed

lemma own_module_cases:
  "own_module f = None \<longleftrightarrow>
     f \<notin> {1, 2, 3, 4, 5, 6, 7, 8, 9, 0xa, 0xb, 0xc, 0xd, 0xe, 0x13, 0x15, 0x17}"
  "(\<exists>m. own_module f = Some m \<and> mod_snachandler m = None) \<longleftrightarrow> f = 6 \<or> f = 0xc"
  by (auto simp: own_module_def default_modules_def session_modules_def modfirst_defs)

lemma misc_module_facts [simp]:
  "mod_snachandler misc_module = Some HMisc" "mod_flags misc_module AND AIM_MODFLAG_MULTIFAMILY \<noteq> 0"
  "misc_module \<in> set default_modules"
  using default_split
  by (simp_all add: misc_module_def misc_modfirst_def AIM_MODFLAG_MULTIFAMILY_def)
    (metis in_set_conv_decomp)

lemma own_module_in: "own_module f = Some m \<Longrightarrow> m \<in> set default_modules"
  by (auto simp: own_module_def find_Some_iff intro!: in_set_butlastD [OF nth_mem])

text \<open>The outcome of asking one module.\<close>

definition ask ::
  "(modkind \<Rightarrow> snachandler) \<Rightarrow> aim_module \<Rightarrow> aim_frame \<Rightarrow> aim_modsnac \<Rightarrow> bstream \<Rightarrow> aim_session
   \<Rightarrow> (int \<times> bstream \<times> aim_session) option" where
  "ask hs m rx snac bs s = do { h \<leftarrow> mod_snachandler m; (r, bs, s) \<leftarrow> hs h m rx snac bs s;
     Some (if r \<noteq> 0 then 1 else 0, bs, s) }"

definition keeps_modules :: "(modkind \<Rightarrow> snachandler) \<Rightarrow> bool" where
  "keeps_modules hs \<longleftrightarrow>
     (\<forall>h m rx snac bs s r bs' s'. hs h m rx snac bs s = Some (r, bs', s') \<longrightarrow> modlist s' = modlist s)"

lemma consume_default:
  assumes "modlist s = default_modules" "keeps_modules hs"
  shows "consume_loop hs (modlist s) rx snac bs s =
    (case own_module (ms_family snac) of
       None \<Rightarrow> ask hs misc_module rx snac bs s
     | Some m \<Rightarrow> do { (r, bs', s') \<leftarrow> ask hs m rx snac bs s;
                     if r \<noteq> 0 then Some (1, bs', s') else ask hs misc_module rx snac bs' s' })"
proof -
  have misc: "consume_loop hs [misc_module] rx snac bs s = ask hs misc_module rx snac bs s"
    if "modlist s = default_modules" for bs s
    using that assms(2) by (auto simp: ask_def keeps_modules_def split: bind_splits)
  show ?thesis
  proof (cases "own_module (ms_family snac)")
    case None
    then show ?thesis
      using misc [OF assms(1)] assms(1) by (subst consume_loop_filter) (simp add: takes_default)
  next
    case (Some m)
    have "mod_family m = ms_family snac"
      using Some by (auto simp: own_module_def find_Some_iff)
    with Some show ?thesis
      using assms own_module_in [OF Some] misc
      by (subst consume_loop_filter, simp add: takes_default)
        (auto simp: ask_def keeps_modules_def intro!: Option.bind_cong split: bind_splits)
  qed
qed

text \<open>C25: in a session with the library's modules a SNAC is offered to the module of its family
  and, if that declines or there is none, to the catch-all module, which reads on where the first
  one stopped; families 6 and 12 (invite and translate) have a module without a handler, and a
  SNAC of theirs makes the dispatcher call a null pointer.\<close>

theorem snac_routing:
  assumes "bs_ok (fr_data rx)" "unread (fr_data rx) = snac_wire f t fl i @ rest"
    and "modlist s = default_modules" "keeps_modules hs"
  shows "consumesnac hs s rx =
    (let snac = \<lparr>ms_family = f, ms_subtype = t, ms_flags = fl, ms_id = i\<rparr>; bs = adv 10 (fr_data rx)
     in case own_module f of
          None \<Rightarrow> ask hs misc_module rx snac bs s
        | Some m \<Rightarrow> do { (r, bs', s') \<leftarrow> ask hs m rx snac bs s;
                        if r \<noteq> 0 then Some (1, bs', s') else ask hs misc_module rx snac bs' s' }) \<and>
    (own_module f = None \<longleftrightarrow>
       f \<notin> {1, 2, 3, 4, 5, 6, 7, 8, 9, 0xa, 0xb, 0xc, 0xd, 0xe, 0x13, 0x15, 0x17}) \<and>
    (f = 6 \<or> f = 0xc \<longrightarrow> consumesnac hs s rx = None)"
proof -
  have "10 \<le> room (fr_data rx)"
    using length_unread [OF assms(1)] assms(2) by (simp add: snac_wire_def)
  then have eq: "consumesnac hs s rx =
    (let snac = \<lparr>ms_family = f, ms_subtype = t, ms_flags = fl, ms_id = i\<rparr>; bs = adv 10 (fr_data rx)
     in case own_module f of
          None \<Rightarrow> ask hs misc_module rx snac bs s
        | Some m \<Rightarrow> do { (r, bs', s') \<leftarrow> ask hs m rx snac bs s;
                        if r \<noteq> 0 then Some (1, bs', s') else ask hs misc_module rx snac bs' s' })"
    using consumesnac_loop [OF assms(1) _ assms(2)] consume_default [OF assms(3,4)] by (simp add: Let_def)
  moreover have "consumesnac hs s rx = None" if "f = 6 \<or> f = 0xc"
    using that own_module_cases(2) [of f] eq by (auto simp: ask_def)
  ultimately show ?thesis using own_module_cases(1) [of f] by (simp only:) blast
qed

theorem snac_routing_witness:
  "consumesnac (\<lambda>k m rx snac bs s. Some (0, bs, s)) (session0 0\<lparr>modlist := default_modules\<rparr>)
     (demo_frame 2 [] None\<lparr>fr_data := aim_bstream_init [0, 6, 0, 1, 0, 0, 0, 0, 0, 0] 10\<rparr>) = None"
proof -
  let ?fr = "demo_frame 2 [] None\<lparr>fr_data := aim_bstream_init [0, 6, 0, 1, 0, 0, 0, 0, 0, 0] 10\<rparr>"
    and ?s = "session0 0\<lparr>modlist := default_modules\<rparr>"
  have "bs_ok (fr_data ?fr)" "unread (fr_data ?fr) = snac_wire 6 1 0 0 @ []"
    by (simp_all add: snac_wire_def aimutil_put16_def aimutil_put32_def)
  moreover have "modlist ?s = default_modules" "keeps_modules (\<lambda>k m rx snac bs s. Some (0, bs, s))"
    by (simp_all add: keeps_modules_def)
  ultimately show ?thesis
    by (rule snac_routing [THEN conjunct2, THEN conjunct2, THEN mp]) simp
qed

section \<open>Dispatching\<close>

lemma store_frame_at:
  assumes "distinct (map fr_id (ds @ fr # rest))" "queue_incoming s = ds @ fr # rest"
  shows "store_frame (fr_id fr) h bs s =
      Some (s\<lparr>queue_incoming := ds @ fr\<lparr>fr_handled := h, fr_data := bs\<rparr> # rest\<rparr>)"
proof -
  have "map (\<lambda>x. if fr_id x = fr_id fr then x\<lparr>fr_handled := h, fr_data := bs\<rparr> else x) xs = xs"
    if "fr_id fr \<notin> fr_id ` set xs" for xs :: "aim_frame list"
    using that by (intro map_idI) (auto simp: image_iff)
  with assms show ?thesis by (simp add: store_frame_def)
qed

lemma next_frame_at:
  assumes "distinct (map fr_id (ds @ fr # rest))" "queue_incoming s = ds @ fr # rest"
  shows "next_frame (fr_id fr) s = Some (case rest of [] \<Rightarrow> None | nxt # _ \<Rightarrow> Some nxt)"
proof -
  have "dropWhile (\<lambda>x. fr_id x \<noteq> fr_id fr) (ds @ fr # rest) = fr # rest"
    using assms(1) by (subst dropWhile_append2) (auto simp: image_iff)
  with assms(2) show ?thesis by (simp add: next_frame_def)
qed

end
