(* ===== verification/Util.thy ===== *)
theory Util
  imports Libc
begin

text \<open>
  String helpers of \<^verbatim>\<open>src/util.c\<close>: lists of names separated by a delimiter, and the
  comparison of screen names. A pointer into a string is the rest of the string from there on;
  a delimiter is never NUL.
\<close>

subsection \<open>Delimited lists\<close>

definition c_strchr :: "cstring \<Rightarrow> u8 \<Rightarrow> cstring option" where
  "c_strchr s dl = (case dropWhile (\<lambda>b. b \<noteq> dl) s of [] \<Rightarrow> None | rest \<Rightarrow> Some rest)"

lemma strchr_None: "c_strchr s dl = None \<longleftrightarrow> dl \<notin> set s"
  using dropWhile_eq_Nil_conv [of "\<lambda>b. b \<noteq> dl" s]
  unfolding c_strchr_def by (cases "dropWhile (\<lambda>b. b \<noteq> dl) s") (simp_all only: list.case, auto)

lemma strchr_Some:
  assumes "c_strchr s dl = Some nx"
  obtains pre rest where "s = pre @ dl # rest" "nx = dl # rest" "dl \<notin> set pre"
proof -
  from assms obtain b rest where d: "dropWhile (\<lambda>b. b \<noteq> dl) s = b # rest" "nx = b # rest"
    by (auto simp: c_strchr_def split: list.splits)
  from d(1) have "b = dl" using hd_dropWhile [of "\<lambda>b. b \<noteq> dl" s] by auto
  with d that [of "takeWhile (\<lambda>b. b \<noteq> dl) s" rest] show ?thesis
    using takeWhile_dropWhile_id [of "\<lambda>b. b \<noteq> dl" s] by (auto dest: set_takeWhileD)
qed

lemma strchr_shorter:
  assumes "c_strchr (tl nx) dl = Some z"
  shows "length z < length nx"
  using assms by (rule strchr_Some) (cases nx, auto)

text \<open>The walk \<^verbatim>\<open>while (curCount < index && nextp != NULL)\<close>.\<close>

function tok_loop :: "u8 \<Rightarrow> int \<Rightarrow> int \<Rightarrow> cstring \<Rightarrow> cstring option \<Rightarrow> int \<times> cstring \<times> cstring option" where
  "tok_loop dl index curCount lastp nextp =
     (case nextp of
        None \<Rightarrow> (curCount, lastp, nextp)
      | Some nx \<Rightarrow>
          if curCount < index
          then tok_loop dl index (curCount + 1) (tl nx) (c_strchr (tl nx) dl)
          else (curCount, lastp, nextp))"
  by pat_completeness auto
termination
  by (relation "measure (\<lambda>(dl, index, c, lastp, nextp). case nextp of None \<Rightarrow> 0 | Some nx \<Rightarrow> Suc (length nx))")
    (auto split: option.splits dest: strchr_shorter)

declare tok_loop.simps [simp del]

definition aimutil_tokslen :: "cstring \<Rightarrow> int \<Rightarrow> u8 \<Rightarrow> int" where
  "aimutil_tokslen toSearch index dl =
     (let (curCount, lastp, nextp) = tok_loop dl index 1 toSearch (c_strchr toSearch dl)
      in if curCount < index \<or> nextp = None then int (length toSearch) - (curCount - 1)
         else int (length toSearch - length (the nextp)) - (curCount - 1))"

function itemcnt_loop :: "u8 \<Rightarrow> int \<Rightarrow> cstring option \<Rightarrow> int" where
  "itemcnt_loop dl curCount nextp =
     (case nextp of
        None \<Rightarrow> curCount
      | Some nx \<Rightarrow> itemcnt_loop dl (curCount + 1) (c_strchr (tl nx) dl))"
  by pat_completeness auto
termination
  by (relation "measure (\<lambda>(dl, c, nextp). case nextp of None \<Rightarrow> 0 | Some nx \<Rightarrow> Suc (length nx))")
    (auto split: option.splits dest: strchr_shorter)

declare itemcnt_loop.simps [simp del]

definition aimutil_itemcnt :: "cstring \<Rightarrow> u8 \<Rightarrow> int" where
  "aimutil_itemcnt toSearch dl = itemcnt_loop dl 1 (c_strchr toSearch dl)"

text \<open>
  The item, in fresh memory; when memory runs out the code stores through the null pointer.
  For an item that does not exist the empty string is allocated twice.
\<close>

definition aimutil_itemidx :: "cstring \<Rightarrow> int \<Rightarrow> u8 \<Rightarrow> 'a os_scheme \<Rightarrow> (cstring \<times> 'a os_scheme) option" where
  "aimutil_itemidx toSearch index dl s =
     (let (curCount, lastp, nextp) = tok_loop dl index 0 toSearch (c_strchr toSearch dl)
      in if curCount < index
         then let (ok, s) = malloc s
              in if \<not> ok then None
                 else let (ok, s) = malloc s in if \<not> ok then None else Some ([], s)
         else let (ok, s) = malloc s
              in if \<not> ok then None
                 else case c_strchr lastp dl of
                        None \<Rightarrow> Some (lastp, s)
                      | Some nx \<Rightarrow> Some (take (length lastp - length nx) lastp, s))"

subsection \<open>Screen names\<close>

definition aim_snlen :: "cstring option \<Rightarrow> int" where
  "aim_snlen sn = (case sn of None \<Rightarrow> 0 | Some s \<Rightarrow> int (length (filter (\<lambda>b. b \<noteq> 32) s)))"

function (sequential) sncmp_loop :: "cstring \<Rightarrow> cstring \<Rightarrow> int" where
  "sncmp_loop [] [] = 0"
| "sncmp_loop [] (b # bs) = 1"
| "sncmp_loop (a # as) [] = 1"
| "sncmp_loop (a # as) (b # bs) =
     (if a = 32 \<or> b = 32
      then sncmp_loop (if a = 32 then as else a # as) (if b = 32 then bs else b # bs)
      else if c_toupper a \<noteq> c_toupper b then 1
      else sncmp_loop as bs)"
  by pat_completeness auto
termination
  by (relation "measure (\<lambda>(a, b). length a + length b)") auto

text \<open>Null pointers have length 0, but are followed when the lengths agree.\<close>

definition aim_sncmp :: "cstring option \<Rightarrow> cstring option \<Rightarrow> int option" where
  "aim_sncmp sn1 sn2 =
     (if aim_snlen sn1 \<noteq> aim_snlen sn2 then Some 1
      else do { a \<leftarrow> sn1; b \<leftarrow> sn2; Some (sncmp_loop a b) })"

subsection \<open>Splitting off a token\<close>

text \<open>The token (or a null pointer) and the rest of the string.\<close>

definition aim_strsep :: "cstring option \<Rightarrow> cstring \<Rightarrow> cstring option \<times> cstring option" where
  "aim_strsep pp delim =
     (case pp of
        None \<Rightarrow> (None, None)
      | Some p \<Rightarrow>
          (case dropWhile (\<lambda>b. b \<notin> set delim) p of
             [] \<Rightarrow> (Some p, None)
           | q # rest \<Rightarrow> (Some (takeWhile (\<lambda>b. b \<notin> set delim) p), Some rest)))"

definition aimutil_putstr :: "u8 list \<Rightarrow> int \<Rightarrow> (int \<times> u8 list) option" where
  "aimutil_putstr src len = (if 0 \<le> len \<and> nat len \<le> length src then Some (len, take (nat len) src) else None)"

section \<open>Lists\<close>

text \<open>The items of a delimited list.\<close>

fun split_on :: "u8 \<Rightarrow> cstring \<Rightarrow> cstring list" where
  "split_on dl [] = [[]]"
| "split_on dl (b # bs) =
     (if b = dl then [] # split_on dl bs
      else case split_on dl bs of [] \<Rightarrow> [[b]] | x # xs \<Rightarrow> (b # x) # xs)"

lemma split_on_nonempty [simp]: "split_on dl s \<noteq> []"
  by (induction s) (auto split: list.splits)

lemma split_on_item: "dl \<notin> set pre \<Longrightarrow> split_on dl (pre @ dl # rest) = pre # split_on dl rest"
  by (induction pre) auto

lemma split_on_last: "dl \<notin> set s \<Longrightarrow> split_on dl s = [s]"
  by (induction s) auto

lemma itemcnt_split:
  "itemcnt_loop dl n (c_strchr s dl) = n - 1 + int (length (split_on dl s))"
proof (induction "length s" arbitrary: s n rule: less_induct)
  case less
  show ?case
  proof (cases "c_strchr s dl")
    case None
    then show ?thesis by (simp add: itemcnt_loop.simps split_on_last strchr_None [THEN iffD1])
  next
    case (Some nx)
    then obtain pre rest where "s = pre @ dl # rest" "nx = dl # rest" "dl \<notin> set pre"
      by (rule strchr_Some)
    with less [of rest "n + 1"] Some show ?thesis
      by (simp add: itemcnt_loop.simps split_on_item)
  qed
qed

text \<open>Where the walk stops: after \<open>k\<close> further items, or in the last one.\<close>

lemma tok_loop_split:
  assumes "int k = max 0 (index - n)"
  shows "\<exists>m lastp. tok_loop dl index n s (c_strchr s dl) = (n + int m, lastp, c_strchr lastp dl) \<and>
    m = min k (length (split_on dl s) - 1) \<and>
    split_on dl lastp = drop m (split_on dl s) \<and>
    length s - length lastp = sum_list (map length (take m (split_on dl s))) + m \<and> length lastp \<le> length s"
  using assms
proof (induction k arbitrary: s n)
  case 0
  then have "\<not> n < index" by simp
  then show ?case by (cases "c_strchr s dl") (simp_all add: tok_loop.simps)
next
  case (Suc k)
  show ?case
  proof (cases "c_strchr s dl")
    case None
    then show ?thesis by (simp add: tok_loop.simps split_on_last strchr_None [THEN iffD1])
  next
    case (Some nx)
    then obtain pre rest where s: "s = pre @ dl # rest" "nx = dl # rest" "dl \<notin> set pre"
      by (rule strchr_Some)
    have "int k = max 0 (index - (n + 1))" using Suc.prems by (simp add: max_def split: if_splits)
  from Suc.IH [OF this, of rest] obtain m lastp where
      "tok_loop dl index (n + 1) rest (c_strchr rest dl) = (n + 1 + int m, lastp, c_strchr lastp dl)"
      "m = min k (length (split_on dl rest) - 1)" "split_on dl lastp = drop m (split_on dl rest)"
      "length rest - length lastp = sum_list (map length (take m (split_on dl rest))) + m"
      "length lastp \<le> length rest"
      by blast
    note m = this
    have "n < index" using Suc.prems by (simp add: max_def split: if_splits)
    with m(1) Some s have "tok_loop dl index n s (c_strchr s dl) = (n + int (Suc m), lastp, c_strchr lastp dl)"
      by (simp add: tok_loop.simps [of dl index n])
    moreover obtain q where "length (split_on dl rest) = Suc q" by (cases "split_on dl rest") auto
    with m(2) s have "Suc m = min (Suc k) (length (split_on dl s) - 1)"
      by (simp add: split_on_item)
    moreover have "split_on dl lastp = drop (Suc m) (split_on dl s)" using m(3) s by (simp add: split_on_item)
    moreover have "length s - length lastp = sum_list (map length (take (Suc m) (split_on dl s))) + Suc m"
      using m(4,5) s by (simp add: split_on_item)
    moreover have "length lastp \<le> length s" using m(5) s by simp
    ultimately show ?thesis by blast
  qed
qed

lemma split_on_hd:
  "hd (split_on dl s) = (case c_strchr s dl of None \<Rightarrow> s | Some nx \<Rightarrow> take (length s - length nx) s)"
proof (cases "c_strchr s dl")
  case (Some nx)
  then obtain pre rest where "s = pre @ dl # rest" "nx = dl # rest" "dl \<notin> set pre" by (rule strchr_Some)
  with Some show ?thesis by (simp add: split_on_item)
qed (simp add: split_on_last strchr_None [THEN iffD1])

lemma tokslen_split:
  assumes "0 < n"
  shows "aimutil_tokslen str n dl = int (sum_list (map length (take (nat n) (split_on dl str))))"
proof -
  let ?L = "split_on dl str"
  have "int (nat (n - 1)) = max 0 (n - 1)" using assms by simp
  from tok_loop_split [OF this, of dl str] obtain m lastp where
    t: "tok_loop dl n 1 str (c_strchr str dl) = (1 + int m, lastp, c_strchr lastp dl)"
    "m = min (nat (n - 1)) (length ?L - 1)" "split_on dl lastp = drop m ?L"
    "length str - length lastp = sum_list (map length (take m ?L)) + m" "length lastp \<le> length str"
    by auto
  show ?thesis
  proof (cases "c_strchr lastp dl")
    case None
    then have d: "drop m ?L = [lastp]" using t(3) by (simp add: split_on_last strchr_None [THEN iffD1])
    then have "length (drop m ?L) = 1" by simp
    then have "length ?L = Suc m" by (simp only: length_drop)
    with t(2) assms have "take (nat n) ?L = ?L" by (simp add: min_def split: if_splits)
    moreover have "?L = take m ?L @ [lastp]" using append_take_drop_id [of m ?L] d by simp
    from arg_cong [OF this, of "\<lambda>l. sum_list (map length l)"]
    have "sum_list (map length ?L) = sum_list (map length (take m ?L)) + length lastp" by simp
    ultimately show ?thesis
      using t None by (simp add: aimutil_tokslen_def Let_def)
  next
    case (Some nx)
    then obtain pre rest where l: "lastp = pre @ dl # rest" "nx = dl # rest" "dl \<notin> set pre" by (rule strchr_Some)
    then have d: "drop m ?L = pre # split_on dl rest" using t(3) by (simp add: split_on_item)
    have "Suc m < length ?L"
    proof -
      have "length (drop m ?L) = Suc (length (split_on dl rest))" "0 < length (split_on dl rest)"
        using d by simp_all
      then show ?thesis by (simp only: length_drop)
    qed
    then have n: "1 + int m = n" "nat n = Suc m" using t(2) assms by (auto simp: min_def split: if_splits)
    have "take (Suc m) ?L = take m ?L @ [pre]"
      using d \<open>Suc m < length ?L\<close> by (metis Suc_lessD hd_drop_conv_nth list.sel(1) take_Suc_conv_app_nth)
    then have "sum_list (map length (take (nat n) ?L)) = length str - length lastp - m + length pre"
      using t(4) n(2) by simp
    moreover have "aimutil_tokslen str n dl = int (length str - length nx) - int m"
      unfolding aimutil_tokslen_def t(1) using Some n(1) by simp
    moreover have "length lastp = length pre + length nx" "m \<le> length str - length lastp" using l t(4) by simp_all
    ultimately show ?thesis using t(5) by simp
  qed
qed

lemma itemcnt_items: "aimutil_itemcnt str dl = int (length (split_on dl str))"
  by (simp add: aimutil_itemcnt_def itemcnt_split)

lemma itemidx_item:
  assumes "mem_ok s" "0 \<le> i"
  shows "aimutil_itemidx str i dl s =
      Some (if nat i < length (split_on dl str) then split_on dl str ! nat i else [], s)"
proof -
  have "int (nat i) = max 0 (i - 0)" using assms(2) by simp
  from tok_loop_split [OF this, of dl str] obtain m lastp where
    t: "tok_loop dl i 0 str (c_strchr str dl) = (int m, lastp, c_strchr lastp dl)"
    "m = min (nat i) (length (split_on dl str) - 1)" "split_on dl lastp = drop m (split_on dl str)" by auto
  have pos: "0 < length (split_on dl str)" by simp
  show ?thesis
  proof (cases "nat i < length (split_on dl str)")
    case True
    with t(2) assms(2) have "m = nat i" "int m = i" by auto
    with True t split_on_hd [of dl lastp] assms(1) show ?thesis
      by (auto simp: aimutil_itemidx_def Let_def hd_drop_conv_nth split: option.splits)
  next
    case False
    with t(2) pos assms(2) have "int m < i" by (simp add: min_def, linarith)
    with False t assms(1) show ?thesis by (simp add: aimutil_itemidx_def Let_def)
  qed
qed

text \<open>The list helpers agree with splitting the string at the delimiter: the count is the
  number of items, an index gives that item or, past the end, the empty string, and the token
  length of the first \<open>n\<close> items is the sum of their lengths.\<close>

theorem item_functions_split:
  assumes "mem_ok s" "0 \<le> i" "0 < n"
  shows "aimutil_itemcnt str dl = int (length (split_on dl str)) \<and>
    aimutil_itemidx str i dl s =
      Some (if nat i < length (split_on dl str) then split_on dl str ! nat i else [], s) \<and>
    aimutil_tokslen str n dl = int (sum_list (map length (take (nat n) (split_on dl str))))"
  using itemcnt_items [of str dl] itemidx_item [OF assms(1,2), of str dl] tokslen_split [OF assms(3), of str dl]
  by blast

theorem item_functions_split_witness:
  "aimutil_itemcnt [97, 38, 98, 99, 38] 38 = 3 \<and>
   aimutil_itemidx [97, 38, 98, 99, 38] 1 38 (undefined\<lparr>os_allocs := []\<rparr> :: os) =
     Some ([98, 99], undefined\<lparr>os_allocs := []\<rparr>) \<and>
   aimutil_tokslen [97, 38, 98, 99, 38] 99 38 = 3"
  using item_functions_split [of "undefined\<lparr>os_allocs := []\<rparr> :: os" 1 99 "[97, 38, 98, 99, 38]" 38]
  by (simp add: mem_ok_def)

section \<open>Comparing screen names\<close>

definition sn_norm :: "cstring \<Rightarrow> cstring" where
  "sn_norm s = map c_toupper (filter (\<lambda>b. b \<noteq> 32) s)"

definition trailing :: "cstring \<Rightarrow> nat" where
  "trailing s = length (takeWhile (\<lambda>b. b = 32) (rev s))"

lemma trailing_Cons:
  "trailing (c # cs) = (if c = 32 \<and> filter (\<lambda>b. b \<noteq> 32) cs = [] then Suc (trailing cs) else trailing cs)"
  by (auto simp: trailing_def takeWhile_append filter_empty_conv takeWhile_eq_all_conv [THEN iffD2])

lemma trailing_Nil [simp]: "trailing [] = 0"
  by (simp add: trailing_def)

lemma sncmp_loop_norm:
  assumes "length (filter (\<lambda>b. b \<noteq> 32) a) = length (filter (\<lambda>b. b \<noteq> 32) b)"
  shows "sncmp_loop a b = (if sn_norm a = sn_norm b \<and> trailing a = trailing b then 0 else 1)"
  using assms
proof (induction a b rule: sncmp_loop.induct)
  case (4 a as b bs)
  show ?case
  proof (cases "a = 32 \<or> b = 32")
    case True
    with 4 show ?thesis by (cases "a = 32"; cases "b = 32") (auto simp: sn_norm_def trailing_Cons)
  next
    case False
    with 4 show ?thesis by (simp add: sn_norm_def trailing_Cons)
  qed
qed (auto simp: sn_norm_def trailing_Cons split: if_splits)

text \<open>C27: two screen names compare equal exactly when they agree up to case and spaces and end in
  the same number of spaces; a null name differs from any name with a character, and comparing it
  with a blank one is undefined.\<close>

theorem sncmp_spec:
  "aim_sncmp (Some a) (Some b) =
     Some (if sn_norm a = sn_norm b \<and> trailing a = trailing b then 0 else 1) \<and>
   aim_sncmp None (Some a) = (if sn_norm a = [] then None else Some 1)"
proof -
  have "sn_norm a \<noteq> sn_norm b" if "length (filter (\<lambda>b. b \<noteq> 32) a) \<noteq> length (filter (\<lambda>b. b \<noteq> 32) b)"
    using that by (metis sn_norm_def length_map)
  then show ?thesis
    using sncmp_loop_norm [of a b] by (auto simp: aim_sncmp_def aim_snlen_def sn_norm_def)
qed

end
