(* ===== verification/Requests.thy ===== *)
theory Requests
  imports Rxhandlers Util
begin

text \<open>
  Sending SNACs. Every request of the library allocates a frame of the size it needs, obtains
  an id by remembering the request, writes the SNAC header and its arguments, and enqueues the
  frame; \<open>snac_frame\<close> is that sequence, with the number of bytes allocated, the way the id is
  obtained and what is written after the header as arguments. The generic requests are those
  of \<^verbatim>\<open>src/misc.c\<close>. Lengths of strings are below \<open>2 ^ 31\<close>.
\<close>

type_synonym snac_body = "bstream \<Rightarrow> aim_session \<Rightarrow> (bstream \<times> aim_session) option"

definition snac_frame ::
  "client \<Rightarrow> aim_session \<Rightarrow> nat option \<Rightarrow> int \<Rightarrow> (aim_session \<Rightarrow> (u32 \<times> aim_session) option)
   \<Rightarrow> u16 \<Rightarrow> u16 \<Rightarrow> snac_body \<Rightarrow> (int \<times> aim_session) option" where
  "snac_frame cl s conn len newid family subtype body = do {
     (fr, s) \<leftarrow> aim_tx_new s conn AIM_FRAMETYPE_FLAP 0x02 len;
     case fr of
       None \<Rightarrow> Some (- ENOMEM, s)
     | Some fr \<Rightarrow> do {
         (snacid, s) \<leftarrow> newid s;
         (_, bs) \<leftarrow> aim_putsnac (fr_data fr) family subtype 0x0000 snacid;
         (bs, s) \<leftarrow> body bs s;
         (_, s) \<leftarrow> aim_tx_enqueue cl s (fr\<lparr>fr_data := bs\<rparr>);
         Some (0, s)
       }
   }"

text \<open>The id of a request that is remembered, with the data kept for the reply.\<close>

definition cached_id :: "u16 \<Rightarrow> u16 \<Rightarrow> snac_data option \<Rightarrow> aim_session \<Rightarrow> (u32 \<times> aim_session) option" where
  "cached_id family subtype data s = Some (aim_cachesnac s family subtype 0x0000 data)"

definition no_body :: snac_body where
  "no_body bs s = Some (bs, s)"

text \<open>A string with its length in one byte before it, and a string alone.\<close>

definition put_lstr :: "cstring \<Rightarrow> bstream \<Rightarrow> bstream option" where
  "put_lstr str bs = do {
     (_, bs) \<leftarrow> aimbs_put8 bs (of_nat (length str));
     (_, bs) \<leftarrow> aimbs_putraw bs str (int (length str));
     Some bs
   }"

definition add_str :: "tlvlist \<Rightarrow> u16 \<Rightarrow> cstring \<Rightarrow> aim_session \<Rightarrow> (tlvlist \<times> aim_session) option" where
  "add_str ts t str s = do {
     (_, ts, s) \<leftarrow> aim_addtlvtochain_raw ts t (of_nat (length str)) str s;
     Some (ts, s)
   }"

text \<open>The string of a pointer that may be null, which adds nothing.\<close>

definition add_opt ::  "tlvlist \<Rightarrow> u16 \<Rightarrow> cstring option \<Rightarrow> aim_session \<Rightarrow> (tlvlist \<times> aim_session) option" where
  "add_opt ts t str s = (case str of None \<Rightarrow> Some (ts, s) | Some str \<Rightarrow> add_str ts t str s)"

definition add16 :: "tlvlist \<Rightarrow> u16 \<Rightarrow> u16 \<Rightarrow> aim_session \<Rightarrow> (tlvlist \<times> aim_session) option" where
  "add16 ts t v s = do { (_, ts, s) \<leftarrow> aim_addtlvtochain16 ts t v s; Some (ts, s) }"

definition put_chain :: "tlvlist \<Rightarrow> snac_body" where
  "put_chain ts bs s = do { (_, bs) \<leftarrow> aim_writetlvchain bs ts; Some (bs, s) }"

subsection \<open>Generic requests\<close>

definition aim_genericreq_n :: "client \<Rightarrow> aim_session \<Rightarrow> nat option \<Rightarrow> u16 \<Rightarrow> u16 \<Rightarrow> (int \<times> aim_session) option" where
  "aim_genericreq_n cl s conn family subtype =
     snac_frame cl s conn 10 (\<lambda>s. Some (0, s)) family subtype no_body"

definition aim_genericreq_n_snacid ::
  "client \<Rightarrow> aim_session \<Rightarrow> nat option \<Rightarrow> u16 \<Rightarrow> u16 \<Rightarrow> (int \<times> aim_session) option" where
  "aim_genericreq_n_snacid cl s conn family subtype =
     snac_frame cl s conn 10 (cached_id family subtype None) family subtype no_body"

definition aim_genericreq_l ::
  "client \<Rightarrow> aim_session \<Rightarrow> nat option \<Rightarrow> u16 \<Rightarrow> u16 \<Rightarrow> u32 option \<Rightarrow> (int \<times> aim_session) option" where
  "aim_genericreq_l cl s conn family subtype longdata =
     (case longdata of
        None \<Rightarrow> aim_genericreq_n cl s conn family subtype
      | Some l \<Rightarrow> snac_frame cl s conn (10 + 4) (cached_id family subtype None) family subtype
          (\<lambda>bs s. do { (_, bs) \<leftarrow> aimbs_put32 bs l; Some (bs, s) }))"

definition aim_genericreq_s ::
  "client \<Rightarrow> aim_session \<Rightarrow> nat option \<Rightarrow> u16 \<Rightarrow> u16 \<Rightarrow> u16 option \<Rightarrow> (int \<times> aim_session) option" where
  "aim_genericreq_s cl s conn family subtype shortdata =
     (case shortdata of
        None \<Rightarrow> aim_genericreq_n cl s conn family subtype
      | Some v \<Rightarrow> snac_frame cl s conn (10 + 2) (cached_id family subtype None) family subtype
          (\<lambda>bs s. do { (_, bs) \<leftarrow> aimbs_put16 bs v; Some (bs, s) }))"

section \<open>What is queued\<close>

text \<open>A connection on which SNACs are queued, and the effect of queueing one.\<close>

definition can_queue :: "aim_session \<Rightarrow> nat \<Rightarrow> bool" where
  "can_queue s a \<longleftrightarrow> mem_ok s \<and> snacs_ok s \<and>
     (\<exists>c. conns s a = Some c \<and> conn_type c \<noteq> AIM_CONN_TYPE_RENDEZVOUS \<and>
        conn_type c \<noteq> AIM_CONN_TYPE_RENDEZVOUS_OUT \<and> (conn_inprogress c \<or> tx_enqueue s = TxQueued))"

definition queued_snac ::
  "aim_session \<Rightarrow> nat \<Rightarrow> u16 \<Rightarrow> u16 \<Rightarrow> u32 \<Rightarrow> u8 list \<Rightarrow> aim_session \<Rightarrow> bool" where
  "queued_snac s a f t i payload s' \<longleftrightarrow>
     (\<exists>fr sq. queue_outgoing s' = queue_outgoing s @ [fr] \<and> fr_conn fr = Some a \<and> fr_handled fr = 0 \<and>
        fr_hdr fr = Flap 2 sq \<and> bs_ok (fr_data fr) \<and> written (fr_data fr) = snac_wire f t 0 i @ payload) \<and>
     can_queue s' a"

text \<open>What obtaining an id and writing the arguments must leave alone.\<close>

definition same_queue :: "aim_session \<Rightarrow> aim_session \<Rightarrow> bool" where
  "same_queue s s' \<longleftrightarrow> conns s' = conns s \<and> tx_enqueue s' = tx_enqueue s \<and>
     queue_outgoing s' = queue_outgoing s \<and> (mem_ok s \<and> snacs_ok s \<longrightarrow> mem_ok s' \<and> snacs_ok s')"

lemma same_queue_refl [simp]: "same_queue s s"
  by (simp add: same_queue_def)

lemma same_queue_trans: "same_queue s t \<Longrightarrow> same_queue t u \<Longrightarrow> same_queue s u"
  by (simp add: same_queue_def)

lemma same_queue_upd [simp]:
  "same_queue s (t\<lparr>next_addr := x\<rparr>) = same_queue s t" "same_queue s (t\<lparr>snacid_next := z\<rparr>) = same_queue s t"
  by (simp_all add: same_queue_def snacs_ok_def)

text \<open>Writing the arguments in the space left for them.\<close>

definition writes :: "snac_body \<Rightarrow> u8 list \<Rightarrow> aim_session \<Rightarrow> bool" where
  "writes body payload s \<longleftrightarrow>
     (\<forall>bs. bs_ok bs \<and> length payload \<le> room bs \<longrightarrow> body bs s = Some (emit payload bs, s))"

lemma snac_frame_queued:
  assumes "can_queue s a" "10 + int (length payload) \<le> len" "len < 65536"
    "newid (s\<lparr>next_addr := Suc (next_addr s)\<rparr>) = Some (i, s2)" "same_queue s s2" "writes body payload s2"
  shows "\<exists>c fr. conns s a = Some c \<and>
    snac_frame cl s (Some a) len newid f t body =
      Some (0, put_conn a (c\<lparr>conn_seqnum := conn_seqnum c + 1\<rparr>) s2\<lparr>queue_outgoing := queue_outgoing s @ [fr]\<rparr>) \<and>
    fr_conn fr = Some a \<and> fr_handled fr = 0 \<and> fr_hdr fr = Flap 2 (conn_seqnum c + 1) \<and>
    bs_ok (fr_data fr) \<and> written (fr_data fr) = snac_wire f t 0 i @ payload"
proof -
  from assms(1) obtain c where c: "mem_ok s" "conns s a = Some c" "conn_type c \<noteq> AIM_CONN_TYPE_RENDEZVOUS"
    "conn_type c \<noteq> AIM_CONN_TYPE_RENDEZVOUS_OUT" "conn_inprogress c \<or> tx_enqueue s = TxQueued"
    by (auto simp: can_queue_def)
  let ?s1 = "s\<lparr>next_addr := Suc (next_addr s)\<rparr>"
  define d where "d = aim_bstream_init (fresh ?s1 (nat len)) len"
  let ?fr = "\<lparr>fr_id = next_addr s, fr_hdr = Flap 0x02 0, fr_data = d, fr_handled = 0, fr_nofree = 0,
              fr_conn = Some a\<rparr>"
  have d: "bs_ok d" "10 + length payload \<le> room d" "written d = []"
    using assms(2,3) by (simp_all add: d_def to_u16_def)
  have "aim_tx_new s (Some a) AIM_FRAMETYPE_FLAP 0x02 len = Some (Some ?fr, ?s1)"
    using c assms(2) by (simp add: aim_tx_new_def new_addr_def d_def Let_def)
  moreover have "aim_putsnac d f t 0 i = Some (10, emit (snac_wire f t 0 i) d)"
    using d by (simp add: putsnac_ok)
  moreover have "body (emit (snac_wire f t 0 i) d) s2 = Some (emit payload (emit (snac_wire f t 0 i) d), s2)"
    using assms(6) d by (simp add: writes_def snac_wire_def)
  moreover let ?fr' = "?fr\<lparr>fr_data := emit payload (emit (snac_wire f t 0 i) d)\<rparr>"
  have "aim_tx_enqueue cl s2 ?fr' = Some (0, put_conn a (c\<lparr>conn_seqnum := conn_seqnum c + 1\<rparr>) s2
      \<lparr>queue_outgoing := queue_outgoing s @ [?fr'\<lparr>fr_hdr := Flap 0x02 (conn_seqnum c + 1)\<rparr>]\<rparr>)"
    using c assms(5)
    by (auto simp: aim_tx_enqueue_def aim_tx_enqueue__queuebased_def stamp_frame_def same_queue_def
        aim_get_next_txseqnum_def Let_def)
  ultimately show ?thesis
    using c(2) assms(4) d
    by (intro exI [of _ c] exI [of _ "?fr'\<lparr>fr_hdr := Flap 0x02 (conn_seqnum c + 1)\<rparr>"])
      (simp add: snac_frame_def snac_wire_def)
qed

lemma can_queue_frame:
  "can_queue s a \<Longrightarrow> same_queue s s2 \<Longrightarrow> conns s a = Some c \<Longrightarrow>
   can_queue (put_conn a (c\<lparr>conn_seqnum := n\<rparr>) s2\<lparr>queue_outgoing := q\<rparr>) a"
  by (auto simp: can_queue_def same_queue_def conn_inprogress_def snacs_ok_def)

lemma snac_frame_effect:
  assumes "can_queue s a" "10 + int (length payload) \<le> len" "len < 65536"
    "newid (s\<lparr>next_addr := Suc (next_addr s)\<rparr>) = Some (i, s2)" "same_queue s s2" "writes body payload s2"
  shows "\<exists>s'. snac_frame cl s (Some a) len newid f t body = Some (0, s') \<and>
    queued_snac s a f t i payload s' \<and> snac_hash s' = snac_hash s2 \<and> snacid_next s' = snacid_next s2"
proof -
  obtain c fr where fr: "conns s a = Some c" "snac_frame cl s (Some a) len newid f t body =
      Some (0, put_conn a (c\<lparr>conn_seqnum := conn_seqnum c + 1\<rparr>) s2\<lparr>queue_outgoing := queue_outgoing s @ [fr]\<rparr>)"
    "fr_conn fr = Some a" "fr_handled fr = 0" "fr_hdr fr = Flap 2 (conn_seqnum c + 1)"
    "bs_ok (fr_data fr)" "written (fr_data fr) = snac_wire f t 0 i @ payload"
    using snac_frame_queued [of s a payload len newid i s2, OF assms] by blast
  with can_queue_frame [OF assms(1,5) fr(1)] show ?thesis
    by (intro exI [of _ "put_conn a (c\<lparr>conn_seqnum := conn_seqnum c + 1\<rparr>) s2
        \<lparr>queue_outgoing := queue_outgoing s @ [fr]\<rparr>"]) (auto simp: queued_snac_def)
qed

text \<open>Building a chain, as long as memory lasts.\<close>

lemma add_chain_ok [libc_simps]:
  "mem_ok s \<Longrightarrow> length str < 65536 \<Longrightarrow> add_str ts t str s = Some (ts @ [mk_tlv t str], s)"
  "mem_ok s \<Longrightarrow> add16 ts t v s = Some (ts @ [mk_tlv t (aimutil_put16 v)], s)"
  "mem_ok s \<Longrightarrow> \<forall>x \<in> set_option os. length x < 65536 \<Longrightarrow>
     add_opt ts t os s = Some (ts @ map (mk_tlv t) (case os of None \<Rightarrow> [] | Some x \<Rightarrow> [x]), s)"
  by (cases os; simp add: add_str_def add16_def add_opt_def libc_simps)+

lemma put_chain_ok [stream_simps]:
  "bs_ok bs \<Longrightarrow> chain_ok ts \<Longrightarrow> length (chain_wire ts) \<le> room bs \<Longrightarrow>
   put_chain ts bs s = Some (emit (chain_wire ts) bs, s)"
  by (simp add: put_chain_def write_chain)

text \<open>A request whose arguments are \<open>payload\<close>, with and without being remembered.\<close>

definition remembered :: "aim_session \<Rightarrow> u16 \<Rightarrow> u16 \<Rightarrow> snac_data option \<Rightarrow> aim_session \<Rightarrow> bool" where
  "remembered s f t d s' \<longleftrightarrow>
     fst (aim_remsnac s' (snacid_next s)) =
       Some \<lparr>snac_id = snacid_next s, snac_family = f, snac_type = t, snac_flags = 0, snac_data = d,
             snac_issuetime = os_now s\<rparr> \<and> snacid_next s' = snacid_next s + 1 \<and> snacs_ok s'"

lemma remembered_frame:
  "snac_hash s' = snac_hash s2 \<Longrightarrow> snacid_next s' = snacid_next s2 \<Longrightarrow>
   remembered s f t d s' = remembered s f t d s2"
  by (simp add: remembered_def remsnac_sel snacs_ok_def)

lemma cached_id_remembered:
  assumes "mem_ok s" "snacs_ok s"
  shows "\<exists>s2. cached_id f t d (s\<lparr>next_addr := x\<rparr>) = Some (snacid_next s, s2) \<and> same_queue s s2 \<and>
    remembered s f t d s2"
proof -
  let ?s = "s\<lparr>next_addr := x, snacid_next := snacid_next s + 1\<rparr>"
    and ?x = "\<lparr>snac_id = snacid_next s, snac_family = f, snac_type = t, snac_flags = 0, snac_data = d,
              snac_issuetime = 0\<rparr>"
  let ?s2 = "snd (aim_newsnac ?s ?x)"
  have ok: "snacs_ok ?s" "mem_ok ?s" using assms by (simp_all add: snacs_ok_def)
  have c: "cached_id f t d (s\<lparr>next_addr := x\<rparr>) = Some (snacid_next s, ?s2)"
    using assms by (simp add: cached_id_def cachesnac_ok newsnac_ok)
  have "fst (aim_remsnac ?s2 (snacid_next s)) = Some (?x\<lparr>snac_issuetime := os_now ?s\<rparr>)"
    using snacs.grab_put [of ?s ?x "snacid_next s"] ok by simp
  then have "remembered s f t d ?s2"
    using snacs_ok_newsnac [OF ok(1), of ?x] ok by (simp add: remembered_def newsnac_ok)
  with c ok show ?thesis using snacs_ok_newsnac [OF ok(1), of ?x]
    by (intro exI [of _ ?s2]) (auto simp: newsnac_ok same_queue_def)
qed

lemma cached_request:
  assumes "can_queue s a" "10 + int (length payload) \<le> len" "len < 65536"
    "\<And>t. same_queue s t \<Longrightarrow> writes body payload t"
  shows "\<exists>s'. snac_frame cl s (Some a) len (cached_id f t d) f' t' body = Some (0, s') \<and>
    queued_snac s a f' t' (snacid_next s) payload s' \<and> remembered s f t d s'"
proof -
  from assms(1) have "mem_ok s" "snacs_ok s" by (simp_all add: can_queue_def)
  from cached_id_remembered [OF this] obtain s2 where s2:
    "cached_id f t d (s\<lparr>next_addr := Suc (next_addr s)\<rparr>) = Some (snacid_next s, s2)" "same_queue s s2"
    "remembered s f t d s2" by blast
  then obtain s' where "snac_frame cl s (Some a) len (cached_id f t d) f' t' body = Some (0, s')"
    "queued_snac s a f' t' (snacid_next s) payload s'" "snac_hash s' = snac_hash s2" "snacid_next s' = snacid_next s2"
    using snac_frame_effect [of s a payload len "cached_id f t d", OF assms(1-3) s2(1,2) assms(4) [OF s2(2)]]
    by blast
  with s2(3) show ?thesis by (auto cong: remembered_frame)
qed

lemma plain_request:
  assumes "can_queue s a"
  shows "\<exists>s'. aim_genericreq_n cl s (Some a) f t = Some (0, s') \<and> queued_snac s a f t 0 [] s'"
proof -
  have "writes no_body [] t" for t by (simp add: writes_def no_body_def)
  with snac_frame_effect [OF assms, of "[]" 10 "\<lambda>s. Some (0, s)" 0 "s\<lparr>next_addr := Suc (next_addr s)\<rparr>" no_body cl f t]
  show ?thesis by (auto simp: aim_genericreq_n_def)
qed

text \<open>The connection of the demonstration session takes requests.\<close>

lemma can_queue_demo [simp]: "can_queue demo_session 0" "snacid_next demo_session = 0" "snacs_ok demo_session"
  by (simp_all add: can_queue_def demo_session_def snacs_ok_def demo_conn_def AIM_CONN_TYPE_BOS_def
      AIM_CONN_TYPE_RENDEZVOUS_def AIM_CONN_TYPE_RENDEZVOUS_OUT_def)

end
