(* ===== verification/Userinfo.thy ===== *)
theory Userinfo
  imports Requests
begin

text \<open>
  User information and capabilities: \<^verbatim>\<open>src/info.c\<close> and the two functions of
  \<^verbatim>\<open>src/tlv.c\<close> that write them into chains. \<^verbatim>\<open>ICQ_OSCAR_SUPPORT\<close> is defined nowhere in
  the repository, so the lines under it are not compiled. A user information structure is
  always there; the screen name is the buffer of 33 bytes, and reading it as a string is
  undefined when it has no NUL.
\<close>

subsection \<open>Fields\<close>

definition AIM_USERINFO_PRESENT_FLAGS :: u32 where "AIM_USERINFO_PRESENT_FLAGS = 0x00000001"
definition AIM_USERINFO_PRESENT_MEMBERSINCE :: u32 where "AIM_USERINFO_PRESENT_MEMBERSINCE = 0x00000002"
definition AIM_USERINFO_PRESENT_ONLINESINCE :: u32 where "AIM_USERINFO_PRESENT_ONLINESINCE = 0x00000004"
definition AIM_USERINFO_PRESENT_IDLE :: u32 where "AIM_USERINFO_PRESENT_IDLE = 0x00000008"
definition AIM_USERINFO_PRESENT_ICQEXTSTATUS :: u32 where "AIM_USERINFO_PRESENT_ICQEXTSTATUS = 0x00000010"
definition AIM_USERINFO_PRESENT_ICQIPADDR :: u32 where "AIM_USERINFO_PRESENT_ICQIPADDR = 0x00000020"
definition AIM_USERINFO_PRESENT_ICQDATA :: u32 where "AIM_USERINFO_PRESENT_ICQDATA = 0x00000040"
definition AIM_USERINFO_PRESENT_CAPABILITIES :: u32 where "AIM_USERINFO_PRESENT_CAPABILITIES = 0x00000080"
definition AIM_USERINFO_PRESENT_SESSIONLEN :: u32 where "AIM_USERINFO_PRESENT_SESSIONLEN = 0x00000100"
definition AIM_USERINFO_PRESENT_CREATETIME :: u32 where "AIM_USERINFO_PRESENT_CREATETIME = 0x00000200"

definition AIM_FLAG_AOL :: u16 where "AIM_FLAG_AOL = 0x0004"

lemmas present_defs =
  AIM_USERINFO_PRESENT_FLAGS_def AIM_USERINFO_PRESENT_MEMBERSINCE_def
  AIM_USERINFO_PRESENT_ONLINESINCE_def AIM_USERINFO_PRESENT_IDLE_def
  AIM_USERINFO_PRESENT_ICQEXTSTATUS_def AIM_USERINFO_PRESENT_ICQIPADDR_def
  AIM_USERINFO_PRESENT_ICQDATA_def AIM_USERINFO_PRESENT_CAPABILITIES_def
  AIM_USERINFO_PRESENT_SESSIONLEN_def AIM_USERINFO_PRESENT_CREATETIME_def

definition zero_userinfo :: aim_userinfo where
  "zero_userinfo = \<lparr>ui_sn = replicate 33 0, ui_warnlevel = 0, ui_idletime = 0, ui_flags = 0,
     ui_createtime = 0, ui_membersince = 0, ui_onlinesince = 0, ui_sessionlen = 0,
     ui_capabilities = 0, ui_icqstatus = 0, ui_icqipaddr = 0, ui_icqcrap = replicate 0x25 0,
     ui_present = 0\<rparr>"

definition aim_userinfo_sn :: "aim_userinfo option \<Rightarrow> u8 list option" where
  "aim_userinfo_sn ui = (case ui of None \<Rightarrow> None | Some ui \<Rightarrow> Some (ui_sn ui))"

definition aim_userinfo_flags :: "aim_userinfo option \<Rightarrow> u16" where
  "aim_userinfo_flags ui = (case ui of None \<Rightarrow> 0 | Some ui \<Rightarrow> ui_flags ui)"

definition aim_userinfo_idle :: "aim_userinfo option \<Rightarrow> u16" where
  "aim_userinfo_idle ui = (case ui of None \<Rightarrow> 0 | Some ui \<Rightarrow> ui_idletime ui)"

text \<open>A \<^verbatim>\<open>float\<close>, but the division is one of integers.\<close>

definition aim_userinfo_warnlevel :: "aim_userinfo option \<Rightarrow> int" where
  "aim_userinfo_warnlevel ui = (case ui of None \<Rightarrow> 0 | Some ui \<Rightarrow> uint (ui_warnlevel ui) div 10)"

definition aim_userinfo_createtime :: "aim_userinfo option \<Rightarrow> u32" where
  "aim_userinfo_createtime ui = (case ui of None \<Rightarrow> 0 | Some ui \<Rightarrow> ui_createtime ui)"

definition aim_userinfo_membersince :: "aim_userinfo option \<Rightarrow> u32" where
  "aim_userinfo_membersince ui = (case ui of None \<Rightarrow> 0 | Some ui \<Rightarrow> ui_membersince ui)"

definition aim_userinfo_onlinesince :: "aim_userinfo option \<Rightarrow> u32" where
  "aim_userinfo_onlinesince ui = (case ui of None \<Rightarrow> 0 | Some ui \<Rightarrow> ui_onlinesince ui)"

definition aim_userinfo_sessionlen :: "aim_userinfo option \<Rightarrow> u32" where
  "aim_userinfo_sessionlen ui = (case ui of None \<Rightarrow> 0 | Some ui \<Rightarrow> ui_sessionlen ui)"

definition aim_userinfo_hascap :: "aim_userinfo option \<Rightarrow> u32 \<Rightarrow> int" where
  "aim_userinfo_hascap ui cap =
     (case ui of
        None \<Rightarrow> -1
      | Some ui \<Rightarrow> if ui_present ui AND AIM_USERINFO_PRESENT_CAPABILITIES = 0 then -1
                   else if ui_capabilities ui AND cap \<noteq> 0 then 1 else 0)"

subsection \<open>Capabilities\<close>

definition AIM_CAPS_BUDDYICON :: u32 where "AIM_CAPS_BUDDYICON = 0x00000001"
definition AIM_CAPS_VOICE :: u32 where "AIM_CAPS_VOICE = 0x00000002"
definition AIM_CAPS_IMIMAGE :: u32 where "AIM_CAPS_IMIMAGE = 0x00000004"
definition AIM_CAPS_CHAT :: u32 where "AIM_CAPS_CHAT = 0x00000008"
definition AIM_CAPS_GETFILE :: u32 where "AIM_CAPS_GETFILE = 0x00000010"
definition AIM_CAPS_SENDFILE :: u32 where "AIM_CAPS_SENDFILE = 0x00000020"
definition AIM_CAPS_GAMES :: u32 where "AIM_CAPS_GAMES = 0x00000040"
definition AIM_CAPS_SAVESTOCKS :: u32 where "AIM_CAPS_SAVESTOCKS = 0x00000080"
definition AIM_CAPS_SENDBUDDYLIST :: u32 where "AIM_CAPS_SENDBUDDYLIST = 0x00000100"
definition AIM_CAPS_GAMES2 :: u32 where "AIM_CAPS_GAMES2 = 0x00000200"
definition AIM_CAPS_ICQ :: u32 where "AIM_CAPS_ICQ = 0x00000400"
definition AIM_CAPS_APINFO :: u32 where "AIM_CAPS_APINFO = 0x00000800"
definition AIM_CAPS_ICQRTF :: u32 where "AIM_CAPS_ICQRTF = 0x00001000"
definition AIM_CAPS_EMPTY :: u32 where "AIM_CAPS_EMPTY = 0x00002000"
definition AIM_CAPS_ICQSERVERRELAY :: u32 where "AIM_CAPS_ICQSERVERRELAY = 0x00004000"
definition AIM_CAPS_ICQUNKNOWN :: u32 where "AIM_CAPS_ICQUNKNOWN = 0x00008000"
definition AIM_CAPS_TRILLIANCRYPT :: u32 where "AIM_CAPS_TRILLIANCRYPT = 0x00010000"
definition AIM_CAPS_LAST :: u32 where "AIM_CAPS_LAST = 0x00020000"

lemmas caps_defs =
  AIM_CAPS_BUDDYICON_def AIM_CAPS_VOICE_def AIM_CAPS_IMIMAGE_def
  AIM_CAPS_CHAT_def AIM_CAPS_GETFILE_def AIM_CAPS_SENDFILE_def
  AIM_CAPS_GAMES_def AIM_CAPS_SAVESTOCKS_def AIM_CAPS_SENDBUDDYLIST_def
  AIM_CAPS_GAMES2_def AIM_CAPS_ICQ_def AIM_CAPS_APINFO_def
  AIM_CAPS_ICQRTF_def AIM_CAPS_EMPTY_def AIM_CAPS_ICQSERVERRELAY_def
  AIM_CAPS_ICQUNKNOWN_def AIM_CAPS_TRILLIANCRYPT_def AIM_CAPS_LAST_def

text \<open>The table, without the entry \<^verbatim>\<open>AIM_CAPS_LAST\<close> that ends it.\<close>

definition aim_caps :: "(u32 \<times> u8 list) list" where
  "aim_caps = [
    (AIM_CAPS_CHAT,
     [0x74, 0x8f, 0x24, 0x20, 0x62, 0x87, 0x11, 0xd1,
      0x82, 0x22, 0x44, 0x45, 0x53, 0x54, 0x00, 0x00]),
    (AIM_CAPS_VOICE,
     [0x09, 0x46, 0x13, 0x41, 0x4c, 0x7f, 0x11, 0xd1,
      0x82, 0x22, 0x44, 0x45, 0x53, 0x54, 0x00, 0x00]),
    (AIM_CAPS_SENDFILE,
     [0x09, 0x46, 0x13, 0x43, 0x4c, 0x7f, 0x11, 0xd1,
      0x82, 0x22, 0x44, 0x45, 0x53, 0x54, 0x00, 0x00]),
    (AIM_CAPS_ICQ,
     [0x09, 0x46, 0x13, 0x44, 0x4c, 0x7f, 0x11, 0xd1,
      0x82, 0x22, 0x44, 0x45, 0x53, 0x54, 0x00, 0x00]),
    (AIM_CAPS_IMIMAGE,
     [0x09, 0x46, 0x13, 0x45, 0x4c, 0x7f, 0x11, 0xd1,
      0x82, 0x22, 0x44, 0x45, 0x53, 0x54, 0x00, 0x00]),
    (AIM_CAPS_BUDDYICON,
     [0x09, 0x46, 0x13, 0x46, 0x4c, 0x7f, 0x11, 0xd1,
      0x82, 0x22, 0x44, 0x45, 0x53, 0x54, 0x00, 0x00]),
    (AIM_CAPS_SAVESTOCKS,
     [0x09, 0x46, 0x13, 0x47, 0x4c, 0x7f, 0x11, 0xd1,
      0x82, 0x22, 0x44, 0x45, 0x53, 0x54, 0x00, 0x00]),
    (AIM_CAPS_GETFILE,
     [0x09, 0x46, 0x13, 0x48, 0x4c, 0x7f, 0x11, 0xd1,
      0x82, 0x22, 0x44, 0x45, 0x53, 0x54, 0x00, 0x00]),
    (AIM_CAPS_ICQSERVERRELAY,
     [0x09, 0x46, 0x13, 0x49, 0x4c, 0x7f, 0x11, 0xd1,
      0x82, 0x22, 0x44, 0x45, 0x53, 0x54, 0x00, 0x00]),
    (AIM_CAPS_GAMES,
     [0x09, 0x46, 0x13, 0x4a, 0x4c, 0x7f, 0x11, 0xd1,
      0x82, 0x22, 0x44, 0x45, 0x53, 0x54, 0x00, 0x00]),
    (AIM_CAPS_GAMES2,
     [0x09, 0x46, 0x13, 0x4a, 0x4c, 0x7f, 0x11, 0xd1,
      0x22, 0x82, 0x44, 0x45, 0x53, 0x54, 0x00, 0x00]),
    (AIM_CAPS_SENDBUDDYLIST,
     [0x09, 0x46, 0x13, 0x4b, 0x4c, 0x7f, 0x11, 0xd1,
      0x82, 0x22, 0x44, 0x45, 0x53, 0x54, 0x00, 0x00]),
    (AIM_CAPS_ICQRTF,
     [0x97, 0xb1, 0x27, 0x51, 0x24, 0x3c, 0x43, 0x34,
      0xad, 0x22, 0xd6, 0xab, 0xf7, 0x3f, 0x14, 0x92]),
    (AIM_CAPS_ICQUNKNOWN,
     [0x2e, 0x7a, 0x64, 0x75, 0xfa, 0xdf, 0x4d, 0xc8,
      0x88, 0x6f, 0xea, 0x35, 0x95, 0xfd, 0xb6, 0xdf]),
    (AIM_CAPS_EMPTY,
     [0x00, 0x00, 0x00, 0x00, 0x00, 0x00, 0x00, 0x00,
      0x00, 0x00, 0x00, 0x00, 0x00, 0x00, 0x00, 0x00]),
    (AIM_CAPS_TRILLIANCRYPT,
     [0xf2, 0xe7, 0xc7, 0xf4, 0xfe, 0xad, 0x4d, 0xfb,
      0xb2, 0x35, 0x36, 0x79, 0x8b, 0xdf, 0x00, 0x00]),
    (AIM_CAPS_APINFO,
     [0xaa, 0x4a, 0x32, 0xb5, 0xf8, 0x84, 0x48, 0xc6,
      0xa3, 0xd7, 0x8c, 0x50, 0x97, 0x19, 0xfd, 0x5b])]"

primrec find_cap :: "u8 list \<Rightarrow> (u32 \<times> u8 list) list \<Rightarrow> u32" where
  "find_cap cap [] = 0"
| "find_cap cap (e # es) = (if snd e = cap then fst e else find_cap cap es)"

function getcap_loop ::
  "bstream \<Rightarrow> int \<Rightarrow> int \<Rightarrow> u32 \<Rightarrow> 'a os_scheme \<Rightarrow> (u32 \<times> bstream \<times> 'a os_scheme) option" where
  "getcap_loop bs offset len flags s =
     (if aim_bstream_empty bs \<noteq> 0 \<and> offset < len
      then do {
        (cap, bs, s) \<leftarrow> aimbs_getraw bs 0x10 s;
        cap \<leftarrow> cap;
        getcap_loop bs (offset + 0x10) len (flags OR find_cap cap aim_caps) s
      }
      else Some (flags, bs, s))"
  by pat_completeness auto
termination
  by (relation "measure (\<lambda>(bs, offset, len, flags, s). nat (len - offset))") auto

declare getcap_loop.simps [simp del]

definition aim_getcap :: "bstream \<Rightarrow> int \<Rightarrow> 'a os_scheme \<Rightarrow> (u32 \<times> bstream \<times> 'a os_scheme) option" where
  "aim_getcap bs len s = getcap_loop bs 0 len 0 s"

primrec putcap_loop :: "(u32 \<times> u8 list) list \<Rightarrow> u32 \<Rightarrow> bstream \<Rightarrow> bstream option" where
  "putcap_loop [] caps bs = Some bs"
| "putcap_loop (e # es) caps bs =
     (if aim_bstream_empty bs = 0 then Some bs
      else do {
        bs \<leftarrow> (if caps AND fst e \<noteq> 0 then do { (_, bs) \<leftarrow> aimbs_putraw bs (snd e) 0x10; Some bs }
               else Some bs);
        putcap_loop es caps bs
      })"

definition aim_putcap :: "bstream \<Rightarrow> u32 \<Rightarrow> (int \<times> bstream) option" where
  "aim_putcap bs caps = do { bs \<leftarrow> putcap_loop aim_caps caps bs; Some (0, bs) }"

definition aim_addtlvtochain_caps ::
  "tlvlist \<Rightarrow> u16 \<Rightarrow> u32 \<Rightarrow> 'a os_scheme \<Rightarrow> (int \<times> tlvlist \<times> 'a os_scheme) option" where
  "aim_addtlvtochain_caps list t caps s =
     (if caps = 0 then Some (0, list, s)
      else do {
        let bs = aim_bstream_init (fresh s (16 * 16)) (16 * 16);
        (_, bs) \<leftarrow> aim_putcap bs caps;
        aim_addtlvtochain_raw list t (word_of_int (aim_bstream_curpos bs)) (bs_data bs) s
      })"

subsection \<open>Reading user information\<close>

text \<open>
  Printing an unknown element reads as many bytes as the low byte of its length says.
\<close>

primrec dump_bytes :: "nat \<Rightarrow> bstream \<Rightarrow> bstream option" where
  "dump_bytes 0 bs = Some bs"
| "dump_bytes (Suc n) bs = do { (_, bs) \<leftarrow> aimbs_get8 bs; dump_bytes n bs }"

definition dumptlv :: "bstream \<Rightarrow> u8 \<Rightarrow> bstream option" where
  "dumptlv bs len = dump_bytes (unat len) bs"

definition set_present :: "u32 \<Rightarrow> aim_userinfo \<Rightarrow> aim_userinfo" where
  "set_present p ui = ui\<lparr>ui_present := ui_present ui OR p\<rparr>"

definition extract_tlv ::
  "u16 \<Rightarrow> u16 \<Rightarrow> bstream \<Rightarrow> aim_userinfo \<Rightarrow> 'a os_scheme \<Rightarrow> (bstream \<times> aim_userinfo \<times> 'a os_scheme) option" where
  "extract_tlv type len bs ui s =
     (if type = 0x0001 then do {
        (v, bs) \<leftarrow> aimbs_get16 bs;
        Some (bs, set_present AIM_USERINFO_PRESENT_FLAGS (ui\<lparr>ui_flags := v\<rparr>), s)
      }
      else if type = 0x0002 then do {
        (v, bs) \<leftarrow> aimbs_get32 bs;
        Some (bs, set_present AIM_USERINFO_PRESENT_CREATETIME (ui\<lparr>ui_createtime := v\<rparr>), s)
      }
      else if type = 0x0003 then do {
        (v, bs) \<leftarrow> aimbs_get32 bs;
        Some (bs, set_present AIM_USERINFO_PRESENT_ONLINESINCE (ui\<lparr>ui_onlinesince := v\<rparr>), s)
      }
      else if type = 0x0004 then do {
        (v, bs) \<leftarrow> aimbs_get16 bs;
        Some (bs, set_present AIM_USERINFO_PRESENT_IDLE (ui\<lparr>ui_idletime := v\<rparr>), s)
      }
      else if type = 0x0005 then do {
        (v, bs) \<leftarrow> aimbs_get32 bs;
        Some (bs, set_present AIM_USERINFO_PRESENT_MEMBERSINCE (ui\<lparr>ui_membersince := v\<rparr>), s)
      }
      else if type = 0x0006 then do {
        (_, bs) \<leftarrow> aimbs_get16 bs;
        (v, bs) \<leftarrow> aimbs_get16 bs;
        Some (bs, set_present AIM_USERINFO_PRESENT_ICQEXTSTATUS (ui\<lparr>ui_icqstatus := ucast v\<rparr>), s)
      }
      else if type = 0x000a then do {
        (v, bs) \<leftarrow> aimbs_get32 bs;
        Some (bs, set_present AIM_USERINFO_PRESENT_ICQIPADDR (ui\<lparr>ui_icqipaddr := v\<rparr>), s)
      }
      else if type = 0x000c then do {
        (_, xs, bs) \<leftarrow> aimbs_getrawbuf bs 0x25;
        Some (bs, set_present AIM_USERINFO_PRESENT_ICQDATA
               (ui\<lparr>ui_icqcrap := xs @ drop (length xs) (ui_icqcrap ui)\<rparr>), s)
      }
      else if type = 0x000d then do {
        (v, bs, s) \<leftarrow> aim_getcap bs (uint len) s;
        Some (bs, set_present AIM_USERINFO_PRESENT_CAPABILITIES (ui\<lparr>ui_capabilities := v\<rparr>), s)
      }
      else if type = 0x000e then Some (bs, ui, s)
      else if type = 0x000f \<or> type = 0x0010 then do {
        (v, bs) \<leftarrow> aimbs_get32 bs;
        Some (bs, set_present AIM_USERINFO_PRESENT_SESSIONLEN (ui\<lparr>ui_sessionlen := v\<rparr>), s)
      }
      else if type = 0x001d then Some (bs, ui, s)
      else if type = 0x001e then Some (bs, ui, s)
      else do { bs \<leftarrow> dumptlv bs (ucast len); Some (bs, ui, s) })"

primrec extract_loop ::
  "nat \<Rightarrow> bstream \<Rightarrow> aim_userinfo \<Rightarrow> 'a os_scheme \<Rightarrow> (bstream \<times> aim_userinfo \<times> 'a os_scheme) option" where
  "extract_loop 0 bs ui s = Some (bs, ui, s)"
| "extract_loop (Suc n) bs ui s = do {
     (type, bs) \<leftarrow> aimbs_get16 bs;
     (len, bs) \<leftarrow> aimbs_get16 bs;
     let endpos = aim_bstream_curpos bs + uint len;
     (bs, ui, s) \<leftarrow> extract_tlv type len bs ui s;
     let (_, bs) = aim_bstream_setpos bs endpos;
     extract_loop n bs ui s
   }"

text \<open>A name that does not fit the 33 bytes of its buffer is written past the end.\<close>

definition aim_extractuserinfo ::
  "bstream \<Rightarrow> 'a os_scheme \<Rightarrow> (int \<times> aim_userinfo \<times> bstream \<times> 'a os_scheme) option" where
  "aim_extractuserinfo bs s = do {
     let ui = zero_userinfo;
     (snlen, bs) \<leftarrow> aimbs_get8 bs;
     (_, sn, bs) \<leftarrow> aimbs_getrawbuf bs (uint snlen);
     if MAXSNLEN + 1 < length sn then None
     else do {
       let ui = ui\<lparr>ui_sn := sn @ drop (length sn) (ui_sn ui)\<rparr>;
       (warn, bs) \<leftarrow> aimbs_get16 bs;
       let ui = ui\<lparr>ui_warnlevel := warn\<rparr>;
       (tlvcnt, bs) \<leftarrow> aimbs_get16 bs;
       (bs, ui, s) \<leftarrow> extract_loop (unat tlvcnt) bs ui s;
       Some (0, ui, bs, s)
     }
   }"

subsection \<open>Writing user information\<close>

definition add_if ::
  "bool \<Rightarrow> (tlvlist \<Rightarrow> 'a os_scheme \<Rightarrow> (int \<times> tlvlist \<times> 'a os_scheme) option) \<Rightarrow> tlvlist \<times> 'a os_scheme
   \<Rightarrow> (tlvlist \<times> 'a os_scheme) option" where
  "add_if c add ts = (if c then do { (_, ts) \<leftarrow> add (fst ts) (snd ts); Some ts } else Some ts)"

definition userinfo_chain :: "aim_userinfo \<Rightarrow> 'a os_scheme \<Rightarrow> (tlvlist \<times> 'a os_scheme) option" where
  "userinfo_chain ui s = do {
     let has = (\<lambda>p. ui_present ui AND p \<noteq> 0);
     ts \<leftarrow> add_if (has AIM_USERINFO_PRESENT_FLAGS)
             (\<lambda>ts. aim_addtlvtochain16 ts 0x0001 (ui_flags ui)) ([], s);
     ts \<leftarrow> add_if (has AIM_USERINFO_PRESENT_MEMBERSINCE)
             (\<lambda>ts. aim_addtlvtochain32 ts 0x0002 (ui_membersince ui)) ts;
     ts \<leftarrow> add_if (has AIM_USERINFO_PRESENT_ONLINESINCE)
             (\<lambda>ts. aim_addtlvtochain32 ts 0x0003 (ui_onlinesince ui)) ts;
     ts \<leftarrow> add_if (has AIM_USERINFO_PRESENT_IDLE)
             (\<lambda>ts. aim_addtlvtochain16 ts 0x0004 (ui_idletime ui)) ts;
     ts \<leftarrow> add_if (has AIM_USERINFO_PRESENT_CAPABILITIES)
             (\<lambda>ts. aim_addtlvtochain_caps ts 0x000d (ui_capabilities ui)) ts;
     add_if (has AIM_USERINFO_PRESENT_SESSIONLEN)
       (\<lambda>ts. aim_addtlvtochain32 ts (if ui_flags ui AND AIM_FLAG_AOL \<noteq> 0 then 0x0010 else 0x000f)
               (ui_sessionlen ui)) ts
   }"

definition aim_putuserinfo :: "bstream \<Rightarrow> aim_userinfo \<Rightarrow> 'a os_scheme \<Rightarrow> (int \<times> bstream \<times> 'a os_scheme) option" where
  "aim_putuserinfo bs ui s = do {
     sn \<leftarrow> buf_string (ui_sn ui);
     bs \<leftarrow> put_lstr sn bs;
     (_, bs) \<leftarrow> aimbs_put16 bs (ui_warnlevel ui);
     (ts, s) \<leftarrow> userinfo_chain ui s;
     (_, bs) \<leftarrow> aimbs_put16 bs (word_of_int (aim_counttlvchain ts));
     (_, bs) \<leftarrow> aim_writetlvchain bs ts;
     Some (0, bs, s)
   }"

definition aim_addtlvtochain_userinfo ::
  "tlvlist \<Rightarrow> u16 \<Rightarrow> aim_userinfo \<Rightarrow> 'a os_scheme \<Rightarrow> (int \<times> tlvlist \<times> 'a os_scheme) option" where
  "aim_addtlvtochain_userinfo list type ui s = do {
     let bs = aim_bstream_init (fresh s 1024) 1024;
     (_, bs, s) \<leftarrow> aim_putuserinfo bs ui s;
     aim_addtlvtochain_raw list type (word_of_int (aim_bstream_curpos bs)) (bs_data bs) s
   }"

section \<open>Capabilities\<close>

lemma find_cap_distinct: "distinct (map snd es) \<Longrightarrow> e \<in> set es \<Longrightarrow> find_cap (snd e) es = fst e"
  by (induction es) (auto simp: image_iff)

lemma aim_caps_distinct: "distinct (map snd aim_caps)" "list_all (\<lambda>e. length (snd e) = 16) aim_caps"
  by (simp_all add: aim_caps_def)

lemma aim_caps_data: "e \<in> set aim_caps \<Longrightarrow> length (snd e) = 16 \<and> find_cap (snd e) aim_caps = fst e"
  using find_cap_distinct [OF aim_caps_distinct(1)] aim_caps_distinct(2) by (simp add: list_all_iff)

lemma aim_caps_flags: "map fst aim_caps = map (\<lambda>k. 2 ^ k) [3, 1, 5, 10, 2, 0, 7, 4, 14, 6, 9, 8, 12, 15, 13, 16, 11]"
  by (simp add: aim_caps_def caps_defs)

text \<open>The entries of the table that a set of flags selects, and the set they make up.\<close>

definition selected :: "u32 \<Rightarrow> (u32 \<times> u8 list) list" where
  "selected caps = filter (\<lambda>e. caps AND fst e \<noteq> 0) aim_caps"

lemma and_exp_bit: "(caps :: u32) AND 2 ^ k = 0 \<longleftrightarrow> \<not> bit caps k"
  by (simp add: and_exp_eq_0_iff_not_bit)

lemma fold_or_bit:
  "bit (foldl (OR) (a :: u32) fs) n \<longleftrightarrow> bit a n \<or> (\<exists>f \<in> set fs. bit f n)"
  by (induction fs arbitrary: a) (auto simp: bit_simps)

lemma selected_flags: "foldl (OR) 0 (map fst (selected caps)) = caps AND mask 17"
proof (rule bit_word_eqI)
  fix n
  have "set (map fst (selected caps)) = (\<lambda>k. 2 ^ k) ` {k. k < 17 \<and> bit caps k}"
  proof -
    have "set (map fst (selected caps)) = {f \<in> set (map fst aim_caps). caps AND f \<noteq> 0}"
      by (auto simp: selected_def)
    also have "set (map fst aim_caps) = (\<lambda>k. 2 ^ k) ` {k. k < 17}"
    proof -
      have "set [3, 1, 5, 10, 2, 0, 7, 4, 14, 6, 9, 8, 12, 15, 13, 16, 11 :: nat] = {k. k < 17}" by (auto, presburger)
      then show ?thesis unfolding aim_caps_flags set_map by simp
    qed
    finally show ?thesis by (auto simp: and_exp_bit)
  qed
  moreover assume "n < LENGTH(32)"
  ultimately show "bit (foldl (OR) 0 (map fst (selected caps))) n \<longleftrightarrow> bit (caps AND mask 17) n"
    unfolding fold_or_bit by (auto simp: bit_simps)
qed

lemma putcap_loop_ok:
  assumes "bs_ok bs" "set es \<subseteq> set aim_caps" "16 * length (filter (\<lambda>e. caps AND fst e \<noteq> 0) es) \<le> room bs"
  shows "putcap_loop es caps bs = Some (emit (concat (map snd (filter (\<lambda>e. caps AND fst e \<noteq> 0) es))) bs)"
  using assms
proof (induction es arbitrary: bs)
  case (Cons e es)
  have "length (snd e) = 16" using Cons.prems(2) aim_caps_data by simp
  with Cons show ?case
    using putraw_ok [of bs 16 "snd e"] by (auto simp: empty_eq)
qed simp

lemma getcap_loop_ok:
  assumes "bs_ok bs" "mem_ok s" "set es \<subseteq> set aim_caps" "unread bs = concat (map snd es) @ rest"
  shows "getcap_loop bs off (off + 16 * int (length es)) fl s =
    Some (foldl (OR) fl (map fst es), adv (16 * length es) bs, s)"
  using assms
proof (induction es arbitrary: bs off fl)
  case Nil
  then show ?case by (simp add: getcap_loop.simps)
next
  case (Cons e es)
  have e: "length (snd e) = 16" "find_cap (snd e) aim_caps = fst e"
    using Cons.prems(3) aim_caps_data by simp_all
  have r: "16 \<le> room bs" using length_unread [OF Cons.prems(1)] Cons.prems(4) e by simp
  then have "aimbs_getraw bs 0x10 s = Some (Some (snd e), adv 16 bs, s)"
    using getraw_ok [of s bs 16] Cons.prems e by simp
  moreover have "unread (adv 16 bs) = concat (map snd es) @ rest"
    using Cons.prems(1,4) e r by simp
  moreover from Cons.IH [OF _ Cons.prems(2) _ this, of "off + 16" "fl OR fst e"]
  have "getcap_loop (adv 16 bs) (off + 16) (off + 16 + 16 * int (length es)) (fl OR fst e) s =
    Some (foldl (OR) (fl OR fst e) (map fst es), adv (16 * length es) (adv 16 bs), s)"
    using Cons.prems r by simp
  ultimately show ?case
    using Cons.prems(1) r e(2) by (subst getcap_loop.simps) (simp add: empty_eq algebra_simps)
qed

lemma caps_len: "\<forall>e \<in> set es. length (snd e) = 16 \<Longrightarrow> length (concat (map snd es)) = 16 * length es"
  by (induction es) auto

lemma selected_len: "length (concat (map snd (selected caps))) = 16 * length (selected caps)"
  using aim_caps_data by (intro caps_len) (auto simp: selected_def)

text \<open>The capability blocks written for a set of capabilities are read back as that set (less
  the bits no capability has), by a reader told how many bytes were written.\<close>

theorem caps_roundtrip:
  assumes "bs_ok bs" "mem_ok s" "16 * length (selected caps) \<le> room bs"
  shows "\<exists>b. aim_putcap bs caps = Some (0, b) \<and> bs_off b = bs_off bs + 16 * length (selected caps) \<and>
    aim_getcap (b\<lparr>bs_off := bs_off bs\<rparr>) (int (bs_off b - bs_off bs)) s = Some (caps AND mask 17, b, s)"
proof -
  let ?xs = "concat (map snd (selected caps))"
  let ?b = "emit ?xs bs"
  let ?r = "?b\<lparr>bs_off := bs_off bs\<rparr>"
  have len: "length ?xs = 16 * length (selected caps)" by (rule selected_len)
  have put: "aim_putcap bs caps = Some (0, ?b)"
    using putcap_loop_ok [OF assms(1), of aim_caps caps] assms(3) by (simp add: aim_putcap_def selected_def)
  have off: "bs_off ?b = bs_off bs + 16 * length (selected caps)"
    using len by (simp add: emit_def)
  have room: "length ?xs \<le> room bs" using assms(3) len by simp
  then have "bs_ok ?r" using assms(1) by simp
  have "take (length ?xs) (unread ?r) = ?xs" by (rule back_emit(2) [OF assms(1) room])
  then have "unread ?r = ?xs @ drop (length ?xs) (unread ?r)" by (metis append_take_drop_id)
  moreover have "set (selected caps) \<subseteq> set aim_caps" by (auto simp: selected_def)
  ultimately have "aim_getcap ?r (16 * int (length (selected caps))) s =
      Some (caps AND mask 17, adv (16 * length (selected caps)) ?r, s)"
    using getcap_loop_ok [OF \<open>bs_ok ?r\<close> assms(2), of "selected caps" _ 0 0]
    by (simp add: aim_getcap_def selected_flags)
  moreover have "adv (16 * length (selected caps)) ?r = ?b"
    using assms(1,3) len back_adv [of bs "16 * length (selected caps)" ?xs] by simp
  ultimately show ?thesis using put off by simp
qed

theorem caps_roundtrip_witness:
  "map_option fst (do { (_, b) \<leftarrow> aim_putcap (aim_bstream_init (replicate 40 0) 40) 3;
      aim_getcap (b\<lparr>bs_off := 0\<rparr>) 32 (session0 0) }) = Some 3"
proof -
  have "length (selected 3) = 2" by (simp add: selected_def aim_caps_def caps_defs)
  with caps_roundtrip [of "aim_bstream_init (replicate 40 0) 40" "session0 0" 3] show ?thesis
    by (auto simp: to_u16_def mask_eq_exp_minus_1)
qed

section \<open>User information\<close>

text \<open>Reading values off a stream whose bytes are known.\<close>

lemma room_wire: "bs_ok bs \<Longrightarrow> unread bs = xs @ rest \<Longrightarrow> length xs \<le> room bs"
  by (metis length_append le_add1 length_unread)

lemma get8_wire: "bs_ok bs \<Longrightarrow> unread bs = v # rest \<Longrightarrow> aimbs_get8 bs = Some (v, adv 1 bs)"
  using room_wire [of bs "[v]" rest] by (simp add: get8_ok)

lemma get16_wire: "bs_ok bs \<Longrightarrow> unread bs = aimutil_put16 v @ rest \<Longrightarrow> aimbs_get16 bs = Some (v, adv 2 bs)"
  using room_wire [of bs "aimutil_put16 v" rest] by (simp add: get16_ok aimutil_put16_def wire_simps)

lemma get32_wire: "bs_ok bs \<Longrightarrow> unread bs = aimutil_put32 v @ rest \<Longrightarrow> aimbs_get32 bs = Some (v, adv 4 bs)"
  using room_wire [of bs "aimutil_put32 v" rest] by (simp add: get32_ok aimutil_put32_def wire_simps)

lemma getrawbuf_wire:
  "bs_ok bs \<Longrightarrow> unread bs = xs @ rest \<Longrightarrow> n = int (length xs) \<Longrightarrow>
   aimbs_getrawbuf bs n = Some (n, xs, adv (length xs) bs)"
  using room_wire [of bs xs rest] by (simp add: getrawbuf_ok)

text \<open>An element whose value the reader understands, and its effect.\<close>

definition reads :: "tlv \<Rightarrow> (aim_userinfo \<Rightarrow> aim_userinfo) \<Rightarrow> 'a os_scheme \<Rightarrow> bool" where
  "reads t g s \<longleftrightarrow> tlv_ok t \<and>
     (\<forall>bs rest ui. bs_ok bs \<and> unread bs = tlv_val t @ rest \<longrightarrow>
        (\<exists>k. extract_tlv (tlv_type t) (tlv_length t) bs ui s = Some (adv k bs, g ui, s)))"

lemma setpos_adv:
  "bs_ok bs \<Longrightarrow> n \<le> room bs \<Longrightarrow>
   aim_bstream_setpos (adv k bs) (int (bs_off bs) + int n) = (int (bs_off bs) + int n, adv n bs)"
  by (auto simp: aim_bstream_setpos_def adv_def room_def bs_ok_def to_u16_def)

lemma extract_loop_reads:
  assumes "list_all2 (\<lambda>t g. reads t g s) ts gs" "bs_ok bs" "unread bs = chain_wire ts @ rest"
  shows "extract_loop (length ts) bs ui s = Some (adv (length (chain_wire ts)) bs, fold (\<lambda>g. g) gs ui, s)"
  using assms
proof (induction ts gs arbitrary: bs ui rule: list_all2_induct)
  case (Cons t ts g gs)
  let ?b = "adv 4 bs" and ?n = "unat (tlv_length t)"
  have ok: "tlv_ok t" using Cons.hyps(1) by (simp add: reads_def)
  then have len: "length (tlv_val t) = ?n" by (auto simp: tlv_ok_def tlv_val_def split: option.splits)
  have u: "unread bs = aimutil_put16 (tlv_type t) @ aimutil_put16 (tlv_length t) @ tlv_val t @ chain_wire ts @ rest"
    using Cons.prems(2) by (simp add: chain_wire_def tlv_wire_def)
  have r: "4 + ?n \<le> room bs"
    using length_unread [OF Cons.prems(1)] u len by simp
  have g1: "aimbs_get16 bs = Some (tlv_type t, adv 2 bs)"
    using get16_wire [OF Cons.prems(1) u] .
  have g2: "aimbs_get16 (adv 2 bs) = Some (tlv_length t, ?b)"
    using get16_wire [of "adv 2 bs" "tlv_length t"] Cons.prems(1) u r by simp
  have b: "bs_ok ?b" "unread ?b = tlv_val t @ chain_wire ts @ rest" "?n \<le> room ?b"
    using Cons.prems(1) u r by simp_all
  then obtain k where x: "extract_tlv (tlv_type t) (tlv_length t) ?b ui s = Some (adv k ?b, g ui, s)"
    using Cons.hyps(1) unfolding reads_def by blast
  have p: "aim_bstream_setpos (adv k ?b) (aim_bstream_curpos ?b + uint (tlv_length t)) =
      (int (bs_off ?b) + int ?n, adv ?n ?b)"
    using setpos_adv [OF b(1,3), of k] by (simp add: aim_bstream_curpos_def)
  have "extract_loop (length ts) (adv ?n ?b) (g ui) s =
      Some (adv (length (chain_wire ts)) (adv ?n ?b), fold (\<lambda>g. g) gs (g ui), s)"
    using Cons.IH [of "adv (4 + ?n) bs"] Cons.prems(1) u r len by simp
  then show ?case
    using g1 g2 x p len by (simp add: Let_def chain_wire_def tlv_wire_def add_ac del: adv_adv)
qed (simp add: chain_wire_def)

lemma reads_intro:
  assumes "length v < 65536"
    "\<And>bs rest ui. bs_ok bs \<Longrightarrow> unread bs = v @ rest \<Longrightarrow>
       \<exists>k. extract_tlv ty (of_nat (length v)) bs ui s = Some (adv k bs, g ui, s)"
  shows "reads (mk_tlv ty v) g s"
  using assms by (simp add: reads_def)

lemma reads_elements:
  "reads (mk_tlv 1 (aimutil_put16 v)) (\<lambda>ui. set_present AIM_USERINFO_PRESENT_FLAGS (ui\<lparr>ui_flags := v\<rparr>)) s"
  "reads (mk_tlv 2 (aimutil_put32 w)) (\<lambda>ui. set_present AIM_USERINFO_PRESENT_CREATETIME (ui\<lparr>ui_createtime := w\<rparr>)) s"
  "reads (mk_tlv 3 (aimutil_put32 w)) (\<lambda>ui. set_present AIM_USERINFO_PRESENT_ONLINESINCE (ui\<lparr>ui_onlinesince := w\<rparr>)) s"
  "reads (mk_tlv 4 (aimutil_put16 v)) (\<lambda>ui. set_present AIM_USERINFO_PRESENT_IDLE (ui\<lparr>ui_idletime := v\<rparr>)) s"
  "ty = 0xf \<or> ty = 0x10 \<Longrightarrow> reads (mk_tlv ty (aimutil_put32 w))
     (\<lambda>ui. set_present AIM_USERINFO_PRESENT_SESSIONLEN (ui\<lparr>ui_sessionlen := w\<rparr>)) s"
  by (rule reads_intro, simp, auto simp: extract_tlv_def get16_wire get32_wire)+

lemma uint_of_nat16: "n < 65536 \<Longrightarrow> uint (of_nat n :: u16) = int n"
  by (simp add: unsigned_of_nat take_bit_nat_eq_self)

lemma reads_caps:
  assumes "mem_ok s" "length (selected caps) \<le> 16"
  shows "reads (mk_tlv 0xd (concat (map snd (selected caps))))
    (\<lambda>ui. set_present AIM_USERINFO_PRESENT_CAPABILITIES (ui\<lparr>ui_capabilities := caps AND mask 17\<rparr>)) s"
proof (rule reads_intro)
  let ?n = "16 * length (selected caps)"
  show "length (concat (map snd (selected caps))) < 65536" using assms(2) by (simp only: selected_len)
  fix bs rest ui
  assume "bs_ok bs" "unread bs = concat (map snd (selected caps)) @ rest"
  moreover have "uint (of_nat (length (concat (map snd (selected caps)))) :: u16) = 16 * int (length (selected caps))"
    using assms(2) uint_of_nat16 [of ?n] by (simp only: selected_len)
  moreover have "set (selected caps) \<subseteq> set aim_caps" by (auto simp: selected_def)
  ultimately show "\<exists>k. extract_tlv 0xd (of_nat (length (concat (map snd (selected caps))))) bs ui s =
      Some (adv k bs, set_present AIM_USERINFO_PRESENT_CAPABILITIES (ui\<lparr>ui_capabilities := caps AND mask 17\<rparr>), s)"
    using getcap_loop_ok [of bs s "selected caps" rest 0 0] assms(1)
    by (intro exI [of _ ?n]) (simp add: extract_tlv_def aim_getcap_def selected_flags)
qed

text \<open>The chain that is written, and what reading it does.\<close>

definition opt :: "bool \<Rightarrow> 'b \<Rightarrow> 'b list" where
  "opt c x = (if c then [x] else [])"

definition info_tlvs :: "aim_userinfo \<Rightarrow> tlvlist" where
  "info_tlvs ui =
     (let has = (\<lambda>p. ui_present ui AND p \<noteq> 0)
      in opt (has AIM_USERINFO_PRESENT_FLAGS) (mk_tlv 1 (aimutil_put16 (ui_flags ui))) @
         opt (has AIM_USERINFO_PRESENT_MEMBERSINCE) (mk_tlv 2 (aimutil_put32 (ui_membersince ui))) @
         opt (has AIM_USERINFO_PRESENT_ONLINESINCE) (mk_tlv 3 (aimutil_put32 (ui_onlinesince ui))) @
         opt (has AIM_USERINFO_PRESENT_IDLE) (mk_tlv 4 (aimutil_put16 (ui_idletime ui))) @
         opt (has AIM_USERINFO_PRESENT_CAPABILITIES \<and> ui_capabilities ui \<noteq> 0)
           (mk_tlv 0xd (concat (map snd (selected (ui_capabilities ui))))) @
         opt (has AIM_USERINFO_PRESENT_SESSIONLEN)
           (mk_tlv (if ui_flags ui AND AIM_FLAG_AOL \<noteq> 0 then 0x10 else 0xf) (aimutil_put32 (ui_sessionlen ui))))"

definition info_effects :: "aim_userinfo \<Rightarrow> (aim_userinfo \<Rightarrow> aim_userinfo) list" where
  "info_effects ui =
     (let has = (\<lambda>p. ui_present ui AND p \<noteq> 0)
      in opt (has AIM_USERINFO_PRESENT_FLAGS)
           (\<lambda>u. set_present AIM_USERINFO_PRESENT_FLAGS (u\<lparr>ui_flags := ui_flags ui\<rparr>)) @
         opt (has AIM_USERINFO_PRESENT_MEMBERSINCE)
           (\<lambda>u. set_present AIM_USERINFO_PRESENT_CREATETIME (u\<lparr>ui_createtime := ui_membersince ui\<rparr>)) @
         opt (has AIM_USERINFO_PRESENT_ONLINESINCE)
           (\<lambda>u. set_present AIM_USERINFO_PRESENT_ONLINESINCE (u\<lparr>ui_onlinesince := ui_onlinesince ui\<rparr>)) @
         opt (has AIM_USERINFO_PRESENT_IDLE)
           (\<lambda>u. set_present AIM_USERINFO_PRESENT_IDLE (u\<lparr>ui_idletime := ui_idletime ui\<rparr>)) @
         opt (has AIM_USERINFO_PRESENT_CAPABILITIES \<and> ui_capabilities ui \<noteq> 0)
           (\<lambda>u. set_present AIM_USERINFO_PRESENT_CAPABILITIES
                  (u\<lparr>ui_capabilities := ui_capabilities ui AND mask 17\<rparr>)) @
         opt (has AIM_USERINFO_PRESENT_SESSIONLEN)
           (\<lambda>u. set_present AIM_USERINFO_PRESENT_SESSIONLEN (u\<lparr>ui_sessionlen := ui_sessionlen ui\<rparr>)))"

lemma list_all2_opt: "(c \<Longrightarrow> P x y) \<Longrightarrow> list_all2 P xs ys \<Longrightarrow> list_all2 P (opt c x @ xs) (opt c y @ ys)"
  by (simp add: opt_def)

lemma info_reads:
  assumes "mem_ok s" "length (selected (ui_capabilities ui)) \<le> 16"
  shows "list_all2 (\<lambda>t g. reads t g s) (info_tlvs ui) (info_effects ui)"
  unfolding info_tlvs_def info_effects_def Let_def
  by (intro list_all2_opt reads_elements reads_caps assms)
    (simp add: opt_def reads_elements)

lemma unat_of_int16: "n < 65536 \<Longrightarrow> unat (word_of_int (int n) :: u16) = n"
  by (simp add: unat_of_nat)

lemma addcaps_ok:
  assumes "mem_ok s" "length (selected caps) \<le> 16" "caps \<noteq> 0"
  shows "\<exists>r. aim_addtlvtochain_caps ts t caps s =
    Some (r, ts @ [mk_tlv t (concat (map snd (selected caps)))], s)"
proof -
  let ?bs = "aim_bstream_init (fresh s 256) 256" and ?xs = "concat (map snd (selected caps))"
  have len: "length ?xs = 16 * length (selected caps)" by (rule selected_len)
  have ok: "bs_ok ?bs" "room ?bs = 256" "bs_off ?bs = 0" by (simp_all add: to_u16_def)
  then have put: "aim_putcap ?bs caps = Some (0, emit ?xs ?bs)"
    using putcap_loop_ok [OF ok(1), of aim_caps caps] assms(2) by (simp add: aim_putcap_def selected_def)
  have off: "bs_off (emit ?xs ?bs) = length ?xs" using ok(3) by (simp add: emit_def)
  have "take (length ?xs) (bs_data (emit ?xs ?bs)) = ?xs"
    using written_emit [OF ok(1), of ?xs] off by (simp add: written_def)
  moreover have "unat (word_of_int (int (length ?xs)) :: u16) = length ?xs"
    by (rule unat_of_int16) (use len assms(2) in linarith)
  moreover have "length ?xs \<le> length (bs_data (emit ?xs ?bs))"
    by (simp add: emit_def)
  ultimately show ?thesis
    using put off assms(1,3)
    by (simp add: aim_addtlvtochain_caps_def Let_def addraw_ok aim_bstream_curpos_def)
qed

lemma add_if_ok:
  "(c \<Longrightarrow> \<exists>r. add ts s = Some (r, ts @ [x], s)) \<Longrightarrow> add_if c add (ts, s) = Some (ts @ opt c x, s)"
  by (auto simp: add_if_def opt_def)

lemma userinfo_chain_ok:
  assumes "mem_ok s" "length (selected (ui_capabilities ui)) \<le> 16"
  shows "userinfo_chain ui s = Some (info_tlvs ui, s)"
proof -
  let ?has = "\<lambda>p. ui_present ui AND p \<noteq> 0"
  have caps: "add_if (?has AIM_USERINFO_PRESENT_CAPABILITIES)
      (\<lambda>ts. aim_addtlvtochain_caps ts 0x000d (ui_capabilities ui)) (ts, s) =
    Some (ts @ opt (?has AIM_USERINFO_PRESENT_CAPABILITIES \<and> ui_capabilities ui \<noteq> 0)
           (mk_tlv 0xd (concat (map snd (selected (ui_capabilities ui))))), s)" for ts
  proof (cases "ui_capabilities ui = 0")
    case True
    then show ?thesis by (simp add: add_if_def opt_def aim_addtlvtochain_caps_def)
  next
    case False
    with addcaps_ok [OF assms False, of ts "0xd"] show ?thesis by (auto simp: add_if_def opt_def)
  qed
  have fl: "add_if (?has AIM_USERINFO_PRESENT_FLAGS) (\<lambda>ts. aim_addtlvtochain16 ts 0x0001 (ui_flags ui)) (ts, s) =
      Some (ts @ opt (?has AIM_USERINFO_PRESENT_FLAGS) (mk_tlv 1 (aimutil_put16 (ui_flags ui))), s)"
    "add_if (?has AIM_USERINFO_PRESENT_IDLE) (\<lambda>ts. aim_addtlvtochain16 ts 0x0004 (ui_idletime ui)) (ts, s) =
      Some (ts @ opt (?has AIM_USERINFO_PRESENT_IDLE) (mk_tlv 4 (aimutil_put16 (ui_idletime ui))), s)" for ts
    using assms(1) by (auto simp: add_if_def opt_def libc_simps)
  have tm: "add_if c (\<lambda>ts. aim_addtlvtochain32 ts ty v) (ts, s) = Some (ts @ opt c (mk_tlv ty (aimutil_put32 v)), s)"
    for c ty v ts
    using assms(1) by (auto simp: add_if_def opt_def libc_simps)
  show ?thesis
    by (simp add: userinfo_chain_def Let_def caps fl tm info_tlvs_def cong: if_cong)
qed

lemma info_size: "length (info_tlvs ui) \<le> 6"
  by (simp add: info_tlvs_def opt_def Let_def)

lemma count_info: "unat (word_of_int (aim_counttlvchain ts) :: u16) = length ts" if "length ts < 65536"
proof -
  have "aim_counttlvchain ts = int (length ts)" by (induction ts) simp_all
  then show ?thesis using that unat_of_int16 [of "length ts"] by simp
qed

text \<open>The bytes of a user information structure.\<close>

definition info_wire :: "aim_userinfo \<Rightarrow> u8 list" where
  "info_wire ui = of_nat (length (c_string_of (ui_sn ui))) # c_string_of (ui_sn ui) @
     aimutil_put16 (ui_warnlevel ui) @ aimutil_put16 (of_nat (length (info_tlvs ui))) @
     chain_wire (info_tlvs ui)"

lemma chain_ok_reads: "list_all2 (\<lambda>t g. reads t g s) ts gs \<Longrightarrow> chain_ok ts"
  by (induction rule: list_all2_induct) (simp_all add: chain_ok_def reads_def)

lemma putuserinfo_ok:
  assumes "bs_ok bs" "mem_ok s" "0 \<in> set (ui_sn ui)" "length (selected (ui_capabilities ui)) \<le> 16"
    "length (info_wire ui) \<le> room bs"
  shows "aim_putuserinfo bs ui s = Some (0, emit (info_wire ui) bs, s)"
proof -
  have "chain_ok (info_tlvs ui)" using info_reads [OF assms(2,4)] by (rule chain_ok_reads)
  moreover have "aim_counttlvchain ts = int (length ts)" for ts by (induction ts) simp_all
  ultimately show ?thesis
    using assms by (simp add: aim_putuserinfo_def put_lstr_def buf_string_def userinfo_chain_ok stream_simps
      info_wire_def aimutil_put8_def)
qed

text \<open>What comes back: the time written as account age is read as account creation.\<close>

definition read_back :: "aim_userinfo \<Rightarrow> aim_userinfo" where
  "read_back ui =
     (let has = (\<lambda>p. ui_present ui AND p \<noteq> 0); caps = has AIM_USERINFO_PRESENT_CAPABILITIES \<and> ui_capabilities ui \<noteq> 0
      in zero_userinfo\<lparr>
        ui_sn := c_string_of (ui_sn ui) @ replicate (33 - length (c_string_of (ui_sn ui))) 0,
        ui_warnlevel := ui_warnlevel ui,
        ui_flags := if has AIM_USERINFO_PRESENT_FLAGS then ui_flags ui else 0,
        ui_createtime := if has AIM_USERINFO_PRESENT_MEMBERSINCE then ui_membersince ui else 0,
        ui_onlinesince := if has AIM_USERINFO_PRESENT_ONLINESINCE then ui_onlinesince ui else 0,
        ui_idletime := if has AIM_USERINFO_PRESENT_IDLE then ui_idletime ui else 0,
        ui_capabilities := if caps then ui_capabilities ui AND mask 17 else 0,
        ui_sessionlen := if has AIM_USERINFO_PRESENT_SESSIONLEN then ui_sessionlen ui else 0,
        ui_present :=
          (if has AIM_USERINFO_PRESENT_FLAGS then AIM_USERINFO_PRESENT_FLAGS else 0) OR
          (if has AIM_USERINFO_PRESENT_MEMBERSINCE then AIM_USERINFO_PRESENT_CREATETIME else 0) OR
          (if has AIM_USERINFO_PRESENT_ONLINESINCE then AIM_USERINFO_PRESENT_ONLINESINCE else 0) OR
          (if has AIM_USERINFO_PRESENT_IDLE then AIM_USERINFO_PRESENT_IDLE else 0) OR
          (if caps then AIM_USERINFO_PRESENT_CAPABILITIES else 0) OR
          (if has AIM_USERINFO_PRESENT_SESSIONLEN then AIM_USERINFO_PRESENT_SESSIONLEN else 0)\<rparr>)"

lemma fold_opt [simp]: "fold f (opt c x) u = (if c then f x u else u)"
  by (simp add: opt_def)

lemma fold_effects:
  "fold (\<lambda>g. g) (info_effects ui) (zero_userinfo\<lparr>ui_sn := c_string_of (ui_sn ui) @
      replicate (33 - length (c_string_of (ui_sn ui))) 0, ui_warnlevel := ui_warnlevel ui\<rparr>) = read_back ui"
proof -
  have cond: "(if c then set_present p (f u) else u) =
     (if c then f u else u)\<lparr>ui_present := ui_present (if c then f u else u) OR (if c then p else 0)\<rparr>"
    if "\<And>u. ui_present (f u) = ui_present u" for c p u and f :: "aim_userinfo \<Rightarrow> aim_userinfo"
    by (simp add: set_present_def)
  show ?thesis
    unfolding info_effects_def read_back_def Let_def fold_append comp_def fold_opt
    by (simp add: set_present_def zero_userinfo_def or.assoc)
qed

lemma c_string_shorter: "0 \<in> set buf \<Longrightarrow> length (c_string_of buf) < length buf"
  by (induction buf) (auto simp: c_string_of_def)

lemma extract_wire:
  assumes "bs_ok r" "mem_ok s" "0 \<in> set (ui_sn ui)" "length (ui_sn ui) = 33"
    "length (selected (ui_capabilities ui)) \<le> 16" "unread r = info_wire ui @ rest"
  shows "aim_extractuserinfo r s = Some (0, read_back ui, adv (length (info_wire ui)) r, s)"
proof -
  let ?sn = "c_string_of (ui_sn ui)" and ?ts = "info_tlvs ui"
  let ?n = "length ?sn"
  have n: "?n \<le> 32" using c_string_shorter [OF assms(3)] assms(4) by simp
  have u: "unread r = of_nat ?n # ?sn @ aimutil_put16 (ui_warnlevel ui) @
      aimutil_put16 (of_nat (length ?ts)) @ chain_wire ?ts @ rest"
    using assms(6) by (simp add: info_wire_def)
  have room: "5 + ?n \<le> room r" using length_unread [OF assms(1)] u by simp
  have "uint (of_nat ?n :: u8) = int ?n"
    using n by (simp add: unsigned_of_nat take_bit_nat_eq_self)
  then have 1: "aimbs_get8 r = Some (of_nat ?n, adv 1 r)"
      "aimbs_getrawbuf (adv 1 r) (uint (of_nat ?n :: u8)) = Some (int ?n, ?sn, adv (1 + ?n) r)"
    using get8_wire [OF assms(1) u] getrawbuf_wire [of "adv 1 r" ?sn _ "int ?n"] assms(1) u room by simp_all
  have 2: "aimbs_get16 (adv (1 + ?n) r) = Some (ui_warnlevel ui, adv (3 + ?n) r)"
    using get16_wire [of "adv (1 + ?n) r" "ui_warnlevel ui"] assms(1) u room by simp
  have "3 + ?n = Suc (?n + length (aimutil_put16 (ui_warnlevel ui)))" by simp
  then have "unread (adv (3 + ?n) r) = aimutil_put16 (of_nat (length ?ts)) @ chain_wire ?ts @ rest"
    using room u by (simp only: unread_adv drop_Suc_Cons drop_drop [symmetric] append_assoc drop_append) simp
  then have 3: "aimbs_get16 (adv (3 + ?n) r) = Some (of_nat (length ?ts), adv (5 + ?n) r)"
    using get16_wire [of "adv (3 + ?n) r" "of_nat (length ?ts)"] assms(1) room by simp
  have "5 + ?n = Suc (?n + (length (aimutil_put16 (ui_warnlevel ui)) +
      length (aimutil_put16 (of_nat (length ?ts)))))" by simp
  then have "unread (adv (5 + ?n) r) = chain_wire ?ts @ rest"
    using room u by (simp only: unread_adv drop_Suc_Cons drop_drop [symmetric] append_assoc drop_append) simp
  moreover have "bs_ok (adv (5 + ?n) r)" using assms(1) room by simp
  ultimately have wire: "unread (adv (5 + ?n) r) = chain_wire ?ts @ rest" "bs_ok (adv (5 + ?n) r)" by blast+
  from extract_loop_reads [OF info_reads [OF assms(2,5)] wire(2,1)]
  have 4: "extract_loop (length ?ts) (adv (5 + ?n) r) v s =
      Some (adv (5 + ?n + length (chain_wire ?ts)) r, fold (\<lambda>g. g) (info_effects ui) v, s)" for v by simp
  have "unat (of_nat (length ?ts) :: u16) = length ?ts"
    using info_size [of ui] by (simp add: unat_of_nat)
  moreover have "length (info_wire ui) = 5 + ?n + length (chain_wire ?ts)"
    by (simp add: info_wire_def)
  ultimately show ?thesis
    using 1 2 3 4 n fold_effects [of ui]
    by (simp add: aim_extractuserinfo_def Let_def MAXSNLEN_def zero_userinfo_def)
qed

text \<open>How much of a structure comes back.\<close>

lemma c_string_padded: "c_string_of (c_string_of xs @ replicate n 0) = c_string_of xs"
  by (induction xs) (auto simp: c_string_of_def takeWhile_replicate)

lemma read_back_fields:
  "c_string_of (ui_sn (read_back ui)) = c_string_of (ui_sn ui)" "ui_warnlevel (read_back ui) = ui_warnlevel ui"
  "ui_present ui AND AIM_USERINFO_PRESENT_FLAGS \<noteq> 0 \<Longrightarrow> ui_flags (read_back ui) = ui_flags ui"
  "ui_present ui AND AIM_USERINFO_PRESENT_ONLINESINCE \<noteq> 0 \<Longrightarrow> ui_onlinesince (read_back ui) = ui_onlinesince ui"
  "ui_present ui AND AIM_USERINFO_PRESENT_IDLE \<noteq> 0 \<Longrightarrow> ui_idletime (read_back ui) = ui_idletime ui"
  "ui_present ui AND AIM_USERINFO_PRESENT_SESSIONLEN \<noteq> 0 \<Longrightarrow> ui_sessionlen (read_back ui) = ui_sessionlen ui"
  "ui_present ui AND AIM_USERINFO_PRESENT_CAPABILITIES \<noteq> 0 \<Longrightarrow>
     ui_capabilities (read_back ui) = ui_capabilities ui AND mask 17"
  "ui_present ui AND AIM_USERINFO_PRESENT_MEMBERSINCE \<noteq> 0 \<Longrightarrow> ui_createtime (read_back ui) = ui_membersince ui"
  "ui_present (read_back ui) AND
     (AIM_USERINFO_PRESENT_MEMBERSINCE OR AIM_USERINFO_PRESENT_ICQEXTSTATUS OR AIM_USERINFO_PRESENT_ICQIPADDR
      OR AIM_USERINFO_PRESENT_ICQDATA) = 0"
  by (simp_all add: read_back_def Let_def c_string_padded present_defs)



end
