(* ===== verification/Misc.thy ===== *)
theory Misc
  imports Userinfo
begin

text \<open>
  The requests and the catch-all module of \<^verbatim>\<open>src/misc.c\<close> (the generic requests are in
  theory \<open>Requests\<close>). Pointers to strings that the code does not check are taken to be valid.
\<close>

subsection \<open>The buddy list\<close>

text \<open>The tokens that successive calls of \<^verbatim>\<open>strtok\<close> with one delimiter return.\<close>

function strtok_all :: "u8 \<Rightarrow> cstring \<Rightarrow> cstring list" where
  "strtok_all dl str =
     (let p = dropWhile (\<lambda>b. b = dl) str
      in if p = [] then []
         else takeWhile (\<lambda>b. b \<noteq> dl) p # strtok_all dl (drop 1 (dropWhile (\<lambda>b. b \<noteq> dl) p)))"
  by pat_completeness auto
termination
proof (relation "measure (\<lambda>(dl, str). length str)")
  fix dl str and p :: cstring
  assume p: "p = dropWhile (\<lambda>b. b = dl) str" "p \<noteq> []"
  have "length (dropWhile (\<lambda>b. b \<noteq> dl) p) \<le> length p" "length p \<le> length str" "0 < length p"
    using p by (simp_all add: length_dropWhile_le)
  then show "((dl, drop 1 (dropWhile (\<lambda>b. b \<noteq> dl) p)), dl, str) \<in> measure (\<lambda>(dl, str). length str)"
    by (simp del: length_greater_0_conv)
qed simp

declare strtok_all.simps [simp del]

primrec buddylist_len :: "cstring list \<Rightarrow> int \<Rightarrow> int" where
  "buddylist_len [] len = len"
| "buddylist_len (tmpptr # rest) len = buddylist_len rest (len + (1 + int (length tmpptr)))"

primrec put_names :: "cstring list \<Rightarrow> snac_body" where
  "put_names [] bs s = Some (bs, s)"
| "put_names (tmpptr # rest) bs s = do { bs \<leftarrow> put_lstr tmpptr bs; put_names rest bs s }"

definition aim_bos_setbuddylist ::
  "client \<Rightarrow> aim_session \<Rightarrow> nat option \<Rightarrow> cstring option \<Rightarrow> (int \<times> aim_session) option" where
  "aim_bos_setbuddylist cl s conn buddy_list =
     (case buddy_list of
        None \<Rightarrow> Some (- EINVAL, s)
      | Some buddy_list \<Rightarrow>
          let (ok, s) = malloc s
          in if \<not> ok then Some (- EINVAL, s)
             else let names = strtok_all 38 buddy_list
                  in snac_frame cl s conn (10 + buddylist_len names 0) (cached_id 0x0003 0x0004 None)
                       0x0003 0x0004 (put_names names))"

subsection \<open>Profile and directory\<close>

definition defencoding :: cstring where
  "defencoding = cstr ''text/aolrtf; charset='' @ [34] @ cstr ''us-ascii'' @ [34]"

definition aim_bos_setprofile ::
  "client \<Rightarrow> aim_session \<Rightarrow> nat option \<Rightarrow> cstring option \<Rightarrow> cstring option \<Rightarrow> u32
   \<Rightarrow> (int \<times> aim_session) option" where
  "aim_bos_setprofile cl s conn profile awaymsg caps = do {
     (ts, s) \<leftarrow> (case profile of
         None \<Rightarrow> Some ([], s)
       | Some profile \<Rightarrow> do {
           (ts, s) \<leftarrow> add_str [] 0x0001 defencoding s;
           add_str ts 0x0002 profile s
         });
     (ts, s) \<leftarrow> (case awaymsg of
         None \<Rightarrow> Some (ts, s)
       | Some awaymsg \<Rightarrow>
           if length awaymsg \<noteq> 0 then do {
             (ts, s) \<leftarrow> add_str ts 0x0003 defencoding s;
             add_str ts 0x0004 awaymsg s
           }
           else do { (_, ts, s) \<leftarrow> aim_addtlvtochain_noval ts 0x0004 s; Some (ts, s) });
     (_, ts, s) \<leftarrow> aim_addtlvtochain_caps ts 0x0005 caps s;
     snac_frame cl s conn (10 + aim_sizetlvchain ts) (cached_id 0x0002 0x0004 None)
       0x0002 0x0004 (put_chain ts)
   }"

definition aim_bos_reqbuddyrights :: "client \<Rightarrow> aim_session \<Rightarrow> nat option \<Rightarrow> (int \<times> aim_session) option" where
  "aim_bos_reqbuddyrights cl s conn = aim_genericreq_n cl s conn 0x0003 0x0002"

definition aim_bos_reqlocaterights :: "client \<Rightarrow> aim_session \<Rightarrow> nat option \<Rightarrow> (int \<times> aim_session) option" where
  "aim_bos_reqlocaterights cl s conn = aim_genericreq_n cl s conn 0x0002 0x0002"

definition aim_setdirectoryinfo ::
  "client \<Rightarrow> aim_session \<Rightarrow> nat option \<Rightarrow> cstring option \<Rightarrow> cstring option \<Rightarrow> cstring option
   \<Rightarrow> cstring option \<Rightarrow> cstring option \<Rightarrow> cstring option \<Rightarrow> cstring option \<Rightarrow> cstring option
   \<Rightarrow> cstring option \<Rightarrow> int \<Rightarrow> u16 \<Rightarrow> (int \<times> aim_session) option" where
  "aim_setdirectoryinfo cl s conn firstname middle lastname maiden nickname street city state zipcode
      country privacy = do {
     (_, ts, s) \<leftarrow> aim_addtlvtochain16 [] 0x000a privacy s;
     (ts, s) \<leftarrow> add_opt ts 0x0001 firstname s;
     (ts, s) \<leftarrow> add_opt ts 0x0002 lastname s;
     (ts, s) \<leftarrow> add_opt ts 0x0003 middle s;
     (ts, s) \<leftarrow> add_opt ts 0x0004 maiden s;
     (ts, s) \<leftarrow> add_opt ts 0x0007 state s;
     (ts, s) \<leftarrow> add_opt ts 0x0008 city s;
     (ts, s) \<leftarrow> add_opt ts 0x000c nickname s;
     (ts, s) \<leftarrow> add_opt ts 0x000d zipcode s;
     (ts, s) \<leftarrow> add_opt ts 0x0021 street s;
     snac_frame cl s conn (10 + aim_sizetlvchain ts) (cached_id 0x0002 0x0009 None)
       0x0002 0x0009 (put_chain ts)
   }"

text \<open>The request is remembered under an id, but the SNAC carries the id 0.\<close>

definition aim_setuserinterests ::
  "client \<Rightarrow> aim_session \<Rightarrow> nat option \<Rightarrow> cstring option \<Rightarrow> cstring option \<Rightarrow> cstring option
   \<Rightarrow> cstring option \<Rightarrow> cstring option \<Rightarrow> u16 \<Rightarrow> (int \<times> aim_session) option" where
  "aim_setuserinterests cl s conn interest1 interest2 interest3 interest4 interest5 privacy = do {
     (_, ts, s) \<leftarrow> aim_addtlvtochain16 [] 0x000a privacy s;
     (ts, s) \<leftarrow> add_opt ts 0x000b interest1 s;
     (ts, s) \<leftarrow> add_opt ts 0x000b interest2 s;
     (ts, s) \<leftarrow> add_opt ts 0x000b interest3 s;
     (ts, s) \<leftarrow> add_opt ts 0x000b interest4 s;
     (ts, s) \<leftarrow> add_opt ts 0x000b interest5 s;
     snac_frame cl s conn (10 + aim_sizetlvchain ts)
       (\<lambda>s. do { (_, s) \<leftarrow> cached_id 0x0002 0x000f None s; Some (0, s) })
       0x0002 0x000f (put_chain ts)
   }"

subsection \<open>Warnings\<close>

definition AIM_WARN_ANON :: u32 where "AIM_WARN_ANON = 0x01"

definition aim_send_warning ::
  "client \<Rightarrow> aim_session \<Rightarrow> nat option \<Rightarrow> cstring \<Rightarrow> u32 \<Rightarrow> (int \<times> aim_session) option" where
  "aim_send_warning cl s conn destsn flags =
     snac_frame cl s conn (int (length destsn) + 13)
       (cached_id 0x0004 0x0008 (Some (SnacBytes (destsn @ [0])))) 0x0004 0x0008
       (\<lambda>bs s. do {
          let outflags = (if flags AND AIM_WARN_ANON \<noteq> 0 then 0x0000 OR 0x0001 else 0x0000);
          (_, bs) \<leftarrow> aimbs_put16 bs outflags;
          bs \<leftarrow> put_lstr destsn bs;
          Some (bs, s)
        })"

subsection \<open>The catch-all module\<close>

text \<open>What a callback sees of the data kept with a request.\<close>

definition snac_arg :: "aim_snac option \<Rightarrow> cb_arg" where
  "snac_arg snac2 =
     (case Option.bind snac2 snac_data of
        None \<Rightarrow> ArgBytes None
      | Some (SnacBytes b) \<Rightarrow> ArgBytes (Some b)
      | Some (SnacInfoReq sn infotype) \<Rightarrow> ArgList [ArgStr (Some sn), ArgInt (uint infotype)]
      | Some (SnacChat exchange name inst) \<Rightarrow>
          ArgList [ArgInt (uint exchange), ArgBytes (Some name), ArgInt (uint inst)])"

definition generror :: "client \<Rightarrow> snachandler" where
  "generror cl m rx snac bs s = do {
     let (snac2, s) = aim_remsnac s (ms_id snac);
     (error, bs) \<leftarrow> (if aim_bstream_empty bs \<noteq> 0 then aimbs_get16 bs else Some (0, bs));
     call_user cl s (fr_conn rx) (ms_family snac) (ms_subtype snac) 0 (Some rx)
       [ArgInt (uint error), snac_arg snac2] bs
   }"

definition misc_snachandler :: "client \<Rightarrow> snachandler" where
  "misc_snachandler cl m rx snac bs s =
     (if ms_subtype snac = 0x0001 then generror cl m rx snac bs s
      else if ms_family snac = 0xffff \<and> ms_subtype snac = 0xffff
      then call_user cl s (fr_conn rx) (ms_family snac) (ms_subtype snac) 0 (Some rx) [] bs
      else Some (0, bs, s))"

section \<open>The buddy list on the wire\<close>

lemma split_on_strip:
  "filter (\<lambda>t. t \<noteq> []) (split_on dl (dropWhile (\<lambda>b. b = dl) s)) = filter (\<lambda>t. t \<noteq> []) (split_on dl s)"
  by (induction s) auto

lemma split_on_first:
  "split_on dl p = takeWhile (\<lambda>b. b \<noteq> dl) p #
     (case dropWhile (\<lambda>b. b \<noteq> dl) p of [] \<Rightarrow> [] | _ # r \<Rightarrow> split_on dl r)"
  by (induction p) (auto split: list.splits)

lemma split_on_token:
  assumes "b \<noteq> dl"
  shows "filter (\<lambda>t. t \<noteq> []) (split_on dl (b # p)) =
    (b # takeWhile (\<lambda>b. b \<noteq> dl) p) # filter (\<lambda>t. t \<noteq> []) (split_on dl (drop 1 (dropWhile (\<lambda>b. b \<noteq> dl) p)))"
  using split_on_first [of dl "b # p"] assms
  by (cases "dropWhile (\<lambda>b. b \<noteq> dl) p") (simp_all del: split_on.simps(2) dropWhile_eq_Nil_conv)

lemma strtok_split: "strtok_all dl str = filter (\<lambda>t. t \<noteq> []) (split_on dl str)"
proof (induction dl str rule: strtok_all.induct)
  case (1 dl str)
  show ?case
  proof (cases "dropWhile (\<lambda>b. b = dl) str")
    case Nil
    with split_on_strip [of dl str] show ?thesis by (simp add: strtok_all.simps [of dl str])
  next
    case (Cons b p)
    then have "b \<noteq> dl" using hd_dropWhile [of "\<lambda>b. b = dl" str] by simp
    moreover have "strtok_all dl (drop 1 (dropWhile (\<lambda>b. b \<noteq> dl) p)) =
        filter (\<lambda>t. t \<noteq> []) (split_on dl (drop 1 (dropWhile (\<lambda>b. b \<noteq> dl) p)))"
      using 1 [of "b # p"] Cons \<open>b \<noteq> dl\<close> by simp
    moreover have "strtok_all dl str =
        (b # takeWhile (\<lambda>b. b \<noteq> dl) p) # strtok_all dl (drop 1 (dropWhile (\<lambda>b. b \<noteq> dl) p))"
      using Cons \<open>b \<noteq> dl\<close> by (subst strtok_all.simps) (simp add: Let_def)
    ultimately show ?thesis
      using split_on_token [of b dl p] split_on_strip [of dl str] Cons by simp
  qed
qed

text \<open>A name with its length before it, and a list of names.\<close>

definition name_wire :: "cstring \<Rightarrow> u8 list" where
  "name_wire t = of_nat (length t) # t"

definition names_wire :: "cstring list \<Rightarrow> u8 list" where
  "names_wire ts = concat (map name_wire ts)"

lemma names_wire_simps [simp]:
  "names_wire [] = []" "names_wire (t # ts) = name_wire t @ names_wire ts"
  "length (name_wire t) = Suc (length t)"
  by (simp_all add: names_wire_def name_wire_def)

lemma buddylist_len_eq: "buddylist_len ts n = n + int (length (names_wire ts))"
  by (induction ts arbitrary: n) simp_all

lemma put_lstr_ok [stream_simps]:
  "bs_ok bs \<Longrightarrow> length t < room bs \<Longrightarrow> put_lstr t bs = Some (emit (name_wire t) bs)"
  by (simp add: put_lstr_def stream_simps name_wire_def aimutil_put8_def)

lemma put_names_ok:
  "bs_ok bs \<Longrightarrow> length (names_wire ts) \<le> room bs \<Longrightarrow> put_names ts bs s = Some (emit (names_wire ts) bs, s)"
  by (induction ts arbitrary: bs) (simp_all add: stream_simps)

text \<open>Setting the buddy list queues one SNAC that carries every name of the list that is
  not empty, in order, each with its length in a byte before it, under the id by which the
  request is remembered.\<close>

theorem setbuddylist_wire:
  assumes "can_queue s a" "names = filter (\<lambda>t. t \<noteq> []) (split_on 38 list)"
    and "10 + length (names_wire names) < 65536"
  shows "\<exists>s'. aim_bos_setbuddylist cl s (Some a) (Some list) = Some (0, s') \<and>
    queued_snac s a 0x0003 0x0004 (snacid_next s) (names_wire names) s' \<and>
    remembered s 0x0003 0x0004 None s'"
proof -
  have "mem_ok s" using assms(1) by (simp add: can_queue_def)
  moreover have "writes (put_names names) (names_wire names) t" for t
    by (simp add: writes_def put_names_ok)
  ultimately show ?thesis
    using cached_request [OF assms(1), of "names_wire names" "10 + int (length (names_wire names))"
      "put_names names" cl "0x0003" "0x0004" None "0x0003" "0x0004"] assms(2,3)
    by (simp add: aim_bos_setbuddylist_def strtok_split buddylist_len_eq Let_def)
qed

theorem setbuddylist_wire_witness:
  "\<exists>s'. aim_bos_setbuddylist quiet_client demo_session (Some 0) (Some [97, 38, 38, 98, 99]) = Some (0, s') \<and>
    queued_snac demo_session 0 3 4 0 [1, 97, 2, 98, 99] s'"
  using setbuddylist_wire [OF can_queue_demo(1) refl, of "[97, 38, 38, 98, 99]" quiet_client]
  by (auto simp: name_wire_def)

end
