(* ===== verification/Locate.thy ===== *)
theory Locate
  imports Misc
begin

text \<open>
  Asking for information about a user: the requests and the locate module of
  \<^verbatim>\<open>src/info.c\<close>. The session and connection pointers of the requests are valid; a null
  connection is the value \<open>None\<close> of \<open>conn\<close>.
\<close>

definition AIM_GETINFO_GENERALINFO :: u16 where "AIM_GETINFO_GENERALINFO = 0x0001"
definition AIM_GETINFO_AWAYMESSAGE :: u16 where "AIM_GETINFO_AWAYMESSAGE = 0x0003"
definition AIM_GETINFO_CAPABILITIES :: u16 where "AIM_GETINFO_CAPABILITIES = 0x0004"

lemmas getinfo_defs =
  AIM_GETINFO_GENERALINFO_def AIM_GETINFO_AWAYMESSAGE_def AIM_GETINFO_CAPABILITIES_def

subsection \<open>Requests\<close>

text \<open>
  The screen name is copied with \<^verbatim>\<open>strncpy\<close> to a field of 33 bytes that nothing reads as a
  string in the library, so its first 33 bytes are what is kept.
\<close>

definition aim_getinfo ::
  "client \<Rightarrow> aim_session \<Rightarrow> nat option \<Rightarrow> cstring option \<Rightarrow> u16 \<Rightarrow> (int \<times> aim_session) option" where
  "aim_getinfo cl s conn sn infotype =
     (case sn of
        None \<Rightarrow> Some (- EINVAL, s)
      | Some sn \<Rightarrow>
          if conn = None then Some (- EINVAL, s)
          else snac_frame cl s conn (12 + 1 + int (length sn))
            (cached_id 0x0002 0x0005 (Some (SnacInfoReq (take (MAXSNLEN + 1) sn) infotype))) 0x0002 0x0005
            (\<lambda>bs s. do {
               (_, bs) \<leftarrow> aimbs_put16 bs infotype;
               bs \<leftarrow> put_lstr sn bs;
               Some (bs, s)
             }))"

definition aim_sendbuddyoncoming ::
  "client \<Rightarrow> aim_session \<Rightarrow> nat option \<Rightarrow> aim_userinfo option \<Rightarrow> (int \<times> aim_session) option" where
  "aim_sendbuddyoncoming cl s conn info =
     (case info of
        None \<Rightarrow> Some (- EINVAL, s)
      | Some info \<Rightarrow>
          if conn = None then Some (- EINVAL, s)
          else snac_frame cl s conn 1152 (cached_id 0x0003 0x000b None) 0x0003 0x000b
            (\<lambda>bs s. do { (_, bs, s) \<leftarrow> aim_putuserinfo bs info s; Some (bs, s) }))"

text \<open>The two requests that carry a screen name and nothing else.\<close>

definition aim_sendbuddyoffgoing ::
  "client \<Rightarrow> aim_session \<Rightarrow> nat option \<Rightarrow> cstring option \<Rightarrow> (int \<times> aim_session) option" where
  "aim_sendbuddyoffgoing cl s conn sn =
     (case sn of
        None \<Rightarrow> Some (- EINVAL, s)
      | Some sn \<Rightarrow>
          if conn = None then Some (- EINVAL, s)
          else snac_frame cl s conn (10 + 1 + int (length sn)) (cached_id 0x0003 0x000c None)
            0x0003 0x000c (\<lambda>bs s. do { bs \<leftarrow> put_lstr sn bs; Some (bs, s) }))"

definition aim_0002_000b ::
  "client \<Rightarrow> aim_session \<Rightarrow> nat option \<Rightarrow> cstring option \<Rightarrow> (int \<times> aim_session) option" where
  "aim_0002_000b cl s conn sn =
     (case sn of
        None \<Rightarrow> Some (- EINVAL, s)
      | Some sn \<Rightarrow>
          if conn = None then Some (- EINVAL, s)
          else snac_frame cl s conn (10 + 1 + int (length sn)) (cached_id 0x0002 0x000b None)
            0x0002 0x000b (\<lambda>bs s. do { bs \<leftarrow> put_lstr sn bs; Some (bs, s) }))"

subsection \<open>Replies\<close>

text \<open>A value that is 0 unless the element is there.\<close>

definition gettlv16_or0 :: "tlvlist \<Rightarrow> u16 \<Rightarrow> u16 option" where
  "gettlv16_or0 ts t = (if aim_gettlv ts t 1 \<noteq> None then aim_gettlv16 ts t 1 else Some 0)"

definition locate_rights :: "client \<Rightarrow> snachandler" where
  "locate_rights cl m rx snac bs s = do {
     (tlvlist, bs, s) \<leftarrow> aim_readtlvchain bs s;
     maxsiglen \<leftarrow> gettlv16_or0 tlvlist 0x0001;
     call_user cl s (fr_conn rx) (ms_family snac) (ms_subtype snac) 0 (Some rx)
       [ArgInt (uint maxsiglen)] bs
   }"

text \<open>The texts that go with the kind of information asked for; a profile has neither for
  capabilities, which replace the ones that came with the user information.\<close>

definition info_texts ::
  "u16 \<Rightarrow> tlvlist \<Rightarrow> aim_userinfo \<Rightarrow> aim_session
   \<Rightarrow> (u8 list option \<times> u8 list option \<times> aim_userinfo \<times> aim_session) option" where
  "info_texts infotype tlvlist ui s =
     (if infotype = AIM_GETINFO_GENERALINFO then do {
        (enc, s) \<leftarrow> aim_gettlv_str tlvlist 0x0001 1 s;
        (txt, s) \<leftarrow> aim_gettlv_str tlvlist 0x0002 1 s;
        Some (enc, txt, ui, s)
      }
      else if infotype = AIM_GETINFO_AWAYMESSAGE then do {
        (enc, s) \<leftarrow> aim_gettlv_str tlvlist 0x0003 1 s;
        (txt, s) \<leftarrow> aim_gettlv_str tlvlist 0x0004 1 s;
        Some (enc, txt, ui, s)
      }
      else if infotype = AIM_GETINFO_CAPABILITIES then
        (case aim_gettlv tlvlist 0x0005 1 of
           None \<Rightarrow> Some (None, None, ui, s)
         | Some ct \<Rightarrow> do {
             let cbs = aim_bstream_init (case tlv_value ct of None \<Rightarrow> [] | Some v \<Rightarrow> v) (int (unat (tlv_length ct)));
             (caps, _, s) \<leftarrow> aim_getcap cbs (int (unat (tlv_length ct))) s;
             Some (None, None, ui\<lparr>ui_capabilities := caps, ui_present := AIM_USERINFO_PRESENT_CAPABILITIES\<rparr>, s)
           })
      else Some (None, None, ui, s))"

text \<open>
  The data kept with the request is read as the structure \<^verbatim>\<open>aim_getinfo\<close> stored; a request of
  another kind that an ill-meant reply names holds something else there, which is undefined.
\<close>

definition locate_userinfo :: "client \<Rightarrow> snachandler" where
  "locate_userinfo cl m rx snac bs s = do {
     let (origsnac, s) = aim_remsnac s (ms_id snac);
     case Option.bind origsnac snac_data of
       None \<Rightarrow> Some (0, bs, s)
     | Some (SnacInfoReq sn infotype) \<Rightarrow>
         if infotype \<noteq> AIM_GETINFO_GENERALINFO \<and> infotype \<noteq> AIM_GETINFO_AWAYMESSAGE \<and>
            infotype \<noteq> AIM_GETINFO_CAPABILITIES
         then Some (0, bs, s)
         else do {
           (_, ui, bs, s) \<leftarrow> aim_extractuserinfo bs s;
           (tlvlist, bs, s) \<leftarrow> aim_readtlvchain bs s;
           (enc, txt, ui, s) \<leftarrow> info_texts infotype tlvlist ui s;
           call_user cl s (fr_conn rx) (ms_family snac) (ms_subtype snac) 0 (Some rx)
             [ArgUserinfo ui, ArgInt (uint infotype), ArgStr (map_option c_string_of enc),
              ArgStr (map_option c_string_of txt)] bs
         }
     | Some _ \<Rightarrow> None
   }"

definition locate_snachandler :: "client \<Rightarrow> snachandler" where
  "locate_snachandler cl m rx snac bs s =
     (if ms_subtype snac = 0x0003 then locate_rights cl m rx snac bs s
      else if ms_subtype snac = 0x0006 then locate_userinfo cl m rx snac bs s
      else Some (0, bs, s))"

section \<open>Asking and being answered\<close>

text \<open>Reading a chain that fills the rest of the stream.\<close>

lemma readtlv_loop_exact:
  assumes "bs_ok bs" "mem_ok s" "chain_ok ts" "unread bs = chain_wire ts"
  shows "readtlv_loop bs acc s = Some (rev ts @ acc, adv (length (chain_wire ts)) bs, s)"
  using assms
proof (induction ts arbitrary: bs acc)
  case Nil
  then have "room bs = 0" using length_unread [of bs] by simp
  with Nil show ?case by (subst readtlv_loop.simps) (simp add: empty_eq)
next
  case (Cons t ts)
  let ?n = "unat (tlv_length t)"
  have ok: "tlv_ok t" "chain_ok ts" using Cons.prems(3) by simp_all
  note len = length_tlv_val [OF ok(1)]
  have u: "unread bs = aimutil_put16 (tlv_type t) @ aimutil_put16 (tlv_length t) @ tlv_val t @ chain_wire ts"
    using Cons.prems(4) by (simp add: tlv_wire_def)
  have r: "room bs = 4 + ?n + length (chain_wire ts)"
    using length_unread [OF Cons.prems(1)] u len by simp
  have g: "aimbs_get16 bs = Some (tlv_type t, adv 2 bs)"
    "aimbs_get16 (adv 2 bs) = Some (tlv_length t, adv 4 bs)"
    using get16_wire [OF Cons.prems(1) u] get16_wire [of "adv 2 bs" "tlv_length t"] Cons.prems(1) u r by simp_all
  have v: "aimbs_getraw (adv 4 bs) (uint (tlv_length t)) s = Some (Some (tlv_val t), adv (4 + ?n) bs, s)"
    using Cons.prems(1,2) u r len by (simp add: getraw_ok)
  have IH: "readtlv_loop (adv (4 + ?n) bs) a s =
      Some (rev ts @ a, adv (4 + ?n + length (chain_wire ts)) bs, s)" for a
    using Cons.IH [of "adv (4 + ?n) bs" a] Cons.prems(1,2) ok u r len by simp
  have pos: "0 < uint (tlv_length t) + (int (length (chain_wire ts)) + 4)"
    using uint_ge_0 [of "tlv_length t"] by linarith
  have le: "\<not> int (?n + length (chain_wire ts)) < uint (tlv_length t)" by simp
  have "t = \<lparr>tlv_type = tlv_type t, tlv_length = tlv_length t, tlv_value = (if tlv_length t = 0 then None else Some (tlv_val t))\<rparr>"
    using ok(1) by (cases t) (auto simp: tlv_ok_def tlv_val_def unat_eq_zero split: option.splits)
  with g v IH r le pos Cons.prems(1,2) len show ?case
    by (subst readtlv_loop.simps) (auto simp: empty_eq tlv_wire_def add_ac unat_eq_zero)
qed

lemma readtlvchain_exact:
  assumes "bs_ok bs" "mem_ok s" "chain_ok ts" "unread bs = chain_wire ts"
  shows "aim_readtlvchain bs s = Some (rev ts, adv (length (chain_wire ts)) bs, s)"
  using readtlv_loop_exact [OF assms] by (simp add: aim_readtlvchain_def)


text \<open>The reply to a request that is remembered.\<close>

lemma locate_answer:
  assumes "aim_remsnac s i = (Some req, s2)" "snac_data req = Some (SnacInfoReq n it)" "mem_ok s2"
    and it: "it = AIM_GETINFO_GENERALINFO \<and> k = 1 \<or> it = AIM_GETINFO_AWAYMESSAGE \<and> k = 3"
    and ui: "0 \<in> set (ui_sn ui)" "length (ui_sn ui) = 33" "length (selected (ui_capabilities ui)) \<le> 16"
    and bs: "bs_ok bs" "unread bs = info_wire ui @ chain_wire ts" "chain_ok ts"
  shows "locate_snachandler cl m rx \<lparr>ms_family = 2, ms_subtype = 6, ms_flags = fl, ms_id = i\<rparr> bs s =
    call_user cl s2 (fr_conn rx) 2 6 0 (Some rx) [ArgUserinfo (read_back ui), ArgInt (uint it),
        ArgStr (map_option (c_string_of \<circ> tlv_val) (aim_gettlv (rev ts) k 1)),
        ArgStr (map_option (c_string_of \<circ> tlv_val) (aim_gettlv (rev ts) (k + 1) 1))]
      (adv (length (info_wire ui @ chain_wire ts)) bs)"
proof -
  note x = extract_wire [OF bs(1) assms(3) ui bs(2)]
  have r: "length (info_wire ui) \<le> room bs" using room_wire [OF bs(1,2)] .
  then have "bs_ok (adv (length (info_wire ui)) bs)" "unread (adv (length (info_wire ui)) bs) = chain_wire ts"
    using bs by simp_all
  note c = readtlvchain_exact [OF this(1) assms(3) bs(3) this(2)]
  show ?thesis
    using it x c bs(3) assms(1-3)
    by (auto simp: locate_snachandler_def locate_userinfo_def info_texts_def getinfo_defs gettlv_str_ok
        option.map_comp)
qed

text \<open>A request for information about a user is queued with the kind of information and the
  name asked about, and remembered under its id; the reply that carries this id hands the client
  the user information and the texts of the kind that was asked for, and the request is used up.\<close>

theorem info_request_answered:
  assumes "can_queue s a" "13 + length sn < 65536"
    and it: "it = AIM_GETINFO_GENERALINFO \<and> k = 1 \<or> it = AIM_GETINFO_AWAYMESSAGE \<and> k = 3"
    and ui: "0 \<in> set (ui_sn ui)" "length (ui_sn ui) = 33" "length (selected (ui_capabilities ui)) \<le> 16"
    and bs: "bs_ok bs" "unread bs = info_wire ui @ chain_wire ts" "chain_ok ts"
  shows "\<exists>s'. aim_getinfo cl s (Some a) (Some sn) it = Some (0, s') \<and>
    queued_snac s a 0x0002 0x0005 (snacid_next s) (aimutil_put16 it @ name_wire sn) s' \<and>
    remembered s 0x0002 0x0005 (Some (SnacInfoReq (take 33 sn) it)) s' \<and>
    (let s'' = snd (aim_remsnac s' (snacid_next s));
         text_of = (\<lambda>t. ArgStr (map_option (c_string_of \<circ> tlv_val) (aim_gettlv (rev ts) t 1)))
     in locate_snachandler cl m rx \<lparr>ms_family = 2, ms_subtype = 6, ms_flags = fl, ms_id = snacid_next s\<rparr> bs s' =
        call_user cl s'' (fr_conn rx) 2 6 0 (Some rx)
          [ArgUserinfo (read_back ui), ArgInt (uint it), text_of k, text_of (k + 1)]
          (adv (length (info_wire ui @ chain_wire ts)) bs))"
proof -
  let ?p = "aimutil_put16 it @ name_wire sn"
  let ?body = "\<lambda>bs s. do { (_, bs) \<leftarrow> aimbs_put16 bs it; bs \<leftarrow> put_lstr sn bs; Some (bs, s) }"
  have "writes ?body ?p t" for t by (simp add: writes_def stream_simps less_diff_conv)
  from cached_request [OF assms(1), of ?p "12 + 1 + int (length sn)" ?body cl 2 5
      "Some (SnacInfoReq (take 33 sn) it)" 2 5] this assms(2)
  obtain s' where s': "aim_getinfo cl s (Some a) (Some sn) it = Some (0, s')"
    "queued_snac s a 2 5 (snacid_next s) ?p s'" "remembered s 2 5 (Some (SnacInfoReq (take 33 sn) it)) s'"
    by (auto simp: aim_getinfo_def MAXSNLEN_def)
  obtain s2 where s2: "aim_remsnac s' (snacid_next s) = (Some \<lparr>snac_id = snacid_next s, snac_family = 2,
      snac_type = 5, snac_flags = 0, snac_data = Some (SnacInfoReq (take 33 sn) it), snac_issuetime = os_now s\<rparr>, s2)"
    using s'(3) unfolding remembered_def by (metis prod.collapse)
  moreover have "mem_ok s'" using s'(2) by (simp add: queued_snac_def can_queue_def)
  with s2 have "mem_ok s2" using remsnac_sel(2) [of s' "snacid_next s"] by simp
  ultimately show ?thesis
    using s' locate_answer [OF s2 _ _ it ui bs, of "take 33 sn" cl m rx fl]
    by (intro exI [of _ s']) (simp add: Let_def)
qed

theorem info_request_answered_witness:
  "\<exists>s'. aim_getinfo quiet_client demo_session (Some 0) (Some [109]) 1 = Some (0, s') \<and>
    queued_snac demo_session 0 2 5 0 [0, 1, 1, 109] s'"
proof -
  let ?bs = "aim_bstream_init [0, 0, 0, 0, 0] 5"
  have "c_string_of (ui_sn zero_userinfo) = []" by (simp add: zero_userinfo_def c_string_of_def)
  then have "unread ?bs = info_wire zero_userinfo @ chain_wire []"
    by (simp add: info_wire_def info_tlvs_def opt_def present_defs zero_userinfo_def aimutil_put16_def)
  with info_request_answered [OF can_queue_demo(1), of "[109]" AIM_GETINFO_GENERALINFO 1 zero_userinfo ?bs "[]"
      quiet_client misc_module "demo_frame 2 [] None" 0]
  show ?thesis
    by (auto simp: zero_userinfo_def selected_def getinfo_defs aimutil_put16_def name_wire_def)
qed

end
