(* ===== verification/Buddylist.thy ===== *)
theory Buddylist
  imports Locate
begin

text \<open>
  The buddy list and the permit and deny lists: \<^verbatim>\<open>src/buddylist.c\<close> and
  \<^verbatim>\<open>src/bos.c\<close>.
\<close>

subsection \<open>Buddies\<close>

definition buddychange :: "client \<Rightarrow> snachandler" where
  "buddychange cl m rx snac bs s = do {
     (_, ui, bs, s) \<leftarrow> aim_extractuserinfo bs s;
     call_user cl s (fr_conn rx) (ms_family snac) (ms_subtype snac) 0 (Some rx) [ArgUserinfo ui] bs
   }"

definition buddylist_rights :: "client \<Rightarrow> snachandler" where
  "buddylist_rights cl m rx snac bs s = do {
     (tlvlist, bs, s) \<leftarrow> aim_readtlvchain bs s;
     maxbuddies \<leftarrow> gettlv16_or0 tlvlist 0x0001;
     maxwatchers \<leftarrow> gettlv16_or0 tlvlist 0x0002;
     call_user cl s (fr_conn rx) (ms_family snac) (ms_subtype snac) 0 (Some rx)
       [ArgInt (uint maxbuddies), ArgInt (uint maxwatchers)] bs
   }"

definition buddylist_snachandler :: "client \<Rightarrow> snachandler" where
  "buddylist_snachandler cl m rx snac bs s =
     (if ms_subtype snac = 0x0003 then buddylist_rights cl m rx snac bs s
      else if ms_subtype snac = 0x000b \<or> ms_subtype snac = 0x000c then buddychange cl m rx snac bs s
      else Some (0, bs, s))"

definition aim_add_buddy ::
  "client \<Rightarrow> aim_session \<Rightarrow> nat option \<Rightarrow> cstring option \<Rightarrow> (int \<times> aim_session) option" where
  "aim_add_buddy cl s conn sn =
     (case sn of
        None \<Rightarrow> Some (- EINVAL, s)
      | Some sn \<Rightarrow>
          if length sn = 0 then Some (- EINVAL, s)
          else snac_frame cl s conn (10 + 1 + int (length sn))
            (cached_id 0x0003 0x0004 (Some (SnacBytes (sn @ [0])))) 0x0003 0x0004
            (\<lambda>bs s. do { bs \<leftarrow> put_lstr sn bs; Some (bs, s) }))"

definition aim_remove_buddy ::
  "client \<Rightarrow> aim_session \<Rightarrow> nat option \<Rightarrow> cstring option \<Rightarrow> (int \<times> aim_session) option" where
  "aim_remove_buddy cl s conn sn =
     (case sn of
        None \<Rightarrow> Some (- EINVAL, s)
      | Some sn \<Rightarrow>
          if length sn = 0 then Some (- EINVAL, s)
          else snac_frame cl s conn (10 + 1 + int (length sn))
            (cached_id 0x0003 0x0005 (Some (SnacBytes (sn @ [0])))) 0x0003 0x0005
            (\<lambda>bs s. do { bs \<leftarrow> put_lstr sn bs; Some (bs, s) }))"

subsection \<open>Permit and deny lists\<close>

definition AIM_VISIBILITYCHANGE_PERMITADD :: int where "AIM_VISIBILITYCHANGE_PERMITADD = 0x05"
definition AIM_VISIBILITYCHANGE_PERMITREMOVE :: int where "AIM_VISIBILITYCHANGE_PERMITREMOVE = 0x06"
definition AIM_VISIBILITYCHANGE_DENYADD :: int where "AIM_VISIBILITYCHANGE_DENYADD = 0x07"
definition AIM_VISIBILITYCHANGE_DENYREMOVE :: int where "AIM_VISIBILITYCHANGE_DENYREMOVE = 0x08"

lemmas visibility_defs =
  AIM_VISIBILITYCHANGE_PERMITADD_def AIM_VISIBILITYCHANGE_PERMITREMOVE_def
  AIM_VISIBILITYCHANGE_DENYADD_def AIM_VISIBILITYCHANGE_DENYREMOVE_def

definition aim_bos_reqrights :: "client \<Rightarrow> aim_session \<Rightarrow> nat option \<Rightarrow> (int \<times> aim_session) option" where
  "aim_bos_reqrights cl s conn = aim_genericreq_n cl s conn 0x0009 0x0002"

definition bos_rights :: "client \<Rightarrow> snachandler" where
  "bos_rights cl m rx snac bs s = do {
     (tlvlist, bs, s) \<leftarrow> aim_readtlvchain bs s;
     maxpermits \<leftarrow> gettlv16_or0 tlvlist 0x0001;
     maxdenies \<leftarrow> gettlv16_or0 tlvlist 0x0002;
     call_user cl s (fr_conn rx) (ms_family snac) (ms_subtype snac) 0 (Some rx)
       [ArgInt (uint maxpermits), ArgInt (uint maxdenies)] bs
   }"

definition aim_bos_setgroupperm ::
  "client \<Rightarrow> aim_session \<Rightarrow> nat option \<Rightarrow> u32 \<Rightarrow> (int \<times> aim_session) option" where
  "aim_bos_setgroupperm cl s conn perm = aim_genericreq_l cl s conn 0x0009 0x0004 (Some perm)"

function visibility_loop ::
  "cstring \<Rightarrow> int \<Rightarrow> int \<Rightarrow> bstream \<Rightarrow> aim_session \<Rightarrow> (bstream \<times> aim_session) option" where
  "visibility_loop localcpy listcount i bs s =
     (if i < listcount - 1 \<and> i < 99
      then do {
        (tmpptr, s) \<leftarrow> aimutil_itemidx localcpy i 38 s;
        bs \<leftarrow> put_lstr tmpptr bs;
        visibility_loop localcpy listcount (i + 1) bs s
      }
      else Some (bs, s))"
  by pat_completeness auto
termination
  by (relation "measure (\<lambda>(str, n, i, bs, s). nat (99 - i))") auto

declare visibility_loop.simps [simp del]

text \<open>The copy of the list is not checked: without memory the code reads through a null pointer.\<close>

definition aim_bos_changevisibility ::
  "client \<Rightarrow> aim_session \<Rightarrow> nat option \<Rightarrow> int \<Rightarrow> cstring option \<Rightarrow> (int \<times> aim_session) option" where
  "aim_bos_changevisibility cl s conn changetype denylist =
     (case denylist of
        None \<Rightarrow> Some (- EINVAL, s)
      | Some denylist \<Rightarrow>
          (case (if changetype = AIM_VISIBILITYCHANGE_PERMITADD then Some 0x05
                 else if changetype = AIM_VISIBILITYCHANGE_PERMITREMOVE then Some 0x06
                 else if changetype = AIM_VISIBILITYCHANGE_DENYADD then Some 0x07
                 else if changetype = AIM_VISIBILITYCHANGE_DENYREMOVE then Some 0x08
                 else None) of
             None \<Rightarrow> Some (- EINVAL, s)
           | Some subtype \<Rightarrow>
               let (ok, s) = malloc s
               in if \<not> ok then None
                  else let listcount = aimutil_itemcnt denylist 38;
                           packlen = aimutil_tokslen denylist 99 38 + listcount + 9
                       in snac_frame cl s conn packlen (cached_id 0x0009 subtype None) 0x0009 subtype
                            (visibility_loop denylist listcount 0)))"

definition bos_snachandler :: "client \<Rightarrow> snachandler" where
  "bos_snachandler cl m rx snac bs s =
     (if ms_subtype snac = 0x0003 then bos_rights cl m rx snac bs s else Some (0, bs, s))"

section \<open>Lists on the wire\<close>

text \<open>The items of a list together are shorter than the list by the delimiters between them.\<close>

lemma split_on_len: "sum_list (map length (split_on dl str)) + length (split_on dl str) = Suc (length str)"
  by (induction str) (auto split: list.splits)

lemma length_names_wire: "length (names_wire ts) = sum_list (map length ts) + length ts"
  by (induction ts) simp_all

lemma sum_take_le: "sum_list (map length (take n xs)) \<le> sum_list (map length xs)"
  by (metis append_take_drop_id le_add1 map_append sum_list_append)

lemma sum_take_mono: "m \<le> k \<Longrightarrow> sum_list (map length (take m xs)) \<le> sum_list (map length (take k xs))"
  using sum_take_le [of m "take k xs"] by (simp add: min_def)

lemma visibility_loop_ok:
  assumes "mem_ok s" "bs_ok bs" "ts = take 99 (butlast (split_on 38 str))"
    "length (names_wire (drop (nat i) ts)) \<le> room bs" "0 \<le> i"
  shows "visibility_loop str (int (length (split_on 38 str))) i bs s = Some (emit (names_wire (drop (nat i) ts)) bs, s)"
  using assms(1-2,4,5)
proof (induction "length ts - nat i" arbitrary: i bs)
  case 0
  moreover have "0 < length (split_on 38 str)" by simp
  ultimately have "\<not> (i < int (length (split_on 38 str)) - 1 \<and> i < 99)"
    using assms(3) by (simp del: length_greater_0_conv) linarith
  with 0 show ?case by (subst visibility_loop.simps) (auto simp: assms(3))
next
  case (Suc k)
  let ?L = "split_on 38 str"
  have i: "nat i < length ts" using Suc.hyps(2) by linarith
  then have c: "i < int (length ?L) - 1" "i < 99" "nat i < length ?L"
    using Suc.prems(4) by (auto simp: assms(3))
  have t: "ts ! nat i = ?L ! nat i" using i by (simp add: assms(3) nth_butlast)
  have d: "drop (nat i) ts = ?L ! nat i # drop (nat (i + 1)) ts"
    using Cons_nth_drop_Suc [OF i] t Suc.prems(4) by (simp add: nat_add_distrib)
  have "length (?L ! nat i) < room bs" using Suc.prems(3) d by simp
  with Suc.prems c d show ?case
    using Suc.hyps(1) [of "i + 1" "emit (name_wire (?L ! nat i)) bs"] Suc.hyps(2)
    by (subst visibility_loop.simps) (simp add: itemidx_item put_lstr_ok nat_add_distrib)
qed

text \<open>C37: changing the visibility queues one SNAC of the subtype of the change that carries the
  names of the list, up to 99 of them, each with its length before it; what follows the last
  delimiter is left out, also when it is a name.\<close>

theorem changevisibility_wire:
  assumes "can_queue s a" "5 \<le> ct" "ct \<le> 8" "length list + 10 < 65536"
  shows "\<exists>s'. aim_bos_changevisibility cl s (Some a) ct (Some list) = Some (0, s') \<and>
    queued_snac s a 0x0009 (word_of_int ct) (snacid_next s)
      (names_wire (take 99 (butlast (split_on 38 list)))) s' \<and>
    remembered s 0x0009 (word_of_int ct) None s'"
proof -
  let ?L = "split_on 38 list"
  let ?ts = "take 99 (butlast ?L)"
  let ?pack = "aimutil_tokslen list 99 38 + int (length ?L) + 9"
  have m: "mem_ok s" using assms(1) by (simp add: can_queue_def)
  have "sum_list (map length ?ts) \<le> sum_list (map length (take 99 ?L))"
    using sum_take_mono [of "min 99 (length ?L - 1)" 99 ?L] by (simp add: butlast_conv_take)
  moreover have "length ?ts + 1 \<le> length ?L"
    by (cases ?L rule: rev_cases) simp_all
  moreover have p: "?pack = int (sum_list (map length (take 99 ?L))) + int (length ?L) + 9"
    by (simp add: tokslen_split)
  ultimately have fits: "10 + int (length (names_wire ?ts)) \<le> ?pack"
    by (simp add: length_names_wire)
  have "?pack < 65536"
    unfolding p using sum_take_le [of 99 ?L] split_on_len [of 38 list] assms(4) by linarith
  moreover have "writes (visibility_loop list (int (length ?L)) 0) (names_wire ?ts) t" if "same_queue s t" for t
    using that m assms(1) visibility_loop_ok [OF _ _ refl, where s = t and str = list and i = 0]
    by (simp add: writes_def same_queue_def can_queue_def)
  ultimately have "\<exists>s'. snac_frame cl s (Some a) ?pack (cached_id 9 w None) 9 w
      (visibility_loop list (int (length ?L)) 0) = Some (0, s') \<and>
      queued_snac s a 9 w (snacid_next s) (names_wire ?ts) s' \<and> remembered s 9 w None s'" for w
    using cached_request [OF assms(1) fits] by blast
  moreover have "ct = 5 \<or> ct = 6 \<or> ct = 7 \<or> ct = 8" using assms(2,3) by linarith
  ultimately show ?thesis
    using m by (auto simp: aim_bos_changevisibility_def visibility_defs itemcnt_items Let_def)
qed

theorem changevisibility_wire_witness:
  "\<exists>s'. aim_bos_changevisibility quiet_client demo_session (Some 0) 7 (Some [97, 38, 98, 99]) = Some (0, s') \<and>
    queued_snac demo_session 0 9 7 0 [1, 97] s'"
  using changevisibility_wire [OF can_queue_demo(1), of 7 "[97, 38, 98, 99]" quiet_client]
  by (auto simp: name_wire_def)

lemma info_wire_short:
  assumes "0 \<in> set (ui_sn ui)" "length (ui_sn ui) = 33" "length (selected (ui_capabilities ui)) \<le> 16"
  shows "length (info_wire ui) \<le> 400"
proof -
  have "length (c_string_of (ui_sn ui)) \<le> 32" using c_string_shorter [OF assms(1)] assms(2) by simp
  moreover have "length (chain_wire (info_tlvs ui)) \<le> 296"
    using selected_len [of "ui_capabilities ui"] assms(3)
    by (simp add: info_tlvs_def opt_def Let_def tlv_wire_def)
  ultimately show ?thesis by (simp add: info_wire_def)
qed

text \<open>Announcing a buddy queues one SNAC with its user information, and the peer that gets
  such a SNAC (or the one for a departure) tells its client the information that came in.\<close>

theorem buddy_arrival_reported:
  assumes "can_queue s a" "bs_ok bs" "mem_ok t" "unread bs = info_wire ui @ rest" "ty = 0x000b \<or> ty = 0x000c"
    and ui: "0 \<in> set (ui_sn ui)" "length (ui_sn ui) = 33" "length (selected (ui_capabilities ui)) \<le> 16"
  shows "(\<exists>s'. aim_sendbuddyoncoming cl s (Some a) (Some ui) = Some (0, s') \<and>
      queued_snac s a 0x0003 0x000b (snacid_next s) (info_wire ui) s' \<and> remembered s 0x0003 0x000b None s') \<and>
    buddylist_snachandler cl' m rx \<lparr>ms_family = 3, ms_subtype = ty, ms_flags = fl, ms_id = i\<rparr> bs t =
      call_user cl' t (fr_conn rx) 3 ty 0 (Some rx) [ArgUserinfo (read_back ui)]
        (adv (length (info_wire ui)) bs)"
proof (intro conjI)
  let ?body = "\<lambda>bs s. do { (_, bs, s) \<leftarrow> aim_putuserinfo bs ui s; Some (bs, s) }"
  have "writes ?body (info_wire ui) u" if "same_queue s u" for u
    using that assms(1) putuserinfo_ok [of _ u, OF _ _ ui(1,3)] by (auto simp: writes_def same_queue_def can_queue_def)
  with cached_request [OF assms(1), of "info_wire ui" 1152 ?body cl 3 "0xb" None 3 "0xb"] info_wire_short [OF ui]
  show "\<exists>s'. aim_sendbuddyoncoming cl s (Some a) (Some ui) = Some (0, s') \<and>
      queued_snac s a 0x0003 0x000b (snacid_next s) (info_wire ui) s' \<and> remembered s 0x0003 0x000b None s'"
    by (simp add: aim_sendbuddyoncoming_def)
  show "buddylist_snachandler cl' m rx \<lparr>ms_family = 3, ms_subtype = ty, ms_flags = fl, ms_id = i\<rparr> bs t =
      call_user cl' t (fr_conn rx) 3 ty 0 (Some rx) [ArgUserinfo (read_back ui)] (adv (length (info_wire ui)) bs)"
    using assms(5) extract_wire [OF assms(2,3) ui assms(4)]
    by (auto simp: buddylist_snachandler_def buddychange_def)
qed

theorem buddy_arrival_reported_witness:
  "\<exists>s'. aim_sendbuddyoncoming quiet_client demo_session (Some 0) (Some zero_userinfo) = Some (0, s') \<and>
    queued_snac demo_session 0 3 0xb 0 [0, 0, 0, 0, 0] s'"
proof -
  let ?bs = "aim_bstream_init [0, 0, 0, 0, 0] 5"
  have "c_string_of (ui_sn zero_userinfo) = []" by (simp add: zero_userinfo_def c_string_of_def)
  then have w: "info_wire zero_userinfo = [0, 0, 0, 0, 0]"
    by (simp add: info_wire_def info_tlvs_def opt_def present_defs zero_userinfo_def aimutil_put16_def)
  then have "unread ?bs = info_wire zero_userinfo @ []" by simp
  with buddy_arrival_reported [OF can_queue_demo(1), of ?bs "session0 0" zero_userinfo "[]" "0xb" quiet_client
      quiet_client misc_module "demo_frame 2 [] None" 0 0] w
  show ?thesis by (auto simp: zero_userinfo_def selected_def)
qed

end
