(* ===== verification/Admin.thy ===== *)
theory Admin
  imports Locate
begin

text \<open>
  Account administration: \<^verbatim>\<open>src/admin.c\<close>.
\<close>

subsection \<open>Replies\<close>

text \<open>The elements of one block. A value that cannot be read is a null pointer.\<close>

fun infochange_tlvs ::
  "client \<Rightarrow> aim_frame \<Rightarrow> aim_modsnac \<Rightarrow> u16 \<Rightarrow> nat \<Rightarrow> bstream \<Rightarrow> aim_session
   \<Rightarrow> (bstream \<times> aim_session) option" where
  "infochange_tlvs cl rx snac perms 0 bs s = Some (bs, s)"
| "infochange_tlvs cl rx snac perms (Suc tlvcount) bs s =
     (if aim_bstream_empty bs = 0 then Some (bs, s)
      else do {
        (type, bs) \<leftarrow> aimbs_get16 bs;
        (len, bs) \<leftarrow> aimbs_get16 bs;
        let str = (type = 0x0011 \<or> type = 0x0004);
        (val, bs, s) \<leftarrow> (if str then aimbs_getstr bs (uint len) s else aimbs_getraw bs (uint len) s);
        (_, bs, s) \<leftarrow> call_user cl s (fr_conn rx) (ms_family snac) (ms_subtype snac) 0 (Some rx)
          [ArgInt (if ms_subtype snac = 0x0005 then 1 else 0), ArgInt (uint perms), ArgInt (uint type),
           ArgInt (uint len), ArgBytes val, ArgInt (if str then 1 else 0)] bs;
        infochange_tlvs cl rx snac perms tlvcount bs s
      })"

text \<open>A last byte that is left over is never consumed, so the loop may not end.\<close>

partial_function (option) infochange_loop ::
  "client \<Rightarrow> aim_frame \<Rightarrow> aim_modsnac \<Rightarrow> bstream \<Rightarrow> aim_session \<Rightarrow> (bstream \<times> aim_session) option" where
  "infochange_loop cl rx snac bs s =
     (if aim_bstream_empty bs = 0 then Some (bs, s)
      else do {
        (perms, bs) \<leftarrow> aimbs_get16 bs;
        (tlvcount, bs) \<leftarrow> aimbs_get16 bs;
        (bs, s) \<leftarrow> infochange_tlvs cl rx snac perms (unat tlvcount) bs s;
        infochange_loop cl rx snac bs s
      })"

definition infochange :: "client \<Rightarrow> snachandler" where
  "infochange cl m rx snac bs s = do {
     (bs, s) \<leftarrow> infochange_loop cl rx snac bs s;
     Some (1, bs, s)
   }"

definition accountconfirm :: "client \<Rightarrow> snachandler" where
  "accountconfirm cl m rx snac bs s = do {
     (status, bs) \<leftarrow> aimbs_get16 bs;
     call_user cl s (fr_conn rx) (ms_family snac) (ms_subtype snac) 0 (Some rx) [ArgInt (uint status)] bs
   }"

definition admin_snachandler :: "client \<Rightarrow> snachandler" where
  "admin_snachandler cl m rx snac bs s =
     (if ms_subtype snac = 0x0003 \<or> ms_subtype snac = 0x0005 then infochange cl m rx snac bs s
      else if ms_subtype snac = 0x0007 then accountconfirm cl m rx snac bs s
      else Some (0, bs, s))"

subsection \<open>Requests\<close>

definition aim_admin_changepasswd ::
  "client \<Rightarrow> aim_session \<Rightarrow> nat option \<Rightarrow> cstring \<Rightarrow> cstring \<Rightarrow> (int \<times> aim_session) option" where
  "aim_admin_changepasswd cl s conn newpw curpw =
     snac_frame cl s conn (10 + 4 + int (length curpw) + 4 + int (length newpw))
       (cached_id 0x0007 0x0004 None) 0x0007 0x0004
       (\<lambda>bs s. do {
          (ts, s) \<leftarrow> add_str [] 0x0002 newpw s;
          (ts, s) \<leftarrow> add_str ts 0x0012 curpw s;
          put_chain ts bs s
        })"

definition aim_admin_reqconfirm :: "client \<Rightarrow> aim_session \<Rightarrow> nat option \<Rightarrow> (int \<times> aim_session) option" where
  "aim_admin_reqconfirm cl s conn = aim_genericreq_n cl s conn 0x0007 0x0006"

text \<open>The request is remembered as one of the locate family.\<close>

definition aim_admin_getinfo ::
  "client \<Rightarrow> aim_session \<Rightarrow> nat option \<Rightarrow> u16 \<Rightarrow> (int \<times> aim_session) option" where
  "aim_admin_getinfo cl s conn info =
     snac_frame cl s conn 14 (cached_id 0x0002 0x0002 None) 0x0007 0x0002
       (\<lambda>bs s. do {
          (_, bs) \<leftarrow> aimbs_put16 bs info;
          (_, bs) \<leftarrow> aimbs_put16 bs 0x0000;
          Some (bs, s)
        })"

definition aim_admin_setemail ::
  "client \<Rightarrow> aim_session \<Rightarrow> nat option \<Rightarrow> cstring \<Rightarrow> (int \<times> aim_session) option" where
  "aim_admin_setemail cl s conn newemail =
     snac_frame cl s conn (10 + 2 + 2 + int (length newemail)) (cached_id 0x0007 0x0004 None) 0x0007 0x0004
       (\<lambda>bs s. do { (ts, s) \<leftarrow> add_str [] 0x0011 newemail s; put_chain ts bs s })"

definition aim_admin_setnick ::
  "client \<Rightarrow> aim_session \<Rightarrow> nat option \<Rightarrow> cstring \<Rightarrow> (int \<times> aim_session) option" where
  "aim_admin_setnick cl s conn newnick =
     snac_frame cl s conn (10 + 2 + 2 + int (length newnick)) (cached_id 0x0007 0x0004 None) 0x0007 0x0004
       (\<lambda>bs s. do { (ts, s) \<leftarrow> add_str [] 0x0001 newnick s; put_chain ts bs s })"

section \<open>What a reply reports\<close>

text \<open>
  A callback that looks at its arguments only: it returns, leaves the stream of the frame where
  it is and keeps what \<open>I\<close> says of the session.
\<close>

definition watching :: "(aim_session \<Rightarrow> bool) \<Rightarrow> client \<Rightarrow> aim_frame \<Rightarrow> u16 \<Rightarrow> u16 \<Rightarrow> bool" where
  "watching I cl rx f t \<longleftrightarrow>
     (\<forall>s. I s \<longrightarrow> mem_ok s \<and>
        (\<forall>args bs. \<exists>r s'. call_user cl s (fr_conn rx) f t 0 (Some rx) args bs = Some (r, bs, s') \<and> I s'))"

text \<open>A series of calls, each with its arguments and the stream as it stands then.\<close>

primrec tell ::
  "client \<Rightarrow> aim_frame \<Rightarrow> u16 \<Rightarrow> u16 \<Rightarrow> (cb_arg list \<times> bstream) list \<Rightarrow> aim_session \<Rightarrow> aim_session option" where
  "tell cl rx f t [] s = Some s"
| "tell cl rx f t (x # xs) s = do {
     (_, _, s) \<leftarrow> call_user cl s (fr_conn rx) f t 0 (Some rx) (fst x) (snd x);
     tell cl rx f t xs s
   }"

lemma tell_append: "tell cl rx f t (xs @ ys) s = do { s \<leftarrow> tell cl rx f t xs s; tell cl rx f t ys s }"
  by (induction xs arbitrary: s) (auto intro!: Option.bind_cong)

lemma watching_call:
  assumes "watching I cl rx f t" "I s"
  obtains r s' where "call_user cl s (fr_conn rx) f t 0 (Some rx) args bs = Some (r, bs, s')" "I s'" "mem_ok s" "mem_ok s'"
  using assms unfolding watching_def by metis

lemma tell_watching: "watching I cl rx f t \<Longrightarrow> I s \<Longrightarrow> \<exists>s'. tell cl rx f t xs s = Some s' \<and> I s'"
proof (induction xs arbitrary: s)
  case (Cons x xs)
  from watching_call [OF Cons.prems] obtain r s' where
    "call_user cl s (fr_conn rx) f t 0 (Some rx) (fst x) (snd x) = Some (r, snd x, s')" "I s'" by metis
  with Cons show ?case by simp
qed simp

text \<open>The calls for one block of elements, and for all blocks.\<close>

definition admin_args :: "aim_modsnac \<Rightarrow> u16 \<Rightarrow> tlv \<Rightarrow> cb_arg list" where
  "admin_args snac p t =
     (let str = (tlv_type t = 0x0011 \<or> tlv_type t = 0x0004)
      in [ArgInt (if ms_subtype snac = 0x0005 then 1 else 0), ArgInt (uint p), ArgInt (uint (tlv_type t)),
          ArgInt (uint (tlv_length t)), ArgBytes (Some (tlv_val t @ (if str then [0] else []))),
          ArgInt (if str then 1 else 0)])"

primrec tlv_calls :: "aim_modsnac \<Rightarrow> u16 \<Rightarrow> tlvlist \<Rightarrow> bstream \<Rightarrow> (cb_arg list \<times> bstream) list" where
  "tlv_calls snac p [] bs = []"
| "tlv_calls snac p (t # ts) bs =
     (admin_args snac p t, adv (length (tlv_wire t)) bs) # tlv_calls snac p ts (adv (length (tlv_wire t)) bs)"

definition block_wire :: "u16 \<times> tlvlist \<Rightarrow> u8 list" where
  "block_wire b = aimutil_put16 (fst b) @ aimutil_put16 (of_nat (length (snd b))) @ chain_wire (snd b)"

definition block_ok :: "u16 \<times> tlvlist \<Rightarrow> bool" where
  "block_ok b \<longleftrightarrow> chain_ok (snd b) \<and> length (snd b) < 65536"

primrec block_calls :: "aim_modsnac \<Rightarrow> (u16 \<times> tlvlist) list \<Rightarrow> bstream \<Rightarrow> (cb_arg list \<times> bstream) list" where
  "block_calls snac [] bs = []"
| "block_calls snac (b # blocks) bs =
     tlv_calls snac (fst b) (snd b) (adv 4 bs) @ block_calls snac blocks (adv (length (block_wire b)) bs)"

lemma infochange_tlvs_ok:
  assumes "watching I cl rx (ms_family snac) (ms_subtype snac)"
  shows "I s \<Longrightarrow> bs_ok bs \<Longrightarrow> chain_ok ts \<Longrightarrow> unread bs = chain_wire ts @ rest \<Longrightarrow>
    infochange_tlvs cl rx snac p (length ts) bs s =
      do { s \<leftarrow> tell cl rx (ms_family snac) (ms_subtype snac) (tlv_calls snac p ts bs) s;
           Some (adv (length (chain_wire ts)) bs, s) }"
proof (induction ts arbitrary: bs s)
  case (Cons t ts)
  let ?n = "unat (tlv_length t)"
  have ok: "tlv_ok t" "chain_ok ts" using Cons.prems(3) by simp_all
  note len = length_tlv_val [OF ok(1)]
  have m: "mem_ok s" using assms Cons.prems(1) by (simp add: watching_def)
  have u: "unread bs = aimutil_put16 (tlv_type t) @ aimutil_put16 (tlv_length t) @ tlv_val t @ chain_wire ts @ rest"
    using Cons.prems(4) by (simp add: tlv_wire_def)
  have r: "4 + ?n \<le> room bs" using length_unread [OF Cons.prems(2)] u len by simp
  have g: "aimbs_get16 bs = Some (tlv_type t, adv 2 bs)"
    "aimbs_get16 (adv 2 bs) = Some (tlv_length t, adv 4 bs)"
    using get16_wire [OF Cons.prems(2) u] get16_wire [of "adv 2 bs" "tlv_length t"] Cons.prems(2) u r by simp_all
  have v: "aimbs_getraw (adv 4 bs) (uint (tlv_length t)) s = Some (Some (tlv_val t), adv (4 + ?n) bs, s)"
    "aimbs_getstr (adv 4 bs) (uint (tlv_length t)) s = Some (Some (tlv_val t @ [0]), adv (4 + ?n) bs, s)"
    using Cons.prems(2) m u r len by (simp_all add: getraw_ok getstr_ok)
  obtain q s' where c: "call_user cl s (fr_conn rx) (ms_family snac) (ms_subtype snac) 0 (Some rx)
      (admin_args snac p t) (adv (4 + ?n) bs) = Some (q, adv (4 + ?n) bs, s')" "I s'"
    using watching_call [OF assms Cons.prems(1)] by metis
  have "infochange_tlvs cl rx snac p (length ts) (adv (4 + ?n) bs) s' =
      do { s \<leftarrow> tell cl rx (ms_family snac) (ms_subtype snac) (tlv_calls snac p ts (adv (4 + ?n) bs)) s';
           Some (adv (length (chain_wire ts)) (adv (4 + ?n) bs), s) }"
    using Cons.IH [OF c(2), of "adv (4 + ?n) bs"] Cons.prems(2) ok u r len by simp
  moreover have "aim_bstream_empty bs \<noteq> 0" using empty_eq [OF Cons.prems(2)] r by simp
  ultimately show ?case
    using g v c len by (auto simp: admin_args_def Let_def length_tlv_wire [OF ok(1)] add_ac)
qed simp

lemma infochange_loop_ok:
  assumes "watching I cl rx (ms_family snac) (ms_subtype snac)"
  shows "I s \<Longrightarrow> bs_ok bs \<Longrightarrow> list_all block_ok blocks \<Longrightarrow>
    unread bs = concat (map block_wire blocks) @ rest \<Longrightarrow>
    infochange_loop cl rx snac bs s =
      do { s \<leftarrow> tell cl rx (ms_family snac) (ms_subtype snac) (block_calls snac blocks bs) s;
           infochange_loop cl rx snac (adv (length (concat (map block_wire blocks))) bs) s }"
proof (induction blocks arbitrary: bs s)
  case (Cons b blocks)
  let ?w = "chain_wire (snd b)"
  have ok: "chain_ok (snd b)" "length (snd b) < 65536" "list_all block_ok blocks"
    using Cons.prems(3) by (simp_all add: block_ok_def [of b])
  have u: "unread bs = aimutil_put16 (fst b) @ aimutil_put16 (of_nat (length (snd b))) @
      ?w @ concat (map block_wire blocks) @ rest"
    using Cons.prems(4) by (simp add: block_wire_def [of b])
  have r: "4 + length ?w \<le> room bs" using length_unread [OF Cons.prems(2)] u by simp
  have g: "aimbs_get16 bs = Some (fst b, adv 2 bs)"
    "aimbs_get16 (adv 2 bs) = Some (of_nat (length (snd b)), adv 4 bs)"
    using get16_wire [OF Cons.prems(2) u] get16_wire [of "adv 2 bs" "of_nat (length (snd b))"] Cons.prems(2) u r
    by simp_all
  have t: "infochange_tlvs cl rx snac (fst b) (length (snd b)) (adv 4 bs) s =
      do { s \<leftarrow> tell cl rx (ms_family snac) (ms_subtype snac) (tlv_calls snac (fst b) (snd b) (adv 4 bs)) s;
           Some (adv (length ?w) (adv 4 bs), s) }"
    using infochange_tlvs_ok [OF assms Cons.prems(1) _ ok(1), of "adv 4 bs"] Cons.prems(2) u r by simp
  have IH: "infochange_loop cl rx snac (adv (4 + length ?w) bs) t =
      do { s \<leftarrow> tell cl rx (ms_family snac) (ms_subtype snac) (block_calls snac blocks (adv (4 + length ?w) bs)) t;
           infochange_loop cl rx snac (adv (length (concat (map block_wire blocks))) (adv (4 + length ?w) bs)) s }"
    if "I t" for t
    using Cons.IH [OF that, of "adv (4 + length ?w) bs"] Cons.prems(2) ok(3) u r by simp
  obtain s' where "tell cl rx (ms_family snac) (ms_subtype snac) (tlv_calls snac (fst b) (snd b) (adv 4 bs)) s = Some s'" "I s'"
    using tell_watching [OF assms Cons.prems(1)] by blast
  moreover have "aim_bstream_empty bs \<noteq> 0" using empty_eq [OF Cons.prems(2)] r by simp
  moreover have "length (block_wire b) = 4 + length ?w" by (simp add: block_wire_def)
  ultimately show ?case
    using g t IH ok(2) by (subst infochange_loop.simps) (simp add: tell_append add_ac)
qed simp

text \<open>With a byte left over that is no header the loop never ends.\<close>

lemma infochange_loop_stray:
  assumes "bs_ok bs" "room bs = 1"
  shows "infochange_loop cl rx snac bs s = None"
proof -
  have "infochange_loop cl rx snac b z = Some y \<Longrightarrow> \<not> (bs_ok b \<and> room b = 1)" for b z y
    by (erule infochange_loop.raw_induct [rotated]) (auto simp: empty_eq stream_simps split: bind_splits)
  with assms show ?thesis by (cases "infochange_loop cl rx snac bs s") auto
qed

text \<open>C40: a reply made up of blocks of account data calls the client once for every element, in
  order, with the permissions of its block, the value (a string for the types 4 and 17) and the
  flag that tells a change from a query, and takes the SNAC; a stray byte at the end makes the
  module loop for ever.\<close>

theorem infochange_reports:
  assumes "watching I cl rx (ms_family snac) (ms_subtype snac)" "I s" "bs_ok bs" "list_all block_ok blocks"
    "unread bs = concat (map block_wire blocks) @ rest"
  shows "(rest = [] \<longrightarrow> infochange cl m rx snac bs s =
      do { s \<leftarrow> tell cl rx (ms_family snac) (ms_subtype snac) (block_calls snac blocks bs) s;
           Some (1, adv (room bs) bs, s) }) \<and>
    (length rest = 1 \<longrightarrow> infochange cl m rx snac bs s = None)"
proof -
  let ?n = "length (concat (map block_wire blocks))"
  obtain s' where s': "tell cl rx (ms_family snac) (ms_subtype snac) (block_calls snac blocks bs) s = Some s'"
    using tell_watching [OF assms(1,2)] by blast
  have r: "room bs = ?n + length rest" using length_unread [OF assms(3)] assms(5) by simp
  note l = infochange_loop_ok [OF assms]
  have "infochange_loop cl rx snac (adv ?n bs) s' = Some (adv ?n bs, s')" if "rest = []"
    using that r assms(3) by (subst infochange_loop.simps) (simp add: empty_eq)
  moreover have "infochange_loop cl rx snac (adv ?n bs) s' = None" if "length rest = 1"
    using that r assms(3) by (intro infochange_loop_stray) simp_all
  ultimately show ?thesis
    using l s' r by (simp add: infochange_def)
qed

theorem infochange_reports_witness:
  "infochange quiet_client misc_module (demo_frame 2 [] (Some 0))
     \<lparr>ms_family = 7, ms_subtype = 3, ms_flags = 0, ms_id = 0\<rparr>
     (aim_bstream_init [0, 3, 0, 1, 0, 17, 0, 1, 109, 0] 10) demo_session = None"
proof -
  have w: "watching (\<lambda>s. s = demo_session) quiet_client (demo_frame 2 [] (Some 0)) 7 3"
    by (auto simp: watching_def call_user_def aim_callhandler_def demo_frame_def)
  show ?thesis
    using infochange_reports [of "\<lambda>s. s = demo_session" quiet_client "demo_frame 2 [] (Some 0)"
        "\<lparr>ms_family = 7, ms_subtype = 3, ms_flags = 0, ms_id = 0\<rparr>" demo_session
        "aim_bstream_init [0, 3, 0, 1, 0, 17, 0, 1, 109, 0] 10" "[(3, [mk_tlv 17 [109]])]" "[0]" misc_module] w
    by (simp add: block_ok_def block_wire_def tlv_wire_def aimutil_put16_def)
qed

end
