(* ===== verification/Search.thy ===== *)
theory Search
  imports Locate
begin

text \<open>
  Searching for users by address, \<^verbatim>\<open>src/search.c\<close>, and the modules that only pass a notice
  of the server on: \<^verbatim>\<open>src/stats.c\<close>, \<^verbatim>\<open>src/popups.c\<close> and \<^verbatim>\<open>src/adverts.c\<close>.
\<close>

subsection \<open>Searching\<close>

text \<open>
  The address is duplicated before it is remembered. Without memory for the duplicate a null
  pointer is copied from, unless there is no memory for that copy either.
\<close>

definition aim_usersearch_address ::
  "client \<Rightarrow> aim_session \<Rightarrow> nat option \<Rightarrow> cstring option \<Rightarrow> (int \<times> aim_session) option" where
  "aim_usersearch_address cl s conn address =
     (case address of
        None \<Rightarrow> Some (- EINVAL, s)
      | Some address \<Rightarrow>
          if conn = None then Some (- EINVAL, s)
          else snac_frame cl s conn (10 + int (length address))
            (\<lambda>s. let (ok, s) = malloc s
                 in if \<not> ok \<and> fst (malloc s) then None
                    else cached_id 0x000a 0x0002 (Some (SnacBytes (address @ [0]))) s)
            0x000a 0x0002
            (\<lambda>bs s. do { (_, bs) \<leftarrow> aimbs_putraw bs address (int (length address)); Some (bs, s) }))"

definition search_error :: "client \<Rightarrow> snachandler" where
  "search_error cl m rx snac bs s =
     (let (snac2, s) = aim_remsnac s (ms_id snac)
      in if snac2 = None then Some (0, bs, s)
         else call_user cl s (fr_conn rx) (ms_family snac) (ms_subtype snac) 0 (Some rx)
                [snac_arg snac2] bs)"

text \<open>
  The names found, 33 bytes each, of which the last is whatever the memory held. Growing the
  buffer is not checked.
\<close>

function search_loop ::
  "tlvlist \<Rightarrow> int \<Rightarrow> int \<Rightarrow> u8 list option \<Rightarrow> aim_session \<Rightarrow> (int \<times> u8 list option \<times> aim_session) option" where
  "search_loop tlvlist m j buf s = do {
     (cur, s) \<leftarrow> aim_gettlv_str tlvlist 0x0001 (j + 1) s;
     case cur of
       None \<Rightarrow> Some (j, buf, s)
     | Some cur \<Rightarrow>
         if j < m
         then let (ok, s) = malloc s
              in if \<not> ok then None
                 else search_loop tlvlist m (j + 1)
                   (Some ((case buf of None \<Rightarrow> [] | Some b \<Rightarrow> b) @ c_strncpy (c_string_of cur) MAXSNLEN @
                      [os_junk s (nat j * (MAXSNLEN + 1) + MAXSNLEN)])) s
         else Some (j, buf, s)
   }"
  by pat_completeness auto
termination
  by (relation "measure (\<lambda>(ts, m, j, buf, s). nat (m - j))") auto

declare search_loop.simps [simp del]

definition search_reply :: "client \<Rightarrow> snachandler" where
  "search_reply cl md rx snac bs s = do {
     let (snac2, s) = aim_remsnac s (ms_id snac);
     (tlvlist, bs, s) \<leftarrow> aim_readtlvchain bs s;
     let m = aim_counttlvchain tlvlist;
     (j, buf, s) \<leftarrow> search_loop tlvlist m 0 None s;
     call_user cl s (fr_conn rx) (ms_family snac) (ms_subtype snac) 0 (Some rx)
       [snac_arg snac2, ArgInt j, ArgBytes buf] bs
   }"

definition search_snachandler :: "client \<Rightarrow> snachandler" where
  "search_snachandler cl m rx snac bs s =
     (if ms_subtype snac = 0x0001 then search_error cl m rx snac bs s
      else if ms_subtype snac = 0x0003 then search_reply cl m rx snac bs s
      else Some (0, bs, s))"

subsection \<open>Notices\<close>

definition reportinterval :: "client \<Rightarrow> snachandler" where
  "reportinterval cl m rx snac bs s = do {
     (interval, bs) \<leftarrow> aimbs_get16 bs;
     call_user cl s (fr_conn rx) (ms_family snac) (ms_subtype snac) 0 (Some rx) [ArgInt (uint interval)] bs
   }"

definition stats_snachandler :: "client \<Rightarrow> snachandler" where
  "stats_snachandler cl m rx snac bs s =
     (if ms_subtype snac = 0x0002 then reportinterval cl m rx snac bs s else Some (0, bs, s))"

definition parsepopup :: "client \<Rightarrow> snachandler" where
  "parsepopup cl m rx snac bs s = do {
     (ts, bs, s) \<leftarrow> aim_readtlvchain bs s;
     (msg, s) \<leftarrow> aim_gettlv_str ts 0x0001 1 s;
     (url, s) \<leftarrow> aim_gettlv_str ts 0x0002 1 s;
     width \<leftarrow> aim_gettlv16 ts 0x0003 1;
     height \<leftarrow> aim_gettlv16 ts 0x0004 1;
     delay \<leftarrow> aim_gettlv16 ts 0x0005 1;
     call_user cl s (fr_conn rx) (ms_family snac) (ms_subtype snac) 0 (Some rx)
       [ArgStr (map_option c_string_of msg), ArgStr (map_option c_string_of url), ArgInt (uint width),
        ArgInt (uint height), ArgInt (uint delay)] bs
   }"

definition popups_snachandler :: "client \<Rightarrow> snachandler" where
  "popups_snachandler cl m rx snac bs s =
     (if ms_subtype snac = 0x0002 then parsepopup cl m rx snac bs s else Some (0, bs, s))"

definition aim_ads_requestads :: "client \<Rightarrow> aim_session \<Rightarrow> nat option \<Rightarrow> (int \<times> aim_session) option" where
  "aim_ads_requestads cl s conn = aim_genericreq_n cl s conn 0x0005 0x0002"

definition adverts_snachandler :: snachandler where
  "adverts_snachandler m rx snac bs s = Some (0, bs, s)"

section \<open>What a search finds\<close>

text \<open>The 33 bytes the client gets for the \<open>k\<close>-th name found.\<close>

definition name_slot :: "aim_session \<Rightarrow> nat \<Rightarrow> tlv \<Rightarrow> u8 list" where
  "name_slot s k t = c_strncpy (c_string_of (tlv_val t)) MAXSNLEN @ [os_junk s (k * (MAXSNLEN + 1) + MAXSNLEN)]"

definition name_slots :: "aim_session \<Rightarrow> nat \<Rightarrow> tlvlist \<Rightarrow> u8 list" where
  "name_slots s k names = concat (map2 (name_slot s) [k..<k + length names] names)"

lemma name_slots_simps [simp]:
  "name_slots s k [] = []" "name_slots s k (t # ts) = name_slot s k t @ name_slots s (Suc k) ts"
  by (simp_all add: name_slots_def upt_conv_Cons del: upt_Suc)

lemma length_name_slots: "length (name_slots s k ts) = 33 * length ts"
  by (induction ts arbitrary: k) (simp_all add: name_slot_def MAXSNLEN_def)

lemma search_loop_ok:
  assumes "mem_ok s" "chain_ok ts"
  shows "j \<le> length (of_type 1 ts) \<Longrightarrow>
    search_loop ts (int (length ts)) (int j) buf s =
      (let names = drop j (of_type 1 ts)
       in Some (int (length (of_type 1 ts)),
            if names = [] then buf else Some ((case buf of None \<Rightarrow> [] | Some b \<Rightarrow> b) @ name_slots s j names), s))"
proof (induction "length (of_type 1 ts) - j" arbitrary: j buf)
  case 0
  then have "j = length (of_type 1 ts)" by simp
  then show ?case
    using assms by (subst search_loop.simps) (simp add: gettlv_str_ok gettlv_nth nat_add_distrib)
next
  case (Suc n)
  let ?L = "of_type 1 ts"
  have j: "j < length ?L" using Suc.hyps(2) by simp
  then have "j < length ts" by (simp add: of_type_def) (meson length_filter_le less_le_trans)
  moreover have "drop j ?L = ?L ! j # drop (Suc j) ?L" using Cons_nth_drop_Suc [OF j] by simp
  moreover have "search_loop ts (int (length ts)) (int (Suc j)) b s =
      (let names = drop (Suc j) ?L
       in Some (int (length ?L),
            if names = [] then b else Some ((case b of None \<Rightarrow> [] | Some b \<Rightarrow> b) @ name_slots s (Suc j) names), s))"
    for b using Suc.hyps(1) [of "Suc j" b] Suc.hyps(2) j by simp
  ultimately show ?case
    using assms j by (subst search_loop.simps)
      (simp add: gettlv_str_ok gettlv_nth nat_add_distrib name_slot_def add_ac Let_def)
qed

text \<open>The reply to a search for an address gives the client the address that was searched for,
  the number of names found and all the names, each cut to 32 bytes in a slot of 33 of which the
  last byte was never written, the last one sent first; the request is used up.\<close>

theorem search_reply_names:
  assumes "bs_ok bs" "unread bs = chain_wire ts" "chain_ok ts"
    and "mem_ok s" "aim_remsnac s i = (snac2, s2)"
  shows "search_snachandler cl m rx \<lparr>ms_family = 0xa, ms_subtype = 3, ms_flags = fl, ms_id = i\<rparr> bs s =
    (let names = of_type 1 (rev ts)
     in call_user cl s2 (fr_conn rx) 0xa 3 0 (Some rx)
          [snac_arg snac2, ArgInt (int (length names)),
           ArgBytes (if names = [] then None else Some (name_slots s2 0 names))]
          (adv (length (chain_wire ts)) bs)) \<and>
    length (name_slots s2 0 (of_type 1 (rev ts))) = 33 * length (of_type 1 (rev ts))"
proof -
  have "mem_ok s2" using remsnac_sel(2) [of s i] assms(4,5) by simp
  then show ?thesis
    using readtlvchain_exact [OF assms(1) _ assms(3,2), of s2] search_loop_ok [of s2 "rev ts" 0 None] assms(3,5)
    by (simp add: search_snachandler_def search_reply_def Let_def count_length length_name_slots)
qed

theorem search_reply_names_witness:
  "search_snachandler quiet_client misc_module (demo_frame 2 [] (Some 0))
     \<lparr>ms_family = 0xa, ms_subtype = 3, ms_flags = 0, ms_id = 0\<rparr>
     (aim_bstream_init [0, 1, 0, 1, 109] 5) demo_session =
   Some (0, adv 5 (aim_bstream_init [0, 1, 0, 1, 109] 5), snd (aim_remsnac demo_session 0))"
proof -
  have "aim_remsnac demo_session 0 = (fst (aim_remsnac demo_session 0), snd (aim_remsnac demo_session 0))" by simp
  from search_reply_names [OF _ _ _ _ this, of "aim_bstream_init [0, 1, 0, 1, 109] 5" "[mk_tlv 1 [109]]"
      quiet_client misc_module "demo_frame 2 [] (Some 0)" 0]
  show ?thesis
    by (simp add: tlv_wire_def aimutil_put16_def call_user_def aim_callhandler_def demo_frame_def remsnac_sel(2) Let_def)
qed

end
