(* ===== verification/Ssi.thy ===== *)
theory Ssi
  imports Locate
begin

text \<open>
  Information stored on the server: \<^verbatim>\<open>src/ssi.c\<close>.
\<close>

subsection \<open>Requests\<close>

definition aim_ssi_reqrights :: "client \<Rightarrow> aim_session \<Rightarrow> nat option \<Rightarrow> (int \<times> aim_session) option" where
  "aim_ssi_reqrights cl s conn = aim_genericreq_n cl s conn 0x0013 0x0002"

definition aim_ssi_reqdata ::
  "client \<Rightarrow> aim_session \<Rightarrow> nat option \<Rightarrow> int \<Rightarrow> u16 \<Rightarrow> (int \<times> aim_session) option" where
  "aim_ssi_reqdata cl s conn localstamp localrev =
     (if conn = None then Some (- EINVAL, s)
      else snac_frame cl s conn (10 + 4 + 2) (cached_id 0x0013 0x0005 None) 0x0013 0x0005
        (\<lambda>bs s. do {
           (_, bs) \<leftarrow> aimbs_put32 bs (word_of_int localstamp);
           (_, bs) \<leftarrow> aimbs_put16 bs localrev;
           Some (bs, s)
         }))"

definition aim_ssi_enable :: "client \<Rightarrow> aim_session \<Rightarrow> nat option \<Rightarrow> (int \<times> aim_session) option" where
  "aim_ssi_enable cl s conn = aim_genericreq_n cl s conn 0x0013 0x0007"

definition aim_ssi_modbegin :: "client \<Rightarrow> aim_session \<Rightarrow> nat option \<Rightarrow> (int \<times> aim_session) option" where
  "aim_ssi_modbegin cl s conn = aim_genericreq_n cl s conn 0x0013 0x0011"

definition aim_ssi_modend :: "client \<Rightarrow> aim_session \<Rightarrow> nat option \<Rightarrow> (int \<times> aim_session) option" where
  "aim_ssi_modend cl s conn = aim_genericreq_n cl s conn 0x0013 0x0012"

subsection \<open>Replies\<close>

record aim_ssi_item =
  ssi_name :: "u8 list option"
  ssi_gid :: u16
  ssi_bid :: u16
  ssi_type :: u16
  ssi_data :: tlvlist

definition parserights :: "client \<Rightarrow> snachandler" where
  "parserights cl m rx snac bs s =
     call_user cl s (fr_conn rx) (ms_family snac) (ms_subtype snac) 0 (Some rx) [] bs"

text \<open>
  One item. The stream of its elements starts where the items stream stands and has the length
  the item states, whatever is left of the buffer.
\<close>

definition parse_item :: "bstream \<Rightarrow> aim_session \<Rightarrow> (aim_ssi_item \<times> bstream \<times> aim_session) option" where
  "parse_item bs s = do {
     (namelen, bs) \<leftarrow> aimbs_get16 bs;
     (name, bs, s) \<leftarrow> (if namelen \<noteq> 0 then aimbs_getstr bs (uint namelen) s else Some (None, bs, s));
     (gid, bs) \<leftarrow> aimbs_get16 bs;
     (bid, bs) \<leftarrow> aimbs_get16 bs;
     (type, bs) \<leftarrow> aimbs_get16 bs;
     (tbslen, bs) \<leftarrow> aimbs_get16 bs;
     (data, bs, s) \<leftarrow>
       (if tbslen \<noteq> 0 then do {
          let tbs = aim_bstream_init (drop (bs_off bs) (bs_data bs)) (uint tbslen);
          (data, _, s) \<leftarrow> aim_readtlvchain tbs s;
          Some (data, snd (aim_bstream_advance bs (uint tbslen)), s)
        }
        else Some ([], bs, s));
     Some (\<lparr>ssi_name = name, ssi_gid = gid, ssi_bid = bid, ssi_type = type, ssi_data = data\<rparr>, bs, s)
   }"

partial_function (option) parsedata_loop ::
  "bstream \<Rightarrow> aim_ssi_item list \<Rightarrow> aim_session \<Rightarrow> (aim_ssi_item list \<times> bstream \<times> aim_session) option" where
  "parsedata_loop bs list s =
     (if 4 < aim_bstream_empty bs
      then let (ok, s) = malloc s
           in if \<not> ok then Some (list, bs, s)
              else do {
                (nl, bs, s) \<leftarrow> parse_item bs s;
                parsedata_loop bs (list @ [nl]) s
              }
      else Some (list, bs, s))"

text \<open>An item as a callback sees it.\<close>

definition tlv_arg :: "tlv \<Rightarrow> cb_arg" where
  "tlv_arg t = ArgList [ArgInt (uint (tlv_type t)), ArgInt (uint (tlv_length t)), ArgBytes (tlv_value t)]"

definition item_arg :: "aim_ssi_item \<Rightarrow> cb_arg" where
  "item_arg it = ArgList [ArgBytes (ssi_name it), ArgInt (uint (ssi_gid it)), ArgInt (uint (ssi_bid it)),
     ArgInt (uint (ssi_type it)), ArgList (map tlv_arg (ssi_data it))]"

definition parsedata :: "client \<Rightarrow> snachandler" where
  "parsedata cl m rx snac bs s = do {
     (fmtver, bs) \<leftarrow> aimbs_get8 bs;
     (itemcount, bs) \<leftarrow> aimbs_get16 bs;
     (list, bs, s) \<leftarrow> parsedata_loop bs [] s;
     (stamp, bs) \<leftarrow> aimbs_get32 bs;
     call_user cl s (fr_conn rx) (ms_family snac) (ms_subtype snac) 0 (Some rx)
       [ArgInt (uint fmtver), ArgInt (uint itemcount), ArgInt (uint stamp), ArgList (map item_arg list)] bs
   }"

definition parsedataunchanged :: "client \<Rightarrow> snachandler" where
  "parsedataunchanged cl m rx snac bs s =
     call_user cl s (fr_conn rx) (ms_family snac) (ms_subtype snac) 0 (Some rx) [] bs"

definition ssi_snachandler :: "client \<Rightarrow> snachandler" where
  "ssi_snachandler cl m rx snac bs s =
     (if ms_subtype snac = 0x0003 then parserights cl m rx snac bs s
      else if ms_subtype snac = 0x0006 then parsedata cl m rx snac bs s
      else if ms_subtype snac = 0x000f then parsedataunchanged cl m rx snac bs s
      else Some (0, bs, s))"

section \<open>Receiving stored items\<close>

text \<open>The bytes of an item whose elements are given in the order in which they are sent.\<close>

definition name_bytes :: "aim_ssi_item \<Rightarrow> u8 list" where
  "name_bytes it = (case ssi_name it of None \<Rightarrow> [] | Some n \<Rightarrow> butlast n)"

definition item_wire :: "aim_ssi_item \<Rightarrow> u8 list" where
  "item_wire it = aimutil_put16 (of_nat (length (name_bytes it))) @ name_bytes it @
     aimutil_put16 (ssi_gid it) @ aimutil_put16 (ssi_bid it) @ aimutil_put16 (ssi_type it) @
     aimutil_put16 (of_nat (length (chain_wire (ssi_data it)))) @ chain_wire (ssi_data it)"

text \<open>The name is empty or a C string in its buffer.\<close>

definition item_ok :: "aim_ssi_item \<Rightarrow> bool" where
  "item_ok it \<longleftrightarrow> ssi_name it = (if name_bytes it = [] then None else Some (name_bytes it @ [0])) \<and>
     length (name_bytes it) < 65536 \<and> chain_ok (ssi_data it) \<and> length (chain_wire (ssi_data it)) < 65536"

text \<open>The list of elements comes out newest first.\<close>

definition read_item :: "aim_ssi_item \<Rightarrow> aim_ssi_item" where
  "read_item it = it\<lparr>ssi_data := rev (ssi_data it)\<rparr>"

lemma of_nat16_zero: "n < 65536 \<Longrightarrow> (of_nat n :: u16) = 0 \<longleftrightarrow> n = 0"
  unfolding unat_eq_zero [symmetric] by simp

lemma parse_item_ok:
  assumes "bs_ok bs" "mem_ok s" "item_ok it" "unread bs = item_wire it @ rest"
  shows "parse_item bs s = Some (read_item it, adv (length (item_wire it)) bs, s)"
proof -
  let ?n = "length (name_bytes it)" and ?c = "chain_wire (ssi_data it)"
  have ok: "?n < 65536" "chain_ok (ssi_data it)" "length ?c < 65536"
    "ssi_name it = (if name_bytes it = [] then None else Some (name_bytes it @ [0]))"
    using assms(3) by (simp_all add: item_ok_def)
  have u: "unread bs = aimutil_put16 (of_nat ?n) @ name_bytes it @ aimutil_put16 (ssi_gid it) @
      aimutil_put16 (ssi_bid it) @ aimutil_put16 (ssi_type it) @ aimutil_put16 (of_nat (length ?c)) @ ?c @ rest"
    using assms(4) by (simp add: item_wire_def)
  have r: "10 + ?n + length ?c \<le> room bs" using length_unread [OF assms(1)] u by simp
  have 1: "aimbs_get16 bs = Some (of_nat ?n, adv 2 bs)" by (rule get16_wire [OF assms(1) u])
  have 2: "(if (of_nat ?n :: u16) \<noteq> 0 then aimbs_getstr (adv 2 bs) (uint (of_nat ?n :: u16)) s
      else Some (None, adv 2 bs, s)) = Some (ssi_name it, adv (2 + ?n) bs, s)"
    using getstr_ok [OF assms(2), of "adv 2 bs" "int ?n"] assms(1) u r ok(1,4)
    by (simp add: of_nat16_zero uint_of_nat16)
  define b where "b = adv (2 + ?n) bs"
  have b: "bs_ok b" "unread b = aimutil_put16 (ssi_gid it) @ aimutil_put16 (ssi_bid it) @
      aimutil_put16 (ssi_type it) @ aimutil_put16 (of_nat (length ?c)) @ ?c @ rest" "8 + length ?c \<le> room b"
    using assms(1) u r by (simp_all add: b_def)
  have 3: "aimbs_get16 b = Some (ssi_gid it, adv 2 b)" "aimbs_get16 (adv 2 b) = Some (ssi_bid it, adv 4 b)"
    "aimbs_get16 (adv 4 b) = Some (ssi_type it, adv 6 b)"
    "aimbs_get16 (adv 6 b) = Some (of_nat (length ?c), adv 8 b)"
    using get16_wire [OF b(1,2)] get16_wire [of "adv 2 b" "ssi_bid it"] get16_wire [of "adv 4 b" "ssi_type it"]
      get16_wire [of "adv 6 b" "of_nat (length ?c)"] b by simp_all
  let ?t = "aim_bstream_init (drop (bs_off (adv 8 b)) (bs_data (adv 8 b))) (uint (of_nat (length ?c) :: u16))"
  have d: "take (length ?c) (unread (adv 8 b)) = ?c" "bs_ok (adv 8 b)" using b by simp_all
  have "length ?c \<le> length (drop (bs_off (adv 8 b)) (bs_data (adv 8 b)))"
    using d(2) b(3) by (auto simp: bs_ok_def room_def)
  moreover have "take (length ?c) (drop (bs_off (adv 8 b)) (bs_data (adv 8 b))) = ?c"
    using d b(3) unfolding unread_def by (simp add: take_drop min_def room_def split: if_splits)
  ultimately have t: "bs_ok ?t" "unread ?t = ?c"
    using ok(3) by (simp_all add: uint_of_nat16)
  have 4: "aim_readtlvchain ?t s = Some (rev (ssi_data it), adv (length ?c) ?t, s)"
    by (rule readtlvchain_exact [OF t(1) assms(2) ok(2) t(2)])
  have 5: "snd (aim_bstream_advance (adv 8 b) (uint (of_nat (length ?c) :: u16))) = adv (8 + length ?c) b"
    using d(2) b(3) ok(3) setoff_adv [of "adv 8 b" "int (length ?c)"]
    by (simp add: aim_bstream_advance_def empty_eq uint_of_nat16)
  have e: "ssi_data it = []" if "length ?c = 0"
    using that by (cases "ssi_data it") (simp_all add: tlv_wire_def aimutil_put16_def)
  have "length (item_wire it) = 10 + ?n + length ?c" by (simp add: item_wire_def)
  then have 6: "adv (8 + length ?c) b = adv (length (item_wire it)) bs" by (simp add: b_def add_ac)
  have up: "\<lparr>ssi_name = ssi_name it, ssi_gid = ssi_gid it, ssi_bid = ssi_bid it, ssi_type = ssi_type it,
      ssi_data = x\<rparr> = it\<lparr>ssi_data := x\<rparr>" for x by (cases it) simp
  have "parse_item bs s = do {
      (data, b', s) \<leftarrow> (if (of_nat (length ?c) :: u16) \<noteq> 0
        then do { (data, _, s) \<leftarrow> aim_readtlvchain ?t s;
                  Some (data, snd (aim_bstream_advance (adv 8 b) (uint (of_nat (length ?c) :: u16))), s) }
        else Some ([], adv 8 b, s));
      Some (it\<lparr>ssi_data := data\<rparr>, b', s) }"
    by (simp only: parse_item_def 1 2 [folded b_def] 3 Option.bind.bind_lunit prod.case Let_def) (simp add: up)
  also have "\<dots> = Some (read_item it, adv (8 + length ?c) b, s)"
    using 4 5 e ok(3) by (cases "length ?c = 0") (auto simp: of_nat16_zero read_item_def)
  finally show ?thesis by (simp only: 6)
qed

lemma parsedata_loop_ok:
  "bs_ok bs \<Longrightarrow> mem_ok s \<Longrightarrow> list_all item_ok items \<Longrightarrow> length rest = 4 \<Longrightarrow>
   unread bs = concat (map item_wire items) @ rest \<Longrightarrow>
   parsedata_loop bs acc s =
     Some (acc @ map read_item items, adv (length (concat (map item_wire items))) bs, s)"
proof (induction items arbitrary: bs acc)
  case Nil
  then have "room bs = 4" using length_unread [of bs] by simp
  with Nil show ?case by (subst parsedata_loop.simps) (simp add: empty_eq)
next
  case (Cons it items)
  let ?w = "item_wire it"
  have u: "unread bs = ?w @ concat (map item_wire items) @ rest" using Cons.prems(5) by simp
  have r: "10 \<le> length ?w" "length ?w + 4 \<le> room bs"
    using length_unread [OF Cons.prems(1)] u Cons.prems(4) by (simp_all add: item_wire_def)
  have "parse_item bs s = Some (read_item it, adv (length ?w) bs, s)"
    using parse_item_ok [OF Cons.prems(1,2) _ u] Cons.prems(3) by simp
  moreover have "parsedata_loop (adv (length ?w) bs) (acc @ [read_item it]) s =
      Some ((acc @ [read_item it]) @ map read_item items,
        adv (length (concat (map item_wire items))) (adv (length ?w) bs), s)"
    using Cons.IH [of "adv (length ?w) bs" "acc @ [read_item it]"] Cons.prems u r by simp
  ultimately show ?case
    using Cons.prems(1,2) r by (subst parsedata_loop.simps) (simp add: empty_eq)
qed

text \<open>C38: the stored items that the server sends are handed to the client as one list in the order
  sent, each with its name, group and item ids, type and elements (the elements newest first),
  with the version, the count and the time stamp around them, and all bytes are consumed.\<close>

theorem ssi_items_received:
  assumes "bs_ok bs" "mem_ok s" "list_all item_ok items"
    "unread bs = ver # aimutil_put16 count @ concat (map item_wire items) @ aimutil_put32 stamp"
  shows "ssi_snachandler cl m rx \<lparr>ms_family = 0x13, ms_subtype = 6, ms_flags = fl, ms_id = i\<rparr> bs s =
    call_user cl s (fr_conn rx) 0x13 6 0 (Some rx)
      [ArgInt (uint ver), ArgInt (uint count), ArgInt (uint stamp),
       ArgList (map (item_arg \<circ> read_item) items)] (adv (room bs) bs)"
proof -
  let ?w = "concat (map item_wire items)"
  have r: "room bs = 7 + length ?w" using length_unread [OF assms(1)] assms(4) by simp
  have 1: "aimbs_get8 bs = Some (ver, adv 1 bs)" by (rule get8_wire [OF assms(1,4)])
  have 2: "aimbs_get16 (adv 1 bs) = Some (count, adv 3 bs)"
    using get16_wire [of "adv 1 bs" count] assms(1,4) r by simp
  have "3 = Suc (length (aimutil_put16 count))" by simp
  then have u: "unread (adv 3 bs) = ?w @ aimutil_put32 stamp"
    using assms(4) by (simp only: unread_adv drop_Suc_Cons drop_append) simp
  have 3: "parsedata_loop (adv 3 bs) [] s = Some (map read_item items, adv (3 + length ?w) bs, s)"
    using parsedata_loop_ok [OF _ assms(2,3) _ u, of "[]"] assms(1) r by simp
  have "unread (adv (length ?w) (adv 3 bs)) = aimutil_put32 stamp @ []"
    using u by (simp only: unread_adv [of "length ?w"]) simp
  then have 4: "aimbs_get32 (adv (3 + length ?w) bs) = Some (stamp, adv (7 + length ?w) bs)"
    using get32_wire [of "adv (3 + length ?w) bs" stamp "[]"] assms(1) r by simp
  show ?thesis
    using 1 2 3 4 r by (simp add: ssi_snachandler_def parsedata_def comp_def)
qed

theorem ssi_items_received_witness:
  "ssi_snachandler quiet_client misc_module (demo_frame 2 [] (Some 0))
     \<lparr>ms_family = 0x13, ms_subtype = 6, ms_flags = 0, ms_id = 0\<rparr>
     (aim_bstream_init [0, 0, 1, 0, 1, 109, 0, 1, 0, 2, 0, 0, 0, 0, 0, 0, 0, 9] 18) demo_session =
   Some (0, adv 18 (aim_bstream_init [0, 0, 1, 0, 1, 109, 0, 1, 0, 2, 0, 0, 0, 0, 0, 0, 0, 9] 18), demo_session)"
proof -
  let ?it = "\<lparr>ssi_name = Some [109, 0], ssi_gid = 1, ssi_bid = 2, ssi_type = 0, ssi_data = []\<rparr>"
  have "list_all item_ok [?it]" by (simp add: item_ok_def name_bytes_def)
  from ssi_items_received [OF _ _ this, of
      "aim_bstream_init [0, 0, 1, 0, 1, 109, 0, 1, 0, 2, 0, 0, 0, 0, 0, 0, 0, 9] 18" demo_session 0 1 9
      quiet_client misc_module "demo_frame 2 [] (Some 0)" 0 0]
  show ?thesis
    by (simp add: item_wire_def name_bytes_def aimutil_put16_def aimutil_put32_def call_user_def
        aim_callhandler_def demo_frame_def)
qed

text \<open>C39: an item that claims two or more bytes of elements where the buffer has ended makes the
  parser read past the end of the buffer.\<close>

theorem ssi_item_overread:
  assumes "bs_ok bs" "mem_ok s" "bs_len bs = length (bs_data bs)" "2 \<le> unat n"
    "unread bs = aimutil_put16 0 @ aimutil_put16 gid @ aimutil_put16 bid @ aimutil_put16 ty @ aimutil_put16 n"
  shows "parse_item bs s = None"
proof -
  have r: "room bs = 10" using length_unread [OF assms(1)] assms(5) by simp
  have g: "aimbs_get16 bs = Some (0, adv 2 bs)" "aimbs_get16 (adv 2 bs) = Some (gid, adv 4 bs)"
    "aimbs_get16 (adv 4 bs) = Some (bid, adv 6 bs)" "aimbs_get16 (adv 6 bs) = Some (ty, adv 8 bs)"
    "aimbs_get16 (adv 8 bs) = Some (n, adv 10 bs)"
    using get16_wire [OF assms(1,5)] get16_wire [of "adv 2 bs" gid] get16_wire [of "adv 4 bs" bid]
      get16_wire [of "adv 6 bs" ty] get16_wire [of "adv 8 bs" n "[]"] assms(1,5) r by simp_all
  have "drop (bs_off bs + 10) (bs_data bs) = []"
    using r assms(1,3) by (auto simp: room_def bs_ok_def)
  moreover have "int 2 \<le> int (unat n)" "int (unat n) < int 65536"
    using assms(4) unat_u16_lt [of n] by (simp_all only: of_nat_le_iff of_nat_less_iff)
  then have "readtlv_loop (aim_bstream_init [] (uint n)) [] s = None"
    by (subst readtlv_loop.simps)
      (simp add: aimbs_get16_def aim_bstream_empty_def aim_bstream_init_def peek_def bump_def to_u16_def)
  moreover have "n \<noteq> 0" using assms(4) by auto
  ultimately show ?thesis
    using g by (simp add: parse_item_def aim_readtlvchain_def Let_def)
qed

theorem ssi_item_overread_witness:
  "parse_item (aim_bstream_init [0, 0, 0, 1, 0, 2, 0, 0, 0, 4] 10) (session0 0) = None"
  using ssi_item_overread [of "aim_bstream_init [0, 0, 0, 1, 0, 2, 0, 0, 0, 4] 10" "session0 0" 4 1 2 0]
  by (simp add: aimutil_put16_def)

end
