(* ===== verification/Md5.thy ===== *)
theory Md5
  imports Prelude
begin

text \<open>
  The message digest of \<^verbatim>\<open>src/md5.c\<close>, which the login sequence hashes the password with:
  the compression of one block, the incremental \<^verbatim>\<open>md5_append\<close> with its partial-block buffer
  and bit counter, and \<^verbatim>\<open>md5_finish\<close>. A message handed over in any pieces has the digest
  that RFC 1321 defines on the whole message. Shifts of a signed value out of its type wrap, as
  the compilers the library is built with define them.
\<close>

section \<open>State and compression\<close>

type_synonym md5_regs = "u32 \<times> u32 \<times> u32 \<times> u32"

record md5_state =
  md_count0 :: u32
  md_count1 :: u32
  md_abcd :: md5_regs
  md_buf :: "u8 list"

definition rotate_left :: "u32 \<Rightarrow> nat \<Rightarrow> u32" where
  "rotate_left x n = push_bit n x OR drop_bit (32 - n) x"

definition md5_F :: "u32 \<Rightarrow> u32 \<Rightarrow> u32 \<Rightarrow> u32" where
  "md5_F x y z = (x AND y) OR (NOT x AND z)"

definition md5_G :: "u32 \<Rightarrow> u32 \<Rightarrow> u32 \<Rightarrow> u32" where
  "md5_G x y z = (x AND z) OR (y AND NOT z)"

definition md5_H :: "u32 \<Rightarrow> u32 \<Rightarrow> u32 \<Rightarrow> u32" where
  "md5_H x y z = x XOR y XOR z"

definition md5_I :: "u32 \<Rightarrow> u32 \<Rightarrow> u32 \<Rightarrow> u32" where
  "md5_I x y z = y XOR (x OR NOT z)"

text \<open>
  One \<^verbatim>\<open>SET\<close>: the first register is replaced. The code names the registers in the order
  \<open>a b c d\<close>, \<open>d a b c\<close>, \<open>c d a b\<close>, \<open>b c d a\<close> in turn; here the tuple turns instead.
\<close>

definition md5_set ::
  "(u32 \<Rightarrow> u32 \<Rightarrow> u32 \<Rightarrow> u32) \<Rightarrow> u32 list \<Rightarrow> nat \<times> nat \<times> u32 \<Rightarrow> md5_regs \<Rightarrow> md5_regs" where
  "md5_set f X = (\<lambda>(k, sh, Ti) (a, b, c, d).
     let t = a + f b c d + X ! k + Ti in (d, rotate_left t sh + b, b, c))"

definition md5_round1 :: "(nat \<times> nat \<times> u32) list" where
  "md5_round1 = [
     (0, 7, 0xd76aa478), (1, 12, 0xe8c7b756), (2, 17, 0x242070db), (3, 22, 0xc1bdceee),
     (4, 7, 0xf57c0faf), (5, 12, 0x4787c62a), (6, 17, 0xa8304613), (7, 22, 0xfd469501),
     (8, 7, 0x698098d8), (9, 12, 0x8b44f7af), (10, 17, 0xffff5bb1), (11, 22, 0x895cd7be),
     (12, 7, 0x6b901122), (13, 12, 0xfd987193), (14, 17, 0xa679438e), (15, 22, 0x49b40821)]"

definition md5_round2 :: "(nat \<times> nat \<times> u32) list" where
  "md5_round2 = [
     (1, 5, 0xf61e2562), (6, 9, 0xc040b340), (11, 14, 0x265e5a51), (0, 20, 0xe9b6c7aa),
     (5, 5, 0xd62f105d), (10, 9, 0x02441453), (15, 14, 0xd8a1e681), (4, 20, 0xe7d3fbc8),
     (9, 5, 0x21e1cde6), (14, 9, 0xc33707d6), (3, 14, 0xf4d50d87), (8, 20, 0x455a14ed),
     (13, 5, 0xa9e3e905), (2, 9, 0xfcefa3f8), (7, 14, 0x676f02d9), (12, 20, 0x8d2a4c8a)]"

definition md5_round3 :: "(nat \<times> nat \<times> u32) list" where
  "md5_round3 = [
     (5, 4, 0xfffa3942), (8, 11, 0x8771f681), (11, 16, 0x6d9d6122), (14, 23, 0xfde5380c),
     (1, 4, 0xa4beea44), (4, 11, 0x4bdecfa9), (7, 16, 0xf6bb4b60), (10, 23, 0xbebfbc70),
     (13, 4, 0x289b7ec6), (0, 11, 0xeaa127fa), (3, 16, 0xd4ef3085), (6, 23, 0x04881d05),
     (9, 4, 0xd9d4d039), (12, 11, 0xe6db99e5), (15, 16, 0x1fa27cf8), (2, 23, 0xc4ac5665)]"

definition md5_round4 :: "(nat \<times> nat \<times> u32) list" where
  "md5_round4 = [
     (0, 6, 0xf4292244), (7, 10, 0x432aff97), (14, 15, 0xab9423a7), (5, 21, 0xfc93a039),
     (12, 6, 0x655b59c3), (3, 10, 0x8f0ccc92), (10, 15, 0xffeff47d), (1, 21, 0x85845dd1),
     (8, 6, 0x6fa87e4f), (15, 10, 0xfe2ce6e0), (6, 15, 0xa3014314), (13, 21, 0x4e0811a1),
     (4, 6, 0xf7537e82), (11, 10, 0xbd3af235), (2, 15, 0x2ad7d2bb), (9, 21, 0xeb86d391)]"

text \<open>The sixteen words of a block, least significant byte first.\<close>

definition md5_words :: "u8 list \<Rightarrow> u32 list" where
  "md5_words data = map (\<lambda>i. ucast (data ! (4 * i)) + push_bit 8 (ucast (data ! (4 * i + 1)))
     + push_bit 16 (ucast (data ! (4 * i + 2))) + push_bit 24 (ucast (data ! (4 * i + 3)))) [0..<16]"

definition md5_process :: "md5_state \<Rightarrow> u8 list \<Rightarrow> md5_state" where
  "md5_process pms data =
     (let X = md5_words data;
          (a0, b0, c0, d0) = md_abcd pms;
          r = fold (md5_set md5_F X) md5_round1 (a0, b0, c0, d0);
          r = fold (md5_set md5_G X) md5_round2 r;
          r = fold (md5_set md5_H X) md5_round3 r;
          (a, b, c, d) = fold (md5_set md5_I X) md5_round4 r
      in pms\<lparr>md_abcd := (a0 + a, b0 + b, c0 + c, d0 + d)\<rparr>)"

section \<open>The incremental interface\<close>

definition md5_init :: "md5_state \<Rightarrow> md5_state" where
  "md5_init pms = pms\<lparr>md_count0 := 0, md_count1 := 0,
     md_abcd := (0x67452301, 0xefcdab89, 0x98badcfe, 0x10325476)\<rparr>"

definition md5_patch :: "u8 list \<Rightarrow> nat \<Rightarrow> u8 list \<Rightarrow> u8 list" where
  "md5_patch buf off xs = take off buf @ xs @ drop (off + length xs) buf"

text \<open>The full blocks of the data, and the last partial block, which is kept.\<close>

function md5_blocks :: "md5_state \<Rightarrow> u8 list \<Rightarrow> md5_state" where
  "md5_blocks pms p =
     (if 64 \<le> length p then md5_blocks (md5_process pms (take 64 p)) (drop 64 p)
      else if p \<noteq> [] then pms\<lparr>md_buf := md5_patch (md_buf pms) 0 p\<rparr>
      else pms)"
  by pat_completeness auto
termination by (relation "measure (\<lambda>(_, p). length p)") auto

declare md5_blocks.simps [simp del]

definition md5_append :: "md5_state \<Rightarrow> u8 list \<Rightarrow> int \<Rightarrow> md5_state option" where
  "md5_append pms data nbytes =
     (let offset = unat (drop_bit 3 (md_count0 pms) AND 63);
          nbits = push_bit 3 (word_of_int nbytes)
      in if nbytes \<le> 0 then Some pms
         else if int (length data) < nbytes \<or> offset \<noteq> 0 \<and> 2 ^ 31 \<le> int offset + nbytes then None
         else let p = take (nat nbytes) data;
                  c1 = md_count1 pms + word_of_int (drop_bit 29 nbytes);
                  c0 = md_count0 pms + nbits;
                  pms = pms\<lparr>md_count0 := c0, md_count1 := (if c0 < nbits then c1 + 1 else c1)\<rparr>
              in if offset = 0 then Some (md5_blocks pms p)
                 else let copy = (if 64 < int offset + nbytes then 64 - offset else nat nbytes);
                          pms = pms\<lparr>md_buf := md5_patch (md_buf pms) offset (take copy p)\<rparr>
                      in if offset + copy < 64 then Some pms
                         else Some (md5_blocks (md5_process pms (md_buf pms)) (drop copy p)))"

text \<open>Byte \<open>i\<close> of an array of words, for the length and for the digest.\<close>

definition md5_bytes :: "u32 list \<Rightarrow> nat \<Rightarrow> u8 list" where
  "md5_bytes ws n = map (\<lambda>i. ucast (drop_bit ((i mod 4) * 8) (ws ! (i div 4)))) [0..<n]"

definition md5_padding :: "u8 list" where
  "md5_padding = 0x80 # replicate 63 0"

definition md5_finish :: "md5_state \<Rightarrow> (u8 list \<times> md5_state) option" where
  "md5_finish pms = do {
     let data = md5_bytes [md_count0 pms, md_count1 pms] 8;
     pms \<leftarrow> md5_append pms md5_padding (uint ((55 - drop_bit 3 (md_count0 pms)) AND 63) + 1);
     pms \<leftarrow> md5_append pms data 8;
     let (a, b, c, d) = md_abcd pms;
     Some (md5_bytes [a, b, c, d] 16, pms)
   }"

section \<open>The digest of RFC 1321\<close>

text \<open>
  Step \<open>i\<close> of the 64 written with the index and shift rules of the RFC, the padded message,
  and the fold over its blocks.
\<close>

definition rfc_sines :: "u32 list" where
  "rfc_sines = map (\<lambda>(k, sh, t). t) (md5_round1 @ md5_round2 @ md5_round3 @ md5_round4)"

definition rfc_index :: "nat \<Rightarrow> nat" where
  "rfc_index i = (if i < 16 then i else if i < 32 then (5 * i + 1) mod 16
                  else if i < 48 then (3 * i + 5) mod 16 else (7 * i) mod 16)"

definition rfc_shift :: "nat \<Rightarrow> nat" where
  "rfc_shift i = [7, 12, 17, 22, 5, 9, 14, 20, 4, 11, 16, 23, 6, 10, 15, 21] ! (4 * (i div 16) + i mod 4)"

definition rfc_mix :: "nat \<Rightarrow> u32 \<Rightarrow> u32 \<Rightarrow> u32 \<Rightarrow> u32" where
  "rfc_mix i = (if i < 16 then md5_F else if i < 32 then md5_G else if i < 48 then md5_H else md5_I)"

definition rfc_step :: "u32 list \<Rightarrow> nat \<Rightarrow> md5_regs \<Rightarrow> md5_regs" where
  "rfc_step X i = (\<lambda>(a, b, c, d).
     (d, b + word_rotl (rfc_shift i) (a + rfc_mix i b c d + X ! rfc_index i + rfc_sines ! i), b, c))"

definition rfc_compress :: "md5_regs \<Rightarrow> u8 list \<Rightarrow> md5_regs" where
  "rfc_compress = (\<lambda>(a0, b0, c0, d0) block.
     let (a, b, c, d) = fold (rfc_step (md5_words block)) [0..<64] (a0, b0, c0, d0)
     in (a0 + a, b0 + b, c0 + c, d0 + d))"

text \<open>The registers after the full blocks of a message, and the bytes left over.\<close>

function rfc_absorb :: "md5_regs \<Rightarrow> u8 list \<Rightarrow> md5_regs \<times> u8 list" where
  "rfc_absorb r m = (if 64 \<le> length m then rfc_absorb (rfc_compress r (take 64 m)) (drop 64 m) else (r, m))"
  by pat_completeness auto
termination by (relation "measure (\<lambda>(_, m). length m)") auto

declare rfc_absorb.simps [simp del]

definition rfc_pad :: "u8 list \<Rightarrow> u8 list" where
  "rfc_pad m = m @ 0x80 # replicate (nat ((55 - int (length m)) mod 64)) 0
     @ aimutil_putle32 (of_nat (8 * length m)) @ aimutil_putle32 (of_nat (8 * length m div 2 ^ 32))"

definition rfc_md5 :: "u8 list \<Rightarrow> u8 list" where
  "rfc_md5 m = (let (a, b, c, d) = fst (rfc_absorb (0x67452301, 0xefcdab89, 0x98badcfe, 0x10325476) (rfc_pad m))
     in concat (map aimutil_putle32 [a, b, c, d]))"

section \<open>Equivalence with the RFC\<close>

lemma rotate_left_rotl: "0 < n \<Longrightarrow> n < 32 \<Longrightarrow> rotate_left x n = word_rotl n x"
proof (rule bit_word_eqI)
  fix i :: nat
  assume n: "0 < n" "n < 32" and "i < LENGTH(32)"
  then have i: "i < 32" by simp
  have rotl: "bit (word_rotl n x) i = bit x ((i + (32 - n)) mod 32)"
    using n i by (simp add: bit_word_rotl_iff)
  show "bit (rotate_left x n) i = bit (word_rotl n x) i"
  proof (cases "i < n")
    case True
    have "bit (rotate_left x n) i = bit x ((32 - n) + i)"
      using True i by (simp add: rotate_left_def bit_or_iff bit_push_bit_iff bit_drop_bit_eq)
    moreover have "(i + (32 - n)) mod 32 = (32 - n) + i"
      using True n by simp
    ultimately show ?thesis by (simp only: rotl)
  next
    case False
    have "bit (rotate_left x n) i = bit x (i - n)"
      using False n i bit_imp_le_length [of x "32 - n + i"]
      by (auto simp: rotate_left_def bit_or_iff bit_push_bit_iff bit_drop_bit_eq)
    moreover have "i + (32 - n) = (i - n) + 32" "i - n < 32"
      using False n i by simp_all
    then have "(i + (32 - n)) mod 32 = i - n"
      by (simp only: mod_add_self2 mod_less)
    ultimately show ?thesis by (simp only: rotl)
  qed
qed

lemma rounds_rfc:
  "md5_round1 = map (\<lambda>i. (rfc_index i, rfc_shift i, rfc_sines ! i)) [0..<16]"
  "md5_round2 = map (\<lambda>i. (rfc_index i, rfc_shift i, rfc_sines ! i)) [16..<32]"
  "md5_round3 = map (\<lambda>i. (rfc_index i, rfc_shift i, rfc_sines ! i)) [32..<48]"
  "md5_round4 = map (\<lambda>i. (rfc_index i, rfc_shift i, rfc_sines ! i)) [48..<64]"
  by (simp_all add: upt_rec rfc_index_def rfc_shift_def rfc_sines_def md5_round1_def md5_round2_def
      md5_round3_def md5_round4_def)

lemma rfc_shift_bounds: "i < 64 \<Longrightarrow> 0 < rfc_shift i \<and> rfc_shift i < 32"
proof -
  have "\<forall>i \<in> {..<64}. 0 < rfc_shift i \<and> rfc_shift i < 32"
    by (simp add: rfc_shift_def lessThan_nat_numeral lessThan_Suc)
  then show "i < 64 \<Longrightarrow> 0 < rfc_shift i \<and> rfc_shift i < 32" by blast
qed

lemma set_step:
  "i < 64 \<Longrightarrow> rfc_mix i = f \<Longrightarrow> md5_set f X (rfc_index i, rfc_shift i, rfc_sines ! i) = rfc_step X i"
  by (rule ext) (auto simp: md5_set_def rfc_step_def Let_def rotate_left_rotl rfc_shift_bounds add.commute
      split: prod.split)

lemma fold_steps:
  "j \<le> 64 \<Longrightarrow> (\<And>i. i \<in> {k..<j} \<Longrightarrow> rfc_mix i = f) \<Longrightarrow>
   fold (md5_set f X) (map (\<lambda>i. (rfc_index i, rfc_shift i, rfc_sines ! i)) [k..<j]) = fold (rfc_step X) [k..<j]"
  unfolding fold_map by (rule ext, rule fold_cong) (auto simp: set_step)

lemma process_rfc: "md_abcd (md5_process pms block) = rfc_compress (md_abcd pms) block"
proof -
  have "[0..<64] = [0..<16] @ [16..<32] @ [32..<48] @ [48..<64::nat]"
    by (simp add: upt_rec)
  moreover have
    "fold (md5_set md5_F X) md5_round1 = fold (rfc_step X) [0..<16]"
    "fold (md5_set md5_G X) md5_round2 = fold (rfc_step X) [16..<32]"
    "fold (md5_set md5_H X) md5_round3 = fold (rfc_step X) [32..<48]"
    "fold (md5_set md5_I X) md5_round4 = fold (rfc_step X) [48..<64]" for X
    unfolding rounds_rfc by (rule fold_steps, simp, simp add: rfc_mix_def)+
  ultimately show ?thesis
    by (simp add: md5_process_def rfc_compress_def Let_def split_beta del: upt_rec_numeral)
qed

lemma process_sel [simp]:
  "md_count0 (md5_process pms d) = md_count0 pms" "md_count1 (md5_process pms d) = md_count1 pms"
  "md_buf (md5_process pms d) = md_buf pms"
  by (auto simp: md5_process_def Let_def split: prod.split)

subsection \<open>Absorbing a message\<close>

lemma absorb_short: "length m < 64 \<Longrightarrow> rfc_absorb r m = (r, m)"
  by (simp add: rfc_absorb.simps)

lemma absorb_block:
  "length b = 64 \<Longrightarrow> rfc_absorb r (b @ m) = rfc_absorb (rfc_compress r b) m"
  by (subst rfc_absorb.simps) simp

lemma absorb_append:
  "rfc_absorb r (m @ p) = rfc_absorb (fst (rfc_absorb r m)) (snd (rfc_absorb r m) @ p)"
proof (induction r m rule: rfc_absorb.induct)
  case (1 r m)
  show ?case
  proof (cases "64 \<le> length m")
    case True
    then have "rfc_absorb r (m @ p) = rfc_absorb (rfc_compress r (take 64 m)) (drop 64 m @ p)"
      by (subst rfc_absorb.simps) simp
    moreover have "rfc_absorb r m = rfc_absorb (rfc_compress r (take 64 m)) (drop 64 m)"
      using True by (subst rfc_absorb.simps) simp
    ultimately show ?thesis using 1 True by simp
  qed (simp add: absorb_short)
qed

lemma length_absorb: "length (snd (rfc_absorb r m)) = length m mod 64"
proof (induction r m rule: rfc_absorb.induct)
  case (1 r m)
  then show ?case
    by (cases "64 \<le> length m") (simp_all add: rfc_absorb.simps [of r m] le_mod_geq)
qed

lemma length_patch: "off + length xs \<le> length buf \<Longrightarrow> length (md5_patch buf off xs) = length buf"
  by (simp add: md5_patch_def)

lemma blocks_absorb:
  "length (md_buf pms) = 64 \<Longrightarrow>
   md_count0 (md5_blocks pms p) = md_count0 pms \<and> md_count1 (md5_blocks pms p) = md_count1 pms \<and>
   length (md_buf (md5_blocks pms p)) = 64 \<and>
   (md_abcd (md5_blocks pms p), take (length p mod 64) (md_buf (md5_blocks pms p)))
     = rfc_absorb (md_abcd pms) p"
proof (induction pms p rule: md5_blocks.induct)
  case (1 pms p)
  show ?case
  proof (cases "64 \<le> length p")
    case True
    with 1 show ?thesis
      by (simp add: md5_blocks.simps [of pms p] rfc_absorb.simps [of _ p] process_rfc le_mod_geq)
  next
    case False
    with 1(2) show ?thesis
      by (simp add: md5_blocks.simps [of pms p] rfc_absorb.simps [of _ p] length_patch)
        (simp add: md5_patch_def)
  qed
qed

text \<open>The state after a message: the bit count, the registers and the partial block.\<close>

definition md5_iv :: md5_regs where
  "md5_iv = (0x67452301, 0xefcdab89, 0x98badcfe, 0x10325476)"

definition md5_holds :: "u8 list \<Rightarrow> md5_state \<Rightarrow> bool" where
  "md5_holds m pms \<longleftrightarrow> md_count0 pms = of_nat (8 * length m) \<and>
     md_count1 pms = of_nat (8 * length m div 2 ^ 32) \<and> length (md_buf pms) = 64 \<and>
     rfc_absorb md5_iv m = (md_abcd pms, take (length m mod 64) (md_buf pms))"

lemma init_holds: "length (md_buf pms) = 64 \<Longrightarrow> md5_holds [] (md5_init pms)"
  by (simp add: md5_holds_def md5_init_def md5_iv_def absorb_short)

lemma count_offset: "unat (drop_bit 3 (of_nat (8 * n) :: u32) AND 63) = n mod 64"
proof -
  have "unat (drop_bit 3 w AND 63) = unat w div 8 mod 64" for w :: u32
  proof -
    have "(63 :: u32) = mask 6" by (simp add: mask_eq_exp_minus_1)
    then have "drop_bit 3 w AND 63 = take_bit 6 (drop_bit 3 w)" by (simp only: take_bit_eq_mask)
    then show ?thesis
      by (simp add: unat_div unat_mod take_bit_eq_mod drop_bit_eq_div)
  qed
  then have "unat (drop_bit 3 (of_nat (8 * n) :: u32) AND 63) = 8 * n mod 2 ^ 32 div 8 mod 64"
    by (simp only: unat_of_nat) simp
  also have "8 * n mod 2 ^ 32 div 8 = n mod 2 ^ 29"
    using mult_mod_right [of 8 n "2 ^ 29"] by simp
  also have "n mod 2 ^ 29 mod 64 = n mod 64"
    by (rule mod_mod_cancel) simp
  finally show ?thesis .
qed

lemma count_carry:
  fixes l n :: nat
  defines "c0 \<equiv> of_nat (8 * l) :: u32" and "d0 \<equiv> of_nat (8 * n) :: u32"
  shows "of_nat (8 * (l + n) div 2 ^ 32) = (of_nat (8 * l div 2 ^ 32) + of_nat (n div 2 ^ 29)
     + (if c0 + d0 < d0 then 1 else 0) :: u32)"
proof -
  have carry: "c0 + d0 < d0 \<longleftrightarrow> 2 ^ 32 \<le> 8 * l mod 2 ^ 32 + 8 * n mod 2 ^ 32"
  proof -
    have "unat c0 = 8 * l mod 2 ^ 32" "unat d0 = 8 * n mod 2 ^ 32"
      unfolding c0_def d0_def unat_of_nat by simp_all
    moreover have "c0 + d0 < d0 \<longleftrightarrow> (unat c0 + unat d0) mod 2 ^ 32 < unat d0"
      by (simp add: word_less_nat_alt unat_word_ariths)
    moreover have "(unat c0 + unat d0) mod 2 ^ 32 < unat d0 \<longleftrightarrow> 2 ^ 32 \<le> unat c0 + unat d0"
    proof (cases "2 ^ 32 \<le> unat c0 + unat d0")
      case True
      moreover have "unat c0 < 2 ^ 32" "unat d0 < 2 ^ 32"
        using unsigned_less [of c0] unsigned_less [of d0] by simp_all
      ultimately show ?thesis by (simp add: le_mod_geq)
    qed simp
    ultimately show ?thesis by simp
  qed
  have "8 * (l + n) div 2 ^ 32 = 8 * l div 2 ^ 32 + 8 * n div 2 ^ 32 + (8 * l mod 2 ^ 32 + 8 * n mod 2 ^ 32) div 2 ^ 32"
    by (simp only: distrib_left div_add1_eq [of "8 * l" "8 * n"])
  moreover have "(8 * l mod 2 ^ 32 + 8 * n mod 2 ^ 32) div 2 ^ 32 = (if c0 + d0 < d0 then 1 else 0)"
  proof (cases "c0 + d0 < d0")
    case True
    have "8 * l mod 2 ^ 32 < 2 ^ 32" "8 * n mod 2 ^ 32 < 2 ^ 32" by simp_all
    with True carry show ?thesis by (simp add: le_div_geq)
  qed (use carry in simp)
  moreover have "8 * n div 2 ^ 32 = n div 2 ^ 29"
    using div_mult2_eq [of "8 * n" 8 "2 ^ 29"] by simp
  ultimately show ?thesis by simp
qed

text \<open>The state whose counter has been advanced by \<open>n\<close> bytes.\<close>

definition md5_counted :: "md5_state \<Rightarrow> nat \<Rightarrow> md5_state" where
  "md5_counted pms n = (let c = of_nat (8 * n); c1 = md_count1 pms + of_nat (n div 2 ^ 29) in
     pms\<lparr>md_count0 := md_count0 pms + c, md_count1 := (if md_count0 pms + c < c then c1 + 1 else c1)\<rparr>)"

lemma counted_sel [simp]:
  "md_abcd (md5_counted pms n) = md_abcd pms" "md_buf (md5_counted pms n) = md_buf pms"
  by (simp_all add: md5_counted_def Let_def)

lemma counted_holds:
  assumes "md5_holds m pms"
  shows "md_count0 (md5_counted pms n) = of_nat (8 * (length m + n))"
    "md_count1 (md5_counted pms n) = of_nat (8 * (length m + n) div 2 ^ 32)"
proof -
  show "md_count0 (md5_counted pms n) = of_nat (8 * (length m + n))"
    using assms by (simp add: md5_counted_def md5_holds_def distrib_left Let_def)
  show "md_count1 (md5_counted pms n) = of_nat (8 * (length m + n) div 2 ^ 32)"
    unfolding count_carry using assms by (simp add: md5_counted_def md5_holds_def Let_def)
qed

lemma append_eq:
  assumes "md5_holds m pms" "p \<noteq> []" "int (length p) < 2 ^ 31 - 64" "take (nat n) d = p" "n = int (length p)"
    "length p \<le> length d"
  defines "off \<equiv> length m mod 64" and "pms1 \<equiv> md5_counted pms (length p)"
  shows "md5_append pms d n =
    (if off = 0 then Some (md5_blocks pms1 p)
     else let copy = (if 64 < off + length p then 64 - off else length p);
              pms2 = pms1\<lparr>md_buf := md5_patch (md_buf pms) off (take copy p)\<rparr>
          in if off + copy < 64 then Some pms2
             else Some (md5_blocks (md5_process pms2 (md_buf pms2)) (drop copy p)))"
proof -
  have off: "unat (drop_bit 3 (md_count0 pms) AND 63) = off" "off < 64"
    using assms(1) by (simp_all add: md5_holds_def count_offset off_def del: of_nat_mult)
  have c: "push_bit 3 (word_of_int n) = (of_nat (8 * length p) :: u32)"
    by (simp add: push_bit_eq_mult assms(5))
  have "drop_bit 29 n = int (length p div 2 ^ 29)"
    by (simp add: drop_bit_eq_div zdiv_int assms(5))
  then have c1: "word_of_int (drop_bit 29 n) = (of_nat (length p div 2 ^ 29) :: u32)"
    by (simp only: of_int_of_nat_eq)
  have "(64 < int off + n) = (64 < off + length p)" "nat n = length p" "\<not> n \<le> 0"
    using assms(2,5) by auto
  then show ?thesis
    using assms(3,5,6) off(2) unfolding md5_append_def off(1) c c1 assms(4)
    by (simp add: Let_def md5_counted_def pms1_def)
qed

text \<open>The buffered bytes and the first new ones make a block.\<close>

lemma append_fills:
  assumes "md5_holds m pms" "length m mod 64 = off" "64 \<le> off + length p"
  defines "b \<equiv> take off (md_buf pms) @ take (64 - off) p"
    and "pms1 \<equiv> md5_counted pms (length p)"
  shows "md5_holds (m @ p) (md5_blocks (md5_process (pms1\<lparr>md_buf := b\<rparr>) b) (drop (64 - off) p))"
proof -
  have buf: "length (md_buf pms) = 64" "off < 64"
    using assms(1,2) by (auto simp: md5_holds_def)
  then have b: "length b = 64" using assms(3) by (simp add: b_def)
  have "take off (md_buf pms) @ p = b @ drop (64 - off) p"
    by (simp add: b_def)
  then have "rfc_absorb md5_iv (m @ p) = rfc_absorb (rfc_compress (md_abcd pms) b) (drop (64 - off) p)"
    using assms(1,2) by (subst absorb_append) (simp add: md5_holds_def absorb_block [OF b])
  moreover have "length (m @ p) mod 64 = length (drop (64 - off) p) mod 64"
  proof -
    have "length (m @ p) mod 64 = (off + length p) mod 64" by (simp add: mod_simps flip: assms(2))
    then show ?thesis using assms(3) buf(2) by (simp add: le_mod_geq add.commute)
  qed
  moreover note blocks_absorb [of "md5_process (pms1\<lparr>md_buf := b\<rparr>) b" "drop (64 - off) p"]
  ultimately show ?thesis
    using b counted_holds [OF assms(1), of "length p"] by (simp add: md5_holds_def process_rfc pms1_def)
qed

lemma append_holds:
  assumes m: "md5_holds m pms" and n: "0 \<le> n" "n \<le> int (length d)" "n < 2 ^ 31 - 64"
  shows "\<exists>pms'. md5_append pms d n = Some pms' \<and> md5_holds (m @ take (nat n) d) pms'"
proof (cases "n = 0")
  case True
  with m show ?thesis by (simp add: md5_append_def)
next
  case False
  define p where "p = take (nat n) d"
  define off where "off = length m mod 64"
  have p: "n = int (length p)" "length p \<le> length d" "p \<noteq> []" using n False by (auto simp: p_def)
  have buf: "length (md_buf pms) = 64" "off < 64" using m by (auto simp: md5_holds_def off_def)
  note eq = append_eq [OF m p(3) _ p_def [symmetric] p(1,2), folded off_def]
  have abs: "rfc_absorb md5_iv (m @ p) = rfc_absorb (md_abcd pms) (take off (md_buf pms) @ p)"
    using m by (subst absorb_append) (simp add: md5_holds_def off_def)
  have len: "length (m @ p) mod 64 = (off + length p) mod 64"
    by (simp add: off_def mod_simps)
  consider "off = 0" | "0 < off" "off + length p < 64" | "0 < off" "64 \<le> off + length p" by linarith
  then have "\<exists>pms'. md5_append pms d n = Some pms' \<and> md5_holds (m @ p) pms'"
  proof cases
    case 1
    with blocks_absorb [of "md5_counted pms (length p)" p] buf eq n(3) p(1) abs len
      counted_holds [OF m, of "length p"] show ?thesis
      by (simp add: md5_holds_def)
  next
    case 2
    with eq n(3) p(1) have "md5_append pms d n =
        Some (md5_counted pms (length p)\<lparr>md_buf := md5_patch (md_buf pms) off p\<rparr>)" by simp
    moreover have "take (off + length p) (md5_patch (md_buf pms) off p) = take off (md_buf pms) @ p"
      using buf by (simp add: md5_patch_def)
    ultimately show ?thesis
      using 2 buf abs len counted_holds [OF m, of "length p"]
      by (simp add: md5_holds_def length_patch absorb_short)
  next
    case 3
    then have copy: "off + (if 64 < off + length p then 64 - off else length p) = 64"
      "take (if 64 < off + length p then 64 - off else length p) p = take (64 - off) p"
      "drop (if 64 < off + length p then 64 - off else length p) p = drop (64 - off) p"
      using buf(2) by auto
    have "md5_patch (md_buf pms) off (take (64 - off) p) = take off (md_buf pms) @ take (64 - off) p"
      using 3 buf by (simp add: md5_patch_def)
    with eq n(3) p(1) 3 copy append_fills [OF m off_def [symmetric] 3(2)] show ?thesis
      by (simp add: Let_def)
  qed
  then show ?thesis by (simp add: p_def)
qed

subsection \<open>Padding and the digest\<close>

lemma bytes_word: "md5_bytes [x, y] 8 = aimutil_putle32 x @ aimutil_putle32 y"
  "md5_bytes [a, b, c, d] 16 = concat (map aimutil_putle32 [a, b, c, d])"
proof -
  have "[0..<8] = [0, 1, 2, 3, 4, 5, 6, 7 :: nat]"
    "[0..<16] = [0, 1, 2, 3, 4, 5, 6, 7, 8, 9, 10, 11, 12, 13, 14, 15 :: nat]"
    by (simp_all add: upt_rec)
  then show "md5_bytes [x, y] 8 = aimutil_putle32 x @ aimutil_putle32 y"
    "md5_bytes [a, b, c, d] 16 = concat (map aimutil_putle32 [a, b, c, d])"
    by (simp_all add: md5_bytes_def aimutil_putle32_def)
qed

lemma pad_len: "uint ((55 - drop_bit 3 (of_nat (8 * n) :: u32)) AND 63) = (55 - int n) mod 64"
proof -
  have "uint ((55 - w) AND 63) = (55 - uint (w AND 63)) mod 64" for w :: u32
  proof -
    have "(63 :: u32) = mask 6" by (simp add: mask_eq_exp_minus_1)
    then have "v AND 63 = take_bit 6 v" for v :: u32 by (simp only: take_bit_eq_mask)
    then show ?thesis
      by (simp add: uint_word_ariths unsigned_take_bit_eq mod_mod_cancel mod_simps take_bit_eq_mod uint_mod)
  qed
  moreover have "uint (drop_bit 3 (of_nat (8 * n) :: u32) AND 63) = int (n mod 64)"
    unfolding count_offset [symmetric] by simp
  ultimately show ?thesis by (simp add: zmod_int mod_simps)
qed

lemma pad_take: "k < 64 \<Longrightarrow> take (Suc k) md5_padding = 0x80 # replicate k 0"
  by (simp add: md5_padding_def)

lemma rfc_pad_eq:
  "rfc_pad m = m @ 0x80 # replicate (nat ((55 - int (length m)) mod 64)) 0
     @ md5_bytes [of_nat (8 * length m), of_nat (8 * length m div 2 ^ 32)] 8"
  by (simp add: rfc_pad_def bytes_word del: of_nat_mult)

lemma length_rfc_pad: "length (rfc_pad m) mod 64 = 0"
proof -
  let ?n = "length m"
  have "int (length (rfc_pad m)) = int ?n + 9 + (55 - int ?n) mod 64"
    by (simp add: rfc_pad_def)
  then have "int (length (rfc_pad m)) mod 64 = 0"
    by (simp add: mod_simps)
  then show ?thesis by (metis int_ops(1) of_nat_eq_iff of_nat_numeral zmod_int)
qed

lemma finish_holds:
  assumes "md5_holds m pms"
  shows "\<exists>pms'. md5_finish pms = Some (rfc_md5 m, pms')"
proof -
  define k where "k = nat ((55 - int (length m)) mod 64)"
  have k: "k < 64" "(55 - int (length m)) mod 64 = int k" by (simp_all add: k_def)
  obtain p1 where p1: "md5_append pms md5_padding (int k + 1) = Some p1"
    "md5_holds (m @ take (Suc k) md5_padding) p1"
    using append_holds [OF assms, of "int k + 1" md5_padding] k(1)
    by (auto simp: md5_padding_def nat_add_distrib simp del: take_Suc_Cons)
  let ?d = "md5_bytes [of_nat (8 * length m), of_nat (8 * length m div 2 ^ 32)] 8"
  have d: "length ?d = 8" by (simp add: md5_bytes_def)
  obtain p2 where p2: "md5_append p1 ?d 8 = Some p2" "md5_holds (rfc_pad m) p2"
    using append_holds [OF p1(2), of 8 ?d] d k(1) by (auto simp: pad_take rfc_pad_eq k_def)
  have counts: "md_count0 pms = of_nat (8 * length m)" "md_count1 pms = of_nat (8 * length m div 2 ^ 32)"
    using assms by (simp_all add: md5_holds_def)
  have "rfc_absorb md5_iv (rfc_pad m) = (md_abcd p2, [])"
    using p2(2) length_rfc_pad by (simp add: md5_holds_def)
  then show ?thesis
    unfolding md5_finish_def counts pad_len k(2)
    using p1(1) p2(1) by (auto simp: Let_def rfc_md5_def bytes_word md5_iv_def split: prod.split simp del: of_nat_mult)
qed

text \<open>Handing a message over in pieces.\<close>

primrec md5_appends :: "md5_state \<Rightarrow> u8 list list \<Rightarrow> md5_state option" where
  "md5_appends pms [] = Some pms"
| "md5_appends pms (p # ps) = do { pms \<leftarrow> md5_append pms p (int (length p)); md5_appends pms ps }"

lemma appends_holds:
  "md5_holds m pms \<Longrightarrow> \<forall>p \<in> set ps. length p < 2 ^ 31 - 64 \<Longrightarrow>
   \<exists>pms'. md5_appends pms ps = Some pms' \<and> md5_holds (m @ concat ps) pms'"
proof (induction ps arbitrary: m pms)
  case (Cons p ps)
  from append_holds [OF Cons.prems(1), of "int (length p)" p] Cons.prems(2) obtain q
    where "md5_append pms p (int (length p)) = Some q" "md5_holds (m @ p) q" by auto
  with Cons.IH [of "m @ p" q] Cons.prems(2) show ?case by simp
qed simp

text \<open>The digest of ``abc'', one of the test vectors of the RFC.\<close>

lemma rfc_compress_rounds: "rfc_compress (a0, b0, c0, d0) block =
   (let X = md5_words block;
        (a, b, c, d) = fold (md5_set md5_I X) md5_round4 (fold (md5_set md5_H X) md5_round3
          (fold (md5_set md5_G X) md5_round2 (fold (md5_set md5_F X) md5_round1 (a0, b0, c0, d0))))
    in (a0 + a, b0 + b, c0 + c, d0 + d))"
  using process_rfc [of "\<lparr>md_count0 = 0, md_count1 = 0, md_abcd = (a0, b0, c0, d0), md_buf = []\<rparr>" block]
  by (simp add: md5_process_def Let_def split_beta)

lemma abc_pad: "rfc_pad [0x61, 0x62, 0x63] = 0x61 # 0x62 # 0x63 # 0x80 # replicate 52 0 @ [24, 0, 0, 0, 0, 0, 0, 0]"
  by (simp add: rfc_pad_def aimutil_putle32_def)

lemma abc_words: "md5_words (rfc_pad [0x61, 0x62, 0x63]) = [0x80636261, 0, 0, 0, 0, 0, 0, 0, 0, 0, 0, 0, 0, 0, 24, 0]"
  unfolding abc_pad by code_simp

lemma abc_round1:
  "fold (md5_set md5_F [0x80636261, 0, 0, 0, 0, 0, 0, 0, 0, 0, 0, 0, 0, 0, 24, 0]) md5_round1
     (0x67452301, 0xefcdab89, 0x98badcfe, 0x10325476) = (0xdda9b9a6, 0x72aff2e0, 0xe396856b, 0xa1051895)"
  by code_simp

lemma abc_round2:
  "fold (md5_set md5_G [0x80636261, 0, 0, 0, 0, 0, 0, 0, 0, 0, 0, 0, 0, 0, 24, 0]) md5_round2
     (0xdda9b9a6, 0x72aff2e0, 0xe396856b, 0xa1051895) = (0x790a77fb, 0x726342d3, 0xa62884aa, 0x9f47e4f8)"
  by code_simp

lemma abc_round3:
  "fold (md5_set md5_H [0x80636261, 0, 0, 0, 0, 0, 0, 0, 0, 0, 0, 0, 0, 0, 24, 0]) md5_round3
     (0x790a77fb, 0x726342d3, 0xa62884aa, 0x9f47e4f8) = (0x7f2e507b, 0x7beb9700, 0x8fae6399, 0x99d9679d)"
  by code_simp

lemma abc_round4:
  "fold (md5_set md5_I [0x80636261, 0, 0, 0, 0, 0, 0, 0, 0, 0, 0, 0, 0, 0, 24, 0]) md5_round4
     (0x7f2e507b, 0x7beb9700, 0x8fae6399, 0x99d9679d) = (0x310ade8f, 0xc08226b3, 0xe484b9d8, 0x624d8cb2)"
  by code_simp

lemma abc_digest: "rfc_md5 [0x61, 0x62, 0x63] =
    [0x90, 0x01, 0x50, 0x98, 0x3c, 0xd2, 0x4f, 0xb0, 0xd6, 0x96, 0x3f, 0x7d, 0x28, 0xe1, 0x7f, 0x72]"
proof -
  have "length (rfc_pad [0x61, 0x62, 0x63]) = 64" by (simp add: abc_pad)
  then have "rfc_absorb r (rfc_pad [0x61, 0x62, 0x63]) = (rfc_compress r (rfc_pad [0x61, 0x62, 0x63]), [])" for r
    by (simp add: rfc_absorb.simps)
  moreover have "rfc_compress (0x67452301, 0xefcdab89, 0x98badcfe, 0x10325476) (rfc_pad [0x61, 0x62, 0x63])
      = (0x98500190, 0xb04fd23c, 0x7d3f96d6, 0x727fe128)"
    unfolding rfc_compress_rounds Let_def abc_words abc_round1 abc_round2 abc_round3 abc_round4 by simp
  ultimately show ?thesis by (simp add: rfc_md5_def aimutil_putle32_def)
qed

text \<open>C35: a message handed to md5\_append in any pieces, empty ones included, from a freshly
  initialised state whose buffer holds anything, has the digest that RFC 1321 defines on the
  whole message, whatever its length: the partial-block buffer, the 64-bit bit counter with its
  carry, the padding and the 64 unrolled steps together compute the specification.\<close>

theorem md5_digest_rfc:
  assumes "length (md_buf pms) = 64" "\<forall>p \<in> set ps. length p < 2 ^ 31 - 64"
  shows "\<exists>pms1 pms2. md5_appends (md5_init pms) ps = Some pms1 \<and>
    md5_finish pms1 = Some (rfc_md5 (concat ps), pms2)"
proof -
  obtain pms1 where "md5_appends (md5_init pms) ps = Some pms1" "md5_holds (concat ps) pms1"
    using appends_holds [OF init_holds [OF assms(1)] assms(2)] by auto
  with finish_holds [OF this(2)] show ?thesis by blast
qed

definition md5_demo :: md5_state where
  "md5_demo = \<lparr>md_count0 = 7, md_count1 = 9, md_abcd = (1, 2, 3, 4), md_buf = replicate 64 0xcc\<rparr>"

theorem md5_digest_rfc_witness:
  "\<exists>pms1 pms2. md5_appends (md5_init md5_demo) [[0x61], [], [0x62, 0x63]] = Some pms1 \<and>
    md5_finish pms1 = Some ([0x90, 0x01, 0x50, 0x98, 0x3c, 0xd2, 0x4f, 0xb0,
      0xd6, 0x96, 0x3f, 0x7d, 0x28, 0xe1, 0x7f, 0x72], pms2)"
  using md5_digest_rfc [of md5_demo "[[0x61], [], [0x62, 0x63]]"] by (simp add: md5_demo_def abc_digest)

end
