(* ===== verification/Auth.thy ===== *)
theory Auth
  imports Md5 Locate
begin

text \<open>
  Logging in: \<^verbatim>\<open>src/auth.c\<close>. The SNAC login asks for a key and answers it with the digest of
  key, password and a fixed string; the login of ICQ names fakes the key and sends the password
  under a fixed mask. Once logged in, every other connection starts by sending its cookie.
\<close>

section \<open>Model\<close>

subsection \<open>Frames of the first channel\<close>

text \<open>A frame that holds no SNAC.\<close>

definition flap_frame ::
  "client \<Rightarrow> aim_session \<Rightarrow> nat option \<Rightarrow> u8 \<Rightarrow> int \<Rightarrow> snac_body \<Rightarrow> (int \<times> aim_session) option" where
  "flap_frame cl s conn chan len body = do {
     (fr, s) \<leftarrow> aim_tx_new s conn AIM_FRAMETYPE_FLAP chan len;
     case fr of
       None \<Rightarrow> Some (- ENOMEM, s)
     | Some fr \<Rightarrow> do {
         (bs, s) \<leftarrow> body (fr_data fr) s;
         (_, s) \<leftarrow> aim_tx_enqueue cl s (fr\<lparr>fr_data := bs\<rparr>);
         Some (0, s)
       }
   }"

definition AIM_COOKIELEN :: nat where "AIM_COOKIELEN = 0x100"

definition aim_sendcookie ::
  "client \<Rightarrow> aim_session \<Rightarrow> nat option \<Rightarrow> u8 list \<Rightarrow> (int \<times> aim_session) option" where
  "aim_sendcookie cl s conn chipsahoy =
     flap_frame cl s conn 0x01 (4 + 2 + 2 + int AIM_COOKIELEN)
       (\<lambda>bs s. do {
          (_, bs) \<leftarrow> aimbs_put32 bs 0x00000001;
          (_, ts, s) \<leftarrow> aim_addtlvtochain_raw [] 0x0006 (of_nat AIM_COOKIELEN) chipsahoy s;
          put_chain ts bs s
        })"

definition aim_sendflapver :: "client \<Rightarrow> aim_session \<Rightarrow> nat option \<Rightarrow> (int \<times> aim_session) option" where
  "aim_sendflapver cl s conn =
     flap_frame cl s conn 0x01 4
       (\<lambda>bs s. do { (_, bs) \<leftarrow> aimbs_put32 bs 0x00000001; Some (bs, s) })"

subsection \<open>Asking for the key\<close>

text \<open>
  The frame the callback is given is a local variable of which only the connection is set: the
  rest is whatever the stack holds. The library's own handler reads the header of the frame.
\<close>

definition stack_frame :: "aim_session \<Rightarrow> nat option \<Rightarrow> aim_frame" where
  "stack_frame s conn =
     \<lparr>fr_id = next_addr s, fr_hdr = Flap (os_junk s 0) (ucast (os_junk s 1)),
      fr_data = \<lparr>bs_data = [], bs_len = 0, bs_off = 0\<rparr>, fr_handled = os_junk s 2, fr_nofree = os_junk s 3,
      fr_conn = conn\<rparr>"

definition goddamnicq :: "client \<Rightarrow> aim_session \<Rightarrow> nat option \<Rightarrow> cstring \<Rightarrow> (int \<times> aim_session) option" where
  "goddamnicq cl s conn sn = do {
     let s = s\<lparr>sess_flags := sess_flags s AND NOT AIM_SESS_FLAGS_SNACLOGIN\<rparr>;
     let s = s\<lparr>sess_flags := sess_flags s OR AIM_SESS_FLAGS_XORLOGIN\<rparr>;
     userfunc \<leftarrow> aim_callhandler s conn 0x0017 0x0007;
     case userfunc of
       None \<Rightarrow> Some (0, s)
     | Some Bleck \<Rightarrow> None
     | Some h \<Rightarrow> do {
         let fr = stack_frame s conn;
         (_, _, s) \<leftarrow> call_cb cl h (Some fr) [ArgStr (Some [])] (fr_data fr) s;
         Some (0, s)
       }
   }"

text \<open>The first byte of the empty string is its terminator.\<close>

definition aim_request_login ::
  "client \<Rightarrow> aim_session option \<Rightarrow> nat option \<Rightarrow> cstring option \<Rightarrow> (int \<times> aim_session option) option" where
  "aim_request_login cl sess conn sn =
     (case sess of
        None \<Rightarrow> Some (- EINVAL, None)
      | Some s \<Rightarrow>
          (case sn of
             None \<Rightarrow> Some (- EINVAL, Some s)
           | Some sn \<Rightarrow>
               if conn = None then Some (- EINVAL, Some s)
               else map_option (\<lambda>(r, s). (r, Some s))
                 (if sn \<noteq> [] \<and> 48 \<le> sn ! 0 \<and> sn ! 0 \<le> 57 then goddamnicq cl s conn sn
                  else do {
                    let s = s\<lparr>sess_flags := sess_flags s OR AIM_SESS_FLAGS_SNACLOGIN\<rparr>;
                    (_, s) \<leftarrow> aim_sendflapver cl s conn;
                    snac_frame cl s conn (10 + 2 + 2 + int (length sn)) (cached_id 0x0017 0x0006 None)
                      0x0017 0x0006
                      (\<lambda>bs s. do { (ts, s) \<leftarrow> add_str [] 0x0001 sn s; put_chain ts bs s })
                  })))"

subsection \<open>Answering it\<close>

text \<open>
  \<^verbatim>\<open>aim_encode_password\<close> walks its table of 16 bytes with the index of the password, so a
  longer password reads past the table.
\<close>

definition encoding_table :: "u8 list" where
  "encoding_table =
     [0xf3, 0x26, 0x81, 0xc4, 0x39, 0x86, 0xdb, 0x92, 0x71, 0xa3, 0xb9, 0xe6, 0x53, 0x7a, 0x95, 0x7c]"

fun encode_loop :: "cstring \<Rightarrow> u8 list \<Rightarrow> u8 list option" where
  "encode_loop [] table = Some []"
| "encode_loop (c # cs) [] = None"
| "encode_loop (c # cs) (k # ks) = do { rest \<leftarrow> encode_loop cs ks; Some ((c XOR k) # rest) }"

definition aim_encode_password :: "cstring \<Rightarrow> u8 list option" where
  "aim_encode_password password = encode_loop password encoding_table"

definition AIM_MD5_STRING :: cstring where
  "AIM_MD5_STRING = cstr ''AOL Instant Messenger (SM)''"

text \<open>The state is a local variable, whose buffer holds anything.\<close>

definition aim_encode_password_md5 :: "cstring \<Rightarrow> cstring \<Rightarrow> 'a os_scheme \<Rightarrow> u8 list option" where
  "aim_encode_password_md5 password key s = do {
     let state = md5_init \<lparr>md_count0 = 0, md_count1 = 0, md_abcd = (0, 0, 0, 0), md_buf = fresh s 64\<rparr>;
     state \<leftarrow> md5_append state key (int (length key));
     state \<leftarrow> md5_append state password (int (length password));
     state \<leftarrow> md5_append state AIM_MD5_STRING (int (length AIM_MD5_STRING));
     (digest, _) \<leftarrow> md5_finish state;
     Some digest
   }"

record client_info =
  ci_clientstring :: "cstring option"
  ci_clientid :: u16
  ci_major :: int
  ci_minor :: int
  ci_point :: int
  ci_build :: int
  ci_country :: cstring
  ci_lang :: cstring

definition goddamnicq2 ::
  "client \<Rightarrow> aim_session \<Rightarrow> nat option \<Rightarrow> cstring \<Rightarrow> cstring \<Rightarrow> (int \<times> aim_session) option" where
  "goddamnicq2 cl s conn sn password =
     (let (ok, s) = malloc s
      in if \<not> ok then Some (- ENOMEM, s)
         else flap_frame cl s conn 0x01 1152
           (\<lambda>bs s. do {
              password_encoded \<leftarrow> aim_encode_password password;
              (_, bs) \<leftarrow> aimbs_put32 bs 0x00000001;
              (ts, s) \<leftarrow> add_str [] 0x0001 sn s;
              (_, ts, s) \<leftarrow> aim_addtlvtochain_raw ts 0x0002 (of_nat (length password)) password_encoded s;
              (ts, s) \<leftarrow> add_str ts 0x0003 (cstr ''ICQ Inc. - Product of ICQ (TM) 2000b.4.65.1.3281.85'') s;
              (ts, s) \<leftarrow> add16 ts 0x0016 0x010a s;
              (ts, s) \<leftarrow> add16 ts 0x0017 0x0004 s;
              (ts, s) \<leftarrow> add16 ts 0x0018 0x0041 s;
              (ts, s) \<leftarrow> add16 ts 0x0019 0x0001 s;
              (ts, s) \<leftarrow> add16 ts 0x001a 0x0cd1 s;
              (_, ts, s) \<leftarrow> aim_addtlvtochain32 ts 0x0014 0x00000055 s;
              (ts, s) \<leftarrow> add_str ts 0x000f (cstr ''en'') s;
              (ts, s) \<leftarrow> add_str ts 0x000e (cstr ''us'') s;
              put_chain ts bs s
            }))"

definition aim_send_login ::
  "client \<Rightarrow> aim_session \<Rightarrow> nat option \<Rightarrow> cstring option \<Rightarrow> cstring option \<Rightarrow> client_info option \<Rightarrow> cstring
   \<Rightarrow> (int \<times> aim_session) option" where
  "aim_send_login cl s conn sn password ci key =
     (case (ci, sn, password) of
        (Some ci, Some sn, Some password) \<Rightarrow>
          if sess_flags s AND AIM_SESS_FLAGS_XORLOGIN \<noteq> 0 then goddamnicq2 cl s conn sn password
          else snac_frame cl s conn 1152 (cached_id 0x0017 0x0002 None) 0x0017 0x0002
            (\<lambda>bs s. do {
               (ts, s) \<leftarrow> add_str [] 0x0001 sn s;
               digest \<leftarrow> aim_encode_password_md5 password key s;
               (_, ts, s) \<leftarrow> aim_addtlvtochain_raw ts 0x0025 16 digest s;
               (ts, s) \<leftarrow> add_opt ts 0x0003 (ci_clientstring ci) s;
               (ts, s) \<leftarrow> add16 ts 0x0016 (ci_clientid ci) s;
               (ts, s) \<leftarrow> add16 ts 0x0017 (word_of_int (ci_major ci)) s;
               (ts, s) \<leftarrow> add16 ts 0x0018 (word_of_int (ci_minor ci)) s;
               (ts, s) \<leftarrow> add16 ts 0x0019 (word_of_int (ci_point ci)) s;
               (ts, s) \<leftarrow> add16 ts 0x001a (word_of_int (ci_build ci)) s;
               (ts, s) \<leftarrow> add_str ts 0x000e (ci_country ci) s;
               (ts, s) \<leftarrow> add_str ts 0x000f (ci_lang ci) s;
               put_chain ts bs s
             })
      | _ \<Rightarrow> Some (- EINVAL, s))"

subsection \<open>Replies\<close>

text \<open>
  The answer to the login: the information in its elements, in the order of the fields of the
  structure the callback gets, the latest releases as name, build, address and description.
\<close>

definition gettlv_cstr :: "tlvlist \<Rightarrow> u16 \<Rightarrow> aim_session \<Rightarrow> (cstring option \<times> aim_session) option" where
  "gettlv_cstr ts t s =
     (if aim_gettlv ts t 1 = None then Some (None, s)
      else do { (v, s) \<leftarrow> aim_gettlv_str ts t 1 s; Some (map_option c_string_of v, s) })"

definition gettlv32_or0 :: "tlvlist \<Rightarrow> u16 \<Rightarrow> u32 option" where
  "gettlv32_or0 ts t = (if aim_gettlv ts t 1 \<noteq> None then aim_gettlv32 ts t 1 else Some 0)"

text \<open>The name of the session is the string in its buffer of 33 bytes.\<close>

definition auth_parse :: "client \<Rightarrow> aim_frame \<Rightarrow> aim_modsnac option \<Rightarrow> bstream \<Rightarrow> aim_session
    \<Rightarrow> (int \<times> bstream \<times> aim_session) option" where
  "auth_parse cl rx snac bs s = do {
     (tlvlist, bs, s) \<leftarrow> aim_readtlvchain bs s;
     let s = s\<lparr>sess_sn := []\<rparr>;
     (sn, s) \<leftarrow> gettlv_cstr tlvlist 0x0001 s;
     let s = (case sn of None \<Rightarrow> s | Some sn \<Rightarrow> s\<lparr>sess_sn := c_string_of (c_strncpy sn (MAXSNLEN + 1))\<rparr>);
     errorcode \<leftarrow> gettlv16_or0 tlvlist 0x0008;
     (errorurl, s) \<leftarrow> gettlv_cstr tlvlist 0x0004 s;
     (bosip, s) \<leftarrow> gettlv_cstr tlvlist 0x0005 s;
     let cookie = Option.bind (aim_gettlv tlvlist 0x0006 1) tlv_value;
     (email, s) \<leftarrow> gettlv_cstr tlvlist 0x0011 s;
     regstatus \<leftarrow> gettlv16_or0 tlvlist 0x0013;
     beta_build \<leftarrow> gettlv32_or0 tlvlist 0x0040;
     (beta_url, s) \<leftarrow> gettlv_cstr tlvlist 0x0041 s;
     (beta_info, s) \<leftarrow> gettlv_cstr tlvlist 0x0042 s;
     (beta_name, s) \<leftarrow> gettlv_cstr tlvlist 0x0043 s;
     build \<leftarrow> gettlv32_or0 tlvlist 0x0044;
     (url, s) \<leftarrow> gettlv_cstr tlvlist 0x0045 s;
     (info, s) \<leftarrow> gettlv_cstr tlvlist 0x0046 s;
     (name, s) \<leftarrow> gettlv_cstr tlvlist 0x0047 s;
     call_user cl s (fr_conn rx) (case snac of Some x \<Rightarrow> ms_family x | None \<Rightarrow> 0x0017)
       (case snac of Some x \<Rightarrow> ms_subtype x | None \<Rightarrow> 0x0003) 0 (Some rx)
       [ArgStr sn, ArgInt (uint errorcode), ArgStr errorurl, ArgInt (uint regstatus), ArgStr email,
        ArgStr bosip, ArgBytes cookie,
        ArgList [ArgStr name, ArgInt (uint build), ArgStr url, ArgStr info],
        ArgList [ArgStr beta_name, ArgInt (uint beta_build), ArgStr beta_url, ArgStr beta_info]] bs
   }"

definition keyparse :: "client \<Rightarrow> snachandler" where
  "keyparse cl m rx snac bs s = do {
     (keylen, bs) \<leftarrow> aimbs_get16 bs;
     (keystr, bs, s) \<leftarrow> aimbs_getstr bs (uint keylen) s;
     call_user cl s (fr_conn rx) (ms_family snac) (ms_subtype snac) 1 (Some rx)
       [ArgStr (map_option c_string_of keystr)] bs
   }"

definition auth_snachandler :: "client \<Rightarrow> snachandler" where
  "auth_snachandler cl m rx snac bs s =
     (if ms_subtype snac = 0x0003 then auth_parse cl rx (Some snac) bs s
      else if ms_subtype snac = 0x0007 then keyparse cl m rx snac bs s
      else Some (0, bs, s))"

section \<open>The login on the wire\<close>

lemma flap_frame_effect:
  assumes "can_queue s a" "int (length payload) \<le> len" "0 < len" "len < 65536"
    "writes body payload (s\<lparr>next_addr := Suc (next_addr s)\<rparr>)"
  shows "\<exists>s' fr. flap_frame cl s (Some a) chan len body = Some (0, s') \<and>
    queue_outgoing s' = queue_outgoing s @ [fr] \<and> fr_conn fr = Some a \<and> fr_handled fr = 0 \<and>
    (\<exists>sq. fr_hdr fr = Flap chan sq) \<and> bs_ok (fr_data fr) \<and> written (fr_data fr) = payload \<and>
    can_queue s' a \<and> sess_flags s' = sess_flags s \<and> snacid_next s' = snacid_next s"
proof -
  from assms(1) obtain c where c: "mem_ok s" "conns s a = Some c" "conn_type c \<noteq> AIM_CONN_TYPE_RENDEZVOUS"
    "conn_type c \<noteq> AIM_CONN_TYPE_RENDEZVOUS_OUT" "conn_inprogress c \<or> tx_enqueue s = TxQueued"
    by (auto simp: can_queue_def)
  let ?s1 = "s\<lparr>next_addr := Suc (next_addr s)\<rparr>"
  define d where "d = aim_bstream_init (fresh ?s1 (nat len)) len"
  let ?fr = "\<lparr>fr_id = next_addr s, fr_hdr = Flap chan 0, fr_data = d, fr_handled = 0, fr_nofree = 0,
              fr_conn = Some a\<rparr>"
  have d: "bs_ok d" "length payload \<le> room d" "written d = []"
    using assms(2,4) by (simp_all add: d_def to_u16_def)
  have new: "aim_tx_new s (Some a) AIM_FRAMETYPE_FLAP chan len = Some (Some ?fr, ?s1)"
    using c assms(3) by (simp add: aim_tx_new_def new_addr_def d_def Let_def)
  have body: "body d ?s1 = Some (emit payload d, ?s1)"
    using assms(5) d by (simp add: writes_def)
  let ?fr' = "?fr\<lparr>fr_data := emit payload d\<rparr>"
  let ?s' = "put_conn a (c\<lparr>conn_seqnum := conn_seqnum c + 1\<rparr>) ?s1
      \<lparr>queue_outgoing := queue_outgoing s @ [?fr'\<lparr>fr_hdr := Flap chan (conn_seqnum c + 1)\<rparr>]\<rparr>"
  have "aim_tx_enqueue cl ?s1 ?fr' = Some (0, ?s')"
    using c by (auto simp: aim_tx_enqueue_def aim_tx_enqueue__queuebased_def stamp_frame_def
        aim_get_next_txseqnum_def Let_def)
  with new body have "flap_frame cl s (Some a) chan len body = Some (0, ?s')"
    by (simp add: flap_frame_def)
  moreover have "can_queue ?s' a" using can_queue_frame [OF assms(1) _ c(2)] by simp
  ultimately show ?thesis using d by (intro exI [of _ ?s']) (simp add: put_conn_def)
qed

lemma encode_md5_rfc:
  assumes "length key < 2 ^ 31 - 64" "length password < 2 ^ 31 - 64"
  shows "aim_encode_password_md5 password key s = Some (rfc_md5 (key @ password @ AIM_MD5_STRING))"
proof -
  let ?p = "md5_init \<lparr>md_count0 = 0, md_count1 = 0, md_abcd = (0, 0, 0, 0), md_buf = fresh s 64\<rparr>"
  have "md5_holds [] ?p" by (rule init_holds) simp
  from append_holds [OF this, of "int (length key)" key] assms(1) obtain p1
    where p1: "md5_append ?p key (int (length key)) = Some p1" "md5_holds key p1" by auto
  from append_holds [OF p1(2), of "int (length password)" password] assms(2) obtain p2
    where p2: "md5_append p1 password (int (length password)) = Some p2" "md5_holds (key @ password) p2" by auto
  from append_holds [OF p2(2), of "int (length AIM_MD5_STRING)" AIM_MD5_STRING] obtain p3
    where p3: "md5_append p2 AIM_MD5_STRING (int (length AIM_MD5_STRING)) = Some p3"
      "md5_holds (key @ password @ AIM_MD5_STRING) p3" by (auto simp: AIM_MD5_STRING_def cstr_def)
  from finish_holds [OF p3(2)] p1 p2 p3 show ?thesis
    by (auto simp: aim_encode_password_md5_def Let_def)
qed

lemma length_rfc_md5 [simp]: "length (rfc_md5 m) = 16"
  by (simp add: rfc_md5_def split: prod.split)

definition login_tlvs :: "client_info \<Rightarrow> cstring \<Rightarrow> u8 list \<Rightarrow> tlvlist" where
  "login_tlvs ci sn digest =
     [mk_tlv 0x0001 sn, mk_tlv 0x0025 digest]
     @ map (mk_tlv 0x0003) (case ci_clientstring ci of None \<Rightarrow> [] | Some x \<Rightarrow> [x])
     @ [mk_tlv 0x0016 (aimutil_put16 (ci_clientid ci)),
        mk_tlv 0x0017 (aimutil_put16 (word_of_int (ci_major ci))),
        mk_tlv 0x0018 (aimutil_put16 (word_of_int (ci_minor ci))),
        mk_tlv 0x0019 (aimutil_put16 (word_of_int (ci_point ci))),
        mk_tlv 0x001a (aimutil_put16 (word_of_int (ci_build ci))),
        mk_tlv 0x000e (ci_country ci), mk_tlv 0x000f (ci_lang ci)]"

definition icq_tlvs :: "cstring \<Rightarrow> u8 list \<Rightarrow> tlvlist" where
  "icq_tlvs sn encoded =
     [mk_tlv 0x0001 sn, mk_tlv 0x0002 encoded,
      mk_tlv 0x0003 (cstr ''ICQ Inc. - Product of ICQ (TM) 2000b.4.65.1.3281.85''),
      mk_tlv 0x0016 (aimutil_put16 0x010a), mk_tlv 0x0017 (aimutil_put16 0x0004),
      mk_tlv 0x0018 (aimutil_put16 0x0041), mk_tlv 0x0019 (aimutil_put16 0x0001),
      mk_tlv 0x001a (aimutil_put16 0x0cd1), mk_tlv 0x0014 (aimutil_put32 0x00000055),
      mk_tlv 0x000f (cstr ''en''), mk_tlv 0x000e (cstr ''us'')]"

text \<open>The strings of a login are short enough to fit the 1152 bytes of its frame.\<close>

definition login_fits :: "client_info \<Rightarrow> cstring \<Rightarrow> bool" where
  "login_fits ci sn \<longleftrightarrow> length sn + length (ci_country ci) + length (ci_lang ci)
     + (case ci_clientstring ci of None \<Rightarrow> 0 | Some x \<Rightarrow> length x) \<le> 1000"

lemma login_wire:
  assumes "can_queue s a" "sess_flags s AND AIM_SESS_FLAGS_XORLOGIN = 0" "login_fits ci sn"
    "length key < 2 ^ 31 - 64" "length password < 2 ^ 31 - 64"
  shows "\<exists>s'. aim_send_login cl s (Some a) (Some sn) (Some password) (Some ci) key = Some (0, s') \<and>
    queued_snac s a 0x0017 0x0002 (snacid_next s)
      (chain_wire (login_tlvs ci sn (rfc_md5 (key @ password @ AIM_MD5_STRING)))) s' \<and>
    remembered s 0x0017 0x0002 None s'"
proof -
  let ?ts = "login_tlvs ci sn (rfc_md5 (key @ password @ AIM_MD5_STRING))"
  have fit: "10 + int (length (chain_wire ?ts)) \<le> 1152" and ok: "chain_ok ?ts"
    using assms(3) by (auto simp: login_tlvs_def login_fits_def length_tlv_wire split: option.splits)
  have len: "length sn < 65536" "length (ci_country ci) < 65536" "length (ci_lang ci) < 65536"
    "\<forall>x \<in> set_option (ci_clientstring ci). length x < 65536"
    using assms(3) by (auto simp: login_fits_def)
  let ?body = "\<lambda>bs s. do {
       (ts, s) \<leftarrow> add_str [] 0x0001 sn s;
       digest \<leftarrow> aim_encode_password_md5 password key s;
       (_, ts, s) \<leftarrow> aim_addtlvtochain_raw ts 0x0025 16 digest s;
       (ts, s) \<leftarrow> add_opt ts 0x0003 (ci_clientstring ci) s;
       (ts, s) \<leftarrow> add16 ts 0x0016 (ci_clientid ci) s;
       (ts, s) \<leftarrow> add16 ts 0x0017 (word_of_int (ci_major ci)) s;
       (ts, s) \<leftarrow> add16 ts 0x0018 (word_of_int (ci_minor ci)) s;
       (ts, s) \<leftarrow> add16 ts 0x0019 (word_of_int (ci_point ci)) s;
       (ts, s) \<leftarrow> add16 ts 0x001a (word_of_int (ci_build ci)) s;
       (ts, s) \<leftarrow> add_str ts 0x000e (ci_country ci) s;
       (ts, s) \<leftarrow> add_str ts 0x000f (ci_lang ci) s;
       put_chain ts bs s
     }"
  have body: "writes ?body (chain_wire ?ts) t" if "same_queue s t" for t
  proof -
    have t: "mem_ok t" using that assms(1) by (simp add: same_queue_def can_queue_def)
    have "?body bs t = put_chain ?ts bs t" for bs
      using t len by (simp add: add_chain_ok encode_md5_rfc [OF assms(4,5)] addraw_ok login_tlvs_def)
    then show ?thesis using ok by (simp add: writes_def put_chain_ok)
  qed
  show ?thesis
    unfolding aim_send_login_def
    using assms(2) cached_request [OF assms(1) fit _ body] by simp
qed

lemma icq_wire:
  assumes "can_queue s a" "length sn \<le> 1000" "aim_encode_password password = Some encoded"
    "length encoded = length password" "length password \<le> 16"
  shows "\<exists>s' fr sq. goddamnicq2 cl s (Some a) sn password = Some (0, s') \<and>
    queue_outgoing s' = queue_outgoing s @ [fr] \<and> fr_conn fr = Some a \<and> fr_handled fr = 0 \<and>
    fr_hdr fr = Flap 1 sq \<and> bs_ok (fr_data fr) \<and>
    written (fr_data fr) = aimutil_put32 1 @ chain_wire (icq_tlvs sn encoded) \<and> can_queue s' a"
proof -
  let ?ts = "icq_tlvs sn encoded"
  have fit: "int (length (aimutil_put32 1 @ chain_wire ?ts)) \<le> 1152" and ok: "chain_ok ?ts"
    using assms(2,4,5) by (simp_all add: icq_tlvs_def length_tlv_wire cstr_def)
  let ?body = "\<lambda>bs s. do {
       password_encoded \<leftarrow> aim_encode_password password;
       (_, bs) \<leftarrow> aimbs_put32 bs 0x00000001;
       (ts, s) \<leftarrow> add_str [] 0x0001 sn s;
       (_, ts, s) \<leftarrow> aim_addtlvtochain_raw ts 0x0002 (of_nat (length password)) password_encoded s;
       (ts, s) \<leftarrow> add_str ts 0x0003 (cstr ''ICQ Inc. - Product of ICQ (TM) 2000b.4.65.1.3281.85'') s;
       (ts, s) \<leftarrow> add16 ts 0x0016 0x010a s;
       (ts, s) \<leftarrow> add16 ts 0x0017 0x0004 s;
       (ts, s) \<leftarrow> add16 ts 0x0018 0x0041 s;
       (ts, s) \<leftarrow> add16 ts 0x0019 0x0001 s;
       (ts, s) \<leftarrow> add16 ts 0x001a 0x0cd1 s;
       (_, ts, s) \<leftarrow> aim_addtlvtochain32 ts 0x0014 0x00000055 s;
       (ts, s) \<leftarrow> add_str ts 0x000f (cstr ''en'') s;
       (ts, s) \<leftarrow> add_str ts 0x000e (cstr ''us'') s;
       put_chain ts bs s
     }"
  have body: "writes ?body (aimutil_put32 1 @ chain_wire ?ts) t" if t: "mem_ok t" for t
  proof -
    have "?body bs t = put_chain ?ts (emit (aimutil_put32 1) bs) t" if "bs_ok bs" "4 \<le> room bs" for bs
      using t that assms(2-5) by (simp add: put32_ok add_chain_ok add32_ok addraw_ok icq_tlvs_def cstr_def)
    moreover have "put_chain ?ts (emit (aimutil_put32 1) bs) t = Some (emit (aimutil_put32 1 @ chain_wire ?ts) bs, t)"
      if "bs_ok bs" "4 + length (chain_wire ?ts) \<le> room bs" for bs
      using put_chain_ok [of "emit (aimutil_put32 1) bs" ?ts t] ok that by simp
    ultimately show ?thesis by (simp add: writes_def)
  qed
  have mem: "mem_ok s" using assms(1) by (simp add: can_queue_def)
  then show ?thesis
    using flap_frame_effect [OF assms(1) fit _ _ body, where cl = cl and chan = 1]
    by (auto simp: goddamnicq2_def)
qed


text \<open>
  A client that answers the key with its name, its password and what it says of itself, as the
  example client does.
\<close>

definition login_callback ::
  "client \<Rightarrow> cstring \<Rightarrow> cstring \<Rightarrow> client_info \<Rightarrow> aim_frame option \<Rightarrow> cb_arg list \<Rightarrow> bstream \<Rightarrow> aim_session
   \<Rightarrow> (int \<times> bstream \<times> aim_session) option" where
  "login_callback cl sn password ci frame args bs s =
     (case (frame, args) of
        (Some fr, [ArgStr (Some key)]) \<Rightarrow> do {
          (r, s) \<leftarrow> aim_send_login cl s (fr_conn fr) (Some sn) (Some password) (Some ci) key;
          Some (r, bs, s)
        }
      | _ \<Rightarrow> Some (0, bs, s))"

lemma encode_loop_zip:
  "length cs \<le> length ks \<Longrightarrow> encode_loop cs ks = Some (map2 (\<lambda>c k. c XOR k) cs ks)"
  "length ks < length cs \<Longrightarrow> encode_loop cs ks = None"
  by (induction cs ks rule: encode_loop.induct) auto

lemma encode_password:
  "length cs \<le> 16 \<Longrightarrow> aim_encode_password cs = Some (map2 (\<lambda>c k. c XOR k) cs encoding_table)"
  "16 < length cs \<Longrightarrow> aim_encode_password cs = None"
  by (simp_all add: aim_encode_password_def encode_loop_zip encoding_table_def)

text \<open>C34: the key the authorizer sends is answered. When the client's handler for the key calls
  aim\_send\_login, the middle handler of the reply queues the login request on the connection
  the key came on, remembered under its id, whose digest element is the MD5 digest of the key,
  the password and the fixed string, followed by what the client says of itself.\<close>

theorem login_answers_key:
  assumes "can_queue s a" "sess_flags s AND AIM_SESS_FLAGS_XORLOGIN = 0" "login_fits ci sn"
    "length key < 65536" "length password < 2 ^ 31 - 64" "0 \<notin> set key"
    "bs_ok bs" "unread bs = aimutil_put16 (of_nat (length key)) @ key"
    "aim_callhandler s (Some a) 0x0017 0x0007 = Some (Some (UserCb n))"
    "cl_callback cl n = login_callback cl0 sn password ci"
    "fr_conn rx = Some a" "ms_family snac = 0x0017" "ms_subtype snac = 0x0007"
  shows "\<exists>bs' s'. auth_snachandler cl m rx snac bs s = Some (0, bs', s') \<and>
    queued_snac s a 0x0017 0x0002 (snacid_next s)
      (chain_wire (login_tlvs ci sn (rfc_md5 (key @ password @ AIM_MD5_STRING)))) s' \<and>
    remembered s 0x0017 0x0002 None s'"
proof -
  have room: "room bs = 2 + length key"
    using length_unread [OF assms(7)] assms(8) by simp
  have 1: "aimbs_get16 bs = Some (of_nat (length key), adv 2 bs)"
    using get16_wire [OF assms(7,8)] .
  have "uint (of_nat (length key) :: u16) = int (length key)"
    using assms(4) by (simp add: unsigned_of_nat take_bit_nat_eq_self)
  then have 2: "aimbs_getstr (adv 2 bs) (uint (of_nat (length key) :: u16)) s =
      Some (Some (key @ [0]), adv (2 + length key) bs, s)"
    using assms(1,7,8) room by (simp add: getstr_ok can_queue_def aimutil_put16_def)
  have 3: "c_string_of (key @ [0]) = key"
    using assms(6) by (auto simp: c_string_of_def takeWhile_append takeWhile_eq_all_conv)
  have key: "length key < 2 ^ 31 - 64" using assms(4) by simp
  from login_wire [OF assms(1-3) key assms(5), where cl = cl0] obtain s' where s':
    "aim_send_login cl0 s (Some a) (Some sn) (Some password) (Some ci) key = Some (0, s')"
    "queued_snac s a 0x0017 0x0002 (snacid_next s)
      (chain_wire (login_tlvs ci sn (rfc_md5 (key @ password @ AIM_MD5_STRING)))) s'"
    "remembered s 0x0017 0x0002 None s'" by blast
  then show ?thesis
    using assms(9-) by (simp add: auth_snachandler_def keyparse_def 1 2 3 call_user_def call_cb_def login_callback_def)
qed

text \<open>A name that starts with a digit logs in the way ICQ does. The request for the key never
  reaches the network: the client's handler for the key is called at once with the empty key, and
  its login goes out as one frame of the first channel, with the password under the mask when it
  has at most 16 bytes; a longer password reads past the mask, which is undefined.\<close>

theorem icq_login:
  assumes "can_queue s a" "length sn \<le> 1000" "sn \<noteq> []" "48 \<le> sn ! 0" "sn ! 0 \<le> 57"
    "aim_callhandler s (Some a) 0x0017 0x0007 = Some (Some (UserCb n))"
    "cl_callback cl n = login_callback cl0 sn password ci"
  shows "(length password \<le> 16 \<longrightarrow>
     (\<exists>s' fr sq. aim_request_login cl (Some s) (Some a) (Some sn) = Some (0, Some s') \<and>
        queue_outgoing s' = queue_outgoing s @ [fr] \<and> fr_conn fr = Some a \<and> fr_hdr fr = Flap 1 sq \<and>
        written (fr_data fr) = aimutil_put32 1 @
          chain_wire (icq_tlvs sn (map2 (\<lambda>c k. c XOR k) password encoding_table)))) \<and>
    (16 < length password \<longrightarrow> aim_request_login cl (Some s) (Some a) (Some sn) = None)"
proof -
  define t where "t = s\<lparr>sess_flags := (sess_flags s AND NOT AIM_SESS_FLAGS_SNACLOGIN) OR AIM_SESS_FLAGS_XORLOGIN\<rparr>"
  have t: "can_queue t a" "queue_outgoing t = queue_outgoing s" "sess_flags t AND AIM_SESS_FLAGS_XORLOGIN \<noteq> 0"
    "aim_callhandler t (Some a) 0x0017 0x0007 = Some (Some (UserCb n))"
    using assms(1,6) by (simp_all add: t_def can_queue_def snacs_ok_def mem_ok_def aim_callhandler_def
        AIM_SESS_FLAGS_XORLOGIN_def bit.conj_disj_distrib2)
  have req: "aim_request_login cl (Some s) (Some a) (Some sn) =
      map_option (\<lambda>(r, s). (0, Some s)) (goddamnicq2 cl0 t (Some a) sn password)"
    using assms(3-5,7) t(3,4)
    by (cases "goddamnicq2 cl0 t (Some a) sn password")
      (auto simp: aim_request_login_def goddamnicq_def call_cb_def login_callback_def stack_frame_def
        aim_send_login_def Let_def t_def [symmetric] split: option.split)
  show ?thesis
  proof (intro conjI impI)
    assume le: "length password \<le> 16"
    with icq_wire [OF t(1) assms(2) encode_password(1) _ le, of cl0] t(2) show
     "\<exists>s' fr sq. aim_request_login cl (Some s) (Some a) (Some sn) = Some (0, Some s') \<and>
        queue_outgoing s' = queue_outgoing s @ [fr] \<and> fr_conn fr = Some a \<and> fr_hdr fr = Flap 1 sq \<and>
        written (fr_data fr) = aimutil_put32 1 @
          chain_wire (icq_tlvs sn (map2 (\<lambda>c k. c XOR k) password encoding_table))"
      by (fastforce simp: req encoding_table_def)
  next
    assume "16 < length password"
    then show "aim_request_login cl (Some s) (Some a) (Some sn) = None"
      using t(1) by (auto simp: req goddamnicq2_def flap_frame_def encode_password can_queue_def aim_tx_new_def
          Let_def new_addr_def)
  qed
qed

text \<open>A session whose connection answers the key.\<close>

definition login_session :: aim_session where
  "login_session = put_conn 0 (demo_conn 5\<lparr>conn_handlerlist :=
     [\<lparr>cb_family = 0x0017, cb_type = 0x0007, cb_handler = UserCb 0, cb_flags = 0\<rparr>]\<rparr>) demo_session"

definition login_info :: client_info where
  "login_info = \<lparr>ci_clientstring = Some (cstr ''faim''), ci_clientid = 0x0004, ci_major = 4, ci_minor = 1,
     ci_point = 0, ci_build = 2010, ci_country = cstr ''us'', ci_lang = cstr ''en''\<rparr>"

definition login_client :: "cstring \<Rightarrow> client" where
  "login_client sn = quiet_client\<lparr>cl_callback := \<lambda>n. login_callback quiet_client sn (cstr ''secret'') login_info\<rparr>"

lemma login_session_ok:
  "can_queue login_session 0" "sess_flags login_session = 0" "queue_outgoing login_session = queue_outgoing demo_session"
  "aim_callhandler login_session (Some 0) 0x0017 0x0007 = Some (Some (UserCb 0))"
  by (simp_all add: login_session_def can_queue_def demo_session_def snacs_ok_def demo_conn_def put_conn_def
      aim_callhandler_def AIM_CONN_TYPE_BOS_def AIM_CONN_TYPE_RENDEZVOUS_def AIM_CONN_TYPE_RENDEZVOUS_OUT_def
      session0_def mem_ok_def)

theorem login_answers_key_witness:
  "\<exists>bs' s'. auth_snachandler (login_client (cstr ''tester'')) misc_module (demo_frame 2 [] (Some 0))
      \<lparr>ms_family = 0x0017, ms_subtype = 0x0007, ms_flags = 0, ms_id = 0\<rparr>
      (aim_bstream_init [0, 2, 0x6b, 0x79] 4) login_session = Some (0, bs', s') \<and>
    queued_snac login_session 0 0x0017 0x0002 (snacid_next login_session)
      (chain_wire (login_tlvs login_info (cstr ''tester'')
        (rfc_md5 ([0x6b, 0x79] @ cstr ''secret'' @ AIM_MD5_STRING)))) s'"
  using login_answers_key [where s = login_session and a = 0 and ci = login_info and sn = "cstr ''tester''"
      and key = "[0x6b, 0x79]" and password = "cstr ''secret''" and bs = "aim_bstream_init [0, 2, 0x6b, 0x79] 4"
      and n = 0 and cl = "login_client (cstr ''tester'')" and ?cl0.0 = quiet_client and m = misc_module
      and rx = "demo_frame 2 [] (Some 0)"
      and snac = "\<lparr>ms_family = 0x0017, ms_subtype = 0x0007, ms_flags = 0, ms_id = 0\<rparr>"]
  by (auto simp: login_session_ok demo_frame_def login_fits_def login_info_def login_client_def cstr_def aimutil_put16_def to_u16_def)

theorem icq_login_witness:
  "(\<exists>s' fr sq. aim_request_login (login_client (cstr ''1234'')) (Some login_session) (Some 0) (Some (cstr ''1234''))
      = Some (0, Some s') \<and>
     queue_outgoing s' = queue_outgoing login_session @ [fr] \<and> fr_conn fr = Some 0 \<and> fr_hdr fr = Flap 1 sq \<and>
     written (fr_data fr) = aimutil_put32 1 @
       chain_wire (icq_tlvs (cstr ''1234'') [0x80, 0x43, 0xe2, 0xb6, 0x5c, 0xf2]))"
  using icq_login [where s = login_session and a = 0 and sn = "cstr ''1234''" and n = 0
      and cl = "login_client (cstr ''1234'')" and ?cl0.0 = quiet_client and password = "cstr ''secret''"
      and ci = login_info]
  by (simp add: login_session_ok login_client_def cstr_def encoding_table_def)

end
