(* ===== verification/Service.thy ===== *)
theory Service
  imports Auth
begin

text \<open>
  The general services every connection supports: \<^verbatim>\<open>src/service.c\<close>. Above all the steps
  that initialise a connection: the server says which families it supports, the library answers
  with its versions of them, asks for the rate limits, keeps what it is told in the connection,
  acknowledges the rate classes and tells the client that the connection is ready. The debugging
  output of the handlers is not modelled.
\<close>

section \<open>Model\<close>

subsection \<open>Initialising a connection\<close>

text \<open>What the modules for the groups of the connection say of themselves.\<close>

fun put_modules ::
  "(aim_module \<Rightarrow> u16 list) \<Rightarrow> aim_session \<Rightarrow> u16 list \<Rightarrow> bstream \<Rightarrow> bstream option" where
  "put_modules vals s [] bs = Some bs"
| "put_modules vals s (g # gs) bs =
     (case aim__findmodulebygroup s g of
        None \<Rightarrow> put_modules vals s gs bs
      | Some m \<Rightarrow> do {
          bs \<leftarrow> fold (\<lambda>v bs. do { bs \<leftarrow> bs; (_, bs) \<leftarrow> aimbs_put16 bs v; Some bs }) (vals m) (Some bs);
          put_modules vals s gs bs
        })"

definition aim_clientready :: "client \<Rightarrow> aim_session \<Rightarrow> nat option \<Rightarrow> (int \<times> aim_session) option" where
  "aim_clientready cl s conn = do {
     c \<leftarrow> conn_at s conn;
     case conn_inside c of
       None \<Rightarrow> Some (- EINVAL, s)
     | Some ins \<Rightarrow>
         snac_frame cl s conn 1152 (cached_id 0x0001 0x0002 None) 0x0001 0x0002
           (\<lambda>bs s. do {
              bs \<leftarrow> put_modules (\<lambda>m. [mod_family m, mod_version m, mod_toolid m, mod_toolversion m])
                s (in_groups ins) bs;
              Some (bs, s)
            })
   }"

definition aim_setversions :: "client \<Rightarrow> aim_session \<Rightarrow> nat option \<Rightarrow> (int \<times> aim_session) option" where
  "aim_setversions cl s conn = do {
     c \<leftarrow> conn_at s conn;
     case conn_inside c of
       None \<Rightarrow> Some (- EINVAL, s)
     | Some ins \<Rightarrow>
         snac_frame cl s conn 1152 (cached_id 0x0001 0x0017 None) 0x0001 0x0017
           (\<lambda>bs s. do {
              bs \<leftarrow> put_modules (\<lambda>m. [mod_family m, mod_version m]) s (in_groups ins) bs;
              Some (bs, s)
            })
   }"

text \<open>
  The families are also stored in an array of as many bytes as the stream has left. A last byte
  that is left over is never consumed, and the next store is past the end of the array.
\<close>

function hostonline_loop ::
  "nat option \<Rightarrow> nat \<Rightarrow> nat \<Rightarrow> bstream \<Rightarrow> aim_session \<Rightarrow> (bstream \<times> aim_session) option" where
  "hostonline_loop conn cap famcount bs s =
     (if aim_bstream_empty bs = 0 then Some (bs, s)
      else do {
        (fam, bs) \<leftarrow> aimbs_get16 bs;
        if cap < 2 * famcount + 2 then None
        else do {
          s \<leftarrow> aim_conn_addgroup conn fam s;
          hostonline_loop conn cap (famcount + 1) bs s
        }
      })"
  by pat_completeness auto
termination by (relation "measure (\<lambda>(_, cap, famcount, _, _). cap - 2 * famcount)") auto

declare hostonline_loop.simps [simp del]

definition hostonline :: "client \<Rightarrow> snachandler" where
  "hostonline cl m rx snac bs s =
     (let (ok, s) = malloc s
      in if \<not> ok then Some (0, bs, s)
         else do {
           (bs, s) \<leftarrow> hostonline_loop (fr_conn rx) (nat (aim_bstream_empty bs)) 0 bs s;
           (_, s) \<leftarrow> aim_setversions cl s (fr_conn rx);
           Some (1, bs, s)
         })"

definition aim_reqrates :: "client \<Rightarrow> aim_session \<Rightarrow> nat option \<Rightarrow> (int \<times> aim_session) option" where
  "aim_reqrates cl s conn = aim_genericreq_n cl s conn 0x0001 0x0006"

definition hostversions :: "client \<Rightarrow> snachandler" where
  "hostversions cl m rx snac bs s = do {
     (versions, bs, s) \<leftarrow> aimbs_getraw bs (aim_bstream_empty bs) s;
     (_, s) \<leftarrow> aim_reqrates cl s (fr_conn rx);
     Some (1, bs, s)
   }"

subsection \<open>Rate classes\<close>

definition rc_addclass :: "rateclass list \<Rightarrow> rateclass \<Rightarrow> aim_session \<Rightarrow> rateclass list \<times> aim_session" where
  "rc_addclass rates rc s = (let (ok, s) = malloc s in if ok then (rates @ [rc], s) else (rates, s))"

text \<open>The first class with the id, as its position in the list.\<close>

fun rc_findclass :: "rateclass list \<Rightarrow> u16 \<Rightarrow> nat option" where
  "rc_findclass [] i = None"
| "rc_findclass (rc # rcs) i = (if rc_classid rc = i then Some 0 else map_option Suc (rc_findclass rcs i))"

definition rc_addpair :: "rateclass \<Rightarrow> u16 \<Rightarrow> u16 \<Rightarrow> aim_session \<Rightarrow> rateclass \<times> aim_session" where
  "rc_addpair rc grp type s =
     (let (ok, s) = malloc s in if ok then (rc\<lparr>rc_members := rc_members rc @ [(grp, type)]\<rparr>, s) else (rc, s))"

text \<open>The parameters of one class; the last five bytes depend on the version of the module.\<close>

definition read_class :: "aim_module \<Rightarrow> bstream \<Rightarrow> (rateclass \<times> bstream) option" where
  "read_class m bs = do {
     (classid, bs) \<leftarrow> aimbs_get16 bs;
     (windowsize, bs) \<leftarrow> aimbs_get32 bs;
     (clear, bs) \<leftarrow> aimbs_get32 bs;
     (alert, bs) \<leftarrow> aimbs_get32 bs;
     (limit, bs) \<leftarrow> aimbs_get32 bs;
     (disconnect, bs) \<leftarrow> aimbs_get32 bs;
     (current, bs) \<leftarrow> aimbs_get32 bs;
     (mx, bs) \<leftarrow> aimbs_get32 bs;
     (unknown, bs) \<leftarrow>
       (if 3 \<le> mod_version m then do {
          (r, xs, bs) \<leftarrow> aimbs_getrawbuf bs 5;
          Some (if r = 5 then xs else replicate 5 0, bs)
        } else Some (replicate 5 0, bs));
     Some (\<lparr>rc_classid = classid, rc_windowsize = windowsize, rc_clear = clear, rc_alert = alert,
            rc_limit = limit, rc_disconnect = disconnect, rc_current = current, rc_max = mx,
            rc_unknown = unknown, rc_members = []\<rparr>, bs)
   }"

fun rates_classes ::
  "aim_module \<Rightarrow> nat \<Rightarrow> rateclass list \<Rightarrow> bstream \<Rightarrow> aim_session
   \<Rightarrow> (rateclass list \<times> bstream \<times> aim_session) option" where
  "rates_classes m 0 rates bs s = Some (rates, bs, s)"
| "rates_classes m (Suc k) rates bs s = do {
     (rc, bs) \<leftarrow> read_class m bs;
     let (rates, s) = rc_addclass rates rc s;
     rates_classes m k rates bs s
   }"

fun rates_pairs ::
  "nat option \<Rightarrow> nat \<Rightarrow> rateclass list \<Rightarrow> bstream \<Rightarrow> aim_session
   \<Rightarrow> (rateclass list \<times> bstream \<times> aim_session) option" where
  "rates_pairs rc 0 rates bs s = Some (rates, bs, s)"
| "rates_pairs rc (Suc k) rates bs s = do {
     (grp, bs) \<leftarrow> aimbs_get16 bs;
     (subtype, bs) \<leftarrow> aimbs_get16 bs;
     case rc of
       None \<Rightarrow> rates_pairs rc k rates bs s
     | Some i \<Rightarrow>
         (let (x, s) = rc_addpair (rates ! i) grp subtype s
          in rates_pairs rc k (rates[i := x]) bs s)
   }"

fun rates_members ::
  "nat \<Rightarrow> rateclass list \<Rightarrow> bstream \<Rightarrow> aim_session \<Rightarrow> (rateclass list \<times> bstream \<times> aim_session) option" where
  "rates_members 0 rates bs s = Some (rates, bs, s)"
| "rates_members (Suc k) rates bs s = do {
     (classid, bs) \<leftarrow> aimbs_get16 bs;
     (count, bs) \<leftarrow> aimbs_get16 bs;
     (rates, bs, s) \<leftarrow> rates_pairs (rc_findclass rates classid) (unat count) rates bs s;
     rates_members k rates bs s
   }"

text \<open>The ids of the classes of a connection, in a frame of 512 bytes.\<close>

fun put_classids :: "rateclass list \<Rightarrow> bstream \<Rightarrow> bstream option" where
  "put_classids [] bs = Some bs"
| "put_classids (rc # rcs) bs = do { (_, bs) \<leftarrow> aimbs_put16 bs (rc_classid rc); put_classids rcs bs }"

definition rates_param :: "u16 \<Rightarrow> client \<Rightarrow> aim_session \<Rightarrow> nat option \<Rightarrow> (int \<times> aim_session) option" where
  "rates_param subtype cl s conn = do {
     c \<leftarrow> conn_at s conn;
     snac_frame cl s conn 512 (cached_id 0x0001 subtype None) 0x0001 subtype
       (\<lambda>bs s. do {
          ins \<leftarrow> conn_inside c;
          bs \<leftarrow> put_classids (in_rates ins) bs;
          Some (bs, s)
        })
   }"

definition aim_rates_addparam :: "client \<Rightarrow> aim_session \<Rightarrow> nat option \<Rightarrow> (int \<times> aim_session) option" where
  "aim_rates_addparam = rates_param 0x0008"

definition aim_rates_delparam :: "client \<Rightarrow> aim_session \<Rightarrow> nat option \<Rightarrow> (int \<times> aim_session) option" where
  "aim_rates_delparam = rates_param 0x0009"

definition rateresp :: "client \<Rightarrow> snachandler" where
  "rateresp cl m rx snac bs s = do {
     a \<leftarrow> fr_conn rx;
     c \<leftarrow> conns s a;
     ins \<leftarrow> conn_inside c;
     (numclasses, bs) \<leftarrow> aimbs_get16 bs;
     (rates, bs, s) \<leftarrow> rates_classes m (unat numclasses) (in_rates ins) bs s;
     (rates, bs, s) \<leftarrow> rates_members (unat numclasses) rates bs s;
     let s = put_conn a (c\<lparr>conn_inside := Some (ins\<lparr>in_rates := rates\<rparr>)\<rparr>) s;
     (_, s) \<leftarrow> aim_rates_addparam cl s (fr_conn rx);
     (_, bs, s) \<leftarrow> call_user cl s (fr_conn rx) AIM_CB_FAM_SPECIAL AIM_CB_SPECIAL_CONNINITDONE 0 (Some rx) [] bs;
     Some (1, bs, s)
   }"

definition ratechange :: "client \<Rightarrow> snachandler" where
  "ratechange cl m rx snac bs s = do {
     (code, bs) \<leftarrow> aimbs_get16 bs;
     (rateclass, bs) \<leftarrow> aimbs_get16 bs;
     (windowsize, bs) \<leftarrow> aimbs_get32 bs;
     (clear, bs) \<leftarrow> aimbs_get32 bs;
     (alert, bs) \<leftarrow> aimbs_get32 bs;
     (limit, bs) \<leftarrow> aimbs_get32 bs;
     (disconnect, bs) \<leftarrow> aimbs_get32 bs;
     (currentavg, bs) \<leftarrow> aimbs_get32 bs;
     (maxavg, bs) \<leftarrow> aimbs_get32 bs;
     call_user cl s (fr_conn rx) (ms_family snac) (ms_subtype snac) 0 (Some rx)
       [ArgInt (uint code), ArgInt (uint rateclass), ArgInt (uint windowsize), ArgInt (uint clear),
        ArgInt (uint alert), ArgInt (uint limit), ArgInt (uint disconnect), ArgInt (uint currentavg),
        ArgInt (uint maxavg)] bs
   }"

subsection \<open>Other messages of the server\<close>

text \<open>
  A service on another server. A request for a chat keeps the room it is for; a name that fills its
  field is handed on without a terminator, which is no string.
\<close>

definition redirect :: "client \<Rightarrow> snachandler" where
  "redirect cl m rx snac bs s = do {
     (tlvlist, bs, s) \<leftarrow> aim_readtlvchain bs s;
     if aim_gettlv tlvlist 0x000d 1 = None \<or> aim_gettlv tlvlist 0x0005 1 = None \<or> aim_gettlv tlvlist 0x0006 1 = None
     then Some (0, bs, s)
     else do {
       grp \<leftarrow> aim_gettlv16 tlvlist 0x000d 1;
       (ip, s) \<leftarrow> aim_gettlv_str tlvlist 0x0005 1 s;
       (cookie, s) \<leftarrow> aim_gettlv_str tlvlist 0x0006 1 s;
       let (origsnac, s) = aim_remsnac s (ms_id snac);
       chat \<leftarrow> (case origsnac of
           None \<Rightarrow> Some [ArgInt 0, ArgStr None, ArgInt 0]
         | Some orig \<Rightarrow>
             if grp \<noteq> AIM_CONN_TYPE_CHAT then Some [ArgInt 0, ArgStr None, ArgInt 0]
             else (case snac_data orig of
                     Some (SnacChat exchange name inst) \<Rightarrow> do {
                       room \<leftarrow> buf_string name;
                       Some [ArgInt (uint exchange), ArgStr (Some room), ArgInt (uint inst)]
                     }
                   | _ \<Rightarrow> None));
       call_user cl s (fr_conn rx) (ms_family snac) (ms_subtype snac) 0 (Some rx)
         ([ArgInt (uint grp), ArgStr (map_option c_string_of ip), ArgBytes cookie] @ chat) bs
     }
   }"

definition serverpause :: "client \<Rightarrow> snachandler" where
  "serverpause cl m rx snac bs s =
     call_user cl s (fr_conn rx) (ms_family snac) (ms_subtype snac) 0 (Some rx) [] bs"

definition serverresume :: "client \<Rightarrow> snachandler" where
  "serverresume cl m rx snac bs s =
     call_user cl s (fr_conn rx) (ms_family snac) (ms_subtype snac) 0 (Some rx) [] bs"

definition selfinfo :: "client \<Rightarrow> snachandler" where
  "selfinfo cl m rx snac bs s = do {
     (_, userinfo, bs, s) \<leftarrow> aim_extractuserinfo bs s;
     call_user cl s (fr_conn rx) (ms_family snac) (ms_subtype snac) 0 (Some rx) [ArgUserinfo userinfo] bs
   }"

definition evilnotify :: "client \<Rightarrow> snachandler" where
  "evilnotify cl m rx snac bs s = do {
     (newevil, bs) \<leftarrow> aimbs_get16 bs;
     (userinfo, bs, s) \<leftarrow>
       (if aim_bstream_empty bs \<noteq> 0 then do {
          (_, ui, bs, s) \<leftarrow> aim_extractuserinfo bs s;
          Some (ui, bs, s)
        } else Some (zero_userinfo, bs, s));
     call_user cl s (fr_conn rx) (ms_family snac) (ms_subtype snac) 0 (Some rx)
       [ArgInt (uint newevil), ArgUserinfo userinfo] bs
   }"

fun skip_groups :: "nat \<Rightarrow> bstream \<Rightarrow> bstream option" where
  "skip_groups 0 bs = Some bs"
| "skip_groups (Suc k) bs = do { (_, bs) \<leftarrow> aimbs_get16 bs; skip_groups k bs }"

definition migrate :: "client \<Rightarrow> snachandler" where
  "migrate cl m rx snac bs s = do {
     (groupcount, bs) \<leftarrow> aimbs_get16 bs;
     bs \<leftarrow> skip_groups (unat groupcount) bs;
     (ts, bs, s) \<leftarrow> aim_readtlvchain bs s;
     (ip, s) \<leftarrow> gettlv_cstr ts 0x0005 s;
     call_user cl s (fr_conn rx) (ms_family snac) (ms_subtype snac) 0 (Some rx)
       [ArgStr ip, ArgBytes (Option.bind (aim_gettlv ts 0x0006 1) tlv_value)] bs
   }"

definition motd :: "client \<Rightarrow> snachandler" where
  "motd cl m rx snac bs s = do {
     (i, bs) \<leftarrow> aimbs_get16 bs;
     (tlvlist, bs, s) \<leftarrow> aim_readtlvchain bs s;
     (msg, s) \<leftarrow> aim_gettlv_str tlvlist 0x000b 1 s;
     call_user cl s (fr_conn rx) (ms_family snac) (ms_subtype snac) 0 (Some rx)
       [ArgInt (uint i), ArgStr (map_option c_string_of msg)] bs
   }"

definition memrequest :: "client \<Rightarrow> snachandler" where
  "memrequest cl m rx snac bs s = do {
     (offset, bs) \<leftarrow> aimbs_get32 bs;
     (len, bs) \<leftarrow> aimbs_get32 bs;
     (list, bs, s) \<leftarrow> aim_readtlvchain bs s;
     (modname, s) \<leftarrow> aim_gettlv_str list 0x0001 1 s;
     call_user cl s (fr_conn rx) (ms_family snac) (ms_subtype snac) 0 (Some rx)
       [ArgInt (uint offset), ArgInt (uint len), ArgStr (map_option c_string_of modname)] bs
   }"

definition general_snachandler :: "client \<Rightarrow> snachandler" where
  "general_snachandler cl m rx snac bs s =
     (if ms_subtype snac = 0x0003 then hostonline cl m rx snac bs s
      else if ms_subtype snac = 0x0005 then redirect cl m rx snac bs s
      else if ms_subtype snac = 0x0007 then rateresp cl m rx snac bs s
      else if ms_subtype snac = 0x000a then ratechange cl m rx snac bs s
      else if ms_subtype snac = 0x000b then serverpause cl m rx snac bs s
      else if ms_subtype snac = 0x000d then serverresume cl m rx snac bs s
      else if ms_subtype snac = 0x000f then selfinfo cl m rx snac bs s
      else if ms_subtype snac = 0x0010 then evilnotify cl m rx snac bs s
      else if ms_subtype snac = 0x0012 then migrate cl m rx snac bs s
      else if ms_subtype snac = 0x0013 then motd cl m rx snac bs s
      else if ms_subtype snac = 0x0018 then hostversions cl m rx snac bs s
      else if ms_subtype snac = 0x001f then memrequest cl m rx snac bs s
      else Some (0, bs, s))"

subsection \<open>Requests\<close>

definition aim_reqservice :: "client \<Rightarrow> aim_session \<Rightarrow> nat option \<Rightarrow> u16 \<Rightarrow> (int \<times> aim_session) option" where
  "aim_reqservice cl s conn serviceid = aim_genericreq_s cl s conn 0x0001 0x0004 (Some serviceid)"

text \<open>The acknowledgement of a pause names the groups of the connection.\<close>

fun put_groups :: "u16 list \<Rightarrow> bstream \<Rightarrow> bstream option" where
  "put_groups [] bs = Some bs"
| "put_groups (g # gs) bs = do { (_, bs) \<leftarrow> aimbs_put16 bs g; put_groups gs bs }"

definition aim_sendpauseack :: "client \<Rightarrow> aim_session \<Rightarrow> nat option \<Rightarrow> (int \<times> aim_session) option" where
  "aim_sendpauseack cl s conn = do {
     c \<leftarrow> conn_at s conn;
     snac_frame cl s conn 1024 (cached_id 0x0001 0x000c None) 0x0001 0x000c
       (\<lambda>bs s. do {
          ins \<leftarrow> conn_inside c;
          bs \<leftarrow> put_groups (in_groups ins) bs;
          Some (bs, s)
        })
   }"

definition aim_reqpersonalinfo :: "client \<Rightarrow> aim_session \<Rightarrow> nat option \<Rightarrow> (int \<times> aim_session) option" where
  "aim_reqpersonalinfo cl s conn = aim_genericreq_n cl s conn 0x0001 0x000e"

definition aim_bos_setidle :: "client \<Rightarrow> aim_session \<Rightarrow> nat option \<Rightarrow> u32 \<Rightarrow> (int \<times> aim_session) option" where
  "aim_bos_setidle cl s conn idletime = aim_genericreq_l cl s conn 0x0001 0x0011 (Some idletime)"

definition aim_bos_setprivacyflags ::
  "client \<Rightarrow> aim_session \<Rightarrow> nat option \<Rightarrow> u32 \<Rightarrow> (int \<times> aim_session) option" where
  "aim_bos_setprivacyflags cl s conn flags = aim_genericreq_l cl s conn 0x0001 0x0014 (Some flags)"

definition aim_nop :: "client \<Rightarrow> aim_session \<Rightarrow> nat option \<Rightarrow> (int \<times> aim_session) option" where
  "aim_nop cl s conn = aim_genericreq_n cl s conn 0x0001 0x0016"

definition aim_setextstatus ::
  "client \<Rightarrow> aim_session \<Rightarrow> nat option \<Rightarrow> u32 \<Rightarrow> (int \<times> aim_session) option" where
  "aim_setextstatus cl s conn status =
     snac_frame cl s conn (10 + 8) (cached_id 0x0001 0x001e None) 0x0001 0x001e
       (\<lambda>bs s. do {
          (_, ts, s) \<leftarrow> aim_addtlvtochain32 [] 0x0006 (0x00030000 OR status) s;
          put_chain ts bs s
        })"

text \<open>
  The answer to \<^verbatim>\<open>memrequest\<close>: a hash the caller has, the hash of the bytes the caller has, or
  a hash that is known for the block asked for. The length of the bytes is turned into an
  \<^verbatim>\<open>int\<close>.
\<close>

definition AIM_SENDMEMBLOCK_FLAG_ISHASH :: u8 where "AIM_SENDMEMBLOCK_FLAG_ISHASH = 1"

definition md5_local :: "'a os_scheme \<Rightarrow> u8 list \<Rightarrow> int \<Rightarrow> u8 list option" where
  "md5_local s buf len = do {
     state \<leftarrow> md5_append (md5_init \<lparr>md_count0 = 0, md_count1 = 0, md_abcd = (0, 0, 0, 0), md_buf = fresh s 64\<rparr>)
       buf len;
     (digest, _) \<leftarrow> md5_finish state;
     Some digest
   }"

definition put_words :: "u32 list \<Rightarrow> bstream \<Rightarrow> bstream option" where
  "put_words ws bs = fold (\<lambda>w bs. do { bs \<leftarrow> bs; (_, bs) \<leftarrow> aimbs_put32 bs w; Some bs }) ws (Some bs)"

definition memblock_hash ::
  "'a os_scheme \<Rightarrow> u32 \<Rightarrow> u32 \<Rightarrow> u8 list option \<Rightarrow> u8 \<Rightarrow> bstream \<Rightarrow> bstream option" where
  "memblock_hash s offset len buf flag bs =
     (if flag = AIM_SENDMEMBLOCK_FLAG_ISHASH \<and> buf \<noteq> None \<and> len = 0x10
      then do { b \<leftarrow> buf; (_, bs) \<leftarrow> aimbs_putraw bs b 0x10; Some bs }
      else if buf \<noteq> None \<and> len > 0
      then do { b \<leftarrow> buf; digest \<leftarrow> md5_local s b (sint len); (_, bs) \<leftarrow> aimbs_putraw bs digest 0x10; Some bs }
      else if len = 0
      then do { digest \<leftarrow> md5_local s [0] 0; (_, bs) \<leftarrow> aimbs_putraw bs digest 0x10; Some bs }
      else if offset = 0x03ffffff \<and> len = 0x03ffffff
      then put_words [0x44a95d26, 0xd2490423, 0x93b8821f, 0x51c54b01] bs
      else if offset = 0x00001000 \<and> len = 0x00000000
      then put_words [0xd41d8cd9, 0x8f00b204, 0xe9800998, 0xecf8427e] bs
      else Some bs)"

definition aim_sendmemblock ::
  "client \<Rightarrow> aim_session \<Rightarrow> nat option \<Rightarrow> u32 \<Rightarrow> u32 \<Rightarrow> u8 list option \<Rightarrow> u8 \<Rightarrow> (int \<times> aim_session) option" where
  "aim_sendmemblock cl s conn offset len buf flag =
     (if conn = None then Some (- EINVAL, s)
      else snac_frame cl s conn (10 + 2 + 16) (cached_id 0x0001 0x0020 None) 0x0001 0x0020
        (\<lambda>bs s. do {
           (_, bs) \<leftarrow> aimbs_put16 bs 0x0010;
           bs \<leftarrow> memblock_hash s offset len buf flag bs;
           Some (bs, s)
         }))"

section \<open>A connection is initialised\<close>

text \<open>Reading the next value, and what is left to read then.\<close>

lemma get16_step:
  assumes "bs_ok bs" "unread bs = aimutil_put16 v @ rest"
  shows "aimbs_get16 bs = Some (v, adv 2 bs)" "bs_ok (adv 2 bs)" "unread (adv 2 bs) = rest"
  using get16_wire [OF assms] room_wire [OF assms] assms by simp_all

lemma get32_step:
  assumes "bs_ok bs" "unread bs = aimutil_put32 v @ rest"
  shows "aimbs_get32 bs = Some (v, adv 4 bs)" "bs_ok (adv 4 bs)" "unread (adv 4 bs) = rest"
  using get32_wire [OF assms] room_wire [OF assms] assms by simp_all

lemma getrawbuf_step:
  assumes "bs_ok bs" "unread bs = xs @ rest" "n = int (length xs)"
  shows "aimbs_getrawbuf bs n = Some (n, xs, adv (length xs) bs)" "bs_ok (adv (length xs) bs)"
    "unread (adv (length xs) bs) = rest"
  using getrawbuf_wire [OF assms] room_wire [OF assms(1,2)] assms by simp_all

text \<open>What a request leaves alone of a connection and of the modules.\<close>

definition conn_kept :: "aim_session \<Rightarrow> nat \<Rightarrow> aim_session \<Rightarrow> bool" where
  "conn_kept s a s' \<longleftrightarrow> modlist s' = modlist s \<and>
     (\<exists>c c'. conns s a = Some c \<and> conns s' a = Some c' \<and> conn_inside c' = conn_inside c \<and>
        conn_handlerlist c' = conn_handlerlist c)"

lemma cached_request_conn:
  assumes "can_queue s a" "10 + int (length payload) \<le> len" "len < 65536"
    "\<And>t. same_queue s t \<Longrightarrow> modlist t = modlist s \<Longrightarrow> writes body payload t"
  shows "\<exists>s'. snac_frame cl s (Some a) len (cached_id f t d) f' t' body = Some (0, s') \<and>
    queued_snac s a f' t' (snacid_next s) payload s' \<and> conn_kept s a s' \<and> snacid_next s' = snacid_next s + 1"
proof -
  have mem: "mem_ok s" "snacs_ok s" using assms(1) by (simp_all add: can_queue_def)
  from cached_id_remembered [OF this] obtain s2 where s2:
    "cached_id f t d (s\<lparr>next_addr := Suc (next_addr s)\<rparr>) = Some (snacid_next s, s2)" "same_queue s s2"
    "remembered s f t d s2" by blast
  then have m: "modlist s2 = modlist s"
    using mem by (auto simp: cached_id_def cachesnac_ok newsnac_ok)
  obtain c fr where fr: "conns s a = Some c" "snac_frame cl s (Some a) len (cached_id f t d) f' t' body =
      Some (0, put_conn a (c\<lparr>conn_seqnum := conn_seqnum c + 1\<rparr>) s2\<lparr>queue_outgoing := queue_outgoing s @ [fr]\<rparr>)"
    "fr_conn fr = Some a" "fr_handled fr = 0" "fr_hdr fr = Flap 2 (conn_seqnum c + 1)"
    "bs_ok (fr_data fr)" "written (fr_data fr) = snac_wire f' t' 0 (snacid_next s) @ payload"
    using snac_frame_queued [of s a payload len "cached_id f t d", OF assms(1-3) s2(1,2) assms(4) [OF s2(2) m]] by blast
  with can_queue_frame [OF assms(1) s2(2) fr(1)] m s2(3) show ?thesis
    by (auto simp: queued_snac_def conn_kept_def remembered_def)
qed

lemma plain_request_conn:
  assumes "can_queue s a"
  shows "\<exists>s'. aim_genericreq_n cl s (Some a) f t = Some (0, s') \<and> queued_snac s a f t 0 [] s' \<and> conn_kept s a s' \<and>
    snacid_next s' = snacid_next s"
proof -
  have "writes no_body [] t" for t by (simp add: writes_def no_body_def)
  from snac_frame_queued [OF assms, of "[]" 10 "\<lambda>s. Some (0, s)" 0 "s\<lparr>next_addr := Suc (next_addr s)\<rparr>" no_body cl f t,
      OF _ _ _ _ this]
  obtain c fr where fr: "conns s a = Some c" "aim_genericreq_n cl s (Some a) f t =
      Some (0, put_conn a (c\<lparr>conn_seqnum := conn_seqnum c + 1\<rparr>) (s\<lparr>next_addr := Suc (next_addr s)\<rparr>)
        \<lparr>queue_outgoing := queue_outgoing s @ [fr]\<rparr>)"
    "fr_conn fr = Some a" "fr_handled fr = 0" "fr_hdr fr = Flap 2 (conn_seqnum c + 1)"
    "bs_ok (fr_data fr)" "written (fr_data fr) = snac_wire f t 0 0 @ []"
    by (auto simp: aim_genericreq_n_def)
  with can_queue_frame [OF assms _ fr(1), of "s\<lparr>next_addr := Suc (next_addr s)\<rparr>"] show ?thesis
    by (auto simp: queued_snac_def conn_kept_def)
qed

lemma can_queue_inside:
  "can_queue s a \<Longrightarrow> conns s a = Some c \<Longrightarrow> can_queue (put_conn a (c\<lparr>conn_inside := x\<rparr>) s) a"
  by (auto simp: can_queue_def conn_inprogress_def snacs_ok_def)

subsection \<open>The families\<close>

definition mods_wire :: "(aim_module \<Rightarrow> u16 list) \<Rightarrow> aim_session \<Rightarrow> u16 list \<Rightarrow> u8 list" where
  "mods_wire vals s gs = concat (map aimutil_put16 (concat (map vals (List.map_filter (aim__findmodulebygroup s) gs))))"

lemma put16_fold:
  "bs_ok bs \<Longrightarrow> 2 * length vs \<le> room bs \<Longrightarrow>
   fold (\<lambda>v bs. do { bs \<leftarrow> bs; (_, bs) \<leftarrow> aimbs_put16 bs v; Some bs }) vs (Some bs)
     = Some (emit (concat (map aimutil_put16 vs)) bs)"
  by (induction vs arbitrary: bs) (simp_all add: put16_ok)

lemma length_put16s [simp]: "length (concat (map aimutil_put16 vs)) = 2 * length vs"
  by (induction vs) simp_all

lemma put_modules_ok:
  "bs_ok bs \<Longrightarrow> length (mods_wire vals s gs) \<le> room bs \<Longrightarrow>
   put_modules vals s gs bs = Some (emit (mods_wire vals s gs) bs)"
  by (induction gs arbitrary: bs)
    (auto simp: mods_wire_def map_filter_simps put16_fold algebra_simps split: option.split)

lemma mods_wire_modlist: "modlist t = modlist s \<Longrightarrow> mods_wire vals t gs = mods_wire vals s gs"
proof -
  assume "modlist t = modlist s"
  then have "aim__findmodulebygroup t = aim__findmodulebygroup s"
    by (intro ext) (simp add: aim__findmodulebygroup_def)
  then show ?thesis by (simp add: mods_wire_def)
qed

lemma hostonline_loop_ok:
  assumes "bs_ok bs" "unread bs = concat (map aimutil_put16 gs)" "mem_ok s" "conns s a = Some c"
    "conn_inside c = Some ins" "2 * (n + length gs) \<le> cap"
  shows "hostonline_loop (Some a) cap n bs s = Some (adv (2 * length gs) bs,
    put_conn a (c\<lparr>conn_inside := Some (ins\<lparr>in_groups := rev gs @ in_groups ins\<rparr>)\<rparr>) s)"
  using assms
proof (induction gs arbitrary: n bs s c ins)
  case Nil
  then have "aim_bstream_empty bs = 0" by (simp add: empty_eq flip: length_unread)
  moreover have "put_conn a (c\<lparr>conn_inside := Some (ins\<lparr>in_groups := in_groups ins\<rparr>)\<rparr>) s = s"
    using Nil by (simp add: put_conn_def fun_upd_idem)
  ultimately show ?case by (simp add: hostonline_loop.simps)
next
  case (Cons g gs)
  have u: "unread bs = aimutil_put16 g @ concat (map aimutil_put16 gs)" using Cons.prems(2) by simp
  note g = get16_step [OF Cons.prems(1) u]
  have ne: "aim_bstream_empty bs \<noteq> 0"
    using room_wire [OF Cons.prems(1) u] Cons.prems(1) by (simp add: empty_eq)
  let ?ins = "ins\<lparr>in_groups := g # in_groups ins\<rparr>"
  have add: "aim_conn_addgroup (Some a) g s = Some (put_conn a (c\<lparr>conn_inside := Some ?ins\<rparr>) s)"
    using Cons.prems(3-5) by (simp add: aim_conn_addgroup_def Let_def)
  have "hostonline_loop (Some a) cap (n + 1) (adv 2 bs) (put_conn a (c\<lparr>conn_inside := Some ?ins\<rparr>) s) =
     Some (adv (2 * length gs) (adv 2 bs), put_conn a ((c\<lparr>conn_inside := Some ?ins\<rparr>)
        \<lparr>conn_inside := Some (?ins\<lparr>in_groups := rev gs @ in_groups ?ins\<rparr>)\<rparr>)
        (put_conn a (c\<lparr>conn_inside := Some ?ins\<rparr>) s))"
    using Cons.prems(3,6) g by (intro Cons.IH) simp_all
  then show ?case
    using Cons.prems(6) ne g by (subst hostonline_loop.simps) (simp add: add put_conn_def)
qed

lemma setversions_ok:
  assumes "can_queue s a" "conns s a = Some c" "conn_inside c = Some ins"
    "length (mods_wire (\<lambda>m. [mod_family m, mod_version m]) s (in_groups ins)) \<le> 1142"
  shows "\<exists>s'. aim_setversions cl s (Some a) = Some (0, s') \<and>
    queued_snac s a 0x0001 0x0017 (snacid_next s)
      (mods_wire (\<lambda>m. [mod_family m, mod_version m]) s (in_groups ins)) s' \<and> conn_kept s a s' \<and>
    snacid_next s' = snacid_next s + 1"
proof -
  let ?w = "mods_wire (\<lambda>m. [mod_family m, mod_version m]) s (in_groups ins)"
  let ?body = "\<lambda>bs s. do { bs \<leftarrow> put_modules (\<lambda>m. [mod_family m, mod_version m]) s (in_groups ins) bs; Some (bs, s) }"
  have "writes ?body ?w t" if "modlist t = modlist s" for t
    by (simp add: writes_def put_modules_ok flip: mods_wire_modlist [OF that])
  then show ?thesis
    using cached_request_conn [OF assms(1), of ?w 1152 ?body cl "0x01" "0x17" None "0x01" "0x17"] assms(2-4)
    by (simp add: aim_setversions_def)
qed

lemma hostonline_ok:
  assumes "can_queue s a" "conns s a = Some c" "conn_inside c = Some ins" "bs_ok bs" "fr_conn rx = Some a"
    "unread bs = concat (map aimutil_put16 gs)"
    "length (mods_wire (\<lambda>m. [mod_family m, mod_version m]) s (rev gs @ in_groups ins)) \<le> 1142"
  shows "\<exists>bs' s1 s'. hostonline cl m rx snac bs s = Some (1, bs', s') \<and>
    s1 = put_conn a (c\<lparr>conn_inside := Some (ins\<lparr>in_groups := rev gs @ in_groups ins\<rparr>)\<rparr>) s \<and>
    queued_snac s a 0x0001 0x0017 (snacid_next s)
      (mods_wire (\<lambda>m. [mod_family m, mod_version m]) s (rev gs @ in_groups ins)) s' \<and>
    conn_kept s1 a s' \<and> snacid_next s' = snacid_next s + 1"
proof -
  have mem: "mem_ok s" using assms(1) by (simp add: can_queue_def)
  have "room bs = 2 * length gs" using length_unread [OF assms(4)] assms(6) by simp
  then have e: "nat (aim_bstream_empty bs) = 2 * length gs" using assms(4) by (simp add: empty_eq)
  let ?s1 = "put_conn a (c\<lparr>conn_inside := Some (ins\<lparr>in_groups := rev gs @ in_groups ins\<rparr>)\<rparr>) s"
  have loop: "hostonline_loop (Some a) (nat (aim_bstream_empty bs)) 0 bs s = Some (adv (2 * length gs) bs, ?s1)"
    using hostonline_loop_ok [OF assms(4,6) mem assms(2,3), of 0] by (simp add: e)
  have m: "mods_wire v ?s1 gs' = mods_wire v s gs'" for v gs' by (rule mods_wire_modlist) simp
  from setversions_ok [OF can_queue_inside [OF assms(1,2)],
      of "Some (ins\<lparr>in_groups := rev gs @ in_groups ins\<rparr>)" _ "ins\<lparr>in_groups := rev gs @ in_groups ins\<rparr>" cl] assms(7)
  show ?thesis
    by (auto simp: hostonline_def mem loop assms(5) m queued_snac_def Let_def)
qed

lemma hostversions_ok:
  assumes "can_queue s a" "bs_ok bs" "fr_conn rx = Some a"
  shows "\<exists>bs' s'. hostversions cl m rx snac bs s = Some (1, bs', s') \<and> queued_snac s a 0x0001 0x0006 0 [] s' \<and>
    conn_kept s a s' \<and> snacid_next s' = snacid_next s"
proof -
  have mem: "mem_ok s" using assms(1) by (simp add: can_queue_def)
  have "aimbs_getraw bs (aim_bstream_empty bs) s = Some (Some (unread bs), adv (room bs) bs, s)"
    using assms(2) mem by (simp add: getraw_ok empty_eq length_unread)
  then show ?thesis
    using plain_request_conn [OF assms(1), of cl "0x01" "0x06"] assms(3)
    by (auto simp: hostversions_def aim_reqrates_def)
qed

subsection \<open>The rate limits\<close>

definition class_wire :: "rateclass \<Rightarrow> u8 list" where
  "class_wire rc = aimutil_put16 (rc_classid rc) @ aimutil_put32 (rc_windowsize rc) @ aimutil_put32 (rc_clear rc) @
     aimutil_put32 (rc_alert rc) @ aimutil_put32 (rc_limit rc) @ aimutil_put32 (rc_disconnect rc) @
     aimutil_put32 (rc_current rc) @ aimutil_put32 (rc_max rc) @ rc_unknown rc"

definition pairs_wire :: "(u16 \<times> u16) list \<Rightarrow> u8 list" where
  "pairs_wire ps = concat (map (\<lambda>(g, t). aimutil_put16 g @ aimutil_put16 t) ps)"

definition members_wire :: "rateclass \<Rightarrow> u8 list" where
  "members_wire rc = aimutil_put16 (rc_classid rc) @ aimutil_put16 (of_nat (length (rc_members rc))) @
     pairs_wire (rc_members rc)"

definition rates_wire :: "rateclass list \<Rightarrow> u8 list" where
  "rates_wire rcs = aimutil_put16 (of_nat (length rcs)) @ concat (map class_wire rcs) @ concat (map members_wire rcs)"

definition rates_ok :: "rateclass list \<Rightarrow> bool" where
  "rates_ok rcs \<longleftrightarrow> distinct (map rc_classid rcs) \<and> length rcs < 65536 \<and>
     (\<forall>rc \<in> set rcs. length (rc_unknown rc) = 5 \<and> length (rc_members rc) < 65536)"

lemma read_class_wire:
  assumes "bs_ok bs" "unread bs = class_wire rc @ rest" "3 \<le> mod_version m" "length (rc_unknown rc) = 5"
  shows "\<exists>b. read_class m bs = Some (rc\<lparr>rc_members := []\<rparr>, b) \<and> bs_ok b \<and> unread b = rest"
proof -
  have u: "unread bs = aimutil_put16 (rc_classid rc) @ aimutil_put32 (rc_windowsize rc) @ aimutil_put32 (rc_clear rc) @
     aimutil_put32 (rc_alert rc) @ aimutil_put32 (rc_limit rc) @ aimutil_put32 (rc_disconnect rc) @
     aimutil_put32 (rc_current rc) @ aimutil_put32 (rc_max rc) @ rc_unknown rc @ rest"
    using assms(2) by (simp add: class_wire_def)
  note 1 = get16_step [OF assms(1) u]
  note 2 = get32_step [OF 1(2,3)]
  note 3 = get32_step [OF 2(2,3)]
  note 4 = get32_step [OF 3(2,3)]
  note 5 = get32_step [OF 4(2,3)]
  note 6 = get32_step [OF 5(2,3)]
  note 7 = get32_step [OF 6(2,3)]
  note 8 = get32_step [OF 7(2,3)]
  note 9 = getrawbuf_step [OF 8(2,3), of 5]
  show ?thesis
    unfolding read_class_def
    by (simp only: 1(1) 2(1) 3(1) 4(1) 5(1) 6(1) 7(1) 8(1) bind.bind_lunit prod.case)
      (use assms(3,4) 9 in \<open>auto simp: \<close>)
qed

lemma rates_classes_ok:
  assumes "bs_ok bs" "unread bs = concat (map class_wire rcs) @ rest" "3 \<le> mod_version m" "mem_ok s"
    "\<forall>rc \<in> set rcs. length (rc_unknown rc) = 5"
  shows "\<exists>b. rates_classes m (length rcs) rates bs s =
      Some (rates @ map (\<lambda>rc. rc\<lparr>rc_members := []\<rparr>) rcs, b, s) \<and> bs_ok b \<and> unread b = rest"
  using assms
proof (induction rcs arbitrary: bs rates)
  case (Cons rc rcs)
  then obtain b where b: "read_class m bs = Some (rc\<lparr>rc_members := []\<rparr>, b)" "bs_ok b"
      "unread b = concat (map class_wire rcs) @ rest"
    using read_class_wire [OF Cons.prems(1), of rc "concat (map class_wire rcs) @ rest" m] by auto
  with Cons.IH [OF b(2,3) Cons.prems(3,4), of "rates @ [rc\<lparr>rc_members := []\<rparr>]"] Cons.prems(4,5)
  show ?case by (simp add: rc_addclass_def)
qed simp

lemma rates_pairs_ok:
  assumes "bs_ok bs" "unread bs = pairs_wire ps @ rest" "mem_ok s" "i < length rates"
  shows "\<exists>b. rates_pairs (Some i) (length ps) rates bs s =
      Some (rates[i := (rates ! i)\<lparr>rc_members := rc_members (rates ! i) @ ps\<rparr>], b, s) \<and> bs_ok b \<and> unread b = rest"
  using assms
proof (induction ps arbitrary: bs rates)
  case (Cons p ps)
  obtain g t where p: "p = (g, t)" by force
  have u: "unread bs = aimutil_put16 g @ aimutil_put16 t @ pairs_wire ps @ rest"
    using Cons.prems(2) by (simp add: p pairs_wire_def)
  note 1 = get16_step [OF Cons.prems(1) u]
  note 2 = get16_step [OF 1(2,3)]
  let ?r = "rates[i := (rates ! i)\<lparr>rc_members := rc_members (rates ! i) @ [(g, t)]\<rparr>]"
  from Cons.IH [OF 2(2,3) Cons.prems(3), of ?r] Cons.prems(4) show ?case
    unfolding length_Cons rates_pairs.simps
    by (simp only: 1(1) 2(1) bind.bind_lunit prod.case)
      (simp add: rc_addpair_def Let_def Cons.prems(3) p)
qed (simp add: pairs_wire_def)

lemma findclass_append:
  "i \<notin> rc_classid ` set rcs \<Longrightarrow> rc_classid x = i \<Longrightarrow> rc_findclass (rcs @ x # ys) i = Some (length rcs)"
  by (induction rcs) auto

lemma rates_members_ok:
  assumes "bs_ok bs" "unread bs = concat (map members_wire todo) @ rest" "mem_ok s"
    "distinct (map rc_classid (before @ todo))" "\<forall>rc \<in> set todo. length (rc_members rc) < 65536"
  shows "\<exists>b. rates_members (length todo) (before @ map (\<lambda>rc. rc\<lparr>rc_members := []\<rparr>) todo) bs s =
      Some (before @ todo, b, s) \<and> bs_ok b \<and> unread b = rest"
  using assms
proof (induction todo arbitrary: bs before)
  case (Cons rc todo)
  let ?n = "length (rc_members rc)" and ?w = "concat (map members_wire todo) @ rest"
  let ?rates = "before @ rc\<lparr>rc_members := []\<rparr> # map (\<lambda>rc. rc\<lparr>rc_members := []\<rparr>) todo"
  have u: "unread bs = aimutil_put16 (rc_classid rc) @ aimutil_put16 (of_nat ?n) @ pairs_wire (rc_members rc) @ ?w"
    using Cons.prems(2) by (simp add: members_wire_def [of rc])
  note 1 = get16_step [OF Cons.prems(1) u]
  note 2 = get16_step [OF 1(2,3)]
  have i: "rc_findclass ?rates (rc_classid rc) = Some (length before)"
    using Cons.prems(4) by (intro findclass_append) auto
  have n: "unat (of_nat ?n :: u16) = ?n" using Cons.prems(5) by simp
  obtain b where b: "rates_pairs (Some (length before)) ?n ?rates (adv 2 (adv 2 bs)) s =
      Some (?rates[length before := (?rates ! length before)\<lparr>rc_members := rc_members (?rates ! length before) @ rc_members rc\<rparr>], b, s)"
      "bs_ok b" "unread b = ?w"
    using rates_pairs_ok [OF 2(2,3) Cons.prems(3), of "length before" ?rates] by auto
  have r: "?rates[length before := (?rates ! length before)\<lparr>rc_members := rc_members (?rates ! length before) @ rc_members rc\<rparr>]
      = (before @ [rc]) @ map (\<lambda>rc. rc\<lparr>rc_members := []\<rparr>) todo"
    by simp
  from Cons.IH [OF b(2,3) Cons.prems(3), of "before @ [rc]"] Cons.prems(4,5)
  obtain b' where b': "rates_members (length todo) ((before @ [rc]) @ map (\<lambda>rc. rc\<lparr>rc_members := []\<rparr>) todo) b s =
      Some ((before @ [rc]) @ todo, b', s)" "bs_ok b'" "unread b' = rest" by auto
  show ?case
    unfolding length_Cons rates_members.simps list.map
    by (simp only: 1(1) 2(1) i n b(1) r b'(1) bind.bind_lunit prod.case) (use b'(2,3) in simp)
qed simp

lemma put_classids_ok:
  "bs_ok bs \<Longrightarrow> 2 * length rcs \<le> room bs \<Longrightarrow>
   put_classids rcs bs = Some (emit (concat (map (\<lambda>rc. aimutil_put16 (rc_classid rc)) rcs)) bs)"
  by (induction rcs arbitrary: bs) (simp_all add: put16_ok)

lemma length_classids [simp]: "length (concat (map (\<lambda>rc. aimutil_put16 (rc_classid rc)) rcs)) = 2 * length rcs"
  by (induction rcs) simp_all

lemma rates_addparam_ok:
  assumes "can_queue s a" "conns s a = Some c" "conn_inside c = Some ins" "length (in_rates ins) \<le> 251"
  shows "\<exists>s'. aim_rates_addparam cl s (Some a) = Some (0, s') \<and>
    queued_snac s a 0x0001 0x0008 (snacid_next s)
      (concat (map (\<lambda>rc. aimutil_put16 (rc_classid rc)) (in_rates ins))) s' \<and> conn_kept s a s' \<and>
    snacid_next s' = snacid_next s + 1"
proof -
  let ?w = "concat (map (\<lambda>rc. aimutil_put16 (rc_classid rc)) (in_rates ins))"
  let ?body = "\<lambda>bs (s :: aim_session). do { ins \<leftarrow> conn_inside c; bs \<leftarrow> put_classids (in_rates ins) bs; Some (bs, s) }"
  have "writes ?body ?w t" for t
    using assms(3) by (simp add: writes_def put_classids_ok)
  then show ?thesis
    using cached_request_conn [OF assms(1), of ?w 512 ?body cl "0x01" "0x08" None "0x01" "0x08"] assms(2-4)
    by (simp add: aim_rates_addparam_def rates_param_def)
qed

lemma rateresp_ok:
  assumes "can_queue s a" "conns s a = Some c" "conn_inside c = Some ins" "in_rates ins = []"
    "bs_ok bs" "unread bs = rates_wire rcs" "rates_ok rcs" "length rcs \<le> 251" "3 \<le> mod_version m" "fr_conn rx = Some a"
  shows "\<exists>bs' s1 s'. rateresp cl m rx snac bs s =
      do { (_, bs'', s'') \<leftarrow> call_user cl s' (Some a) AIM_CB_FAM_SPECIAL AIM_CB_SPECIAL_CONNINITDONE 0 (Some rx) [] bs';
           Some (1, bs'', s'') } \<and>
    s1 = put_conn a (c\<lparr>conn_inside := Some (ins\<lparr>in_rates := rcs\<rparr>)\<rparr>) s \<and>
    queued_snac s a 0x0001 0x0008 (snacid_next s) (concat (map (\<lambda>rc. aimutil_put16 (rc_classid rc)) rcs)) s' \<and>
    conn_kept s1 a s'"
proof -
  have mem: "mem_ok s" using assms(1) by (simp add: can_queue_def)
  have ok: "\<forall>rc \<in> set rcs. length (rc_unknown rc) = 5" "\<forall>rc \<in> set rcs. length (rc_members rc) < 65536"
    "distinct (map rc_classid ([] @ rcs))" "unat (of_nat (length rcs) :: u16) = length rcs"
    using assms(7) by (simp_all add: rates_ok_def)
  have u: "unread bs = aimutil_put16 (of_nat (length rcs)) @ concat (map class_wire rcs) @ concat (map members_wire rcs)"
    using assms(6) by (simp add: rates_wire_def)
  note 1 = get16_step [OF assms(5) u]
  obtain b where b: "rates_classes m (length rcs) [] (adv 2 bs) s = Some (map (\<lambda>rc. rc\<lparr>rc_members := []\<rparr>) rcs, b, s)"
      "bs_ok b" "unread b = concat (map members_wire rcs)"
    using rates_classes_ok [OF 1(2,3) assms(9) mem ok(1), of "[]"] by auto
  obtain b' where b': "rates_members (length rcs) (map (\<lambda>rc. rc\<lparr>rc_members := []\<rparr>) rcs) b s = Some (rcs, b', s)"
    using rates_members_ok [OF b(2) _ mem ok(3,2), of "[]"] b(3) by auto
  let ?s1 = "put_conn a (c\<lparr>conn_inside := Some (ins\<lparr>in_rates := rcs\<rparr>)\<rparr>) s"
  obtain s' where s': "aim_rates_addparam cl ?s1 (Some a) = Some (0, s')"
      "queued_snac ?s1 a 0x0001 0x0008 (snacid_next ?s1) (concat (map (\<lambda>rc. aimutil_put16 (rc_classid rc)) rcs)) s'"
      "conn_kept ?s1 a s'"
    using rates_addparam_ok [OF can_queue_inside [OF assms(1,2), of "Some (ins\<lparr>in_rates := rcs\<rparr>)"],
        of _ "ins\<lparr>in_rates := rcs\<rparr>" cl] assms(8) by auto
  have "rateresp cl m rx snac bs s =
      do { (_, bs'', s'') \<leftarrow> call_user cl s' (Some a) AIM_CB_FAM_SPECIAL AIM_CB_SPECIAL_CONNINITDONE 0 (Some rx) [] b';
           Some (1, bs'', s'') }"
    using assms(2-4,10) by (simp add: rateresp_def 1(1) ok(4) b(1) b' s'(1) Let_def)
  with s'(2,3) show ?thesis by (auto simp: queued_snac_def)
qed


text \<open>C33: a connection is initialised. The three messages of the server in their order make the
  library answer with its versions of the families the server named, the request for the rate
  limits and the acknowledgement of every rate class, in this order and nothing else; the
  connection then knows the families and the rate classes, each with its members and in the order
  they came in, and it is at this point that the client is told that the connection is ready.\<close>

theorem connection_initialised:
  assumes "can_queue s a" "conns s a = Some c" "conn_inside c = Some \<lparr>in_groups = [], in_rates = []\<rparr>"
    "fr_conn rx1 = Some a" "fr_conn rx2 = Some a" "fr_conn rx3 = Some a"
    "ms_subtype snac1 = 0x0003" "ms_subtype snac2 = 0x0018" "ms_subtype snac3 = 0x0007"
    "bs_ok bs1" "unread bs1 = concat (map aimutil_put16 gs)"
    "length (mods_wire (\<lambda>m. [mod_family m, mod_version m]) s (rev gs)) \<le> 1142"
    "bs_ok bs2" "bs_ok bs3" "unread bs3 = rates_wire rcs" "rates_ok rcs" "length rcs \<le> 251" "3 \<le> mod_version m"
  shows "\<exists>b1 s1 b2 s2 b3 s3 f1 f2 f3 c'.
    general_snachandler cl m rx1 snac1 bs1 s = Some (1, b1, s1) \<and>
    general_snachandler cl m rx2 snac2 bs2 s1 = Some (1, b2, s2) \<and>
    general_snachandler cl m rx3 snac3 bs3 s2 =
      do { (_, b, s') \<leftarrow> call_user cl s3 (Some a) AIM_CB_FAM_SPECIAL AIM_CB_SPECIAL_CONNINITDONE 0 (Some rx3) [] b3;
           Some (1, b, s') } \<and>
    queue_outgoing s3 = queue_outgoing s @ [f1, f2, f3] \<and>
    (\<forall>f \<in> {f1, f2, f3}. fr_conn f = Some a) \<and>
    written (fr_data f1) = snac_wire 0x0001 0x0017 0 (snacid_next s)
      @ mods_wire (\<lambda>m. [mod_family m, mod_version m]) s (rev gs) \<and>
    written (fr_data f2) = snac_wire 0x0001 0x0006 0 0 \<and>
    written (fr_data f3) = snac_wire 0x0001 0x0008 0 (snacid_next s + 1)
      @ concat (map (\<lambda>rc. aimutil_put16 (rc_classid rc)) rcs) \<and>
    conns s3 a = Some c' \<and> conn_inside c' = Some \<lparr>in_groups = rev gs, in_rates = rcs\<rparr> \<and>
    conn_handlerlist c' = conn_handlerlist c"
proof -
  let ?mods = "mods_wire (\<lambda>m. [mod_family m, mod_version m]) s (rev gs)"
  obtain b1 s1 where 1: "hostonline cl m rx1 snac1 bs1 s = Some (1, b1, s1)"
    "queued_snac s a 0x0001 0x0017 (snacid_next s) ?mods s1"
    "conn_kept (put_conn a (c\<lparr>conn_inside := Some \<lparr>in_groups = rev gs, in_rates = []\<rparr>\<rparr>) s) a s1"
    "snacid_next s1 = snacid_next s + 1"
    using hostonline_ok [OF assms(1-3,10,4,11), of cl m snac1] assms(12) by auto
  have q1: "can_queue s1 a" using 1(2) by (simp add: queued_snac_def)
  obtain b2 s2 where 2: "hostversions cl m rx2 snac2 bs2 s1 = Some (1, b2, s2)"
    "queued_snac s1 a 0x0001 0x0006 0 [] s2" "conn_kept s1 a s2" "snacid_next s2 = snacid_next s1"
    using hostversions_ok [OF q1 assms(13,5)] by blast
  have q2: "can_queue s2 a" using 2(2) by (simp add: queued_snac_def)
  obtain c2 where c2: "conns s2 a = Some c2" "conn_inside c2 = Some \<lparr>in_groups = rev gs, in_rates = []\<rparr>"
    "conn_handlerlist c2 = conn_handlerlist c"
    using 1(3) 2(3) by (auto simp: conn_kept_def)
  obtain b3 s3 where 3: "rateresp cl m rx3 snac3 bs3 s2 =
      do { (_, b, s') \<leftarrow> call_user cl s3 (Some a) AIM_CB_FAM_SPECIAL AIM_CB_SPECIAL_CONNINITDONE 0 (Some rx3) [] b3;
           Some (1, b, s') }"
    "queued_snac s2 a 0x0001 0x0008 (snacid_next s2) (concat (map (\<lambda>rc. aimutil_put16 (rc_classid rc)) rcs)) s3"
    "conn_kept (put_conn a (c2\<lparr>conn_inside := Some \<lparr>in_groups = rev gs, in_rates = rcs\<rparr>\<rparr>) s2) a s3"
    using rateresp_ok [OF q2 c2(1,2) _ assms(14-18,6), of cl snac3] by auto
  obtain f1 f2 f3 where "queue_outgoing s3 = queue_outgoing s @ [f1, f2, f3]"
    "\<forall>f \<in> {f1, f2, f3}. fr_conn f = Some a" "written (fr_data f1) = snac_wire 0x0001 0x0017 0 (snacid_next s) @ ?mods"
    "written (fr_data f2) = snac_wire 0x0001 0x0006 0 0"
    "written (fr_data f3) = snac_wire 0x0001 0x0008 0 (snacid_next s + 1)
      @ concat (map (\<lambda>rc. aimutil_put16 (rc_classid rc)) rcs)"
    using 1(2,4) 2(2,4) 3(2) by (auto simp: queued_snac_def)
  with 1(1) 2(1) 3(1,3) c2(3) assms(7-9) show ?thesis
    unfolding general_snachandler_def by (simp add: conn_kept_def) blast
qed

definition demo_class :: rateclass where
  "demo_class = \<lparr>rc_classid = 1, rc_windowsize = 80, rc_clear = 2500, rc_alert = 2000, rc_limit = 1500,
     rc_disconnect = 800, rc_current = 3400, rc_max = 6000, rc_unknown = [0, 0, 0, 0, 1],
     rc_members = [(4, 6)]\<rparr>"

definition demo_rates :: "u8 list" where
  "demo_rates = rates_wire [demo_class]"

theorem connection_initialised_witness:
  "\<exists>b1 s1 b2 s2 b3 s3 c'.
    general_snachandler quiet_client (misc_module\<lparr>mod_version := 3\<rparr>) (demo_frame 2 [] (Some 0))
      \<lparr>ms_family = 1, ms_subtype = 3, ms_flags = 0, ms_id = 0\<rparr> (aim_bstream_init [0, 1, 0, 4] 4) demo_session
      = Some (1, b1, s1) \<and>
    general_snachandler quiet_client (misc_module\<lparr>mod_version := 3\<rparr>) (demo_frame 2 [] (Some 0))
      \<lparr>ms_family = 1, ms_subtype = 0x18, ms_flags = 0, ms_id = 0\<rparr> (aim_bstream_init [] 0) s1 = Some (1, b2, s2) \<and>
    general_snachandler quiet_client (misc_module\<lparr>mod_version := 3\<rparr>) (demo_frame 2 [] (Some 0))
      \<lparr>ms_family = 1, ms_subtype = 7, ms_flags = 0, ms_id = 0\<rparr>
      (aim_bstream_init demo_rates (int (length demo_rates))) s2
      = do { (_, b, s') \<leftarrow> call_user quiet_client s3 (Some 0) AIM_CB_FAM_SPECIAL AIM_CB_SPECIAL_CONNINITDONE 0
               (Some (demo_frame 2 [] (Some 0))) [] b3;
             Some (1, b, s') } \<and>
    conns s3 0 = Some c' \<and> conn_inside c' = Some \<lparr>in_groups = [4, 1], in_rates = [demo_class]\<rparr>"
proof -
  have len: "length demo_rates < 65536"
    by (simp add: demo_rates_def rates_wire_def class_wire_def members_wire_def pairs_wire_def demo_class_def)
  have mods: "length (mods_wire (\<lambda>m. [mod_family m, mod_version m]) demo_session (rev [1, 4])) \<le> 1142"
    by (simp add: mods_wire_def map_filter_simps aim__findmodulebygroup_def demo_session_def)
  have p: "conns demo_session 0 = Some (demo_conn 5)" "conn_inside (demo_conn 5) = Some \<lparr>in_groups = [], in_rates = []\<rparr>"
    "fr_conn (demo_frame 2 [] (Some 0)) = Some 0" "rates_ok [demo_class]"
    by (simp_all add: demo_conn_def aim_conn_init_def demo_frame_def rates_ok_def demo_class_def)
  have b1: "bs_ok (aim_bstream_init [0, 1, 0, 4] 4)"
    "unread (aim_bstream_init [0, 1, 0, 4] 4) = concat (map aimutil_put16 [1, 4])"
    by (simp_all add: to_u16_def aimutil_put16_def)
  have b2: "bs_ok (aim_bstream_init [] 0)" by simp
  have b3: "bs_ok (aim_bstream_init demo_rates (int (length demo_rates)))"
    "unread (aim_bstream_init demo_rates (int (length demo_rates))) = rates_wire [demo_class]"
    using len by (simp_all add: to_u16_def demo_rates_def)
  show ?thesis
    using connection_initialised [OF can_queue_demo(1) p(1,2,3,3,3) _ _ _ b1 mods b2 b3 p(4),
        of "\<lparr>ms_family = 1, ms_subtype = 3, ms_flags = 0, ms_id = 0\<rparr>"
          "\<lparr>ms_family = 1, ms_subtype = 0x18, ms_flags = 0, ms_id = 0\<rparr>"
          "\<lparr>ms_family = 1, ms_subtype = 7, ms_flags = 0, ms_id = 0\<rparr>" "misc_module\<lparr>mod_version := 3\<rparr>" quiet_client]
    by simp blast
qed


lemma hostonline_loop_odd:
  assumes "bs_ok bs" "mem_ok s" "conns s a = Some c" "conn_inside c = Some ins" "odd (room bs)" "cap = 2 * n + room bs"
  shows "hostonline_loop (Some a) cap n bs s = None"
  using assms
proof (induction "room bs" arbitrary: bs s c ins n rule: less_induct)
  case less
  have ne: "aim_bstream_empty bs \<noteq> 0"
    using less.prems(1) odd_pos [OF less.prems(5)] by (simp add: empty_eq)
  show ?case
  proof (cases "room bs = 1")
    case True
    with ne less.prems show ?thesis
      by (subst hostonline_loop.simps) (simp add: get16_short)
  next
    case False
    with less.prems(5) have ge: "3 \<le> room bs" by presburger
    let ?w = "aimutil_get16 (unread bs ! 0) (unread bs ! 1)"
    have g: "aimbs_get16 bs = Some (?w, adv 2 bs)" using less.prems(1) ge by (simp add: get16_ok)
    let ?ins = "ins\<lparr>in_groups := ?w # in_groups ins\<rparr>"
    let ?s = "put_conn a (c\<lparr>conn_inside := Some ?ins\<rparr>) s"
    have "aim_conn_addgroup (Some a) ?w s = Some ?s"
      using less.prems(2-4) by (simp add: aim_conn_addgroup_def Let_def)
    moreover have "hostonline_loop (Some a) cap (n + 1) (adv 2 bs) ?s = None"
      using less.prems ge by (intro less.hyps [where c = "c\<lparr>conn_inside := Some ?ins\<rparr>" and ins = ?ins]) auto
    ultimately show ?thesis
      using ne g less.prems(6) ge by (subst hostonline_loop.simps) simp
  qed
qed

text \<open>A list of families of an odd number of bytes is fatal. The last byte is never consumed,
  the loop goes on, and the family it reads next is stored past the end of the array.\<close>

theorem hostonline_odd:
  assumes "bs_ok bs" "mem_ok s" "fr_conn rx = Some a" "conns s a = Some c" "conn_inside c = Some ins" "odd (room bs)"
    "ms_subtype snac = 0x0003"
  shows "general_snachandler cl m rx snac bs s = None"
proof -
  have "hostonline_loop (Some a) (nat (aim_bstream_empty bs)) 0 bs s = None"
    using assms by (intro hostonline_loop_odd) (auto simp: empty_eq)
  then show ?thesis
    using assms by (simp add: general_snachandler_def hostonline_def)
qed

theorem hostonline_odd_witness:
  "general_snachandler quiet_client misc_module (demo_frame 2 [] (Some 0))
     \<lparr>ms_family = 1, ms_subtype = 3, ms_flags = 0, ms_id = 0\<rparr> (aim_bstream_init [0, 1, 0] 3) demo_session = None"
  using hostonline_odd [of "aim_bstream_init [0, 1, 0] 3" demo_session "demo_frame 2 [] (Some 0)" 0 "demo_conn 5"
      "\<lparr>in_groups = [], in_rates = []\<rparr>" "\<lparr>ms_family = 1, ms_subtype = 3, ms_flags = 0, ms_id = 0\<rparr>"
      quiet_client misc_module]
  by (simp add: demo_frame_def demo_conn_def aim_conn_init_def to_u16_def)

end
