(* ===== verification/Chatnav.thy ===== *)
theory Chatnav
  imports Auth
begin

text \<open>
  Chat navigation: \<^verbatim>\<open>src/chatnav.c\<close>. What an answer holds depends on the request it answers,
  which is looked up by the id of the answer.
\<close>

section \<open>Model\<close>

subsection \<open>Requests\<close>

definition aim_chatnav_reqrights :: "client \<Rightarrow> aim_session \<Rightarrow> nat option \<Rightarrow> (int \<times> aim_session) option" where
  "aim_chatnav_reqrights cl s conn = aim_genericreq_n_snacid cl s conn 0x000d 0x0002"

definition aim_chatnav_createroom ::
  "client \<Rightarrow> aim_session \<Rightarrow> nat option \<Rightarrow> cstring \<Rightarrow> u16 \<Rightarrow> (int \<times> aim_session) option" where
  "aim_chatnav_createroom cl s conn name exchange =
     snac_frame cl s conn 1152 (cached_id 0x000d 0x0008 None) 0x000d 0x0008
       (\<lambda>bs s. do {
          (_, bs) \<leftarrow> aimbs_put16 bs exchange;
          bs \<leftarrow> put_lstr (cstr ''create'') bs;
          (_, bs) \<leftarrow> aimbs_put16 bs 0xffff;
          (_, bs) \<leftarrow> aimbs_put8 bs 0x01;
          (ts, s) \<leftarrow> add_str [] 0x00d3 name s;
          (ts, s) \<leftarrow> add_str ts 0x00d6 (cstr ''us-ascii'') s;
          (ts, s) \<leftarrow> add_str ts 0x00d7 (cstr ''en'') s;
          (_, bs) \<leftarrow> aimbs_put16 bs (word_of_int (aim_counttlvchain ts));
          put_chain ts bs s
        })"

subsection \<open>Rights\<close>

text \<open>A stream on the value of an element.\<close>

definition tlv_stream :: "tlv \<Rightarrow> bstream" where
  "tlv_stream t = aim_bstream_init (case tlv_value t of None \<Rightarrow> [] | Some v \<Rightarrow> v) (int (unat (tlv_length t)))"

definition gettlv8_or0 :: "tlvlist \<Rightarrow> u16 \<Rightarrow> u8 option" where
  "gettlv8_or0 ts t = (if aim_gettlv ts t 1 \<noteq> None then aim_gettlv8 ts t 1 else Some 0)"

text \<open>
  One exchange: its number, flags, name, and the character sets and languages. Without an
  element for them, the flags are whatever the enlarged array holds.
\<close>

definition read_exchange :: "tlv \<Rightarrow> aim_session \<Rightarrow> (cb_arg \<times> aim_session) option" where
  "read_exchange exchangetlv s = do {
     let (ok, s) = malloc s;
     if \<not> ok then None
     else do {
       (number, tbs) \<leftarrow> aimbs_get16 (tlv_stream exchangetlv);
       (innerlist, _, s) \<leftarrow> aim_readtlvchain tbs s;
       _ \<leftarrow> gettlv16_or0 innerlist 0x0002;
       flags \<leftarrow> (if aim_gettlv innerlist 0x00c9 1 \<noteq> None then aim_gettlv16 innerlist 0x00c9 1
                 else Some (aimutil_get16 (os_junk s 0) (os_junk s 1)));
       (name, s) \<leftarrow> gettlv_cstr innerlist 0x00d3 s;
       _ \<leftarrow> gettlv8_or0 innerlist 0x00d5;
       (charset1, s) \<leftarrow> gettlv_cstr innerlist 0x00d6 s;
       (lang1, s) \<leftarrow> gettlv_cstr innerlist 0x00d7 s;
       (charset2, s) \<leftarrow> gettlv_cstr innerlist 0x00d8 s;
       (lang2, s) \<leftarrow> gettlv_cstr innerlist 0x00d9 s;
       Some (ArgList [ArgInt (uint number), ArgInt (uint flags), ArgStr name, ArgStr charset1,
               ArgStr lang1, ArgStr charset2, ArgStr lang2], s)
     }
   }"

lemma gettlv_Suc_less: "aim_gettlv ts t (int n + 1) = Some x \<Longrightarrow> n < length ts"
proof -
  assume "aim_gettlv ts t (int n + 1) = Some x"
  then have "n < length (of_type t ts)"
    using gettlv_nth [of "int n + 1" ts t] by (auto split: if_splits)
  also have "length (of_type t ts) \<le> length ts" by (simp add: of_type_def)
  finally show ?thesis .
qed

function perms_loop ::
  "tlvlist \<Rightarrow> nat \<Rightarrow> cb_arg list \<Rightarrow> aim_session \<Rightarrow> (cb_arg list \<times> aim_session) option" where
  "perms_loop tlvlist curexchange exchanges s =
     (case aim_gettlv tlvlist 0x0003 (int curexchange + 1) of
        None \<Rightarrow> Some (exchanges, s)
      | Some exchangetlv \<Rightarrow> do {
          (x, s) \<leftarrow> read_exchange exchangetlv s;
          perms_loop tlvlist (curexchange + 1) (exchanges @ [x]) s
        })"
  by pat_completeness auto
termination
  by (relation "measure (\<lambda>(ts, n, _, _). length ts - n)") (auto dest: gettlv_Suc_less)

declare perms_loop.simps [simp del]

definition parseinfo_perms ::
  "client \<Rightarrow> aim_frame \<Rightarrow> aim_modsnac \<Rightarrow> bstream \<Rightarrow> aim_snac \<Rightarrow> aim_session
   \<Rightarrow> (int \<times> bstream \<times> aim_session) option" where
  "parseinfo_perms cl rx snac bs snac2 s = do {
     (tlvlist, bs, s) \<leftarrow> aim_readtlvchain bs s;
     maxrooms \<leftarrow> gettlv8_or0 tlvlist 0x0002;
     (exchanges, s) \<leftarrow> perms_loop tlvlist 0 [] s;
     call_user cl s (fr_conn rx) (ms_family snac) (ms_subtype snac) 0 (Some rx)
       [ArgInt (uint (snac_type snac2)), ArgInt (uint maxrooms), ArgInt (int (length exchanges)),
        ArgList exchanges] bs
   }"

subsection \<open>A room that was created\<close>

definition parseinfo_create ::
  "client \<Rightarrow> aim_frame \<Rightarrow> aim_modsnac \<Rightarrow> bstream \<Rightarrow> aim_snac \<Rightarrow> aim_session
   \<Rightarrow> (int \<times> bstream \<times> aim_session) option" where
  "parseinfo_create cl rx snac bs snac2 s = do {
     (tlvlist, bs, s) \<leftarrow> aim_readtlvchain bs s;
     case aim_gettlv tlvlist 0x0004 1 of
       None \<Rightarrow> Some (0, bs, s)
     | Some bigblock \<Rightarrow> do {
         (exchange, bbbs) \<leftarrow> aimbs_get16 (tlv_stream bigblock);
         (cklen, bbbs) \<leftarrow> aimbs_get8 bbbs;
         (ck, bbbs, s) \<leftarrow> aimbs_getstr bbbs (uint cklen) s;
         (inst, bbbs) \<leftarrow> aimbs_get16 bbbs;
         (detaillevel, bbbs) \<leftarrow> aimbs_get8 bbbs;
         if detaillevel \<noteq> 0x02 then Some (0, bs, s)
         else do {
           (unknown, bbbs) \<leftarrow> aimbs_get16 bbbs;
           (innerlist, _, s) \<leftarrow> aim_readtlvchain bbbs s;
           (fqcn, s) \<leftarrow> gettlv_cstr innerlist 0x006a s;
           flags \<leftarrow> gettlv16_or0 innerlist 0x00c9;
           createtime \<leftarrow> gettlv32_or0 innerlist 0x00ca;
           maxmsglen \<leftarrow> gettlv16_or0 innerlist 0x00d1;
           maxoccupancy \<leftarrow> gettlv16_or0 innerlist 0x00d2;
           (name, s) \<leftarrow> gettlv_cstr innerlist 0x00d3 s;
           createperms \<leftarrow> gettlv8_or0 innerlist 0x00d5;
           call_user cl s (fr_conn rx) (ms_family snac) (ms_subtype snac) 0 (Some rx)
             [ArgInt (uint (snac_type snac2)), ArgStr fqcn, ArgInt (uint inst), ArgInt (uint exchange),
              ArgInt (uint flags), ArgInt (uint createtime), ArgInt (uint maxmsglen),
              ArgInt (uint maxoccupancy), ArgInt (uint createperms), ArgInt (uint unknown),
              ArgStr name, ArgStr (map_option c_string_of ck)] bs
         }
       }
   }"

definition chatnav_parseinfo :: "client \<Rightarrow> snachandler" where
  "chatnav_parseinfo cl m rx snac bs s = do {
     let (snac2, s) = aim_remsnac s (ms_id snac);
     case snac2 of
       None \<Rightarrow> Some (0, bs, s)
     | Some snac2 \<Rightarrow>
         if snac_family snac2 \<noteq> 0x000d then Some (0, bs, s)
         else if snac_type snac2 = 0x0002 then parseinfo_perms cl rx snac bs snac2 s
         else if snac_type snac2 = 0x0008 then parseinfo_create cl rx snac bs snac2 s
         else Some (0, bs, s)
   }"

definition chatnav_snachandler :: "client \<Rightarrow> snachandler" where
  "chatnav_snachandler cl m rx snac bs s =
     (if ms_subtype snac = 0x0009 then chatnav_parseinfo cl m rx snac bs s else Some (0, bs, s))"

end
