(* ===== verification/Chat.thy ===== *)
theory Chat
  imports Chatnav Service
begin

text \<open>
  Chat rooms: \<^verbatim>\<open>src/chat.c\<close>, but for the room a chat connection carries, which is in theory
  \<open>Connlife\<close>. A room is joined by asking for the chat service with the room as an argument, and
  talked in over the connection the server redirects to.
\<close>

section \<open>Model\<close>

subsection \<open>Talking\<close>

definition AIM_CHATFLAGS_NOREFLECT :: u16 where "AIM_CHATFLAGS_NOREFLECT = 0x0001"
definition AIM_CHATFLAGS_AWAY :: u16 where "AIM_CHATFLAGS_AWAY = 0x0002"

definition add_noval_if :: "bool \<Rightarrow> tlvlist \<Rightarrow> u16 \<Rightarrow> aim_session \<Rightarrow> (tlvlist \<times> aim_session) option" where
  "add_noval_if b ts t s =
     (if b then do { (_, ts, s) \<leftarrow> aim_addtlvtochain_noval ts t s; Some (ts, s) } else Some (ts, s))"

fun put8s :: "u8 list \<Rightarrow> bstream \<Rightarrow> bstream option" where
  "put8s [] bs = Some bs"
| "put8s (v # vs) bs = do { (_, bs) \<leftarrow> aimbs_put8 bs v; put8s vs bs }"

text \<open>
  The cookie of a message is remembered until the room reflects it; it is dereferenced without a
  look whether it could be allocated. The length that is passed is only tested.
\<close>

definition aim_chat_send_im ::
  "client \<Rightarrow> aim_session \<Rightarrow> nat option \<Rightarrow> u16 \<Rightarrow> cstring option \<Rightarrow> int \<Rightarrow> (int \<times> aim_session) option" where
  "aim_chat_send_im cl s conn flags msg msglen =
     (case msg of
        None \<Rightarrow> Some (0, s)
      | Some msg \<Rightarrow>
          if conn = None \<or> msglen \<le> 0 then Some (0, s)
          else snac_frame cl s conn 1152 (cached_id 0x000e 0x0005 None) 0x000e 0x0005
            (\<lambda>bs s. do {
               let (ckstr, s) = rand_bytes 8 s;
               let (cookie, s) = aim_mkcookie ckstr AIM_COOKIETYPE_CHAT None s;
               cookie \<leftarrow> cookie;
               (_, s) \<leftarrow> aim_cachecookie s (Some (cookie\<lparr>ck_data := None\<rparr>));
               bs \<leftarrow> put8s ckstr bs;
               (_, bs) \<leftarrow> aimbs_put16 bs 0x0003;
               (otl, s) \<leftarrow> add_noval_if True [] 0x0001 s;
               (otl, s) \<leftarrow> add_noval_if (flags AND AIM_CHATFLAGS_NOREFLECT = 0) otl 0x0006 s;
               (otl, s) \<leftarrow> add_noval_if (flags AND AIM_CHATFLAGS_AWAY \<noteq> 0) otl 0x0007 s;
               (itl, s) \<leftarrow> add_str [] 0x0001 msg s;
               (_, otl, s) \<leftarrow> aim_addtlvtochain_frozentlvlist otl 0x0005 itl s;
               put_chain otl bs s
             }))"

subsection \<open>Joining and leaving\<close>

text \<open>The element that names a room, written to a buffer of the size it needs.\<close>

definition aim_addtlvtochain_chatroom ::
  "tlvlist \<Rightarrow> u16 \<Rightarrow> u16 \<Rightarrow> cstring \<Rightarrow> u16 \<Rightarrow> aim_session \<Rightarrow> (tlvlist \<times> aim_session) option" where
  "aim_addtlvtochain_chatroom list type exchange roomname inst s =
     (let buflen = 2 + 1 + length roomname + 2;
          (ok, s) = malloc s
      in if \<not> ok then Some (list, s)
         else do {
           let bs = aim_bstream_init (fresh s buflen) (int buflen);
           (_, bs) \<leftarrow> aimbs_put16 bs exchange;
           bs \<leftarrow> put_lstr roomname bs;
           (_, bs) \<leftarrow> aimbs_put16 bs inst;
           (_, list, s) \<leftarrow> aim_addtlvtochain_raw list type (word_of_int (aim_bstream_curpos bs)) (bs_data bs) s;
           Some (list, s)
         })"

text \<open>
  The room is kept with the request, so that the redirection can be told for which room it is;
  its name is in a field of 128 bytes, which a longer one fills without a terminator.
\<close>

definition aim_chat_join ::
  "client \<Rightarrow> aim_session \<Rightarrow> nat option \<Rightarrow> u16 \<Rightarrow> cstring option \<Rightarrow> u16 \<Rightarrow> (int \<times> aim_session) option" where
  "aim_chat_join cl s conn exchange roomname inst =
     (case roomname of
        None \<Rightarrow> Some (- EINVAL, s)
      | Some roomname \<Rightarrow>
          if conn = None \<or> length roomname = 0 then Some (- EINVAL, s)
          else snac_frame cl s conn 512
            (cached_id 0x0001 0x0004 (Some (SnacChat exchange (c_strncpy roomname 128) inst)))
            0x0001 0x0004
            (\<lambda>bs s. do {
               (_, bs) \<leftarrow> aimbs_put16 bs 0x000e;
               (ts, s) \<leftarrow> aim_addtlvtochain_chatroom [] 0x0001 exchange roomname inst s;
               put_chain ts bs s
             }))"

definition aim_chat_readroominfo ::
  "bstream \<Rightarrow> aim_session \<Rightarrow> (u16 \<times> u8 list option \<times> u16 \<times> bstream \<times> aim_session) option" where
  "aim_chat_readroominfo bs s = do {
     (exchange, bs) \<leftarrow> aimbs_get16 bs;
     (namelen, bs) \<leftarrow> aimbs_get8 bs;
     (name, bs, s) \<leftarrow> aimbs_getstr bs (uint namelen) s;
     (inst, bs) \<leftarrow> aimbs_get16 bs;
     Some (exchange, name, inst, bs, s)
   }"

definition aim_chat_leaveroom :: "aim_session \<Rightarrow> cstring \<Rightarrow> (int \<times> aim_session) option" where
  "aim_chat_leaveroom s name = do {
     conn \<leftarrow> aim_chat_getconn s name;
     case conn of
       None \<Rightarrow> Some (- ENOENT, s)
     | Some a \<Rightarrow> do { s \<leftarrow> aim_conn_close (Some a) s; Some (0, s) }
   }"

subsection \<open>Inviting\<close>

text \<open>A copy of a string, or a null pointer.\<close>

definition c_strdup :: "cstring \<Rightarrow> aim_session \<Rightarrow> cstring option \<times> aim_session" where
  "c_strdup str s = (let (ok, s) = malloc s in (if ok then Some str else None, s))"

text \<open>
  All eight random bytes are stored in the first byte of the cookie; the other seven are what the
  stack holds.
\<close>

definition invite_cookie :: "aim_session \<Rightarrow> u8 list \<times> aim_session" where
  "invite_cookie s = (let (rs, s) = rand_bytes 8 s in (last rs # map (os_junk s) [1..<8], s))"

definition invite_priv ::
  "cstring \<Rightarrow> cstring \<Rightarrow> u16 \<Rightarrow> u16 \<Rightarrow> aim_session \<Rightarrow> nat option \<times> aim_session" where
  "invite_priv sn roomname exchange inst s =
     (let (ok, s) = malloc s
      in if \<not> ok then (None, s)
         else let (psn, s) = c_strdup sn s;
                  (proom, s) = c_strdup roomname s;
                  (p, s) = new_addr s
              in (Some p, s\<lparr>objs := (objs s)(p := Some (InvitePriv psn proom exchange inst))\<rparr>))"

text \<open>The value of the element that holds the invitation, in a buffer whose allocation is not checked.\<close>

definition invite_block ::
  "u8 list \<Rightarrow> cstring \<Rightarrow> u16 \<Rightarrow> cstring \<Rightarrow> u16 \<Rightarrow> aim_session \<Rightarrow> (bstream \<times> aim_session) option" where
  "invite_block ckstr msg exchange roomname inst s = do {
     let hdrlen = 2 + 8 + 16 + 6 + 4 + 4 + length msg + 4 + 2 + 1 + length roomname + 2;
     let (ok, s) = malloc s;
     if \<not> ok then None
     else do {
       let hdrbs = aim_bstream_init (fresh s hdrlen) (int hdrlen);
       (_, hdrbs) \<leftarrow> aimbs_put16 hdrbs 0x0000;
       (_, hdrbs) \<leftarrow> aimbs_putraw hdrbs ckstr 8;
       (_, hdrbs) \<leftarrow> aim_putcap hdrbs AIM_CAPS_CHAT;
       (itl, s) \<leftarrow> add16 [] 0x000a 0x0001 s;
       (itl, s) \<leftarrow> add_noval_if True itl 0x000f s;
       (itl, s) \<leftarrow> add_str itl 0x000c msg s;
       (itl, s) \<leftarrow> aim_addtlvtochain_chatroom itl 0x2711 exchange roomname inst s;
       put_chain itl hdrbs s
     }
   }"

definition aim_chat_invite ::
  "client \<Rightarrow> aim_session \<Rightarrow> nat option \<Rightarrow> cstring option \<Rightarrow> cstring option \<Rightarrow> u16 \<Rightarrow> cstring option \<Rightarrow> u16
   \<Rightarrow> (int \<times> aim_session) option" where
  "aim_chat_invite cl s conn sn msg exchange roomname inst =
     (case (conn, sn, msg, roomname) of
        (Some a, Some sn, Some msg, Some roomname) \<Rightarrow> do {
          c \<leftarrow> conns s a;
          if conn_type c \<noteq> AIM_CONN_TYPE_BOS then Some (- EINVAL, s)
          else snac_frame cl s conn (1152 + int (length sn) + int (length roomname) + int (length msg))
            (cached_id 0x0004 0x0006 (Some (SnacBytes (sn @ [0])))) 0x0004 0x0006
            (\<lambda>bs s. do {
               let (ckstr, s) = invite_cookie s;
               let (priv, s) = invite_priv sn roomname exchange inst s;
               let (cookie, s) = aim_mkcookie ckstr AIM_COOKIETYPE_INVITE priv s;
               s \<leftarrow> (case cookie of
                       Some ck \<Rightarrow> do { (_, s) \<leftarrow> aim_cachecookie s (Some ck); Some s }
                     | None \<Rightarrow> free_obj priv s);
               bs \<leftarrow> put8s ckstr bs;
               (_, bs) \<leftarrow> aimbs_put16 bs 0x0002;
               bs \<leftarrow> put_lstr sn bs;
               (hdrbs, s) \<leftarrow> invite_block ckstr msg exchange roomname inst s;
               (_, otl, s) \<leftarrow> aim_addtlvtochain_raw [] 0x0005 (word_of_int (aim_bstream_curpos hdrbs))
                 (bs_data hdrbs) s;
               put_chain otl bs s
             })
        }
      | _ \<Rightarrow> Some (- EINVAL, s))"

subsection \<open>Replies\<close>

text \<open>User information for an array that is there.\<close>

fun read_occupants ::
  "nat \<Rightarrow> bstream \<Rightarrow> aim_session \<Rightarrow> (aim_userinfo list \<times> bstream \<times> aim_session) option" where
  "read_occupants 0 bs s = Some ([], bs, s)"
| "read_occupants (Suc k) bs s = do {
     (_, ui, bs, s) \<leftarrow> aim_extractuserinfo bs s;
     (uis, bs, s) \<leftarrow> read_occupants k bs s;
     Some (ui # uis, bs, s)
   }"

text \<open>A pointer to an array of users, which may be null.\<close>

definition users_arg :: "aim_userinfo list option \<Rightarrow> cb_arg" where
  "users_arg uis = (case uis of None \<Rightarrow> ArgStr None | Some uis \<Rightarrow> ArgList (map ArgUserinfo uis))"

definition infoupdate :: "client \<Rightarrow> snachandler" where
  "infoupdate cl m rx snac bs s = do {
     (exchange, name, inst, bs, s) \<leftarrow> aim_chat_readroominfo bs s;
     (detaillevel, bs) \<leftarrow> aimbs_get8 bs;
     if detaillevel \<noteq> 0x02 then Some (1, bs, s)
     else do {
       (tlvcount, bs) \<leftarrow> aimbs_get16 bs;
       (tlvlist, bs, s) \<leftarrow> aim_readtlvchain bs s;
       (roomname, s) \<leftarrow> gettlv_cstr tlvlist 0x006a s;
       usercount \<leftarrow> gettlv16_or0 tlvlist 0x006f;
       (userinfo, s) \<leftarrow>
         (case aim_gettlv tlvlist 0x0073 1 of
            None \<Rightarrow> Some (None, s)
          | Some tmptlv \<Rightarrow>
              (let (ok, s) = malloc s
               in if ok then do {
                    (uis, _, s) \<leftarrow> read_occupants (unat usercount) (tlv_stream tmptlv) s;
                    Some (Some uis, s)
                  }
                  else if usercount = 0 then Some (None, s) else None));
       flags \<leftarrow> gettlv16_or0 tlvlist 0x00c9;
       creationtime \<leftarrow> gettlv32_or0 tlvlist 0x00ca;
       maxmsglen \<leftarrow> gettlv16_or0 tlvlist 0x00d1;
       unknown_d2 \<leftarrow> gettlv16_or0 tlvlist 0x00d2;
       (roomdesc, s) \<leftarrow> gettlv_cstr tlvlist 0x00d3 s;
       unknown_d5 \<leftarrow> gettlv8_or0 tlvlist 0x00d5;
       maxvisiblemsglen \<leftarrow> gettlv16_or0 tlvlist 0x00da;
       call_user cl s (fr_conn rx) (ms_family snac) (ms_subtype snac) 0 (Some rx)
         [ArgList [ArgInt (uint exchange), ArgStr (map_option c_string_of name), ArgInt (uint inst)],
          ArgStr roomname, ArgInt (uint usercount), users_arg userinfo, ArgStr roomdesc,
          ArgInt (uint flags), ArgInt (uint creationtime), ArgInt (uint maxmsglen),
          ArgInt (uint unknown_d2), ArgInt (uint unknown_d5), ArgInt (uint maxvisiblemsglen)] bs
     }
   }"

text \<open>Users that came or went, until the stream is used up.\<close>

partial_function (option) userlist_loop ::
  "aim_userinfo list \<Rightarrow> bstream \<Rightarrow> aim_session \<Rightarrow> (aim_userinfo list \<times> bstream \<times> aim_session) option" where
  "userlist_loop userinfo bs s =
     (if aim_bstream_empty bs = 0 then Some (userinfo, bs, s)
      else let (ok, s) = malloc s
           in if \<not> ok then None
              else do {
                (_, ui, bs, s) \<leftarrow> aim_extractuserinfo bs s;
                userlist_loop (userinfo @ [ui]) bs s
              })"

definition userlistchange :: "client \<Rightarrow> snachandler" where
  "userlistchange cl m rx snac bs s = do {
     (userinfo, bs, s) \<leftarrow> userlist_loop [] bs s;
     call_user cl s (fr_conn rx) (ms_family snac) (ms_subtype snac) 0 (Some rx)
       [ArgInt (int (length userinfo)), users_arg (if userinfo = [] then None else Some userinfo)] bs
   }"

definition chat_incomingmsg :: "client \<Rightarrow> snachandler" where
  "chat_incomingmsg cl m rx snac bs s = do {
     (cookie, bs, s) \<leftarrow> aimbs_getraw bs 8 s;
     let (ck, s) = (case cookie of
                      None \<Rightarrow> (None, s) | Some c \<Rightarrow> aim_uncachecookie s c AIM_COOKIETYPE_CHAT);
     s \<leftarrow> (case ck of None \<Rightarrow> Some s | Some ck \<Rightarrow> free_obj (ck_data ck) s);
     (channel, bs) \<leftarrow> aimbs_get16 bs;
     if channel \<noteq> 0x0003 then Some (0, bs, s)
     else do {
       (otl, bs, s) \<leftarrow> aim_readtlvchain bs s;
       (userinfo, s) \<leftarrow>
         (case aim_gettlv otl 0x0003 1 of
            None \<Rightarrow> Some (zero_userinfo, s)
          | Some t \<Rightarrow> do { (_, ui, _, s) \<leftarrow> aim_extractuserinfo (tlv_stream t) s; Some (ui, s) });
       (msg, s) \<leftarrow>
         (case aim_gettlv otl 0x0005 1 of
            None \<Rightarrow> Some (None, s)
          | Some msgblock \<Rightarrow> do {
              (itl, _, s) \<leftarrow> aim_readtlvchain (tlv_stream msgblock) s;
              gettlv_cstr itl 0x0001 s
            });
       call_user cl s (fr_conn rx) (ms_family snac) (ms_subtype snac) 0 (Some rx)
         [ArgUserinfo userinfo, ArgStr msg] bs
     }
   }"

definition chat_snachandler :: "client \<Rightarrow> snachandler" where
  "chat_snachandler cl m rx snac bs s =
     (if ms_subtype snac = 0x0002 then infoupdate cl m rx snac bs s
      else if ms_subtype snac = 0x0003 \<or> ms_subtype snac = 0x0004 then userlistchange cl m rx snac bs s
      else if ms_subtype snac = 0x0006 then chat_incomingmsg cl m rx snac bs s
      else Some (0, bs, s))"

section \<open>Joining a room\<close>

definition chatroom_wire :: "u16 \<Rightarrow> cstring \<Rightarrow> u16 \<Rightarrow> u8 list" where
  "chatroom_wire exchange name inst =
     aimutil_put16 exchange @ name_wire name @ aimutil_put16 inst"

lemma length_chatroom_wire [simp]: "length (chatroom_wire ex name inst) = length name + 5"
  by (simp add: chatroom_wire_def name_wire_def)

lemma chatroom_ok:
  assumes "mem_ok s" "length name < 65530"
  shows "aim_addtlvtochain_chatroom ts t ex name inst s = Some (ts @ [mk_tlv t (chatroom_wire ex name inst)], s)"
proof -
  let ?w = "chatroom_wire ex name inst"
  let ?d = "fresh s (2 + 1 + length name + 2)"
  let ?b = "aim_bstream_init ?d (int (2 + 1 + length name + 2))"
  have n: "2 + 1 + length name + 2 = length ?w" by simp
  have b: "bs_ok ?b" "room ?b = length name + 5" using assms(2) by (simp_all add: to_u16_def)
  have 1: "aimbs_put16 ?b ex = Some (2, emit (aimutil_put16 ex) ?b)"
    using b by (simp add: put16_ok)
  let ?b1 = "emit (aimutil_put16 ex) ?b"
  have 2: "put_lstr name ?b1 = Some (emit (name_wire name) ?b1)"
    using b by (simp add: put_lstr_ok)
  let ?b2 = "emit (name_wire name) ?b1"
  have 3: "aimbs_put16 ?b2 inst = Some (2, emit ?w ?b)"
    using b by (simp add: put16_ok chatroom_wire_def name_wire_def)
  have d: "bs_data (emit ?w ?b) = ?w" "aim_bstream_curpos (emit ?w ?b) = int (length ?w)"
    using data_full [of ?d ?w] assms(2) by (simp_all add: n add.commute)
  have 4: "aim_addtlvtochain_raw ts t (word_of_int (int (length ?w))) ?w s = Some (int (length ?w), ts @ [mk_tlv t ?w], s)"
    using addraw_all [OF assms(1), of ?w ts t] assms(2) by simp
  show ?thesis
    unfolding aim_addtlvtochain_chatroom_def Let_def malloc_ok [OF assms(1)] prod.case not_True_eq_False if_False
      1 bind.bind_lunit 2 3 d 4 ..
qed


lemma chat_join_ok:
  assumes "can_queue s a" "name \<noteq> []" "length name \<le> 127" "0 \<notin> set name"
  shows "\<exists>s'. aim_chat_join cl s (Some a) ex (Some name) inst = Some (0, s') \<and>
    queued_snac s a 0x0001 0x0004 (snacid_next s)
      (aimutil_put16 0x000e @ chain_wire [mk_tlv 0x0001 (chatroom_wire ex name inst)]) s' \<and>
    remembered s 0x0001 0x0004 (Some (SnacChat ex (c_strncpy name 128) inst)) s'"
proof -
  let ?w = "aimutil_put16 0x000e @ chain_wire [mk_tlv 0x0001 (chatroom_wire ex name inst)]"
  let ?body = "\<lambda>bs s. do {
       (_, bs) \<leftarrow> aimbs_put16 bs 0x000e;
       (ts, s) \<leftarrow> aim_addtlvtochain_chatroom [] 0x0001 ex name inst s;
       put_chain ts bs s
     }"
  have fit: "10 + int (length ?w) \<le> 512" using assms(3) by (simp add: length_mk_wire)
  have body: "writes ?body ?w t" if "same_queue s t" for t
  proof -
    have "mem_ok t" using that assms(1) by (simp add: same_queue_def can_queue_def)
    then have "?body bs t = Some (emit ?w bs, t)" if "bs_ok bs" "length ?w \<le> room bs" for bs
      using that assms(3) put_chain_ok [of "emit (aimutil_put16 0x000e) bs" "[mk_tlv 0x0001 (chatroom_wire ex name inst)]" t]
      by (simp add: put16_ok chatroom_ok length_mk_wire)
    then show ?thesis by (simp add: writes_def)
  qed
  show ?thesis
    using cached_request [OF assms(1) fit _ body, of cl "0x01" "0x04" "Some (SnacChat ex (c_strncpy name 128) inst)" "0x01" "0x04"]
      assms(2) by (simp add: aim_chat_join_def)
qed

text \<open>C36: a room is joined. The request for the chat service names the room, and the redirection
  that answers it, by its id, hands the client the address and the cookie of the server together
  with the exchange, the name and the instance of the room that was asked for; the request is used
  up.\<close>

theorem chat_join_redirected:
  assumes "can_queue s a" "name \<noteq> []" "length name \<le> 127" "0 \<notin> set name"
    "bs_ok bs" "unread bs = chain_wire [mk_tlv 0x000d (aimutil_put16 0x000e), mk_tlv 0x0005 ip, mk_tlv 0x0006 ck]"
    "length ip < 65536" "length ck < 65536" "ms_subtype snac = 0x0005" "ms_id snac = snacid_next s"
  shows "\<exists>s' b s2. aim_chat_join cl s (Some a) ex (Some name) inst = Some (0, s') \<and>
    queued_snac s a 0x0001 0x0004 (snacid_next s)
      (aimutil_put16 0x000e @ chain_wire [mk_tlv 0x0001 (chatroom_wire ex name inst)]) s' \<and>
    s2 = snd (aim_remsnac s' (snacid_next s)) \<and>
    general_snachandler cl m rx snac bs s' =
      call_user cl s2 (fr_conn rx) (ms_family snac) 0x0005 0 (Some rx)
        [ArgInt 14, ArgStr (Some (c_string_of ip)), ArgBytes (Some ck),
         ArgInt (uint ex), ArgStr (Some name), ArgInt (uint inst)] b"
proof -
  obtain s' where s': "aim_chat_join cl s (Some a) ex (Some name) inst = Some (0, s')"
    "queued_snac s a 0x0001 0x0004 (snacid_next s)
      (aimutil_put16 0x000e @ chain_wire [mk_tlv 0x0001 (chatroom_wire ex name inst)]) s'"
    "remembered s 0x0001 0x0004 (Some (SnacChat ex (c_strncpy name 128) inst)) s'"
    using chat_join_ok [OF assms(1-4)] by blast
  obtain s2 req where s2: "aim_remsnac s' (snacid_next s) = (Some req, s2)" "snac_data req = Some (SnacChat ex (c_strncpy name 128) inst)"
    using s'(3) unfolding remembered_def by (metis (no_types, lifting) aim_snac.select_convs(5) prod.collapse)
  let ?ts = "[mk_tlv 0x000d (aimutil_put16 0x000e), mk_tlv 0x0005 ip, mk_tlv 0x0006 ck]"
  have mem: "mem_ok s'" using s'(2) by (simp add: queued_snac_def can_queue_def)
  have chain: "aim_readtlvchain bs s' = Some (rev ?ts, adv (length (chain_wire ?ts)) bs, s')"
    using assms(5-8) mem by (intro readtlvchain_exact) simp_all
  have mem2: "mem_ok s2" using mem s2(1) remsnac_sel(2) [of s' "snacid_next s"] by simp
  have g: "aim_gettlv (rev ?ts) 0x000d 1 = Some (mk_tlv 0x000d (aimutil_put16 0x000e))"
    "aim_gettlv (rev ?ts) 0x0005 1 = Some (mk_tlv 0x0005 ip)" "aim_gettlv (rev ?ts) 0x0006 1 = Some (mk_tlv 0x0006 ck)"
    by (simp_all add: aim_gettlv_def)
  have ok: "chain_ok (rev ?ts)" using assms(7,8) by simp
  have room: "buf_string (c_strncpy name 128) = Some name" using assms(3,4) by (intro buf_string_strncpy) simp_all
  have "aim_gettlv16 (rev ?ts) 0x000d 1 = Some 14"
    unfolding aim_gettlv16_def g by (simp add: tlv_bytes_at_def mk_tlv_def aimutil_put16_def aimutil_get16_def)
  moreover have "aim_gettlv_str (rev ?ts) 0x0005 1 s' = Some (Some ip, s')"
    "aim_gettlv_str (rev ?ts) 0x0006 1 s' = Some (Some ck, s')"
    unfolding gettlv_str_ok [OF mem ok] g by simp_all
  ultimately have "general_snachandler cl m rx snac bs s' =
      call_user cl s2 (fr_conn rx) (ms_family snac) 0x0005 0 (Some rx)
        [ArgInt 14, ArgStr (Some (c_string_of ip)), ArgBytes (Some ck),
         ArgInt (uint ex), ArgStr (Some name), ArgInt (uint inst)] (adv (length (chain_wire ?ts)) bs)"
    using s2 assms(9,10) unfolding general_snachandler_def redirect_def chain
    by (simp add: g room AIM_CONN_TYPE_CHAT_def del: chain_wire_simps rev.simps)
  with s' s2(1) show ?thesis by (intro exI [of _ s'] exI conjI) auto
qed

theorem chat_join_redirected_witness:
  "\<exists>s' b s2. aim_chat_join quiet_client demo_session (Some 0) 4 (Some (cstr ''room'')) 7 = Some (0, s') \<and>
    general_snachandler quiet_client misc_module (demo_frame 2 [] (Some 0))
      \<lparr>ms_family = 1, ms_subtype = 5, ms_flags = 0, ms_id = 0\<rparr>
      (aim_bstream_init [0, 13, 0, 2, 0, 14, 0, 5, 0, 1, 0x61, 0, 6, 0, 2, 1, 2] 17) s' =
    call_user quiet_client s2 (fr_conn (demo_frame 2 [] (Some 0))) 1 0x0005 0 (Some (demo_frame 2 [] (Some 0)))
      [ArgInt 14, ArgStr (Some [0x61]), ArgBytes (Some [1, 2]), ArgInt 4, ArgStr (Some (cstr ''room'')), ArgInt 7] b"
proof -
  let ?bs = "aim_bstream_init [0, 13, 0, 2, 0, 14, 0, 5, 0, 1, 0x61, 0, 6, 0, 2, 1, 2] 17"
  have "unread ?bs = chain_wire [mk_tlv 0x000d (aimutil_put16 0x000e), mk_tlv 0x0005 [0x61], mk_tlv 0x0006 [1, 2]]"
    by (simp add: to_u16_def tlv_wire_def mk_tlv_def tlv_val_def aimutil_put16_def)
  then have u: "unread ?bs = chain_wire [mk_tlv 0x000d (aimutil_put16 0x000e), mk_tlv 0x0005 [0x61], mk_tlv 0x0006 [1, 2]]" .
  have p: "cstr ''room'' \<noteq> []" "length (cstr ''room'') \<le> 127" "0 \<notin> set (cstr ''room'')" "bs_ok ?bs"
    by (simp_all add: to_u16_def cstr_def)
  have c: "c_string_of [0x61] = [0x61]" by (simp add: c_string_of_def)
  obtain s' b where "aim_chat_join quiet_client demo_session (Some 0) 4 (Some (cstr ''room'')) 7 = Some (0, s')"
    "general_snachandler quiet_client misc_module (demo_frame 2 [] (Some 0))
      \<lparr>ms_family = 1, ms_subtype = 5, ms_flags = 0, ms_id = 0\<rparr> ?bs s' =
    call_user quiet_client (snd (aim_remsnac s' 0)) (fr_conn (demo_frame 2 [] (Some 0))) 1 0x0005 0 (Some (demo_frame 2 [] (Some 0)))
      [ArgInt 14, ArgStr (Some [0x61]), ArgBytes (Some [1, 2]), ArgInt 4, ArgStr (Some (cstr ''room'')), ArgInt 7] b"
    using chat_join_redirected [OF can_queue_demo(1) p(1-4) u, of "\<lparr>ms_family = 1, ms_subtype = 5, ms_flags = 0, ms_id = 0\<rparr>"
        quiet_client 4 7 misc_module "demo_frame 2 [] (Some 0)"] unfolding c by auto
  then show ?thesis by blast
qed

section \<open>Who came or went\<close>

definition ui_fits :: "aim_userinfo \<Rightarrow> bool" where
  "ui_fits ui \<longleftrightarrow> 0 \<in> set (ui_sn ui) \<and> length (ui_sn ui) = 33 \<and> length (selected (ui_capabilities ui)) \<le> 16"

lemma userlist_loop_wire:
  assumes "bs_ok bs" "mem_ok s" "list_all ui_fits uis" "unread bs = concat (map info_wire uis)"
  shows "\<exists>b. userlist_loop acc bs s = Some (acc @ map read_back uis, b, s)"
  using assms
proof (induction uis arbitrary: acc bs)
  case Nil
  then have "aim_bstream_empty bs = 0" by (simp add: empty_eq flip: length_unread)
  then show ?case by (simp add: userlist_loop.simps)
next
  case (Cons ui uis)
  have u: "unread bs = info_wire ui @ concat (map info_wire uis)" using Cons.prems(4) by simp
  have ui: "0 \<in> set (ui_sn ui)" "length (ui_sn ui) = 33" "length (selected (ui_capabilities ui)) \<le> 16"
    using Cons.prems(3) by (simp_all add: ui_fits_def)
  note x = extract_wire [OF Cons.prems(1,2) ui u]
  have r: "length (info_wire ui) \<le> room bs" using room_wire [OF Cons.prems(1) u] .
  have "0 < length (info_wire ui)" by (simp add: info_wire_def)
  with r have "room bs \<noteq> 0" by linarith
  then have ne: "aim_bstream_empty bs \<noteq> 0" using Cons.prems(1) by (simp add: empty_eq)
  have "bs_ok (adv (length (info_wire ui)) bs)" "unread (adv (length (info_wire ui)) bs) = concat (map info_wire uis)"
    using r u Cons.prems(1) by simp_all
  from Cons.IH [OF this(1) Cons.prems(2) _ this(2), of "acc @ [read_back ui]"] Cons.prems(2,3) ne x show ?case
    by (subst userlist_loop.simps) simp
qed

text \<open>When users come to a room or leave it, the client is told all of them: for any number of
  users in the message, the loop comes to an end and the callback gets their number and what the
  message says of each, in its order.\<close>

theorem chat_users_reported:
  assumes "bs_ok bs" "mem_ok s" "list_all ui_fits uis" "unread bs = concat (map info_wire uis)"
    "ms_subtype snac \<in> {0x0003, 0x0004}"
  shows "\<exists>b. chat_snachandler cl m rx snac bs s =
    call_user cl s (fr_conn rx) (ms_family snac) (ms_subtype snac) 0 (Some rx)
      [ArgInt (int (length uis)), users_arg (if uis = [] then None else Some (map read_back uis))] b"
proof -
  obtain b where "userlist_loop [] bs s = Some (map read_back uis, b, s)"
    using userlist_loop_wire [OF assms(1-4), of "[]"] by auto
  then have "chat_snachandler cl m rx snac bs s =
    call_user cl s (fr_conn rx) (ms_family snac) (ms_subtype snac) 0 (Some rx)
      [ArgInt (int (length uis)), users_arg (if uis = [] then None else Some (map read_back uis))] b"
    using assms(5) by (auto simp: chat_snachandler_def userlistchange_def)
  then show ?thesis ..
qed

theorem chat_users_reported_witness:
  "\<exists>b. chat_snachandler quiet_client misc_module (demo_frame 2 [] (Some 0))
      \<lparr>ms_family = 14, ms_subtype = 3, ms_flags = 0, ms_id = 0\<rparr>
      (aim_bstream_init [0, 0, 0, 0, 0, 0, 0, 0, 0, 0] 10) demo_session =
    call_user quiet_client demo_session (fr_conn (demo_frame 2 [] (Some 0))) 14 3 0 (Some (demo_frame 2 [] (Some 0)))
      [ArgInt 2, users_arg (Some [read_back zero_userinfo, read_back zero_userinfo])] b"
proof -
  have fits: "ui_fits zero_userinfo"
    by (simp add: ui_fits_def zero_userinfo_def selected_def aim_caps_def caps_defs)
  have "c_string_of (ui_sn zero_userinfo) = []" by (simp add: zero_userinfo_def c_string_of_def)
  then have "info_wire zero_userinfo = [0, 0, 0, 0, 0]"
    by (simp add: info_wire_def info_tlvs_def opt_def present_defs zero_userinfo_def aimutil_put16_def)
  then have u: "unread (aim_bstream_init [0, 0, 0, 0, 0, 0, 0, 0, 0, 0] 10) = concat (map info_wire [zero_userinfo, zero_userinfo])"
    by (simp add: to_u16_def)
  have ok: "bs_ok (aim_bstream_init [0, 0, 0, 0, 0, 0, 0, 0, 0, 0] 10)" by (simp add: to_u16_def)
  show ?thesis
    using chat_users_reported [of "aim_bstream_init [0, 0, 0, 0, 0, 0, 0, 0, 0, 0] 10" demo_session
        "[zero_userinfo, zero_userinfo]" "\<lparr>ms_family = 14, ms_subtype = 3, ms_flags = 0, ms_id = 0\<rparr>" quiet_client
        misc_module "demo_frame 2 [] (Some 0)"] fits u ok
    by simp
qed

end
