(* ===== verification/Icq.thy ===== *)
theory Icq
  imports Chatnav
begin

text \<open>
  ICQ packets inside SNACs: \<^verbatim>\<open>src/icq.c\<close>. The packets have their numbers least significant byte
  first and carry the id of the request in their header.
\<close>

section \<open>Model\<close>

subsection \<open>Requests\<close>

text \<open>
  A request is sent on the connection that supports the family. Its header is the length of the
  packet, the number that is the name of the session, a command and the id of the request.
\<close>

definition icq_frame ::
  "client \<Rightarrow> aim_session \<Rightarrow> int \<Rightarrow> u16 \<Rightarrow> (bstream \<Rightarrow> bstream option) \<Rightarrow> (int \<times> aim_session) option" where
  "icq_frame cl s bslen cmd args = do {
     conn \<leftarrow> aim_conn_findbygroup s 0x0015;
     if conn = None then Some (- EINVAL, s)
     else do {
       (fr, s) \<leftarrow> aim_tx_new s conn AIM_FRAMETYPE_FLAP 0x02 (10 + 4 + bslen);
       case fr of
         None \<Rightarrow> Some (- ENOMEM, s)
       | Some fr \<Rightarrow> do {
           let (snacid, s) = aim_cachesnac s 0x0015 0x0002 0x0000 None;
           (_, bs) \<leftarrow> aim_putsnac (fr_data fr) 0x0015 0x0002 0x0000 snacid;
           (_, bs) \<leftarrow> aimbs_put16 bs 0x0001;
           (_, bs) \<leftarrow> aimbs_put16 bs (word_of_int bslen);
           (_, bs) \<leftarrow> aimbs_putle16 bs (word_of_int (bslen - 2));
           (_, bs) \<leftarrow> aimbs_putle32 bs (word_of_int (c_atoi (sess_sn s)));
           (_, bs) \<leftarrow> aimbs_putle16 bs cmd;
           (_, bs) \<leftarrow> aimbs_putle16 bs (ucast snacid);
           bs \<leftarrow> args bs;
           (_, s) \<leftarrow> aim_tx_enqueue cl s (fr\<lparr>fr_data := bs\<rparr>);
           Some (0, s)
         }
     }
   }"

definition aim_icq_reqofflinemsgs :: "client \<Rightarrow> aim_session \<Rightarrow> (int \<times> aim_session) option" where
  "aim_icq_reqofflinemsgs cl s = icq_frame cl s (2 + 4 + 2 + 2) 0x003c Some"

definition aim_icq_ackofflinemsgs :: "client \<Rightarrow> aim_session \<Rightarrow> (int \<times> aim_session) option" where
  "aim_icq_ackofflinemsgs cl s = icq_frame cl s (2 + 4 + 2 + 2) 0x003e Some"

definition aim_icq_sendxmlreq :: "client \<Rightarrow> aim_session \<Rightarrow> cstring option \<Rightarrow> (int \<times> aim_session) option" where
  "aim_icq_sendxmlreq cl s xml =
     (case xml of
        None \<Rightarrow> Some (- EINVAL, s)
      | Some xml \<Rightarrow>
          if length xml = 0 then Some (- EINVAL, s)
          else icq_frame cl s (2 + 10 + 2 + int (length xml) + 1) 0x07d0
            (\<lambda>bs. do {
               (_, bs) \<leftarrow> aimbs_putle16 bs 0x0998;
               (_, bs) \<leftarrow> aimbs_putle16 bs (of_nat (length xml + 1));
               (_, bs) \<leftarrow> aimbs_putraw bs (xml @ [0]) (int (length xml) + 1);
               Some bs
             }))"

definition aim_icq_getsimpleinfo :: "client \<Rightarrow> aim_session \<Rightarrow> cstring option \<Rightarrow> (int \<times> aim_session) option" where
  "aim_icq_getsimpleinfo cl s uin =
     (case uin of
        None \<Rightarrow> Some (- EINVAL, s)
      | Some uin \<Rightarrow>
          if uin = [] \<or> uin ! 0 < 48 \<or> 57 < uin ! 0 then Some (- EINVAL, s)
          else icq_frame cl s (2 + 4 + 2 + 2 + 2 + 4) 0x07d0
            (\<lambda>bs. do {
               (_, bs) \<leftarrow> aimbs_putle16 bs 0x051f;
               (_, bs) \<leftarrow> aimbs_putle32 bs (word_of_int (c_atoi uin));
               Some bs
             }))"

subsection \<open>Replies\<close>

definition AIM_CB_FAM_ICQ :: u16 where "AIM_CB_FAM_ICQ = 0x0015"
definition AIM_CB_ICQ_OFFLINEMSG :: u16 where "AIM_CB_ICQ_OFFLINEMSG = 0x00f0"
definition AIM_CB_ICQ_OFFLINEMSGCOMPLETE :: u16 where "AIM_CB_ICQ_OFFLINEMSGCOMPLETE = 0x00f1"
definition AIM_CB_ICQ_SIMPLEINFO :: u16 where "AIM_CB_ICQ_SIMPLEINFO = 0x00f2"

text \<open>A message that was left while the user was away: sender, date, kind and text.\<close>

definition icq_offlinemsg ::
  "client \<Rightarrow> aim_frame \<Rightarrow> bstream \<Rightarrow> bstream \<Rightarrow> aim_session \<Rightarrow> (int \<times> bstream \<times> aim_session) option" where
  "icq_offlinemsg cl rx qbs bs s = do {
     (sender, qbs) \<leftarrow> aimbs_getle32 qbs;
     (year, qbs) \<leftarrow> aimbs_getle16 qbs;
     (month, qbs) \<leftarrow> aimbs_getle8 qbs;
     (day, qbs) \<leftarrow> aimbs_getle8 qbs;
     (hour, qbs) \<leftarrow> aimbs_getle8 qbs;
     (minute, qbs) \<leftarrow> aimbs_getle8 qbs;
     (type, qbs) \<leftarrow> aimbs_getle16 qbs;
     (msglen, qbs) \<leftarrow> aimbs_getle16 qbs;
     (msg, qbs, s) \<leftarrow> aimbs_getstr qbs (uint msglen) s;
     call_user cl s (fr_conn rx) AIM_CB_FAM_ICQ AIM_CB_ICQ_OFFLINEMSG 0 (Some rx)
       [ArgInt (uint sender), ArgInt (uint year), ArgInt (uint month), ArgInt (uint day),
        ArgInt (uint hour), ArgInt (uint minute), ArgInt (uint type),
        ArgStr (map_option c_string_of msg)] bs
   }"

text \<open>A string with its length before it.\<close>

definition icq_str :: "bstream \<Rightarrow> aim_session \<Rightarrow> (cb_arg \<times> bstream \<times> aim_session) option" where
  "icq_str qbs s = do {
     (tlen, qbs) \<leftarrow> aimbs_getle16 qbs;
     (str, qbs, s) \<leftarrow> aimbs_getstr qbs (uint tlen) s;
     Some (ArgStr (map_option c_string_of str), qbs, s)
   }"

definition icq_simpleinfo ::
  "client \<Rightarrow> aim_frame \<Rightarrow> bstream \<Rightarrow> bstream \<Rightarrow> aim_session \<Rightarrow> (int \<times> bstream \<times> aim_session) option" where
  "icq_simpleinfo cl rx qbs bs s = do {
     (_, qbs) \<leftarrow> aimbs_getle8 qbs;
     (_, qbs) \<leftarrow> aimbs_getle16 qbs;
     (uin, qbs) \<leftarrow> aimbs_getle32 qbs;
     (nick, qbs, s) \<leftarrow> icq_str qbs s;
     (first, qbs, s) \<leftarrow> icq_str qbs s;
     (lastname, qbs, s) \<leftarrow> icq_str qbs s;
     (email, qbs, s) \<leftarrow> icq_str qbs s;
     call_user cl s (fr_conn rx) AIM_CB_FAM_ICQ AIM_CB_ICQ_SIMPLEINFO 0 (Some rx)
       [ArgInt (uint uin), nick, first, lastname, email] bs
   }"

definition icqresponse :: "client \<Rightarrow> snachandler" where
  "icqresponse cl m rx snac bs s = do {
     (ts, bs, s) \<leftarrow> aim_readtlvchain bs s;
     case (if ts = [] then None else aim_gettlv ts 0x0001 1) of
       None \<Rightarrow> Some (0, bs, s)
     | Some datatlv \<Rightarrow> do {
         (cmdlen, qbs) \<leftarrow> aimbs_getle16 (tlv_stream datatlv);
         (ouruin, qbs) \<leftarrow> aimbs_getle32 qbs;
         (cmd, qbs) \<leftarrow> aimbs_getle16 qbs;
         (reqid, qbs) \<leftarrow> aimbs_getle16 qbs;
         if cmd = 0x0041 then icq_offlinemsg cl rx qbs bs s
         else if cmd = 0x0042 then
           call_user cl s (fr_conn rx) AIM_CB_FAM_ICQ AIM_CB_ICQ_OFFLINEMSGCOMPLETE 0 (Some rx) [] bs
         else if cmd = 0x07da then do {
           (subtype, qbs) \<leftarrow> aimbs_getle16 qbs;
           if subtype = 0x019a then icq_simpleinfo cl rx qbs bs s else Some (0, bs, s)
         }
         else Some (0, bs, s)
       }
   }"

definition icq_snachandler :: "client \<Rightarrow> snachandler" where
  "icq_snachandler cl m rx snac bs s =
     (if ms_subtype snac = 0x0003 then icqresponse cl m rx snac bs s else Some (0, bs, s))"

end
