(* ===== verification/Im.thy ===== *)
theory Im
  imports Chat
begin

text \<open>
  Instant messages: \<^verbatim>\<open>src/im.c\<close>. A message has a channel. Channel 1 is text, in one or
  several parts of different character sets; channel 2 is the negotiation of something else (a
  direct connection, a file, an icon, a chat), identified by a capability and a cookie.
\<close>

section \<open>Model\<close>

definition MAXMSGLEN :: int where "MAXMSGLEN = 7987"
definition MAXICONLEN :: int where "MAXICONLEN = 7168"
definition AIM_ICONIDENT :: cstring where "AIM_ICONIDENT = cstr ''AVT1picture.id''"

definition AIM_IMFLAGS_AWAY :: u32 where "AIM_IMFLAGS_AWAY = 0x0001"
definition AIM_IMFLAGS_ACK :: u32 where "AIM_IMFLAGS_ACK = 0x0002"
definition AIM_IMFLAGS_UNICODE :: u32 where "AIM_IMFLAGS_UNICODE = 0x0004"
definition AIM_IMFLAGS_ISO_8859_1 :: u32 where "AIM_IMFLAGS_ISO_8859_1 = 0x0008"
definition AIM_IMFLAGS_BUDDYREQ :: u32 where "AIM_IMFLAGS_BUDDYREQ = 0x0010"
definition AIM_IMFLAGS_HASICON :: u32 where "AIM_IMFLAGS_HASICON = 0x0020"
definition AIM_IMFLAGS_SUBENC_MACINTOSH :: u32 where "AIM_IMFLAGS_SUBENC_MACINTOSH = 0x0040"
definition AIM_IMFLAGS_CUSTOMFEATURES :: u32 where "AIM_IMFLAGS_CUSTOMFEATURES = 0x0080"
definition AIM_IMFLAGS_EXTDATA :: u32 where "AIM_IMFLAGS_EXTDATA = 0x0100"
definition AIM_IMFLAGS_CUSTOMCHARSET :: u32 where "AIM_IMFLAGS_CUSTOMCHARSET = 0x0200"
definition AIM_IMFLAGS_MULTIPART :: u32 where "AIM_IMFLAGS_MULTIPART = 0x0400"
definition AIM_IMFLAGS_OFFLINE :: u32 where "AIM_IMFLAGS_OFFLINE = 0x0800"

lemmas imflags_defs = AIM_IMFLAGS_AWAY_def AIM_IMFLAGS_ACK_def AIM_IMFLAGS_UNICODE_def AIM_IMFLAGS_ISO_8859_1_def
  AIM_IMFLAGS_BUDDYREQ_def AIM_IMFLAGS_HASICON_def AIM_IMFLAGS_SUBENC_MACINTOSH_def AIM_IMFLAGS_CUSTOMFEATURES_def
  AIM_IMFLAGS_EXTDATA_def AIM_IMFLAGS_CUSTOMCHARSET_def AIM_IMFLAGS_MULTIPART_def AIM_IMFLAGS_OFFLINE_def

subsection \<open>Clients and icons\<close>

definition AIM_CLIENTTYPE_UNKNOWN :: u16 where "AIM_CLIENTTYPE_UNKNOWN = 0x0000"
definition AIM_CLIENTTYPE_MC :: u16 where "AIM_CLIENTTYPE_MC = 0x0001"
definition AIM_CLIENTTYPE_WINAIM :: u16 where "AIM_CLIENTTYPE_WINAIM = 0x0002"
definition AIM_CLIENTTYPE_WINAIM41 :: u16 where "AIM_CLIENTTYPE_WINAIM41 = 0x0003"
definition AIM_CLIENTTYPE_AOL_TOC :: u16 where "AIM_CLIENTTYPE_AOL_TOC = 0x0004"

definition fingerprints :: "(u16 \<times> int \<times> u8 list) list" where
  "fingerprints = 
     [(AIM_CLIENTTYPE_MC, 3, [1, 1, 1]), (AIM_CLIENTTYPE_WINAIM, 3, [1, 1, 2]),
      (AIM_CLIENTTYPE_WINAIM41, 4, [1, 1, 1, 2]), (AIM_CLIENTTYPE_AOL_TOC, 1, [1])]"

fun fingerprint_loop :: "(u16 \<times> int \<times> u8 list) list \<Rightarrow> u8 list \<Rightarrow> int \<Rightarrow> u16 option" where
  "fingerprint_loop [] msghdr len = Some AIM_CLIENTTYPE_UNKNOWN"
| "fingerprint_loop ((clientid, flen, data) # fs) msghdr len =
     (if flen \<noteq> len then fingerprint_loop fs msghdr len
      else if length msghdr < nat flen then None
      else if data = take (nat flen) msghdr then Some clientid
      else fingerprint_loop fs msghdr len)"

definition aim_fingerprintclient :: "u8 list option \<Rightarrow> int \<Rightarrow> u16 option" where
  "aim_fingerprintclient msghdr len =
     (case msghdr of
        None \<Rightarrow> Some AIM_CLIENTTYPE_UNKNOWN
      | Some m \<Rightarrow> if len \<le> 0 then Some AIM_CLIENTTYPE_UNKNOWN else fingerprint_loop fingerprints m len)"

text \<open>The sum of the 16-bit values of the icon, folded once.\<close>

fun iconsum_loop :: "u8 list \<Rightarrow> u32 \<Rightarrow> u32" where
  "iconsum_loop (a # b # buf) acc = iconsum_loop buf (acc + (push_bit 8 (ucast b) + ucast a))"
| "iconsum_loop [a] acc = acc + ucast a"
| "iconsum_loop [] acc = acc"

definition aim_iconsum :: "u8 list \<Rightarrow> int \<Rightarrow> u16 option" where
  "aim_iconsum buf buflen =
     (if int (length buf) < buflen then None
      else let acc = iconsum_loop (take (nat buflen) buf) 0
           in Some (ucast (drop_bit 16 (acc AND 0xffff0000) + (acc AND 0x0000ffff))))"

subsection \<open>Messages of several parts\<close>

text \<open>The number of parts is counted beside the list. The data of a part may be a null pointer.\<close>

record mpmsg_section =
  sec_charset :: u16
  sec_charsubset :: u16
  sec_data :: "u8 list option"
  sec_datalen :: u16

record mpmsg =
  mp_numparts :: int
  mp_parts :: "mpmsg_section list"

definition aim_mpmsg_init :: mpmsg where
  "aim_mpmsg_init = \<lparr>mp_numparts = 0, mp_parts = []\<rparr>"

definition mpmsg_addsection ::
  "mpmsg \<Rightarrow> u16 \<Rightarrow> u16 \<Rightarrow> u8 list option \<Rightarrow> u16 \<Rightarrow> 'a os_scheme \<Rightarrow> int \<times> mpmsg \<times> 'a os_scheme" where
  "mpmsg_addsection mpm charset charsubset data datalen s =
     (let (ok, s) = malloc s
      in if \<not> ok then (-1, mpm, s)
         else (0, mpm\<lparr>mp_parts := mp_parts mpm @
                  [\<lparr>sec_charset = charset, sec_charsubset = charsubset, sec_data = data, sec_datalen = datalen\<rparr>],
                  mp_numparts := mp_numparts mpm + 1\<rparr>, s))"

definition aim_mpmsg_addraw ::
  "mpmsg \<Rightarrow> u16 \<Rightarrow> u16 \<Rightarrow> u8 list \<Rightarrow> u16 \<Rightarrow> 'a os_scheme \<Rightarrow> (int \<times> mpmsg \<times> 'a os_scheme) option" where
  "aim_mpmsg_addraw mpm charset charsubset data datalen s =
     (let (ok, s) = malloc s
      in if \<not> ok then Some (-1, mpm, s)
         else if length data < unat datalen then None
         else Some (mpmsg_addsection mpm charset charsubset (Some (take (unat datalen) data)) datalen s))"

definition aim_mpmsg_addascii ::
  "mpmsg \<Rightarrow> cstring \<Rightarrow> 'a os_scheme \<Rightarrow> int \<times> mpmsg \<times> 'a os_scheme" where
  "aim_mpmsg_addascii mpm ascii s =
     (let (ok, s) = malloc s
      in if \<not> ok then (-1, mpm, s)
         else mpmsg_addsection mpm 0x0000 0x0000 (Some (ascii @ [0])) (of_nat (length ascii)) s)"

fun put16s :: "u16 list \<Rightarrow> bstream \<Rightarrow> bstream option" where
  "put16s [] bs = Some bs"
| "put16s (v # vs) bs = do { (_, bs) \<leftarrow> aimbs_put16 bs v; put16s vs bs }"

text \<open>The size of the buffer is an \<^verbatim>\<open>int\<close>, the length of the stream on it has 16 bits.\<close>

definition aim_mpmsg_addunicode ::
  "mpmsg \<Rightarrow> u16 list \<Rightarrow> u16 \<Rightarrow> 'a os_scheme \<Rightarrow> (int \<times> mpmsg \<times> 'a os_scheme) option" where
  "aim_mpmsg_addunicode mpm unicode unicodelen s =
     (let (ok, s) = malloc s
      in if \<not> ok then Some (-1, mpm, s)
         else if length unicode < unat unicodelen then None
         else do {
           let bs = aim_bstream_init (fresh s (2 * unat unicodelen)) (2 * int (unat unicodelen));
           bs \<leftarrow> put16s (take (unat unicodelen) unicode) bs;
           Some (mpmsg_addsection mpm 0x0002 0x0000 (Some (bs_data bs)) (word_of_int (aim_bstream_curpos bs)) s)
         })"

definition aim_mpmsg_free :: "mpmsg \<Rightarrow> mpmsg" where
  "aim_mpmsg_free mpm = mpm\<lparr>mp_numparts := 0, mp_parts := []\<rparr>"

subsection \<open>Writing a series of values\<close>

datatype put_op =
    Put8 u8 | Put16 u16 | Put32 u32 | Putle8 u8 | Putle16 u16 | Putle32 u32 | PutRaw "u8 list" int | PutCap u32

fun put_one :: "put_op \<Rightarrow> bstream \<Rightarrow> bstream option" where
  "put_one (Put8 v) bs = map_option snd (aimbs_put8 bs v)"
| "put_one (Put16 v) bs = map_option snd (aimbs_put16 bs v)"
| "put_one (Put32 v) bs = map_option snd (aimbs_put32 bs v)"
| "put_one (Putle8 v) bs = map_option snd (aimbs_putle8 bs v)"
| "put_one (Putle16 v) bs = map_option snd (aimbs_putle16 bs v)"
| "put_one (Putle32 v) bs = map_option snd (aimbs_putle32 bs v)"
| "put_one (PutRaw v n) bs = map_option snd (aimbs_putraw bs v n)"
| "put_one (PutCap c) bs = map_option snd (aim_putcap bs c)"

fun put_all :: "put_op list \<Rightarrow> bstream \<Rightarrow> bstream option" where
  "put_all [] bs = Some bs"
| "put_all (p # ps) bs = do { bs \<leftarrow> put_one p bs; put_all ps bs }"

text \<open>A string that is not terminated, and one with its length before it.\<close>

definition put_str :: "cstring \<Rightarrow> put_op list" where
  "put_str str = [PutRaw str (int (length str))]"

definition put_lenstr :: "cstring \<Rightarrow> put_op list" where
  "put_lenstr str = [Put8 (of_nat (length str)), PutRaw str (int (length str))]"

subsection \<open>Sending a message\<close>

text \<open>
  The arguments of \<^verbatim>\<open>aim_send_im_ext\<close>. The text is not a C string: it has \<open>msglen\<close> bytes.
\<close>

record sendimext_args =
  sx_destsn :: cstring
  sx_flags :: u32
  sx_msg :: "u8 list option"
  sx_msglen :: int
  sx_mpmsg :: "mpmsg option"
  sx_iconlen :: u32
  sx_iconstamp :: u32
  sx_iconsum :: u32
  sx_features :: "u8 list"
  sx_featureslen :: u8
  sx_charset :: u16
  sx_charsubset :: u16

definition has_flag :: "u32 \<Rightarrow> u32 \<Rightarrow> bool" where
  "has_flag flags f \<longleftrightarrow> flags AND f \<noteq> 0"

definition deffeatures :: "u8 list" where
  "deffeatures = [0x01, 0x01, 0x01, 0x02]"

text \<open>The size of the message element, computed before it is written.\<close>

definition im_msgtlvlen :: "sendimext_args \<Rightarrow> mpmsg_section list \<Rightarrow> int" where
  "im_msgtlvlen args parts =
     1 + 1 +
     (if has_flag (sx_flags args) AIM_IMFLAGS_CUSTOMFEATURES then 2 + uint (sx_featureslen args)
      else 2 + int (length deffeatures)) +
     (if has_flag (sx_flags args) AIM_IMFLAGS_MULTIPART
      then sum_list (map (\<lambda>sec. 2 + 2 + (4 + uint (sec_datalen sec))) parts)
      else 2 + 2 + (4 + sx_msglen args))"

text \<open>What of an object a pointer to it can read; a null pointer reads nothing.\<close>

definition object :: "u8 list option \<Rightarrow> u8 list" where
  "object p = (case p of None \<Rightarrow> [] | Some xs \<Rightarrow> xs)"

definition section_ops :: "mpmsg_section \<Rightarrow> put_op list" where
  "section_ops sec =
     [Put16 0x0101, Put16 (sec_datalen sec + 4), Put16 (sec_charset sec), Put16 (sec_charsubset sec),
      PutRaw (object (sec_data sec)) (uint (sec_datalen sec))]"

definition charset_ops :: "sendimext_args \<Rightarrow> put_op list" where
  "charset_ops args =
     (if has_flag (sx_flags args) AIM_IMFLAGS_CUSTOMCHARSET
      then [Put16 (sx_charset args), Put16 (sx_charsubset args)]
      else [Put16 (if has_flag (sx_flags args) AIM_IMFLAGS_UNICODE then 0x0002
                   else if has_flag (sx_flags args) AIM_IMFLAGS_ISO_8859_1 then 0x0003
                   else 0x0000), Put16 0x0000])"

text \<open>The message element and the elements after it.\<close>

definition im_message_ops :: "sendimext_args \<Rightarrow> mpmsg_section list \<Rightarrow> put_op list" where
  "im_message_ops args parts =
     [Put16 0x0002, Put16 (word_of_int (im_msgtlvlen args parts)), Put8 0x05, Put8 0x01] @
     (if has_flag (sx_flags args) AIM_IMFLAGS_CUSTOMFEATURES
      then [Put16 (ucast (sx_featureslen args)), PutRaw (sx_features args) (uint (sx_featureslen args))]
      else [Put16 (of_nat (length deffeatures)), PutRaw deffeatures (int (length deffeatures))]) @
     (if has_flag (sx_flags args) AIM_IMFLAGS_MULTIPART then concat (map section_ops parts)
      else [Put16 0x0101, Put16 (word_of_int (sx_msglen args + 0x04))] @ charset_ops args @
           [PutRaw (object (sx_msg args)) (sx_msglen args)])"

definition im_flag_ops :: "sendimext_args \<Rightarrow> put_op list" where
  "im_flag_ops args =
     (if has_flag (sx_flags args) AIM_IMFLAGS_ACK then [Put16 0x0003, Put16 0x0000] else []) @
     (if has_flag (sx_flags args) AIM_IMFLAGS_AWAY then [Put16 0x0004, Put16 0x0000] else []) @
     (if has_flag (sx_flags args) AIM_IMFLAGS_OFFLINE then [Put16 0x0006, Put16 0x0000] else []) @
     (if has_flag (sx_flags args) AIM_IMFLAGS_HASICON
      then [Put16 0x0008, Put16 0x000c, Put32 (sx_iconlen args), Put16 0x0001, Put16 (ucast (sx_iconsum args)),
            Put32 (sx_iconstamp args)] else []) @
     (if has_flag (sx_flags args) AIM_IMFLAGS_BUDDYREQ then [Put16 0x0009, Put16 0x0000] else [])"

definition send_im_body :: "sendimext_args \<Rightarrow> mpmsg_section list \<Rightarrow> snac_body" where
  "send_im_body args parts bs s = do {
     let (ck, s) = rand_bytes 8 s;
     bs \<leftarrow> put_all (map Put8 ck @ [Put16 0x0001] @ put_lenstr (sx_destsn args) @
                     im_message_ops args parts @ im_flag_ops args) bs;
     Some (bs, s)
   }"

text \<open>The connection that supports the family of messages.\<close>

definition with_im_conn ::
  "aim_session \<Rightarrow> (nat option \<Rightarrow> (int \<times> aim_session) option) \<Rightarrow> (int \<times> aim_session) option" where
  "with_im_conn s k = do {
     conn \<leftarrow> aim_conn_findbygroup s 0x0004;
     if conn = None then Some (- EINVAL, s) else k conn
   }"

definition aim_send_im_ext ::
  "client \<Rightarrow> aim_session \<Rightarrow> sendimext_args option \<Rightarrow> (int \<times> aim_session) option" where
  "aim_send_im_ext cl s args =
     with_im_conn s (\<lambda>conn.
       case args of
         None \<Rightarrow> Some (- EINVAL, s)
       | Some args \<Rightarrow> do {
           let multipart = has_flag (sx_flags args) AIM_IMFLAGS_MULTIPART;
           parts \<leftarrow> (if multipart then map_option mp_parts (sx_mpmsg args) else Some []);
           numparts \<leftarrow> (if multipart then map_option mp_numparts (sx_mpmsg args) else Some 0);
           if multipart \<and> numparts \<le> 0 then Some (- EINVAL, s)
           else if \<not> multipart \<and> (sx_msg args = None \<or> sx_msglen args \<le> 0) then Some (- EINVAL, s)
           else if \<not> multipart \<and> sx_msglen args \<ge> MAXMSGLEN then Some (- E2BIG, s)
           else do {
             (r, s) \<leftarrow> snac_frame cl s conn (im_msgtlvlen args parts + 128)
               (cached_id 0x0004 0x0006 (Some (SnacBytes (sx_destsn args @ [0])))) 0x0004 0x0006
               (send_im_body args parts);
             if r \<noteq> 0 then Some (r, s)
             else Some (0, if sess_flags s AND AIM_SESS_FLAGS_DONTTIMEOUTONICBM = 0 then aim_cleansnacs s 60 else s)
           }
         })"

text \<open>
  The wrapper masks the flags whose arguments it does not set, all but that of a custom character
  set: the two fields are then what the stack holds.
\<close>

definition aim_send_im ::
  "client \<Rightarrow> aim_session \<Rightarrow> cstring \<Rightarrow> u16 \<Rightarrow> cstring \<Rightarrow> (int \<times> aim_session) option" where
  "aim_send_im cl s destsn flags msg =
     aim_send_im_ext cl s
       (Some \<lparr>sx_destsn = destsn,
          sx_flags = ucast flags AND
            NOT (AIM_IMFLAGS_CUSTOMFEATURES OR AIM_IMFLAGS_HASICON OR AIM_IMFLAGS_MULTIPART),
          sx_msg = Some (msg @ [0]), sx_msglen = int (length msg), sx_mpmsg = None,
          sx_iconlen = aimutil_get32 (os_junk s 0) (os_junk s 1) (os_junk s 2) (os_junk s 3),
          sx_iconstamp = aimutil_get32 (os_junk s 4) (os_junk s 5) (os_junk s 6) (os_junk s 7),
          sx_iconsum = aimutil_get32 (os_junk s 8) (os_junk s 9) (os_junk s 10) (os_junk s 11),
          sx_features = [], sx_featureslen = os_junk s 12,
          sx_charset = aimutil_get16 (os_junk s 13) (os_junk s 14),
          sx_charsubset = aimutil_get16 (os_junk s 15) (os_junk s 16)\<rparr>)"

subsection \<open>Proposals\<close>

definition aim_send_icon ::
  "client \<Rightarrow> aim_session \<Rightarrow> cstring option \<Rightarrow> u8 list option \<Rightarrow> int \<Rightarrow> u32 \<Rightarrow> u16 \<Rightarrow> (int \<times> aim_session) option" where
  "aim_send_icon cl s sn icon iconlen stamp sum16 =
     with_im_conn s (\<lambda>conn.
       case (sn, icon) of
         (Some sn, Some icon) \<Rightarrow>
           if iconlen \<le> 0 \<or> iconlen \<ge> MAXICONLEN then Some (- EINVAL, s)
           else do {
             let (ck, s) = rand_bytes 8 s;
             let idlen = int (length AIM_ICONIDENT);
             snac_frame cl s conn
               (10 + 8 + 2 + 1 + int (length sn) + 2 + 2 + 2 + 8 + 16 + 2 + 2 + 2 + 2 + 2 + 2 + 2 + 4 + 4 + 4 +
                iconlen + idlen + 2 + 2)
               (cached_id 0x0004 0x0006 None) 0x0004 0x0006
               (\<lambda>bs s. do {
                  bs \<leftarrow> put_all
                    ([PutRaw ck 8, Put16 0x0002] @ put_lenstr sn @
                     [Put16 0x0005, Put16 (word_of_int (2 + 8 + 16 + 6 + 4 + 4 + iconlen + 4 + 4 + 4 + idlen)),
                      Put16 0x0000, PutRaw ck 8, PutCap AIM_CAPS_BUDDYICON,
                      Put16 0x000a, Put16 0x0002, Put16 0x0001,
                      Put16 0x000f, Put16 0x0000,
                      Put16 0x2711, Put16 (word_of_int (4 + 4 + 4 + iconlen + idlen)), Put16 0x0000, Put16 sum16,
                      Put32 (word_of_int iconlen), Put32 stamp, PutRaw icon iconlen, PutRaw AIM_ICONIDENT idlen,
                      Put16 0x0003, Put16 0x0000]) bs;
                  Some (bs, s)
                })
           }
       | _ \<Rightarrow> Some (- EINVAL, s))"

record sendrtfmsg_args =
  rt_destsn :: "cstring option"
  rt_fgcolor :: u32
  rt_bgcolor :: u32
  rt_rtfmsg :: "cstring option"

definition rtfcap :: cstring where
  "rtfcap = cstr ''{97B12751-243C-4334-AD22-D6ABF73F1492}''"

definition rtf_servdata :: "cstring \<Rightarrow> u32 \<Rightarrow> u32 \<Rightarrow> put_op list" where
  "rtf_servdata rtfmsg fgcolor bgcolor =
     [Putle16 (11 + 16), Putle16 9, PutCap AIM_CAPS_EMPTY, Putle16 0, Putle32 0, Putle8 0, Putle16 0x03ea,
      Putle16 14, Putle16 0x03eb, Putle32 0, Putle32 0, Putle32 0,
      Putle16 0x0001, Putle32 0, Putle16 (of_nat (length rtfmsg + 1)),
      PutRaw (rtfmsg @ [0]) (int (length rtfmsg) + 1),
      Putle32 fgcolor, Putle32 bgcolor, Putle32 (of_nat (length rtfcap + 1)),
      PutRaw (rtfcap @ [0]) (int (length rtfcap) + 1)]"

definition aim_send_rtfmsg ::
  "client \<Rightarrow> aim_session \<Rightarrow> sendrtfmsg_args option \<Rightarrow> (int \<times> aim_session) option" where
  "aim_send_rtfmsg cl s args =
     with_im_conn s (\<lambda>conn.
       case args of
         None \<Rightarrow> Some (- EINVAL, s)
       | Some args \<Rightarrow>
           (case (rt_destsn args, rt_rtfmsg args) of
              (Some destsn, Some rtfmsg) \<Rightarrow> do {
                let servdatalen = 2 + 2 + 16 + 2 + 4 + 1 + 2 + 2 + 2 + 4 + 4 + 4 +
                  (2 + 4 + 2 + int (length rtfmsg) + 1) + (4 + 4 + 4 + int (length rtfcap) + 1);
                let (ck, s) = rand_bytes 8 s;
                snac_frame cl s conn (10 + 128 + servdatalen) (cached_id 0x0004 0x0006 None) 0x0004 0x0006
                  (\<lambda>bs s. do {
                     bs \<leftarrow> put_all
                       ([PutRaw ck 8, Put16 0x0002] @ put_lenstr destsn @
                        [Put16 0x0005, Put16 (word_of_int (2 + 8 + 16 + 2 + 2 + 2 + 2 + 2 + 2 + 2 + servdatalen)),
                         Put16 0x0000, PutRaw ck 8, PutCap AIM_CAPS_ICQSERVERRELAY,
                         Put16 0x000a, Put16 0x0002, Put16 0x0001,
                         Put16 0x000f, Put16 0x0000,
                         Put16 0x2711, Put16 (word_of_int servdatalen)] @
                        rtf_servdata rtfmsg (rt_fgcolor args) (rt_bgcolor args)) bs;
                     Some (bs, s)
                   })
              }
            | _ \<Rightarrow> Some (- EINVAL, s)))"

text \<open>
  Cookies of proposals of connections are strings of seven digits. \<open>ckret\<close> of the C functions is
  where the caller gets the cookie, here one of the results.
\<close>

definition digit_cookie :: "'a os_scheme \<Rightarrow> u8 list \<times> 'a os_scheme" where
  "digit_cookie s = (let (rs, s) = rand_bytes 7 s in (map (\<lambda>r. 0x30 + r mod 10) rs @ [0], s))"

definition directim_block :: "u8 list \<Rightarrow> u8 list \<Rightarrow> u16 \<Rightarrow> aim_session \<Rightarrow> (bstream \<times> aim_session) option" where
  "directim_block ck ip port s = do {
     let hdrlen = 2 + 8 + 16 + 6 + 8 + 6 + 4;
     let (ok, s) = malloc s;
     if \<not> ok then None
     else do {
       let hdrbs = aim_bstream_init (fresh s hdrlen) (int hdrlen);
       hdrbs \<leftarrow> put_all [Put16 0x0000, PutRaw ck 8, PutCap AIM_CAPS_IMIMAGE] hdrbs;
       (itl, s) \<leftarrow> add16 [] 0x000a 0x0001 s;
       (_, itl, s) \<leftarrow> aim_addtlvtochain_raw itl 0x0003 4 ip s;
       (itl, s) \<leftarrow> add16 itl 0x0005 port s;
       (itl, s) \<leftarrow> add_noval_if True itl 0x000f s;
       put_chain itl hdrbs s
     }
   }"

definition aim_request_directim ::
  "client \<Rightarrow> aim_session \<Rightarrow> cstring \<Rightarrow> u8 list \<Rightarrow> u16 \<Rightarrow> (int \<times> u8 list option \<times> aim_session) option" where
  "aim_request_directim cl s destsn ip port = do {
     conn \<leftarrow> aim_conn_findbygroup s 0x0004;
     if conn = None then Some (- EINVAL, None, s)
     else do {
       (fr, s) \<leftarrow> aim_tx_new s conn AIM_FRAMETYPE_FLAP 0x02 (256 + int (length destsn));
       case fr of
         None \<Rightarrow> Some (- ENOMEM, None, s)
       | Some fr \<Rightarrow> do {
           let (snacid, s) = aim_cachesnac s 0x0004 0x0006 0x0000 None;
           (_, bs) \<leftarrow> aim_putsnac (fr_data fr) 0x0004 0x0006 0x0000 snacid;
           let (ck, s) = digit_cookie s;
           bs \<leftarrow> put_all ([PutRaw ck 8, Put16 0x0002] @ put_lenstr destsn) bs;
           (ts, s) \<leftarrow> add_noval_if True [] 0x0003 s;
           (hdrbs, s) \<leftarrow> directim_block ck ip port s;
           (_, ts, s) \<leftarrow> aim_addtlvtochain_raw ts 0x0005 (word_of_int (aim_bstream_curpos hdrbs)) (bs_data hdrbs) s;
           (bs, s) \<leftarrow> put_chain ts bs s;
           (_, s) \<leftarrow> aim_tx_enqueue cl s (fr\<lparr>fr_data := bs\<rparr>);
           Some (0, Some ck, s)
         }
     }
   }"

definition aim_request_sendfile ::
  "client \<Rightarrow> aim_session \<Rightarrow> cstring option \<Rightarrow> cstring option \<Rightarrow> u16 \<Rightarrow> u32 \<Rightarrow> u8 list \<Rightarrow> u16
   \<Rightarrow> (int \<times> u8 list option \<times> aim_session) option" where
  "aim_request_sendfile cl s sn filename numfiles totsize ip port = do {
     conn \<leftarrow> aim_conn_findbygroup s 0x0004;
     if conn = None then Some (- EINVAL, None, s)
     else case (sn, filename) of
       (Some sn, Some filename) \<Rightarrow> do {
         let flen = int (length filename);
         (fr, s) \<leftarrow> aim_tx_new s conn AIM_FRAMETYPE_FLAP 0x02
           (10 + 8 + 2 + 1 + int (length sn) + 2 + 2 + 2 + 8 + 16 + 6 + 8 + 6 + 4 + 2 + 2 + 2 + 2 + 4 + flen + 4);
         case fr of
           None \<Rightarrow> Some (- ENOMEM, None, s)
         | Some fr \<Rightarrow> do {
             let (snacid, s) = aim_cachesnac s 0x0004 0x0006 0x0000 None;
             (_, bs) \<leftarrow> aim_putsnac (fr_data fr) 0x0004 0x0006 0x0000 snacid;
             let (ck, s) = digit_cookie s;
             bs \<leftarrow> put_all
               ([PutRaw ck 8, Put16 0x0002] @ put_lenstr sn @
                [Put16 0x0005, Put16 (word_of_int (2 + 8 + 16 + 6 + 8 + 6 + 4 + 2 + 2 + 2 + 2 + 4 + flen + 4)),
                 Put16 0x0000, PutRaw ck 8, PutCap AIM_CAPS_SENDFILE,
                 Put16 0x000a, Put16 0x0002, Put16 0x0001,
                 Put16 0x0003, Put16 0x0004, PutRaw ip 4,
                 Put16 0x0005, Put16 0x0002, Put16 port,
                 Put16 0x000f, Put16 0x0000,
                 Put16 0x2711, Put16 (word_of_int (2 + 2 + 4 + flen + 4)),
                 Put16 0x0001, Put16 numfiles, Put32 totsize, PutRaw filename flen, Put32 0x00000000]) bs;
             (_, s) \<leftarrow> aim_tx_enqueue cl s (fr\<lparr>fr_data := bs\<rparr>);
             Some (0, Some ck, s)
           }
       }
     | _ \<Rightarrow> Some (- EINVAL, None, s)
   }"

subsection \<open>Other requests\<close>

definition aim_denytransfer ::
  "client \<Rightarrow> aim_session \<Rightarrow> cstring \<Rightarrow> u8 list \<Rightarrow> u16 \<Rightarrow> (int \<times> aim_session) option" where
  "aim_denytransfer cl s sender cookie code =
     with_im_conn s (\<lambda>conn.
       snac_frame cl s conn (10 + 8 + 2 + 1 + int (length sender) + 6) (cached_id 0x0004 0x000b None) 0x0004 0x000b
         (\<lambda>bs s. do {
            bs \<leftarrow> put_all ([PutRaw cookie 8, Put16 0x0002] @ put_lenstr sender) bs;
            (ts, s) \<leftarrow> add16 [] 0x0003 code s;
            put_chain ts bs s
          }))"

definition aim_reqicbmparams :: "client \<Rightarrow> aim_session \<Rightarrow> (int \<times> aim_session) option" where
  "aim_reqicbmparams cl s = with_im_conn s (\<lambda>conn. aim_genericreq_n cl s conn 0x0004 0x0004)"

record icbmparameters =
  ip_maxchan :: u16
  ip_flags :: u32
  ip_maxmsglen :: u16
  ip_maxsenderwarn :: u16
  ip_maxrecverwarn :: u16
  ip_minmsginterval :: u32

definition aim_seticbmparam ::
  "client \<Rightarrow> aim_session \<Rightarrow> icbmparameters option \<Rightarrow> (int \<times> aim_session) option" where
  "aim_seticbmparam cl s params =
     with_im_conn s (\<lambda>conn.
       case params of
         None \<Rightarrow> Some (- EINVAL, s)
       | Some p \<Rightarrow>
           snac_frame cl s conn (10 + 16) (cached_id 0x0004 0x0002 None) 0x0004 0x0002
             (\<lambda>bs s. do {
                bs \<leftarrow> put_all [Put16 0x0000, Put32 (ip_flags p), Put16 (ip_maxmsglen p), Put16 (ip_maxsenderwarn p),
                                Put16 (ip_maxrecverwarn p), Put32 (ip_minmsginterval p)] bs;
                Some (bs, s)
              }))"

subsection \<open>The echo of a message sent\<close>

fun skip8 :: "nat \<Rightarrow> bstream \<Rightarrow> bstream option" where
  "skip8 0 bs = Some bs"
| "skip8 (Suc n) bs = do { (_, bs) \<leftarrow> aimbs_get8 bs; skip8 n bs }"

fun get8s :: "nat \<Rightarrow> bstream \<Rightarrow> (u8 list \<times> bstream) option" where
  "get8s 0 bs = Some ([], bs)"
| "get8s (Suc n) bs = do { (c, bs) \<leftarrow> aimbs_get8 bs; (cs, bs) \<leftarrow> get8s n bs; Some (c # cs, bs) }"

text \<open>
  A length computed as an \<^verbatim>\<open>int\<close> may be negative. No memory of such a size can be had, except for a
  string of length -1, whose buffer is empty and then written to.
\<close>

definition getstr_int ::
  "bstream \<Rightarrow> int \<Rightarrow> 'a os_scheme \<Rightarrow> (u8 list option \<times> bstream \<times> 'a os_scheme) option" where
  "getstr_int bs len s = (if len < - 1 then Some (None, bs, s) else aimbs_getstr bs len s)"

definition getraw_int ::
  "bstream \<Rightarrow> int \<Rightarrow> 'a os_scheme \<Rightarrow> (u8 list option \<times> bstream \<times> 'a os_scheme) option" where
  "getraw_int bs len s = (if len < 0 then Some (None, bs, s) else aimbs_getraw bs len s)"

definition outgoing_msgblock ::
  "tlv \<Rightarrow> aim_session \<Rightarrow> (u8 \<times> u8 \<times> u8 list option \<times> aim_session) option" where
  "outgoing_msgblock msgblock s = do {
     let mbs = tlv_stream msgblock;
     mbs \<leftarrow> skip8 2 mbs;
     (featurelen, mbs) \<leftarrow> aimbs_get16 mbs;
     mbs \<leftarrow> skip8 (unat featurelen) mbs;
     mbs \<leftarrow> skip8 2 mbs;
     (blocklen, mbs) \<leftarrow> aimbs_get16 mbs;
     let msglen = uint blocklen - 4;
     (flag1, mbs) \<leftarrow> aimbs_get16 mbs;
     (flag2, mbs) \<leftarrow> aimbs_get16 mbs;
     (msg, mbs, s) \<leftarrow> getstr_int mbs msglen s;
     Some (ucast flag1, ucast flag2, msg, s)
   }"

definition outgoingim :: "client \<Rightarrow> snachandler" where
  "outgoingim cl m rx snac bs s = do {
     (cookie, bs) \<leftarrow> get8s 8 bs;
     (channel, bs) \<leftarrow> aimbs_get16 bs;
     if channel \<noteq> 0x01 then Some (0, bs, s)
     else do {
       (snlen, bs) \<leftarrow> aimbs_get8 bs;
       (sn, bs, s) \<leftarrow> aimbs_getstr bs (uint snlen) s;
       (tlvlist, bs, s) \<leftarrow> aim_readtlvchain bs s;
       let icbmflags = (0 :: u16);
       let icbmflags = (if aim_gettlv tlvlist 0x0003 1 \<noteq> None then icbmflags OR ucast AIM_IMFLAGS_ACK else icbmflags);
       let icbmflags = (if aim_gettlv tlvlist 0x0004 1 \<noteq> None then icbmflags OR ucast AIM_IMFLAGS_AWAY else icbmflags);
       (flag1, flag2, msg, s) \<leftarrow> (case aim_gettlv tlvlist 0x0002 1 of
          None \<Rightarrow> Some (0, 0, None, s)
        | Some msgblock \<Rightarrow> outgoing_msgblock msgblock s);
       call_user cl s (fr_conn rx) (ms_family snac) (ms_subtype snac) 0 (Some rx)
         [ArgInt (uint channel), ArgStr (map_option c_string_of sn), ArgStr (map_option c_string_of msg),
          ArgInt (uint icbmflags), ArgInt (uint flag1), ArgInt (uint flag2)] bs
     }
   }"

subsection \<open>Incoming text\<close>

record ch1_args =
  c1_mpmsg :: mpmsg
  c1_icbmflags :: u32
  c1_msg :: "u8 list option"
  c1_msglen :: int
  c1_iconstamp :: u32
  c1_iconlen :: u32
  c1_iconsum :: u16
  c1_features :: "u8 list option"
  c1_featureslen :: u8
  c1_extdatalen :: u8
  c1_extdata :: "u8 list option"
  c1_charset :: u16
  c1_charsubset :: u16

definition zero_ch1_args :: ch1_args where
  "zero_ch1_args =
     \<lparr>c1_mpmsg = aim_mpmsg_init, c1_icbmflags = 0, c1_msg = None, c1_msglen = 0, c1_iconstamp = 0, c1_iconlen = 0,
      c1_iconsum = 0, c1_features = None, c1_featureslen = 0, c1_extdatalen = 0, c1_extdata = None,
      c1_charset = 0, c1_charsubset = 0\<rparr>"

text \<open>
  The parts of a message. The length of a part is that of its text less four; the text of a part
  that is not all there is a null pointer, with the length that was claimed.
\<close>

partial_function (option) parts_loop ::
  "bstream \<Rightarrow> mpmsg \<Rightarrow> aim_session \<Rightarrow> (mpmsg \<times> aim_session) option" where
  "parts_loop mbs mpm s =
     (if aim_bstream_empty mbs = 0 then Some (mpm, s)
      else do {
        (_, mbs) \<leftarrow> aimbs_get8 mbs;
        (_, mbs) \<leftarrow> aimbs_get8 mbs;
        (msglen, mbs) \<leftarrow> aimbs_get16 mbs;
        (flag1, mbs) \<leftarrow> aimbs_get16 mbs;
        (flag2, mbs) \<leftarrow> aimbs_get16 mbs;
        let msglen = msglen - 4;
        (msgbuf, mbs, s) \<leftarrow> aimbs_getstr mbs (uint msglen) s;
        let (_, mpm, s) = mpmsg_addsection mpm flag1 flag2 msgbuf msglen s;
        parts_loop mbs mpm s
      })"

text \<open>The first part of the best character set, to stand for the message.\<close>

definition charsetpri :: "u16 list" where
  "charsetpri = [0x0000, 0x0003, 0x0002]"

definition pick_section :: "mpmsg_section list \<Rightarrow> mpmsg_section option" where
  "pick_section parts =
     fold (\<lambda>pri found. if found = None then find (\<lambda>sec. sec_charset sec = pri) parts else found) charsetpri None"

definition simple_flags :: "u16 \<Rightarrow> u16 \<Rightarrow> u32 \<Rightarrow> u32" where
  "simple_flags charset charsubset icbmflags =
     (let icbmflags = icbmflags OR AIM_IMFLAGS_CUSTOMCHARSET;
          icbmflags = (if charset = 0x0000 then icbmflags
                       else if charset = 0x0002 then icbmflags OR AIM_IMFLAGS_UNICODE
                       else if charset = 0x0003 then icbmflags OR AIM_IMFLAGS_ISO_8859_1
                       else icbmflags)
      in if charsubset = 0x000b then icbmflags OR AIM_IMFLAGS_SUBENC_MACINTOSH else icbmflags)"

definition incomingim_ch1_parsemsgs ::
  "u8 list \<Rightarrow> int \<Rightarrow> ch1_args \<Rightarrow> aim_session \<Rightarrow> (ch1_args \<times> aim_session) option" where
  "incomingim_ch1_parsemsgs data len args s = do {
     (mpm, s) \<leftarrow> parts_loop (aim_bstream_init data len) (c1_mpmsg args) s;
     let args = args\<lparr>c1_mpmsg := mpm, c1_icbmflags := c1_icbmflags args OR AIM_IMFLAGS_MULTIPART\<rparr>;
     case pick_section (mp_parts mpm) of
       Some sec \<Rightarrow> Some (args\<lparr>c1_charset := sec_charset sec, c1_charsubset := sec_charsubset sec,
           c1_icbmflags := simple_flags (sec_charset sec) (sec_charsubset sec) (c1_icbmflags args),
           c1_msg := sec_data sec, c1_msglen := uint (sec_datalen sec)\<rparr>, s)
     | None \<Rightarrow> Some (args\<lparr>c1_charset := 0xffff, c1_charsubset := 0xffff, c1_msg := None, c1_msglen := 0\<rparr>, s)
   }"

definition set_flag :: "u32 \<Rightarrow> ch1_args \<Rightarrow> ch1_args" where
  "set_flag f args = args\<lparr>c1_icbmflags := c1_icbmflags args OR f\<rparr>"

text \<open>
  The message element: two bytes, the features, the parts. The number of bytes of features is cut
  to eight bits, and the features are not copied.
\<close>

definition ch1_message ::
  "bstream \<Rightarrow> u16 \<Rightarrow> ch1_args \<Rightarrow> aim_session \<Rightarrow> (bstream \<times> ch1_args \<times> aim_session) option" where
  "ch1_message bs len args s = do {
     (_, bs) \<leftarrow> aimbs_get8 bs;
     (_, bs) \<leftarrow> aimbs_get8 bs;
     (v, bs) \<leftarrow> aimbs_get16 bs;
     let args = args\<lparr>c1_featureslen := ucast v\<rparr>;
     let args = args\<lparr>c1_features := Some (take (unat (c1_featureslen args)) (drop (bs_off bs) (bs_data bs)))\<rparr>;
     let (_, bs) = aim_bstream_advance bs (uint (c1_featureslen args));
     let args = set_flag AIM_IMFLAGS_CUSTOMFEATURES args;
     (args, s) \<leftarrow> incomingim_ch1_parsemsgs (drop (bs_off bs) (bs_data bs))
       (uint len - 2 - 2 - uint (c1_featureslen args)) args s;
     Some (bs, args, s)
   }"

definition ch1_icon :: "bstream \<Rightarrow> ch1_args \<Rightarrow> (bstream \<times> ch1_args) option" where
  "ch1_icon bs args = do {
     (iconlen, bs) \<leftarrow> aimbs_get32 bs;
     (_, bs) \<leftarrow> aimbs_get16 bs;
     (iconsum, bs) \<leftarrow> aimbs_get16 bs;
     (iconstamp, bs) \<leftarrow> aimbs_get32 bs;
     let args = args\<lparr>c1_iconlen := iconlen, c1_iconsum := iconsum, c1_iconstamp := iconstamp\<rparr>;
     Some (bs, if iconlen \<noteq> 0 then set_flag AIM_IMFLAGS_HASICON args else args)
   }"

definition ch1_tlv ::
  "u16 \<Rightarrow> u16 \<Rightarrow> bstream \<Rightarrow> ch1_args \<Rightarrow> aim_session \<Rightarrow> (bstream \<times> ch1_args \<times> aim_session) option" where
  "ch1_tlv t len bs args s =
     (if t = 0x0002 then ch1_message bs len args s
      else if t = 0x0003 then Some (bs, set_flag AIM_IMFLAGS_ACK args, s)
      else if t = 0x0004 then Some (bs, set_flag AIM_IMFLAGS_AWAY args, s)
      else if t = 0x0006 then Some (bs, set_flag AIM_IMFLAGS_OFFLINE args, s)
      else if t = 0x0008 then do { (bs, args) \<leftarrow> ch1_icon bs args; Some (bs, args, s) }
      else if t = 0x0009 then Some (bs, set_flag AIM_IMFLAGS_BUDDYREQ args, s)
      else if t = 0x0017 then do {
        let args = args\<lparr>c1_extdatalen := ucast len\<rparr>;
        (extdata, bs, s) \<leftarrow> aimbs_getraw bs (uint (c1_extdatalen args)) s;
        Some (bs, args\<lparr>c1_extdata := extdata\<rparr>, s)
      }
      else Some (bs, args, s))"

partial_function (option) ch1_loop ::
  "bstream \<Rightarrow> ch1_args \<Rightarrow> aim_session \<Rightarrow> (bstream \<times> ch1_args \<times> aim_session) option" where
  "ch1_loop bs args s =
     (if aim_bstream_empty bs = 0 then Some (bs, args, s)
      else do {
        (t, bs) \<leftarrow> aimbs_get16 bs;
        (len, bs) \<leftarrow> aimbs_get16 bs;
        let endpos = aim_bstream_curpos bs + uint len;
        (bs, args, s) \<leftarrow> ch1_tlv t len bs args s;
        let (_, bs) = aim_bstream_setpos bs endpos;
        ch1_loop bs args s
      })"

definition section_arg :: "mpmsg_section \<Rightarrow> cb_arg" where
  "section_arg sec = ArgList [ArgInt (uint (sec_charset sec)), ArgInt (uint (sec_charsubset sec)),
     ArgBytes (sec_data sec), ArgInt (uint (sec_datalen sec))]"

definition ch1_arg :: "ch1_args \<Rightarrow> cb_arg" where
  "ch1_arg a = ArgList [ArgList (map section_arg (mp_parts (c1_mpmsg a))), ArgInt (uint (c1_icbmflags a)),
     ArgBytes (c1_msg a), ArgInt (c1_msglen a), ArgInt (uint (c1_iconstamp a)), ArgInt (uint (c1_iconlen a)),
     ArgInt (uint (c1_iconsum a)), ArgBytes (c1_features a), ArgInt (uint (c1_featureslen a)),
     ArgInt (uint (c1_extdatalen a)), ArgBytes (c1_extdata a), ArgInt (uint (c1_charset a)),
     ArgInt (uint (c1_charsubset a))]"

definition incomingim_ch1 ::
  "client \<Rightarrow> aim_frame \<Rightarrow> aim_modsnac \<Rightarrow> u16 \<Rightarrow> aim_userinfo \<Rightarrow> bstream \<Rightarrow> aim_session
   \<Rightarrow> (int \<times> bstream \<times> aim_session) option" where
  "incomingim_ch1 cl rx snac channel userinfo bs s = do {
     (bs, args, s) \<leftarrow> ch1_loop bs zero_ch1_args s;
     call_user cl s (fr_conn rx) (ms_family snac) (ms_subtype snac) 0 (Some rx)
       [ArgInt (uint channel), ArgUserinfo userinfo, ch1_arg args] bs
   }"

subsection \<open>Incoming proposals\<close>

text \<open>What a proposal says depends on its kind.\<close>

datatype ch2_info =
    NoInfo
  | IconInfo u32 u32 u32 "u8 list option"
  | ChatInfo u16 "u8 list option" u16
  | RtfInfo u32 u32 "u8 list option"

record ch2_args =
  c2_cookie :: "u8 list"
  c2_reqclass :: u16
  c2_status :: u16
  c2_errorcode :: u16
  c2_clientip :: "cstring option"
  c2_clientip2 :: "cstring option"
  c2_verifiedip :: "cstring option"
  c2_port :: u16
  c2_msg :: "cstring option"
  c2_encoding :: "cstring option"
  c2_language :: "cstring option"
  c2_info :: ch2_info

text \<open>Buddy lists are read and logged; the client gets nothing of them.\<close>

fun skip_names :: "nat \<Rightarrow> bstream \<Rightarrow> aim_session \<Rightarrow> (bstream \<times> aim_session) option" where
  "skip_names 0 bs s = Some (bs, s)"
| "skip_names (Suc n) bs s = do {
     (bnlen, bs) \<leftarrow> aimbs_get16 bs;
     (bn, bs, s) \<leftarrow> aimbs_getstr bs (uint bnlen) s;
     skip_names n bs s
   }"

partial_function (option) incomingim_ch2_buddylist ::
  "bstream option \<Rightarrow> aim_session \<Rightarrow> aim_session option" where
  "incomingim_ch2_buddylist servdata s =
     (case servdata of
        None \<Rightarrow> Some s
      | Some servdata \<Rightarrow>
          if aim_bstream_empty servdata = 0 then Some s
          else do {
            (gnlen, servdata) \<leftarrow> aimbs_get16 servdata;
            (gn, servdata, s) \<leftarrow> aimbs_getstr servdata (uint gnlen) s;
            (numb, servdata) \<leftarrow> aimbs_get16 servdata;
            (servdata, s) \<leftarrow> skip_names (unat numb) servdata s;
            incomingim_ch2_buddylist (Some servdata) s
          })"

definition incomingim_ch2_buddyicon ::
  "ch2_args \<Rightarrow> bstream option \<Rightarrow> aim_session \<Rightarrow> (ch2_args \<times> aim_session) option" where
  "incomingim_ch2_buddyicon args servdata s =
     (case servdata of
        None \<Rightarrow> Some (args\<lparr>c2_info := IconInfo 0 0 0 None\<rparr>, s)
      | Some bs \<Rightarrow> do {
          (checksum, bs) \<leftarrow> aimbs_get32 bs;
          (len, bs) \<leftarrow> aimbs_get32 bs;
          (timestamp, bs) \<leftarrow> aimbs_get32 bs;
          (icon, bs, s) \<leftarrow> getraw_int bs (sint len) s;
          Some (args\<lparr>c2_info := IconInfo checksum len timestamp icon\<rparr>, s)
        })"

definition incomingim_ch2_chat ::
  "ch2_args \<Rightarrow> bstream option \<Rightarrow> aim_session \<Rightarrow> (ch2_args \<times> aim_session) option" where
  "incomingim_ch2_chat args servdata s =
     (case servdata of
        None \<Rightarrow> Some (args\<lparr>c2_info := ChatInfo 0 None 0\<rparr>, s)
      | Some bs \<Rightarrow> do {
          (exchange, name, inst, bs, s) \<leftarrow> aim_chat_readroominfo bs s;
          Some (args\<lparr>c2_info := ChatInfo exchange name inst\<rparr>, s)
        })"

text \<open>The pointer to the stream is not checked here. All lengths but the first two are cut to 16 bits.\<close>

definition incomingim_ch2_icqserverrelay ::
  "ch2_args \<Rightarrow> bstream option \<Rightarrow> aim_session \<Rightarrow> (ch2_args \<times> aim_session) option" where
  "incomingim_ch2_icqserverrelay args servdata s = do {
     bs \<leftarrow> servdata;
     (hdrlen, bs) \<leftarrow> aimbs_getle16 bs;
     let (_, bs) = aim_bstream_advance bs (uint hdrlen);
     (hdrlen, bs) \<leftarrow> aimbs_getle16 bs;
     let (_, bs) = aim_bstream_advance bs (uint hdrlen);
     (msgtype, bs) \<leftarrow> aimbs_getle16 bs;
     (anslen, bs) \<leftarrow> aimbs_getle32 bs;
     let (_, bs) = aim_bstream_advance bs (uint (ucast anslen :: u16));
     (msglen, bs) \<leftarrow> aimbs_getle16 bs;
     (rtfmsg, bs, s) \<leftarrow> aimbs_getstr bs (uint msglen) s;
     (fgcolor, bs) \<leftarrow> aimbs_getle32 bs;
     (bgcolor, bs) \<leftarrow> aimbs_getle32 bs;
     (hdrlen, bs) \<leftarrow> aimbs_getle32 bs;
     Some (args\<lparr>c2_info := RtfInfo fgcolor bgcolor rtfmsg, c2_reqclass := ucast AIM_CAPS_ICQRTF\<rparr>, s)
   }"

text \<open>An address in decimal notation; all four bytes are read whatever the length of the element.\<close>

fun decimal :: "nat \<Rightarrow> cstring" where
  "decimal n = (if n < 10 then [of_nat (48 + n)] else decimal (n div 10) @ [of_nat (48 + n mod 10)])"

declare decimal.simps [simp del]

definition dotted :: "u8 list \<Rightarrow> cstring" where
  "dotted bs = decimal (unat (bs ! 0)) @ [46] @ decimal (unat (bs ! 1)) @ [46] @
     decimal (unat (bs ! 2)) @ [46] @ decimal (unat (bs ! 3))"

definition gettlv_ip :: "tlvlist \<Rightarrow> u16 \<Rightarrow> cstring option option" where
  "gettlv_ip ts t =
     (case aim_gettlv ts t 1 of
        None \<Rightarrow> Some None
      | Some iptlv \<Rightarrow> do {
          v \<leftarrow> tlv_value iptlv;
          if length v < 4 then None else Some (Some (dotted v))
        })"

definition ch2_header ::
  "tlv \<Rightarrow> u8 list \<Rightarrow> aim_session \<Rightarrow> (u16 \<times> u8 list \<times> u16 \<times> bstream \<times> aim_session) option" where
  "ch2_header block1 cookie s = do {
     (status, bbs) \<leftarrow> aimbs_get16 (tlv_stream block1);
     (cookie2, bbs, s) \<leftarrow> aimbs_getraw bbs 8 s;
     cookie2 \<leftarrow> cookie2;
     (reqclass, bbs, s) \<leftarrow> aim_getcap bbs 0x10 s;
     Some (status, cookie2, ucast reqclass, bbs, s)
   }"

definition ch2_service ::
  "ch2_args \<Rightarrow> bstream option \<Rightarrow> aim_session \<Rightarrow> (ch2_args \<times> aim_session) option" where
  "ch2_service args servdata s =
     (let reqclass = (ucast (c2_reqclass args) :: u32)
      in if reqclass AND AIM_CAPS_BUDDYICON \<noteq> 0 then incomingim_ch2_buddyicon args servdata s
         else if reqclass AND AIM_CAPS_SENDBUDDYLIST \<noteq> 0
         then do { s \<leftarrow> incomingim_ch2_buddylist servdata s; Some (args, s) }
         else if reqclass AND AIM_CAPS_CHAT \<noteq> 0 then incomingim_ch2_chat args servdata s
         else if reqclass AND AIM_CAPS_ICQSERVERRELAY \<noteq> 0 then incomingim_ch2_icqserverrelay args servdata s
         else Some (args, s))"

definition info_arg :: "ch2_info \<Rightarrow> cb_arg" where
  "info_arg i =
     (case i of
        NoInfo \<Rightarrow> ArgList []
      | IconInfo checksum len timestamp icon \<Rightarrow>
          ArgList [ArgInt (uint checksum), ArgInt (uint len), ArgInt (uint timestamp), ArgBytes icon]
      | ChatInfo exchange name inst \<Rightarrow>
          ArgList [ArgInt (uint exchange), ArgStr (map_option c_string_of name), ArgInt (uint inst)]
      | RtfInfo fgcolor bgcolor msg \<Rightarrow>
          ArgList [ArgInt (uint fgcolor), ArgInt (uint bgcolor), ArgStr (map_option c_string_of msg)])"

definition ch2_arg :: "ch2_args \<Rightarrow> cb_arg" where
  "ch2_arg a = ArgList [ArgBytes (Some (c2_cookie a)), ArgInt (uint (c2_reqclass a)), ArgInt (uint (c2_status a)),
     ArgInt (uint (c2_errorcode a)), ArgStr (c2_clientip a), ArgStr (c2_clientip2 a), ArgStr (c2_verifiedip a),
     ArgInt (uint (c2_port a)), ArgStr (c2_msg a), ArgStr (c2_encoding a), ArgStr (c2_language a),
     info_arg (c2_info a)]"

definition incomingim_ch2 ::
  "client \<Rightarrow> aim_frame \<Rightarrow> aim_modsnac \<Rightarrow> u16 \<Rightarrow> aim_userinfo \<Rightarrow> tlvlist \<Rightarrow> u8 list \<Rightarrow> bstream \<Rightarrow> aim_session
   \<Rightarrow> (int \<times> bstream \<times> aim_session) option" where
  "incomingim_ch2 cl rx snac channel userinfo tlvlist cookie bs s = do {
     block1 \<leftarrow> aim_gettlv tlvlist 0x0005 1;
     (status, cookie2, reqclass, bbs, s) \<leftarrow> ch2_header block1 cookie s;
     (list2, bbs, s) \<leftarrow> aim_readtlvchain bbs s;
     clientip1 \<leftarrow> gettlv_ip list2 0x0002;
     clientip2 \<leftarrow> gettlv_ip list2 0x0003;
     verifiedip \<leftarrow> gettlv_ip list2 0x0004;
     port \<leftarrow> gettlv16_or0 list2 0x0005;
     errorcode \<leftarrow> gettlv16_or0 list2 0x000b;
     (msg, s) \<leftarrow> gettlv_cstr list2 0x000c s;
     (encoding, s) \<leftarrow> gettlv_cstr list2 0x000d s;
     (language, s) \<leftarrow> gettlv_cstr list2 0x000e s;
     let servdata = map_option tlv_stream (aim_gettlv list2 0x2711 1);
     (args, s) \<leftarrow> ch2_service
       \<lparr>c2_cookie = cookie2, c2_reqclass = reqclass, c2_status = status, c2_errorcode = errorcode,
        c2_clientip = clientip1, c2_clientip2 = clientip2, c2_verifiedip = verifiedip, c2_port = port,
        c2_msg = msg, c2_encoding = encoding, c2_language = language, c2_info = NoInfo\<rparr> servdata s;
     call_user cl s (fr_conn rx) (ms_family snac) (ms_subtype snac) 0 (Some rx)
       [ArgInt (uint channel), ArgUserinfo userinfo, ch2_arg args] bs
   }"

definition incomingim :: "client \<Rightarrow> snachandler" where
  "incomingim cl m rx snac bs s = do {
     (cookie, bs) \<leftarrow> get8s 8 bs;
     (channel, bs) \<leftarrow> aimbs_get16 bs;
     (_, userinfo, bs, s) \<leftarrow> aim_extractuserinfo bs s;
     if channel = 1 then incomingim_ch1 cl rx snac channel userinfo bs s
     else if channel = 2 then do {
       (tlvlist, bs, s) \<leftarrow> aim_readtlvchain bs s;
       incomingim_ch2 cl rx snac channel userinfo tlvlist cookie bs s
     }
     else Some (0, bs, s)
   }"

subsection \<open>Reports\<close>

definition paraminfo :: "client \<Rightarrow> snachandler" where
  "paraminfo cl m rx snac bs s = do {
     (maxchan, bs) \<leftarrow> aimbs_get16 bs;
     (flags, bs) \<leftarrow> aimbs_get32 bs;
     (maxmsglen, bs) \<leftarrow> aimbs_get16 bs;
     (maxsenderwarn, bs) \<leftarrow> aimbs_get16 bs;
     (maxrecverwarn, bs) \<leftarrow> aimbs_get16 bs;
     (minmsginterval, bs) \<leftarrow> aimbs_get32 bs;
     call_user cl s (fr_conn rx) (ms_family snac) (ms_subtype snac) 0 (Some rx)
       [ArgList [ArgInt (uint maxchan), ArgInt (uint flags), ArgInt (uint maxmsglen), ArgInt (uint maxsenderwarn),
                 ArgInt (uint maxrecverwarn), ArgInt (uint minmsginterval)]] bs
   }"

text \<open>The value returned is that of the last call; without a handler it stays what it was.\<close>

partial_function (option) missedcall_loop ::
  "client \<Rightarrow> aim_frame \<Rightarrow> aim_modsnac \<Rightarrow> int \<Rightarrow> bstream \<Rightarrow> aim_session \<Rightarrow> (int \<times> bstream \<times> aim_session) option" where
  "missedcall_loop cl rx snac ret bs s =
     (if aim_bstream_empty bs = 0 then Some (ret, bs, s)
      else do {
        (channel, bs) \<leftarrow> aimbs_get16 bs;
        (_, userinfo, bs, s) \<leftarrow> aim_extractuserinfo bs s;
        (nummissed, bs) \<leftarrow> aimbs_get16 bs;
        (reason, bs) \<leftarrow> aimbs_get16 bs;
        (ret, bs, s) \<leftarrow> call_user cl s (fr_conn rx) (ms_family snac) (ms_subtype snac) ret (Some rx)
          [ArgInt (uint channel), ArgUserinfo userinfo, ArgInt (uint nummissed), ArgInt (uint reason)] bs;
        missedcall_loop cl rx snac ret bs s
      })"

definition missedcall :: "client \<Rightarrow> snachandler" where
  "missedcall cl m rx snac bs s = missedcall_loop cl rx snac 0 bs s"

definition clienterr :: "client \<Rightarrow> snachandler" where
  "clienterr cl m rx snac bs s = do {
     (ck, bs, s) \<leftarrow> aimbs_getraw bs 8 s;
     (channel, bs) \<leftarrow> aimbs_get16 bs;
     (snlen, bs) \<leftarrow> aimbs_get8 bs;
     (sn, bs, s) \<leftarrow> aimbs_getstr bs (uint snlen) s;
     (reason, bs) \<leftarrow> aimbs_get16 bs;
     call_user cl s (fr_conn rx) (ms_family snac) (ms_subtype snac) 0 (Some rx)
       [ArgInt (uint channel), ArgStr (map_option c_string_of sn), ArgInt (uint reason)] bs
   }"

definition msgack :: "client \<Rightarrow> snachandler" where
  "msgack cl m rx snac bs s = do {
     (ck, bs, s) \<leftarrow> aimbs_getraw bs 8 s;
     (t, bs) \<leftarrow> aimbs_get16 bs;
     (snlen, bs) \<leftarrow> aimbs_get8 bs;
     (sn, bs, s) \<leftarrow> aimbs_getstr bs (uint snlen) s;
     call_user cl s (fr_conn rx) (ms_family snac) (ms_subtype snac) 0 (Some rx)
       [ArgInt (uint t), ArgStr (map_option c_string_of sn)] bs
   }"

definition msg_snachandler :: "client \<Rightarrow> snachandler" where
  "msg_snachandler cl m rx snac bs s =
     (if ms_subtype snac = 0x0005 then paraminfo cl m rx snac bs s
      else if ms_subtype snac = 0x0006 then outgoingim cl m rx snac bs s
      else if ms_subtype snac = 0x0007 then incomingim cl m rx snac bs s
      else if ms_subtype snac = 0x000a then missedcall cl m rx snac bs s
      else if ms_subtype snac = 0x000b then clienterr cl m rx snac bs s
      else if ms_subtype snac = 0x000c then msgack cl m rx snac bs s
      else Some (0, bs, s))"

section \<open>The bytes written\<close>

fun op_wire :: "put_op \<Rightarrow> u8 list" where
  "op_wire (Put8 v) = [v]"
| "op_wire (Put16 v) = aimutil_put16 v"
| "op_wire (Put32 v) = aimutil_put32 v"
| "op_wire (Putle8 v) = [v]"
| "op_wire (Putle16 v) = aimutil_putle16 v"
| "op_wire (Putle32 v) = aimutil_putle32 v"
| "op_wire (PutRaw v n) = take (nat n) v"
| "op_wire (PutCap c) = concat (map snd (filter (\<lambda>e. c AND fst e \<noteq> 0) aim_caps))"

text \<open>What is written raw has at least the number of bytes to write.\<close>

fun op_ok :: "put_op \<Rightarrow> bool" where
  "op_ok (PutRaw v n) = (0 \<le> n \<and> nat n \<le> length v)"
| "op_ok _ = True"

definition ops_wire :: "put_op list \<Rightarrow> u8 list" where
  "ops_wire ops = concat (map op_wire ops)"

lemma ops_wire_simps [simp]:
  "ops_wire [] = []" "ops_wire (p # ps) = op_wire p @ ops_wire ps" "ops_wire (ps @ qs) = ops_wire ps @ ops_wire qs"
  by (simp_all add: ops_wire_def)

lemma ops_wire_put8 [simp]: "ops_wire (map Put8 xs) = xs"
  by (induction xs) auto

lemma length_caps_wire:
  "set es \<subseteq> set aim_caps \<Longrightarrow> length (concat (map snd (filter P es))) = 16 * length (filter P es)"
proof (induction es)
  case (Cons e es)
  then show ?case using aim_caps_data by auto
qed simp

lemma put_one_ok:
  "bs_ok bs \<Longrightarrow> op_ok p \<Longrightarrow> length (op_wire p) \<le> room bs \<Longrightarrow> put_one p bs = Some (emit (op_wire p) bs)"
proof (cases p)
  case (PutCap c)
  assume "bs_ok bs" "length (op_wire p) \<le> room bs"
  with PutCap show ?thesis
    using putcap_loop_ok [of bs aim_caps c] length_caps_wire [of aim_caps "\<lambda>e. c AND fst e \<noteq> 0"]
    by (simp add: aim_putcap_def)
qed (auto simp: stream_simps aimutil_put8_def aimutil_putle8_def)

lemma put_all_ok:
  "bs_ok bs \<Longrightarrow> list_all op_ok ops \<Longrightarrow> length (ops_wire ops) \<le> room bs \<Longrightarrow>
   put_all ops bs = Some (emit (ops_wire ops) bs)"
  by (induction ops arbitrary: bs) (simp_all add: put_one_ok)

lemma op_ok_put8 [simp]: "list_all op_ok (map Put8 xs)"
  by (induction xs) auto

lemma put_lenstr_ops [simp]:
  "ops_wire (put_lenstr str) = of_nat (length str) # str" "list_all op_ok (put_lenstr str)"
  by (simp_all add: put_lenstr_def)

text \<open>The effect of a request whose arguments are made from the state when the id has been obtained.\<close>

lemma tx_new_state:
  assumes "can_queue s a" "aim_tx_new s (Some a) AIM_FRAMETYPE_FLAP c len = Some (Some fr, s1)"
  shows "s1 = s\<lparr>next_addr := Suc (next_addr s)\<rparr>"
  using assms by (auto simp: can_queue_def aim_tx_new_def new_addr_def Let_def split: bind_splits if_splits)

lemma snac_frame_thread:
  assumes "can_queue s a" "newid (s\<lparr>next_addr := Suc (next_addr s)\<rparr>) = Some (i, s2)" "\<And>bs. body bs s2 = body' bs s3"
  shows "snac_frame cl s (Some a) len newid f t body = snac_frame cl s (Some a) len (\<lambda>_. Some (i, s3)) f t body'"
proof (cases "aim_tx_new s (Some a) AIM_FRAMETYPE_FLAP 0x02 len")
  case (Some r)
  then obtain fr s1 where r: "aim_tx_new s (Some a) AIM_FRAMETYPE_FLAP 0x02 len = Some (fr, s1)" by (cases r) auto
  show ?thesis
  proof (cases fr)
    case (Some fr)
    with r have "s1 = s\<lparr>next_addr := Suc (next_addr s)\<rparr>" using tx_new_state [OF assms(1)] by auto
    with r Some assms(2,3) show ?thesis by (simp add: snac_frame_def)
  qed (use r in \<open>simp add: snac_frame_def\<close>)
qed (simp add: snac_frame_def)

lemma rand_bytes_state: "\<exists>r. snd (rand_bytes n s) = s\<lparr>os_rand := r\<rparr>"
proof (induction n arbitrary: s)
  case 0
  then show ?case by (intro exI [of _ "os_rand s"]) simp
next
  case (Suc n)
  from Suc.IH [of "snd (c_rand s)"] show ?case
    by (auto simp: c_rand_def Let_def split: prod.splits list.splits)
qed

lemma rand_bytes_fst: "os_rand s = os_rand t \<Longrightarrow> fst (rand_bytes n s) = fst (rand_bytes n t)"
proof (induction n arbitrary: s t)
  case (Suc n)
  have "os_rand (snd (c_rand s)) = os_rand (snd (c_rand t))" "fst (c_rand s) = fst (c_rand t)"
    using Suc.prems by (auto simp: c_rand_def split: list.splits)
  with Suc.IH [OF this(1)] show ?case by (simp add: case_prod_unfold Let_def)
qed simp

lemma same_queue_rand [simp]:
  "same_queue s (snd (rand_bytes n t)) = same_queue s t"
  "snac_hash (snd (rand_bytes n t)) = snac_hash t" "snacid_next (snd (rand_bytes n t)) = snacid_next t"
  using rand_bytes_state [of n t] by (auto simp: same_queue_def snacs_ok_def mem_ok_def)

lemma cached_id_rand:
  "cached_id f t d (s\<lparr>next_addr := x\<rparr>) = Some (i, s2) \<Longrightarrow> mem_ok s \<Longrightarrow> os_rand s2 = os_rand s \<and> os_now s2 = os_now s"
  by (auto simp: cached_id_def cachesnac_ok newsnac_ok)

lemma cached_request_rand:
  fixes w :: "u8 list \<Rightarrow> bstream \<Rightarrow> bstream option"
  assumes "can_queue s a" "10 + int (length payload) \<le> len" "len < 65536"
    "\<And>bs. bs_ok bs \<Longrightarrow> length payload \<le> room bs \<Longrightarrow> w (fst (rand_bytes n s)) bs = Some (emit payload bs)"
    "\<And>bs s. body bs s = map_option (\<lambda>bs. (bs, snd (rand_bytes n s))) (w (fst (rand_bytes n s)) bs)"
  shows "\<exists>s'. snac_frame cl s (Some a) len (cached_id f t d) f' t' body = Some (0, s') \<and>
    queued_snac s a f' t' (snacid_next s) payload s' \<and> remembered s f t d s' \<and> os_now s' = os_now s"
proof -
  from assms(1) have m: "mem_ok s" "snacs_ok s" by (simp_all add: can_queue_def)
  from cached_id_remembered [OF this] obtain s2 where s2:
    "cached_id f t d (s\<lparr>next_addr := Suc (next_addr s)\<rparr>) = Some (snacid_next s, s2)" "same_queue s s2"
    "remembered s f t d s2" by blast
  let ?s3 = "snd (rand_bytes n s2)" and ?ck = "fst (rand_bytes n s)"
  let ?body = "\<lambda>bs s. map_option (\<lambda>bs. (bs, s)) (w ?ck bs)"
  have "fst (rand_bytes n s2) = ?ck" using cached_id_rand [OF s2(1) m(1)] by (intro rand_bytes_fst) simp
  then have "snac_frame cl s (Some a) len (cached_id f t d) f' t' body =
      snac_frame cl s (Some a) len (\<lambda>_. Some (snacid_next s, ?s3)) f' t' ?body"
    by (intro snac_frame_thread [of s a "cached_id f t d", OF assms(1) s2(1)]) (simp add: assms(5))
  moreover have "writes ?body payload ?s3" using assms(4) by (simp add: writes_def)
  ultimately obtain c fr where fr: "conns s a = Some c"
    "snac_frame cl s (Some a) len (cached_id f t d) f' t' body =
      Some (0, put_conn a (c\<lparr>conn_seqnum := conn_seqnum c + 1\<rparr>) ?s3\<lparr>queue_outgoing := queue_outgoing s @ [fr]\<rparr>)"
    "fr_conn fr = Some a" "fr_handled fr = 0" "fr_hdr fr = Flap 2 (conn_seqnum c + 1)"
    "bs_ok (fr_data fr)" "written (fr_data fr) = snac_wire f' t' 0 (snacid_next s) @ payload"
    using snac_frame_queued [of s a payload len "\<lambda>_. Some (snacid_next s, ?s3)" "snacid_next s" ?s3 ?body cl f' t']
      assms(1-3) s2(2) by auto
  moreover have "same_queue s ?s3" using s2(2) by simp
  moreover from s2(3) have "remembered s f t d ?s3" by (simp cong: remembered_frame)
  moreover have "os_now ?s3 = os_now s"
    using cached_id_rand [OF s2(1) m(1)] rand_bytes_state [of n s2] by auto
  moreover note can_queue_frame [OF assms(1) _ fr(1), of ?s3]
  ultimately show ?thesis
    by (intro exI [of _ "put_conn a (c\<lparr>conn_seqnum := conn_seqnum c + 1\<rparr>) ?s3
        \<lparr>queue_outgoing := queue_outgoing s @ [fr]\<rparr>"]) (auto simp: queued_snac_def cong: remembered_frame)
qed

section \<open>Messages on the wire\<close>

text \<open>
  The parts of the message the arguments stand for, and the elements it is sent as: a message of
  one text is a message of one part.
\<close>

definition im_charset :: "sendimext_args \<Rightarrow> u16" where
  "im_charset args =
     (if has_flag (sx_flags args) AIM_IMFLAGS_CUSTOMCHARSET then sx_charset args
      else if has_flag (sx_flags args) AIM_IMFLAGS_UNICODE then 0x0002
      else if has_flag (sx_flags args) AIM_IMFLAGS_ISO_8859_1 then 0x0003
      else 0x0000)"

definition im_charsubset :: "sendimext_args \<Rightarrow> u16" where
  "im_charsubset args = (if has_flag (sx_flags args) AIM_IMFLAGS_CUSTOMCHARSET then sx_charsubset args else 0x0000)"

definition im_sections :: "sendimext_args \<Rightarrow> mpmsg_section list" where
  "im_sections args =
     (if has_flag (sx_flags args) AIM_IMFLAGS_MULTIPART
      then (case sx_mpmsg args of None \<Rightarrow> [] | Some mpm \<Rightarrow> mp_parts mpm)
      else [\<lparr>sec_charset = im_charset args, sec_charsubset = im_charsubset args, sec_data = sx_msg args,
             sec_datalen = word_of_int (sx_msglen args)\<rparr>])"

definition im_features :: "sendimext_args \<Rightarrow> u8 list" where
  "im_features args =
     (if has_flag (sx_flags args) AIM_IMFLAGS_CUSTOMFEATURES
      then take (unat (sx_featureslen args)) (sx_features args) else deffeatures)"

definition section_text :: "mpmsg_section \<Rightarrow> u8 list" where
  "section_text sec = take (unat (sec_datalen sec)) (object (sec_data sec))"

definition section_wire :: "mpmsg_section \<Rightarrow> u8 list" where
  "section_wire sec = aimutil_put16 0x0101 @ aimutil_put16 (sec_datalen sec + 4) @ aimutil_put16 (sec_charset sec) @
     aimutil_put16 (sec_charsubset sec) @ section_text sec"

definition im_value :: "sendimext_args \<Rightarrow> u8 list" where
  "im_value args = [0x05, 0x01] @ aimutil_put16 (of_nat (length (im_features args))) @ im_features args @
     concat (map section_wire (im_sections args))"

definition flagged :: "sendimext_args \<Rightarrow> u32 \<Rightarrow> tlv \<Rightarrow> tlvlist" where
  "flagged args f t = (if has_flag (sx_flags args) f then [t] else [])"

definition im_icon :: "sendimext_args \<Rightarrow> u8 list" where
  "im_icon args = aimutil_put32 (sx_iconlen args) @ aimutil_put16 0x0001 @
     aimutil_put16 (ucast (sx_iconsum args)) @ aimutil_put32 (sx_iconstamp args)"

definition im_tlvs :: "sendimext_args \<Rightarrow> tlvlist" where
  "im_tlvs args = mk_tlv 0x0002 (im_value args) # flagged args AIM_IMFLAGS_ACK (mk_tlv 0x0003 []) @
     flagged args AIM_IMFLAGS_AWAY (mk_tlv 0x0004 []) @ flagged args AIM_IMFLAGS_OFFLINE (mk_tlv 0x0006 []) @
     flagged args AIM_IMFLAGS_HASICON (mk_tlv 0x0008 (im_icon args)) @
     flagged args AIM_IMFLAGS_BUDDYREQ (mk_tlv 0x0009 [])"

text \<open>Arguments that describe a message: what is pointed to is there, and it fits in a frame.\<close>

definition im_ok :: "sendimext_args \<Rightarrow> bool" where
  "im_ok args \<longleftrightarrow>
     (if has_flag (sx_flags args) AIM_IMFLAGS_MULTIPART then (case sx_mpmsg args of None \<Rightarrow> False | Some mpm \<Rightarrow> 0 < mp_numparts mpm)
      else sx_msg args \<noteq> None \<and> 0 < sx_msglen args \<and> sx_msglen args < MAXMSGLEN) \<and>
     (has_flag (sx_flags args) AIM_IMFLAGS_CUSTOMFEATURES \<longrightarrow> unat (sx_featureslen args) \<le> length (sx_features args)) \<and>
     list_all (\<lambda>sec. unat (sec_datalen sec) \<le> length (object (sec_data sec))) (im_sections args) \<and>
     length (sx_destsn args) \<le> 71 \<and> length (im_value args) < 65000"

lemma im_ok_lens:
  assumes "im_ok args"
  shows "length (im_features args) = (if has_flag (sx_flags args) AIM_IMFLAGS_CUSTOMFEATURES
      then unat (sx_featureslen args) else 4)" "length (im_features args) < 256"
  using assms unsigned_less [of "sx_featureslen args"] by (auto simp: im_ok_def im_features_def deffeatures_def)

lemma length_section:
  "unat (sec_datalen sec) \<le> length (object (sec_data sec)) \<Longrightarrow>
   int (length (section_wire sec)) = 8 + uint (sec_datalen sec)"
  by (simp add: section_wire_def section_text_def min_absorb2)

lemma length_sections:
  "list_all (\<lambda>sec. unat (sec_datalen sec) \<le> length (object (sec_data sec))) secs \<Longrightarrow>
   int (length (concat (map section_wire secs))) = sum_list (map (\<lambda>sec. 2 + 2 + (4 + uint (sec_datalen sec))) secs)"
  by (induction secs) (simp_all add: length_section)

lemma section_ops_wire:
  "unat (sec_datalen sec) \<le> length (object (sec_data sec)) \<Longrightarrow>
   ops_wire (section_ops sec) = section_wire sec \<and> list_all op_ok (section_ops sec)"
  by (simp add: section_ops_def section_wire_def section_text_def)

lemma sections_ops_wire:
  "list_all (\<lambda>sec. unat (sec_datalen sec) \<le> length (object (sec_data sec))) secs \<Longrightarrow>
   ops_wire (concat (map section_ops secs)) = concat (map section_wire secs) \<and>
   list_all op_ok (concat (map section_ops secs))"
  by (induction secs) (simp_all add: section_ops_wire)

lemma plain_ops_wire:
  assumes "im_ok args" "\<not> has_flag (sx_flags args) AIM_IMFLAGS_MULTIPART"
  shows "ops_wire ([Put16 0x0101, Put16 (word_of_int (sx_msglen args + 0x04))] @ charset_ops args @
      [PutRaw (object (sx_msg args)) (sx_msglen args)]) = concat (map section_wire (im_sections args))"
    "list_all op_ok ([Put16 0x0101, Put16 (word_of_int (sx_msglen args + 0x04))] @ charset_ops args @
      [PutRaw (object (sx_msg args)) (sx_msglen args)])"
    "uint (word_of_int (sx_msglen args) :: u16) = sx_msglen args"
proof -
  have u: "uint (word_of_int (sx_msglen args) :: u16) = sx_msglen args"
    using assms by (simp add: im_ok_def MAXMSGLEN_def word_of_int_inverse)
  then have n: "unat (word_of_int (sx_msglen args) :: u16) = nat (sx_msglen args)" by (metis nat_uint_eq)
  show "uint (word_of_int (sx_msglen args) :: u16) = sx_msglen args" by (rule u)
  show "ops_wire ([Put16 0x0101, Put16 (word_of_int (sx_msglen args + 0x04))] @ charset_ops args @
      [PutRaw (object (sx_msg args)) (sx_msglen args)]) = concat (map section_wire (im_sections args))"
    using assms n by (simp add: im_sections_def section_wire_def section_text_def charset_ops_def im_charset_def
        im_charsubset_def)
  show "list_all op_ok ([Put16 0x0101, Put16 (word_of_int (sx_msglen args + 0x04))] @ charset_ops args @
      [PutRaw (object (sx_msg args)) (sx_msglen args)])"
    using assms n by (simp add: im_ok_def im_sections_def charset_ops_def)
qed

lemma msgtlvlen_eq:
  assumes "im_ok args"
  shows "im_msgtlvlen args (if has_flag (sx_flags args) AIM_IMFLAGS_MULTIPART then im_sections args else []) =
    int (length (im_value args))"
proof -
  have "int (length (concat (map section_wire (im_sections args)))) =
      sum_list (map (\<lambda>sec. 2 + 2 + (4 + uint (sec_datalen sec))) (im_sections args))"
    using assms by (intro length_sections) (simp add: im_ok_def)
  then show ?thesis
    using im_ok_lens(1) [OF assms] plain_ops_wire(3) [OF assms]
    by (cases "has_flag (sx_flags args) AIM_IMFLAGS_MULTIPART")
      (auto simp: im_msgtlvlen_def im_value_def deffeatures_def im_sections_def)
qed

lemma message_ops_wire:
  fixes args defines "parts \<equiv> if has_flag (sx_flags args) AIM_IMFLAGS_MULTIPART then im_sections args else []"
  assumes "im_ok args"
  shows "ops_wire (im_message_ops args parts) = tlv_wire (mk_tlv 0x0002 (im_value args))"
    "list_all op_ok (im_message_ops args parts)"
proof -
  have n: "word_of_int (im_msgtlvlen args parts) = (of_nat (length (im_value args)) :: u16)"
    using msgtlvlen_eq [OF assms(2)] by (simp add: parts_def)
  have s: "list_all (\<lambda>sec. unat (sec_datalen sec) \<le> length (object (sec_data sec))) (im_sections args)"
    and f: "has_flag (sx_flags args) AIM_IMFLAGS_CUSTOMFEATURES \<longrightarrow> unat (sx_featureslen args) \<le> length (sx_features args)"
    using assms(2) by (simp_all add: im_ok_def)
  have v: "ops_wire (if has_flag (sx_flags args) AIM_IMFLAGS_CUSTOMFEATURES
      then [Put16 (ucast (sx_featureslen args)), PutRaw (sx_features args) (uint (sx_featureslen args))]
      else [Put16 (of_nat (length deffeatures)), PutRaw deffeatures (int (length deffeatures))]) =
      aimutil_put16 (of_nat (length (im_features args))) @ im_features args"
    using f by (auto simp: im_features_def min_absorb2)
  have w: "ops_wire (if has_flag (sx_flags args) AIM_IMFLAGS_MULTIPART then concat (map section_ops parts)
      else [Put16 0x0101, Put16 (word_of_int (sx_msglen args + 0x04))] @ charset_ops args @
           [PutRaw (object (sx_msg args)) (sx_msglen args)]) = concat (map section_wire (im_sections args))"
    using sections_ops_wire [OF s] plain_ops_wire(1) [OF assms(2)] by (simp add: parts_def)
  show "ops_wire (im_message_ops args parts) = tlv_wire (mk_tlv 0x0002 (im_value args))"
    unfolding im_message_ops_def ops_wire_simps v w n by (simp add: tlv_wire_def im_value_def)
  show "list_all op_ok (im_message_ops args parts)"
    using sections_ops_wire [OF s] plain_ops_wire(2) [OF assms(2)] f
    by (simp add: im_message_ops_def parts_def deffeatures_def)
qed

lemma flag_ops_wire:
  "tlv_wire (mk_tlv 0x0002 v) @ ops_wire (im_flag_ops args) = chain_wire (mk_tlv 0x0002 v # drop 1 (im_tlvs args))"
  "list_all op_ok (im_flag_ops args)"
  by (simp_all add: im_flag_ops_def im_tlvs_def flagged_def tlv_wire_def im_icon_def)

lemma flag_ops_len: "length (ops_wire (im_flag_ops args)) \<le> 32"
  by (simp add: im_flag_ops_def)

definition im_payload :: "aim_session \<Rightarrow> sendimext_args \<Rightarrow> u8 list" where
  "im_payload s args = fst (rand_bytes 8 s) @ aimutil_put16 0x0001 @
     of_nat (length (sx_destsn args)) # sx_destsn args @ chain_wire (im_tlvs args)"

lemma length_tlv_mk: "length (tlv_wire (mk_tlv t v)) = 4 + length v"
  by (simp add: tlv_wire_def)

lemma payload_len:
  assumes "im_ok args"
  shows "10 + int (length (im_payload s args)) \<le> int (length (im_value args)) + 128"
proof -
  have "length (fst (rand_bytes 8 s)) = 8" by (metis length_rand_bytes prod.collapse)
  moreover have "length (chain_wire (im_tlvs args)) = 4 + length (im_value args) + length (ops_wire (im_flag_ops args))"
    using arg_cong [OF flag_ops_wire(1) [of "im_value args" args], of length]
    by (simp add: im_tlvs_def length_tlv_mk)
  ultimately show ?thesis
    using assms flag_ops_len [of args] by (simp add: im_payload_def im_ok_def)
qed

lemma find_filter: "find P xs = Some x \<Longrightarrow> Q x \<Longrightarrow> find P (filter Q xs) = Some x"
  by (induction xs) (auto split: if_splits)

lemma remembered_clean:
  assumes "remembered s f t d s'" "os_now s' = os_now s"
  shows "remembered s f t d (aim_cleansnacs s' 60)"
proof -
  have *: "snac_hash (aim_cleansnacs s' 60) ! snac_index i =
      filter (\<lambda>x. os_now s - snac_issuetime x \<le> 60) (snac_hash s' ! snac_index i)" for i
    using assms by (simp add: aim_cleansnacs_def cleansnacs_filter remembered_def snacs_okD)
  have "snacid_next (aim_cleansnacs s' 60) = snacid_next s'" by (simp add: aim_cleansnacs_def)
  with assms(1) show ?thesis
    by (simp add: remembered_def remsnac_sel * snacs_ok_cleansnacs find_filter)
qed

lemma queued_clean: "queued_snac s a f t i p s' \<Longrightarrow> queued_snac s a f t i p (aim_cleansnacs s' 60)"
  using snacs_ok_cleansnacs [of s' 60]
  by (auto simp: queued_snac_def can_queue_def aim_cleansnacs_def mem_ok_def)

text \<open>A message whose arguments make sense is queued.\<close>

lemma im_ext_queued:
  assumes "aim_conn_findbygroup s 0x0004 = Some (Some a)" "can_queue s a" "im_ok args"
  shows "\<exists>s'. aim_send_im_ext cl s (Some args) = Some (0, s') \<and>
    queued_snac s a 0x0004 0x0006 (snacid_next s)
      (fst (rand_bytes 8 s) @ aimutil_put16 0x0001 @ of_nat (length (sx_destsn args)) # sx_destsn args @
       chain_wire (im_tlvs args)) s' \<and>
    remembered s 0x0004 0x0006 (Some (SnacBytes (sx_destsn args @ [0]))) s'"
proof -
  let ?m = "has_flag (sx_flags args) AIM_IMFLAGS_MULTIPART"
  let ?parts = "if ?m then im_sections args else []" and ?d = "Some (SnacBytes (sx_destsn args @ [0]))"
  let ?w = "\<lambda>ck. put_all (map Put8 ck @ [Put16 0x0001] @ put_lenstr (sx_destsn args) @
      im_message_ops args ?parts @ im_flag_ops args)"
  have len: "im_msgtlvlen args ?parts = int (length (im_value args))" "length (im_value args) < 65000"
    using msgtlvlen_eq [OF assms(3)] assms(3) by (simp_all add: im_ok_def)
  have ops: "ops_wire (map Put8 ck @ [Put16 0x0001] @ put_lenstr (sx_destsn args) @ im_message_ops args ?parts @
        im_flag_ops args) = ck @ aimutil_put16 0x0001 @ of_nat (length (sx_destsn args)) # sx_destsn args @
        chain_wire (im_tlvs args)"
    "list_all op_ok (map Put8 ck @ [Put16 0x0001] @ put_lenstr (sx_destsn args) @ im_message_ops args ?parts @
        im_flag_ops args)" for ck
    using message_ops_wire [OF assms(3)] flag_ops_wire(1) [of "im_value args" args] flag_ops_wire(2) by (simp_all add: im_tlvs_def)
  have w: "?w (fst (rand_bytes 8 s)) bs = Some (emit (im_payload s args) bs)"
    if "bs_ok bs" "length (im_payload s args) \<le> room bs" for bs
    using put_all_ok [OF that(1) ops(2) [of "fst (rand_bytes 8 s)"]] that(2) unfolding ops(1) im_payload_def by simp
  have body: "send_im_body args ?parts bs t =
      map_option (\<lambda>bs. (bs, snd (rand_bytes 8 t))) (?w (fst (rand_bytes 8 t)) bs)" for bs t
    by (simp add: send_im_body_def case_prod_unfold Let_def map_conv_bind_option comp_def)
  have fits: "10 + int (length (im_payload s args)) \<le> im_msgtlvlen args ?parts + 128" "im_msgtlvlen args ?parts + 128 < 65536"
    using payload_len [OF assms(3), of s] len by simp_all
  obtain s1 where s1: "snac_frame cl s (Some a) (im_msgtlvlen args ?parts + 128) (cached_id 0x0004 0x0006 ?d) 0x0004 0x0006
      (send_im_body args ?parts) = Some (0, s1)" "queued_snac s a 0x0004 0x0006 (snacid_next s) (im_payload s args) s1"
    "remembered s 0x0004 0x0006 ?d s1" "os_now s1 = os_now s"
    using cached_request_rand [where w = ?w and payload = "im_payload s args" and len = "im_msgtlvlen args ?parts + 128"
        and body = "send_im_body args ?parts" and n = 8 and cl = cl and f = "0x0004" and t = "0x0006" and d = ?d
        and f' = "0x0004" and t' = "0x0006", OF assms(2) fits w body] by blast
  let ?s = "if sess_flags s1 AND AIM_SESS_FLAGS_DONTTIMEOUTONICBM = 0 then aim_cleansnacs s1 60 else s1"
  have "aim_send_im_ext cl s (Some args) = Some (0, ?s)"
  proof (cases ?m)
    case True
    with assms(3) obtain mpm where "sx_mpmsg args = Some mpm" "0 < mp_numparts mpm"
      by (auto simp: im_ok_def split: option.splits)
    with True assms(1) s1(1) show ?thesis by (simp add: aim_send_im_ext_def with_im_conn_def Let_def im_sections_def)
  next
    case False
    with assms(1,3) s1(1) show ?thesis by (auto simp: aim_send_im_ext_def with_im_conn_def Let_def im_ok_def)
  qed
  moreover have "remembered s 0x0004 0x0006 ?d ?s" using s1(3,4) remembered_clean by simp
  ultimately show ?thesis
    using s1(2) queued_clean [OF s1(2)] unfolding im_payload_def by (intro exI [of _ ?s]) simp
qed

text \<open>C31: Sending a message: on the first connection that supports messages, one frame is queued whose
  payload is eight random bytes, the channel, the name of the receiver and the elements of the
  message; the request is remembered, with the name, also after old requests have been cleaned.\<close>

theorem im_sent:
  assumes "aim_conn_findbygroup s 0x0004 = Some (Some a)" "can_queue s a" "im_ok args"
  shows "\<exists>s'. aim_send_im_ext cl s (Some args) = Some (0, s') \<and>
    queued_snac s a 0x0004 0x0006 (snacid_next s)
      (fst (rand_bytes 8 s) @ aimutil_put16 0x0001 @ of_nat (length (sx_destsn args)) # sx_destsn args @
       chain_wire (im_tlvs args)) s' \<and>
    remembered s 0x0004 0x0006 (Some (SnacBytes (sx_destsn args @ [0]))) s'"
  using im_ext_queued [OF assms] .

text \<open>A session whose connection supports messages, and a message.\<close>

definition im_session :: aim_session where
  "im_session = put_conn 0 (demo_conn 5\<lparr>conn_inside := Some \<lparr>in_groups = [0x0001, 0x0004], in_rates = []\<rparr>\<rparr>) demo_session"

definition im_hello :: sendimext_args where
  "im_hello =
     \<lparr>sx_destsn = cstr ''joe'', sx_flags = AIM_IMFLAGS_ACK, sx_msg = Some (cstr ''hi''), sx_msglen = 2, sx_mpmsg = None,
      sx_iconlen = 0, sx_iconstamp = 0, sx_iconsum = 0, sx_features = [], sx_featureslen = 0, sx_charset = 0,
      sx_charsubset = 0\<rparr>"

lemma im_session_ok: "aim_conn_findbygroup im_session 0x0004 = Some (Some 0)" "can_queue im_session 0"
  "snacid_next im_session = 0" "os_rand im_session = []"
  by (simp_all add: im_session_def can_queue_def demo_session_def snacs_ok_def demo_conn_def put_conn_def
      aim_conn_findbygroup_def AIM_CONN_TYPE_BOS_def AIM_CONN_TYPE_RENDEZVOUS_def
      AIM_CONN_TYPE_RENDEZVOUS_OUT_def session0_def mem_ok_def)

lemma ack_flags [simp]:
  "has_flag AIM_IMFLAGS_ACK AIM_IMFLAGS_ACK"
  "\<not> has_flag AIM_IMFLAGS_ACK AIM_IMFLAGS_MULTIPART"
  "\<not> has_flag AIM_IMFLAGS_ACK AIM_IMFLAGS_CUSTOMFEATURES"
  "\<not> has_flag AIM_IMFLAGS_ACK AIM_IMFLAGS_CUSTOMCHARSET"
  "\<not> has_flag AIM_IMFLAGS_ACK AIM_IMFLAGS_UNICODE"
  "\<not> has_flag AIM_IMFLAGS_ACK AIM_IMFLAGS_ISO_8859_1"
  "\<not> has_flag AIM_IMFLAGS_ACK AIM_IMFLAGS_AWAY"
  "\<not> has_flag AIM_IMFLAGS_ACK AIM_IMFLAGS_OFFLINE"
  "\<not> has_flag AIM_IMFLAGS_ACK AIM_IMFLAGS_HASICON"
  "\<not> has_flag AIM_IMFLAGS_ACK AIM_IMFLAGS_BUDDYREQ"
  by (simp_all add: has_flag_def imflags_defs)

lemma im_hello_ok: "im_ok im_hello" "chain_wire (im_tlvs im_hello) =
    [0, 2, 0, 18, 5, 1, 0, 4, 1, 1, 1, 2, 1, 1, 0, 6, 0, 0, 0, 0, 104, 105, 0, 3, 0, 0]"
  by (simp_all add: im_ok_def im_tlvs_def flagged_def im_value_def im_sections_def im_features_def
      section_wire_def section_text_def object_def im_charset_def im_charsubset_def tlv_wire_def deffeatures_def
      im_hello_def aimutil_put16_def cstr_def MAXMSGLEN_def)

theorem im_sent_witness:
  "\<exists>s'. aim_send_im_ext quiet_client im_session (Some im_hello) = Some (0, s') \<and>
    queued_snac im_session 0 0x0004 0x0006 0
      [0, 0, 0, 0, 0, 0, 0, 0, 0, 1, 3, 106, 111, 101,
       0, 2, 0, 18, 5, 1, 0, 4, 1, 1, 1, 2, 1, 1, 0, 6, 0, 0, 0, 0, 104, 105, 0, 3, 0, 0] s'"
proof -
  have "fst (rand_bytes 8 im_session) = replicate 8 0"
    by (simp add: numeral_nat c_rand_def im_session_ok)
  with im_sent [OF im_session_ok(1,2) im_hello_ok(1), of quiet_client] show ?thesis
    unfolding im_hello_ok(2) by (auto simp: im_session_ok im_hello_def cstr_def aimutil_put16_def numeral_nat)
qed

section \<open>Messages received\<close>

lemma get8_step:
  assumes "bs_ok bs" "unread bs = v # rest"
  shows "aimbs_get8 bs = Some (v, adv 1 bs)" "bs_ok (adv 1 bs)" "unread (adv 1 bs) = rest"
  using get8_wire [OF assms] room_wire [of bs "[v]" rest] assms by simp_all

lemma getstr_step:
  assumes "bs_ok bs" "unread bs = xs @ rest" "n = int (length xs)" "mem_ok s"
  shows "aimbs_getstr bs n s = Some (Some (xs @ [0]), adv (length xs) bs, s)" "bs_ok (adv (length xs) bs)"
    "unread (adv (length xs) bs) = rest"
  using getrawbuf_step [OF assms(1-3)] assms(3,4) by (simp_all add: aimbs_getstr_def)

text \<open>A part as it is received: its text with a zero after it.\<close>

definition padded :: "mpmsg_section \<Rightarrow> mpmsg_section" where
  "padded sec = sec\<lparr>sec_data := Some (section_text sec @ [0])\<rparr>"

definition section_ok :: "mpmsg_section \<Rightarrow> bool" where
  "section_ok sec \<longleftrightarrow> unat (sec_datalen sec) \<le> length (object (sec_data sec))"

lemma length_text: "section_ok sec \<Longrightarrow> length (section_text sec) = unat (sec_datalen sec)"
  by (simp add: section_ok_def section_text_def)

lemma parts_step:
  assumes "bs_ok bs" "mem_ok s" "section_ok sec" "unread bs = section_wire sec @ rest"
  shows "parts_loop bs mpm s = parts_loop (adv (8 + unat (sec_datalen sec)) bs)
      (mpm\<lparr>mp_parts := mp_parts mpm @ [padded sec], mp_numparts := mp_numparts mpm + 1\<rparr>) s"
    "bs_ok (adv (8 + unat (sec_datalen sec)) bs)" "unread (adv (8 + unat (sec_datalen sec)) bs) = rest"
proof -
  let ?t = "section_text sec"
  have t: "length ?t = unat (sec_datalen sec)" by (rule length_text [OF assms(3)])
  have u: "unread bs = 1 # 1 # aimutil_put16 (sec_datalen sec + 4) @ aimutil_put16 (sec_charset sec) @
      aimutil_put16 (sec_charsubset sec) @ ?t @ rest"
    using assms(4) by (simp add: section_wire_def aimutil_put16_def [of "0x101"])
  note g1 = get8_step [OF assms(1) u]
  note g2 = get8_step [OF g1(2,3), unfolded adv_adv]
  note g3 = get16_step [OF g2(2,3), unfolded adv_adv]
  note g4 = get16_step [OF g3(2,3), unfolded adv_adv]
  note g5 = get16_step [OF g4(2,3), unfolded adv_adv]
  have n: "uint (sec_datalen sec) = int (length ?t)" by (simp add: t)
  note g6 = getstr_step [OF g5(2,3) n assms(2), unfolded adv_adv t]
  have k: "(1::nat) + 1 + 2 + 2 + 2 + unat (sec_datalen sec) = 8 + unat (sec_datalen sec)" by simp
  note g6' = g6 [unfolded k]
  have ne: "aim_bstream_empty bs \<noteq> 0"
    using assms(1) room_wire [of bs "[1, 1]"] u by (simp add: empty_eq)
  have add: "mpmsg_addsection mpm (sec_charset sec) (sec_charsubset sec) (Some (?t @ [0])) (sec_datalen sec) s =
      (0, mpm\<lparr>mp_parts := mp_parts mpm @ [padded sec], mp_numparts := mp_numparts mpm + 1\<rparr>, s)"
    using assms(2) by (simp add: mpmsg_addsection_def padded_def)
  have w: "sec_datalen sec + 4 - 4 = sec_datalen sec" by simp
  show "parts_loop bs mpm s = parts_loop (adv (8 + unat (sec_datalen sec)) bs)
      (mpm\<lparr>mp_parts := mp_parts mpm @ [padded sec], mp_numparts := mp_numparts mpm + 1\<rparr>) s"
    by (subst parts_loop.simps)
      (simp only: ne if_False g1(1) g2(1) g3(1) g4(1) g5(1) w g6'(1) add Let_def bind.bind_lunit prod.case)
  show "bs_ok (adv (8 + unat (sec_datalen sec)) bs)" "unread (adv (8 + unat (sec_datalen sec)) bs) = rest"
    by (rule g6'(2), rule g6'(3))
qed

lemma parts_loop_wire:
  "bs_ok bs \<Longrightarrow> mem_ok s \<Longrightarrow> list_all section_ok secs \<Longrightarrow> unread bs = concat (map section_wire secs) \<Longrightarrow>
   parts_loop bs mpm s = Some (\<lparr>mp_numparts = mp_numparts mpm + int (length secs),
     mp_parts = mp_parts mpm @ map padded secs\<rparr>, s)"
proof (induction secs arbitrary: bs mpm)
  case Nil
  then have "room bs = 0" by (metis concat.simps(1) length_unread list.map(1) list.size(3))
  with Nil(1) show ?case by (subst parts_loop.simps) (simp add: empty_eq)
next
  case (Cons sec secs)
  then have u: "unread bs = section_wire sec @ concat (map section_wire secs)" and ok: "section_ok sec" by simp_all
  note step = parts_step [OF Cons.prems(1,2) ok u]
  show ?case unfolding step(1) [of mpm]
    using Cons.IH [OF step(2) Cons.prems(2) _ step(3)] Cons.prems(3) by (simp add: algebra_simps)
qed

text \<open>
  What the client is told of a message: all its parts, and the one that stands for it, which is the
  first of the best character set.
\<close>

definition best_section :: "mpmsg_section list \<Rightarrow> mpmsg_section option" where
  "best_section parts =
     (case filter (\<lambda>x. sec_charset x = 0x0000) parts @ filter (\<lambda>x. sec_charset x = 0x0003) parts @
           filter (\<lambda>x. sec_charset x = 0x0002) parts of
        [] \<Rightarrow> None
      | sec # _ \<Rightarrow> Some sec)"

definition flag_if :: "bool \<Rightarrow> u32 \<Rightarrow> u32" where
  "flag_if b f = (if b then f else 0)"

definition section_flags :: "mpmsg_section option \<Rightarrow> u32" where
  "section_flags best =
     (case best of
        None \<Rightarrow> 0
      | Some sec \<Rightarrow> AIM_IMFLAGS_CUSTOMCHARSET OR flag_if (sec_charset sec = 0x0002) AIM_IMFLAGS_UNICODE OR
          flag_if (sec_charset sec = 0x0003) AIM_IMFLAGS_ISO_8859_1 OR
          flag_if (sec_charsubset sec = 0x000b) AIM_IMFLAGS_SUBENC_MACINTOSH)"

definition message_args :: "mpmsg_section list \<Rightarrow> u8 list \<Rightarrow> ch1_args" where
  "message_args parts features =
     (let best = best_section parts
      in zero_ch1_args\<lparr>c1_mpmsg := \<lparr>mp_numparts = int (length parts), mp_parts = parts\<rparr>,
           c1_icbmflags := AIM_IMFLAGS_CUSTOMFEATURES OR AIM_IMFLAGS_MULTIPART OR section_flags best,
           c1_features := Some features, c1_featureslen := of_nat (length features),
           c1_msg := (case best of None \<Rightarrow> None | Some sec \<Rightarrow> sec_data sec),
           c1_msglen := (case best of None \<Rightarrow> 0 | Some sec \<Rightarrow> uint (sec_datalen sec)),
           c1_charset := (case best of None \<Rightarrow> 0xffff | Some sec \<Rightarrow> sec_charset sec),
           c1_charsubset := (case best of None \<Rightarrow> 0xffff | Some sec \<Rightarrow> sec_charsubset sec)\<rparr>)"

lemma find_filter_hd: "find P xs = (case filter P xs of [] \<Rightarrow> None | x # _ \<Rightarrow> Some x)"
  by (induction xs) auto

lemma pick_best: "pick_section parts = best_section parts"
  by (auto simp: pick_section_def charsetpri_def best_section_def find_filter_hd split: list.splits)

lemma or_if: "(if b then x OR f else x) = x OR flag_if b f"
  by (simp add: flag_if_def)

lemma simple_flags_eq:
  "simple_flags (sec_charset sec) (sec_charsubset sec) x = x OR section_flags (Some sec)"
  by (simp add: simple_flags_def section_flags_def flag_if_def Let_def or.assoc)

lemma data_unread: "bs_ok bs \<Longrightarrow> drop (bs_off bs) (bs_data bs) = unread bs @ drop (bs_len bs) (bs_data bs)"
  unfolding unread_def bs_ok_def
  by (metis append_take_drop_id drop_drop le_add_diff_inverse2)

lemma advance_ok: "bs_ok bs \<Longrightarrow> n \<le> room bs \<Longrightarrow> aim_bstream_advance bs (int n) = (int n, adv n bs)"
  by (simp add: aim_bstream_advance_def empty_eq setoff_adv)

lemma ucast_len: "ucast (of_nat n :: u16) = (of_nat n :: u8)"
  by (rule bit_word_eqI) (auto simp: bit_simps)

lemma uint_len: "n < 65536 \<Longrightarrow> uint (of_nat n :: u16) = int n"
  by (simp add: unsigned_of_nat take_bit_nat_eq_self)

lemma ch1_message_parts:
  assumes "bs_ok bs" "length features < 256"
    "unread bs = [0x05, 0x01] @ aimutil_put16 (of_nat (length features)) @ features @ w @ rest"
    "len = of_nat (4 + length features + length w)" "4 + length features + length w < 65536"
    "\<And>x. parts_loop (aim_bstream_init (w @ x) (int (length w))) aim_mpmsg_init s =
       Some (\<lparr>mp_numparts = int (length parts), mp_parts = parts\<rparr>, s)"
  shows "ch1_message bs len zero_ch1_args s =
    Some (adv (4 + length features) bs, message_args parts features, s)"
proof -
  let ?n = "length features"
  note g1 = get8_step [OF assms(1) assms(3) [unfolded append_Cons append_Nil]]
  note g2 = get8_step [OF g1(2,3), unfolded adv_adv]
  have k: "(1::nat) + 1 + 2 = 4" by simp
  note g3 = get16_step [OF g2(2,3), unfolded adv_adv k]
  have d: "drop (bs_off (adv 4 bs)) (bs_data (adv 4 bs)) = features @ w @ rest @ drop (bs_len bs) (bs_data bs)"
    using data_unread [OF g3(2)] unfolding g3(3) by simp
  have n: "ucast (of_nat ?n :: u16) = (of_nat ?n :: u8)" "unat (of_nat ?n :: u8) = ?n"
    using assms(2) by (simp_all add: ucast_len unat_of_nat take_bit_nat_eq_self)
  have u: "uint (of_nat ?n :: u8) = int ?n" by (metis n(2) uint_nat)
  have adv: "aim_bstream_advance (adv 4 bs) (int ?n) = (int ?n, adv (4 + ?n) bs)"
    using advance_ok [OF g3(2), of ?n] room_wire [OF g3(2,3)] by (simp add: add.commute)
  have d2: "drop (bs_off (adv (4 + ?n) bs)) (bs_data (adv (4 + ?n) bs)) = w @ rest @ drop (bs_len bs) (bs_data bs)"
    using arg_cong [OF d, of "drop ?n"] by (simp add: ac_simps)
  have l: "uint len - 2 - 2 - int ?n = int (length w)"
    unfolding assms(4) uint_len [OF assms(5)] by simp
  have p: "parts_loop (aim_bstream_init (w @ x) (int (length w))) (c1_mpmsg zero_ch1_args) s =
      Some (\<lparr>mp_numparts = int (length parts), mp_parts = parts\<rparr>, s)" for x
    using assms(6) [of x] by (simp add: zero_ch1_args_def)
  have m: "incomingim_ch1_parsemsgs (w @ x) (int (length w)) args s =
      Some (let best = best_section parts in args\<lparr>c1_mpmsg := \<lparr>mp_numparts = int (length parts), mp_parts = parts\<rparr>,
        c1_icbmflags := c1_icbmflags args OR AIM_IMFLAGS_MULTIPART OR section_flags best,
        c1_msg := (case best of None \<Rightarrow> None | Some sec \<Rightarrow> sec_data sec),
        c1_msglen := (case best of None \<Rightarrow> 0 | Some sec \<Rightarrow> uint (sec_datalen sec)),
        c1_charset := (case best of None \<Rightarrow> 0xffff | Some sec \<Rightarrow> sec_charset sec),
        c1_charsubset := (case best of None \<Rightarrow> 0xffff | Some sec \<Rightarrow> sec_charsubset sec)\<rparr>, s)"
    if "c1_mpmsg args = c1_mpmsg zero_ch1_args" for args x
    using p [of x] that
    by (cases "best_section parts")
      (simp_all add: incomingim_ch1_parsemsgs_def pick_best simple_flags_eq section_flags_def or.assoc)
  have t: "take ?n (drop (bs_off (adv 4 bs)) (bs_data (adv 4 bs))) = features" unfolding d by simp
  show ?thesis
    by (simp only: ch1_message_def g1(1) g2(1) g3(1) bind.bind_lunit prod.case Let_def)
      (simp add: n u adv t [simplified] d2 [simplified] l [simplified] m set_flag_def message_args_def zero_ch1_args_def or.assoc Let_def)
qed

lemma ch1_message_wire:
  assumes "bs_ok bs" "mem_ok s" "list_all section_ok secs" "length features < 256"
    "unread bs = [0x05, 0x01] @ aimutil_put16 (of_nat (length features)) @ features @
       concat (map section_wire secs) @ rest"
    "len = of_nat (4 + length features + length (concat (map section_wire secs)))"
    "4 + length features + length (concat (map section_wire secs)) < 65536"
  shows "ch1_message bs len zero_ch1_args s =
    Some (adv (4 + length features) bs, message_args (map padded secs) features, s)"
proof -
  let ?w = "concat (map section_wire secs)"
  have "parts_loop (aim_bstream_init (?w @ x) (int (length ?w))) aim_mpmsg_init s =
      Some (\<lparr>mp_numparts = int (length (map padded secs)), mp_parts = map padded secs\<rparr>, s)" for x
    using parts_loop_wire [of "aim_bstream_init (?w @ x) (int (length ?w))" s secs aim_mpmsg_init] assms(2,3,7)
    by (simp add: aim_mpmsg_init_def)
  from ch1_message_parts [OF assms(1,4,5,6,7) this] show ?thesis by simp
qed

text \<open>One element, whatever of it its reader has read.\<close>

lemma ch1_step:
  assumes "bs_ok bs" "unread bs = tlv_wire (mk_tlv t v) @ rest" "length v < 65536"
    "ch1_tlv t (of_nat (length v)) (adv 4 bs) args s = Some (adv k bs, args', s')"
  shows "ch1_loop bs args s = ch1_loop (adv (4 + length v) bs) args' s'"
    "bs_ok (adv (4 + length v) bs)" "unread (adv (4 + length v) bs) = rest"
proof -
  have u: "unread bs = aimutil_put16 t @ aimutil_put16 (of_nat (length v)) @ v @ rest"
    using assms(2) by (simp add: tlv_wire_def)
  have k: "(2::nat) + 2 = 4" by simp
  note g1 = get16_step [OF assms(1) u]
  note g2 = get16_step [OF g1(2,3), unfolded adv_adv k]
  have r: "4 + length v \<le> room bs" using room_wire [OF assms(1,2)] by (simp add: tlv_wire_def)
  then have ne: "aim_bstream_empty bs \<noteq> 0" using assms(1) by (simp add: empty_eq)
  have "bs_off bs + 4 + length v \<le> bs_len bs" "bs_len bs < 65536"
    using r bs_okD [OF assms(1)] by (simp_all add: room_def)
  then have pos: "aim_bstream_setpos (adv k bs) (aim_bstream_curpos (adv 4 bs) + int (length v)) =
      (int (bs_off bs + 4 + length v), adv (4 + length v) bs)"
    by (simp add: aim_bstream_setpos_def aim_bstream_curpos_def adv_def)
  show "ch1_loop bs args s = ch1_loop (adv (4 + length v) bs) args' s'"
    by (subst ch1_loop.simps)
      (simp only: ne if_False g1(1) g2(1) bind.bind_lunit prod.case Let_def uint_len [OF assms(3)] assms(4) pos)
  show "bs_ok (adv (4 + length v) bs)" using assms(1) r by simp
  show "unread (adv (4 + length v) bs) = rest" using assms(2) by (simp add: tlv_wire_def)
qed

lemma ch1_end: "bs_ok bs \<Longrightarrow> unread bs = [] \<Longrightarrow> ch1_loop bs args s = Some (bs, args, s)"
  using length_unread [of bs] by (subst ch1_loop.simps) (simp add: empty_eq)

text \<open>An element that is there only when a flag is set.\<close>

definition set_flag_if :: "bool \<Rightarrow> u32 \<Rightarrow> ch1_args \<Rightarrow> ch1_args" where
  "set_flag_if b f args = args\<lparr>c1_icbmflags := c1_icbmflags args OR flag_if b f\<rparr>"

lemma ch1_flag_step:
  assumes "bs_ok bs" "unread bs = chain_wire (flagged a f (mk_tlv t [])) @ rest"
    "(t, f) \<in> {(0x0003, AIM_IMFLAGS_ACK), (0x0004, AIM_IMFLAGS_AWAY), (0x0006, AIM_IMFLAGS_OFFLINE),
      (0x0009, AIM_IMFLAGS_BUDDYREQ)}"
  shows "\<exists>b. ch1_loop bs args s = ch1_loop b (set_flag_if (has_flag (sx_flags a) f) f args) s \<and> bs_ok b \<and> unread b = rest"
proof (cases "has_flag (sx_flags a) f")
  case True
  then have u: "unread bs = tlv_wire (mk_tlv t []) @ rest" using assms(2) by (simp add: flagged_def)
  have "ch1_tlv t (of_nat (length ([] :: u8 list))) (adv 4 bs) args s = Some (adv 4 bs, set_flag f args, s)"
    using assms(3) by (auto simp: ch1_tlv_def)
  from ch1_step [OF assms(1) u _ this] True show ?thesis
    by (auto simp: set_flag_def set_flag_if_def flag_if_def)
next
  case False
  with assms(1,2) show ?thesis by (auto simp: flagged_def set_flag_if_def flag_if_def)
qed

definition icon_args :: "sendimext_args \<Rightarrow> ch1_args \<Rightarrow> ch1_args" where
  "icon_args a args =
     (if has_flag (sx_flags a) AIM_IMFLAGS_HASICON
      then set_flag_if (sx_iconlen a \<noteq> 0) AIM_IMFLAGS_HASICON (args\<lparr>c1_iconlen := sx_iconlen a,
             c1_iconsum := ucast (sx_iconsum a), c1_iconstamp := sx_iconstamp a\<rparr>)
      else args)"

lemma ch1_icon_wire:
  assumes "bs_ok bs" "unread bs = im_icon a @ rest"
  shows "ch1_icon bs args = Some (adv 12 bs, set_flag_if (sx_iconlen a \<noteq> 0) AIM_IMFLAGS_HASICON
    (args\<lparr>c1_iconlen := sx_iconlen a, c1_iconsum := ucast (sx_iconsum a), c1_iconstamp := sx_iconstamp a\<rparr>))"
proof -
  have u: "unread bs = aimutil_put32 (sx_iconlen a) @ aimutil_put16 0x0001 @
      aimutil_put16 (ucast (sx_iconsum a)) @ aimutil_put32 (sx_iconstamp a) @ rest"
    using assms(2) by (simp add: im_icon_def)
  note g1 = get32_step [OF assms(1) u]
  note g2 = get16_step [OF g1(2,3), unfolded adv_adv]
  note g3 = get16_step [OF g2(2,3), unfolded adv_adv]
  have k: "(4::nat) + 2 + 2 + 4 = 12" by simp
  note g4 = get32_step [OF g3(2,3), unfolded adv_adv k]
  show ?thesis
    by (simp only: ch1_icon_def g1(1) g2(1) g3(1) g4(1) bind.bind_lunit prod.case Let_def)
      (simp add: set_flag_def set_flag_if_def flag_if_def)
qed

lemma ch1_icon_step:
  assumes "bs_ok bs" "unread bs = chain_wire (flagged a AIM_IMFLAGS_HASICON (mk_tlv 0x0008 (im_icon a))) @ rest"
  shows "\<exists>b. ch1_loop bs args s = ch1_loop b (icon_args a args) s \<and> bs_ok b \<and> unread b = rest"
proof (cases "has_flag (sx_flags a) AIM_IMFLAGS_HASICON")
  case True
  then have u: "unread bs = tlv_wire (mk_tlv 0x0008 (im_icon a)) @ rest" using assms(2) by (simp add: flagged_def)
  have i: "length (im_icon a) = 12" by (simp add: im_icon_def)
  have 4: "bs_ok (adv 4 bs)" "unread (adv 4 bs) = im_icon a @ rest"
    using assms(1) u room_wire [OF assms(1) u] by (simp_all add: tlv_wire_def)
  have "ch1_tlv 0x0008 (of_nat (length (im_icon a))) (adv 4 bs) args s = Some (adv 16 bs, icon_args a args, s)"
    using ch1_icon_wire [OF 4] True by (simp add: ch1_tlv_def icon_args_def)
  from ch1_step [OF assms(1) u _ this] i True show ?thesis by auto
next
  case False
  with assms show ?thesis by (auto simp: flagged_def icon_args_def)
qed

text \<open>The arguments of the client for a message that was sent.\<close>

definition im_received :: "sendimext_args \<Rightarrow> ch1_args" where
  "im_received a =
     (let flag = \<lambda>f. set_flag_if (has_flag (sx_flags a) f) f
      in (flag AIM_IMFLAGS_BUDDYREQ \<circ> icon_args a \<circ> flag AIM_IMFLAGS_OFFLINE \<circ> flag AIM_IMFLAGS_AWAY \<circ>
          flag AIM_IMFLAGS_ACK) (message_args (map padded (im_sections a)) (im_features a)))"

lemma ch1_loop_im:
  assumes "bs_ok bs" "mem_ok s" "im_ok a" "unread bs = chain_wire (im_tlvs a)"
  shows "\<exists>b. ch1_loop bs zero_ch1_args s = Some (b, im_received a, s)"
proof -
  define rest where "rest = chain_wire (drop 1 (im_tlvs a))"
  let ?secs = "im_sections a" and ?f = "im_features a"
  let ?m = "message_args (map padded ?secs) ?f"
  have u: "unread bs = tlv_wire (mk_tlv 0x0002 (im_value a)) @ rest"
    using assms(4) by (simp add: im_tlvs_def rest_def)
  have v: "length (im_value a) = 4 + length ?f + length (concat (map section_wire ?secs))"
    by (simp add: im_value_def)
  have vl: "length (im_value a) < 65536" using assms(3) by (simp add: im_ok_def)
  have ok: "list_all section_ok ?secs"
    using assms(3) by (simp add: im_ok_def section_ok_def [abs_def])
  have 4: "bs_ok (adv 4 bs)" "unread (adv 4 bs) = [0x05, 0x01] @ aimutil_put16 (of_nat (length ?f)) @ ?f @
       concat (map section_wire ?secs) @ rest"
    using assms(1) u room_wire [OF assms(1) u] by (simp_all add: tlv_wire_def im_value_def)
  have "ch1_message (adv 4 bs) (of_nat (length (im_value a))) zero_ch1_args s =
      Some (adv (4 + length ?f) (adv 4 bs), ?m, s)"
    using vl v by (intro ch1_message_wire [OF 4(1) assms(2) ok im_ok_lens(2) [OF assms(3)] 4(2)]) simp_all
  then have "ch1_tlv 0x0002 (of_nat (length (im_value a))) (adv 4 bs) zero_ch1_args s =
      Some (adv (8 + length ?f) bs, ?m, s)"
    by (simp add: ch1_tlv_def)
  note s1 = ch1_step [OF assms(1) u vl this]
  let ?F = "\<lambda>f. set_flag_if (has_flag (sx_flags a) f) f"
  let ?w = "\<lambda>f t v. chain_wire (flagged a f (mk_tlv t v))"
  have r: "unread (adv (4 + length (im_value a)) bs) = ?w AIM_IMFLAGS_ACK 0x0003 [] @ ?w AIM_IMFLAGS_AWAY 0x0004 [] @
      ?w AIM_IMFLAGS_OFFLINE 0x0006 [] @ ?w AIM_IMFLAGS_HASICON 0x0008 (im_icon a) @ ?w AIM_IMFLAGS_BUDDYREQ 0x0009 [] @ []"
    unfolding s1(3) rest_def im_tlvs_def by simp
  let ?x1 = "?F AIM_IMFLAGS_ACK ?m"
  let ?x2 = "?F AIM_IMFLAGS_AWAY ?x1"
  let ?x3 = "?F AIM_IMFLAGS_OFFLINE ?x2"
  let ?x4 = "icon_args a ?x3"
  let ?x5 = "?F AIM_IMFLAGS_BUDDYREQ ?x4"
  from ch1_flag_step [OF s1(2) r, of ?m s] obtain b2 where 2:
    "ch1_loop (adv (4 + length (im_value a)) bs) ?m s = ch1_loop b2 ?x1 s" "bs_ok b2"
    "unread b2 = ?w AIM_IMFLAGS_AWAY 0x0004 [] @ ?w AIM_IMFLAGS_OFFLINE 0x0006 [] @
      ?w AIM_IMFLAGS_HASICON 0x0008 (im_icon a) @ ?w AIM_IMFLAGS_BUDDYREQ 0x0009 [] @ []" by blast
  from ch1_flag_step [OF 2(2,3), of ?x1 s] obtain b3 where 3:
    "ch1_loop b2 ?x1 s = ch1_loop b3 ?x2 s" "bs_ok b3"
    "unread b3 = ?w AIM_IMFLAGS_OFFLINE 0x0006 [] @ ?w AIM_IMFLAGS_HASICON 0x0008 (im_icon a) @
      ?w AIM_IMFLAGS_BUDDYREQ 0x0009 [] @ []" by blast
  from ch1_flag_step [OF 3(2,3), of ?x2 s] obtain b4 where 4:
    "ch1_loop b3 ?x2 s = ch1_loop b4 ?x3 s" "bs_ok b4"
    "unread b4 = ?w AIM_IMFLAGS_HASICON 0x0008 (im_icon a) @ ?w AIM_IMFLAGS_BUDDYREQ 0x0009 [] @ []" by blast
  from ch1_icon_step [OF 4(2,3), of ?x3 s] obtain b5 where 5:
    "ch1_loop b4 ?x3 s = ch1_loop b5 ?x4 s" "bs_ok b5" "unread b5 = ?w AIM_IMFLAGS_BUDDYREQ 0x0009 [] @ []" by blast
  from ch1_flag_step [OF 5(2,3), of ?x4 s] obtain b6 where 6:
    "ch1_loop b5 ?x4 s = ch1_loop b6 ?x5 s" "bs_ok b6" "unread b6 = []" by blast
  have "ch1_loop bs zero_ch1_args s = Some (b6, ?x5, s)"
    unfolding s1(1) 2(1) 3(1) 4(1) 5(1) 6(1) by (rule ch1_end [OF 6(2,3)])
  then show ?thesis by (simp add: im_received_def Let_def)
qed

lemma get8s_wire:
  "bs_ok bs \<Longrightarrow> unread bs = cs @ rest \<Longrightarrow>
   get8s (length cs) bs = Some (cs, adv (length cs) bs) \<and> bs_ok (adv (length cs) bs) \<and> unread (adv (length cs) bs) = rest"
proof (induction cs arbitrary: bs)
  case (Cons c cs)
  then have u: "unread bs = c # cs @ rest" by simp
  note g = get8_step [OF Cons.prems(1) u]
  from Cons.IH [OF g(2,3)] show ?case by (simp add: g(1))
qed simp

text \<open>A message of the first channel, whatever its elements are.\<close>

lemma im_channel1:
  assumes "bs_ok bs" "mem_ok s" "ui_fits ui" "length cookie = 8"
    "unread bs = cookie @ aimutil_put16 0x0001 @ info_wire ui @ w" "ms_subtype snac = 0x0007"
    "\<And>b. bs_ok b \<Longrightarrow> unread b = w \<Longrightarrow> \<exists>b'. ch1_loop b zero_ch1_args s = Some (b', args, s)"
  shows "\<exists>b. msg_snachandler cl m rx snac bs s =
    call_user cl s (fr_conn rx) (ms_family snac) 0x0007 0 (Some rx)
      [ArgInt 1, ArgUserinfo (read_back ui), ch1_arg args] b"
proof -
  note g1 = get8s_wire [OF assms(1,5), unfolded assms(4)]
  note g2 = get16_step [OF conjunct1 [OF conjunct2 [OF g1]] conjunct2 [OF conjunct2 [OF g1]]]
  have e: "aim_extractuserinfo (adv 2 (adv 8 bs)) s =
      Some (0, read_back ui, adv (length (info_wire ui)) (adv 2 (adv 8 bs)), s)"
    using extract_wire [OF g2(2) assms(2) _ _ _ g2(3)] assms(3) by (simp add: ui_fits_def)
  let ?b = "adv (length (info_wire ui)) (adv 2 (adv 8 bs))"
  have "bs_ok ?b" by (intro bs_ok_adv g2(2) room_wire [OF g2(2,3)])
  moreover have "unread ?b = w" unfolding unread_adv [of _ "adv 2 (adv 8 bs)"] g2(3) by simp
  ultimately obtain b where b: "ch1_loop ?b zero_ch1_args s = Some (b, args, s)"
    using assms(7) [of ?b] by blast
  have "incomingim cl m rx snac bs s = call_user cl s (fr_conn rx) (ms_family snac) 0x0007 0 (Some rx)
      [ArgInt 1, ArgUserinfo (read_back ui), ch1_arg args] b"
    unfolding incomingim_def incomingim_ch1_def
    by (simp only: conjunct1 [OF g1] g2(1) e b bind.bind_lunit prod.case assms(6)) simp
  then show ?thesis using assms(6) by (auto simp: msg_snachandler_def)
qed

text \<open>C30: A message arrives as it was sent: when the elements that sending a message has put on the wire
  follow the cookie, the channel and the user information of the sender, the client is called once
  with that user and the message: all its parts with their texts and character sets, the part that
  stands for it, the features, the icon, and the flags that were set.\<close>

theorem im_delivered:
  assumes "bs_ok bs" "mem_ok s" "ui_fits ui" "im_ok a" "length cookie = 8"
    "unread bs = cookie @ aimutil_put16 0x0001 @ info_wire ui @ chain_wire (im_tlvs a)"
    "ms_subtype snac = 0x0007"
  shows "\<exists>b. msg_snachandler cl m rx snac bs s =
    call_user cl s (fr_conn rx) (ms_family snac) 0x0007 0 (Some rx)
      [ArgInt 1, ArgUserinfo (read_back ui), ch1_arg (im_received a)] b"
  by (rule im_channel1 [OF assms(1-3,5,6,7)]) (rule ch1_loop_im [OF _ assms(2,4)])

lemma zero_user_wire: "info_wire zero_userinfo = [0, 0, 0, 0, 0]" "ui_fits zero_userinfo"
proof -
  have "c_string_of (ui_sn zero_userinfo) = []" by (simp add: zero_userinfo_def c_string_of_def)
  then show "info_wire zero_userinfo = [0, 0, 0, 0, 0]"
    by (simp add: info_wire_def info_tlvs_def opt_def present_defs zero_userinfo_def aimutil_put16_def)
  show "ui_fits zero_userinfo"
    by (simp add: ui_fits_def zero_userinfo_def selected_def aim_caps_def caps_defs)
qed

theorem im_delivered_witness:
  "(\<exists>b. msg_snachandler quiet_client misc_module (demo_frame 2 [] (Some 0))
      \<lparr>ms_family = 4, ms_subtype = 7, ms_flags = 0, ms_id = 0\<rparr>
      (aim_bstream_init [1, 2, 3, 4, 5, 6, 7, 8, 0, 1, 0, 0, 0, 0, 0, 0, 2, 0, 18, 5, 1, 0, 4, 1, 1, 1, 2, 1, 1, 0, 6,
         0, 0, 0, 0, 104, 105, 0, 3, 0, 0] 41) demo_session =
    call_user quiet_client demo_session (Some 0) 4 7 0 (Some (demo_frame 2 [] (Some 0)))
      [ArgInt 1, ArgUserinfo (read_back zero_userinfo), ch1_arg (im_received im_hello)] b) \<and>
    c1_msg (im_received im_hello) = Some [104, 105, 0] \<and> c1_msglen (im_received im_hello) = 2"
proof (intro conjI)
  let ?d = "[1, 2, 3, 4, 5, 6, 7, 8, 0, 1, 0, 0, 0, 0, 0, 0, 2, 0, 18, 5, 1, 0, 4, 1, 1, 1, 2, 1, 1, 0, 6,
         0, 0, 0, 0, 104, 105, 0, 3, 0, 0] :: u8 list"
  have "unread (aim_bstream_init ?d 41) = [1, 2, 3, 4, 5, 6, 7, 8] @ aimutil_put16 0x0001 @
      info_wire zero_userinfo @ chain_wire (im_tlvs im_hello)"
    by (simp add: zero_user_wire im_hello_ok(2) aimutil_put16_def to_u16_def)
  from im_delivered [OF _ _ zero_user_wire(2) im_hello_ok(1) _ this, of demo_session
      "\<lparr>ms_family = 4, ms_subtype = 7, ms_flags = 0, ms_id = 0\<rparr>" quiet_client misc_module "demo_frame 2 [] (Some 0)"]
  show "\<exists>b. msg_snachandler quiet_client misc_module (demo_frame 2 [] (Some 0))
      \<lparr>ms_family = 4, ms_subtype = 7, ms_flags = 0, ms_id = 0\<rparr> (aim_bstream_init ?d 41) demo_session =
    call_user quiet_client demo_session (Some 0) 4 7 0 (Some (demo_frame 2 [] (Some 0)))
      [ArgInt 1, ArgUserinfo (read_back zero_userinfo), ch1_arg (im_received im_hello)] b"
    by (simp add: to_u16_def demo_frame_def)
  show "c1_msg (im_received im_hello) = Some [104, 105, 0]" "c1_msglen (im_received im_hello) = 2"
    by (simp_all add: im_received_def set_flag_if_def icon_args_def message_args_def best_section_def im_sections_def
        padded_def section_text_def object_def im_hello_def im_charset_def im_charsubset_def cstr_def Let_def)
qed

text \<open>A part that ends where its text should begin, and a message of one part and nothing else.\<close>

lemma parts_loop_cut:
  assumes "mem_ok s" "n \<noteq> 0" "w = [1, 1] @ aimutil_put16 (n + 4) @ aimutil_put16 0 @ aimutil_put16 (0 :: u16)"
    "sec = \<lparr>sec_charset = 0, sec_charsubset = 0, sec_data = None, sec_datalen = n\<rparr>"
  shows "parts_loop (aim_bstream_init (w @ x) (int (length w))) aim_mpmsg_init s =
    Some (\<lparr>mp_numparts = int (length [sec]), mp_parts = [sec]\<rparr>, s)"
proof -
  have len: "length w = 8" by (simp add: assms(3))
  let ?b = "aim_bstream_init (w @ x) 8"
  have ok: "bs_ok ?b" using len by simp
  have u: "unread ?b = 1 # 1 # aimutil_put16 (n + 4) @ aimutil_put16 0 @ aimutil_put16 0 @ []"
    using len by (simp add: assms(3))
  note g1 = get8_step [OF ok u]
  note g2 = get8_step [OF g1(2,3), unfolded adv_adv]
  note g3 = get16_step [OF g2(2,3), unfolded adv_adv]
  note g4 = get16_step [OF g3(2,3), unfolded adv_adv]
  note g5 = get16_step [OF g4(2,3), unfolded adv_adv]
  let ?e = "adv (1 + 1 + 2 + 2 + 2) ?b"
  have r: "room ?e = 0" using length_unread [OF g5(2)] g5(3) by simp
  have "0 < uint n" using assms(2) by (metis gr0I of_nat_0_less_iff uint_nat unat_eq_zero)
  then have gs: "aimbs_getstr ?e (uint n) s = Some (None, ?e, s)"
    using getstr_short [of s ?e "uint n"] assms(1) g5(2) r by simp
  have add: "mpmsg_addsection aim_mpmsg_init 0 0 None n s = (0, \<lparr>mp_numparts = 1, mp_parts = [sec]\<rparr>, s)"
    using assms(1) by (simp add: mpmsg_addsection_def aim_mpmsg_init_def assms(4))
  have fin: "parts_loop ?e m s = Some (m, s)" for m
    using g5(2) r by (subst parts_loop.simps) (simp add: empty_eq)
  have ne: "aim_bstream_empty ?b \<noteq> 0" using len by (simp add: aim_bstream_empty_def)
  have k: "n + 4 - 4 = n" by simp
  show ?thesis unfolding len of_nat_numeral
    by (subst parts_loop.simps)
      (simp only: ne if_False g1(1) g2(1) g3(1) g4(1) g5(1) k gs add fin Let_def bind.bind_lunit prod.case, simp)
qed

lemma ch1_loop_message:
  assumes "bs_ok b" "unread b = tlv_wire (mk_tlv 0x0002 ([5, 1, 0, 0] @ w))" "length w \<le> 1000"
    "\<And>x. parts_loop (aim_bstream_init (w @ x) (int (length w))) aim_mpmsg_init s =
      Some (\<lparr>mp_numparts = int (length secs), mp_parts = secs\<rparr>, s)" "secs \<noteq> []"
  shows "\<exists>b'. ch1_loop b zero_ch1_args s = Some (b', message_args secs [], s)"
proof -
  let ?v = "[5, 1, 0, 0] @ w"
  have u: "unread b = tlv_wire (mk_tlv 0x0002 ?v) @ []" using assms(2) by simp
  have 4: "bs_ok (adv 4 b)" using assms(1,3) room_wire [OF assms(1) u] by (simp add: tlv_wire_def)
  have u4: "unread (adv 4 b) = [0x05, 0x01] @ aimutil_put16 (of_nat (length ([] :: u8 list))) @ [] @ w @ []"
    by (simp add: assms(2) tlv_wire_def aimutil_put16_def [of 0])
  have "ch1_message (adv 4 b) (of_nat (4 + length ([] :: u8 list) + length w)) zero_ch1_args s =
      Some (adv (4 + length ([] :: u8 list)) (adv 4 b), message_args secs [], s)"
    by (rule ch1_message_parts [OF 4 _ u4 refl _ assms(4)]) (use assms(3,5) in simp_all)
  then have "ch1_tlv 0x0002 (of_nat (length ?v)) (adv 4 b) zero_ch1_args s = Some (adv 8 b, message_args secs [], s)"
    by (simp add: ch1_tlv_def)
  note s1 = ch1_step [OF assms(1) u _ this]
  from s1(1) ch1_end [OF s1(2,3)] assms(3) show ?thesis by auto
qed

text \<open>C32: A part whose text is not there: when the message element ends where the text of its only part should
  begin, the client is called with a part that has a null pointer for its text and the length that
  was claimed, and with that pointer and length as the message itself.\<close>

theorem im_part_missing:
  assumes "bs_ok bs" "mem_ok s" "ui_fits ui" "length cookie = 8" "n \<noteq> 0" "ms_subtype snac = 0x0007"
    "unread bs = cookie @ aimutil_put16 0x0001 @ info_wire ui @
       tlv_wire (mk_tlv 0x0002 ([5, 1, 0, 0, 1, 1] @ aimutil_put16 (n + 4) @ aimutil_put16 0 @ aimutil_put16 0))"
  shows "\<exists>b args. msg_snachandler cl m rx snac bs s =
      call_user cl s (fr_conn rx) (ms_family snac) 0x0007 0 (Some rx) [ArgInt 1, ArgUserinfo (read_back ui), ch1_arg args] b \<and>
    mp_parts (c1_mpmsg args) = [\<lparr>sec_charset = 0, sec_charsubset = 0, sec_data = None, sec_datalen = n\<rparr>] \<and>
    c1_msg args = None \<and> c1_msglen args = uint n"
proof -
  define w where "w = [1, 1] @ aimutil_put16 (n + 4) @ aimutil_put16 0 @ aimutil_put16 (0 :: u16)"
  define sec where "sec = \<lparr>sec_charset = 0, sec_charsubset = 0, sec_data = (None :: u8 list option), sec_datalen = n\<rparr>"
  have len: "length w \<le> 1000" by (simp add: w_def)
  have u: "unread bs = cookie @ aimutil_put16 0x0001 @ info_wire ui @ tlv_wire (mk_tlv 0x0002 ([5, 1, 0, 0] @ w))"
    using assms(7) by (simp add: w_def)
  from im_channel1 [OF assms(1-4) u assms(6) ch1_loop_message [OF _ _ len parts_loop_cut [OF assms(2,5) w_def sec_def]]] obtain b where
    "msg_snachandler cl m rx snac bs s = call_user cl s (fr_conn rx) (ms_family snac) 0x0007 0 (Some rx)
      [ArgInt 1, ArgUserinfo (read_back ui), ch1_arg (message_args [sec] [])] b" by blast
  then show ?thesis
    by (intro exI [of _ b] exI [of _ "message_args [sec] []"])
      (simp add: message_args_def best_section_def sec_def Let_def)
qed

theorem im_part_missing_witness:
  "\<exists>b args. msg_snachandler quiet_client misc_module (demo_frame 2 [] (Some 0))
      \<lparr>ms_family = 4, ms_subtype = 7, ms_flags = 0, ms_id = 0\<rparr>
      (aim_bstream_init [1, 2, 3, 4, 5, 6, 7, 8, 0, 1, 0, 0, 0, 0, 0, 0, 2, 0, 12, 5, 1, 0, 0, 1, 1, 0, 13,
         0, 0, 0, 0] 31) demo_session =
      call_user quiet_client demo_session (Some 0) 4 7 0 (Some (demo_frame 2 [] (Some 0)))
        [ArgInt 1, ArgUserinfo (read_back zero_userinfo), ch1_arg args] b \<and>
    mp_parts (c1_mpmsg args) = [\<lparr>sec_charset = 0, sec_charsubset = 0, sec_data = None, sec_datalen = 9\<rparr>] \<and>
    c1_msg args = None \<and> c1_msglen args = 9"
proof -
  let ?d = "[1, 2, 3, 4, 5, 6, 7, 8, 0, 1, 0, 0, 0, 0, 0, 0, 2, 0, 12, 5, 1, 0, 0, 1, 1, 0, 13, 0, 0, 0, 0] :: u8 list"
  have u: "unread (aim_bstream_init ?d 31) = [1, 2, 3, 4, 5, 6, 7, 8] @ aimutil_put16 0x0001 @
      info_wire zero_userinfo @ tlv_wire (mk_tlv 0x0002 ([5, 1, 0, 0, 1, 1] @ aimutil_put16 (9 + 4) @
        aimutil_put16 0 @ aimutil_put16 0))"
    by (simp add: zero_user_wire tlv_wire_def aimutil_put16_def to_u16_def)
  have ok: "bs_ok (aim_bstream_init ?d 31)" by (simp add: to_u16_def)
  show ?thesis
    using im_part_missing [OF ok _ zero_user_wire(2) _ _ _ u, of demo_session
        "\<lparr>ms_family = 4, ms_subtype = 7, ms_flags = 0, ms_id = 0\<rparr>" quiet_client misc_module "demo_frame 2 [] (Some 0)"]
    by (simp add: demo_frame_def)
qed

end
