(* ===== verification/Proxy.thy ===== *)
theory Proxy
  imports Connlife
begin

text \<open>
  What a connection through a SOCKS5 proxy says and takes (\<^verbatim>\<open>aim_proxyconnect\<close> and
  \<^verbatim>\<open>aim_newconn\<close> of \<^verbatim>\<open>src/conn.c\<close>), in the terms of RFC 1928 and RFC 1929.
\<close>

text \<open>The host and port of a destination.\<close>

definition dest_host :: "cstring \<Rightarrow> cstring" where
  "dest_host dest = takeWhile (\<lambda>b. b \<noteq> 58) dest"

definition dest_port :: "u16 \<Rightarrow> cstring \<Rightarrow> u16" where
  "dest_port d dest = (if 58 \<in> set dest then word_of_int (c_atoi (drop (length (dest_host dest) + 1) dest)) else d)"

text \<open>What an exchange leaves: the message is out and the reply is taken off the input.\<close>

definition exchanged :: "int \<Rightarrow> u8 list \<Rightarrow> recv_event list \<Rightarrow> aim_session \<Rightarrow> aim_session" where
  "exchanged fd msg evs s = s\<lparr>os_out := (os_out s)(fd := os_out s fd @ msg), os_in := (os_in s)(fd := evs)\<rparr>"

lemma exchanged_sel [simp]:
  "os_send (exchanged fd msg evs s) = os_send s" "os_in (exchanged fd msg evs s) fd = evs"
  "socks_username (exchanged fd msg evs s) = socks_username s"
  "socks_password (exchanged fd msg evs s) = socks_password s"
  "exchanged fd msg' evs' (exchanged fd msg evs s) = exchanged fd (msg @ msg') evs' s"
  by (simp_all add: exchanged_def)

lemma exchange_ok:
  assumes "os_send s fd = []" "os_in s fd = RecvChunk (reply @ tail) # evs" "length reply = n" "good reply"
  shows "socks_exchange fd msg n good s =
    (Inr reply, exchanged fd msg (if tail = [] then evs else RecvChunk tail # evs) s)"
  using assms by (auto simp: socks_exchange_def os_sendbuf_def os_recv_def exchanged_def)

lemma dialogue_ok:
  assumes "os_send s fd = []" "buf_string (socks_username s) = Some user" "buf_string (socks_password s) = Some pass"
    "m \<noteq> 0xff" "length host \<le> 505" "length reply = 8"
    "os_in s fd = RecvChunk [5, m] # (if m = 2 then [RecvChunk [1, 0]] else []) @ RecvChunk ([5, 0] @ reply @ tail) # rest"
  shows "socks_dialogue fd host port st s = Some (fd, st, exchanged fd
     (socks_methods user @ (if m = 2 then socks_userpass user pass else []) @ socks_connect host port)
     (if tail = [] then rest else RecvChunk tail # rest) s)"
proof -
  let ?e1 = "(if m = 2 then [RecvChunk [1, 0]] else []) @ RecvChunk ([5, 0] @ reply @ tail) # rest"
  let ?e2 = "RecvChunk ([5, 0] @ reply @ tail) # rest"
  let ?s1 = "exchanged fd (socks_methods user) ?e1 s"
  define s2 where "s2 = (if m = 2 then exchanged fd (socks_userpass user pass) ?e2 ?s1 else ?s1)"
  have 1: "socks_exchange fd (socks_methods user) 2 (\<lambda>r. r ! 0 = 5 \<and> r ! 1 \<noteq> 0xff) s = (Inr [5, m], ?s1)"
    using exchange_ok [of s fd "[5, m]" "[]" ?e1 2] assms(1,4,7) by simp
  have 2: "socks_exchange fd (socks_userpass user pass) 2 (\<lambda>r. r ! 0 = 1 \<and> r ! 1 = 0) ?s1 = (Inr [1, 0], s2)" if "m = 2"
    using exchange_ok [of ?s1 fd "[1, 0]" "[]" ?e2 2] assms(1) that by (simp add: s2_def)
  have s2: "os_send s2 fd = []" "os_in s2 fd = RecvChunk (([5, 0] @ reply) @ tail) # rest"
    using assms(1) by (simp_all add: s2_def)
  have 3: "socks_exchange fd (socks_connect host port) 10 (\<lambda>r. r ! 0 = 5 \<and> r ! 1 = 0) s2 =
      (Inr ([5, 0] @ reply), exchanged fd (socks_connect host port) (if tail = [] then rest else RecvChunk tail # rest) s2)"
    using exchange_ok [OF s2, of 10] assms(6) by simp
  have "length (socks_connect host port) \<le> 512" using assms(5) by (simp add: socks_connect_def)
  then show ?thesis
    using assms(2,3) 1 2 3 by (auto simp: socks_dialogue_def s2_def)
qed

lemma dest_fold:
  "(if 58 \<in> set dest then word_of_int (c_atoi (drop (length (dest_host dest) + 1) dest)) else d) = dest_port d dest"
  "takeWhile (\<lambda>b. b \<noteq> 58) dest = dest_host dest"
  by (simp_all add: dest_port_def dest_host_def)

lemma proxyconnect_ok:
  assumes "buf_string (socks_server s) = Some server" "server \<noteq> []" "mem_ok s"
    "ne_resolve ne (dest_host server) = Some addr" "ne_connect ne addr (dest_port 1080 server) = (0, e)"
  shows "aim_proxyconnect ne s host port st = socks_dialogue (ne_socket ne) host port st s"
  using assms by (simp add: aim_proxyconnect_def dest_fold malloc_ok Let_def
      split del: if_split)

text \<open>C14: a connection made while a proxy is set goes to the proxy, at its own port or 1080. It offers
  the methods of RFC 1928, a name and password only when there is a name, gives them as
  RFC 1929 says when the proxy chooses so, and asks for the host by its name and the port of the
  destination, or 5190. When the proxy agrees, the new connection has the socket and is ready.
  Ten bytes of the last reply are taken: what a longer reply has beyond them stays in the input.\<close>

theorem newconn_through_proxy:
  assumes "mem_ok s" "buf_string (socks_server s) = Some server" "server \<noteq> []"
    "buf_string (socks_username s) = Some user" "buf_string (socks_password s) = Some pass"
    "ne_resolve ne (dest_host server) = Some addr" "ne_connect ne addr (dest_port 1080 server) = (0, e)"
    "0 \<le> ne_socket ne" "os_send s (ne_socket ne) = []" "m \<noteq> 0xff" "length (dest_host dest) \<le> 505" "length reply = 8"
    "os_in s (ne_socket ne) = RecvChunk [5, m] # (if m = 2 then [RecvChunk [1, 0]] else []) @
       RecvChunk ([5, 0] @ reply @ tail) # rest"
  shows "\<exists>s' c. aim_newconn ne s type (Some dest) = Some (Some (next_addr s), s') \<and>
    connlist s' = next_addr s # connlist s \<and> conns s' (next_addr s) = Some c \<and>
    conn_type c = word_of_int type \<and> conn_fd c = ne_socket ne \<and> conn_status c = 0 \<and>
    os_out s' (ne_socket ne) = os_out s (ne_socket ne) @
      (if user = [] then [5, 1, 0] else [5, 2, 0, 2]) @
      (if m = 2 then [1, of_nat (length user)] @ user @ [of_nat (length pass)] @ pass else []) @
      [5, 1, 0, 3, of_nat (length (dest_host dest))] @ dest_host dest @ aimutil_put16 (dest_port 5190 dest) \<and>
    os_in s' (ne_socket ne) = (if tail = [] then rest else RecvChunk tail # rest)"
proof -
  let ?a = "next_addr s" and ?fd = "ne_socket ne" and ?host = "dest_host dest" and ?port = "dest_port 5190 dest"
  define c where "c = (aim_conn_init (zero_conn\<lparr>conn_inside := Some \<lparr>in_groups = [], in_rates = []\<rparr>\<rparr>))
       \<lparr>conn_sessv := True, conn_type := word_of_int type\<rparr>"
  have c: "conn_status c = 0" by (simp add: c_def aim_conn_init_def zero_conn_def)
  define t where "t = put_conn ?a c (s\<lparr>next_addr := Suc ?a, connlist := ?a # connlist s\<rparr>)"
  have t: "mem_ok t" "socks_server t = socks_server s" "socks_username t = socks_username s"
    "socks_password t = socks_password s" "os_send t = os_send s" "os_in t = os_in s" "os_out t = os_out s"
    using assms(1) by (simp_all add: t_def put_conn_def)
  let ?msg = "socks_methods user @ (if m = 2 then socks_userpass user pass else []) @ socks_connect ?host ?port"
  let ?evs = "if tail = [] then rest else RecvChunk tail # rest"
  have "aim_proxyconnect ne t ?host ?port 0 = socks_dialogue ?fd ?host ?port 0 t"
    using proxyconnect_ok [of t server ne addr e] assms t by simp
  also have "\<dots> = Some (?fd, 0, exchanged ?fd ?msg ?evs t)"
    using dialogue_ok [of t ?fd user pass m ?host reply tail rest ?port 0] assms t by simp
  finally have px: "aim_proxyconnect ne t ?host ?port 0 = Some (?fd, 0, exchanged ?fd ?msg ?evs t)" .
  have "aim_newconn ne s type (Some dest) =
      Some (Some ?a, put_conn ?a (c\<lparr>conn_fd := ?fd, conn_status := 0\<rparr>) (exchanged ?fd ?msg ?evs t))"
    using assms(1,8) px [unfolded t_def c_def] c [unfolded c_def]
    by (simp add: aim_newconn_def getnext_ok malloc_ok Let_def dest_fold
        FAIM_LOGIN_PORT_def t_def c_def split del: if_split)
  then show ?thesis
    using t by (auto simp: exchanged_def t_def c_def socks_methods_def socks_userpass_def socks_connect_def put_conn_def)
qed

text \<open>A session with a proxy, on a system where everything resolves to one address.\<close>

definition proxy_session :: "recv_event list \<Rightarrow> aim_session" where
  "proxy_session evs = (session0 9)\<lparr>os_in := (\<lambda>fd. if fd = 4 then evs else []),
     socks_server := c_strncpy (cstr ''px:99'') 128, socks_username := c_strncpy (cstr ''joe'') 128,
     socks_password := c_strncpy (cstr ''pw'') 128\<rparr>"

definition proxy_network :: netenv where
  "proxy_network = no_network\<lparr>ne_resolve := (\<lambda>_. Some [10, 0, 0, 1]), ne_socket := 4, ne_connect := (\<lambda>_ _. (0, 0))\<rparr>"

theorem newconn_through_proxy_witness:
  "\<exists>s' c. aim_newconn proxy_network
      (proxy_session [RecvChunk [5, 2], RecvChunk [1, 0], RecvChunk [5, 0, 0, 1, 10, 0, 0, 2, 20, 70]]) 2 (Some (cstr ''oscar'')) =
        Some (Some 0, s') \<and> conns s' 0 = Some c \<and> conn_fd c = 4 \<and> os_in s' 4 = [] \<and>
      os_out s' 4 = [5, 2, 0, 2, 1, 3] @ cstr ''joe'' @ [2] @ cstr ''pw'' @ [5, 1, 0, 3, 5] @ cstr ''oscar'' @ [20, 70]"
proof -
  let ?s = "proxy_session [RecvChunk [5, 2], RecvChunk [1, 0], RecvChunk [5, 0, 0, 1, 10, 0, 0, 2, 20, 70]]"
  have s: "mem_ok ?s" "next_addr ?s = 0" "os_send ?s 4 = []" "os_out ?s 4 = []"
    "os_in ?s 4 = [RecvChunk [5, 2], RecvChunk [1, 0], RecvChunk [5, 0, 0, 1, 10, 0, 0, 2, 20, 70]]"
    "buf_string (socks_server ?s) = Some (cstr ''px:99'')" "buf_string (socks_username ?s) = Some (cstr ''joe'')"
    "buf_string (socks_password ?s) = Some (cstr ''pw'')"
    by (simp_all add: proxy_session_def buf_string_strncpy cstr_def session0_def mem_ok_def)
  have n: "ne_socket proxy_network = 4" "\<And>h. ne_resolve proxy_network h = Some [10, 0, 0, 1]"
    "\<And>h p. ne_connect proxy_network h p = (0, 0)"
    by (simp_all add: proxy_network_def)
  have d: "dest_host (cstr ''oscar'') = cstr ''oscar''" "dest_port 5190 (cstr ''oscar'') = 5190"
    by (simp_all add: dest_host_def dest_port_def cstr_def)
  show ?thesis
    using newconn_through_proxy [OF s(1,6) _ s(7,8) n(2,3) _ _, of 2 "cstr ''oscar''" "[0, 1, 10, 0, 0, 2, 20, 70]" "[]" "[]" 2]
      s n(1) d by (auto simp: cstr_def aimutil_put16_def)
qed

end
