(* ===== verification/Select.thy ===== *)
theory Select
  imports Txqueue
begin

text \<open>
  Waiting for something to do: \<^verbatim>\<open>aim_select\<close> of \<^verbatim>\<open>src/conn.c\<close>. The system call
  \<^verbatim>\<open>select\<close> is an argument: from the highest descriptor plus one and the two sets it makes
  its result, the value of \<^verbatim>\<open>errno\<close> and the two sets of ready descriptors.
\<close>

record select_result =
  sel_result :: int
  sel_errno :: int
  sel_readable :: "int list"
  sel_writable :: "int list"

type_synonym os_select = "int \<Rightarrow> int list \<Rightarrow> int list \<Rightarrow> select_result"

definition FD_SETSIZE :: int where "FD_SETSIZE = 1024"

text \<open>
  The first loop ends early at a connection without a socket (\<open>Inl\<close>), or has the sets, the highest
  descriptor and the number of connections in progress. A descriptor that is too large for a set
  makes \<^verbatim>\<open>FD_SET\<close> write outside of it.
\<close>

primrec select_sets ::
  "aim_session \<Rightarrow> nat list \<Rightarrow> int list \<Rightarrow> int list \<Rightarrow> int \<Rightarrow> int
   \<Rightarrow> (nat + int list \<times> int list \<times> int \<times> int) option" where
  "select_sets s [] fds wfds maxfd haveconnecting = Some (Inr (fds, wfds, maxfd, haveconnecting))"
| "select_sets s (a # as) fds wfds maxfd haveconnecting = do {
     cur \<leftarrow> conns s a;
     if conn_fd cur = -1 then Some (Inl a)
     else if \<not> (0 \<le> conn_fd cur \<and> conn_fd cur < FD_SETSIZE) then None
     else let connecting = conn_inprogress cur
          in select_sets s as (conn_fd cur # fds) (if connecting then conn_fd cur # wfds else wfds)
               (if conn_fd cur > maxfd then conn_fd cur else maxfd)
               (if connecting then haveconnecting + 1 else haveconnecting)
   }"

definition select_ready :: "select_result \<Rightarrow> aim_conn \<Rightarrow> bool" where
  "select_ready r cur \<longleftrightarrow>
     conn_fd cur \<in> set (sel_readable r) \<or> conn_inprogress cur \<and> conn_fd cur \<in> set (sel_writable r)"

text \<open>The connection with something to do, and the status.\<close>

definition aim_select :: "os_select \<Rightarrow> aim_session \<Rightarrow> (nat option \<times> int \<times> aim_session) option" where
  "aim_select select s =
     (if connlist s = [] then Some (None, -1, s)
      else do {
        st \<leftarrow> select_sets s (connlist s) [] [] 0 0;
        case st of
          Inl a \<Rightarrow> Some (Some a, 2, s)
        | Inr (fds, wfds, maxfd, haveconnecting) \<Rightarrow>
            (if haveconnecting = 0 \<and> queue_outgoing s \<noteq> [] then Some (None, 1, s)
             else let r = select (maxfd + 1) fds wfds; i = sel_result r; s = s\<lparr>os_errno := sel_errno r\<rparr>
                  in if i \<ge> 1 then do {
                       cur \<leftarrow> conn_walk (\<lambda>c. Some (select_ready r c)) s (connlist s);
                       case cur of Some a \<Rightarrow> Some (Some a, 2, s) | None \<Rightarrow> Some (None, 0, s)
                     }
                     else if i = -1 \<and> os_errno s = EINTR then Some (None, 0, s)
                     else Some (None, i, s))
      })"

section \<open>What is reported\<close>

definition conn_socket :: "aim_session \<Rightarrow> nat \<Rightarrow> int" where
  "conn_socket s a = conn_fd (the (conns s a))"

definition connecting :: "aim_session \<Rightarrow> nat \<Rightarrow> bool" where
  "connecting s a = conn_inprogress (the (conns s a))"

text \<open>Sockets that a set of descriptors can hold.\<close>

definition fds_ok :: "aim_session \<Rightarrow> bool" where
  "fds_ok s \<longleftrightarrow> (\<forall>a \<in> set (connlist s). - 1 \<le> conn_socket s a \<and> conn_socket s a < FD_SETSIZE)"

lemma select_sets_eq:
  assumes "\<And>a. a \<in> set as \<Longrightarrow> conns s a \<noteq> None \<and> -1 \<le> conn_socket s a \<and> conn_socket s a < FD_SETSIZE"
  shows "select_sets s as fds wfds m h =
    Some (case find (\<lambda>a. conn_socket s a = -1) as of
            Some a \<Rightarrow> Inl a
          | None \<Rightarrow> Inr (rev (map (conn_socket s) as) @ fds,
                          rev (map (conn_socket s) (filter (connecting s) as)) @ wfds,
                          foldl max m (map (conn_socket s) as),
                          h + int (length (filter (connecting s) as))))"
  using assms
proof (induction as arbitrary: fds wfds m h)
  case (Cons a as)
  then obtain c where "conns s a = Some c" by fastforce
  with Cons.prems [of a] Cons.IH Cons.prems show ?case
    by (auto simp: conn_socket_def connecting_def max_def Let_def split: option.split)
qed simp

text \<open>The sets, newest connection last, and what the system call makes of them.\<close>

definition asked :: "os_select \<Rightarrow> aim_session \<Rightarrow> select_result" where
  "asked select s =
     select (foldl max 0 (map (conn_socket s) (connlist s)) + 1)
       (rev (map (conn_socket s) (connlist s)))
       (rev (map (conn_socket s) (filter (connecting s) (connlist s))))"

definition dead_conn :: "aim_session \<Rightarrow> nat option" where
  "dead_conn s = first_conn (\<lambda>c. conn_fd c = -1) s"

lemma select_eq:
  assumes "conns_ok s" "fds_ok s" "connlist s \<noteq> []"
  shows "aim_select select s = Some
    (case dead_conn s of
       Some a \<Rightarrow> (Some a, 2, s)
     | None \<Rightarrow>
         (if queue_outgoing s \<noteq> [] \<and> filter (connecting s) (connlist s) = [] then (None, 1, s)
          else let r = asked select s; s' = s\<lparr>os_errno := sel_errno r\<rparr>
               in if sel_result r \<ge> 1
                  then case first_conn (select_ready r) s of Some a \<Rightarrow> (Some a, 2, s') | None \<Rightarrow> (None, 0, s')
                  else (None, if sel_result r = -1 \<and> sel_errno r = EINTR then 0 else sel_result r, s')))"
proof -
  have live: "\<exists>c. conns s a = Some c" if "a \<in> set (connlist s)" for a
    using assms(1) that by (auto dest: conns_okD(1))
  have sets: "select_sets s (connlist s) [] [] 0 0 =
    Some (case find (\<lambda>a. conn_socket s a = -1) (connlist s) of
            Some a \<Rightarrow> Inl a
          | None \<Rightarrow> Inr (rev (map (conn_socket s) (connlist s)),
                          rev (map (conn_socket s) (filter (connecting s) (connlist s))),
                          foldl max 0 (map (conn_socket s) (connlist s)),
                          int (length (filter (connecting s) (connlist s)))))"
    using assms(2) live by (subst select_sets_eq) (auto simp: fds_ok_def split: option.split)
  have walk: "conn_walk (\<lambda>c. Some (P c)) (s\<lparr>os_errno := e\<rparr>) (connlist s) = Some (first_conn P s)" for P e
    unfolding first_conn_def by (subst conn_walk_first) (auto dest: live)
  have "dead_conn s = find (\<lambda>a. conn_socket s a = -1) (connlist s)"
    by (simp add: dead_conn_def first_conn_def conn_socket_def)
  then show ?thesis
    using assms(3) by (auto simp: aim_select_def sets walk Let_def asked_def split: option.split)
qed

text \<open>What \<^verbatim>\<open>select\<close> promises: ready descriptors are among those asked for, and there is one if it says so.\<close>

definition select_contract :: "os_select \<Rightarrow> bool" where
  "select_contract select \<longleftrightarrow>
     (\<forall>n rd wr. -1 \<le> sel_result (select n rd wr) \<and>
        set (sel_readable (select n rd wr)) \<subseteq> set rd \<and> set (sel_writable (select n rd wr)) \<subseteq> set wr \<and>
        (1 \<le> sel_result (select n rd wr) \<longrightarrow>
           sel_readable (select n rd wr) \<noteq> [] \<or> sel_writable (select n rd wr) \<noteq> []))"

lemma select_contractD:
  assumes "select_contract select"
  shows "-1 \<le> sel_result (select n rd wr)"
    "set (sel_readable (select n rd wr)) \<subseteq> set rd" "set (sel_writable (select n rd wr)) \<subseteq> set wr"
    "1 \<le> sel_result (select n rd wr) \<Longrightarrow>
       sel_readable (select n rd wr) \<noteq> [] \<or> sel_writable (select n rd wr) \<noteq> []"
  using assms unfolding select_contract_def by blast+

lemma first_conn_exists: "a \<in> set (connlist s) \<Longrightarrow> P (the (conns s a)) \<Longrightarrow> first_conn P s \<noteq> None"
  by (auto simp: first_conn_None)

lemma ready_found:
  assumes "select_contract select" "1 \<le> sel_result (asked select s)"
  shows "first_conn (select_ready (asked select s)) s \<noteq> None"
proof -
  let ?r = "asked select s"
  have sub: "set (sel_readable ?r) \<subseteq> conn_socket s ` set (connlist s)"
    unfolding asked_def by (rule order_trans [OF select_contractD(2) [OF assms(1)]]) simp
  have sub': "set (sel_writable ?r) \<subseteq> conn_socket s ` {a \<in> set (connlist s). connecting s a}"
    unfolding asked_def by (rule order_trans [OF select_contractD(3) [OF assms(1)]]) simp
  have some: "sel_readable ?r \<noteq> [] \<or> sel_writable ?r \<noteq> []"
    using assms(2) unfolding asked_def by (rule select_contractD(4) [OF assms(1)])
  have "\<exists>a \<in> set (connlist s). select_ready ?r (the (conns s a))"
    using some
  proof
    assume "sel_readable ?r \<noteq> []"
    then have "hd (sel_readable ?r) \<in> set (sel_readable ?r)" by simp
    then show ?thesis using sub by (fastforce simp: select_ready_def conn_socket_def)
  next
    assume "sel_writable ?r \<noteq> []"
    then have "hd (sel_writable ?r) \<in> set (sel_writable ?r)" by simp
    then show ?thesis using sub' by (fastforce simp: select_ready_def conn_socket_def connecting_def)
  qed
  then show ?thesis using first_conn_exists by blast
qed

text \<open>A connection that has lost its socket, and frames that wait while no connection is being opened.\<close>

definition some_dead :: "aim_session \<Rightarrow> bool" where
  "some_dead s \<longleftrightarrow> (\<exists>a \<in> set (connlist s). conn_socket s a = -1)"

definition frames_first :: "aim_session \<Rightarrow> bool" where
  "frames_first s \<longleftrightarrow> queue_outgoing s \<noteq> [] \<and> (\<forall>a \<in> set (connlist s). \<not> connecting s a)"

text \<open>C15: waiting reports exactly what there is. With sockets that fit into a descriptor set and a
  \<^verbatim>\<open>select\<close> that keeps its contract, \<^verbatim>\<open>aim_select\<close> always returns, and changes nothing but the
  error number; a connection comes back exactly with status 2, which is when one of the list has
  lost its socket (then that is the one) or the system call says that one is ready (then it is
  a ready one of the list). Frames that wait are reported (status 1) exactly when every connection
  has a socket and none is still connecting, before the system call is made. Otherwise the status
  is 0 exactly when time ran out or the call failed because a signal came, and -1 exactly when it
  failed for another reason. The branch the code calls impossible is.
\<close>

theorem select_reports:
  assumes "conns_ok s" "fds_ok s" "connlist s \<noteq> []" "select_contract select"
  shows "\<exists>c status s'. aim_select select s = Some (c, status, s') \<and>
    (s' = s \<or> s' = s\<lparr>os_errno := sel_errno (asked select s)\<rparr>) \<and>
    (status = 2 \<longleftrightarrow> c \<noteq> None) \<and>
    (\<forall>a. c = Some a \<longrightarrow> a \<in> set (connlist s) \<and>
       (if some_dead s then conn_socket s a = -1
        else select_ready (asked select s) (the (conns s a)))) \<and>
    (status = 2 \<longleftrightarrow> some_dead s \<or> \<not> frames_first s \<and> 1 \<le> sel_result (asked select s)) \<and>
    (status = 1 \<longleftrightarrow> \<not> some_dead s \<and> frames_first s) \<and>
    (status = 0 \<longleftrightarrow> \<not> some_dead s \<and> \<not> frames_first s \<and>
       (sel_result (asked select s) = 0 \<or>
        sel_result (asked select s) = -1 \<and> sel_errno (asked select s) = EINTR)) \<and>
    (status = -1 \<longleftrightarrow> \<not> some_dead s \<and> \<not> frames_first s \<and>
       sel_result (asked select s) = -1 \<and> sel_errno (asked select s) \<noteq> EINTR) \<and>
    status \<in> {-1, 0, 1, 2}"
proof -
  let ?r = "asked select s"
  have low: "-1 \<le> sel_result ?r" using select_contractD(1) [OF assms(4)] by (simp add: asked_def)
  have live: "\<exists>c. conns s a = Some c \<and> P c \<and> a \<in> set (connlist s)" if "first_conn P s = Some a" for P a
    by (rule first_conn_Some [OF assms(1) that])
  have none: "some_dead s \<longleftrightarrow> dead_conn s \<noteq> None"
    by (auto simp: some_dead_def dead_conn_def first_conn_None conn_socket_def)
  have first: "frames_first s \<longleftrightarrow> queue_outgoing s \<noteq> [] \<and> filter (connecting s) (connlist s) = []"
    by (auto simp: frames_first_def filter_empty_conv)
  note eq = select_eq [OF assms(1-3)]
  consider (dead) a where "dead_conn s = Some a"
    | (frames) "dead_conn s = None" "queue_outgoing s \<noteq> []" "filter (connecting s) (connlist s) = []"
    | (ready) a where "dead_conn s = None" "queue_outgoing s = [] \<or> filter (connecting s) (connlist s) \<noteq> []"
        "1 \<le> sel_result ?r" "first_conn (select_ready ?r) s = Some a"
    | (quiet) "dead_conn s = None" "queue_outgoing s = [] \<or> filter (connecting s) (connlist s) \<noteq> []"
        "sel_result ?r < 1"
    using ready_found [OF assms(4), of s] by fastforce
  then show ?thesis
  proof cases
    case dead
    then have "a \<in> set (connlist s) \<and> conn_socket s a = -1"
      using live [of _ a] by (auto simp: dead_conn_def conn_socket_def dest: live)
    then show ?thesis using eq dead none by auto
  next
    case frames
    then show ?thesis using eq none by (auto simp: first)
  next
    case ready
    then show ?thesis using eq none live [OF ready(4)] by (auto simp: first Let_def)
  next
    case quiet
    then show ?thesis using eq none low by (auto simp: first Let_def)
  qed
qed

text \<open>Two connections, the newer still connecting, and a frame that waits; the older becomes readable.\<close>

definition waiting_session :: aim_session where
  "waiting_session = demo_session\<lparr>
     conns := [0 \<mapsto> demo_conn 5, 1 \<mapsto> (demo_conn 6)\<lparr>conn_status := AIM_CONN_STATUS_INPROGRESS\<rparr>],
     connlist := [1, 0], next_addr := 2, queue_outgoing := [demo_frame 2 [1] (Some 0)]\<rparr>"

definition readable_5 :: os_select where
  "readable_5 n rd wr =
     \<lparr>sel_result = (if 5 \<in> set rd then 1 else 0), sel_errno = 0,
      sel_readable = (if 5 \<in> set rd then [5] else []), sel_writable = []\<rparr>"

theorem select_reports_witness:
  "\<exists>s'. aim_select readable_5 waiting_session = Some (Some 0, 2, s')"
proof -
  have hyp: "conns_ok waiting_session" "fds_ok waiting_session" "connlist waiting_session = [1, 0]"
    "conn_socket waiting_session 0 = 5" "conn_socket waiting_session 1 = 6"
    "\<not> connecting waiting_session 0" "connecting waiting_session 1"
    by (auto simp: waiting_session_def conns_ok_def fds_ok_def conn_socket_def connecting_def demo_conn_def
        aim_conn_init_def zero_conn_def conn_inprogress_def AIM_CONN_STATUS_INPROGRESS_def FD_SETSIZE_def)
  have contract: "select_contract readable_5" by (simp add: select_contract_def readable_5_def)
  have asked: "asked readable_5 waiting_session =
      \<lparr>sel_result = 1, sel_errno = 0, sel_readable = [5], sel_writable = []\<rparr>"
    by (simp add: asked_def readable_5_def hyp)
  have "connlist waiting_session \<noteq> []" by (simp add: hyp)
  note reports = select_reports [OF hyp(1,2) this contract]
  have ready: "\<not> some_dead waiting_session" "\<not> frames_first waiting_session"
    "1 \<le> sel_result (asked readable_5 waiting_session)"
    using hyp by (simp_all add: some_dead_def frames_first_def asked)
  from reports ready obtain c status s' where run: "aim_select readable_5 waiting_session = Some (c, status, s')"
    and st: "status = 2" and "c \<noteq> None"
    and which: "\<forall>a. c = Some a \<longrightarrow> a \<in> set (connlist waiting_session) \<and>
       select_ready (asked readable_5 waiting_session) (the (conns waiting_session a))"
    by auto
  then obtain a where a: "c = Some a" by blast
  have "\<not> select_ready (asked readable_5 waiting_session) (the (conns waiting_session 1))"
    using hyp(5) by (simp add: asked select_ready_def conn_socket_def)
  then have "a \<noteq> 1" using which a by blast
  moreover have "a = 0 \<or> a = 1" using which a by (auto simp: hyp(3))
  ultimately show ?thesis using run st a by auto
qed

end
