(* ===== verification/Ft.thy ===== *)
theory Ft
  imports Im
begin

text \<open>
  Direct connections between clients (\<^verbatim>\<open>src/ft.c\<close>): listening for a peer, accepting it,
  sending messages over the connection and reading what arrives on it. Closing and killing such
  connections is in theory \<open>Connlife\<close>. The file transfer functions of the source have no body
  but a return statement, and so have none here.

  The connection a peer makes is an event.
\<close>

section \<open>Constants\<close>

definition AIM_CB_FAM_OFT :: u16 where "AIM_CB_FAM_OFT = 0xfffe"
definition AIM_CB_OFT_DIRECTIMINCOMING :: u16 where "AIM_CB_OFT_DIRECTIMINCOMING = 0x0002"
definition AIM_CB_OFT_DIRECTIMTYPING :: u16 where "AIM_CB_OFT_DIRECTIMTYPING = 0x0004"
definition AIM_CB_OFT_DIRECTIMINITIATE :: u16 where "AIM_CB_OFT_DIRECTIMINITIATE = 0x0005"

section \<open>Sockets\<close>

text \<open>A peer that connected: descriptor, whether the family is IPv4, address and port.\<close>

datatype accept_event = AcceptError | Accepted int bool "u8 list" u16

definition getlocalip :: "netenv \<Rightarrow> int \<times> u8 list" where
  "getlocalip ne =
     (if ne_gethostname ne < 0 then (-1, [])
      else case ne_hostaddr ne of None \<Rightarrow> (-1, []) | Some addr \<Rightarrow> (0, take 4 addr))"

text \<open>
  With \<^verbatim>\<open>getaddrinfo\<close> the first address that gives a socket and can be bound is used. The
  service name is the port, in a buffer for four characters.
\<close>

definition listenestablish :: "netenv \<Rightarrow> u16 \<Rightarrow> int" where
  "listenestablish ne portnum =
     (case ne_addrinfo ne of
        Some getaddrinfo \<Rightarrow>
          (case getaddrinfo (take 4 (decimal (unat portnum))) of
             None \<Rightarrow> -1
           | Some res \<Rightarrow>
               (case find (\<lambda>(fd, r). 0 \<le> fd \<and> r = 0) res of
                  None \<Rightarrow> -1
                | Some (listenfd, _) \<Rightarrow> if ne_listen ne \<noteq> 0 then -1 else listenfd))
      | None \<Rightarrow>
          (if ne_socket ne < 0 then -1
           else if ne_setsockopt ne \<noteq> 0 then -1
           else if ne_bind ne portnum \<noteq> 0 then -1
           else if ne_listen ne \<noteq> 0 then -1
           else ne_socket ne))"

section \<open>Accepting a peer\<close>

text \<open>The address of the peer as \<^verbatim>\<open>"%s:%u"\<close> prints it, and \<^verbatim>\<open>snprintf\<close> into a buffer.\<close>

definition peer_addr :: "u8 list \<Rightarrow> u16 \<Rightarrow> cstring" where
  "peer_addr ip port = dotted ip @ [58] @ decimal (unat port)"

definition c_snprintf :: "cstring \<Rightarrow> u8 list \<Rightarrow> u8 list" where
  "c_snprintf str buf = take (length buf - 1) str @ [0] @ drop (Suc (length str)) buf"

definition aim_handlerendconnect ::
  "client \<Rightarrow> aim_session \<Rightarrow> nat option \<Rightarrow> accept_event \<Rightarrow> (int \<times> aim_session) option" where
  "aim_handlerendconnect cl s cur ev = do {
     a \<leftarrow> cur;
     c \<leftarrow> conns s a;
     case ev of
       AcceptError \<Rightarrow> Some (0, s)
     | Accepted acceptfd inet ip port \<Rightarrow>
         (if \<not> inet then do { s \<leftarrow> aim_conn_close cur s; Some (-1, s) }
          else do {
            (newconn, s) \<leftarrow> aim_cloneconn s cur;
            case newconn of
              None \<Rightarrow> do { s \<leftarrow> aim_conn_close cur s; Some (-1, s) }
            | Some n \<Rightarrow> do {
                nc \<leftarrow> conns s n;
                let nc = nc\<lparr>conn_type := AIM_CONN_TYPE_RENDEZVOUS, conn_fd := acceptfd\<rparr>;
                let s = put_conn n nc s;
                if conn_subtype nc = AIM_CONN_SUBTYPE_OFT_DIRECTIM then do {
                  c \<leftarrow> conns s a;
                  let s = put_conn n (nc\<lparr>conn_internal := conn_internal c\<rparr>) s;
                  let s = put_conn a (c\<lparr>conn_internal := None\<rparr>) s;
                  p \<leftarrow> conn_internal c;
                  priv \<leftarrow> objs s p;
                  case priv of
                    DirectimData ck sn old \<Rightarrow> do {
                      let s = s\<lparr>objs := (objs s)(p \<mapsto> DirectimData ck sn (c_snprintf (peer_addr ip port) old))\<rparr>;
                      (ret, _, s) \<leftarrow> call_user cl s newconn AIM_CB_FAM_OFT AIM_CB_OFT_DIRECTIMINITIATE 0
                                      None [ArgConn newconn, ArgConn cur] (aim_bstream_init [] 0);
                      Some (ret, s)
                    }
                  | _ \<Rightarrow> None
                }
                else if conn_subtype nc = AIM_CONN_SUBTYPE_OFT_GETFILE then Some (0, s)
                else do { s \<leftarrow> aim_conn_close newconn s; Some (-1, s) }
              }
          })
   }"

section \<open>Sending a message\<close>

text \<open>The second header of a direct message, written at two places of the buffer.\<close>

definition odc_hdr_ops :: "u8 list \<Rightarrow> u32 \<Rightarrow> u16 \<Rightarrow> cstring \<Rightarrow> put_op list" where
  "odc_hdr_ops ck len flags sn =
     [Put16 0x0006, Put16 0x0000, PutRaw ck 8,
      Put16 0x0000, Put16 0x0000, Put16 0x0000, Put16 0x0000, Put32 len,
      Put16 0x0000, Put16 0x0000, Put16 0x0000, Put16 flags,
      Put16 0x0000, Put16 0x0000] @ put_str sn"

definition odc_tail_ops :: "put_op list" where
  "odc_tail_ops = Put8 0x00 # replicate 7 (Put16 0x0000)"

text \<open>\<^verbatim>\<open>conn\<close> is followed before it is checked, and \<^verbatim>\<open>msg\<close> is measured though it may be null.\<close>

definition aim_send_im_direct ::
  "client \<Rightarrow> aim_session \<Rightarrow> nat option \<Rightarrow> cstring option \<Rightarrow> (int \<times> aim_session) option" where
  "aim_send_im_direct cl s conn msg = do {
     c \<leftarrow> conn_at s conn;
     if conn_type c \<noteq> AIM_CONN_TYPE_RENDEZVOUS then Some (- EINVAL, s)
     else do {
       msg \<leftarrow> msg;
       (fr, s) \<leftarrow> aim_tx_new s conn AIM_FRAMETYPE_OFT 0x01 (int (length msg));
       case fr of
         None \<Rightarrow> Some (- ENOMEM, s)
       | Some fr \<Rightarrow>
           (let (ok, s) = malloc s
            in if \<not> ok then Some (- ENOMEM, s)
               else do {
                 let hdrbs = aim_bstream_init (replicate 0x44 0) 0x44;
                 intdata \<leftarrow> obj_at s (conn_internal c);
                 ck \<leftarrow> (case intdata of DirectimData ck _ _ \<Rightarrow> Some ck | _ \<Rightarrow> None);
                 hdrbs \<leftarrow> put_all (odc_hdr_ops ck (of_nat (length msg)) 0x0000 (sess_sn s)) hdrbs;
                 hdrbs \<leftarrow> put_all odc_tail_ops (snd (aim_bstream_setpos hdrbs 52));
                 (_, data) \<leftarrow> aimbs_putraw (fr_data fr) msg (int (length msg));
                 (_, s) \<leftarrow> aim_tx_enqueue cl s
                   (fr\<lparr>fr_hdr := Oft 0x01 (cstr ''ODC2'') 0x44 (Some (bs_data hdrbs)), fr_data := data\<rparr>);
                 Some (0, s)
               })
     }
   }"

section \<open>Waiting for a peer\<close>

text \<open>A new object.\<close>

definition new_obj :: "obj \<Rightarrow> aim_session \<Rightarrow> nat \<times> aim_session" where
  "new_obj obj s = (let (p, s) = new_addr s in (p, s\<lparr>objs := (objs s)(p \<mapsto> obj)\<rparr>))"

text \<open>
  The cookie of the request in the cache and the connection that listens, each with private data
  of its own. Only the allocation of the connection is checked.
\<close>

definition rend_listen ::
  "u8 list \<Rightarrow> cstring \<Rightarrow> u16 \<Rightarrow> int \<Rightarrow> aim_session \<Rightarrow> (nat option \<times> aim_session) option" where
  "rend_listen ck destsn subtype listenfd s = do {
     let (ok, s) = malloc s;
     let (okp, s) = malloc s;
     if \<not> ok \<or> \<not> okp then None
     else do {
       let priv = DirectimData ck (c_strncpy destsn (MAXSNLEN + 1)) (replicate 22 0);
       let (ca, s) = new_addr s;
       let (p, s) = new_obj priv s;
       (_, s) \<leftarrow> aim_cachecookie s (Some \<lparr>ck_addr = ca, ck_cookie = ck, ck_type = AIM_COOKIETYPE_OFTIM,
                                       ck_data = Some p, ck_addtime = 0\<rparr>);
       (newconn, s) \<leftarrow> aim_newconn no_network s (uint AIM_CONN_TYPE_RENDEZVOUS_OUT) None;
       case newconn of
         None \<Rightarrow> Some (None, s)
       | Some n \<Rightarrow>
           (let (ok, s) = malloc s
            in if \<not> ok then None
               else do {
                 let (p, s) = new_obj priv s;
                 c \<leftarrow> conns s n;
                 Some (newconn, put_conn n (c\<lparr>conn_fd := listenfd, conn_subtype := subtype,
                                  conn_internal := Some p, conn_lastactivity := os_now s\<rparr>) s)
               })
     }
   }"

text \<open>\<open>ck\<close> is not initialised when the request fails, which is not looked at.\<close>

definition aim_directim_initiate ::
  "client \<Rightarrow> netenv \<Rightarrow> aim_session \<Rightarrow> cstring \<Rightarrow> (nat option \<times> aim_session) option" where
  "aim_directim_initiate cl ne s destsn =
     (let (r, localip) = getlocalip ne; port = 4443
      in if r = -1 then Some (None, s)
         else let listenfd = listenestablish ne port
              in if listenfd = -1 then Some (None, s)
                 else do {
                   let junk = fresh s 8;
                   (_, ck, s) \<leftarrow> aim_request_directim cl s destsn localip port;
                   rend_listen (case ck of None \<Rightarrow> junk | Some ck \<Rightarrow> ck) destsn
                     AIM_CONN_SUBTYPE_OFT_DIRECTIM listenfd s
                 })"

definition aim_sendfile_initiate ::
  "client \<Rightarrow> netenv \<Rightarrow> aim_session \<Rightarrow> cstring option \<Rightarrow> cstring option \<Rightarrow> u16 \<Rightarrow> u32
   \<Rightarrow> (nat option \<times> aim_session) option" where
  "aim_sendfile_initiate cl ne s destsn filename numfiles totsize =
     (let (r, localip) = getlocalip ne; port = 4443
      in if r = -1 then Some (None, s)
         else let listenfd = listenestablish ne port
              in if listenfd = -1 then Some (None, s)
                 else do {
                   let junk = fresh s 8;
                   (_, ck, s) \<leftarrow> aim_request_sendfile cl s destsn filename numfiles totsize localip port;
                   destsn \<leftarrow> destsn;
                   rend_listen (case ck of None \<Rightarrow> junk | Some ck \<Rightarrow> ck) destsn
                     AIM_CONN_SUBTYPE_OFT_SENDFILE listenfd s
                 })"

section \<open>Connecting to a peer\<close>

text \<open>The buffer that holds the name, or a null pointer.\<close>

definition aim_directim_getsn :: "nat option \<Rightarrow> aim_session \<Rightarrow> u8 list option option" where
  "aim_directim_getsn conn s =
     (case conn of
        None \<Rightarrow> Some None
      | Some a \<Rightarrow> do {
          c \<leftarrow> conns s a;
          if conn_type c \<noteq> AIM_CONN_TYPE_RENDEZVOUS \<or> conn_subtype c \<noteq> AIM_CONN_SUBTYPE_OFT_DIRECTIM
          then Some None
          else if conn_internal c = None then Some None
          else do {
            intdata \<leftarrow> obj_at s (conn_internal c);
            case intdata of DirectimData ck sn ip \<Rightarrow> Some (Some sn) | _ \<Rightarrow> None
          }
        })"

definition aim_directim_connect ::
  "netenv \<Rightarrow> aim_session \<Rightarrow> cstring option \<Rightarrow> cstring option \<Rightarrow> u8 list \<Rightarrow> (nat option \<times> aim_session) option" where
  "aim_directim_connect ne s sn addr cookie =
     (case sn of
        None \<Rightarrow> Some (None, s)
      | Some sn \<Rightarrow>
          (let (ok, s) = malloc s
           in if \<not> ok then Some (None, s)
              else if length cookie < 8 then None
              else do {
                let (p, s) = new_obj (DirectimData (take 8 cookie) (c_strncpy sn (MAXSNLEN + 1))
                    (case addr of None \<Rightarrow> replicate 22 0 | Some addr \<Rightarrow> c_strncpy addr 22)) s;
                (newconn, s) \<leftarrow> aim_newconn ne s (uint AIM_CONN_TYPE_RENDEZVOUS) addr;
                case newconn of
                  None \<Rightarrow> do { s \<leftarrow> free_obj (Some p) s; Some (None, s) }
                | Some n \<Rightarrow> do {
                    c \<leftarrow> conns s n;
                    Some (newconn, put_conn n (c\<lparr>conn_subtype := AIM_CONN_SUBTYPE_OFT_DIRECTIM,
                                     conn_internal := Some p\<rparr>) s)
                  }
              }))"

definition aim_directim_getconn :: "aim_session \<Rightarrow> cstring option \<Rightarrow> nat option option" where
  "aim_directim_getconn s name =
     (case name of
        None \<Rightarrow> Some None
      | Some name \<Rightarrow>
          (if name = [] then Some None
           else conn_walk (\<lambda>cur.
             if conn_type cur \<noteq> AIM_CONN_TYPE_RENDEZVOUS \<or> conn_subtype cur \<noteq> AIM_CONN_SUBTYPE_OFT_DIRECTIM
             then Some False
             else do {
               intdata \<leftarrow> obj_at s (conn_internal cur);
               case intdata of
                 DirectimData ck sn ip \<Rightarrow> do {
                   sn \<leftarrow> buf_string sn;
                   r \<leftarrow> aim_sncmp (Some sn) (Some name);
                   Some (r = 0)
                 }
               | _ \<Rightarrow> None
             }) s (connlist s)))"

section \<open>Functions without a body\<close>

definition aim_accepttransfer :: "aim_session \<Rightarrow> nat option \<times> aim_session" where
  "aim_accepttransfer s = (None, s)"

definition aim_getfile_initiate :: "aim_session \<Rightarrow> nat option \<Rightarrow> cstring \<Rightarrow> nat option \<times> aim_session" where
  "aim_getfile_initiate s conn destsn = (None, s)"

definition aim_oft_getfile_request :: "aim_session \<Rightarrow> nat option \<Rightarrow> cstring \<Rightarrow> int \<Rightarrow> int \<times> aim_session" where
  "aim_oft_getfile_request s conn name len = (- EINVAL, s)"

definition aim_oft_getfile_ack :: "aim_session \<Rightarrow> nat option \<Rightarrow> int \<times> aim_session" where
  "aim_oft_getfile_ack s conn = (- EINVAL, s)"

definition aim_oft_getfile_end :: "aim_session \<Rightarrow> nat option \<Rightarrow> int \<times> aim_session" where
  "aim_oft_getfile_end s conn = (- EINVAL, s)"

text \<open>The sum is not stored either.\<close>

definition aim_oft_checksum :: "u8 list \<Rightarrow> int \<Rightarrow> u32 \<Rightarrow> u32 \<times> u32" where
  "aim_oft_checksum buffer bufsize checksum = (0xdeadbeef, checksum)"

definition aim_getlisting :: "aim_session \<Rightarrow> nat option \<times> aim_session" where
  "aim_getlisting s = (None, s)"

definition getcommand_getfile :: "aim_session \<Rightarrow> nat \<Rightarrow> int \<times> aim_session" where
  "getcommand_getfile s conn = (-1, s)"

definition handlehdr_getfile_listing :: "aim_session \<Rightarrow> nat \<Rightarrow> u8 list \<Rightarrow> int \<times> aim_session" where
  "handlehdr_getfile_listing s conn hdr = (-1, s)"

definition handlehdr_getfile_listing2 :: "aim_session \<Rightarrow> nat \<Rightarrow> u8 list \<Rightarrow> int \<times> aim_session" where
  "handlehdr_getfile_listing2 s conn hdr = (-1, s)"

definition handlehdr_getfile_listing3 :: "aim_session \<Rightarrow> nat \<Rightarrow> u8 list \<Rightarrow> int \<times> aim_session" where
  "handlehdr_getfile_listing3 s conn hdr = (-1, s)"

definition handlehdr_getfile_request :: "aim_session \<Rightarrow> nat \<Rightarrow> u8 list \<Rightarrow> int \<times> aim_session" where
  "handlehdr_getfile_request s conn hdr = (-1, s)"

definition handlehdr_getfile_sending :: "aim_session \<Rightarrow> nat \<Rightarrow> u8 list \<Rightarrow> int \<times> aim_session" where
  "handlehdr_getfile_sending s conn hdr = (-1, s)"

definition handlehdr_getfile_recv :: "aim_session \<Rightarrow> nat \<Rightarrow> u8 list \<Rightarrow> int \<times> aim_session" where
  "handlehdr_getfile_recv s conn hdr = (-1, s)"

definition handlehdr_getfile_finish :: "aim_session \<Rightarrow> nat \<Rightarrow> u8 list \<Rightarrow> int \<times> aim_session" where
  "handlehdr_getfile_finish s conn hdr = (-1, s)"

section \<open>Reading from a peer\<close>

text \<open>
  \<open>junk\<close> is the frame on the stack of \<^verbatim>\<open>handlehdr_directim\<close>, of which only the connection is
  set before the callback gets it. The name is passed as the rest of the header, which the client
  reads up to a terminator. The number of bytes received is compared as an unsigned number.
\<close>

definition handlehdr_directim ::
  "client \<Rightarrow> aim_frame \<Rightarrow> nat \<Rightarrow> u8 list \<Rightarrow> aim_session \<Rightarrow> (int \<times> aim_session) option" where
  "handlehdr_directim cl junk a hdr s =
     (if length hdr < 38 then None
      else
        let fr = junk\<lparr>fr_conn := Some a\<rparr>;
            payloadlength = aimutil_get32 (hdr ! 22) (hdr ! 23) (hdr ! 24) (hdr ! 25);
            flags = aimutil_get16 (hdr ! 32) (hdr ! 33);
            snptr = drop 38 hdr
        in if flags = 0x000e then do {
             (ret, _, s) \<leftarrow> call_user cl s (Some a) AIM_CB_FAM_OFT AIM_CB_OFT_DIRECTIMTYPING 0 (Some fr)
                             [ArgBytes (Some snptr)] (fr_data fr);
             Some (ret, s)
           }
           else if flags = 0x0000 \<and> payloadlength \<noteq> 0 then do {
             let (ok, s) = malloc s;
             if \<not> ok then Some (-1, s)
             else do {
               let buf = replicate (unat (payloadlength + 1)) 0;
               c \<leftarrow> conns s a;
               let (n, bytes, s) = aim_recv (conn_fd c) (unat payloadlength) s;
               if 2 ^ 31 \<le> length bytes \<or> length buf < length bytes then None
               else if (word_of_int n :: u32) < payloadlength then Some (-1, s)
               else if length buf \<le> unat payloadlength then None
               else do {
                 let msg = (bytes @ drop (length bytes) buf)[unat payloadlength := 0];
                 (ret, _, s) \<leftarrow> call_user cl s (Some a) AIM_CB_FAM_OFT AIM_CB_OFT_DIRECTIMINCOMING 0 (Some fr)
                                 [ArgBytes (Some snptr), ArgStr (Some (c_string_of msg))] (fr_data fr);
                 Some (ret, s)
               }
             }
           }
           else Some (0, s))"

text \<open>
  The length of the header is what its sender says less six, and may be negative: then the
  allocation fails, the result of receiving into a null pointer is not below the length, and the
  null pointer is read.
\<close>

definition aim_get_command_rendezvous ::
  "client \<Rightarrow> aim_frame \<Rightarrow> nat \<Rightarrow> aim_session \<Rightarrow> (int \<times> aim_session) option" where
  "aim_get_command_rendezvous cl junk a s = do {
     c \<leftarrow> conns s a;
     if conn_subtype c = AIM_CONN_SUBTYPE_OFT_GETFILE then Some (getcommand_getfile s a)
     else do {
       let (n, hdrbuf1, s) = aim_recv (conn_fd c) 6 s;
       if n < 6 then do { s \<leftarrow> aim_conn_close (Some a) s; Some (-1, s) }
       else do {
         let hdrlen = int (unat (aimutil_get16 (hdrbuf1 ! 4) (hdrbuf1 ! 5))) - 6;
         let (ok, s) = malloc s;
         if \<not> ok \<or> hdrlen < 0 then None
         else do {
           let (n, hdr, s) = aim_recv (conn_fd c) (nat hdrlen) s;
           if n < hdrlen then do { s \<leftarrow> aim_conn_close (Some a) s; Some (-1, s) }
           else if length hdr < 2 then None
           else do {
             let hdrtype = aimutil_get16 (hdr ! 0) (hdr ! 1);
             (ret, s) \<leftarrow>
               (if hdrtype = 0x0001 then handlehdr_directim cl junk a hdr s
                else if hdrtype = 0x1108 then Some (handlehdr_getfile_listing s a hdr)
                else if hdrtype = 0x1209 then Some (handlehdr_getfile_listing2 s a hdr)
                else if hdrtype = 0x120b then Some (handlehdr_getfile_listing3 s a hdr)
                else if hdrtype = 0x120c then Some (handlehdr_getfile_request s a hdr)
                else if hdrtype = 0x0101 then Some (handlehdr_getfile_sending s a hdr)
                else if hdrtype = 0x0202 then Some (handlehdr_getfile_recv s a hdr)
                else if hdrtype = 0x0204 then Some (handlehdr_getfile_finish s a hdr)
                else Some (-1, s));
             s \<leftarrow> (if ret = -1 then aim_conn_close (Some a) s else Some s);
             Some (ret, s)
           }
         }
       }
     }
   }"

section \<open>The wire form of a direct message\<close>

text \<open>
  The second header: 36 bytes up to the name, and the name, of which sixteen characters survive
  the zeros written over it (and the thirty-second, which comes after them).
\<close>

definition odc_head :: "u8 list \<Rightarrow> u32 \<Rightarrow> u16 \<Rightarrow> u8 list" where
  "odc_head ck len flags = [0, 6, 0, 0] @ ck @ replicate 8 0 @ aimutil_put32 len @ replicate 6 0 @
     aimutil_put16 flags @ [0, 0, 0, 0]"

definition odc_name :: "cstring \<Rightarrow> u8 list" where
  "odc_name sn = take 16 (sn @ replicate 16 0) @ replicate 15 0 @ [if length sn < 32 then 0 else sn ! 31]"

definition odc_wire :: "u8 list \<Rightarrow> cstring \<Rightarrow> u8 list \<Rightarrow> u8 list" where
  "odc_wire ck sn msg = cstr ''ODC2'' @ aimutil_put16 0x4c @ aimutil_put16 0x0001 @
     odc_head ck (of_nat (length msg)) 0x0000 @ odc_name sn @ msg"

lemma replicate_15: "replicate 15 x = x # replicate 14 x"
  by (simp add: eval_nat_numeral)

lemma length_odc_head: "length ck = 8 \<Longrightarrow> length (odc_head ck len flags) = 36"
  by (simp add: odc_head_def)

lemma length_odc_name: "length (odc_name sn) = 32"
  by (simp add: odc_name_def)

lemma odc_name_string: "0 \<notin> set sn \<Longrightarrow> c_string_of (odc_name sn) = take 16 sn"
proof -
  assume "0 \<notin> set sn"
  then have "\<forall>b \<in> set (take 16 sn). b \<noteq> 0" by (auto dest: in_set_takeD)
  then have "takeWhile (\<lambda>b. b \<noteq> 0) (take 16 sn @ replicate (16 - length sn) 0 @ 0 # r) = take 16 sn" for r
    by (cases "16 - length sn") (simp_all add: takeWhile_append2 del: take_all_iff)
  then show ?thesis by (simp add: odc_name_def c_string_of_def replicate_15)
qed

lemma odc_head_wire: "length ck = 8 \<Longrightarrow> ops_wire (odc_hdr_ops ck len flags sn) = odc_head ck len flags @ sn"
proof -
  assume "length ck = 8"
  moreover have "replicate 8 0 = [0, 0, 0, 0, 0, 0, 0, 0 :: u8]" "replicate 6 0 = [0, 0, 0, 0, 0, 0 :: u8]"
    by (simp_all add: eval_nat_numeral)
  ultimately show ?thesis
    by (simp add: odc_hdr_ops_def odc_head_def put_str_def aimutil_put16_def)
qed

lemma odc_tail_wire: "ops_wire odc_tail_ops = replicate 15 0" "list_all op_ok odc_tail_ops"
proof -
  have "replicate 7 (Put16 0) = [Put16 0, Put16 0, Put16 0, Put16 0, Put16 0, Put16 0, Put16 0]"
    "replicate 15 0 = [0, 0, 0, 0, 0, 0, 0, 0, 0, 0, 0, 0, 0, 0, 0 :: u8]"
    by (simp_all add: eval_nat_numeral)
  then show "ops_wire odc_tail_ops = replicate 15 0" "list_all op_ok odc_tail_ops"
    by (simp_all add: odc_tail_ops_def aimutil_put16_def)
qed

lemma odc_data:
  assumes "length head = 36" "length sn \<le> 32"
  shows "take 52 (head @ sn @ replicate (32 - length sn) 0) @ replicate 15 0 @
      drop 67 (head @ sn @ replicate (32 - length sn) 0) = head @ odc_name sn"
proof -
  have 1: "take 16 (sn @ replicate (32 - length sn) 0) = take 16 (sn @ replicate 16 0)"
    using assms(2) by (simp add: min_def)
  have 2: "drop 31 (sn @ replicate (32 - length sn) 0) = [if length sn < 32 then 0 else sn ! 31]"
  proof (cases "length sn = 32")
    case True
    then have "drop 31 sn = [sn ! 31]" by (simp add: Cons_nth_drop_Suc [symmetric, of 31])
    with True show ?thesis by simp
  next
    case False
    with assms(2) show ?thesis by (simp add: Suc_diff_le)
  qed
  show ?thesis using assms(1) 1 2 by (simp add: odc_name_def)
qed

lemma odc_stream:
  assumes "length ck = 8" "length sn \<le> 32"
  obtains h h' where
    "put_all (odc_hdr_ops ck len flags sn) (aim_bstream_init (replicate 0x44 0) 0x44) = Some h"
    "put_all odc_tail_ops (snd (aim_bstream_setpos h 52)) = Some h'"
    "bs_data h' = odc_head ck len flags @ odc_name sn"
proof -
  define b where "b = aim_bstream_init (replicate 0x44 0) 0x44"
  define w where "w = odc_head ck len flags @ sn"
  have b: "bs_ok b" "room b = 68" "bs_data b = replicate 68 0" "bs_off b = 0" "bs_len b = 68"
    by (simp_all add: b_def bs_ok_def room_def aim_bstream_init_def)
  have lw: "length w = 36 + length sn" using assms by (simp add: w_def length_odc_head)
  have "list_all op_ok (odc_hdr_ops ck len flags sn)"
    using assms by (simp add: odc_hdr_ops_def put_str_def)
  then have 1: "put_all (odc_hdr_ops ck len flags sn) b = Some (emit w b)"
    using assms b lw by (simp add: put_all_ok odc_head_wire w_def)
  define h where "h = snd (aim_bstream_setpos (emit w b) 52)"
  have h: "h = (emit w b)\<lparr>bs_off := 52\<rparr>" using b(5) by (simp add: h_def aim_bstream_setpos_def)
  have hd: "bs_data h = w @ replicate (32 - length sn) 0" using b lw by (simp add: h emit_def)
  have okh: "bs_ok h" "room h = 16"
    using assms b lw hd by (simp_all add: h bs_ok_def room_def)
  have 2: "put_all odc_tail_ops h = Some (emit (replicate 15 0) h)"
    using put_all_ok [OF okh(1) odc_tail_wire(2)] okh(2) by (simp add: odc_tail_wire)
  have "bs_data (emit (replicate 15 0) h) = odc_head ck len flags @ odc_name sn"
    using odc_data [of "odc_head ck len flags" sn] assms hd
    by (simp add: emit_def length_odc_head w_def h)
  with 1 2 that show ?thesis unfolding b_def h_def by blast
qed

section \<open>Sending OFT frames\<close>

lemma sendframe_oft_ok:
  assumes "mem_ok s" "sends_ok s" "fr_hdr fr = Oft ty magic (of_nat (length h2)) (Some h2)" "fr_conn fr = Some a"
    "conns s a = Some c" "conn_sessv c" "bs_ok (fr_data fr)" "length h2 < 65528" "length magic = 4"
  shows "\<exists>s' d'. sendframe_oft s fr = Some (0, fr\<lparr>fr_data := d', fr_handled := 1\<rparr>,
       put_conn a (c\<lparr>conn_lastactivity := os_now s\<rparr>) s') \<and>
    sent (conn_fd c) (magic @ aimutil_put16 (of_nat (length h2) + 8) @ aimutil_put16 ty @ h2 @ written (fr_data fr)) s s'"
proof -
  let ?n = "8 + length h2" and ?d = "fr_data fr"
  let ?w = "magic @ aimutil_put16 (of_nat (length h2) + 8) @ aimutil_put16 ty @ h2"
  have un: "unat (of_nat (length h2) :: u16) = length h2" using assms(8) by simp
  define hbs where "hbs = aim_bstream_init (fresh s ?n) (int ?n)"
  have o: "aim_bstream_init (fresh s (nat (8 + int (length h2)))) (8 + int (length h2)) = hbs"
    by (simp add: hbs_def nat_add_distrib)
  have o2: "aim_bstream_init (fresh s (8 + length h2)) (8 + int (length h2)) = hbs" by (simp add: hbs_def)
  have ok: "bs_ok hbs" "room hbs = ?n" using assms(8) by (simp_all add: hbs_def)
  have len: "length ?w = ?n" using assms(9) by simp
  have oke: "bs_ok (emit ?w hbs)" using ok len by simp
  define r where "r = aim_bstream_rewind (emit ?w hbs)"
  have r: "bs_ok r" "unread r = ?w" "room r = ?n"
    using rewind_emit_init [of ?w "fresh s ?n" ?n] oke len assms(8)
    unfolding r_def by (simp_all add: hbs_def) (simp_all add: rewind_eq room_def)
  obtain s1 where s1: "aim_bstream_send r (Some a) ?n s = Some (int ?n, adv ?n r, s1)"
    "sent (conn_fd c) ?w s s1"
    using bstream_send_ok [OF assms(2,5,6) r(1), of ?n] r len by auto
  have c1: "conns s1 a = Some c" "sends_ok s1" "os_now s1 = os_now s"
    using s1(2) assms(5) by (auto simp: sent_def)
  note d = putbs_payload [OF assms(7)]
  let ?p = "bs_off ?d"
  have cur: "aim_bstream_curpos ?d = int ?p" by (simp add: aim_bstream_curpos_def)
  have pd: "?p \<le> room (aim_bstream_rewind ?d)" using assms(7) d by (simp add: bs_ok_def)
  obtain s2 where s2: "aim_bstream_send (aim_bstream_rewind ?d) (Some a) ?p s1 = Some (int ?p, adv ?p (aim_bstream_rewind ?d), s2)"
    "sent (conn_fd c) (written ?d) s1 s2"
    using bstream_send_ok [OF c1(2,1) assms(6) d(1) pd] d(3) by auto
  have c2: "conns s2 a = Some c" "os_now s2 = os_now s" using s2(2) c1 by (auto simp: sent_def)
  have w0: "?p = 0 \<Longrightarrow> written ?d = []" by (simp add: written_def)
  have st: "sent (conn_fd c) (?w @ written ?d) s s2" "?p = 0 \<Longrightarrow> sent (conn_fd c) (?w @ written ?d) s s1"
    using s1(2) s2(2) w0 by (auto simp: sent_def)
  define d' where "d' = (if ?p = 0 then ?d else adv ?p (aim_bstream_rewind ?d))"
  define s' where "s' = (if ?p = 0 then s1 else s2)"
  have "sendframe_oft s fr = Some (0, fr\<lparr>fr_data := d', fr_handled := 1\<rparr>,
       put_conn a (c\<lparr>conn_lastactivity := os_now s\<rparr>) s')"
    unfolding sendframe_oft_def Let_def assms(3) frame_hdr.case malloc_ok [OF assms(1)] prod.case
    using assms(4,9) s1(1) s2(1) c1 c2 ok len oke
    by (simp add: un o o2 stream_simps r_def cur nat_add_distrib d'_def s'_def)
  moreover have "sent (conn_fd c) (?w @ written ?d) s s'" using st by (simp add: s'_def)
  ultimately show ?thesis by auto
qed


lemma tx_new_oft:
  assumes "mem_ok s" "conns s a = Some c" "conn_type c = AIM_CONN_TYPE_RENDEZVOUS" "0 < n" "n < 65536"
  obtains fr where "aim_tx_new s (Some a) AIM_FRAMETYPE_OFT 0x01 (int n) = Some (Some fr, s\<lparr>next_addr := Suc (next_addr s)\<rparr>)"
    "fr_conn fr = Some a" "bs_ok (fr_data fr)" "room (fr_data fr) = n" "bs_off (fr_data fr) = 0"
proof -
  have m: "malloc s = (True, s)" "malloc (s\<lparr>next_addr := Suc (next_addr s)\<rparr>) = (True, s\<lparr>next_addr := Suc (next_addr s)\<rparr>)"
    using assms(1) by (simp_all add: malloc_ok)
  show ?thesis
    using that assms m
    by (simp add: aim_tx_new_def AIM_FRAMETYPE_FLAP_def AIM_FRAMETYPE_OFT_def Let_def new_addr_def
        bs_ok_def room_def aim_bstream_init_def)
qed

text \<open>A connection on which direct messages can be sent.\<close>

definition direct_conn :: "aim_session \<Rightarrow> nat \<Rightarrow> aim_conn \<Rightarrow> u8 list \<Rightarrow> bool" where
  "direct_conn s a c ck \<longleftrightarrow> conns s a = Some c \<and> conn_type c = AIM_CONN_TYPE_RENDEZVOUS \<and> conn_sessv c \<and>
     \<not> conn_inprogress c \<and> length ck = 8 \<and> (\<exists>sn ip. obj_at s (conn_internal c) = Some (DirectimData ck sn ip))"

lemma send_im_direct_ok:
  assumes "mem_ok s" "sends_ok s" "tx_enqueue s = TxImmediate" "direct_conn s a c ck"
    "length (sess_sn s) \<le> 32" "msg \<noteq> []" "length msg < 65536"
  shows "\<exists>s'. aim_send_im_direct cl s (Some a) (Some msg) = Some (0, put_conn a (c\<lparr>conn_lastactivity := os_now s\<rparr>) s') \<and>
    sent (conn_fd c) (odc_wire ck (sess_sn s) msg) (s\<lparr>next_addr := Suc (next_addr s)\<rparr>) s'"
proof -
  let ?s = "s\<lparr>next_addr := Suc (next_addr s)\<rparr>" and ?sn = "sess_sn s" and ?n = "length msg"
  from assms(4) obtain p sn ip where c: "conns s a = Some c" "conn_type c = AIM_CONN_TYPE_RENDEZVOUS" "conn_sessv c"
    "\<not> conn_inprogress c" "length ck = 8" "conn_internal c = Some p" "objs s p = Some (DirectimData ck sn ip)"
    by (cases "conn_internal c") (auto simp: direct_conn_def)
  obtain fr where fr: "aim_tx_new s (Some a) AIM_FRAMETYPE_OFT 0x01 (int ?n) = Some (Some fr, ?s)"
    "fr_conn fr = Some a" "bs_ok (fr_data fr)" "room (fr_data fr) = ?n" "bs_off (fr_data fr) = 0"
    using tx_new_oft [OF assms(1) c(1,2), of ?n] assms(6,7) by auto
  obtain h h' where h: "put_all (odc_hdr_ops ck (of_nat ?n) 0 ?sn) (aim_bstream_init (replicate 68 0) 68) = Some h"
    "put_all odc_tail_ops (snd (aim_bstream_setpos h 52)) = Some h'"
    "bs_data h' = odc_head ck (of_nat ?n) 0 @ odc_name ?sn"
    using odc_stream [OF c(5) assms(5)] by metis
  define d where "d = emit msg (fr_data fr)"
  have d: "aimbs_putraw (fr_data fr) msg (int ?n) = Some (int ?n, d)" "bs_ok d" "written d = msg"
    using fr by (simp_all add: stream_simps d_def) (simp add: written_def)
  define h2 where "h2 = bs_data h'"
  define f where "f = fr\<lparr>fr_hdr := Oft 0x01 (cstr ''ODC2'') 0x44 (Some h2), fr_data := d, fr_handled := 0\<rparr>"
  have h2: "length h2 = 68" "h2 = odc_head ck (of_nat ?n) 0 @ odc_name ?sn"
    using h(3) c(5) by (simp_all add: h2_def length_odc_head length_odc_name)
  have hdr: "fr_hdr f = Oft 0x01 (cstr ''ODC2'') (of_nat (length h2)) (Some h2)" by (simp add: f_def h2(1))
  have mem: "mem_ok ?s" "sends_ok ?s" "conns ?s a = Some c" using assms c by (simp_all add: sends_ok_def)
  obtain s' d' where s': "sendframe_oft ?s f = Some (0, f\<lparr>fr_data := d', fr_handled := 1\<rparr>,
       put_conn a (c\<lparr>conn_lastactivity := os_now s\<rparr>) s')"
    "sent (conn_fd c) (cstr ''ODC2'' @ aimutil_put16 (of_nat (length h2) + 8) @ aimutil_put16 1 @ h2 @ written (fr_data f)) ?s s'"
    using sendframe_oft_ok [OF mem(1,2) hdr _ mem(3) c(3)] fr(2) d(2) h2(1) by (auto simp: f_def cstr_def)
  have "aim_tx_enqueue cl ?s (f\<lparr>fr_handled := fr_handled fr\<rparr>) = Some (0, put_conn a (c\<lparr>conn_lastactivity := os_now s\<rparr>) s')"
    using c(1,4) assms(3) fr(2) s'(1)
    by (simp add: aim_tx_enqueue_def aim_tx_enqueue__immediate_def f_def stamp_frame_def aim_tx_sendframe_def
        fr_hdrtype_def AIM_FRAMETYPE_FLAP_def AIM_FRAMETYPE_OFT_def)
  then have e: "aim_tx_enqueue cl ?s (fr\<lparr>fr_hdr := Oft 0x01 (cstr ''ODC2'') 0x44 (Some h2), fr_data := d\<rparr>) =
      Some (0, put_conn a (c\<lparr>conn_lastactivity := os_now s\<rparr>) s')"
    by (simp add: f_def)
  have "aim_send_im_direct cl s (Some a) (Some msg) = Some (0, put_conn a (c\<lparr>conn_lastactivity := os_now s\<rparr>) s')"
    using c fr(1) h(1,2) d(1) e malloc_ok [OF mem(1)]
    by (simp add: aim_send_im_direct_def h2_def)
  moreover have "sent (conn_fd c) (odc_wire ck ?sn msg) ?s s'"
    using s'(2) d(3) by (simp add: f_def odc_wire_def h2(1)) (simp add: h2(2))
  ultimately show ?thesis by blast
qed


section \<open>Reading direct messages\<close>

text \<open>The tail of the reader: the callback for what was read, and closing when it returns -1.\<close>

definition handed_over ::
  "client \<Rightarrow> aim_frame \<Rightarrow> nat \<Rightarrow> u16 \<Rightarrow> cb_arg list \<Rightarrow> aim_session \<Rightarrow> (int \<times> aim_session) option" where
  "handed_over cl junk a ty args s = do {
     (ret, _, s) \<leftarrow> call_user cl s (Some a) AIM_CB_FAM_OFT ty 0 (Some (junk\<lparr>fr_conn := Some a\<rparr>)) args (fr_data junk);
     s \<leftarrow> (if ret = -1 then aim_conn_close (Some a) s else Some s);
     Some (ret, s)
   }"

lemma recv_bytes:
  assumes "incoming s fd (xs @ later) rest"
  obtains f where "aim_recv fd (length xs) s = (int (length xs), xs, s\<lparr>os_in := f\<rparr>)"
    "incoming (s\<lparr>os_in := f\<rparr>) fd later rest"
proof -
  from assms obtain cs where cs: "os_in s fd = map RecvChunk cs @ rest" "[] \<notin> set cs" "concat cs = xs @ later"
    by (auto simp: incoming_def)
  then obtain cs' where "aim_recv fd (length xs) s = (int (length xs), take (length xs) (concat cs),
      s\<lparr>os_in := (os_in s)(fd := map RecvChunk cs' @ rest)\<rparr>)" "[] \<notin> set cs'" "concat cs' = drop (length xs) (concat cs)"
    using recv_chunks [OF cs(1,2), of "length xs"] by auto
  with cs(3) that show ?thesis by (fastforce simp: incoming_def)
qed

definition receiving_fails :: "recv_event list \<Rightarrow> bool" where
  "receiving_fails rest \<longleftrightarrow> (case rest of [] \<Rightarrow> True | RecvError e # _ \<Rightarrow> True | RecvChunk xs # _ \<Rightarrow> xs = [])"

lemma recv_loop_cut:
  "os_in s fd = map RecvChunk cs @ rest \<Longrightarrow> [] \<notin> set cs \<Longrightarrow> length (concat cs) < left \<Longrightarrow>
   receiving_fails rest \<Longrightarrow>
   \<exists>f e. aim_recv_loop fd left acc s = (-1, acc @ concat cs, s\<lparr>os_in := f, os_errno := e\<rparr>)"
proof (induction cs arbitrary: left acc s)
  case Nil
  note prems = Nil.prems
  then have "\<exists>k f e. k \<le> 0 \<and> os_recv fd left s = (k, [], s\<lparr>os_in := f, os_errno := e\<rparr>)"
  proof (cases rest)
    case Nil
    with prems show ?thesis
      by (intro exI [of _ 0] exI [of _ "os_in s"] exI [of _ "os_errno s"]) (simp add: os_recv_def)
  next
    case (Cons ev evs)
    with prems show ?thesis
    proof (cases ev)
      case (RecvChunk xs)
      with Cons prems show ?thesis
        by (intro exI [of _ 0] exI [of _ "(os_in s)(fd := evs)"] exI [of _ "os_errno s"])
          (simp add: os_recv_def receiving_fails_def)
    next
      case (RecvError n)
      with Cons prems show ?thesis
        by (intro exI [of _ "-1"] exI [of _ "(os_in s)(fd := evs)"] exI [of _ n]) (simp add: os_recv_def)
    qed
  qed
  then obtain k f e where "k \<le> 0" "os_recv fd left s = (k, [], s\<lparr>os_in := f, os_errno := e\<rparr>)" by blast
  with prems show ?case
    by (intro exI [of _ f] exI [of _ e]) (simp add: aim_recv_loop.simps)
next
  case (Cons c cs)
  let ?s = "s\<lparr>os_in := (os_in s)(fd := map RecvChunk cs @ rest)\<rparr>"
  have "os_recv fd left s = (int (length c), c, ?s)" using Cons.prems by (simp add: os_recv_def)
  then have "aim_recv_loop fd left acc s = aim_recv_loop fd (left - length c) (acc @ c) ?s"
    using Cons.prems by (subst aim_recv_loop.simps) auto
  with Cons.IH [of ?s "left - length c" "acc @ c"] Cons.prems show ?case by auto
qed

text \<open>The peer closes the connection, or receiving fails, before all bytes are there.\<close>

lemma recv_cut:
  assumes "incoming s fd bytes rest" "length bytes < n" "receiving_fails rest"
  obtains f e where "aim_recv fd n s = (-1, bytes, s\<lparr>os_in := f, os_errno := e\<rparr>)"
proof -
  from assms(1) obtain cs where "os_in s fd = map RecvChunk cs @ rest" "[] \<notin> set cs" "concat cs = bytes"
    by (auto simp: incoming_def)
  with recv_loop_cut [of s fd cs rest n "[]"] assms(2,3) that show ?thesis by (auto simp: aim_recv_def)
qed

lemma mem_ok_in [simp]: "mem_ok (s\<lparr>os_in := f\<rparr>) = mem_ok s"
  by (simp add: mem_ok_def)

text \<open>The header of a frame of the type of direct messages is read and handed on.\<close>

lemma rendezvous_header:
  assumes "mem_ok s" "conns s a = Some c" "conn_subtype c \<noteq> AIM_CONN_SUBTYPE_OFT_GETFILE"
    "incoming s (conn_fd c) (magic @ aimutil_put16 (of_nat (6 + length hdr)) @ hdr @ later) rest"
    "length magic = 4" "6 + length hdr < 65536"
  shows "\<exists>f. incoming (s\<lparr>os_in := f\<rparr>) (conn_fd c) later rest \<and>
     (length hdr < 2 \<longrightarrow> aim_get_command_rendezvous cl junk a s = None) \<and>
     (take 2 hdr = [0, 1] \<longrightarrow> aim_get_command_rendezvous cl junk a s = do {
        (ret, s) \<leftarrow> handlehdr_directim cl junk a hdr (s\<lparr>os_in := f\<rparr>);
        s \<leftarrow> (if ret = -1 then aim_conn_close (Some a) s else Some s);
        Some (ret, s)
      })"
proof -
  let ?fd = "conn_fd c"
  define h1 where "h1 = magic @ aimutil_put16 (of_nat (6 + length hdr))"
  have l1: "length h1 = 6" using assms(5) by (simp add: h1_def)
  obtain f1 where f1: "aim_recv ?fd 6 s = (6, h1, s\<lparr>os_in := f1\<rparr>)" "incoming (s\<lparr>os_in := f1\<rparr>) ?fd (hdr @ later) rest"
    using recv_bytes [of s ?fd h1 "hdr @ later" rest] assms(4) l1 by (auto simp: h1_def)
  obtain f where f: "aim_recv ?fd (length hdr) (s\<lparr>os_in := f1\<rparr>) = (int (length hdr), hdr, s\<lparr>os_in := f\<rparr>)"
    "incoming (s\<lparr>os_in := f\<rparr>) ?fd later rest"
    using recv_bytes [OF f1(2)] by auto
  have "unat (aimutil_get16 ((magic @ aimutil_put16 (of_nat k)) ! 4) ((magic @ aimutil_put16 (of_nat k)) ! 5)) = k"
    if "k < 65536" for k
    using assms(5) that by (simp add: nth_append aimutil_put16_def wire_simps)
  from this [OF assms(6)] have "unat (aimutil_get16 (h1 ! 4) (h1 ! 5)) = 6 + length hdr"
    unfolding h1_def .
  from arg_cong [OF this, of int] have n: "uint (aimutil_get16 (h1 ! 4) (h1 ! 5)) = 6 + int (length hdr)"
    by simp
  have ty: "take 2 hdr = [0, 1] \<Longrightarrow> 2 \<le> length hdr \<and> aimutil_get16 (hdr ! 0) (hdr ! 1) = 1"
    by (cases hdr; cases "tl hdr") (auto simp: aimutil_get16_def)
  show ?thesis
    using assms(1-3) f1(1) f n ty
    by (intro exI [of _ f]) (auto simp: aim_get_command_rendezvous_def malloc_ok Let_def)
qed


lemma c_string_pad: "c_string_of (bytes @ replicate k 0) = c_string_of bytes"
  by (induction bytes) (cases k; simp add: c_string_of_def)+

lemma odc_hdr_fields:
  assumes "length ck = 8" "hdr = [0, 1] @ odc_head ck len flags @ nm"
  shows "aimutil_get32 (hdr ! 22) (hdr ! 23) (hdr ! 24) (hdr ! 25) = len"
    "aimutil_get16 (hdr ! 32) (hdr ! 33) = flags" "drop 38 hdr = nm" "take 2 hdr = [0, 1]"
    "length hdr = 38 + length nm"
  using assms by (simp_all add: odc_head_def nth_append aimutil_put32_def aimutil_put16_def wire_simps)

text \<open>
  Whether all bytes came or the peer closed the connection before, the comparison of the result
  with the length fails to tell, and what there is goes to the client.
\<close>

lemma handlehdr_message:
  assumes "mem_ok s" "conns s a = Some c" "length ck = 8" "hdr = [0, 1] @ odc_head ck (of_nat n) 0 @ nm"
    "0 < n" "n < 2 ^ 31" "aim_recv (conn_fd c) n s = (m, bytes, s')" "length bytes \<le> n"
    "m = -1 \<or> m = int n"
  shows "handlehdr_directim cl junk a hdr s = do {
     (ret, _, s) \<leftarrow> call_user cl s' (Some a) AIM_CB_FAM_OFT AIM_CB_OFT_DIRECTIMINCOMING 0
        (Some (junk\<lparr>fr_conn := Some a\<rparr>)) [ArgBytes (Some nm), ArgStr (Some (c_string_of bytes))] (fr_data junk);
     Some (ret, s)
   }"
proof -
  note h = odc_hdr_fields [OF assms(3,4)]
  have u: "unat (of_nat n :: u32) = n" "(of_nat n :: u32) \<noteq> 0"
  proof -
    show "unat (of_nat n :: u32) = n" using assms(6) by (simp only: unat_of_nat) simp
    with assms(5) show "(of_nat n :: u32) \<noteq> 0" by (metis unat_0 less_irrefl)
  qed
  have u1: "unat (of_nat n + 1 :: u32) = Suc n"
  proof -
    have "unat (of_nat (Suc n) :: u32) = Suc n" using assms(6) by (simp only: unat_of_nat) simp
    then show ?thesis by (simp add: add.commute)
  qed
  have lt: "\<not> (word_of_int m :: u32) < of_nat n" using assms(9) by (auto simp: not_less)
  have "(bytes @ replicate (Suc n - length bytes) 0)[n := 0] = bytes @ replicate (Suc n - length bytes) (0 :: u8)"
    using assms(8) by (simp add: list_eq_iff_nth_eq nth_list_update nth_append)
  then have msg: "c_string_of ((bytes @ replicate (Suc n - length bytes) 0)[n := 0]) = c_string_of bytes"
    by (simp only: c_string_pad)
  show ?thesis
    using assms h u u1 lt msg
    by (simp add: handlehdr_directim_def Let_def malloc_ok del: replicate_Suc)
qed

section \<open>Properties of direct messages\<close>

lemma message_handed_over:
  assumes "mem_ok s" "conns s a = Some c" "length ck = 8" "hdr = [0, 1] @ odc_head ck (of_nat n) 0 @ nm"
    "0 < n" "n < 2 ^ 31" "aim_recv (conn_fd c) n s = (m, bytes, s')" "length bytes \<le> n"
    "m = -1 \<or> m = int n"
  shows "do { (ret, s) \<leftarrow> handlehdr_directim cl junk a hdr s;
      s \<leftarrow> (if ret = -1 then aim_conn_close (Some a) s else Some s); Some (ret, s) } =
    handed_over cl junk a AIM_CB_OFT_DIRECTIMINCOMING [ArgBytes (Some nm), ArgStr (Some (c_string_of bytes))] s'"
  unfolding handlehdr_message [OF assms] handed_over_def
  by (simp add: bind_assoc split_def cong: if_cong)

text \<open>A session with one direct connection, which the peer with the cookie \<open>ck\<close> has.\<close>

definition demo_direct :: "u8 list \<Rightarrow> recv_event list \<Rightarrow> aim_session" where
  "demo_direct ck evs = (session0 9)\<lparr>
     sess_sn := cstr ''me'', tx_enqueue := TxImmediate,
     conns := [0 \<mapsto> (demo_conn 5)\<lparr>conn_type := AIM_CONN_TYPE_RENDEZVOUS,
        conn_subtype := AIM_CONN_SUBTYPE_OFT_DIRECTIM, conn_internal := Some 1,
        conn_handlerlist := [\<lparr>cb_family = AIM_CB_FAM_OFT, cb_type = AIM_CB_OFT_DIRECTIMINCOMING,
           cb_handler = UserCb 7, cb_flags = 0\<rparr>]\<rparr>],
     objs := [1 \<mapsto> DirectimData ck (replicate 33 0) (replicate 22 0)],
     connlist := [0], next_addr := 2, os_in := (\<lambda>fd. if fd = 5 then evs else [])\<rparr>"

lemma demo_direct_sel [simp]:
  "mem_ok (demo_direct ck evs)" "sends_ok (demo_direct ck evs)" "tx_enqueue (demo_direct ck evs) = TxImmediate"
  "sess_sn (demo_direct ck evs) = cstr ''me''" "os_in (demo_direct ck evs) 5 = evs"
  "os_out (demo_direct ck evs) = (\<lambda>_. [])" "connlist (demo_direct ck evs) = [0]" "next_addr (demo_direct ck evs) = 2"
  by (simp_all add: demo_direct_def mem_ok_def sends_ok_def session0_def)

lemma demo_direct_conn:
  "\<exists>c. conns (demo_direct ck evs) 0 = Some c \<and> conn_fd c = 5 \<and> conn_type c = AIM_CONN_TYPE_RENDEZVOUS \<and>
     conn_subtype c = AIM_CONN_SUBTYPE_OFT_DIRECTIM \<and> \<not> conn_inprogress c \<and> conn_internal c = Some 1 \<and>
     conn_handlerlist c = [\<lparr>cb_family = AIM_CB_FAM_OFT, cb_type = AIM_CB_OFT_DIRECTIMINCOMING,
        cb_handler = UserCb 7, cb_flags = 0\<rparr>] \<and>
     (length ck = 8 \<longrightarrow> direct_conn (demo_direct ck evs) 0 c ck)"
  by (auto simp: demo_direct_def demo_conn_def direct_conn_def aim_conn_init_def zero_conn_def conn_inprogress_def)

text \<open>A client that answers every direct message with the length of its text.\<close>

definition direct_client :: client where
  "direct_client = quiet_client\<lparr>cl_callback := (\<lambda>n fr args bs s.
     case args of [_, ArgStr (Some msg)] \<Rightarrow> Some (int (length msg), bs, s) | _ \<Rightarrow> Some (0, bs, s))\<rparr>"

text \<open>C13: a message sent over a direct connection goes out as one ODC frame of 76 bytes of header and
  the text, and the client at the other end, which reads these bytes in whatever pieces they
  arrive, is handed the text and the name of the sender, of which sixteen characters at most
  are left; the bytes that follow stay for the next call.\<close>

theorem direct_im_delivered:
  assumes "mem_ok s" "sends_ok s" "tx_enqueue s = TxImmediate" "direct_conn s a c ck"
    "length (sess_sn s) \<le> 32" "0 \<notin> set (sess_sn s)" "msg \<noteq> []" "0 \<notin> set msg" "length msg < 65536"
    and "mem_ok r" "conns r b = Some d" "conn_type d = AIM_CONN_TYPE_RENDEZVOUS"
    "conn_subtype d = AIM_CONN_SUBTYPE_OFT_DIRECTIM" "3 \<le> conn_fd d" "\<not> conn_inprogress d"
    "incoming r (conn_fd d) (odc_wire ck (sess_sn s) msg @ later) rest"
  shows "\<exists>s' f nm. aim_send_im_direct cl s (Some a) (Some msg) = Some (0, s') \<and>
    os_out s' (conn_fd c) = os_out s (conn_fd c) @ odc_wire ck (sess_sn s) msg \<and>
    c_string_of nm = take 16 (sess_sn s) \<and> incoming (r\<lparr>os_in := f\<rparr>) (conn_fd d) later rest \<and>
    aim_get_command cl' (aim_get_command_rendezvous cl' junk) r (Some b) =
      handed_over cl' junk b AIM_CB_OFT_DIRECTIMINCOMING [ArgBytes (Some nm), ArgStr (Some msg)] (r\<lparr>os_in := f\<rparr>)"
proof -
  let ?nm = "odc_name (sess_sn s)" and ?hdr = "[0, 1] @ odc_head ck (of_nat (length msg)) 0 @ odc_name (sess_sn s)"
  let ?rd = "aim_get_command_rendezvous cl' junk"
  have ck: "length ck = 8" using assms(4) by (simp add: direct_conn_def)
  obtain s' where s': "aim_send_im_direct cl s (Some a) (Some msg) = Some (0, put_conn a (c\<lparr>conn_lastactivity := os_now s\<rparr>) s')"
    "sent (conn_fd c) (odc_wire ck (sess_sn s) msg) (s\<lparr>next_addr := Suc (next_addr s)\<rparr>) s'"
    using send_im_direct_ok [OF assms(1-5,7,9)] by blast
  have lh: "length ?hdr = 70" using ck by (simp add: length_odc_head length_odc_name)
  have "incoming r (conn_fd d) (cstr ''ODC2'' @ aimutil_put16 (of_nat (6 + length ?hdr)) @ ?hdr @ msg @ later) rest"
    using assms(16) lh by (simp add: odc_wire_def aimutil_put16_def)
  from rendezvous_header [OF assms(10,11) _ this, of cl' junk] assms(13) lh odc_hdr_fields(4) [OF ck refl]
  obtain f where f: "incoming (r\<lparr>os_in := f\<rparr>) (conn_fd d) (msg @ later) rest"
    "?rd b r = do { (ret, s) \<leftarrow> handlehdr_directim cl' junk b ?hdr (r\<lparr>os_in := f\<rparr>);
        s \<leftarrow> (if ret = -1 then aim_conn_close (Some b) s else Some s); Some (ret, s) }"
    by (auto simp: cstr_def AIM_CONN_SUBTYPE_OFT_DIRECTIM_def AIM_CONN_SUBTYPE_OFT_GETFILE_def)
  obtain g where g: "aim_recv (conn_fd d) (length msg) (r\<lparr>os_in := f\<rparr>) = (int (length msg), msg, r\<lparr>os_in := g\<rparr>)"
    "incoming (r\<lparr>os_in := g\<rparr>) (conn_fd d) later rest"
    using recv_bytes [OF f(1)] by auto
  have "c_string_of msg = msg"
    using assms(8) by (auto simp: c_string_of_def takeWhile_eq_all_conv)
  moreover have "mem_ok (r\<lparr>os_in := f\<rparr>)" "conns (r\<lparr>os_in := f\<rparr>) b = Some d" "0 < length msg" "length msg < 2 ^ 31"
    using assms(7,9,10,11) by simp_all
  ultimately have "?rd b r = handed_over cl' junk b AIM_CB_OFT_DIRECTIMINCOMING
      [ArgBytes (Some ?nm), ArgStr (Some msg)] (r\<lparr>os_in := g\<rparr>)"
    unfolding f(2) by (simp only: message_handed_over [OF _ _ ck refl _ _ g(1) order_refl disjI2 [OF refl]])
  then have "aim_get_command cl' ?rd r (Some b) = handed_over cl' junk b AIM_CB_OFT_DIRECTIMINCOMING
      [ArgBytes (Some ?nm), ArgStr (Some msg)] (r\<lparr>os_in := g\<rparr>)"
    using assms(11-15) by (simp add: aim_get_command_def)
  with s' g(2) odc_name_string [OF assms(6)] show ?thesis
    by (intro exI [of _ "put_conn a (c\<lparr>conn_lastactivity := os_now s\<rparr>) s'"] exI [of _ g] exI [of _ ?nm])
      (auto simp: sent_def)
qed

theorem direct_im_delivered_witness:
  "\<exists>s' r'. aim_send_im_direct quiet_client (demo_direct [1, 2, 3, 4, 5, 6, 7, 8] []) (Some 0) (Some (cstr ''hi'')) = Some (0, s') \<and>
     length (os_out s' 5) = 78 \<and>
     aim_get_command direct_client (aim_get_command_rendezvous direct_client (demo_frame 2 [] None))
       (demo_direct [1, 2, 3, 4, 5, 6, 7, 8]
         [RecvChunk (odc_wire [1, 2, 3, 4, 5, 6, 7, 8] (cstr ''me'') (cstr ''hi''))]) (Some 0) = Some (2, r')"
proof -
  let ?ck = "[1, 2, 3, 4, 5, 6, 7, 8] :: u8 list" and ?hi = "cstr ''hi''"
  let ?w = "odc_wire ?ck (cstr ''me'') ?hi"
  let ?s = "demo_direct ?ck []" and ?r = "demo_direct ?ck [RecvChunk ?w]"
  obtain c where c: "conn_fd c = 5" "direct_conn ?s 0 c ?ck" using demo_direct_conn [of ?ck "[]"] by auto
  obtain d where d: "conns ?r 0 = Some d" "conn_fd d = 5" "conn_type d = AIM_CONN_TYPE_RENDEZVOUS"
    "conn_subtype d = AIM_CONN_SUBTYPE_OFT_DIRECTIM" "\<not> conn_inprogress d"
    "conn_handlerlist d = [\<lparr>cb_family = AIM_CB_FAM_OFT, cb_type = AIM_CB_OFT_DIRECTIMINCOMING,
        cb_handler = UserCb 7, cb_flags = 0\<rparr>]"
    using demo_direct_conn [of ?ck "[RecvChunk ?w]"] by auto
  have inc: "incoming ?r 5 (?w @ []) []"
    by (auto simp: incoming_def odc_wire_def cstr_def intro!: exI [of _ "[?w]"])
  have hi: "?hi \<noteq> []" "0 \<notin> set ?hi" "length ?hi = 2" "length (cstr ''me'') = 2" "0 \<notin> set (cstr ''me'')"
    by (simp_all add: cstr_def)
  obtain s' f nm where r: "aim_send_im_direct quiet_client ?s (Some 0) (Some ?hi) = Some (0, s')"
    "os_out s' 5 = ?w"
    "aim_get_command direct_client (aim_get_command_rendezvous direct_client (demo_frame 2 [] None)) ?r (Some 0) =
      handed_over direct_client (demo_frame 2 [] None) 0 AIM_CB_OFT_DIRECTIMINCOMING
        [ArgBytes (Some nm), ArgStr (Some ?hi)] (?r\<lparr>os_in := f\<rparr>)"
    using direct_im_delivered [OF _ _ _ c(2), of ?hi ?r 0 d "[]" "[]" quiet_client direct_client "demo_frame 2 [] None"]
      c(1) d hi inc by auto
  moreover have "length ?w = 78" by (simp add: odc_wire_def length_odc_head length_odc_name cstr_def)
  moreover have "handed_over direct_client (demo_frame 2 [] None) 0 AIM_CB_OFT_DIRECTIMINCOMING
        [ArgBytes (Some nm), ArgStr (Some ?hi)] (?r\<lparr>os_in := f\<rparr>) = Some (2, ?r\<lparr>os_in := f\<rparr>)"
    using d(1,6) hi(3) by (simp add: handed_over_def call_user_def aim_callhandler_def call_cb_def direct_client_def)
  ultimately show ?thesis by auto
qed

text \<open>C17: the length field of a peer's header is not checked. A header that is announced shorter than
  eight bytes, or one of the type of direct messages that ends before its fields, makes the
  reader follow a null pointer or read past the header.\<close>

theorem peer_header_overread:
  assumes "mem_ok s" "conns s a = Some c" "conn_subtype c \<noteq> AIM_CONN_SUBTYPE_OFT_GETFILE"
    "incoming s (conn_fd c) (magic @ aimutil_put16 (of_nat n) @ hdr @ later) rest" "length magic = 4"
    "n < 6 \<or> n = 6 + length hdr \<and> (length hdr < 2 \<or> take 2 hdr = [0, 1] \<and> length hdr < 34)"
  shows "aim_get_command_rendezvous cl junk a s = None"
  using assms(6)
proof (elim disjE conjE)
  assume n: "n < 6"
  define h1 where "h1 = magic @ aimutil_put16 (of_nat n)"
  have l1: "length h1 = 6" using assms(5) by (simp add: h1_def)
  obtain f where f: "aim_recv (conn_fd c) 6 s = (6, h1, s\<lparr>os_in := f\<rparr>)"
    using recv_bytes [of s "conn_fd c" h1 "hdr @ later" rest] assms(4) l1 by (auto simp: h1_def)
  have "unat (aimutil_get16 (h1 ! 4) (h1 ! 5)) = n"
    using assms(5) n by (simp add: h1_def nth_append aimutil_put16_def wire_simps)
  from arg_cong [OF this, of int] have "uint (aimutil_get16 (h1 ! 4) (h1 ! 5)) = int n" by simp
  with f assms(1-3) n show ?thesis by (simp add: aim_get_command_rendezvous_def Let_def malloc_ok)
qed (use rendezvous_header [OF assms(1-3) _ assms(5), of hdr later rest cl junk] assms(4) in
  \<open>auto simp: handlehdr_directim_def\<close>)

theorem peer_header_overread_witness:
  "aim_get_command_rendezvous quiet_client (demo_frame 2 [] None) 0
     (demo_direct [] [RecvChunk [0x4f, 0x44, 0x43, 0x32, 0, 3]]) = None"
proof -
  let ?s = "demo_direct [] [RecvChunk [0x4f, 0x44, 0x43, 0x32, 0, 3]]"
  obtain c where c: "conns ?s 0 = Some c" "conn_fd c = 5" "conn_subtype c = AIM_CONN_SUBTYPE_OFT_DIRECTIM"
    using demo_direct_conn [of "[]" "[RecvChunk [0x4f, 0x44, 0x43, 0x32, 0, 3]]"] by auto
  have "incoming ?s (conn_fd c) ([0x4f, 0x44, 0x43, 0x32] @ aimutil_put16 (of_nat 3) @ [] @ []) []"
    using c(2) by (auto simp: incoming_def aimutil_put16_def intro!: exI [of _ "[[0x4f, 0x44, 0x43, 0x32, 0, 3]]"])
  from peer_header_overread [OF _ c(1) _ this] c(3) show ?thesis
    by (simp add: AIM_CONN_SUBTYPE_OFT_DIRECTIM_def AIM_CONN_SUBTYPE_OFT_GETFILE_def)
qed

text \<open>C18: when the peer closes the connection in the middle of a direct message, or receiving
  fails there, this goes unnoticed: the failure is reported as -1, which is compared as the largest
  unsigned number, and the client is given the part that came, up to its first null byte, as if it
  were the message. The connection is closed only when the client asks for that by returning -1.\<close>

theorem direct_im_cut_short:
  assumes "mem_ok s" "conns s a = Some c" "conn_subtype c \<noteq> AIM_CONN_SUBTYPE_OFT_GETFILE"
    "length magic = 4" "length ck = 8" "length nm = 32" "length bytes < n" "n < 2 ^ 31"
    "incoming s (conn_fd c)
       (magic @ aimutil_put16 0x4c @ [0, 1] @ odc_head ck (of_nat n) 0x0000 @ nm @ bytes) rest"
    "receiving_fails rest"
  shows "\<exists>f e. aim_get_command_rendezvous cl junk a s =
    handed_over cl junk a AIM_CB_OFT_DIRECTIMINCOMING
      [ArgBytes (Some nm), ArgStr (Some (c_string_of bytes))] (s\<lparr>os_in := f, os_errno := e\<rparr>)"
proof -
  let ?hdr = "[0, 1] @ odc_head ck (of_nat n) 0 @ nm"
  have lh: "length ?hdr = 70" using assms(5,6) by (simp add: length_odc_head)
  have "incoming s (conn_fd c) (magic @ aimutil_put16 (of_nat (6 + length ?hdr)) @ ?hdr @ bytes) rest"
    using assms(9) lh by simp
  from rendezvous_header [OF assms(1-3) this assms(4), of cl junk] lh odc_hdr_fields(4) [OF assms(5) refl]
  obtain f where f: "incoming (s\<lparr>os_in := f\<rparr>) (conn_fd c) bytes rest"
    "aim_get_command_rendezvous cl junk a s = do { (ret, s) \<leftarrow> handlehdr_directim cl junk a ?hdr (s\<lparr>os_in := f\<rparr>);
        s \<leftarrow> (if ret = -1 then aim_conn_close (Some a) s else Some s); Some (ret, s) }"
    by auto
  obtain g e where g: "aim_recv (conn_fd c) n (s\<lparr>os_in := f\<rparr>) = (-1, bytes, s\<lparr>os_in := g, os_errno := e\<rparr>)"
    by (rule recv_cut [OF f(1) assms(7,10)]) (rule that, simp)
  have "mem_ok (s\<lparr>os_in := f\<rparr>)" "conns (s\<lparr>os_in := f\<rparr>) a = Some c" "0 < n" "length bytes \<le> n"
    using assms(1,2,7) by simp_all
  from message_handed_over [OF this(1,2) assms(5) refl this(3) assms(8) g this(4) disjI1 [OF refl]]
  show ?thesis unfolding f(2) by blast
qed

theorem direct_im_cut_short_witness:
  "\<exists>s'. aim_get_command_rendezvous direct_client (demo_frame 2 [] None) 0
     (demo_direct [] [RecvChunk (cstr ''ODC2'' @ aimutil_put16 0x4c @ [0, 1] @
        odc_head [1, 2, 3, 4, 5, 6, 7, 8] (of_nat 100) 0x0000 @ odc_name (cstr ''me'') @ cstr ''hi'')]) = Some (2, s')"
proof -
  let ?ck = "[1, 2, 3, 4, 5, 6, 7, 8] :: u8 list"
  let ?w = "cstr ''ODC2'' @ aimutil_put16 0x4c @ [0, 1] @ odc_head ?ck (of_nat 100) 0x0000 @ odc_name (cstr ''me'') @ cstr ''hi''"
  let ?s = "demo_direct [] [RecvChunk ?w]"
  obtain c where c: "conns ?s 0 = Some c" "conn_fd c = 5" "conn_subtype c = AIM_CONN_SUBTYPE_OFT_DIRECTIM"
    "conn_handlerlist c = [\<lparr>cb_family = AIM_CB_FAM_OFT, cb_type = AIM_CB_OFT_DIRECTIMINCOMING,
        cb_handler = UserCb 7, cb_flags = 0\<rparr>]"
    using demo_direct_conn [of "[]" "[RecvChunk ?w]"] by auto
  have "os_in ?s 5 = map RecvChunk [?w] @ []" "[] \<notin> set [?w]" by (simp_all add: cstr_def)
  then have inc: "incoming ?s (conn_fd c) ?w []" unfolding incoming_def c(2) by fastforce
  have gf: "conn_subtype c \<noteq> AIM_CONN_SUBTYPE_OFT_GETFILE"
    using c(3) by (simp add: AIM_CONN_SUBTYPE_OFT_DIRECTIM_def AIM_CONN_SUBTYPE_OFT_GETFILE_def)
  have l: "length (cstr ''ODC2'') = 4" "length ?ck = 8" "length (odc_name (cstr ''me'')) = 32"
    "length (cstr ''hi'') < 100" "(100 :: nat) < 2 ^ 31" "c_string_of (cstr ''hi'') = cstr ''hi''" "length (cstr ''hi'') = 2"
    by (simp_all add: cstr_def length_odc_name c_string_of_def)
  obtain f e where "aim_get_command_rendezvous direct_client (demo_frame 2 [] None) 0 ?s =
    handed_over direct_client (demo_frame 2 [] None) 0 AIM_CB_OFT_DIRECTIMINCOMING
      [ArgBytes (Some (odc_name (cstr ''me''))), ArgStr (Some (c_string_of (cstr ''hi'')))] (?s\<lparr>os_in := f, os_errno := e\<rparr>)"
    using direct_im_cut_short [OF demo_direct_sel(1) c(1) gf l(1-5) inc, of direct_client "demo_frame 2 [] None"]
    by (auto simp: receiving_fails_def)
  moreover have "\<dots> = Some (2, ?s\<lparr>os_in := f, os_errno := e\<rparr>)"
    unfolding l(6) using c(1,4) l(7)
    by (simp add: handed_over_def call_user_def aim_callhandler_def call_cb_def direct_client_def)
  ultimately show ?thesis by auto
qed

section \<open>Peers that connect\<close>

lemma decimal_digits: "0 \<notin> set (decimal n)"
proof (induction n rule: decimal.induct)
  case (1 n)
  have "(of_nat (48 + k) :: u8) \<noteq> 0" if "k < 10" for k
  proof
    assume "(of_nat (48 + k) :: u8) = 0"
    then have "unat (of_nat (48 + k) :: u8) = 0" by simp
    moreover have "unat (of_nat (48 + k) :: u8) = 48 + k" using that by (simp only: unat_of_nat) simp
    ultimately show False by simp
  qed
  from this [of n] this [of "n mod 10"] 1 show ?case
    by (cases "n < 10") (simp_all add: decimal.simps [of n])
qed

lemma decimal_length: "n < 10 ^ Suc k \<Longrightarrow> length (decimal n) \<le> Suc k"
proof (induction k arbitrary: n)
  case (Suc k)
  have "n div 10 < 10 ^ Suc k" using Suc.prems by (simp add: less_mult_imp_div_less)
  with Suc.IH show ?case by (simp add: decimal.simps [of n])
qed (simp add: decimal.simps)

lemma decimal_byte: "length (decimal (unat (b :: u8))) \<le> 3"
  using decimal_length [of "unat b" 2] unsigned_less [of b, where 'a = nat] by simp

lemma peer_addr_fits: "length (peer_addr ip port) \<le> 21" "0 \<notin> set (peer_addr ip port)"
proof -
  have "length (decimal (unat port)) \<le> 5"
    using decimal_length [of "unat port" 4] unsigned_less [of port, where 'a = nat] by simp
  with decimal_byte [of "ip ! 0"] decimal_byte [of "ip ! 1"] decimal_byte [of "ip ! 2"] decimal_byte [of "ip ! 3"]
  show "length (peer_addr ip port) \<le> 21" by (simp add: peer_addr_def dotted_def)
  show "0 \<notin> set (peer_addr ip port)" using decimal_digits by (simp add: peer_addr_def dotted_def)
qed

lemma snprintf_string:
  assumes "0 \<notin> set str" "length str < length buf"
  shows "buf_string (c_snprintf str buf) = Some str" "length (c_snprintf str buf) = length buf"
proof -
  have "takeWhile (\<lambda>b. b \<noteq> 0) (str @ 0 # r) = str" for r
    using assms(1) by (induction str) auto
  then show "buf_string (c_snprintf str buf) = Some str"
    using assms(2) by (simp add: buf_string_def c_snprintf_def c_string_of_def)
  show "length (c_snprintf str buf) = length buf"
    using assms(2) by (simp add: c_snprintf_def)
qed

lemma clonehandlers_put:
  assumes "mem_ok s" "conns s a = Some c"
  shows "clonehandlers_loop hs (Some a) s = Some (put_conn a (c\<lparr>conn_handlerlist :=
     conn_handlerlist c @ filter (\<lambda>h. (cb_family h, cb_type h) \<notin> set dontuse) hs\<rparr>) s)"
  using assms
proof (induction hs arbitrary: s c)
  case Nil
  then show ?case by (simp add: put_conn_def fun_upd_idem)
next
  case (Cons h hs)
  show ?case
  proof (cases "(cb_family h, cb_type h) \<in> set dontuse")
    case True
    with Cons show ?thesis by (simp add: aim_conn_addhandler_def checkdisallowed_def)
  next
    case False
    let ?c = "c\<lparr>conn_handlerlist := conn_handlerlist c @ [h]\<rparr>"
    have "aim_conn_addhandler s (Some a) (cb_family h) (cb_type h) (Some (cb_handler h)) (cb_flags h) =
        Some (0, put_conn a ?c s)"
      using False Cons.prems by (cases h) (simp add: aim_conn_addhandler_def checkdisallowed_def malloc_ok)
    with Cons.IH [of "put_conn a ?c s" ?c] Cons.prems False show ?thesis by simp
  qed
qed

text \<open>The clone of a connection: the handlers are copied, what the pointers point to is shared.\<close>

lemma cloneconn_ok:
  assumes "mem_ok s" "conns s b = Some p" "b < next_addr s"
  obtains c where "aim_cloneconn s (Some b) = Some (Some (next_addr s), put_conn (next_addr s) c
      (s\<lparr>next_addr := Suc (next_addr s), connlist := next_addr s # connlist s\<rparr>))"
    "conn_fd c = conn_fd p" "conn_type c = conn_type p" "conn_subtype c = conn_subtype p"
    "conn_priv c = conn_priv p" "conn_internal c = conn_internal p" "conn_sessv c = conn_sessv p"
    "conn_status c = 0"
    "conn_handlerlist c = filter (\<lambda>h. (cb_family h, cb_type h) \<notin> set dontuse) (conn_handlerlist p)"
proof -
  let ?a = "next_addr s" and ?s = "s\<lparr>next_addr := Suc (next_addr s), connlist := next_addr s # connlist s\<rparr>"
  define i where "i = aim_conn_init (zero_conn\<lparr>conn_inside := Some \<lparr>in_groups = [], in_rates = []\<rparr>\<rparr>)"
  define d where "d = i\<lparr>conn_fd := conn_fd p, conn_type := conn_type p, conn_subtype := conn_subtype p,
        conn_seqnum := conn_seqnum p, conn_priv := conn_priv p, conn_internal := conn_internal p,
        conn_lastactivity := conn_lastactivity p, conn_forcedlatency := conn_forcedlatency p,
        conn_sessv := conn_sessv p\<rparr>"
  define c where "c = d\<lparr>conn_handlerlist := filter (\<lambda>h. (cb_family h, cb_type h) \<notin> set dontuse) (conn_handlerlist p)\<rparr>"
  have i: "conn_handlerlist i = []" "conn_status i = 0" by (simp_all add: i_def aim_conn_init_def zero_conn_def)
  have "clonehandlers_loop (conn_handlerlist p) (Some ?a) (put_conn ?a d ?s) = Some (put_conn ?a c ?s)"
    using clonehandlers_put [of "put_conn ?a d ?s" ?a d "conn_handlerlist p"] assms(1) i
    by (simp add: c_def d_def)
  moreover have "aim_cloneconn s (Some b) = do {
      s \<leftarrow> clonehandlers_loop (conn_handlerlist p) (Some ?a) (put_conn ?a d ?s); Some (Some ?a, s) }"
    using assms by (simp add: aim_cloneconn_def getnext_ok aim_clonehandlers_def i_def [symmetric] d_def [symmetric])
  ultimately have "aim_cloneconn s (Some b) = Some (Some ?a, put_conn ?a c ?s)" by simp
  with that [OF this] i(2) show ?thesis by (simp add: c_def d_def)
qed


lemma handlerendconnect_step:
  assumes "mem_ok s" "conns s a = Some c" "a < next_addr s" "conn_subtype c = AIM_CONN_SUBTYPE_OFT_DIRECTIM"
  obtains nc where
    "conn_fd nc = fd" "conn_type nc = AIM_CONN_TYPE_RENDEZVOUS" "conn_subtype nc = AIM_CONN_SUBTYPE_OFT_DIRECTIM"
    "conn_internal nc = conn_internal c" "conn_sessv nc = conn_sessv c"
    "conn_handlerlist nc = filter (\<lambda>h. (cb_family h, cb_type h) \<notin> set dontuse) (conn_handlerlist c)"
    "\<And>t. t = put_conn a (c\<lparr>conn_internal := None\<rparr>) (put_conn (next_addr s) nc
        (s\<lparr>next_addr := Suc (next_addr s), connlist := next_addr s # connlist s\<rparr>)) \<Longrightarrow>
     aim_handlerendconnect cl s (Some a) (Accepted fd True ip port) = do {
       p \<leftarrow> conn_internal c;
       priv \<leftarrow> objs s p;
       case priv of
         DirectimData ck sn old \<Rightarrow> do {
           (ret, _, s) \<leftarrow> call_user cl
             (t\<lparr>objs := (objs s)(p \<mapsto> DirectimData ck sn (c_snprintf (peer_addr ip port) old))\<rparr>)
             (Some (next_addr s)) AIM_CB_FAM_OFT AIM_CB_OFT_DIRECTIMINITIATE 0
             None [ArgConn (Some (next_addr s)), ArgConn (Some a)] (aim_bstream_init [] 0);
           Some (ret, s)
         }
       | _ \<Rightarrow> None
     }"
proof -
  let ?n = "next_addr s" and ?s = "s\<lparr>next_addr := Suc (next_addr s), connlist := next_addr s # connlist s\<rparr>"
  obtain d where d: "aim_cloneconn s (Some a) = Some (Some ?n, put_conn ?n d ?s)"
    "conn_subtype d = conn_subtype c" "conn_internal d = conn_internal c" "conn_sessv d = conn_sessv c"
    "conn_handlerlist d = filter (\<lambda>h. (cb_family h, cb_type h) \<notin> set dontuse) (conn_handlerlist c)"
    by (rule cloneconn_ok [OF assms(1-3)]) (rule that; assumption)
  define nc where "nc = d\<lparr>conn_type := AIM_CONN_TYPE_RENDEZVOUS, conn_fd := fd\<rparr>"
  have "nc\<lparr>conn_internal := conn_internal c\<rparr> = nc" using d(3) by (cases d) (simp add: nc_def)
  moreover have "a \<noteq> ?n" using assms(3) by simp
  ultimately have "aim_handlerendconnect cl s (Some a) (Accepted fd True ip port) = do {
       p \<leftarrow> conn_internal c;
       priv \<leftarrow> objs s p;
       case priv of
         DirectimData ck sn old \<Rightarrow> do {
           (ret, _, s) \<leftarrow> call_user cl
             (t\<lparr>objs := (objs s)(p \<mapsto> DirectimData ck sn (c_snprintf (peer_addr ip port) old))\<rparr>)
             (Some ?n) AIM_CB_FAM_OFT AIM_CB_OFT_DIRECTIMINITIATE 0
             None [ArgConn (Some ?n), ArgConn (Some a)] (aim_bstream_init [] 0);
           Some (ret, s)
         }
       | _ \<Rightarrow> None
     }" if "t = put_conn a (c\<lparr>conn_internal := None\<rparr>) (put_conn ?n nc ?s)" for t
    using assms(2,4) d(1,2) unfolding that
    by (simp add: aim_handlerendconnect_def Let_def nc_def [symmetric])
  note main = this
  show ?thesis
    by (rule that [OF _ _ _ _ _ _ main]) (use d assms(4) in \<open>simp_all add: nc_def\<close>)
qed

text \<open>C16: a peer that connects to the listener of a direct connection gets a connection of its own,
  which takes over the name and cookie of the request, with the peer's address and port printed
  into a buffer that is always large enough, and both connections are shown to the client.
  The listener keeps no private data: the next peer that connects to it makes the library
  follow a null pointer.\<close>

theorem peer_accepted:
  assumes "mem_ok s" "conns_ok s" "conns s a = Some c" "conn_subtype c = AIM_CONN_SUBTYPE_OFT_DIRECTIM"
    "conn_internal c = Some p" "objs s p = Some (DirectimData ck sn old)" "length old = 22"
  shows "\<exists>t nc addr. aim_handlerendconnect cl s (Some a) (Accepted fd True ip port) = do {
      (ret, _, u) \<leftarrow> call_user cl t (Some (next_addr s)) AIM_CB_FAM_OFT AIM_CB_OFT_DIRECTIMINITIATE 0 None
        [ArgConn (Some (next_addr s)), ArgConn (Some a)] (aim_bstream_init [] 0);
      Some (ret, u) } \<and>
    conns t (next_addr s) = Some nc \<and> connlist t = next_addr s # connlist s \<and> conn_fd nc = fd \<and>
    conn_handlerlist nc = filter (\<lambda>h. (cb_family h, cb_type h) \<notin> set dontuse) (conn_handlerlist c) \<and>
    aim_directim_getsn (Some (next_addr s)) t = Some (Some sn) \<and> conn_internal nc = Some p \<and>
    objs t p = Some (DirectimData ck sn addr) \<and> buf_string addr = Some (peer_addr ip port) \<and>
    aim_handlerendconnect cl t (Some a) (Accepted fd' True ip' port') = None"
proof -
  let ?n = "next_addr s" and ?addr = "c_snprintf (peer_addr ip port) old"
  have a: "a < ?n" using conns_okD(3) [OF assms(2,3)] .
  obtain nc where nc: "conn_fd nc = fd" "conn_type nc = AIM_CONN_TYPE_RENDEZVOUS"
    "conn_subtype nc = AIM_CONN_SUBTYPE_OFT_DIRECTIM" "conn_internal nc = Some p"
    "conn_handlerlist nc = filter (\<lambda>h. (cb_family h, cb_type h) \<notin> set dontuse) (conn_handlerlist c)"
    and step: "\<And>t. t = put_conn a (c\<lparr>conn_internal := None\<rparr>) (put_conn ?n nc
        (s\<lparr>next_addr := Suc ?n, connlist := ?n # connlist s\<rparr>)) \<Longrightarrow>
     aim_handlerendconnect cl s (Some a) (Accepted fd True ip port) = do {
       (ret, _, s) \<leftarrow> call_user cl (t\<lparr>objs := (objs s)(p \<mapsto> DirectimData ck sn ?addr)\<rparr>)
         (Some ?n) AIM_CB_FAM_OFT AIM_CB_OFT_DIRECTIMINITIATE 0
         None [ArgConn (Some ?n), ArgConn (Some a)] (aim_bstream_init [] 0);
       Some (ret, s) }"
    using handlerendconnect_step [OF assms(1,3) a assms(4), of fd cl ip port] assms(5,6) by auto
  define t where "t = (put_conn a (c\<lparr>conn_internal := None\<rparr>) (put_conn ?n nc
        (s\<lparr>next_addr := Suc ?n, connlist := ?n # connlist s\<rparr>)))\<lparr>objs := (objs s)(p \<mapsto> DirectimData ck sn ?addr)\<rparr>"
  have t: "mem_ok t" "conns t a = Some (c\<lparr>conn_internal := None\<rparr>)" "a < next_addr t"
    "conns t ?n = Some nc" "objs t p = Some (DirectimData ck sn ?addr)" "connlist t = ?n # connlist s"
    using assms(1) a by (simp_all add: t_def)
  have "aim_handlerendconnect cl t (Some a) (Accepted fd' True ip' port') = None"
    using handlerendconnect_step [OF t(1-3), of fd' cl ip' port'] assms(4) by auto
  moreover have "buf_string ?addr = Some (peer_addr ip port)"
    using snprintf_string(1) [OF peer_addr_fits(2)] peer_addr_fits(1) [of ip port] assms(7) by simp
  moreover have "aim_directim_getsn (Some ?n) t = Some (Some sn)"
    using nc t by (simp add: aim_directim_getsn_def)
  ultimately show ?thesis
    using step [OF refl] nc t by (intro exI [of _ t] exI [of _ nc] exI [of _ ?addr]) (simp add: t_def)
qed

theorem peer_accepted_witness:
  "\<exists>t. aim_handlerendconnect quiet_client (demo_direct [1, 2, 3, 4, 5, 6, 7, 8] []) (Some 0)
      (Accepted 6 True [192, 168, 0, 10] 4443) = Some (0, t) \<and>
    aim_directim_getsn (Some 2) t = Some (Some (replicate 33 0)) \<and>
    aim_handlerendconnect quiet_client t (Some 0) (Accepted 7 True [10, 0, 0, 1] 4443) = None"
proof -
  let ?ck = "[1, 2, 3, 4, 5, 6, 7, 8] :: u8 list"
  let ?s = "demo_direct ?ck []"
  obtain c where c: "conns ?s 0 = Some c" "conn_subtype c = AIM_CONN_SUBTYPE_OFT_DIRECTIM" "conn_internal c = Some 1"
    "conn_handlerlist c = [\<lparr>cb_family = AIM_CB_FAM_OFT, cb_type = AIM_CB_OFT_DIRECTIMINCOMING,
        cb_handler = UserCb 7, cb_flags = 0\<rparr>]"
    using demo_direct_conn [of ?ck "[]"] by auto
  have ok: "conns_ok ?s" "objs ?s 1 = Some (DirectimData ?ck (replicate 33 0) (replicate 22 0))"
    by (auto simp: demo_direct_def conns_ok_def demo_conn_def aim_conn_init_def)
  obtain t nc where t: "aim_handlerendconnect quiet_client ?s (Some 0) (Accepted 6 True [192, 168, 0, 10] 4443) = do {
      (ret, _, u) \<leftarrow> call_user quiet_client t (Some 2) AIM_CB_FAM_OFT AIM_CB_OFT_DIRECTIMINITIATE 0 None
        [ArgConn (Some 2), ArgConn (Some 0)] (aim_bstream_init [] 0);
      Some (ret, u) }" "conns t 2 = Some nc"
    "conn_handlerlist nc = filter (\<lambda>h. (cb_family h, cb_type h) \<notin> set dontuse) (conn_handlerlist c)" "aim_directim_getsn (Some 2) t = Some (Some (replicate 33 0))"
    "aim_handlerendconnect quiet_client t (Some 0) (Accepted 7 True [10, 0, 0, 1] 4443) = None"
    using peer_accepted [OF _ ok(1) c(1-3) ok(2), of quiet_client 6 "[192, 168, 0, 10]" 4443 7 "[10, 0, 0, 1]" 4443] by auto
  moreover have "\<exists>bs. call_user quiet_client t (Some 2) AIM_CB_FAM_OFT AIM_CB_OFT_DIRECTIMINITIATE 0 None
        [ArgConn (Some 2), ArgConn (Some 0)] (aim_bstream_init [] 0) = Some (0, bs, t)"
    using t(2,3) c(4)
    by (simp add: call_user_def aim_callhandler_def AIM_CB_FAM_OFT_def AIM_CB_OFT_DIRECTIMINCOMING_def
        AIM_CB_OFT_DIRECTIMINITIATE_def AIM_CB_SPECIAL_DEFAULT_def dontuse_def)
  ultimately show ?thesis by auto
qed

end
