(* ===== verification/Keeps.thy ===== *)
theory Keeps
  imports Im
begin

text \<open>
  Invariants of everything the library does with a session. \<open>okay st I m\<close> says that when \<open>m\<close> is
  defined, the session in its result, which \<open>st\<close> picks out, satisfies \<open>I\<close>; the rules of
  \<open>keeps\<close> take an operation apart along its binds. The locale \<open>core_stable\<close> has what follows for
  an invariant of the connections and queues alone, \<open>session_stable\<close> what follows when frames may be
  queued and callbacks run.
\<close>

section \<open>What most operations leave alone\<close>

text \<open>Neither the connections nor the queues nor the registry changed; addresses may have been given out.\<close>

definition core_kept :: "aim_session \<Rightarrow> aim_session \<Rightarrow> bool" where
  "core_kept s s' \<longleftrightarrow> conns s' = conns s \<and> connlist s' = connlist s \<and> queue_incoming s' = queue_incoming s \<and>
     queue_outgoing s' = queue_outgoing s \<and> next_addr s \<le> next_addr s' \<and> modlist s' = modlist s"

lemma core_kept_refl [simp]: "core_kept s s"
  by (simp add: core_kept_def)

lemma core_kept_trans: "core_kept s t \<Longrightarrow> core_kept t u \<Longrightarrow> core_kept s u"
  by (simp add: core_kept_def)

lemma core_kept_os: "os_only s s' \<Longrightarrow> core_kept s s'"
  by (simp add: core_kept_def frame_simps)

lemma data_only_modlist: "data_only s s' \<Longrightarrow> modlist s' = modlist s"
  unfolding data_only_def by (drule arg_cong [where f = modlist]) simp

lemma core_kept_data: "data_only s s' \<Longrightarrow> core_kept s s'"
  by (simp add: core_kept_def frame_simps data_only_modlist)

lemma malloc_core: "malloc s = (b, s') \<Longrightarrow> core_kept s s'"
  by (blast intro: core_kept_os malloc_os_only)

lemma rand_core: "rand_bytes n s = (rs, s') \<Longrightarrow> core_kept s s'"
proof (induction n arbitrary: s rs s')
  case (Suc n)
  obtain r t where r: "c_rand s = (r, t)" by (cases "c_rand s")
  obtain rs1 u where u: "rand_bytes n t = (rs1, u)" by (cases "rand_bytes n t")
  have "core_kept s t" using r by (auto simp: c_rand_def core_kept_def split: list.splits)
  with Suc.IH [OF u] Suc.prems r u show ?case by (auto intro: core_kept_trans)
qed auto

lemma addtlv_core: "aim_addtlvtochain_raw ts t l v s = Some (n, ts', s') \<Longrightarrow> core_kept s s'"
  by (auto simp: aim_addtlvtochain_raw_def createtlv_def Let_def split: prod.splits if_splits option.splits
      intro: core_kept_trans dest!: malloc_core)

lemma cachesnac_core: "aim_cachesnac s f t fl d = (i, s') \<Longrightarrow> core_kept s s'"
  by (auto simp: aim_cachesnac_def aim_newsnac_def malloc_eq Let_def core_kept_def split: option.splits if_splits)

text \<open>A new frame belongs to a live connection.\<close>

lemma tx_new_core:
  assumes "aim_tx_new s p framing ch n = Some (r, s')"
  shows "core_kept s s'"
    "r = Some fr \<Longrightarrow> fr_conn fr = p \<and> (\<exists>a. p = Some a \<and> conns s a \<noteq> None)"
  using assms
  by (auto simp: aim_tx_new_def malloc_eq new_addr_def Let_def core_kept_def
      split: option.splits bind_splits if_splits)

section \<open>Operations and invariants\<close>

named_theorems keeps \<open>operations keep the invariant\<close>

definition okay :: "('a \<Rightarrow> 's) \<Rightarrow> ('s \<Rightarrow> bool) \<Rightarrow> 'a option \<Rightarrow> bool" where
  "okay st I m \<longleftrightarrow> (\<forall>x. m = Some x \<longrightarrow> I (st x))"

definition st2 :: "'a \<times> aim_session \<Rightarrow> aim_session" where "st2 x = snd x"
definition st3 :: "'a \<times> 'b \<times> aim_session \<Rightarrow> aim_session" where "st3 x = snd (snd x)"
definition st4 :: "'a \<times> 'b \<times> 'c \<times> aim_session \<Rightarrow> aim_session" where "st4 x = snd (snd (snd x))"
definition st5 :: "'a \<times> 'b \<times> 'c \<times> 'd \<times> aim_session \<Rightarrow> aim_session" where "st5 x = snd (snd (snd (snd x)))"

lemma st_simps [simp]:
  "st2 (a, s) = s" "st3 (a, b, s) = s" "st4 (a, b, c, s) = s" "st5 (a, b, c, d, s) = s"
  by (simp_all add: st2_def st3_def st4_def st5_def)

lemma okay_simps [simp]: "okay st I (Some x) = I (st x)" "okay st I None"
  by (simp_all add: okay_def)

lemma okayD: "okay st I m \<Longrightarrow> m = Some x \<Longrightarrow> I (st x)"
  by (simp add: okay_def)

lemma okayI: "(\<And>x. m = Some x \<Longrightarrow> I (st x)) \<Longrightarrow> okay st I m"
  by (simp add: okay_def)

lemma okay_loop: "(\<And>x. m = Some x \<Longrightarrow> I s \<longrightarrow> I (st x)) \<Longrightarrow> I s \<Longrightarrow> okay st I m"
  by (simp add: okay_def)

lemma okay_results:
  "(\<And>s. m1 = Some s \<Longrightarrow> I s) \<Longrightarrow> okay (\<lambda>s. s) I m1"
  "(\<And>a s. m2 = Some (a, s) \<Longrightarrow> I s) \<Longrightarrow> okay st2 I m2"
  "(\<And>a b s. m3 = Some (a, b, s) \<Longrightarrow> I s) \<Longrightarrow> okay st3 I m3"
  "(\<And>a b c s. m4 = Some (a, b, c, s) \<Longrightarrow> I s) \<Longrightarrow> okay st4 I m4"
  "(\<And>a b c d s. m5 = Some (a, b, c, d, s) \<Longrightarrow> I s) \<Longrightarrow> okay st5 I m5"
  by (auto simp: okay_def)

lemma okay_bind:
  assumes "okay st I m" "\<And>x. I (st x) \<Longrightarrow> okay st' J (f x)"
  shows "okay st' J (m \<bind> f)"
  using assms by (cases m) auto

text \<open>Taking binds apart: the state is in the last place of a result or the result has none.\<close>

lemma okay_state [keeps]:
  "okay (\<lambda>s. s) I m \<Longrightarrow> (\<And>s. I s \<Longrightarrow> okay st I (f1 s)) \<Longrightarrow> okay st I (m \<bind> f1)"
  "okay st2 I m2 \<Longrightarrow> (\<And>a s. I s \<Longrightarrow> okay st I (f2 a s)) \<Longrightarrow> okay st I (m2 \<bind> (\<lambda>(a, s). f2 a s))"
  "okay st3 I m3 \<Longrightarrow> (\<And>a b s. I s \<Longrightarrow> okay st I (f3 a b s)) \<Longrightarrow> okay st I (m3 \<bind> (\<lambda>(a, b, s). f3 a b s))"
  "okay st4 I m4 \<Longrightarrow> (\<And>a b c s. I s \<Longrightarrow> okay st I (f4 a b c s)) \<Longrightarrow>
   okay st I (m4 \<bind> (\<lambda>(a, b, c, s). f4 a b c s))"
  "okay st5 I m5 \<Longrightarrow> (\<And>a b c d s. I s \<Longrightarrow> okay st I (f5 a b c d s)) \<Longrightarrow>
   okay st I (m5 \<bind> (\<lambda>(a, b, c, d, s). f5 a b c d s))"
  unfolding okay_def by (fastforce split: bind_splits)+

lemma okay_drop [keeps]:
  "okay st3 I m3 \<Longrightarrow> okay st2 I (m3 \<bind> (\<lambda>(a, y). Some y))"
  "okay st4 I m4 \<Longrightarrow> okay st3 I (m4 \<bind> (\<lambda>(a, y). Some y))"
  unfolding okay_def by (fastforce split: bind_splits)+

lemma okay_skip [keeps]:
  "(\<And>b. okay st I (g1 b)) \<Longrightarrow> okay st I (n1 \<bind> (\<lambda>b :: bstream. g1 b))"
  "(\<And>a b. okay st I (g2 a b)) \<Longrightarrow> okay st I (n2 \<bind> (\<lambda>(a, b :: bstream). g2 a b))"
  "(\<And>a c b. okay st I (g3 a c b)) \<Longrightarrow> okay st I (n3 \<bind> (\<lambda>(a, c, b :: bstream). g3 a c b))"
  "(\<And>w. okay st I (g4 w)) \<Longrightarrow> okay st I (n4 \<bind> (\<lambda>w :: 'w::len word. g4 w))"
  "(\<And>n. okay st I (g5 n)) \<Longrightarrow> okay st I (n5 \<bind> (\<lambda>n :: int. g5 n))"
  "(\<And>xs. okay st I (g6 xs)) \<Longrightarrow> okay st I (n6 \<bind> (\<lambda>xs :: 'b list. g6 xs))"
  "(\<And>c. n7 = Some c \<Longrightarrow> okay st I (g7 c)) \<Longrightarrow> okay st I (n7 \<bind> (\<lambda>c :: aim_conn. g7 c))"
  "(\<And>p. okay st I (g8 p)) \<Longrightarrow> okay st I (n8 \<bind> (\<lambda>p :: 'c option. g8 p))"
  "(\<And>i. okay st I (g9 i)) \<Longrightarrow> okay st I (n9 \<bind> (\<lambda>i :: conn_inside. g9 i))"
  "(\<And>t. okay st I (g10 t)) \<Longrightarrow> okay st I (n10 \<bind> (\<lambda>t :: tlv. g10 t))"
  "(\<And>k. okay st I (g11 k)) \<Longrightarrow> okay st I (n11 \<bind> (\<lambda>k :: nat. g11 k))"
  "(\<And>k. okay st I (g12 k)) \<Longrightarrow> okay st I (n12 \<bind> (\<lambda>k :: aim_msgcookie. g12 k))"
  unfolding okay_def by (fastforce split: bind_splits)+

lemma okay_prod [keeps]:
  "I (snd p2) \<Longrightarrow> (\<And>a s. I s \<Longrightarrow> okay st I (h2 a s)) \<Longrightarrow> okay st I (case p2 of (a, s :: aim_session) \<Rightarrow> h2 a s)"
  "I (snd (snd p3)) \<Longrightarrow> (\<And>a b s. I s \<Longrightarrow> okay st I (h3 a b s)) \<Longrightarrow>
   okay st I (case p3 of (a, b, s :: aim_session) \<Rightarrow> h3 a b s)"
  "(\<And>a b. okay st I (k2 a b)) \<Longrightarrow> okay st I (case q2 of (a, b :: bstream) \<Rightarrow> k2 a b)"
  by (auto split: prod.split)

lemma okay_let [keeps]:
  "I v \<Longrightarrow> (\<And>s. I s \<Longrightarrow> okay st I (h s)) \<Longrightarrow> okay st I (let s = v in h s)" for v :: aim_session
  by simp

section \<open>Invariants of connections and queues\<close>

locale core_stable =
  fixes I :: "aim_session \<Rightarrow> bool"
  assumes core: "I s \<Longrightarrow> core_kept s s' \<Longrightarrow> I s'"
begin

lemma core_iff: "core_kept s s' \<Longrightarrow> core_kept s' s \<Longrightarrow> I s' = I s"
  using core by blast

lemma fields [simp]:
  "I (s\<lparr>os_allocs := x1\<rparr>) = I s" "I (s\<lparr>os_rand := x2\<rparr>) = I s" "I (s\<lparr>os_errno := x3\<rparr>) = I s"
  "I (s\<lparr>os_now := x4\<rparr>) = I s" "I (s\<lparr>os_in := x5\<rparr>) = I s" "I (s\<lparr>os_out := x6\<rparr>) = I s"
  "I (s\<lparr>objs := x7\<rparr>) = I s" "I (s\<lparr>msgcookies := x8\<rparr>) = I s" "I (s\<lparr>snac_hash := x9\<rparr>) = I s"
  "I (s\<lparr>snacid_next := x10\<rparr>) = I s" "I (s\<lparr>sess_sn := x11\<rparr>) = I s" "I (s\<lparr>sess_flags := x12\<rparr>) = I s"
  "I (s\<lparr>sess_debug := x13\<rparr>) = I s" "I (s\<lparr>os_connect := x14\<rparr>) = I s"
  "I (s\<lparr>tx_enqueue := x15\<rparr>) = I s"
  by (rule core_iff; simp add: core_kept_def)+

lemma new_address:
  "I s \<Longrightarrow> I (s\<lparr>next_addr := Suc (next_addr s)\<rparr>)"
  "I s \<Longrightarrow> I (s\<lparr>os_allocs := x, next_addr := Suc (next_addr s)\<rparr>)"
  by (erule core, simp add: core_kept_def)+

text \<open>Allocation and the stores of outstanding entries.\<close>

lemma pure_ops [keeps]:
  "I s \<Longrightarrow> I (snd (malloc s))" "I s \<Longrightarrow> I (snd (rand_bytes n s))" "I s \<Longrightarrow> I (snd (aim_remsnac s i))"
  "I s \<Longrightarrow> I (snd (aim_cachesnac s f t fl d))" "I s \<Longrightarrow> I (snd (aim_uncachecookie s ck ty))"
  "I s \<Longrightarrow> I (snd (new_addr s))" "I s \<Longrightarrow> I (snd (createtlv s))"
proof -
  assume I: "I s"
  show "I (snd (malloc s))" by (rule core [OF I malloc_core]) (rule prod.collapse [symmetric])
  show "I (snd (rand_bytes n s))" by (rule core [OF I rand_core]) (rule prod.collapse [symmetric])
  show "I (snd (aim_cachesnac s f t fl d))" by (rule core [OF I cachesnac_core]) (rule prod.collapse [symmetric])
qed (simp_all add: aim_remsnac_def aim_uncachecookie_def new_addr_def new_address createtlv_def Let_def malloc_eq
    split: prod.split)

lemma mkcookie_okay [keeps]: "I s \<Longrightarrow> I (snd (aim_mkcookie c ty data s))"
  using new_address [of "s\<lparr>os_allocs := tl (os_allocs s)\<rparr>"] by (simp add: aim_mkcookie_def malloc_eq new_addr_def Let_def)

lemma free_okay [keeps]: "I s \<Longrightarrow> okay (\<lambda>s. s) I (free_obj p s)"
  by (auto simp: free_obj_def split: option.split)

lemma cookie_okay [keeps]:
  "I s \<Longrightarrow> okay st2 I (aim_cookie_free s ck)" "I s \<Longrightarrow> okay st2 I (aim_cachecookie s ck)"
proof -
  show "okay st2 I (aim_cookie_free s ck)" if "I s" for s ck
    using that by (auto simp: aim_cookie_free_def split: option.split intro!: keeps)
  then show "I s \<Longrightarrow> okay st2 I (aim_cachecookie s ck)"
    by (auto simp: aim_cachecookie_def split: option.split intro!: keeps)
qed

text \<open>Reading from streams.\<close>

lemma getraw_okay [keeps]:
  "I s \<Longrightarrow> okay st3 I (aimbs_getraw bs n s)" "I s \<Longrightarrow> okay st3 I (aimbs_getstr bs n s)"
  "I s \<Longrightarrow> okay st3 I (getstr_int bs n s)" "I s \<Longrightarrow> okay st3 I (getraw_int bs n s)"
  by (auto simp: aimbs_getraw_def aimbs_getstr_def getstr_int_def getraw_int_def Let_def intro!: keeps)

lemma readtlv_loop_okay: "readtlv_loop bs list s = Some x \<Longrightarrow> I s \<longrightarrow> I (st3 x)"
  by (erule readtlv_loop.raw_induct [rotated], rule impI, erule okayD [rotated])
    (auto simp: Let_def split: option.split intro!: keeps; rule okay_results; blast)

lemma readtlv_okay [keeps]: "I s \<Longrightarrow> okay st3 I (aim_readtlvchain bs s)"
  unfolding aim_readtlvchain_def by (rule okay_loop) (rule readtlv_loop_okay)

lemma gettlv_okay [keeps]:
  "I s \<Longrightarrow> okay st2 I (aim_gettlv_str ts t n s)" "I s \<Longrightarrow> okay st2 I (gettlv_cstr ts t s)"
proof -
  show "okay st2 I (aim_gettlv_str ts t n s)" if "I s" for ts t n s
    using that by (auto simp: aim_gettlv_str_def split: option.split intro!: keeps)
  then show "I s \<Longrightarrow> okay st2 I (gettlv_cstr ts t s)" by (auto simp: gettlv_cstr_def intro!: keeps)
qed

lemma getcap_loop_okay: "I s \<Longrightarrow> okay st3 I (getcap_loop bs off len flags s)"
proof (induction "nat (len - off)" arbitrary: bs off flags s rule: less_induct)
  case less
  then show ?case by (subst getcap_loop.simps) (auto intro!: keeps)
qed

lemma getcap_okay [keeps]: "I s \<Longrightarrow> okay st3 I (aim_getcap bs n s)"
  by (simp add: aim_getcap_def getcap_loop_okay)

lemma extract_tlv_okay [keeps]: "I s \<Longrightarrow> okay st3 I (extract_tlv t len bs ui s)"
  unfolding extract_tlv_def by (auto intro!: keeps)

lemma extract_loop_okay [keeps]: "I s \<Longrightarrow> okay st3 I (extract_loop n bs ui s)"
  by (induction n arbitrary: bs ui s) (auto simp: Let_def intro!: keeps)

lemma extractuserinfo_okay [keeps]: "I s \<Longrightarrow> okay st4 I (aim_extractuserinfo bs s)"
  unfolding aim_extractuserinfo_def Let_def by (auto intro!: keeps)

text \<open>Building chains and writing streams.\<close>

lemma addtlv_okay [keeps]:
  "I s \<Longrightarrow> okay st3 I (aim_addtlvtochain_raw ts t l v s)"
  "I s \<Longrightarrow> okay st3 I (aim_addtlvtochain16 ts t w s)" "I s \<Longrightarrow> okay st3 I (aim_addtlvtochain32 ts t d s)"
  "I s \<Longrightarrow> okay st3 I (aim_addtlvtochain_noval ts t s)" "I s \<Longrightarrow> okay st3 I (aim_addtlvtochain_caps ts t caps s)"
  "I s \<Longrightarrow> okay st3 I (aim_addtlvtochain_frozentlvlist ts t inner s)"
proof -
  show raw: "okay st3 I (aim_addtlvtochain_raw ts t l v s)" if "I s" for ts t l v s
    by (rule okayI) (use that core addtlv_core in fastforce)
  then show "I s \<Longrightarrow> okay st3 I (aim_addtlvtochain16 ts t w s)" "I s \<Longrightarrow> okay st3 I (aim_addtlvtochain32 ts t d s)"
    "I s \<Longrightarrow> okay st3 I (aim_addtlvtochain_noval ts t s)" "I s \<Longrightarrow> okay st3 I (aim_addtlvtochain_caps ts t caps s)"
    "I s \<Longrightarrow> okay st3 I (aim_addtlvtochain_frozentlvlist ts t inner s)"
    by (auto simp: aim_addtlvtochain16_def aim_addtlvtochain32_def aim_addtlvtochain_noval_def
        aim_addtlvtochain_caps_def aim_addtlvtochain_frozentlvlist_def Let_def intro!: keeps)
qed

lemma add_okay [keeps]:
  "I s \<Longrightarrow> okay st2 I (add_str ts t str s)" "I s \<Longrightarrow> okay st2 I (add_opt ts t ostr s)"
  "I s \<Longrightarrow> okay st2 I (add16 ts t w s)" "I s \<Longrightarrow> okay st2 I (add_noval_if b ts t s)"
  "I s \<Longrightarrow> okay st2 I (put_chain ts bs s)"
  by (auto simp: add_str_def add_opt_def add16_def add_noval_if_def put_chain_def split: option.split intro!: keeps)

lemma userinfo_okay [keeps]:
  "I s \<Longrightarrow> okay st2 I (userinfo_chain ui s)" "I s \<Longrightarrow> okay st3 I (aim_putuserinfo bs ui s)"
  "I s \<Longrightarrow> okay st3 I (aim_addtlvtochain_userinfo ts t ui s)"
proof -
  have add: "okay st2 I (add_if b f p)" if "I (snd p)" "\<And>ts s. I s \<Longrightarrow> okay st3 I (f ts s)" for b f p
    using that by (auto simp: add_if_def st2_def st3_def okay_def split: bind_splits)
  show chain: "okay st2 I (userinfo_chain ui s)" if "I s" for ui s
    using that unfolding userinfo_chain_def Let_def
    by (intro okay_bind [where st = st2 and I = I] add) (auto simp: st2_def intro!: keeps)
  show put: "okay st3 I (aim_putuserinfo bs ui s)" if "I s" for bs ui s
    using that chain by (auto simp: aim_putuserinfo_def intro!: keeps)
  show "I s \<Longrightarrow> okay st3 I (aim_addtlvtochain_userinfo ts t ui s)"
    by (auto simp: aim_addtlvtochain_userinfo_def intro!: keeps put)
qed

lemma itemidx_okay [keeps]: "I s \<Longrightarrow> okay st2 I (aimutil_itemidx str i dl s)"
  by (auto simp: aimutil_itemidx_def Let_def malloc_eq split: option.split prod.split)

text \<open>Interpreted with \<open>core_kept s\<close> the rules give what an operation leaves alone.\<close>

end

interpretation core: core_stable "core_kept s" for s
  by unfold_locales (rule core_kept_trans)

section \<open>Queueing frames and running callbacks\<close>

text \<open>
  An invariant that also survives the changes operations make to connections and queues: new values in
  a connection that keeps its private part and its session, a frame of a live connection at the end of
  the outgoing queue, and an immediate transmission.
\<close>

locale session_stable = core_stable +
  assumes connection: "I s \<Longrightarrow> conns s a = Some c \<Longrightarrow> conn_inside d \<noteq> None \<or> conn_inside d = conn_inside c \<Longrightarrow>
      conn_sessv d = conn_sessv c \<Longrightarrow> I (put_conn a d s)"
    and enqueued: "I s \<Longrightarrow> aim_tx_enqueue cl s fr = Some (r, s') \<Longrightarrow> fr_conn fr = Some a \<Longrightarrow> conns s a \<noteq> None \<Longrightarrow>
      (\<And>n f t q t'. I t \<Longrightarrow> cl_tx cl n f t = Some (q, t') \<Longrightarrow> I t') \<Longrightarrow> I s'"
    and closing: "I s \<Longrightarrow> aim_conn_close p s = Some s' \<Longrightarrow> I s'"
    and grouping: "I s \<Longrightarrow> aim_conn_addgroup p g s = Some s' \<Longrightarrow> I s'"
begin

text \<open>A client that does not break the invariant.\<close>

definition polite :: "client \<Rightarrow> bool" where
  "polite cl \<longleftrightarrow>
     (\<forall>n fr args bs t q bs' t'. I t \<and> cl_callback cl n fr args bs t = Some (q, bs', t') \<longrightarrow> I t') \<and>
     (\<forall>n f t q t'. I t \<and> cl_tx cl n f t = Some (q, t') \<longrightarrow> I t')"

lemma politeD:
  "polite cl \<Longrightarrow> I t \<Longrightarrow> cl_callback cl n fr args bs t = Some (q, bs', t') \<Longrightarrow> I t'"
  "polite cl \<Longrightarrow> I t \<Longrightarrow> cl_tx cl n f t = Some (q, t') \<Longrightarrow> I t'"
  unfolding polite_def by blast+

lemma callback_okay [keeps]: "polite cl \<Longrightarrow> I s \<Longrightarrow> okay st3 I (cl_callback cl n fr args bs s)"
  by (rule okay_results) (rule politeD)

lemma call_okay [keeps]:
  assumes "polite cl" "I s"
  shows "okay st3 I (call_cb cl h fr args bs s)" "okay st3 I (call_user cl s p f t d fr args bs)"
proof -
  show "okay st3 I (call_cb cl h fr args bs s)" for h
    using assms by (cases h) (auto simp: call_cb_def intro!: keeps)
  then show "okay st3 I (call_user cl s p f t d fr args bs)"
    using assms by (auto simp: call_user_def intro!: keeps split: option.split)
qed

text \<open>Sending a frame: what comes between allocating and queueing it leaves the connections alone.\<close>

lemma new_frame_okay:
  assumes "polite cl" "I s" "aim_tx_new s p framing ch n = Some (Some fr, s1)" "core_kept s1 s2"
  shows "okay st2 I (aim_tx_enqueue cl s2 (fr\<lparr>fr_data := bs\<rparr>))"
proof (rule okay_results)
  fix r s3 assume q: "aim_tx_enqueue cl s2 (fr\<lparr>fr_data := bs\<rparr>) = Some (r, s3)"
  note new = tx_new_core(1) [OF assms(3)] tx_new_core(2) [OF assms(3) refl]
  have core2: "core_kept s s2" by (rule core_kept_trans [OF new(1) assms(4)])
  then obtain a where a: "fr_conn fr = Some a" "conns s2 a \<noteq> None" using new(2) by (auto simp: core_kept_def)
  show "I s3" by (rule enqueued [OF core [OF assms(2) core2] q, of a]) (use a politeD(2) [OF assms(1)] in auto)
qed

lemma snac_frame_okay [keeps]:
  assumes "polite cl" "I s" "\<And>s. okay st2 (core_kept s) (newid s)" "\<And>bs s. okay st2 (core_kept s) (body bs s)"
  shows "okay st2 I (snac_frame cl s conn len newid f t body)"
proof (cases "aim_tx_new s conn AIM_FRAMETYPE_FLAP 0x02 len")
  case (Some x)
  obtain fr s1 where x: "x = (fr, s1)" by (cases x)
  have core1: "core_kept s s1" using tx_new_core(1) Some x by blast
  show ?thesis
  proof (cases fr)
    case None
    with Some x core [OF assms(2) core1] show ?thesis by (simp add: snac_frame_def)
  next
    case fr: (Some fr)
    have "okay st2 I (aim_tx_enqueue cl s3 (fr\<lparr>fr_data := bs3\<rparr>))"
      if "newid s1 = Some (i, s2)" "body bs s2 = Some (bs3, s3)" for i s2 bs bs3 s3
      using new_frame_okay [OF assms(1,2) Some [unfolded x fr]] core_kept_trans
        okayD [OF assms(3) that(1)] okayD [OF assms(4) that(2)] by auto
    then show ?thesis
      using Some x fr by (auto simp: snac_frame_def okay_def st2_def split: bind_splits)
  qed
qed (simp add: snac_frame_def)

lemma flap_frame_okay [keeps]:
  assumes "polite cl" "I s" "\<And>bs s. okay st2 (core_kept s) (body bs s)"
  shows "okay st2 I (flap_frame cl s conn ch len body)"
proof (cases "aim_tx_new s conn AIM_FRAMETYPE_FLAP ch len")
  case (Some x)
  obtain fr s1 where x: "x = (fr, s1)" by (cases x)
  have core1: "core_kept s s1" using tx_new_core(1) Some x by blast
  show ?thesis
  proof (cases fr)
    case None
    with Some x core [OF assms(2) core1] show ?thesis by (simp add: flap_frame_def)
  next
    case fr: (Some fr)
    have "okay st2 I (aim_tx_enqueue cl s3 (fr\<lparr>fr_data := bs3\<rparr>))" if "body bs s1 = Some (bs3, s3)" for bs bs3 s3
      using new_frame_okay [OF assms(1,2) Some [unfolded x fr]] okayD [OF assms(3) that] by auto
    then show ?thesis
      using Some x fr by (auto simp: flap_frame_def okay_def st2_def split: bind_splits)
  qed
qed (simp add: flap_frame_def)

lemma cached_id_core [keeps]: "okay st2 (core_kept s) (cached_id f t d s)"
  by (rule okay_results) (auto simp: cached_id_def dest: cachesnac_core)

lemma genericreq_okay [keeps]:
  assumes "polite cl" "I s"
  shows "okay st2 I (aim_genericreq_n cl s conn f t)" "okay st2 I (aim_genericreq_n_snacid cl s conn f t)"
    "okay st2 I (aim_genericreq_l cl s conn f t l)" "okay st2 I (aim_genericreq_s cl s conn f t w)"
proof -
  show n: "okay st2 I (aim_genericreq_n cl s conn f t)" for f t
    using assms by (auto simp: aim_genericreq_n_def no_body_def intro!: keeps)
  show "okay st2 I (aim_genericreq_n_snacid cl s conn f t)"
    using assms by (auto simp: aim_genericreq_n_snacid_def no_body_def intro!: keeps)
  show "okay st2 I (aim_genericreq_l cl s conn f t l)" "okay st2 I (aim_genericreq_s cl s conn f t w)"
    using assms n by (auto simp: aim_genericreq_l_def aim_genericreq_s_def split: option.split intro!: keeps)
qed

end

end
