(* ===== verification/Intact.thy ===== *)
theory Intact
  imports Keeps Icq Buddylist Admin Search Ssi
begin

text \<open>
  Every handler of the modules and every request of the client keeps the invariants of
  \<open>Keeps\<close>, whatever the server sends and whatever the arguments are, provided callbacks do.
\<close>

section \<open>Reading replies\<close>

context core_stable
begin

lemma parse_item_okay [keeps]: "I s \<Longrightarrow> okay st3 I (parse_item bs s)"
  unfolding parse_item_def Let_def by (auto intro!: keeps)

lemma parsedata_loop_okay: "parsedata_loop bs list s = Some x \<Longrightarrow> I s \<longrightarrow> I (st3 x)"
  by (erule parsedata_loop.raw_induct [rotated], rule impI, erule okayD [rotated])
    (auto simp: Let_def intro!: keeps; rule okay_results; blast)

lemma parsedata_loop_keeps [keeps]: "I s \<Longrightarrow> okay st3 I (parsedata_loop bs list s)"
  by (rule okay_loop) (rule parsedata_loop_okay)

lemma info_texts_okay [keeps]: "I s \<Longrightarrow> okay st4 I (info_texts t ts ui s)"
  unfolding info_texts_def Let_def by (auto split: option.split intro!: keeps)

lemma search_loop_okay [keeps]: "I s \<Longrightarrow> okay st3 I (search_loop ts m j buf s)"
proof (induction "nat (m - j)" arbitrary: j buf s rule: less_induct)
  case less
  then show ?case by (subst search_loop.simps) (auto simp: Let_def split: option.split intro!: keeps)
qed

lemma rates_okay [keeps]:
  "I s \<Longrightarrow> okay st3 I (rates_classes m n rates bs s)" "I s \<Longrightarrow> okay st3 I (rates_pairs rc n rates bs s)"
  "I s \<Longrightarrow> okay st3 I (rates_members n rates bs s)"
proof -
  have add: "I s \<Longrightarrow> I (snd (rc_addclass rates rc s))" "I s \<Longrightarrow> I (snd (rc_addpair c g t s))" for rates rc s c g t
    by (auto simp: rc_addclass_def rc_addpair_def malloc_eq Let_def)
  show "I s \<Longrightarrow> okay st3 I (rates_classes m n rates bs s)" for n rates bs s
    by (induction n arbitrary: rates bs s) (auto simp: Let_def intro!: keeps add)
  show pairs: "I s \<Longrightarrow> okay st3 I (rates_pairs rc n rates bs s)" for rc n rates bs s
    by (induction n arbitrary: rates bs s) (auto simp: Let_def split: option.split intro!: keeps add)
  show "I s \<Longrightarrow> okay st3 I (rates_members n rates bs s)" for n rates bs s
    by (induction n arbitrary: rates bs s) (auto intro!: keeps pairs)
qed

lemma read_exchange_okay [keeps]: "I s \<Longrightarrow> okay st2 I (read_exchange t s)"
  unfolding read_exchange_def Let_def by (auto intro!: keeps)

lemma readroominfo_okay [keeps]: "I s \<Longrightarrow> okay st5 I (aim_chat_readroominfo bs s)"
  unfolding aim_chat_readroominfo_def by (auto intro!: keeps)

lemma read_occupants_okay [keeps]: "I s \<Longrightarrow> okay st3 I (read_occupants n bs s)"
  by (induction n arbitrary: bs s) (auto intro!: keeps)

lemma userlist_loop_okay: "userlist_loop uis bs s = Some x \<Longrightarrow> I s \<longrightarrow> I (st3 x)"
  by (erule userlist_loop.raw_induct [rotated], rule impI, erule okayD [rotated])
    (auto simp: Let_def intro!: keeps; rule okay_results; blast)

lemma userlist_loop_keeps [keeps]: "I s \<Longrightarrow> okay st3 I (userlist_loop uis bs s)"
  by (rule okay_loop) (rule userlist_loop_okay)

lemma icq_str_okay [keeps]: "I s \<Longrightarrow> okay st3 I (icq_str bs s)"
  unfolding icq_str_def by (auto intro!: keeps)

text \<open>Parsing messages.\<close>

lemma addsection_okay [keeps]: "I s \<Longrightarrow> I (snd (snd (mpmsg_addsection mpm a b d n s)))"
  by (auto simp: mpmsg_addsection_def Let_def malloc_eq)

lemma outgoing_msgblock_okay [keeps]: "I s \<Longrightarrow> okay st4 I (outgoing_msgblock t s)"
  unfolding outgoing_msgblock_def Let_def by (auto intro!: keeps)

lemma parts_loop_okay: "parts_loop bs mpm s = Some x \<Longrightarrow> I s \<longrightarrow> I (st2 x)"
  by (erule parts_loop.raw_induct [rotated], rule impI, erule okayD [rotated])
    (auto simp: Let_def intro!: keeps; rule okay_results; blast)

lemma parts_loop_keeps [keeps]: "I s \<Longrightarrow> okay st2 I (parts_loop bs mpm s)"
  by (rule okay_loop) (rule parts_loop_okay)

lemma parsemsgs_okay [keeps]: "I s \<Longrightarrow> okay st2 I (incomingim_ch1_parsemsgs d n args s)"
  unfolding incomingim_ch1_parsemsgs_def Let_def
  by (auto intro!: keeps split: option.split)

lemma okay_skip_args [keeps]:
  "(\<And>a b. okay st I (g a b)) \<Longrightarrow> okay st I (m \<bind> (\<lambda>(a :: bstream, b :: ch1_args). g a b))"
  unfolding okay_def by (fastforce split: bind_splits)

lemma ch1_tlv_okay [keeps]: "I s \<Longrightarrow> okay st3 I (ch1_tlv t n bs args s)"
  unfolding ch1_tlv_def ch1_message_def Let_def by (auto intro!: keeps)

lemma ch1_loop_okay: "ch1_loop bs args s = Some x \<Longrightarrow> I s \<longrightarrow> I (st3 x)"
  by (erule ch1_loop.raw_induct [rotated], rule impI, erule okayD [rotated])
    (auto simp: Let_def intro!: keeps; rule okay_results; blast)

lemma ch1_loop_keeps [keeps]: "I s \<Longrightarrow> okay st3 I (ch1_loop bs args s)"
  by (rule okay_loop) (rule ch1_loop_okay)

lemma skip_names_okay [keeps]: "I s \<Longrightarrow> okay st2 I (skip_names n bs s)"
  by (induction n arbitrary: bs s) (auto intro!: keeps)

lemma ch2_buddylist_okay: "incomingim_ch2_buddylist bs s = Some x \<Longrightarrow> I s \<longrightarrow> I x"
  by (erule incomingim_ch2_buddylist.raw_induct [rotated], rule impI, erule okayD [rotated])
    (auto split: option.split intro!: keeps; rule okay_results; blast)

lemma ch2_buddylist_keeps [keeps]: "I s \<Longrightarrow> okay (\<lambda>s. s) I (incomingim_ch2_buddylist bs s)"
  by (rule okay_loop) (rule ch2_buddylist_okay)

lemma ch2_service_okay [keeps]: "I s \<Longrightarrow> okay st2 I (ch2_service args bs s)"
  by (auto simp: ch2_service_def Let_def incomingim_ch2_buddyicon_def incomingim_ch2_chat_def
      incomingim_ch2_icqserverrelay_def split: option.split intro!: keeps)

lemma ch2_header_okay [keeps]: "I s \<Longrightarrow> okay st5 I (ch2_header t ck s)"
  unfolding ch2_header_def by (auto intro!: keeps)

end

section \<open>The modules\<close>

context session_stable
begin

lemma misc_okay [keeps]: "polite cl \<Longrightarrow> I s \<Longrightarrow> okay st3 I (misc_snachandler cl m rx snac bs s)"
  by (auto simp: misc_snachandler_def generror_def Let_def intro!: keeps)

lemma locate_okay [keeps]: "polite cl \<Longrightarrow> I s \<Longrightarrow> okay st3 I (locate_snachandler cl m rx snac bs s)"
  by (auto simp: locate_snachandler_def locate_rights_def locate_userinfo_def Let_def
      split: option.split snac_data.split intro!: keeps)

lemma buddylist_okay [keeps]: "polite cl \<Longrightarrow> I s \<Longrightarrow> okay st3 I (buddylist_snachandler cl m rx snac bs s)"
  by (auto simp: buddylist_snachandler_def buddylist_rights_def buddychange_def intro!: keeps)

lemma bos_okay [keeps]: "polite cl \<Longrightarrow> I s \<Longrightarrow> okay st3 I (bos_snachandler cl m rx snac bs s)"
  by (auto simp: bos_snachandler_def bos_rights_def intro!: keeps)

lemma infochange_tlvs_okay [keeps]:
  "polite cl \<Longrightarrow> I s \<Longrightarrow> okay st2 I (infochange_tlvs cl rx snac perms n bs s)"
  by (induction n arbitrary: bs s) (auto simp: Let_def intro!: keeps)

lemma infochange_loop_okay: "infochange_loop cl rx snac bs s = Some x \<Longrightarrow> polite cl \<and> I s \<longrightarrow> I (st2 x)"
  by (erule infochange_loop.raw_induct [rotated], rule impI, erule okayD [rotated])
    (auto intro!: keeps; rule okay_results; blast)

lemma admin_okay [keeps]:
  assumes "polite cl" "I s"
  shows "okay st3 I (admin_snachandler cl m rx snac bs s)"
proof -
  have "okay st2 I (infochange_loop cl rx snac bs s)"
    by (rule okayI) (use assms infochange_loop_okay in blast)
  then show ?thesis
    using assms by (auto simp: admin_snachandler_def infochange_def accountconfirm_def intro!: keeps)
qed

lemma search_okay [keeps]: "polite cl \<Longrightarrow> I s \<Longrightarrow> okay st3 I (search_snachandler cl m rx snac bs s)"
  by (auto simp: search_snachandler_def search_error_def search_reply_def Let_def intro!: keeps)

lemma notices_okay [keeps]:
  "polite cl \<Longrightarrow> I s \<Longrightarrow> okay st3 I (stats_snachandler cl m rx snac bs s)"
  "polite cl \<Longrightarrow> I s \<Longrightarrow> okay st3 I (popups_snachandler cl m rx snac bs s)"
  "I s \<Longrightarrow> okay st3 I (adverts_snachandler m rx snac bs s)"
  by (auto simp: stats_snachandler_def reportinterval_def popups_snachandler_def parsepopup_def
      adverts_snachandler_def intro!: keeps)

lemma ssi_okay [keeps]: "polite cl \<Longrightarrow> I s \<Longrightarrow> okay st3 I (ssi_snachandler cl m rx snac bs s)"
  by (auto simp: ssi_snachandler_def parserights_def parsedata_def parsedataunchanged_def intro!: keeps)

lemma auth_okay [keeps]: "polite cl \<Longrightarrow> I s \<Longrightarrow> okay st3 I (auth_snachandler cl m rx snac bs s)"
  by (auto simp: auth_snachandler_def auth_parse_def keyparse_def Let_def split: option.split intro!: keeps)

lemma perms_loop_okay [keeps]: "I s \<Longrightarrow> okay st2 I (perms_loop ts n xs s)"
proof (induction ts n xs s rule: perms_loop.induct)
  case (1 ts n xs s)
  have "okay st2 I (perms_loop ts (n + 1) (xs @ [x]) s1)"
    if "aim_gettlv ts 3 (int n + 1) = Some t" "read_exchange t s = Some (x, s1)" for t x s1
    using 1 that okayD [OF read_exchange_okay that(2)] by simp
  with 1(2) show ?case
    by (subst perms_loop.simps) (auto simp: okay_def split: bind_splits option.splits)
qed

lemma chatnav_okay [keeps]: "polite cl \<Longrightarrow> I s \<Longrightarrow> okay st3 I (chatnav_snachandler cl m rx snac bs s)"
  by (auto simp: chatnav_snachandler_def chatnav_parseinfo_def parseinfo_perms_def parseinfo_create_def Let_def
      split: option.split intro!: keeps)

lemma chat_okay [keeps]: "polite cl \<Longrightarrow> I s \<Longrightarrow> okay st3 I (chat_snachandler cl m rx snac bs s)"
  by (auto simp: chat_snachandler_def infoupdate_def userlistchange_def chat_incomingmsg_def Let_def
      split: option.split intro!: keeps)

lemma icq_okay [keeps]: "polite cl \<Longrightarrow> I s \<Longrightarrow> okay st3 I (icq_snachandler cl m rx snac bs s)"
  by (auto simp: icq_snachandler_def icqresponse_def icq_offlinemsg_def icq_simpleinfo_def
      split: option.split intro!: keeps)

text \<open>The general module: the connection is the one the handler began with.\<close>

lemma setversions_okay [keeps]: "polite cl \<Longrightarrow> I s \<Longrightarrow> okay st2 I (aim_setversions cl s conn)"
  by (auto simp: aim_setversions_def split: option.split intro!: keeps)

lemma hostonline_loop_okay [keeps]: "I s \<Longrightarrow> okay st2 I (hostonline_loop conn cap n bs s)"
proof (induction conn cap n bs s rule: hostonline_loop.induct)
  case (1 conn cap n bs s)
  then show ?case
    by (subst hostonline_loop.simps) (auto simp: okay_def split: bind_splits dest: grouping)
qed

lemma rates_param_okay [keeps]: "polite cl \<Longrightarrow> I s \<Longrightarrow> okay st2 I (rates_param t cl s conn)"
  by (auto simp: rates_param_def intro!: keeps)

lemma rateresp_okay [keeps]:
  assumes "polite cl" "I s"
  shows "okay st3 I (rateresp cl m rx snac bs s)"
proof (rule okay_results)
  fix r bs' s' assume step: "rateresp cl m rx snac bs s = Some (r, bs', s')"
  then obtain a c ins where c: "fr_conn rx = Some a" "conns s a = Some c" "conn_inside c = Some ins"
    by (auto simp: rateresp_def split: bind_splits)
  let ?put = "\<lambda>rates. put_conn a (c\<lparr>conn_inside := Some (ins\<lparr>in_rates := rates\<rparr>)\<rparr>)"
  from step c obtain n :: u16 and bs1 rates1 bs2 s2 rates2 bs3 s3 where
    r1: "rates_classes m (unat n) (in_rates ins) bs1 s = Some (rates1, bs2, s2)"
    and r2: "rates_members (unat n) rates1 bs2 s2 = Some (rates2, bs3, s3)"
    and left: "do { (_, s) \<leftarrow> aim_rates_addparam cl (?put rates2 s3) (fr_conn rx);
       (_, bs, s) \<leftarrow> call_user cl s (fr_conn rx) AIM_CB_FAM_SPECIAL AIM_CB_SPECIAL_CONNINITDONE 0 (Some rx) [] bs3;
       Some (1, bs, s) } = Some (r, bs', s')"
    by (auto simp: rateresp_def Let_def split: bind_splits)
  have "core_kept s s3"
    using okayD [OF core.rates_okay(1) [OF core_kept_refl] r1] okayD [OF core.rates_okay(3) [OF core_kept_refl] r2]
      core_kept_trans by auto
  then have s3: "I s3" "conns s3 a = Some c"
    using c(2) core [OF assms(2)] by (auto simp: core_kept_def)
  have "I (?put rates2 s3)" by (rule connection [OF s3]) simp_all
  with assms(1) have "okay st3 I (do { (_, s) \<leftarrow> aim_rates_addparam cl (?put rates2 s3) (fr_conn rx);
       (_, bs, s) \<leftarrow> call_user cl s (fr_conn rx) AIM_CB_FAM_SPECIAL AIM_CB_SPECIAL_CONNINITDONE 0 (Some rx) [] bs3;
       Some (1 :: int, bs, s) })"
    unfolding aim_rates_addparam_def by (auto intro!: keeps)
  from okayD [OF this left] show "I s'" by simp
qed

lemma service_okay [keeps]: "polite cl \<Longrightarrow> I s \<Longrightarrow> okay st3 I (general_snachandler cl m rx snac bs s)"
  by (auto simp: general_snachandler_def hostonline_def redirect_def ratechange_def serverpause_def serverresume_def
      selfinfo_def evilnotify_def migrate_def motd_def hostversions_def memrequest_def aim_reqrates_def Let_def malloc_eq
      split: option.split snac_data.split intro!: keeps)

text \<open>The messaging module.\<close>

lemma missedcall_loop_okay:
  "missedcall_loop cl rx snac ret bs s = Some x \<Longrightarrow> polite cl \<and> I s \<longrightarrow> I (st3 x)"
  by (erule missedcall_loop.raw_induct [rotated], rule impI, erule okayD [rotated])
    (auto intro!: keeps; rule okay_results; blast)

lemma missedcall_okay [keeps]: "polite cl \<Longrightarrow> I s \<Longrightarrow> okay st3 I (missedcall cl m rx snac bs s)"
  unfolding missedcall_def by (rule okayI) (use missedcall_loop_okay in blast)

lemma outgoingim_okay [keeps]: "polite cl \<Longrightarrow> I s \<Longrightarrow> okay st3 I (outgoingim cl m rx snac bs s)"
  unfolding outgoingim_def Let_def by (auto split: option.split intro!: keeps)

lemma incomingim_okay [keeps]: "polite cl \<Longrightarrow> I s \<Longrightarrow> okay st3 I (incomingim cl m rx snac bs s)"
  by (auto simp: incomingim_def incomingim_ch1_def incomingim_ch2_def Let_def intro!: keeps)

lemma msg_okay [keeps]: "polite cl \<Longrightarrow> I s \<Longrightarrow> okay st3 I (msg_snachandler cl m rx snac bs s)"
  by (auto simp: msg_snachandler_def paraminfo_def clienterr_def msgack_def intro!: keeps)


end

end
