(* ===== verification/Asking.thy ===== *)
theory Asking
  imports Intact
begin

text \<open>
  Every request of the client keeps the invariants of \<open>Keeps\<close>, whatever its arguments are, and the
  functions of the library that a client calls to send something, as one relation.
\<close>

section \<open>Bodies of requests\<close>

context core_stable
begin

lemma visibility_okay [keeps]: "I s \<Longrightarrow> okay st2 I (visibility_loop str n i bs s)"
proof (induction str n i bs s rule: visibility_loop.induct)
  case (1 str n i bs s)
  then show ?case
    by (subst visibility_loop.simps) (auto simp: okay_def split: bind_splits dest: okayD [OF itemidx_okay])
qed

lemma chatroom_okay [keeps]: "I s \<Longrightarrow> okay st2 I (aim_addtlvtochain_chatroom ts t ex name inst s)"
  unfolding aim_addtlvtochain_chatroom_def Let_def by (auto intro!: keeps)

lemma invite_block_okay [keeps]: "I s \<Longrightarrow> okay st2 I (invite_block ck msg ex name inst s)"
  unfolding invite_block_def Let_def by (auto intro!: keeps)

lemma cached_id_okay [keeps]: "I s \<Longrightarrow> okay st2 I (cached_id f t d s)"
  by (simp add: cached_id_def st2_def pure_ops)

lemma cleansnacs_okay [keeps]: "I s \<Longrightarrow> I (aim_cleansnacs s n)"
  by (simp add: aim_cleansnacs_def)

lemma put_names_okay [keeps]: "I s \<Longrightarrow> okay st2 I (put_names names bs s)"
  by (induction names arbitrary: bs s) (auto intro!: keeps)

lemma invite_okay [keeps]: "I s \<Longrightarrow> I (snd (invite_cookie s))" "I s \<Longrightarrow> I (snd (invite_priv sn name ex inst s))"
proof -
  have dup: "I s \<Longrightarrow> I (snd (c_strdup str s))" for str s by (simp add: c_strdup_def malloc_eq Let_def)
  show "I s \<Longrightarrow> I (snd (invite_cookie s))" by (simp add: invite_cookie_def pure_ops split_beta Let_def)
  show "I s \<Longrightarrow> I (snd (invite_priv sn name ex inst s))"
    by (simp add: invite_priv_def dup pure_ops malloc_eq split_beta Let_def)
qed

end

section \<open>Requests\<close>

context session_stable
begin

lemma admin_requests [keeps]:
  assumes "polite cl" "I s"
  shows "okay st2 I (aim_admin_changepasswd cl s conn cur new)" "okay st2 I (aim_admin_reqconfirm cl s conn)"
    "okay st2 I (aim_admin_getinfo cl s conn info)" "okay st2 I (aim_admin_setemail cl s conn email)"
    "okay st2 I (aim_admin_setnick cl s conn nick)"
  using assms by (auto simp: aim_admin_changepasswd_def aim_admin_reqconfirm_def aim_admin_getinfo_def
      aim_admin_setemail_def aim_admin_setnick_def Let_def intro!: keeps)

lemma login_requests [keeps]:
  assumes "polite cl" "I s"
  shows "okay st2 I (aim_sendcookie cl s conn ck)" "okay st2 I (aim_sendflapver cl s conn)"
    "okay st2 I (aim_send_login cl s conn osn pw ci key)"
  using assms by (auto simp: aim_sendcookie_def aim_sendflapver_def aim_send_login_def goddamnicq2_def Let_def malloc_eq
      split: option.split intro!: keeps)

lemma goddamnicq_okay [keeps]: "polite cl \<Longrightarrow> I s \<Longrightarrow> okay st2 I (goddamnicq cl s conn sn)"
  by (auto simp: goddamnicq_def Let_def split: option.split rxhandler.split intro!: keeps)

lemma request_login_okay:
  assumes "polite cl" "I s" "aim_request_login cl (Some s) conn sn = Some (r, Some s')"
  shows "I s'"
proof -
  have snac: "okay st2 I (do { (_, s) \<leftarrow> aim_sendflapver cl (s\<lparr>sess_flags := f\<rparr>) conn;
      snac_frame cl s conn n (cached_id 0x0017 0x0006 None) 0x0017 0x0006
        (\<lambda>bs s. do { (ts, s) \<leftarrow> add_str [] 0x0001 name s; put_chain ts bs s }) })" for f n name
    using assms(1,2) by (auto intro!: keeps)
  show ?thesis
    using assms(3) okayD [OF goddamnicq_okay [OF assms(1,2)]] okayD [OF snac] assms(2)
    by (auto simp: aim_request_login_def Let_def split: option.splits if_splits)
qed

lemma buddy_requests [keeps]:
  assumes "polite cl" "I s"
  shows "okay st2 I (aim_add_buddy cl s conn sn)" "okay st2 I (aim_remove_buddy cl s conn sn)"
    "okay st2 I (aim_bos_reqrights cl s conn)" "okay st2 I (aim_bos_setgroupperm cl s conn msk)"
    "okay st2 I (aim_bos_changevisibility cl s conn ch dl)"
  using assms by (auto simp: aim_add_buddy_def aim_remove_buddy_def aim_bos_reqrights_def aim_bos_setgroupperm_def
      aim_bos_changevisibility_def Let_def split: option.split intro!: keeps)

lemma chat_requests [keeps]:
  assumes "polite cl" "I s"
  shows "okay st2 I (aim_chat_send_im cl s conn fl msg n)" "okay st2 I (aim_chat_join cl s conn ex name inst)"
    "okay st2 I (aim_chat_invite cl s conn sn msg ex name inst)" "okay st2 I (aim_chatnav_reqrights cl s conn)"
    "okay st2 I (aim_chatnav_createroom cl s conn room_name ex)"
  using assms by (auto simp: aim_chat_send_im_def aim_chat_join_def aim_chat_invite_def aim_chatnav_reqrights_def
      aim_chatnav_createroom_def Let_def split: option.split prod.split intro!: keeps)

lemma icq_frame_okay [keeps]:
  assumes "polite cl" "I s"
  shows "okay st2 I (icq_frame cl s n cmd args)"
proof (rule okay_results)
  fix r s' assume step: "icq_frame cl s n cmd args = Some (r, s')"
  show "I s'"
  proof (cases "aim_conn_findbygroup s 0x0015 = Some None")
    case True
    with step assms(2) show ?thesis by (simp add: icq_frame_def)
  next
    case False
    with step obtain p fr s1 where new: "aim_tx_new s p AIM_FRAMETYPE_FLAP 0x02 (14 + n) = Some (fr, s1)"
      and left: "(fr = None \<and> s' = s1) \<or> (\<exists>x i s2 bs. fr = Some x \<and> aim_cachesnac s1 0x0015 0x0002 0 None = (i, s2) \<and>
         (\<exists>q. aim_tx_enqueue cl s2 (x\<lparr>fr_data := bs\<rparr>) = Some (q, s')))"
      by (fastforce simp: icq_frame_def split: bind_splits option.splits prod.splits)
    from left show ?thesis
      using core [OF assms(2) tx_new_core(1) [OF new]] new_frame_okay [OF assms] cachesnac_core okayD new by fastforce
  qed
qed

lemma icq_requests [keeps]:
  assumes "polite cl" "I s"
  shows "okay st2 I (aim_icq_reqofflinemsgs cl s)" "okay st2 I (aim_icq_ackofflinemsgs cl s)"
    "okay st2 I (aim_icq_sendxmlreq cl s xml)" "okay st2 I (aim_icq_getsimpleinfo cl s uin)"
  using assms by (auto simp: aim_icq_reqofflinemsgs_def aim_icq_ackofflinemsgs_def aim_icq_sendxmlreq_def
      aim_icq_getsimpleinfo_def Let_def split: option.split intro!: keeps)

lemma im_requests [keeps]:
  assumes "polite cl" "I s"
  shows "okay st2 I (aim_send_im_ext cl s sx)" "okay st2 I (aim_send_im cl s dest fl msg)"
    "okay st2 I (aim_send_icon cl s osn icon n stamp csum)" "okay st2 I (aim_send_rtfmsg cl s rt)"
    "okay st2 I (aim_denytransfer cl s sender ck code)" "okay st2 I (aim_reqicbmparams cl s)"
    "okay st2 I (aim_seticbmparam cl s params)"
  using assms by (auto simp: aim_send_im_ext_def aim_send_im_def aim_send_icon_def aim_send_rtfmsg_def
      aim_denytransfer_def aim_reqicbmparams_def aim_seticbmparam_def with_im_conn_def send_im_body_def Let_def
      split: option.split intro!: keeps)

lemma locate_requests [keeps]:
  assumes "polite cl" "I s"
  shows "okay st2 I (aim_getinfo cl s conn osn info)" "okay st2 I (aim_sendbuddyoncoming cl s conn ui)"
    "okay st2 I (aim_sendbuddyoffgoing cl s conn osn)" "okay st2 I (aim_0002_000b cl s conn osn)"
    "okay st2 I (aim_usersearch_address cl s conn osn)" "okay st2 I (aim_ads_requestads cl s conn)"
  using assms by (auto simp: aim_getinfo_def aim_sendbuddyoncoming_def aim_sendbuddyoffgoing_def aim_0002_000b_def
      aim_usersearch_address_def aim_ads_requestads_def Let_def split: option.split intro!: keeps)

lemma misc_requests [keeps]:
  assumes "polite cl" "I s"
  shows "okay st2 I (aim_bos_setbuddylist cl s conn dl)" "okay st2 I (aim_bos_setprofile cl s conn pr aw caps)"
    "okay st2 I (aim_bos_reqbuddyrights cl s conn)" "okay st2 I (aim_bos_reqlocaterights cl s conn)"
    "okay st2 I (aim_setdirectoryinfo cl s conn d1 d2 d3 d4 d5 d6 d7 d8 d9 n priv)"
    "okay st2 I (aim_setuserinterests cl s conn i1 i2 i3 i4 i5 priv)"
    "okay st2 I (aim_send_warning cl s conn dest anon)"
  using assms by (auto simp: aim_bos_setbuddylist_def aim_bos_setprofile_def aim_bos_reqbuddyrights_def
      aim_bos_reqlocaterights_def aim_setdirectoryinfo_def aim_setuserinterests_def aim_send_warning_def Let_def
      simp del: Option.bind_assoc split: option.split intro!: keeps)

lemma flap_nop_okay [keeps]:
  assumes "polite cl" "I s"
  shows "okay st2 I (aim_flap_nop cl s conn)"
proof (rule okay_results)
  fix r s' assume step: "aim_flap_nop cl s conn = Some (r, s')"
  then obtain fr s1 where new: "aim_tx_new s conn AIM_FRAMETYPE_FLAP 5 0 = Some (fr, s1)"
    and left: "(fr = None \<and> s' = s1) \<or> (\<exists>x q. fr = Some x \<and> aim_tx_enqueue cl s1 x = Some (q, s'))"
    by (auto simp: aim_flap_nop_def split: bind_splits option.splits)
  from left show "I s'"
  proof (elim disjE exE conjE)
    assume "s' = s1"
    with core [OF assms(2) tx_new_core(1) [OF new]] show ?thesis by simp
  next
    fix x q assume x: "fr = Some x" "aim_tx_enqueue cl s1 x = Some (q, s')"
    have "aim_tx_enqueue cl s1 (x\<lparr>fr_data := fr_data x\<rparr>) = Some (q, s')" using x by simp
    from okayD [OF new_frame_okay [OF assms new [unfolded x] core_kept_refl] this] show ?thesis by simp
  qed
qed

lemma service_requests [keeps]:
  assumes "polite cl" "I s"
  shows "okay st2 I (aim_clientready cl s conn)" "okay st2 I (aim_reqrates cl s conn)"
    "okay st2 I (aim_rates_addparam cl s conn)" "okay st2 I (aim_rates_delparam cl s conn)"
    "okay st2 I (aim_reqservice cl s conn w)" "okay st2 I (aim_sendpauseack cl s conn)"
    "okay st2 I (aim_reqpersonalinfo cl s conn)" "okay st2 I (aim_bos_setidle cl s conn idle)"
    "okay st2 I (aim_bos_setprivacyflags cl s conn fl)" "okay st2 I (aim_nop cl s conn)"
    "okay st2 I (aim_setextstatus cl s conn status)" "okay st2 I (aim_sendmemblock cl s conn ofs n buf flag)"
  using assms by (auto simp: aim_clientready_def aim_reqrates_def aim_rates_addparam_def aim_rates_delparam_def
      aim_reqservice_def aim_sendpauseack_def aim_reqpersonalinfo_def aim_bos_setidle_def aim_bos_setprivacyflags_def
      aim_nop_def aim_setextstatus_def aim_sendmemblock_def Let_def split: option.split intro!: keeps)

lemma ssi_requests [keeps]:
  assumes "polite cl" "I s"
  shows "okay st2 I (aim_ssi_reqrights cl s conn)" "okay st2 I (aim_ssi_reqdata cl s conn stamp revn)"
    "okay st2 I (aim_ssi_enable cl s conn)" "okay st2 I (aim_ssi_modbegin cl s conn)"
    "okay st2 I (aim_ssi_modend cl s conn)"
  using assms by (auto simp: aim_ssi_reqrights_def aim_ssi_reqdata_def aim_ssi_enable_def aim_ssi_modbegin_def
      aim_ssi_modend_def Let_def split: option.split intro!: keeps)

end

end
