(* ===== verification/Peers.thy ===== *)
theory Peers
  imports Asking Ft
begin

text \<open>
  The rest of what a program does with a session: opening, accepting, reading, closing and killing
  connections, those to peers among them. \<open>program_stable\<close> is the interface of an invariant that
  all of it keeps; what is proved here from the few changes it names are reading from a connection,
  in whatever state it is, and the operations on connections with peers.
\<close>

section \<open>The interface\<close>

locale program_stable = session_stable +
  assumes opens: "I s \<Longrightarrow> aim_newconn ne s ty dest = Some (r, s') \<Longrightarrow> I s'"
    and cloning: "I s \<Longrightarrow> conns s b \<noteq> None \<Longrightarrow> aim_cloneconn s (Some b) = Some (r, s') \<Longrightarrow> I s'"
    and flushing: "I s \<Longrightarrow> aim_tx_flushqueue s = Some (q, s') \<Longrightarrow> I s'"
    and arriving: "I s \<Longrightarrow> core_kept (s\<lparr>next_addr := Suc (next_addr s)\<rparr>) t \<Longrightarrow> fr_id fr = next_addr s \<Longrightarrow>
      fr_conn fr = Some a \<Longrightarrow> conns t a \<noteq> None \<Longrightarrow> I (t\<lparr>queue_incoming := queue_incoming t @ [fr]\<rparr>)"
    and killing: "I s \<Longrightarrow> aim_conn_kill s p = Some s' \<Longrightarrow> I s'"
    and ending: "I s \<Longrightarrow> aim_logoff s = Some (q, s') \<Longrightarrow> I s'"
    and purging: "I s \<Longrightarrow> I (aim_purge_rxqueue s)"

section \<open>Reading\<close>

lemma okay_skip_obj [keeps]: "(\<And>x. okay st I (g x)) \<Longrightarrow> okay st I (n \<bind> (\<lambda>x :: obj. g x))"
  unfolding okay_def by (auto split: bind_splits)

lemma core_allocs [simp]:
  "core_kept (u\<lparr>os_allocs := x\<rparr>) t = core_kept u t"
  "core_kept (u\<lparr>os_allocs := x, next_addr := n\<rparr>) t = core_kept (u\<lparr>next_addr := n\<rparr>) t"
  by (simp_all add: core_kept_def)

context core_stable
begin

lemma receive_okay [keeps]:
  "I s \<Longrightarrow> okay st3 I (aim_bstream_recv bs fd n s)" "I s \<Longrightarrow> I (snd (snd (aim_recv fd n s)))"
proof -
  show "I s \<Longrightarrow> okay st3 I (aim_bstream_recv bs fd n s)"
    by (rule okay_results) (use core core_kept_os bstream_recv_os_only in blast)
  show "I s \<Longrightarrow> I (snd (snd (aim_recv fd n s)))"
    unfolding aim_recv_def
    by (cases "aim_recv_loop fd n [] s") (auto intro: core core_kept_os recv_os_only)
qed

lemma new_obj_okay [keeps]: "I s \<Longrightarrow> I (snd (new_obj x s))"
  by (simp add: new_obj_def new_addr_def new_address)

lemma digit_cookie_okay [keeps]: "I s \<Longrightarrow> I (snd (digit_cookie s))"
  by (simp add: digit_cookie_def split_beta pure_ops)

lemma block_okay [keeps]: "I s \<Longrightarrow> okay st2 I (directim_block ck ip port s)"
  unfolding directim_block_def Let_def by (auto simp: malloc_eq intro!: keeps)

end

section \<open>Frames\<close>

definition sendable :: "aim_session \<Rightarrow> aim_frame \<Rightarrow> bool" where
  "sendable s fr \<longleftrightarrow> (\<exists>a. fr_conn fr = Some a \<and> conns s a \<noteq> None)"

lemma okay_if: "(b \<Longrightarrow> okay st I m) \<Longrightarrow> (\<not> b \<Longrightarrow> okay st I n) \<Longrightarrow> okay st I (if b then m else n)"
  by simp

lemma okay_opt: "(p = None \<Longrightarrow> okay st I m) \<Longrightarrow> (\<And>x. p = Some x \<Longrightarrow> okay st I (f x)) \<Longrightarrow>
  okay st I (case p of None \<Rightarrow> m | Some x \<Rightarrow> f x)"
  by (cases p) simp_all

lemma okay_light:
  "okay st2 (core_kept s) m2 \<Longrightarrow> (\<And>a t. core_kept s t \<Longrightarrow> okay st I (f2 a t)) \<Longrightarrow> okay st I (m2 \<bind> (\<lambda>(a, s). f2 a s))"
  "okay st3 (core_kept s) m3 \<Longrightarrow> (\<And>a b t. core_kept s t \<Longrightarrow> okay st I (f3 a b t)) \<Longrightarrow>
   okay st I (m3 \<bind> (\<lambda>(a, b, s). f3 a b s))"
  "core_kept s (snd p2) \<Longrightarrow> (\<And>a t. core_kept s t \<Longrightarrow> okay st I (h2 a t)) \<Longrightarrow>
   okay st I (case p2 of (a, s :: aim_session) \<Rightarrow> h2 a s)"
  unfolding okay_def by (fastforce split: bind_splits prod.splits)+

lemmas light_ops = core.pure_ops core.addtlv_okay core.add_okay core.block_okay core.digit_cookie_okay

context session_stable
begin

lemma okay_new:
  assumes "I s" "\<And>s1. core_kept s s1 \<Longrightarrow> okay st I (f None s1)"
    "\<And>fr s1. core_kept s s1 \<Longrightarrow> sendable s fr \<Longrightarrow> okay st I (f (Some fr) s1)"
  shows "okay st I (aim_tx_new s p framing ch n \<bind> (\<lambda>(fr, s). f fr s))"
proof (rule okayI)
  fix x assume "aim_tx_new s p framing ch n \<bind> (\<lambda>(fr, s). f fr s) = Some x"
  then obtain fr s1 where new: "aim_tx_new s p framing ch n = Some (fr, s1)" and x: "f fr s1 = Some x"
    by (auto split: bind_splits)
  note core = tx_new_core [OF new]
  show "I (st x)"
  proof (cases fr)
    case None
    with okayD [OF assms(2) [OF core(1)]] x show ?thesis by simp
  next
    case (Some fr')
    with core(2) have "sendable s fr'" by (auto simp: sendable_def)
    with okayD [OF assms(3) [OF core(1)]] x Some show ?thesis by simp
  qed
qed

lemma okay_send:
  assumes "polite cl" "I s" "sendable s fr" "core_kept s t" "fr_conn fr' = fr_conn fr"
  shows "okay st2 I (aim_tx_enqueue cl t fr')"
proof (rule okay_results)
  fix r s' assume q: "aim_tx_enqueue cl t fr' = Some (r, s')"
  from assms(3-5) obtain a where a: "fr_conn fr' = Some a" "conns t a \<noteq> None"
    by (auto simp: sendable_def core_kept_def)
  show "I s'" by (rule enqueued [OF core [OF assms(2,4)] q a]) (rule politeD(2) [OF assms(1)])
qed

lemma peer_requests [keeps]:
  assumes "polite cl" "I s"
  shows "okay st3 I (aim_request_directim cl s destsn ip port)"
    "okay st3 I (aim_request_sendfile cl s osn fn nf ts ip port)"
    "okay st2 I (aim_send_im_direct cl s conn msg)"
proof -
  have sent: "okay st3 I (do { (_, s) \<leftarrow> aim_tx_enqueue cl t (fr\<lparr>fr_data := bs\<rparr>); Some (0, Some ck, s) })"
    "okay st2 I (do { (_, s) \<leftarrow> aim_tx_enqueue cl t (fr\<lparr>fr_hdr := hdr, fr_data := bs\<rparr>); Some (0, s) })"
    if "sendable s fr" "core_kept s t" for fr t bs ck hdr
    by (rule okay_state, rule okay_send [OF assms that], simp, simp)+
  note rules = okay_light okay_skip okay_skip_obj sent core [OF assms(2)] light_ops
  show "okay st3 I (aim_request_directim cl s destsn ip port)"
    unfolding aim_request_directim_def Let_def
    by (intro okay_skip(8) okay_if okay_new) (auto simp: assms intro!: rules)
  show "okay st3 I (aim_request_sendfile cl s osn fn nf ts ip port)"
    unfolding aim_request_sendfile_def
    by (cases osn; cases fn; simp only: option.case prod.case Let_def; intro okay_skip(8) okay_if okay_new)
      (auto simp: assms intro!: rules)
  show "okay st2 I (aim_send_im_direct cl s conn msg)"
    unfolding aim_send_im_direct_def Let_def
    by (intro okay_skip(7,8) okay_skip(6) okay_if okay_new) (auto simp: assms malloc_eq split: obj.split intro!: rules)
qed

end

context program_stable
begin

lemma steps [keeps]:
  "I s \<Longrightarrow> okay (\<lambda>s. s) I (aim_conn_close p s)" "I s \<Longrightarrow> okay st2 I (aim_newconn ne s ty dest)"
  "I s \<Longrightarrow> okay st2 I (aim_tx_flushqueue s)"
  by (rule okay_results, blast intro: closing opens flushing)+

lemma completeconnect_okay [keeps]:
  assumes "polite cl" "I s"
  shows "okay st2 I (aim_conn_completeconnect cl s conn)"
proof (cases conn)
  case (Some a)
  have upd: "I (put_conn a (c\<lparr>conn_status := x\<rparr>) (s\<lparr>os_connect := y\<rparr>))" if "conns s a = Some c" for c x y
    using assms(2) that by (intro connection [where c = c]) auto
  show ?thesis
    unfolding aim_conn_completeconnect_def Some option.case Let_def
    by (rule okay_skip) (use assms in \<open>auto split: connect_event.split option.split list.split intro!: keeps upd\<close>)
qed (use assms in \<open>simp add: aim_conn_completeconnect_def\<close>)

lemma put_okay:
  "I s \<Longrightarrow> \<exists>c. conns s a = Some c \<and> conn_inside d = conn_inside c \<and> conn_sessv d = conn_sessv c \<Longrightarrow> I (put_conn a d s)"
  using connection by blast

lemma attachname_okay [keeps]: "I s \<Longrightarrow> okay st2 I (aim_chat_attachname conn ex nm inst s)"
proof -
  assume I: "I s"
  have "I s'" if "aim_chat_attachname conn ex nm inst s = Some (r, s')" for r s'
  proof (cases "conn = None \<or> nm = None")
    case False
    with that obtain a c t where t: "conn = Some a" "conns s a = Some c" "free_obj (conn_priv c) s = Some t"
      by (auto simp: aim_chat_attachname_def split: bind_splits)
    have st: "core_kept s t" using t(3) by (rule core_kept_data [OF free_obj_data])
    have "core_kept t s' \<or> (\<exists>p u. core_kept t u \<and> s' = put_conn a (c\<lparr>conn_priv := p\<rparr>) u)"
    proof (cases "alloc_ok t")
      case True
      then show ?thesis using that t False
        by (intro disjI2 exI [of _ "conn_priv (the (conns s' a))"] exI [of _ "s'\<lparr>conns := conns t\<rparr>"])
          (auto simp: aim_chat_attachname_def malloc_eq new_addr_def Let_def core_kept_def put_conn_def
            core_kept_def [THEN iffD1, OF st])
    qed (use that t False in \<open>auto simp: aim_chat_attachname_def malloc_eq Let_def core_kept_def\<close>)
    then show ?thesis
    proof (elim disjE exE conjE)
      fix p u assume u: "core_kept t u" "s' = put_conn a (c\<lparr>conn_priv := p\<rparr>) u"
      then have "core_kept s u" using st core_kept_trans by blast
      with u t(2) show ?thesis using put_okay [OF core [OF I], of u a "c\<lparr>conn_priv := p\<rparr>"] by (auto simp: core_kept_def)
    qed (use I st core core_kept_trans in blast)
  qed (use I that in \<open>auto simp: aim_chat_attachname_def\<close>)
  then show ?thesis by (rule okay_results)
qed

text \<open>A frame is queued after its address was given out, and nothing else happens in between.\<close>

lemma arrived:
  fixes u :: aim_session and a :: nat
  defines "v \<equiv> u\<lparr>next_addr := Suc (next_addr u)\<rparr>"
    and "fr \<equiv> \<lambda>h d. \<lparr>fr_id = next_addr u, fr_hdr = h, fr_data = d, fr_handled = 0, fr_nofree = 0, fr_conn = Some a\<rparr>"
  assumes "I u"
  shows "core_kept v t \<Longrightarrow> conns t a = Some c \<Longrightarrow>
      I (put_conn a (c\<lparr>conn_lastactivity := x\<rparr>) (t\<lparr>queue_incoming := queue_incoming t @ [fr h d]\<rparr>))"
    "conns u a = Some c \<Longrightarrow> I (put_conn a (c\<lparr>conn_lastactivity := x\<rparr>)
      (u\<lparr>os_allocs := y, next_addr := Suc (next_addr u), queue_incoming := queue_incoming u @ [fr h d]\<rparr>))"
proof -
  show new: "I (put_conn a (c\<lparr>conn_lastactivity := x\<rparr>) (t\<lparr>queue_incoming := queue_incoming t @ [fr h d]\<rparr>))"
    if "core_kept v t" "conns t a = Some c" for t c
    by (rule put_okay) (use arriving [OF assms(3) that(1) [unfolded v_def], of "fr h d" a] that(2) in \<open>simp_all add: fr_def\<close>)
  show "conns u a = Some c \<Longrightarrow> I (put_conn a (c\<lparr>conn_lastactivity := x\<rparr>)
      (u\<lparr>os_allocs := y, next_addr := Suc (next_addr u), queue_incoming := queue_incoming u @ [fr h d]\<rparr>))"
    using new [of "u\<lparr>os_allocs := y, next_addr := Suc (next_addr u)\<rparr>" c] by (simp add: v_def core_kept_def)
qed

lemma payload_okay:
  fixes u :: aim_session and y
  defines "v \<equiv> u\<lparr>next_addr := Suc (next_addr u)\<rparr>"
  assumes "I u" "\<And>d t. I t \<Longrightarrow> (\<forall>b. d = Inr b \<longrightarrow> core_kept v t) \<Longrightarrow> okay st J (f d t)"
  shows "okay st J (recv_payload conn fd n (u\<lparr>os_allocs := y, next_addr := Suc (next_addr u)\<rparr>) \<bind> (\<lambda>(d, t). f d t))"
proof (rule okayI)
  let ?w = "u\<lparr>os_allocs := y, next_addr := Suc (next_addr u)\<rparr>"
  fix x assume "recv_payload conn fd n ?w \<bind> (\<lambda>(d, t). f d t) = Some x"
  then obtain d t where d: "recv_payload conn fd n ?w = Some (d, t)" "f d t = Some x"
    by (auto split: bind_splits)
  have light: "core_kept v (v\<lparr>os_allocs := z\<rparr>)" "?w = v\<lparr>os_allocs := y\<rparr>" for z
    by (simp_all add: v_def core_kept_def)
  have v: "I v" using assms(2) by (simp add: v_def new_address)
  have recv: "core_kept v t \<and> I t" if "aim_bstream_recv b fd k (v\<lparr>os_allocs := z\<rparr>) = Some (m, b', t)" for b k z m b' t
    using core_kept_trans [OF light(1) core_kept_os [OF bstream_recv_os_only [OF that]]] core [OF v] by blast
  have "I t \<and> (\<forall>b. d = Inr b \<longrightarrow> core_kept v t)"
    using d(1) v light(1) unfolding light(2)
    by (auto simp: recv_payload_def Let_def malloc_eq split: bind_splits if_splits dest!: recv dest: closing)
  then have "okay st J (f d t)" by (intro assms(3)) simp_all
  from okayD [OF this d(2)] show "J (st x)" .
qed

lemma get_command_okay [keeps]:
  assumes "polite cl" "I s" "\<And>a s. I s \<Longrightarrow> okay st2 I (rv a s)"
  shows "okay st2 I (aim_get_command cl rv s conn)"
proof (cases conn)
  case (Some a)
  show ?thesis
    unfolding aim_get_command_def Some option.case Let_def
    by (rule okay_skip)
      (use assms in \<open>auto simp: malloc_eq new_addr_def new_address split: sum.split
        intro!: keeps arrived payload_okay\<close>)
qed (use assms in \<open>simp add: aim_get_command_def\<close>)

lemma handlehdr_okay [keeps]: "polite cl \<Longrightarrow> I s \<Longrightarrow> okay st2 I (handlehdr_directim cl junk a hdr s)"
  by (auto simp: handlehdr_directim_def Let_def malloc_eq intro!: keeps)

lemma rendezvous_okay [keeps]: "polite cl \<Longrightarrow> I s \<Longrightarrow> okay st2 I (aim_get_command_rendezvous cl junk a s)"
  unfolding aim_get_command_rendezvous_def Let_def
  by (rule okay_skip)
    (auto simp: malloc_eq getcommand_getfile_def handlehdr_getfile_listing_def handlehdr_getfile_listing2_def
      handlehdr_getfile_listing3_def handlehdr_getfile_request_def handlehdr_getfile_sending_def
      handlehdr_getfile_recv_def handlehdr_getfile_finish_def intro!: keeps)

lemma rend_listen_okay [keeps]: "I s \<Longrightarrow> okay st2 I (rend_listen ck destsn sub fd s)"
  unfolding rend_listen_def Let_def by (auto simp: malloc_eq split: option.split intro!: keeps put_okay)

lemma initiate_okay [keeps]:
  "polite cl \<Longrightarrow> I s \<Longrightarrow> okay st2 I (aim_directim_initiate cl ne s destsn)"
  "polite cl \<Longrightarrow> I s \<Longrightarrow> okay st2 I (aim_sendfile_initiate cl ne s osn fn nf ts)"
  by (auto simp: aim_directim_initiate_def aim_sendfile_initiate_def Let_def split: prod.split intro!: keeps)

lemma directim_connect_okay [keeps]: "I s \<Longrightarrow> okay st2 I (aim_directim_connect ne s osn addr ck)"
  unfolding aim_directim_connect_def Let_def
  by (auto simp: malloc_eq split: option.split intro!: keeps put_okay)

lemma handlerendconnect_okay [keeps]:
  assumes "polite cl" "I s"
  shows "okay st2 I (aim_handlerendconnect cl s cur ev)"
proof (cases cur)
  case (Some a)
  have clone: "okay st2 I (aim_cloneconn s (Some a))" if "conns s a = Some c" for c
    by (rule okay_results) (use cloning [OF assms(2)] that in auto)
  show ?thesis
    unfolding aim_handlerendconnect_def Some Let_def
    by (auto simp: assms split: accept_event.split option.split obj.split intro!: clone keeps put_okay)
qed (simp add: aim_handlerendconnect_def)

text \<open>What a client sets for a connection or for the session.\<close>

lemma settings_okay [keeps]:
  "I s \<Longrightarrow> okay st2 I (aim_conn_addhandler s conn f t h fl)" "I s \<Longrightarrow> okay st2 I (aim_clearhandlers s conn)"
  "I s \<Longrightarrow> okay st2 I (aim_conn_setlatency conn n s)" "I s \<Longrightarrow> okay st2 I (aim_chat_leaveroom s name)"
  "I s \<Longrightarrow> I (snd (aim_tx_setenqueue s what func))"
proof -
  show "okay st2 I (aim_conn_addhandler s conn f t h fl)" if "I s" for s conn
  proof (rule okay_results)
    fix r s' assume "aim_conn_addhandler s conn f t h fl = Some (r, s')"
    then show "I s'" by (cases rule: addhandler_cases) (use that in \<open>auto intro!: put_okay\<close>)
  qed
  show "I s \<Longrightarrow> okay st2 I (aim_clearhandlers s conn)" "I s \<Longrightarrow> okay st2 I (aim_conn_setlatency conn n s)"
    by (auto simp: aim_clearhandlers_def aim_conn_setlatency_def split: option.split intro!: keeps put_okay)
  show "I s \<Longrightarrow> okay st2 I (aim_chat_leaveroom s name)"
    by (auto simp: aim_chat_leaveroom_def split: option.split intro!: keeps)
  show "I s \<Longrightarrow> I (snd (aim_tx_setenqueue s what func))"
    by (auto simp: aim_tx_setenqueue_def split: option.split)
qed

end

end
