(* ===== verification/Program.thy ===== *)
theory Program
  imports Peers Select Proxy
begin

text \<open>
  The library as a whole: a session, the operations of a client on it, and the dispatcher with the
  modules' own handlers.
\<close>

section \<open>A session between two calls\<close>

text \<open>
  The connections and the frames that refer to them are in order, the incoming frames are distinct
  objects, and the registered modules are modules of the library.
\<close>

definition world_ok :: "aim_session \<Rightarrow> bool" where
  "world_ok s \<longleftrightarrow> session_ok s \<and> distinct (map fr_id (queue_incoming s)) \<and>
     (\<forall>fr \<in> set (queue_incoming s). fr_id fr < next_addr s) \<and> set (modlist s) \<subseteq> set default_modules"

text \<open>What happens to incoming frames and to the registry while no frame arrives.\<close>

definition tidy :: "aim_session \<Rightarrow> aim_session \<Rightarrow> bool" where
  "tidy s s' \<longleftrightarrow> map fr_id (queue_incoming s') = map fr_id (queue_incoming s) \<and> next_addr s \<le> next_addr s' \<and>
     modlist s' = modlist s"

lemma tidy_refl [simp]: "tidy s s"
  by (simp add: tidy_def)

lemma tidy_trans: "tidy s t \<Longrightarrow> tidy t u \<Longrightarrow> tidy s u"
  by (simp add: tidy_def)

lemma tidy_put [simp]: "tidy (put_conn a c s) t = tidy s t" "tidy s (put_conn a c t) = tidy s t"
  by (simp_all add: tidy_def put_conn_def)

lemma tidy_upd [simp]:
  "tidy (s\<lparr>os_now := x\<rparr>) t = tidy s t" "tidy s (t\<lparr>conns := f\<rparr>) = tidy s t" "tidy s (t\<lparr>connlist := xs\<rparr>) = tidy s t"
  "tidy s (t\<lparr>queue_outgoing := q\<rparr>) = tidy s t"
  by (simp_all add: tidy_def)

lemma tidy_core: "core_kept s s' \<Longrightarrow> tidy s s'"
  by (simp add: tidy_def core_kept_def)

lemma world_ok_tidy: "world_ok s \<Longrightarrow> tidy s s' \<Longrightarrow> session_ok s' \<Longrightarrow> world_ok s'"
proof -
  assume s: "world_ok s" "tidy s s'" "session_ok s'"
  then have "fr_id ` set (queue_incoming s') = fr_id ` set (queue_incoming s)"
    unfolding tidy_def by (metis list.set_map)
  moreover have "\<forall>i \<in> fr_id ` set (queue_incoming s). i < next_addr s'"
    using s by (auto simp: world_ok_def tidy_def intro: less_le_trans)
  ultimately have "\<forall>fr \<in> set (queue_incoming s'). fr_id fr < next_addr s'" by blast
  with s show ?thesis by (simp add: world_ok_def tidy_def)
qed

lemma session_ok_core: "session_ok s \<Longrightarrow> core_kept s s' \<Longrightarrow> session_ok s'"
  using refs_ok_cong [of s s']
  by (auto simp: session_ok_def conns_ok_def core_kept_def intro: less_le_trans)

subsection \<open>The operations that change connections and queues\<close>

lemma tidy_os: "os_only s s' \<Longrightarrow> tidy s s'"
  by (rule tidy_core, rule core_kept_os)

lemma tidy_data: "data_only s s' \<Longrightarrow> tidy s s'"
  by (rule tidy_core, rule core_kept_data)

lemma tidy_touched: "touched s p s' \<Longrightarrow> tidy s s'"
  by (auto simp: touched_def dest: tidy_os)

lemma tidy_close: "aim_conn_close p s = Some s' \<Longrightarrow> tidy s s'"
proof -
  assume close: "aim_conn_close p s = Some s'"
  then obtain a where "p = Some a" by (auto simp: aim_conn_close_def split: bind_splits)
  with close obtain c where "data_only (put_conn a (closed c) s) s'" using conn_close_data by blast
  from tidy_data [OF this] show ?thesis by simp
qed

lemma tidy_getnext: "aim_conn_getnext s = (p, s') \<Longrightarrow> tidy s s'"
  by (erule getnext_cases) (auto simp: tidy_os, auto simp: tidy_def put_conn_def frame_simps)

lemma tidy_newconn: "aim_newconn ne s ty dest = Some (p, s') \<Longrightarrow> tidy s s'"
  by (auto simp: aim_newconn_def malloc_eq Let_def split: prod.splits option.splits bind_splits if_splits
      dest!: tidy_getnext proxyconnect_os_only tidy_os) (auto simp: tidy_def put_conn_def)

lemma tidy_addhandler: "aim_conn_addhandler s conn f t h fl = Some (r, s') \<Longrightarrow> tidy s s'"
  by (erule addhandler_cases) (auto simp: tidy_def put_conn_def)

lemma tidy_clone: "aim_cloneconn s src = Some (p, s') \<Longrightarrow> tidy s s'"
proof -
  have loop: "tidy s s'" if "clonehandlers_loop hs dest s = Some s'" for hs dest s
    using that by (induction hs arbitrary: s) (auto split: bind_splits intro: tidy_trans dest: tidy_addhandler)
  show "aim_cloneconn s src = Some (p, s') \<Longrightarrow> tidy s s'"
    by (auto simp: aim_cloneconn_def aim_clonehandlers_def Let_def split: prod.splits option.splits bind_splits
        dest!: tidy_getnext loop intro: tidy_trans)
qed

lemma tidy_stamp: "stamp_frame s fr = Some (g, s') \<Longrightarrow> tidy s s'"
  by (auto simp: stamp_frame_def aim_get_next_txseqnum_def Let_def split: frame_hdr.splits bind_splits)

lemma tidy_queued: "aim_tx_enqueue__queuebased s fr = Some (r, s') \<Longrightarrow> tidy s s'"
  by (auto simp: aim_tx_enqueue__queuebased_def Let_def split: bind_splits option.splits dest!: tidy_stamp)

lemma tidy_immediate: "aim_tx_enqueue__immediate s fr = Some (r, s') \<Longrightarrow> tidy s s'"
  by (auto simp: aim_tx_enqueue__immediate_def Let_def split: if_splits bind_splits
      dest!: tidy_stamp sendframe_touched tidy_touched intro: tidy_trans)

lemma tidy_flush: "aim_tx_flushqueue s = Some (r, s') \<Longrightarrow> tidy s s'"
proof -
  have loop: "tidy s s'" if "flush_loop frs s = Some (frs', s')" for frs frs' s s'
    using that
    by (induction frs arbitrary: s frs')
      (auto simp: Let_def split: bind_splits if_splits dest!: sendframe_touched tidy_touched intro: tidy_trans,
        (blast intro: tidy_trans)+)
  show "aim_tx_flushqueue s = Some (r, s') \<Longrightarrow> tidy s s'"
    by (auto simp: aim_tx_flushqueue_def aim_tx_purgequeue_def split: bind_splits dest!: loop)
qed

lemma connkill_ids:
  assumes "connkill_real s a = Some s'"
  shows "tidy s s'"
proof -
  let ?t = "aim_tx_cleanqueue (aim_rxqueue_cleanbyconn s (Some a)) (Some a)"
  have t: "tidy s ?t"
    by (auto simp: tidy_def clean_sel mark_new_of_def) (simp add: aim_tx_cleanqueue_def aim_rxqueue_cleanbyconn_def)
  from assms show ?thesis
    by (auto simp: connkill_real_def Let_def split: bind_splits if_splits
        dest!: tidy_close free_obj_data kill_rend_data kill_chat_data tidy_data)
      (blast intro: tidy_trans t)+
qed

lemma tidy_kill: "aim_conn_kill s p = Some s' \<Longrightarrow> tidy s s'"
  by (auto simp: aim_conn_kill_def split: option.splits if_splits dest!: connkill_ids) (simp add: tidy_def)

lemma tidy_logoff: "aim_logoff s = Some (r, s') \<Longrightarrow> tidy s s'"
proof -
  have loop: "tidy s s'" if "connrst_loop as s = Some s'" for as s s'
    using that by (induction as arbitrary: s) (auto split: bind_splits dest!: tidy_close connkill_ids intro: tidy_trans)
  show "aim_logoff s = Some (r, s') \<Longrightarrow> tidy s s'"
    by (auto simp: aim_logoff_def aim_connrst_def split: bind_splits dest!: loop)
qed

subsection \<open>What everything keeps\<close>

lemma world_ok_enqueued:
  assumes "world_ok s" "aim_tx_enqueue cl s fr = Some (r, s')" "fr_conn fr = Some a" "conns s a \<noteq> None"
    "\<And>n f t q t'. world_ok t \<Longrightarrow> cl_tx cl n f t = Some (q, t') \<Longrightarrow> world_ok t'"
  shows "world_ok s'"
proof -
  have ok: "session_ok s" using assms(1) by (simp add: world_ok_def)
  consider "aim_tx_enqueue__queuebased s fr = Some (r, s')" | "aim_tx_enqueue__immediate s fr = Some (r, s')"
    | n where "cl_tx cl n fr s = Some (r, s')"
    using assms(2) by (auto simp: aim_tx_enqueue_def split: bind_splits if_splits tx_mode.splits)
  then show ?thesis
    using world_ok_tidy [OF assms(1) tidy_queued session_ok_queuebased [OF ok]]
      world_ok_tidy [OF assms(1) tidy_immediate session_ok_immediate [OF ok]] assms(3-5) assms(1)
    by cases blast+
qed

interpretation world: program_stable world_ok
proof unfold_locales
  fix s s' t :: aim_session
  assume s: "world_ok s"
  then have ok: "session_ok s" by (simp add: world_ok_def)
  note keep = world_ok_tidy [OF s]
  show "core_kept s s' \<Longrightarrow> world_ok s'" by (rule keep [OF tidy_core session_ok_core [OF ok]])
  show "world_ok s'" if "aim_conn_close p s = Some s'" for p using keep tidy_close session_ok_close [OF ok] that by blast
  show "world_ok s'" if "aim_conn_addgroup p g s = Some s'" for p g
    using session_ok_addgroup [OF ok that] that
    by (intro keep) (auto simp: aim_conn_addgroup_def malloc_eq Let_def tidy_def split: bind_splits if_splits)
  show "world_ok s'" if "aim_newconn ne s ty dest = Some (r, s')" for ne ty dest r
    using keep tidy_newconn session_ok_newconn [OF ok] that by blast
  show "world_ok s'" if "conns s b \<noteq> None" "aim_cloneconn s (Some b) = Some (r, s')" for b r
    using keep tidy_clone [OF that(2)] session_ok_cloneconn [OF ok that(2)] conns_okD(2) [OF session_okD(1) [OF ok]] that(1)
    by blast
  show "world_ok s'" if "aim_tx_flushqueue s = Some (q, s')" for q
    using keep tidy_flush session_ok_flush [OF ok] that by blast
  show "world_ok s'" if "aim_conn_kill s p = Some s'" for p using keep tidy_kill session_ok_kill [OF ok] that by blast
  show "world_ok s'" if "aim_logoff s = Some (q, s')" for q
  proof -
    from that have "aim_connrst s = Some s'" by (auto simp: aim_logoff_def split: bind_splits)
    with keep tidy_logoff [OF that] session_ok_connrst [OF ok] show ?thesis by blast
  qed
  show "world_ok (aim_purge_rxqueue s)"
    using s session_ok_purge(1) [OF ok] by (auto simp: world_ok_def aim_purge_rxqueue_def distinct_map_filter)
  show "world_ok (put_conn a d s)"
    if "conns s a = Some c" "conn_inside d \<noteq> None \<or> conn_inside d = conn_inside c" "conn_sessv d = conn_sessv c" for a c d
  proof (rule keep)
    have "conn_inside c \<noteq> None \<and> conn_sessv c"
      using conns_okD(1) [OF session_okD(1) [OF ok] conns_okD(2) [OF session_okD(1) [OF ok] that(1)]] that(1) by auto
    with that ok show "session_ok (put_conn a d s)"
      by (auto simp: session_ok_def intro!: conns_ok_put intro: refs_ok_cong [of s])
  qed simp
  show "world_ok s'" if "aim_tx_enqueue cl s fr = Some (r, s')" "fr_conn fr = Some a" "conns s a \<noteq> None"
      "\<And>n f t q t'. world_ok t \<Longrightarrow> cl_tx cl n f t = Some (q, t') \<Longrightarrow> world_ok t'" for cl fr r a
    by (rule world_ok_enqueued [OF s that])
  show "world_ok (t\<lparr>queue_incoming := queue_incoming t @ [fr]\<rparr>)"
    if t: "core_kept (s\<lparr>next_addr := Suc (next_addr s)\<rparr>) t" and fr: "fr_id fr = next_addr s" "fr_conn fr = Some a"
      and a: "conns t a \<noteq> None" for fr a
  proof -
    have "core_kept s t" using t by (simp add: core_kept_def)
    then have "session_ok t" "queue_incoming t = queue_incoming s" "next_addr s < next_addr t" "modlist t = modlist s"
      using session_ok_core [OF ok] t by (auto simp: core_kept_def)
    with s fr a show ?thesis
      by (auto simp: world_ok_def session_ok_def conns_ok_def refs_ok_def intro: less_trans)
  qed
qed

section \<open>Dispatching\<close>

text \<open>What each module structure points to as its \<^verbatim>\<open>snachandler\<close>.\<close>

definition module_handlers :: "client \<Rightarrow> modkind \<Rightarrow> snachandler" where
  "module_handlers cl k =
     (case k of
        HMisc \<Rightarrow> misc_snachandler cl | HGeneral \<Rightarrow> general_snachandler cl | HLocate \<Rightarrow> locate_snachandler cl
      | HBuddylist \<Rightarrow> buddylist_snachandler cl | HMessaging \<Rightarrow> msg_snachandler cl
      | HAdverts \<Rightarrow> adverts_snachandler | HAdmin \<Rightarrow> admin_snachandler cl | HPopups \<Rightarrow> popups_snachandler cl
      | HBos \<Rightarrow> bos_snachandler cl | HSearch \<Rightarrow> search_snachandler cl | HStats \<Rightarrow> stats_snachandler cl
      | HChatnav \<Rightarrow> chatnav_snachandler cl | HChat \<Rightarrow> chat_snachandler cl | HSsi \<Rightarrow> ssi_snachandler cl
      | HIcq \<Rightarrow> icq_snachandler cl | HAuth \<Rightarrow> auth_snachandler cl)"

text \<open>
  A frame that is queued is of a live connection. The dispatcher stores the mark \<^verbatim>\<open>handled\<close> after
  the callback, so a callback that closes the connection for good has to say that it handled the
  frame.
\<close>

definition alive :: "aim_frame \<Rightarrow> aim_session \<Rightarrow> bool" where
  "alive f s \<longleftrightarrow> (\<forall>g \<in> set (queue_incoming s). fr_id g = fr_id f \<longrightarrow> (\<exists>a. fr_conn g = Some a \<and> conns s a \<noteq> None))"

definition careful :: "client \<Rightarrow> bool" where
  "careful cl \<longleftrightarrow>
     (\<forall>n fr args bs t q bs' t'. world_ok t \<and> cl_callback cl n fr args bs t = Some (q, bs', t') \<longrightarrow>
        world_ok t' \<and> (\<forall>f. fr = Some f \<and> (word_of_int q :: u8) = 0 \<and> alive f t \<longrightarrow> alive f t')) \<and>
     (\<forall>n f t q t'. world_ok t \<and> cl_tx cl n f t = Some (q, t') \<longrightarrow> world_ok t')"

lemma careful_polite: "careful cl \<Longrightarrow> world.polite cl"
  unfolding careful_def world.polite_def by blast

lemma careful_alive:
  "careful cl \<Longrightarrow> world_ok t \<Longrightarrow> cl_callback cl n (Some f) args bs t = Some (q, bs', t') \<Longrightarrow>
   (word_of_int q :: u8) = 0 \<Longrightarrow> alive f t \<Longrightarrow> alive f t'"
  unfolding careful_def by blast

lemma handlers_okay:
  "careful cl \<Longrightarrow> world_ok s \<Longrightarrow> okay st3 world_ok (module_handlers cl k m rx snac bs s)"
  by (cases k) (simp_all add: module_handlers_def careful_polite keeps)

subsection \<open>The frame at hand\<close>

definition calm_at :: "aim_frame \<Rightarrow> aim_session \<Rightarrow> bool" where
  "calm_at f s \<longleftrightarrow> world_ok s \<and> alive f s"

interpretation calm: core_stable "calm_at f" for f
  by unfold_locales (auto simp: calm_at_def alive_def core_kept_def intro: world.core [unfolded core_kept_def])

text \<open>The result of a handler: 0 only if the connection is still there.\<close>

definition answered :: "aim_frame \<Rightarrow> (int \<times> bstream \<times> aim_session) \<Rightarrow> bool" where
  "answered f = (\<lambda>(r, _, s). world_ok s \<and> ((word_of_int r :: u8) = 0 \<longrightarrow> alive f s))"

lemma call_answered:
  assumes "careful cl" "calm_at f s"
  shows "okay (\<lambda>x. x) (answered f) (call_user cl s p fam t d (Some f) args bs)"
proof -
  have "answered f x" if "call_cb cl h (Some f) args bs s = Some x" for h x
  proof (cases h)
    case Bleck
    with that assms show ?thesis by (auto simp: call_cb_def calm_at_def answered_def split: bind_splits)
  next
    case (UserCb n)
    obtain q bs' t' where x: "x = (q, bs', t')" by (cases x)
    with that UserCb have cb: "cl_callback cl n (Some f) args bs s = Some (q, bs', t')" by (simp add: call_cb_def)
    with world.politeD(1) [OF careful_polite [OF assms(1)] _ cb] careful_alive [OF assms(1) _ cb] assms(2) x
    show ?thesis by (auto simp: calm_at_def answered_def)
  qed
  then show ?thesis
    using assms(2) by (auto simp: okay_def call_user_def answered_def calm_at_def split: bind_splits option.splits)
qed

text \<open>Up to the callback, reading changes neither the connections nor the queue.\<close>

lemma calm_then:
  "okay st2 (calm_at f) m2 \<Longrightarrow> (\<And>a s. calm_at f s \<Longrightarrow> okay st J (h2 a s)) \<Longrightarrow> okay st J (m2 \<bind> (\<lambda>(a, s). h2 a s))"
  "okay st3 (calm_at f) m3 \<Longrightarrow> (\<And>a b s. calm_at f s \<Longrightarrow> okay st J (h3 a b s)) \<Longrightarrow> okay st J (m3 \<bind> (\<lambda>(a, b, s). h3 a b s))"
  unfolding okay_def by (fastforce split: bind_splits)+

lemma auth_answered:
  assumes "careful cl" "calm_at f s"
  shows "okay (\<lambda>x. x) (answered f) (auth_snachandler cl m f snac bs s)"
proof -
  have d: "answered f (0, bs, s)" using assms(2) by (simp add: answered_def calm_at_def)
  show ?thesis
    unfolding auth_snachandler_def auth_parse_def keyparse_def Let_def
    using assms d by (auto split: option.split intro!: calm_then okay_skip call_answered calm.readtlv_okay calm.gettlv_okay
        calm.getraw_okay)
qed

lemma misc_answered:
  assumes "careful cl" "calm_at f s"
  shows "okay (\<lambda>x. x) (answered f) (misc_snachandler cl m f snac bs s)"
proof -
  have d: "answered f (0, bs, s)" using assms(2) by (simp add: answered_def calm_at_def)
  have remsnac: "okay (\<lambda>x. x) J (case aim_remsnac s i of (x, s) \<Rightarrow> h x s)"
    if "\<And>x t. calm_at f t \<Longrightarrow> okay (\<lambda>x. x) J (h x t)" for i h and J :: "int \<times> bstream \<times> aim_session \<Rightarrow> bool"
    using calm.pure_ops(3) [OF assms(2), of i] that by (cases "aim_remsnac s i") simp
  show ?thesis
    unfolding misc_snachandler_def generror_def Let_def
    using assms d by (auto intro!: remsnac okay_skip call_answered)
qed

text \<open>On the negotiation channel only the login module and the catch-all are asked.\<close>

lemma auth_or_misc:
  assumes "m \<in> set default_modules" "takes 0x0017 m"
  shows "mod_snachandler m = Some HAuth \<or> mod_snachandler m = Some HMisc"
proof -
  have "m \<in> set (filter (takes 0x0017) default_modules)" using assms by simp
  moreover have "own_module 0x0017 = Some (snd (auth_modfirst zero_module))"
    by (simp add: own_module_def default_modules_def session_modules_def modfirst_defs)
  ultimately show ?thesis by (auto simp: takes_default auth_modfirst_def)
qed

lemma consume_auth:
  assumes "careful cl" "ms_family snac = 0x0017" "set ms \<subseteq> set default_modules" "calm_at f s"
    "consume_loop (module_handlers cl) ms f snac bs s = Some (r, bs', s')"
  shows "world_ok s' \<and> (r = 1 \<or> r = 0 \<and> alive f s')"
  using assms(3-5)
proof (induction ms arbitrary: bs s)
  case Nil
  then show ?case by (auto simp: calm_at_def)
next
  case (Cons m ms)
  show ?case
  proof (cases "takes 0x0017 m")
    case False
    with Cons assms(2) show ?thesis by (simp add: takes_def)
  next
    case True
    obtain k q bs1 s1 where k: "mod_snachandler m = Some k" "module_handlers cl k m f snac bs s = Some (q, bs1, s1)"
      and left: "if q \<noteq> 0 then (r, bs', s') = (1, bs1, s1)
        else consume_loop (module_handlers cl) ms f snac bs1 s1 = Some (r, bs', s')"
      using Cons.prems(3) True assms(2) by (auto simp: takes_def split: bind_splits if_splits)
    from k(1) auth_or_misc [OF _ True] Cons.prems(1) have "k = HAuth \<or> k = HMisc" by auto
    with auth_answered [OF assms(1) Cons.prems(2)] misc_answered [OF assms(1) Cons.prems(2)] k(2)
    have "answered f (q, bs1, s1)" by (auto simp: module_handlers_def okay_def)
    then have s1: "world_ok s1" "q = 0 \<Longrightarrow> calm_at f s1" by (simp_all add: answered_def calm_at_def)
    show ?thesis
    proof (cases "q = 0")
      case True
      with left have "consume_loop (module_handlers cl) ms f snac bs1 s1 = Some (r, bs', s')" by simp
      from Cons.IH [OF _ s1(2) [OF True] this] Cons.prems(1) show ?thesis by simp
    qed (use left s1(1) in simp)
  qed
qed

lemma negchan_answered:
  assumes "careful cl" "calm_at f s"
  shows "okay (\<lambda>x. x) (answered f) (negchan_middle cl (module_handlers cl) s f)"
proof -
  have one: "answered f (1, bs, s)" for bs using assms(2) by (simp add: answered_def calm_at_def)
  have mods: "set (modlist s) \<subseteq> set default_modules" using assms(2) by (simp add: calm_at_def world_ok_def)
  have auth: "okay (\<lambda>x. x) (answered f) (consumenonsnac (module_handlers cl) s f bs 0x0017 0x0003)" for bs
    by (rule okayI) (auto simp: consumenonsnac_def answered_def dest: consume_auth [OF assms(1) _ mods assms(2), rotated])
  show ?thesis
    unfolding negchan_middle_def Let_def
    using assms one auth by (auto intro!: okay_skip calm_then call_answered calm.readtlv_okay calm.gettlv_okay)
qed

subsection \<open>A run of the dispatcher\<close>

lemma consume_okay:
  assumes "careful cl"
  shows "world_ok s \<Longrightarrow> okay st3 world_ok (consume_loop (module_handlers cl) ms f snac bs s)"
proof (induction ms arbitrary: bs s)
  case (Cons m ms)
  then show ?case
    by (cases "mod_snachandler m") (auto intro!: okay_bind [OF handlers_okay [OF assms]])
qed simp

lemma consumesnac_okay:
  "careful cl \<Longrightarrow> world_ok s \<Longrightarrow> okay st3 world_ok (consumesnac (module_handlers cl) s f)"
  "careful cl \<Longrightarrow> world_ok s \<Longrightarrow> okay st3 world_ok (consumenonsnac (module_handlers cl) s f bs fam ty)"
  by (auto simp: consumesnac_def consumenonsnac_def Let_def intro!: okay_skip consume_okay)

text \<open>After a frame was dispatched, its connection is live or the frame is marked as handled.\<close>

definition dispatched_ok :: "aim_frame \<Rightarrow> u8 \<times> bstream \<times> aim_session \<Rightarrow> bool" where
  "dispatched_ok f = (\<lambda>(h, _, s). world_ok s \<and> (h = 0 \<longrightarrow> alive f s))"

lemma dispatch_okay:
  assumes "careful cl" "calm_at f s"
  shows "okay (\<lambda>x. x) (dispatched_ok f) (dispatch_frame cl (module_handlers cl) f s)"
proof -
  have s: "world_ok s" using assms(2) by (simp add: calm_at_def)
  have last: "okay (\<lambda>x. x) (dispatched_ok f) (last_chance (module_handlers cl) f bs t)" if "world_ok t" for bs t
    unfolding last_chance_def
    by (rule okay_bind [OF consumesnac_okay(2) [OF assms(1) that]]) (auto simp: dispatched_ok_def)
  have mark: "dispatched_ok f (1, bs, s)" "answered f (r, bs, t) \<Longrightarrow> dispatched_ok f (word_of_int r, bs, t)"
    "world_ok t \<Longrightarrow> h \<noteq> 0 \<Longrightarrow> dispatched_ok f (h, bs, t)" for bs r t h
    using s by (auto simp: answered_def dispatched_ok_def)
  show ?thesis
    unfolding dispatch_frame_def aim_callhandler_noparam_def
    using s mark by (auto intro!: okay_skip okay_bind [OF call_answered [OF assms]] last
        okay_bind [OF consumesnac_okay(1) [OF assms(1) s]] okay_bind [OF negchan_answered [OF assms]])
qed

lemma calm_at_queue:
  assumes "world_ok s" "f \<in> set (queue_incoming s)" "fr_handled f = 0"
  shows "calm_at f s"
proof -
  have "g = f" if "g \<in> set (queue_incoming s)" "fr_id g = fr_id f" for g
    using assms(1,2) that by (auto simp: world_ok_def distinct_map dest: inj_onD)
  moreover have "\<exists>a. fr_conn f = Some a \<and> conns s a \<noteq> None"
    using assms refs_okD [OF session_okD(2), of s f] by (auto simp: world_ok_def)
  ultimately show ?thesis using assms(1) by (auto simp: calm_at_def alive_def)
qed

lemma store_world:
  assumes "world_ok s" "h = 0 \<longrightarrow> alive f s" "store_frame (fr_id f) h bs s = Some s'"
  shows "world_ok s'"
proof -
  let ?u = "\<lambda>fr. if fr_id fr = fr_id f then fr\<lparr>fr_handled := h, fr_data := bs\<rparr> else fr"
  have s': "s' = s\<lparr>queue_incoming := map ?u (queue_incoming s)\<rparr>"
    using assms(3) by (simp add: store_frame_def split: if_splits)
  have "session_ok s'"
    using assms(1,2) by (auto simp: s' world_ok_def session_ok_def refs_ok_def conns_ok_def alive_def)
  moreover have "map fr_id (map ?u (queue_incoming s)) = map fr_id (queue_incoming s)" by simp
  ultimately show ?thesis using world_ok_tidy [OF assms(1)] by (simp add: s' tidy_def)
qed

lemma next_frame_in: "next_frame i s = Some (Some f) \<Longrightarrow> f \<in> set (queue_incoming s)"
  by (auto simp: next_frame_def split: list.splits dest!: arg_cong [where f = set] dest: set_dropWhileD) 

lemma rxdispatch_loop_world:
  "rxdispatch_loop cl hs cur s = Some s' \<Longrightarrow> careful cl \<and> hs = module_handlers cl \<and> world_ok s \<and>
     (\<forall>f. cur = Some f \<longrightarrow> f \<in> set (queue_incoming s)) \<longrightarrow> world_ok s'"
proof (erule rxdispatch_loop.raw_induct [rotated], rule impI)
  fix rec cl hs cur s s'
  assume IH: "\<And>cl hs cur s s'. rec cl hs cur s = Some s' \<Longrightarrow> careful cl \<and> hs = module_handlers cl \<and> world_ok s \<and>
       (\<forall>f. cur = Some f \<longrightarrow> f \<in> set (queue_incoming s)) \<longrightarrow> world_ok s'"
    and step: "(case cur of None \<Rightarrow> Some s | Some fr \<Rightarrow> do {
          s \<leftarrow> (if fr_handled fr \<noteq> 0 then Some s
                else do { (h, bs, s) \<leftarrow> dispatch_frame cl hs fr s; store_frame (fr_id fr) h bs s });
          nxt \<leftarrow> next_frame (fr_id fr) s;
          rec cl hs nxt s }) = Some s'"
    and ok: "careful cl \<and> hs = module_handlers cl \<and> world_ok s \<and> (\<forall>f. cur = Some f \<longrightarrow> f \<in> set (queue_incoming s))"
  show "world_ok s'"
  proof (cases cur)
    case (Some f)
    with step obtain t nxt where t: "(if fr_handled f \<noteq> 0 then Some s
        else do { (h, bs, s) \<leftarrow> dispatch_frame cl hs f s; store_frame (fr_id f) h bs s }) = Some t"
      and nxt: "next_frame (fr_id f) t = Some nxt" and rec: "rec cl hs nxt t = Some s'"
      by (auto split: bind_splits)
    have "world_ok t"
    proof (cases "fr_handled f = 0")
      case True
      with t obtain h bs u where u: "dispatch_frame cl hs f s = Some (h, bs, u)" "store_frame (fr_id f) h bs u = Some t"
        by (auto split: bind_splits)
      have "calm_at f s" using calm_at_queue ok Some True by blast
      with dispatch_okay [of cl f s] store_world [of u h f bs t] u ok show ?thesis
        by (auto simp: okay_def dispatched_ok_def)
    qed (use t ok in simp)
    with IH [OF rec] ok nxt next_frame_in show ?thesis by blast
  qed (use step ok in simp)
qed

lemma rxdispatch_okay: "careful cl \<Longrightarrow> world_ok s \<Longrightarrow> okay (\<lambda>s. s) world_ok (aim_rxdispatch cl (module_handlers cl) s)"
  by (auto simp: okay_def aim_rxdispatch_def split: bind_splits list.split
      dest!: rxdispatch_loop_world intro!: world.purging)

section \<open>A program\<close>

text \<open>The requests of a client, whatever its arguments are.\<close>

inductive request :: "client \<Rightarrow> aim_session \<Rightarrow> (int \<times> aim_session) option \<Rightarrow> bool" for cl s where
  \<comment> \<open>service\<close>
  "request cl s (aim_clientready cl s conn)" | "request cl s (aim_setversions cl s conn)"
| "request cl s (aim_reqrates cl s conn)" | "request cl s (aim_rates_addparam cl s conn)"
| "request cl s (aim_rates_delparam cl s conn)" | "request cl s (aim_reqservice cl s conn w)"
| "request cl s (aim_sendpauseack cl s conn)" | "request cl s (aim_reqpersonalinfo cl s conn)"
| "request cl s (aim_bos_setidle cl s conn idle)" | "request cl s (aim_bos_setprivacyflags cl s conn pf)"
| "request cl s (aim_nop cl s conn)" | "request cl s (aim_setextstatus cl s conn status)"
| "request cl s (aim_sendmemblock cl s conn ofs n buf flag)" | "request cl s (aim_flap_nop cl s conn)"
  \<comment> \<open>login\<close>
| "request cl s (aim_sendcookie cl s conn ck)" | "request cl s (aim_sendflapver cl s conn)"
| "request cl s (aim_send_login cl s conn osn pw ci key)"
  \<comment> \<open>messages\<close>
| "request cl s (aim_send_im_ext cl s sx)" | messaged: "request cl s (aim_send_im cl s dest fl msg)"
| "request cl s (aim_send_icon cl s osn icon k stamp csum)" | "request cl s (aim_send_rtfmsg cl s rt)"
| "request cl s (aim_denytransfer cl s sender ck code)" | "request cl s (aim_reqicbmparams cl s)"
| "request cl s (aim_seticbmparam cl s params)"
  \<comment> \<open>users\<close>
| "request cl s (aim_getinfo cl s conn osn info)" | "request cl s (aim_sendbuddyoncoming cl s conn ui)"
| "request cl s (aim_sendbuddyoffgoing cl s conn osn)" | "request cl s (aim_0002_000b cl s conn osn)"
| "request cl s (aim_usersearch_address cl s conn osn)" | "request cl s (aim_ads_requestads cl s conn)"
| "request cl s (aim_bos_setbuddylist cl s conn bl)" | "request cl s (aim_bos_setprofile cl s conn pr aw caps)"
| "request cl s (aim_bos_reqbuddyrights cl s conn)" | "request cl s (aim_bos_reqlocaterights cl s conn)"
| "request cl s (aim_setdirectoryinfo cl s conn d1 d2 d3 d4 d5 d6 d7 d8 d9 k priv)"
| "request cl s (aim_setuserinterests cl s conn i1 i2 i3 i4 i5 priv)"
| "request cl s (aim_send_warning cl s conn dest anon)"
| "request cl s (aim_add_buddy cl s conn osn)" | "request cl s (aim_remove_buddy cl s conn osn)"
| "request cl s (aim_bos_reqrights cl s conn)" | "request cl s (aim_bos_setgroupperm cl s conn msk)"
| "request cl s (aim_bos_changevisibility cl s conn ch bl)"
  \<comment> \<open>account and server stored information\<close>
| "request cl s (aim_admin_changepasswd cl s conn cur new)" | "request cl s (aim_admin_reqconfirm cl s conn)"
| "request cl s (aim_admin_getinfo cl s conn info)" | "request cl s (aim_admin_setemail cl s conn email)"
| "request cl s (aim_admin_setnick cl s conn nick)"
| "request cl s (aim_ssi_reqrights cl s conn)" | "request cl s (aim_ssi_reqdata cl s conn date revn)"
| "request cl s (aim_ssi_enable cl s conn)" | "request cl s (aim_ssi_modbegin cl s conn)"
| "request cl s (aim_ssi_modend cl s conn)"
  \<comment> \<open>chat and ICQ\<close>
| "request cl s (aim_chat_send_im cl s conn fl omsg k)" | "request cl s (aim_chat_join cl s conn ex oname inst)"
| "request cl s (aim_chat_invite cl s conn osn omsg ex oname inst)" | "request cl s (aim_chatnav_reqrights cl s conn)"
| "request cl s (aim_chatnav_createroom cl s conn room_name ex)"
| "request cl s (aim_icq_reqofflinemsgs cl s)" | "request cl s (aim_icq_ackofflinemsgs cl s)"
| "request cl s (aim_icq_sendxmlreq cl s xml)" | "request cl s (aim_icq_getsimpleinfo cl s uin)"

lemma request_okay:
  assumes "careful cl" "world_ok s" "request cl s m"
  shows "okay st2 world_ok m"
  using assms(3) by cases (simp_all add: keeps careful_polite [OF assms(1)] assms(2))

text \<open>Everything a client does to a session between its start and its end, one call at a time.\<close>

inductive program_step :: "client \<Rightarrow> aim_session \<Rightarrow> aim_session \<Rightarrow> bool" for cl where
  opened: "aim_newconn ne s ty dest = Some (r, s') \<Longrightarrow> program_step cl s s'"
| proxied: "program_step cl s (aim_setupproxy s server username password)"
| cloned: "conns s b \<noteq> None \<Longrightarrow> aim_cloneconn s (Some b) = Some (r, s') \<Longrightarrow> program_step cl s s'"
| hooked_one: "aim_conn_addhandler s conn f t h fl = Some (r, s') \<Longrightarrow> program_step cl s s'"
| unhooked: "aim_clearhandlers s conn = Some (r, s') \<Longrightarrow> program_step cl s s'"
| latency: "aim_conn_setlatency conn n s = Some (r, s') \<Longrightarrow> program_step cl s s'"
| mode: "aim_tx_setenqueue s what func = (r, s') \<Longrightarrow> program_step cl s s'"
| logging_in: "aim_request_login cl (Some s) conn sn = Some (r, Some s') \<Longrightarrow> program_step cl s s'"
| requested: "request cl s m \<Longrightarrow> m = Some (r, s') \<Longrightarrow> program_step cl s s'"
| left: "aim_chat_leaveroom s name = Some (r, s') \<Longrightarrow> program_step cl s s'"
| waited: "aim_select select s = Some (p, st, s') \<Longrightarrow> program_step cl s s'"
| received: "aim_get_command cl (aim_get_command_rendezvous cl junk) s conn = Some (r, s') \<Longrightarrow> program_step cl s s'"
| dispatching: "aim_rxdispatch cl (module_handlers cl) s = Some s' \<Longrightarrow> program_step cl s s'"
| completed: "aim_conn_completeconnect cl s conn = Some (r, s') \<Longrightarrow> program_step cl s s'"
| named: "aim_chat_attachname conn exchange roomname inst s = Some (r, s') \<Longrightarrow> program_step cl s s'"
| purged: "program_step cl s (aim_tx_purgequeue s)"
| flushed: "aim_tx_flushqueue s = Some (r, s') \<Longrightarrow> program_step cl s s'"
| expired: "program_step cl s (aim_cleansnacs s maxage)"
| closed_one: "aim_conn_close conn s = Some s' \<Longrightarrow> program_step cl s s'"
| killed: "aim_conn_kill s conn = Some s' \<Longrightarrow> program_step cl s s'"
| logged_off: "aim_logoff s = Some (r, s') \<Longrightarrow> program_step cl s s'"
| ended: "aim_session_kill s = Some s' \<Longrightarrow> program_step cl s s'"
| asking: "aim_directim_initiate cl ne s destsn = Some (r, s') \<Longrightarrow> program_step cl s s'"
| offering: "aim_sendfile_initiate cl ne s osn fn nf ts = Some (r, s') \<Longrightarrow> program_step cl s s'"
| accepting: "aim_handlerendconnect cl s cur ev = Some (r, s') \<Longrightarrow> program_step cl s s'"
| connecting: "aim_directim_connect ne s osn addr cookie = Some (r, s') \<Longrightarrow> program_step cl s s'"
| talking: "aim_send_im_direct cl s conn msg = Some (r, s') \<Longrightarrow> program_step cl s s'"

lemma setupproxy_core: "core_kept s (aim_setupproxy s server username password)"
  by (simp add: aim_setupproxy_def core_kept_def Let_def)

lemma select_core: "aim_select sel s = Some (p, st, s') \<Longrightarrow> core_kept s s'"
  by (auto simp: aim_select_def core_kept_def Let_def split: if_splits bind_splits sum.splits option.splits)

lemma session_kill_okay: "world_ok s \<Longrightarrow> okay (\<lambda>s. s) world_ok (aim_session_kill s)"
proof -
  have mods: "world_ok (aim__shutdownmodules s)" if "world_ok s" for s
    using that by (auto simp: world_ok_def aim__shutdownmodules_def session_ok_def conns_ok_def refs_ok_def)
  show "world_ok s \<Longrightarrow> okay (\<lambda>s. s) world_ok (aim_session_kill s)"
    by (auto simp: okay_def aim_session_kill_def Let_def split: bind_splits
        dest: world.ending [OF world.cleansnacs_okay] intro!: mods)
qed

lemma okay_taken:
  "m1 = Some s' \<Longrightarrow> okay (\<lambda>s. s) I m1 \<Longrightarrow> I s'" "m2 = Some (r, s') \<Longrightarrow> okay st2 I m2 \<Longrightarrow> I s'"
  by (auto simp: okay_def)

lemma program_step_ok:
  assumes "program_step cl s s'" "world_ok s" "careful cl"
  shows "world_ok s'"
  using assms(1,2)
proof (induction rule: program_step.induct)
  note polite = careful_polite [OF assms(3)]
  case (mode s what func r s')
  then show ?case using world.settings_okay(5) [of s what func] by simp
next
  case (requested s m r s')
  show ?case by (rule okay_taken(2) [OF requested(2) request_okay [OF assms(3) requested(3,1)]])
next
  case (cloned s b r s')
  then show ?case by (blast intro: world.cloning)
next
  case (waited sel s p st s')
  then show ?case by (blast intro: world.core select_core)
next
  case (proxied s server username password)
  then show ?case by (blast intro: world.core setupproxy_core)
next
  case (logging_in s conn sn r s')
  then show ?case by (blast intro: world.request_login_okay careful_polite [OF assms(3)])
next
  case (expired s maxage)
  then show ?case by (rule world.cleansnacs_okay)
next
  case (purged s)
  then show ?case
    by (auto simp: world_ok_def aim_tx_purgequeue_def session_ok_purge(2) [unfolded aim_tx_purgequeue_def])
next
  case (killed s conn s')
  then show ?case by (blast intro: world.killing)
next
  case (logged_off s r s')
  then show ?case by (blast intro: world.ending)
qed (erule okay_taken, simp add: keeps careful_polite [OF assms(3)] rxdispatch_okay [OF assms(3)] session_kill_okay)+

lemma session_init_world:
  assumes "aim_session_init z flags dbg = Some s" "conns z = (\<lambda>_. None)"
  shows "world_ok s"
proof -
  define P where "P t \<longleftrightarrow> conns t = (\<lambda>_. None) \<and> connlist t = [] \<and> queue_incoming t = [] \<and> queue_outgoing t = [] \<and>
    set (modlist t) \<subseteq> set default_modules" for t :: aim_session
  have "P (fold (\<lambda>mf s. snd (aim__registermodule s (Some mf))) session_modules t)" if "P t" for t
  proof (rule fold_invariant [where Q = "\<lambda>mf. mf \<in> set session_modules"])
    show "P (snd (aim__registermodule t (Some mf)))" if "mf \<in> set session_modules" "P t" for mf t
      using that
      by (auto simp: P_def aim__registermodule_def malloc_eq Let_def default_modules_def split: prod.split)
        (metis imageI snd_conv)
  qed (use that in simp_all)
  moreover have "P t \<Longrightarrow> world_ok t" for t
    by (simp add: P_def world_ok_def session_ok_def conns_ok_def refs_ok_def)
  ultimately show ?thesis
    using assms
    by (auto simp: aim_session_init_def aim_connrst_def aim_initsnachash_def aim_tx_setenqueue_def zero_session_def
        P_def Let_def)
qed

text \<open>C9: from the start of a session on, whatever a client asks for, however the servers and peers it is
  connected to answer and whatever becomes of memory and sockets: every connection of the list is live
  and listed once, every frame that still waits in either queue belongs to a live connection, incoming
  frames are distinct, and the dispatcher only ever asks modules of the library. Of the client's callbacks
  this takes that they use the session as the library does, and that one which says it has not
  handled a frame has not killed its connection.\<close>

theorem program_intact:
  assumes "aim_session_init z flags dbg = Some s" "conns z = (\<lambda>_. None)" "careful cl" "(program_step cl)\<^sup>*\<^sup>* s s'"
  shows "distinct (connlist s') \<and> set (connlist s') = dom (conns s') \<and>
    (\<forall>fr \<in> set (queue_incoming s') \<union> set (queue_outgoing s').
       fr_handled fr = 0 \<longrightarrow> (\<exists>a \<in> set (connlist s'). fr_conn fr = Some a)) \<and>
    distinct (map fr_id (queue_incoming s')) \<and> set (modlist s') \<subseteq> set default_modules"
proof -
  have "world_ok s" by (rule session_init_world [OF assms(1,2)])
  with assms(4) have "world_ok s'"
    by (induction rule: rtranclp_induct) (blast intro: program_step_ok assms(3))+
  then show ?thesis using session_ok_frames [of s'] unfolding world_ok_def by blast
qed

lemma quiet_careful [simp]: "careful quiet_client"
  by (auto simp: careful_def quiet_client_def)

theorem program_intact_witness:
  "\<exists>s s1 s2 fr. aim_session_init (session0 3) 0 0 = Some s \<and> aim_newconn no_network s 2 None = Some (Some 0, s1) \<and>
     aim_flap_nop quiet_client s1 (Some 0) = Some (0, s2) \<and> queue_outgoing s2 = [fr] \<and>
     (\<exists>a \<in> set (connlist s2). fr_conn fr = Some a)"
proof -
  obtain s where s: "aim_session_init (session0 3) 0 0 = Some s" "mem_ok s" "next_addr s = 0" "tx_enqueue s = TxQueued"
    "queue_outgoing s = []"
    by (auto simp: session_init_eq zero_session_def mem_ok_def)
  obtain s1 c where s1: "aim_newconn no_network s 2 None = Some (Some 0, s1)" "mem_ok s1" "tx_enqueue s1 = TxQueued"
    "queue_outgoing s1 = []" "conns s1 0 = Some c" "conn_type c = 2"
    using s(2-5) by (auto simp: aim_newconn_def getnext_ok)
  obtain s2 fr where s2: "aim_flap_nop quiet_client s1 (Some 0) = Some (0, s2)" "queue_outgoing s2 = [fr]" "fr_handled fr = 0"
    using s1(2-6)
    by (cases "conn_inprogress c")
      (auto simp: aim_flap_nop_def aim_tx_new_def new_addr_def malloc_ok aim_tx_enqueue_def aim_tx_enqueue__queuebased_def
        stamp_frame_def aim_get_next_txseqnum_def Let_def AIM_CONN_TYPE_RENDEZVOUS_def AIM_CONN_TYPE_RENDEZVOUS_OUT_def)
  have "(program_step quiet_client)\<^sup>*\<^sup>* s s2"
    by (rule rtranclp_trans [OF r_into_rtranclp [of "program_step quiet_client" _ s1] r_into_rtranclp])
      (rule program_step.opened [OF s1(1)], rule program_step.requested [OF _ s2(1)], rule request.intros)
  from program_intact [OF s(1) _ _ this] s1 s2 s(1) show ?thesis by auto
qed

end
