(* ===== verification/Delivery.thy ===== *)
theory Delivery
  imports Program
begin

text \<open>
  What the layers do together: from the bytes on the socket of a connection to the function of the
  client that gets a message, with the receive queue, the dispatcher and the modules of the library
  in between.
\<close>

section \<open>From the dispatcher to a module\<close>

lemma consume_own:
  assumes "modlist s = default_modules" "own_module (ms_family snac) = Some m" "mod_snachandler m = Some h"
    "hs h m rx snac bs s = Some (r, bs', s')" "r \<noteq> 0"
  shows "consume_loop hs (modlist s) rx snac bs s = Some (1, bs', s')"
proof -
  have "mod_family m = ms_family snac" using assms(2) by (auto simp: own_module_def find_Some_iff)
  with assms show ?thesis by (subst consume_loop_filter) (simp add: takes_default)
qed

lemma messaging_module: "\<exists>m. own_module 0x0004 = Some m \<and> mod_snachandler m = Some HMessaging"
  by (simp add: own_module_def default_modules_def session_modules_def modfirst_defs)

text \<open>A queue of one frame: it is dispatched, and goes when its handler took it.\<close>

lemma dispatch_single:
  assumes "queue_incoming s = [fr]" "fr_handled fr = 0" "dispatch_frame cl hs fr s = Some (h, bs, t)"
    "queue_incoming t = [g]" "fr_id g = fr_id fr"
  shows "aim_rxdispatch cl hs s =
    Some (t\<lparr>queue_incoming := (if h = 0 then [g\<lparr>fr_handled := 0, fr_data := bs\<rparr>] else [])\<rparr>)"
proof -
  have nxt: "next_frame (fr_id fr) (t\<lparr>queue_incoming := [g\<lparr>fr_handled := h, fr_data := bs\<rparr>]\<rparr>) = Some None"
    by (simp add: next_frame_def assms(5))
  have "rxdispatch_loop cl hs (Some fr) s = Some (t\<lparr>queue_incoming := [g\<lparr>fr_handled := h, fr_data := bs\<rparr>]\<rparr>)"
    by (subst rxdispatch_loop.simps)
      (simp add: assms store_frame_def nxt, subst rxdispatch_loop.simps, simp)
  then show ?thesis by (simp add: aim_rxdispatch_def assms(1) aim_purge_rxqueue_def)
qed

lemma dispatch_snac:
  assumes "conns s a = Some c" "flap_conn c" "fr_conn fr = Some a" "fr_hdr fr = Flap 2 sq"
    "bs_ok (fr_data fr)" "unread (fr_data fr) = snac_wire f t fl i @ rest"
    "modlist s = default_modules" "own_module f = Some m" "mod_snachandler m = Some h"
    "hs h m fr \<lparr>ms_family = f, ms_subtype = t, ms_flags = fl, ms_id = i\<rparr> (adv 10 (fr_data fr)) s = Some (r, bs, u)"
    "r \<noteq> 0"
  shows "dispatch_frame cl hs fr s = Some (1, bs, u)"
proof -
  have "10 \<le> room (fr_data fr)" using length_unread [OF assms(5)] assms(6) by simp
  have "consume_loop hs (modlist s) fr \<lparr>ms_family = f, ms_subtype = t, ms_flags = fl, ms_id = i\<rparr> (adv 10 (fr_data fr)) s
      = Some (1, bs, u)"
    using assms(7-11) by (intro consume_own [where m = m and h = h and r = r]) simp_all
  with consumesnac_loop [OF assms(5) \<open>10 \<le> room (fr_data fr)\<close> assms(6), of hs s]
  have "consumesnac hs s fr = Some (1, bs, u)" by simp
  then show ?thesis
    using assms(1-4)
    by (simp add: dispatch_frame_def fr_hdrtype_def fr_channel_def flap_conn_def AIM_FRAMETYPE_FLAP_def AIM_FRAMETYPE_OFT_def)
qed

text \<open>A frame with a message is dispatched by one call of the function that is hooked for messages.\<close>

lemma dispatch_message:
  assumes "queue_incoming s = [fr]" "fr_conn fr = Some a" "fr_hdr fr = Flap 2 sq" "fr_handled fr = 0" "bs_ok (fr_data fr)"
    "unread (fr_data fr) = snac_wire 0x0004 0x0007 fl i @ cookie @ aimutil_put16 0x0001 @ info_wire ui @ chain_wire (im_tlvs im)"
    "conns s a = Some c" "flap_conn c" "mem_ok s" "modlist s = default_modules"
    "hooked s a 0x0004 0x0007 = Some (UserCb n)" "ui_fits ui" "im_ok im" "length cookie = 8"
  shows "\<exists>bs. \<forall>r bs' s2. cl_callback cl n (Some fr) [ArgInt 1, ArgUserinfo (read_back ui), ch1_arg (im_received im)] bs s = Some (r, bs', s2) \<and>
    r \<noteq> 0 \<and> queue_incoming s2 = [fr] \<longrightarrow> aim_rxdispatch cl (module_handlers cl) s = Some (s2\<lparr>queue_incoming := []\<rparr>)"
proof -
  let ?snac = "\<lparr>ms_family = 4, ms_subtype = 7, ms_flags = fl, ms_id = i\<rparr>" and ?b = "adv 10 (fr_data fr)"
  have r10: "10 \<le> room (fr_data fr)" using length_unread [OF assms(5)] assms(6) by simp
  have b: "bs_ok ?b" "unread ?b = cookie @ aimutil_put16 0x0001 @ info_wire ui @ chain_wire (im_tlvs im)"
    subgoal using assms(5) r10 by simp
    subgoal unfolding unread_adv assms(6) by (simp del: append_assoc)
    done
  obtain m where m: "own_module 0x0004 = Some m" "mod_snachandler m = Some HMessaging" using messaging_module by blast
  have "\<exists>b'. msg_snachandler cl m fr ?snac ?b s = call_user cl s (fr_conn fr) (ms_family ?snac) 0x0007 0 (Some fr)
      [ArgInt 1, ArgUserinfo (read_back ui), ch1_arg (im_received im)] b'"
    by (rule im_channel1 [OF b(1) assms(9,12,14) b(2)], simp) (rule ch1_loop_im [OF _ assms(9,13)])
  then obtain b' where b': "msg_snachandler cl m fr ?snac ?b s = call_user cl s (Some a) 0x0004 0x0007 0 (Some fr)
      [ArgInt 1, ArgUserinfo (read_back ui), ch1_arg (im_received im)] b'"
    unfolding assms(2) by auto
  have hook: "aim_callhandler s (Some a) 4 7 = Some (Some (UserCb n))"
    using assms(7,11) by (simp add: callhandler_hooked)
  have u: "unread (fr_data fr) = snac_wire 0x0004 0x0007 fl i @ unread ?b" by (simp add: b(2) assms(6))
  have "aim_rxdispatch cl (module_handlers cl) s = Some (s2\<lparr>queue_incoming := []\<rparr>)"
    if cb: "cl_callback cl n (Some fr) [ArgInt 1, ArgUserinfo (read_back ui), ch1_arg (im_received im)] b' s = Some (r, bs', s2)"
      "r \<noteq> 0" "queue_incoming s2 = [fr]" for r bs' s2
  proof -
    have h: "module_handlers cl HMessaging m fr ?snac ?b s = Some (r, bs', s2)"
      using b' cb(1) hook by (simp add: module_handlers_def call_user_def call_cb_def)
    have "dispatch_frame cl (module_handlers cl) fr s = Some (1, bs', s2)"
      by (rule dispatch_snac [where hs = "module_handlers cl" and h = HMessaging, OF assms(7,8,2,3,5) u assms(10) m h cb(2)])
    from dispatch_single [OF assms(1,4) this cb(3)] show ?thesis by simp
  qed
  then show ?thesis by blast
qed

text \<open>C10: A message of another user reaches the client: when the bytes of the frame a server makes of a message, its
  elements as \<^verbatim>\<open>aim_send_im_ext\<close> wrote them and the information on the sender before them, have come in on a
  connection, in whatever pieces, then receiving and dispatching call the function the client registered
  for incoming messages once, with that user and that message; when it says it has taken the message,
  nothing is left in the queue.\<close>

theorem message_reaches_client:
  assumes "mem_ok s" "conns s a = Some c" "flap_conn c" "modlist s = default_modules" "queue_incoming s = []"
    "hooked s a 0x0004 0x0007 = Some (UserCb n)" "ui_fits ui" "im_ok im" "length cookie = 8"
    "payload = snac_wire 0x0004 0x0007 fl i @ cookie @ aimutil_put16 0x0001 @ info_wire ui @ chain_wire (im_tlvs im)"
    "length payload < 65536" "os_in s (conn_fd c) = map RecvChunk cs" "[] \<notin> set cs" "concat cs = flap_wire 2 sq payload"
  shows "\<exists>s1 fr bs. aim_get_command cl rv s (Some a) = Some (0, s1) \<and> queue_incoming s1 = [fr] \<and>
    fr_conn fr = Some a \<and> fr_hdr fr = Flap 2 sq \<and>
    (\<forall>r bs' s2. cl_callback cl n (Some fr) [ArgInt 1, ArgUserinfo (read_back ui), ch1_arg (im_received im)] bs s1 = Some (r, bs', s2) \<and>
       r \<noteq> 0 \<and> queue_incoming s2 = [fr] \<longrightarrow>
       aim_rxdispatch cl (module_handlers cl) s1 = Some (s2\<lparr>queue_incoming := []\<rparr>))"
proof -
  have "incoming s (conn_fd c) (flap_wire 2 sq payload @ []) []"
    using assms(12-14) by (auto simp: incoming_def)
  from get_command_frame [OF assms(1-3,11) this, of cl rv] obtain s1 where s1:
    "aim_get_command cl rv s (Some a) = Some (0, s1)"
    "queue_incoming s1 = [\<lparr>fr_id = next_addr s, fr_hdr = Flap 2 sq,
        fr_data = \<lparr>bs_data = payload, bs_len = length payload, bs_off = 0\<rparr>,
        fr_handled = 0, fr_nofree = 0, fr_conn = Some a\<rparr>]"
    "conns s1 a = Some (c\<lparr>conn_lastactivity := os_now s\<rparr>)" "mem_ok s1" "modlist s1 = default_modules"
    using assms(4,5) by auto
  define fr where "fr = hd (queue_incoming s1)"
  have fr: "queue_incoming s1 = [fr]" "fr_conn fr = Some a" "fr_hdr fr = Flap 2 sq" "fr_handled fr = 0"
    "bs_ok (fr_data fr)" "unread (fr_data fr) = payload"
    using stream_of [OF refl assms(11)] s1(2) by (simp_all add: fr_def)
  have "flap_conn (c\<lparr>conn_lastactivity := os_now s\<rparr>)" "hooked s1 a 0x0004 0x0007 = Some (UserCb n)"
    using assms(2,3,6) s1(3) by (simp_all add: flap_conn_def conn_inprogress_def hooked_def)
  from dispatch_message [OF fr(1-5) fr(6) [unfolded assms(10)] s1(3) this(1) s1(4,5) this(2) assms(7-9), of cl] s1(1) fr(1-3)
  show ?thesis by blast
qed

text \<open>A client that notes that the expected message has come.\<close>

definition noting_client :: "cb_arg list \<Rightarrow> client" where
  "noting_client wanted =
     \<lparr>cl_callback = (\<lambda>n fr args bs s. Some (1, bs, if args = wanted then s\<lparr>os_errno := 42\<rparr> else s)),
      cl_tx = (\<lambda>n fr s. None)\<rparr>"

theorem message_reaches_client_witness:
  "\<exists>payload s1 s2 cl.
     payload = snac_wire 4 7 0 1 @ [1, 2, 3, 4, 5, 6, 7, 8] @ [0, 1] @ [0, 0, 0, 0, 0] @ chain_wire (im_tlvs im_hello) \<and>
     cl = noting_client [ArgInt 1, ArgUserinfo (read_back zero_userinfo), ch1_arg (im_received im_hello)] \<and>
     aim_get_command cl (\<lambda>s c. None) (demo_session\<lparr>conns := [0 \<mapsto> (demo_conn 5)\<lparr>conn_handlerlist :=
          [\<lparr>cb_family = 4, cb_type = 7, cb_handler = UserCb 3, cb_flags = 0\<rparr>]\<rparr>], modlist := default_modules,
        os_in := (\<lambda>_. [RecvChunk (take 3 (flap_wire 2 9 payload)), RecvChunk (drop 3 (flap_wire 2 9 payload))])\<rparr>) (Some 0)
       = Some (0, s1) \<and>
     aim_rxdispatch cl (module_handlers cl) s1 = Some s2 \<and> queue_incoming s2 = [] \<and> os_errno s2 = 42"
proof -
  let ?p = "snac_wire 4 7 0 1 @ [1, 2, 3, 4, 5, 6, 7, 8] @ [0, 1] @ [0, 0, 0, 0, 0] @ chain_wire (im_tlvs im_hello)"
  let ?cl = "noting_client [ArgInt 1, ArgUserinfo (read_back zero_userinfo), ch1_arg (im_received im_hello)]"
  let ?s = "demo_session\<lparr>conns := [0 \<mapsto> (demo_conn 5)\<lparr>conn_handlerlist :=
      [\<lparr>cb_family = 4, cb_type = 7, cb_handler = UserCb 3, cb_flags = 0\<rparr>]\<rparr>], modlist := default_modules,
    os_in := (\<lambda>_. [RecvChunk (take 3 (flap_wire 2 9 ?p)), RecvChunk (drop 3 (flap_wire 2 9 ?p))])\<rparr>"
  have len: "length ?p = 51" by (simp add: im_hello_ok(2))
  have "\<exists>s1 fr bs. aim_get_command ?cl (\<lambda>s c. None) ?s (Some 0) = Some (0, s1) \<and> queue_incoming s1 = [fr] \<and>
    fr_conn fr = Some 0 \<and> fr_hdr fr = Flap 2 9 \<and>
    (\<forall>r bs' s2. cl_callback ?cl 3 (Some fr) [ArgInt 1, ArgUserinfo (read_back zero_userinfo), ch1_arg (im_received im_hello)] bs s1
         = Some (r, bs', s2) \<and> r \<noteq> 0 \<and> queue_incoming s2 = [fr] \<longrightarrow>
       aim_rxdispatch ?cl (module_handlers ?cl) s1 = Some (s2\<lparr>queue_incoming := []\<rparr>))"
    by (rule message_reaches_client [where c = "(demo_conn 5)\<lparr>conn_handlerlist :=
          [\<lparr>cb_family = 4, cb_type = 7, cb_handler = UserCb 3, cb_flags = 0\<rparr>]\<rparr>" and payload = ?p and fl = 0 and i = 1
        and cookie = "[1, 2, 3, 4, 5, 6, 7, 8]" and cs = "[take 3 (flap_wire 2 9 ?p), drop 3 (flap_wire 2 9 ?p)]"])
      (use len zero_user_wire im_hello_ok(1) in \<open>simp_all add: hooked_def flap_conn_def conn_inprogress_def
        mem_ok_def demo_session_def demo_conn_def aim_conn_init_def zero_conn_def AIM_CONN_TYPE_BOS_def
        AIM_CONN_TYPE_RENDEZVOUS_def AIM_CONN_TYPE_RENDEZVOUS_OUT_def flap_wire_def aimutil_put16_def to_u16_def\<close>)
  then obtain s1 fr bs where s1: "aim_get_command ?cl (\<lambda>s c. None) ?s (Some 0) = Some (0, s1)" "queue_incoming s1 = [fr]"
    "\<And>r bs' s2. cl_callback ?cl 3 (Some fr) [ArgInt 1, ArgUserinfo (read_back zero_userinfo), ch1_arg (im_received im_hello)] bs s1
         = Some (r, bs', s2) \<Longrightarrow> r \<noteq> 0 \<Longrightarrow> queue_incoming s2 = [fr] \<Longrightarrow>
       aim_rxdispatch ?cl (module_handlers ?cl) s1 = Some (s2\<lparr>queue_incoming := []\<rparr>)" by blast
  from s1(3) [of 1 bs "s1\<lparr>os_errno := 42\<rparr>"] s1(2)
  have "aim_rxdispatch ?cl (module_handlers ?cl) s1 = Some (s1\<lparr>os_errno := 42, queue_incoming := []\<rparr>)"
    by (simp add: noting_client_def)
  with s1(1) show ?thesis
    by (intro exI [of _ ?p] exI [of _ s1] exI [of _ "s1\<lparr>os_errno := 42, queue_incoming := []\<rparr>"] exI [of _ ?cl])
      simp
qed

section \<open>A callback that kills the connection of its frame\<close>

lemma dangling_frame:
  assumes "queue_incoming s = [fr]" "fr_handled fr = 0" "fr_conn fr = Some a" "conns s a = None"
  shows "aim_rxdispatch cl hs s = None"
  using assms by (simp add: aim_rxdispatch_def) (subst rxdispatch_loop.simps, simp add: dispatch_frame_def)

text \<open>C20: What a callback must not do: when the function the client registered for the version of a connection kills that
  connection and says it has not handled the frame, the dispatcher stores that answer over the mark that killing
  the connection had left on the frame; the frame stays in the queue without its connection, and the
  next run of the dispatcher follows the dangling pointer.\<close>

theorem killed_by_callback:
  assumes "queue_incoming s = [fr]" "fr_handled fr = 0" "fr_hdr fr = Flap 1 sq" "fr_conn fr = Some a"
    "conns s a = Some c" "flap_conn c" "a \<in> set (connlist s)"
    "hooked s a AIM_CB_FAM_SPECIAL AIM_CB_SPECIAL_FLAPVER = Some (UserCb n)"
    "cl_callback cl n (Some fr) [] (fr_data fr) s = Some (0, bs, t)" "aim_conn_kill s (Some a) = Some t"
  shows "queue_incoming t = [fr\<lparr>fr_handled := 1\<rparr>] \<and>
    (\<exists>s' g. aim_rxdispatch cl hs s = Some s' \<and> queue_incoming s' = [g] \<and> fr_handled g = 0 \<and> fr_conn g = Some a \<and>
       conns s' a = None \<and> aim_rxdispatch cl hs s' = None)"
proof -
  let ?g = "fr\<lparr>fr_handled := 1\<rparr>"
  have k: "connkill_real (s\<lparr>connlist := remove1 a (connlist s)\<rparr>) a = Some t"
    using assms(7,10) by (simp add: aim_conn_kill_def)
  have t: "queue_incoming t = [?g]" "conns t a = None"
    using connkill_fields(2,4) [OF k] assms(1,2,4) by (simp_all add: mark_new_of_def)
  have d: "dispatch_frame cl hs fr s = Some (0, bs, t)"
    using assms(3-6,8,9)
    by (simp add: dispatch_frame_def fr_hdrtype_def fr_channel_def flap_conn_def AIM_FRAMETYPE_FLAP_def AIM_FRAMETYPE_OFT_def
        aim_callhandler_noparam_def call_user_def callhandler_hooked call_cb_def)
  from dispatch_single [OF assms(1,2) d t(1)]
  have r: "aim_rxdispatch cl hs s = Some (t\<lparr>queue_incoming := [?g\<lparr>fr_handled := 0, fr_data := bs\<rparr>]\<rparr>)" by simp
  have "aim_rxdispatch cl hs (t\<lparr>queue_incoming := [?g\<lparr>fr_handled := 0, fr_data := bs\<rparr>]\<rparr>) = None"
    using t(2) assms(4) by (intro dangling_frame [of _ "?g\<lparr>fr_handled := 0, fr_data := bs\<rparr>" a]) simp_all
  with r t assms(4) show ?thesis by (intro conjI exI [of _ "t\<lparr>queue_incoming := [?g\<lparr>fr_handled := 0, fr_data := bs\<rparr>]\<rparr>"]) auto
qed

definition leaving_client :: client where
  "leaving_client =
     \<lparr>cl_callback = (\<lambda>n fr args bs s. do { f \<leftarrow> fr; s \<leftarrow> aim_conn_kill s (fr_conn f); Some (0, bs, s) }),
      cl_tx = (\<lambda>n fr s. None)\<rparr>"

theorem killed_by_callback_witness:
  "\<exists>s s'. s = demo_session\<lparr>conns := [0 \<mapsto> (demo_conn 5)\<lparr>conn_handlerlist :=
        [\<lparr>cb_family = 0xffff, cb_type = 5, cb_handler = UserCb 3, cb_flags = 0\<rparr>]\<rparr>],
      queue_incoming := [demo_frame 1 [0, 0, 0, 1] (Some 0)]\<rparr> \<and>
    aim_rxdispatch leaving_client (module_handlers leaving_client) s = Some s' \<and>
    aim_rxdispatch leaving_client (module_handlers leaving_client) s' = None"
proof -
  let ?c = "(demo_conn 5)\<lparr>conn_handlerlist := [\<lparr>cb_family = 0xffff, cb_type = 5, cb_handler = UserCb 3, cb_flags = 0\<rparr>]\<rparr>"
  let ?fr = "demo_frame 1 [0, 0, 0, 1] (Some 0)"
  let ?s = "demo_session\<lparr>conns := [0 \<mapsto> ?c], queue_incoming := [?fr]\<rparr>"
  have c: "flap_conn ?c" "conn_type ?c \<noteq> AIM_CONN_TYPE_CHAT"
    by (simp_all add: flap_conn_def conn_inprogress_def demo_conn_def aim_conn_init_def zero_conn_def AIM_CONN_TYPE_BOS_def
        AIM_CONN_TYPE_CHAT_def AIM_CONN_TYPE_RENDEZVOUS_def AIM_CONN_TYPE_RENDEZVOUS_OUT_def)
  obtain t where k: "aim_conn_kill ?s (Some 0) = Some t"
    using c by (auto simp: aim_conn_kill_def connkill_real_def clean_sel Let_def aim_conn_close_def aim_clearhandlers_def
        free_obj_def flap_conn_def demo_conn_def aim_conn_init_def zero_conn_def)
  have "cl_callback leaving_client 3 (Some ?fr) [] (fr_data ?fr) ?s = Some (0, fr_data ?fr, t)"
    using k by (simp add: leaving_client_def demo_frame_def)
  from killed_by_callback [OF _ _ _ _ _ c(1) _ _ this k, of 0 "module_handlers leaving_client"]
  obtain s' where "aim_rxdispatch leaving_client (module_handlers leaving_client) ?s = Some s'"
    "aim_rxdispatch leaving_client (module_handlers leaving_client) s' = None"
    by (auto simp: demo_frame_def hooked_def AIM_CB_FAM_SPECIAL_def AIM_CB_SPECIAL_FLAPVER_def)
  then show ?thesis by blast
qed

end
