(* ===== verification/Received.thy ===== *)
theory Received
  imports Delivery
begin

text \<open>
  The receive queue while the dispatcher walks it (\<^verbatim>\<open>aim_rxdispatch\<close> of \<^verbatim>\<open>src/rxhandlers.c\<close>): the
  modules' handlers do not touch it, so as long as the client's functions do not either, the walk
  along the pointers is the walk over the list that was there at the start.
\<close>

section \<open>What leaves the receive queue alone\<close>

context session_stable
begin

lemma modules_okay: "polite cl \<Longrightarrow> I s \<Longrightarrow> okay st3 I (module_handlers cl k m rx snac bs s)"
  by (cases k) (simp_all add: module_handlers_def keeps)

lemma consuming_okay:
  assumes "polite cl"
  shows "I s \<Longrightarrow> okay st3 I (consume_loop (module_handlers cl) ms f snac bs s)"
proof (induction ms arbitrary: bs s)
  case (Cons m ms)
  then show ?case
    by (cases "mod_snachandler m") (auto intro!: okay_bind [OF modules_okay [OF assms]])
qed simp

lemma snacs_okay [keeps]:
  "polite cl \<Longrightarrow> I s \<Longrightarrow> okay st3 I (consumesnac (module_handlers cl) s f)"
  "polite cl \<Longrightarrow> I s \<Longrightarrow> okay st3 I (consumenonsnac (module_handlers cl) s f bs fam ty)"
  by (auto simp: consumesnac_def consumenonsnac_def Let_def intro!: okay_skip consuming_okay)

lemma negotiating_okay [keeps]: "polite cl \<Longrightarrow> I s \<Longrightarrow> okay st3 I (negchan_middle cl (module_handlers cl) s f)"
  by (auto simp: negchan_middle_def Let_def intro!: keeps)

lemma dispatching_okay: "polite cl \<Longrightarrow> I s \<Longrightarrow> okay st3 I (dispatch_frame cl (module_handlers cl) f s)"
  by (auto simp: dispatch_frame_def last_chance_def aim_callhandler_noparam_def intro!: keeps)

end

lemma enqueue_incoming:
  assumes "aim_tx_enqueue cl s fr = Some (r, s')"
    "\<And>n f t q t'. queue_incoming t = fs \<Longrightarrow> cl_tx cl n f t = Some (q, t') \<Longrightarrow> queue_incoming t' = fs" "queue_incoming s = fs"
  shows "queue_incoming s' = fs"
proof -
  have stamp: "queue_incoming t = queue_incoming s" if "stamp_frame s f = Some (f', t)" for f f' t
    using that by (auto simp: stamp_frame_def aim_get_next_txseqnum_def Let_def split: bind_splits frame_hdr.splits)
  have "aim_tx_enqueue__queuebased s fr = Some (r, s') \<Longrightarrow> queue_incoming s' = fs"
    "aim_tx_enqueue__immediate s fr = Some (r, s') \<Longrightarrow> queue_incoming s' = fs"
    using assms(3) by (auto simp: aim_tx_enqueue__queuebased_def aim_tx_enqueue__immediate_def Let_def touched_fields(2)
        split: bind_splits option.splits if_splits dest!: stamp sendframe_touched)
  then show ?thesis
    using assms by (auto simp: aim_tx_enqueue_def split: bind_splits if_splits tx_mode.splits)
qed

interpretation received: session_stable "\<lambda>s. queue_incoming s = fs" for fs
proof unfold_locales
  fix s s' :: aim_session
  assume s: "queue_incoming s = fs"
  show "core_kept s s' \<Longrightarrow> queue_incoming s' = fs" using s by (simp add: core_kept_def)
  show "queue_incoming (put_conn a d s) = fs" for a d using s by simp
  show "queue_incoming s' = fs" if close: "aim_conn_close p s = Some s'" for p
  proof -
    obtain a where "p = Some a" using close by (auto simp: aim_conn_close_def split: bind_splits)
    with close obtain c where "data_only (put_conn a (closed c) s) s'" using conn_close_data by blast
    from data_only_fields(3) [OF this] s show ?thesis by simp
  qed
  show "queue_incoming s' = fs" if "aim_conn_addgroup p g s = Some s'" for p g
    using that s by (auto simp: aim_conn_addgroup_def malloc_eq Let_def split: bind_splits if_splits)
  show "queue_incoming s' = fs" if "aim_tx_enqueue cl s fr = Some (r, s')"
    "\<And>n f t q t'. queue_incoming t = fs \<Longrightarrow> cl_tx cl n f t = Some (q, t') \<Longrightarrow> queue_incoming t' = fs" for cl fr r
    by (rule enqueue_incoming [OF that s])
qed

text \<open>A client whose functions leave the receive queue alone.\<close>

definition leaves_incoming :: "client \<Rightarrow> bool" where
  "leaves_incoming cl \<longleftrightarrow>
     (\<forall>n fr args bs t r bs' t'. cl_callback cl n fr args bs t = Some (r, bs', t') \<longrightarrow>
        queue_incoming t' = queue_incoming t) \<and>
     (\<forall>n fr t r t'. cl_tx cl n fr t = Some (r, t') \<longrightarrow> queue_incoming t' = queue_incoming t)"

lemma dispatch_received:
  assumes "leaves_incoming cl" "dispatch_frame cl (module_handlers cl) f s = Some (h, bs, s')"
  shows "queue_incoming s' = queue_incoming s"
proof -
  have "received.polite (queue_incoming s) cl"
    using assms(1) unfolding leaves_incoming_def received.polite_def by metis
  from received.dispatching_okay [OF this refl, of f] assms(2) show ?thesis
    by (auto simp: okay_def)
qed

section \<open>The walk of the dispatcher\<close>

text \<open>
  Dispatching a list of frames one after the other: a frame that counts as handled is passed over,
  for any other one its mark and its stream become what dispatching it gives. \<open>ds\<close> are the frames
  before those, which are in the queue with the new marks while the next frame is dispatched.
\<close>

primrec dispatch_all ::
  "client \<Rightarrow> (modkind \<Rightarrow> snachandler) \<Rightarrow> aim_frame list \<Rightarrow> aim_frame list \<Rightarrow> aim_session
   \<Rightarrow> (aim_frame list \<times> aim_session) option" where
  "dispatch_all cl hs ds [] s = Some (ds, s)"
| "dispatch_all cl hs ds (fr # frs) s =
     (if fr_handled fr \<noteq> 0 then dispatch_all cl hs (ds @ [fr]) frs s
      else do {
        (h, bs, s) \<leftarrow> dispatch_frame cl hs fr s;
        let fr' = fr\<lparr>fr_handled := h, fr_data := bs\<rparr>;
        dispatch_all cl hs (ds @ [fr']) frs (s\<lparr>queue_incoming := ds @ fr' # frs\<rparr>)
      })"

lemma rxdispatch_loop_all:
  assumes "\<And>fr t h bs t'. dispatch_frame cl hs fr t = Some (h, bs, t') \<Longrightarrow> queue_incoming t' = queue_incoming t"
    and "queue_incoming s = ds @ rest" "distinct (map fr_id (ds @ rest))"
  shows "rxdispatch_loop cl hs (case rest of [] \<Rightarrow> None | fr # _ \<Rightarrow> Some fr) s =
      map_option (\<lambda>(frs, t). t) (dispatch_all cl hs ds rest s) \<and>
    (\<forall>frs t. dispatch_all cl hs ds rest s = Some (frs, t) \<longrightarrow> queue_incoming t = frs)"
  using assms(2,3)
proof (induction rest arbitrary: ds s)
  case Nil
  then show ?case by (simp add: rxdispatch_loop.simps)
next
  case (Cons fr rest)
  have nx: "next_frame (fr_id fr) t = Some (case rest of [] \<Rightarrow> None | nxt # _ \<Rightarrow> Some nxt)"
    if "queue_incoming t = ds @ fr' # rest" "fr_id fr' = fr_id fr" for t fr'
    using next_frame_at [of ds fr' rest t] that Cons.prems(2) by simp
  show ?case
  proof (cases "fr_handled fr = 0")
    case False
    have "rxdispatch_loop cl hs (Some fr) s = rxdispatch_loop cl hs (case rest of [] \<Rightarrow> None | nxt # _ \<Rightarrow> Some nxt) s"
      by (subst rxdispatch_loop.simps) (simp add: False nx [OF Cons.prems(1) refl])
    moreover have "queue_incoming s = (ds @ [fr]) @ rest" "distinct (map fr_id ((ds @ [fr]) @ rest))"
      using Cons.prems by simp_all
    note Cons.IH [OF this]
    ultimately show ?thesis using False by simp
  next
    case True
    show ?thesis
    proof (cases "dispatch_frame cl hs fr s")
      case None
      then have "rxdispatch_loop cl hs (Some fr) s = None"
        by (subst rxdispatch_loop.simps) (simp add: True)
      with None True show ?thesis by simp
    next
      case (Some x)
      obtain h bs t where x: "x = (h, bs, t)" by (cases x)
      let ?fr = "fr\<lparr>fr_handled := h, fr_data := bs\<rparr>"
      let ?t = "t\<lparr>queue_incoming := ds @ ?fr # rest\<rparr>"
      have q: "queue_incoming t = ds @ fr # rest" using assms(1) [OF Some [unfolded x]] Cons.prems(1) by simp
      have st: "store_frame (fr_id fr) h bs t = Some ?t"
        using store_frame_at [OF Cons.prems(2) q] .
      have nt: "next_frame (fr_id fr) ?t = Some (case rest of [] \<Rightarrow> None | nxt # _ \<Rightarrow> Some nxt)"
        by (rule nx [of _ ?fr]) simp_all
      have "rxdispatch_loop cl hs (Some fr) s = rxdispatch_loop cl hs (case rest of [] \<Rightarrow> None | nxt # _ \<Rightarrow> Some nxt) ?t"
        by (subst rxdispatch_loop.simps) (simp add: True Some x st nt)
      moreover have "queue_incoming ?t = (ds @ [?fr]) @ rest" "distinct (map fr_id ((ds @ [?fr]) @ rest))"
        using Cons.prems(2) by simp_all
      note Cons.IH [OF this]
      ultimately show ?thesis using True Some x by (simp add: Let_def)
    qed
  qed
qed

text \<open>Only a version frame and one of the negotiation channel can be left unhandled.\<close>

definition stays :: "aim_frame \<Rightarrow> aim_frame \<Rightarrow> bool" where
  "stays fr fr' \<longleftrightarrow>
     fr_id fr' = fr_id fr \<and> fr_hdr fr' = fr_hdr fr \<and> fr_conn fr' = fr_conn fr \<and>
     (fr_handled fr' = 0 \<longrightarrow> fr_handled fr = 0 \<and> (fr_channel fr = 1 \<or> fr_channel fr = 4))"

lemma dispatch_unhandled:
  "dispatch_frame cl hs fr s = Some (0, bs, s') \<Longrightarrow> fr_channel fr = 1 \<or> fr_channel fr = 4"
  by (auto simp: dispatch_frame_def last_chance_def split: bind_splits if_splits)

lemma dispatch_all_stays:
  "dispatch_all cl hs ds rest s = Some (frs, t) \<Longrightarrow> \<exists>rest'. frs = ds @ rest' \<and> list_all2 stays rest rest'"
proof (induction rest arbitrary: ds s)
  case (Cons fr rest)
  obtain fr' s' where s': "dispatch_all cl hs (ds @ [fr']) rest s' = Some (frs, t)" "stays fr fr'"
    using Cons.prems dispatch_unhandled [of cl hs fr s]
    by (auto simp: Let_def stays_def split: if_splits bind_splits)
  from Cons.IH [OF this(1)] s'(2) show ?case by auto
qed simp

text \<open>C26: with the library's modules and a client whose functions leave the receive queue alone, a
  run of the dispatcher is the walk over the frames that are in the queue at its start: each one
  that is not handled is dispatched once, in order, with the marks of those before it already
  stored; the run comes to an end whenever each of these steps does, and then the queue holds the
  frames whose own dispatch left them unhandled. Those can only be version frames, whose mark is
  the low byte of what the client's function for them returned, and frames of the negotiation
  channel.\<close>

theorem rxdispatch_walks:
  assumes "leaves_incoming cl" "distinct (map fr_id (queue_incoming s))"
  shows "aim_rxdispatch cl (module_handlers cl) s =
      do { (frs, t) \<leftarrow> dispatch_all cl (module_handlers cl) [] (queue_incoming s) s;
           Some (t\<lparr>queue_incoming := filter (\<lambda>fr. fr_handled fr = 0) frs\<rparr>) } \<and>
    (\<forall>frs t. dispatch_all cl (module_handlers cl) [] (queue_incoming s) s = Some (frs, t) \<longrightarrow>
       list_all2 stays (queue_incoming s) frs) \<and>
    (\<forall>fr sq a c t. fr_hdr fr = Flap 1 sq \<and> fr_conn fr = Some a \<and> conns t a = Some c \<and>
         conn_type c \<notin> {AIM_CONN_TYPE_RENDEZVOUS, AIM_CONN_TYPE_RENDEZVOUS_OUT} \<longrightarrow>
       dispatch_frame cl (module_handlers cl) fr t =
         do { (r, bs, t') \<leftarrow> call_user cl t (Some a) AIM_CB_FAM_SPECIAL AIM_CB_SPECIAL_FLAPVER 1 (Some fr) [] (fr_data fr);
              Some (word_of_int r, bs, t') })"
proof (intro conjI allI impI)
  let ?hs = "module_handlers cl"
  note walk = rxdispatch_loop_all [of cl ?hs s "[]" "queue_incoming s", OF dispatch_received, OF assms(1)]
  show "aim_rxdispatch cl ?hs s = do { (frs, t) \<leftarrow> dispatch_all cl ?hs [] (queue_incoming s) s;
      Some (t\<lparr>queue_incoming := filter (\<lambda>fr. fr_handled fr = 0) frs\<rparr>) }"
    using walk assms(2)
    by (cases "dispatch_all cl ?hs [] (queue_incoming s) s") (auto simp: aim_rxdispatch_def aim_purge_rxqueue_def)
  show "list_all2 stays (queue_incoming s) frs" if "dispatch_all cl ?hs [] (queue_incoming s) s = Some (frs, t)" for frs t
    using dispatch_all_stays [OF that] by auto
qed (auto simp: dispatch_frame_def aim_callhandler_noparam_def fr_hdrtype_def fr_channel_def
    AIM_FRAMETYPE_FLAP_def AIM_FRAMETYPE_OFT_def)

text \<open>A client that wants to see a version frame again, and a queue with one and an odd frame.\<close>

definition waiting_client :: client where
  "waiting_client = \<lparr>cl_callback = (\<lambda>n fr args bs s. Some (0, bs, s)), cl_tx = (\<lambda>n fr s. Some (0, s))\<rparr>"

theorem rxdispatch_walks_witness:
  "\<exists>s'. aim_rxdispatch waiting_client (module_handlers waiting_client) (demo_session\<lparr>modlist := default_modules,
      conns := [0 \<mapsto> (demo_conn 5)\<lparr>conn_handlerlist :=
        [\<lparr>cb_family = 0xffff, cb_type = 5, cb_handler = UserCb 3, cb_flags = 0\<rparr>]\<rparr>],
      queue_incoming := [demo_frame 5 [] (Some 0), demo_frame 1 [0, 0, 0, 1] (Some 0)\<lparr>fr_id := 2\<rparr>]\<rparr>) = Some s' \<and>
    map fr_id (queue_incoming s') = [2]"
proof -
  let ?s = "demo_session\<lparr>modlist := default_modules,
      conns := [0 \<mapsto> (demo_conn 5)\<lparr>conn_handlerlist :=
        [\<lparr>cb_family = 0xffff, cb_type = 5, cb_handler = UserCb 3, cb_flags = 0\<rparr>]\<rparr>],
      queue_incoming := [demo_frame 5 [] (Some 0), demo_frame 1 [0, 0, 0, 1] (Some 0)\<lparr>fr_id := 2\<rparr>]\<rparr>"
  have own: "own_module 0xffff = None" by (simp add: own_module_cases)
  have ms: "consume_loop hs default_modules f \<lparr>ms_family = 0xffff, ms_subtype = 0xffff, ms_flags = 0, ms_id = 0\<rparr> bs t =
      consume_loop hs [misc_module] f \<lparr>ms_family = 0xffff, ms_subtype = 0xffff, ms_flags = 0, ms_id = 0\<rparr> bs t" for hs f bs t
    by (subst consume_loop_filter) (simp add: takes_default own)
  have "leaves_incoming waiting_client" by (simp add: leaves_incoming_def waiting_client_def)
  note walk = rxdispatch_walks [OF this, of ?s, THEN conjunct1]
  show ?thesis
    by (subst walk) (simp_all add: demo_frame_def dispatch_frame_def fr_hdrtype_def fr_channel_def last_chance_def
        consumenonsnac_def ms module_handlers_def misc_snachandler_def AIM_FRAMETYPE_FLAP_def AIM_FRAMETYPE_OFT_def
        AIM_CONN_TYPE_BOS_def AIM_CONN_TYPE_RENDEZVOUS_def AIM_CONN_TYPE_RENDEZVOUS_OUT_def
        aim_callhandler_noparam_def call_user_def aim_callhandler_def call_cb_def waiting_client_def
        AIM_CB_FAM_SPECIAL_def AIM_CB_SPECIAL_FLAPVER_def Let_def)
qed

end
