(* ===== verification/Faimtest.thy ===== *)
theory Faimtest
  imports Delivery
begin

text \<open>
  The client that comes with the library, \<^verbatim>\<open>utils/faimtest\<close>: what it keeps in the session, and the
  functions it registers. What it prints is not modelled. Its own data is a structure that
  \<^verbatim>\<open>aux_data\<close> of the session points to; here it is an object at an address that the functions are
  given with the environment: the network, by the address the new connection will have, and the files.
  As built, the library has no file transfer; the functions \<^verbatim>\<open>faimtest\<close> has for it are never called.
\<close>

section \<open>Data\<close>

record faimtest_priv =
  fp_aimbinarypath :: "cstring option"
  fp_screenname :: "cstring option"
  fp_password :: "cstring option"
  fp_server :: "cstring option"
  fp_proxy :: "cstring option"
  fp_proxyusername :: "cstring option"
  fp_proxypass :: "cstring option"
  fp_ohcaptainmycaptain :: "cstring option"
  fp_connected :: int
  fp_listingpath :: "cstring option"
  fp_buddyicon :: "u8 list option"
  fp_buddyiconlen :: int
  fp_buddyiconstamp :: u32
  fp_buddyiconsum :: u16

text \<open>The structure as an object of the session, member by member.\<close>

definition priv_obj :: "faimtest_priv \<Rightarrow> obj" where
  "priv_obj p = ClientData [ArgStr (fp_aimbinarypath p), ArgStr (fp_screenname p), ArgStr (fp_password p),
     ArgStr (fp_server p), ArgStr (fp_proxy p), ArgStr (fp_proxyusername p), ArgStr (fp_proxypass p),
     ArgStr (fp_ohcaptainmycaptain p), ArgInt (fp_connected p), ArgStr (fp_listingpath p), ArgBytes (fp_buddyicon p),
     ArgInt (fp_buddyiconlen p), ArgInt (uint (fp_buddyiconstamp p)), ArgInt (uint (fp_buddyiconsum p))]"

fun arg_str :: "cb_arg \<Rightarrow> cstring option option" where
  "arg_str (ArgStr x) = Some x"
| "arg_str _ = None"

fun arg_int :: "cb_arg \<Rightarrow> int option" where
  "arg_int (ArgInt x) = Some x"
| "arg_int _ = None"

fun arg_bytes :: "cb_arg \<Rightarrow> u8 list option option" where
  "arg_bytes (ArgBytes x) = Some x"
| "arg_bytes _ = None"

definition members_priv :: "cb_arg list \<Rightarrow> faimtest_priv option" where
  "members_priv xs = (if length xs \<noteq> 14 then None else do {
     bin \<leftarrow> arg_str (xs ! 0); sn \<leftarrow> arg_str (xs ! 1); pw \<leftarrow> arg_str (xs ! 2); server \<leftarrow> arg_str (xs ! 3);
     proxy \<leftarrow> arg_str (xs ! 4); pname \<leftarrow> arg_str (xs ! 5); ppass \<leftarrow> arg_str (xs ! 6); captain \<leftarrow> arg_str (xs ! 7);
     connected \<leftarrow> arg_int (xs ! 8); listing \<leftarrow> arg_str (xs ! 9); icon \<leftarrow> arg_bytes (xs ! 10); len \<leftarrow> arg_int (xs ! 11);
     stamp \<leftarrow> arg_int (xs ! 12); csum \<leftarrow> arg_int (xs ! 13);
     Some \<lparr>fp_aimbinarypath = bin, fp_screenname = sn, fp_password = pw, fp_server = server, fp_proxy = proxy,
       fp_proxyusername = pname, fp_proxypass = ppass, fp_ohcaptainmycaptain = captain, fp_connected = connected,
       fp_listingpath = listing, fp_buddyicon = icon, fp_buddyiconlen = len, fp_buddyiconstamp = word_of_int stamp,
       fp_buddyiconsum = word_of_int csum\<rparr>
   })"

definition obj_priv :: "obj \<Rightarrow> faimtest_priv option" where
  "obj_priv x = (case x of ClientData xs \<Rightarrow> members_priv xs | _ \<Rightarrow> None)"

lemma obj_priv_obj [simp]: "obj_priv (priv_obj p) = Some p"
  by (cases p) (simp add: priv_obj_def obj_priv_def members_priv_def)

text \<open>
  The environment: where the data is, what the network does to a new connection, and the files:
  none, or whether it can be opened, and its bytes.
\<close>

record faimtest_env =
  fe_aux :: nat
  fe_net :: "nat \<Rightarrow> netenv"
  fe_file :: "cstring \<Rightarrow> (bool \<times> u8 list) option"

definition priv_of :: "faimtest_env \<Rightarrow> aim_session \<Rightarrow> faimtest_priv option" where
  "priv_of e s = do { x \<leftarrow> objs s (fe_aux e); obj_priv x }"

definition set_priv :: "faimtest_env \<Rightarrow> faimtest_priv \<Rightarrow> aim_session \<Rightarrow> aim_session" where
  "set_priv e p s = s\<lparr>objs := (objs s)(fe_aux e \<mapsto> priv_obj p)\<rparr>"

definition newconn_at :: "faimtest_env \<Rightarrow> aim_session \<Rightarrow> u16 \<Rightarrow> cstring option \<Rightarrow> (nat option \<times> aim_session) option" where
  "newconn_at e s type dest = aim_newconn (fe_net e (next_addr s)) s (uint type) dest"

text \<open>\<^verbatim>\<open>faimtest\<close> has no transmit function of its own.\<close>

definition no_client :: client where
  "no_client = \<lparr>cl_callback = (\<lambda>n fr args bs s. None), cl_tx = (\<lambda>n fr s. None)\<rparr>"

subsection \<open>Strings\<close>

text \<open>\<^verbatim>\<open>strstr\<close>: the string from the first place on where the other one begins.\<close>

fun c_strstr :: "cstring \<Rightarrow> cstring \<Rightarrow> cstring option" where
  "c_strstr [] p = (if p = [] then Some [] else None)"
| "c_strstr (b # bs) p = (if take (length p) (b # bs) = p then Some (b # bs) else c_strstr bs p)"

text \<open>\<^verbatim>\<open>strncmp(a, b, n) == 0\<close>.\<close>

definition strn_eq :: "cstring \<Rightarrow> cstring \<Rightarrow> nat \<Rightarrow> bool" where
  "strn_eq a b n \<longleftrightarrow> take n a = take n b"

text \<open>The digits that messages on demand are made of.\<close>

definition digits :: "nat \<Rightarrow> cstring" where
  "digits n = map (\<lambda>z. of_nat (z mod 10 + 0x30)) [0..<n]"

section \<open>The functions by name\<close>

datatype faimtest_fn =
    Flapversion | Conncomplete | Conninitdone_admin | Conninitdone_bos | Parse_connerr | Accountconfirm
  | Infochange | Handleredirect | Icbmparaminfo | Parse_buddyrights | Bosrights | Locrights | Reportinterval
  | Parse_motd | Memrequest | Handleselfinfo | Parse_userinfo | Parse_incoming_im | Parse_oncoming
  | Parse_offgoing | Parse_genericerr | Parse_msgerr | Parse_locerr | Parse_misses | Parse_msgack
  | Parse_ratechange | Parse_evilnotify | Parse_searchreply | Parse_searcherror | Handlepopup | Serverpause
  | Migrate | Ssirights | Ssidata | Ssidatanochange | Offlinemsg | Offlinemsgdone | Parse_login | Parse_authresp
  | Chat_join | Chat_leave | Chat_infoupdate | Chat_incomingmsg | Chatnav_info | Conninitdone_chat
  | Directim_incoming | Directim_typing | Directim_initiate | Getfile_filereq | Getfile_filesend
  | Getfile_complete | Getfile_disconnect | Getfile_listingreq | Getfile_initiate

definition faimtest_fns :: "faimtest_fn list" where
  "faimtest_fns = [
    Flapversion, Conncomplete, Conninitdone_admin, Conninitdone_bos, Parse_connerr, Accountconfirm,
    Infochange, Handleredirect, Icbmparaminfo, Parse_buddyrights, Bosrights, Locrights, Reportinterval,
    Parse_motd, Memrequest, Handleselfinfo, Parse_userinfo, Parse_incoming_im, Parse_oncoming,
    Parse_offgoing, Parse_genericerr, Parse_msgerr, Parse_locerr, Parse_misses, Parse_msgack,
    Parse_ratechange, Parse_evilnotify, Parse_searchreply, Parse_searcherror, Handlepopup, Serverpause,
    Migrate, Ssirights, Ssidata, Ssidatanochange, Offlinemsg, Offlinemsgdone, Parse_login, Parse_authresp,
    Chat_join, Chat_leave, Chat_infoupdate, Chat_incomingmsg, Chatnav_info, Conninitdone_chat,
    Directim_incoming, Directim_typing, Directim_initiate, Getfile_filereq, Getfile_filesend,
    Getfile_complete, Getfile_disconnect, Getfile_listingreq, Getfile_initiate]"

text \<open>A pointer to one of them, as the library keeps it.\<close>

definition fn_no :: "faimtest_fn \<Rightarrow> nat" where
  "fn_no f = length (takeWhile (\<lambda>g. g \<noteq> f) faimtest_fns)"

lemma fn_no_less: "fn_no f < length faimtest_fns"
  by (cases f) (simp_all add: fn_no_def faimtest_fns_def)

lemma fns_fn_no [simp]: "faimtest_fns ! fn_no f = f"
  by (cases f) (simp_all add: fn_no_def faimtest_fns_def)

text \<open>Registering functions of a list on a connection, whatever comes of it.\<close>

primrec addhandlers :: "(u16 \<times> u16 \<times> faimtest_fn) list \<Rightarrow> nat option \<Rightarrow> aim_session \<Rightarrow> aim_session option" where
  "addhandlers [] conn s = Some s"
| "addhandlers (x # xs) conn s = do {
     (_, s) \<leftarrow> aim_conn_addhandler s conn (fst x) (fst (snd x)) (Some (UserCb (fn_no (snd (snd x))))) 0;
     addhandlers xs conn s
   }"

end
