(* ===== verification/Faimcalls.thy ===== *)
theory Faimcalls
  imports Faimtest
begin

text \<open>
  The functions that \<^verbatim>\<open>faimtest\<close> registers, in \<^verbatim>\<open>login.c\<close>, \<^verbatim>\<open>chat.c\<close>,
  \<^verbatim>\<open>ft.c\<close> and \<^verbatim>\<open>faimtest.c\<close>. Each gets the frame, or a null pointer, and the arguments
  the library passes; what it only prints is taken from the arguments and dropped. Arguments of other
  kinds than it asks for are undefined.
\<close>

type_synonym callback = "aim_frame option \<Rightarrow> cb_arg list \<Rightarrow> aim_session \<Rightarrow> (int \<times> aim_session) option"

section \<open>Constants\<close>

definition AIM_CB_FAM_GEN :: u16 where "AIM_CB_FAM_GEN = 0x0001"
definition AIM_CB_FAM_LOC :: u16 where "AIM_CB_FAM_LOC = 0x0002"
definition AIM_CB_FAM_BUD :: u16 where "AIM_CB_FAM_BUD = 0x0003"
definition AIM_CB_FAM_MSG :: u16 where "AIM_CB_FAM_MSG = 0x0004"
definition AIM_CB_FAM_STS :: u16 where "AIM_CB_FAM_STS = 0x000b"
definition AIM_CB_FAM_CTN :: u16 where "AIM_CB_FAM_CTN = 0x000d"
definition AIM_CB_FAM_CHT :: u16 where "AIM_CB_FAM_CHT = 0x000e"
definition AIM_CB_LOC_ERROR :: u16 where "AIM_CB_LOC_ERROR = 0x0001"
definition AIM_CB_LOC_RIGHTSINFO :: u16 where "AIM_CB_LOC_RIGHTSINFO = 0x0003"
definition AIM_CB_LOC_USERINFO :: u16 where "AIM_CB_LOC_USERINFO = 0x0006"
definition AIM_CB_BUD_RIGHTSINFO :: u16 where "AIM_CB_BUD_RIGHTSINFO = 0x0003"
definition AIM_CB_BUD_ONCOMING :: u16 where "AIM_CB_BUD_ONCOMING = 0x000b"
definition AIM_CB_BUD_OFFGOING :: u16 where "AIM_CB_BUD_OFFGOING = 0x000c"
definition AIM_CB_MSG_ERROR :: u16 where "AIM_CB_MSG_ERROR = 0x0001"
definition AIM_CB_MSG_INCOMING :: u16 where "AIM_CB_MSG_INCOMING = 0x0007"
definition AIM_CB_MSG_MISSEDCALL :: u16 where "AIM_CB_MSG_MISSEDCALL = 0x000a"
definition AIM_CB_MSG_ACK :: u16 where "AIM_CB_MSG_ACK = 0x000c"
definition AIM_CB_GEN_REDIRECT :: u16 where "AIM_CB_GEN_REDIRECT = 0x0005"
definition AIM_CB_GEN_RATECHANGE :: u16 where "AIM_CB_GEN_RATECHANGE = 0x000a"
definition AIM_CB_GEN_SELFINFO :: u16 where "AIM_CB_GEN_SELFINFO = 0x000f"
definition AIM_CB_GEN_EVIL :: u16 where "AIM_CB_GEN_EVIL = 0x0010"
definition AIM_CB_GEN_MOTD :: u16 where "AIM_CB_GEN_MOTD = 0x0013"
definition AIM_CB_STS_SETREPORTINTERVAL :: u16 where "AIM_CB_STS_SETREPORTINTERVAL = 0x0002"
definition AIM_CB_CTN_INFO :: u16 where "AIM_CB_CTN_INFO = 0x0009"
definition AIM_CB_CHT_ROOMINFOUPDATE :: u16 where "AIM_CB_CHT_ROOMINFOUPDATE = 0x0002"
definition AIM_CB_CHT_USERJOIN :: u16 where "AIM_CB_CHT_USERJOIN = 0x0003"
definition AIM_CB_CHT_USERLEAVE :: u16 where "AIM_CB_CHT_USERLEAVE = 0x0004"
definition AIM_CB_CHT_INCOMINGMSG :: u16 where "AIM_CB_CHT_INCOMINGMSG = 0x0006"
definition AIM_CB_OFT_GETFILELISTINGREQ :: u16 where "AIM_CB_OFT_GETFILELISTINGREQ = 0x0007"
definition AIM_CB_OFT_GETFILEFILEREQ :: u16 where "AIM_CB_OFT_GETFILEFILEREQ = 0x0008"
definition AIM_CB_OFT_GETFILEFILESEND :: u16 where "AIM_CB_OFT_GETFILEFILESEND = 0x0009"
definition AIM_CB_OFT_GETFILECOMPLETE :: u16 where "AIM_CB_OFT_GETFILECOMPLETE = 0x000a"
definition AIM_CB_OFT_GETFILEINITIATE :: u16 where "AIM_CB_OFT_GETFILEINITIATE = 0x000b"
definition AIM_CB_OFT_GETFILEDISCONNECT :: u16 where "AIM_CB_OFT_GETFILEDISCONNECT = 0x000c"
definition AIM_FLAG_ALLUSERS :: u32 where "AIM_FLAG_ALLUSERS = 0x001f"
definition AIM_PRIVFLAGS_ALLOWIDLE :: u32 where "AIM_PRIVFLAGS_ALLOWIDLE = 0x01"
definition AIM_SENDMEMBLOCK_FLAG_ISREQUEST :: u8 where "AIM_SENDMEMBLOCK_FLAG_ISREQUEST = 0"
definition AIM_ICQ_STATE_DND :: u32 where "AIM_ICQ_STATE_DND = 0x00000002"
definition FAIM_LOGIN_SERVER :: cstring where "FAIM_LOGIN_SERVER = cstr ''login.oscar.aol.com''"

definition AIM_CLIENTINFO_KNOWNGOOD :: client_info where
  "AIM_CLIENTINFO_KNOWNGOOD =
     \<lparr>ci_clientstring = Some (cstr ''AOL Instant Messenger (SM), version 3.5.1670/WIN32''), ci_clientid = 0x0004,
      ci_major = 0x0003, ci_minor = 0x0005, ci_point = 0x0000, ci_build = 0x0686, ci_country = cstr ''us'',
      ci_lang = cstr ''en''\<rparr>"

section \<open>Messages and errors that are only shown\<close>

definition faimtest_flapversion :: callback where
  "faimtest_flapversion fr args s = Some (1, s)"

definition faimtest_conncomplete :: callback where
  "faimtest_conncomplete fr args s =
     (case args of
        ArgConn None # _ \<Rightarrow> Some (1, s)
      | ArgConn (Some a) # _ \<Rightarrow> do { _ \<leftarrow> conns s a; Some (1, s) }
      | _ \<Rightarrow> None)"

definition faimtest_accountconfirm :: callback where
  "faimtest_accountconfirm fr args s = (case args of ArgInt status # _ \<Rightarrow> Some (1, s) | _ \<Rightarrow> None)"

definition faimtest_infochange :: callback where
  "faimtest_infochange fr args s =
     (case args of
        [ArgInt change, ArgInt perms, ArgInt type, ArgInt len, ArgBytes val, ArgInt str] \<Rightarrow> Some (1, s)
      | _ \<Rightarrow> None)"

definition faimtest_locrights :: callback where
  "faimtest_locrights fr args s = (case args of ArgInt maxsiglen # _ \<Rightarrow> Some (1, s) | _ \<Rightarrow> None)"

definition faimtest_parse_motd :: callback where
  "faimtest_parse_motd fr args s = (case args of ArgInt msgid # ArgStr msg # _ \<Rightarrow> Some (1, s) | _ \<Rightarrow> None)"

definition faimtest_handleselfinfo :: callback where
  "faimtest_handleselfinfo fr args s = (case args of ArgUserinfo userinfo # _ \<Rightarrow> Some (1, s) | _ \<Rightarrow> None)"

definition faimtest_parse_userinfo :: callback where
  "faimtest_parse_userinfo fr args s =
     (case args of
        ArgUserinfo userinfo # ArgInt inforeq # ArgStr prof_encoding # ArgStr prof # _ \<Rightarrow> Some (1, s)
      | _ \<Rightarrow> None)"

definition faimtest_parse_oncoming :: callback where
  "faimtest_parse_oncoming fr args s = (case args of ArgUserinfo userinfo # _ \<Rightarrow> Some (1, s) | _ \<Rightarrow> None)"

definition faimtest_parse_offgoing :: callback where
  "faimtest_parse_offgoing fr args s = (case args of ArgUserinfo userinfo # _ \<Rightarrow> Some (1, s) | _ \<Rightarrow> None)"

definition faimtest_parse_genericerr :: callback where
  "faimtest_parse_genericerr fr args s = (case args of ArgInt reason # _ \<Rightarrow> Some (1, s) | _ \<Rightarrow> None)"

definition faimtest_parse_msgerr :: callback where
  "faimtest_parse_msgerr fr args s = (case args of ArgInt reason # destsn # _ \<Rightarrow> Some (1, s) | _ \<Rightarrow> None)"

definition faimtest_parse_locerr :: callback where
  "faimtest_parse_locerr fr args s = (case args of ArgInt reason # destsn # _ \<Rightarrow> Some (1, s) | _ \<Rightarrow> None)"

definition faimtest_parse_misses :: callback where
  "faimtest_parse_misses fr args s =
     (case args of
        ArgInt chan # ArgUserinfo userinfo # ArgInt nummissed # ArgInt reason # _ \<Rightarrow> Some (1, s)
      | _ \<Rightarrow> None)"

definition faimtest_parse_msgack :: callback where
  "faimtest_parse_msgack fr args s = (case args of ArgInt type # ArgStr sn # _ \<Rightarrow> Some (1, s) | _ \<Rightarrow> None)"

definition faimtest_parse_ratechange :: callback where
  "faimtest_parse_ratechange fr args s =
     (case args of
        [ArgInt code, ArgInt rateclass, ArgInt windowsize, ArgInt clear, ArgInt alert, ArgInt lim,
         ArgInt disconnect, ArgInt currentavg, ArgInt maxavg] \<Rightarrow> Some (1, s)
      | _ \<Rightarrow> None)"

definition faimtest_parse_evilnotify :: callback where
  "faimtest_parse_evilnotify fr args s =
     (case args of ArgInt newevil # ArgUserinfo userinfo # _ \<Rightarrow> Some (1, s) | _ \<Rightarrow> None)"

text \<open>The names found are read one slot of 33 bytes after the other.\<close>

definition faimtest_parse_searchreply :: callback where
  "faimtest_parse_searchreply fr args s =
     (case args of
        address # ArgInt num # ArgBytes SNs # _ \<Rightarrow>
          (if num \<le> 0 then Some (1, s)
           else do { sns \<leftarrow> SNs; if num * 33 \<le> int (length sns) then Some (1, s) else None })
      | _ \<Rightarrow> None)"

definition faimtest_parse_searcherror :: callback where
  "faimtest_parse_searcherror fr args s = (case args of address # _ \<Rightarrow> Some (1, s) | _ \<Rightarrow> None)"

definition handlepopup :: callback where
  "handlepopup fr args s =
     (case args of ArgStr msg # ArgStr url # ArgInt width # ArgInt height # ArgInt delay # _ \<Rightarrow> Some (1, s)
      | _ \<Rightarrow> None)"

definition faimtest_offlinemsg :: callback where
  "faimtest_offlinemsg fr args s =
     (case args of
        [ArgInt sender, ArgInt year, ArgInt month, ArgInt day, ArgInt hour, ArgInt minute, ArgInt type, ArgStr msg] \<Rightarrow>
          Some (1, s)
      | _ \<Rightarrow> None)"

section \<open>What the server wants answered\<close>

definition serverpause_cb :: callback where
  "serverpause_cb fr args s = do { f \<leftarrow> fr; (_, s) \<leftarrow> aim_sendpauseack no_client s (fr_conn f); Some (1, s) }"

definition ssirights :: callback where
  "ssirights fr args s = do { f \<leftarrow> fr; (_, s) \<leftarrow> aim_ssi_reqdata no_client s (fr_conn f) 0 0x0000; Some (1, s) }"

definition ssidata :: callback where
  "ssidata fr args s =
     (case args of
        [ArgInt fmtver, ArgInt itemcount, ArgInt stamp, ArgList items] \<Rightarrow> do {
          f \<leftarrow> fr;
          (_, s) \<leftarrow> aim_ssi_enable no_client s (fr_conn f);
          Some (1, s)
        }
      | _ \<Rightarrow> None)"

definition ssidatanochange :: callback where
  "ssidatanochange fr args s = do { f \<leftarrow> fr; (_, s) \<leftarrow> aim_ssi_enable no_client s (fr_conn f); Some (1, s) }"

definition offlinemsgdone :: callback where
  "offlinemsgdone fr args s = do { (_, s) \<leftarrow> aim_icq_ackofflinemsgs no_client s; Some (1, s) }"

definition faimtest_parse_buddyrights :: callback where
  "faimtest_parse_buddyrights fr args s =
     (case args of
        ArgInt maxbuddies # ArgInt maxwatchers # _ \<Rightarrow> do {
          f \<leftarrow> fr;
          (_, s) \<leftarrow> aim_ssi_reqrights no_client s (fr_conn f);
          Some (1, s)
        }
      | _ \<Rightarrow> None)"

definition faimtest_bosrights :: callback where
  "faimtest_bosrights fr args s =
     (case args of
        ArgInt maxpermits # ArgInt maxdenies # _ \<Rightarrow> do {
          f \<leftarrow> fr;
          (_, s) \<leftarrow> aim_clientready no_client s (fr_conn f);
          (_, s) \<leftarrow> aim_icq_reqofflinemsgs no_client s;
          Some (1, s)
        }
      | _ \<Rightarrow> None)"

definition faimtest_icbmparaminfo :: callback where
  "faimtest_icbmparaminfo fr args s =
     (case args of
        ArgList [ArgInt maxchan, ArgInt flags, ArgInt maxmsglen, ArgInt maxsenderwarn, ArgInt maxrecverwarn,
                 ArgInt minmsginterval] # _ \<Rightarrow> do {
          (_, s) \<leftarrow> aim_seticbmparam no_client s (Some
            \<lparr>ip_maxchan = word_of_int maxchan, ip_flags = word_of_int flags, ip_maxmsglen = 8000,
             ip_maxsenderwarn = word_of_int maxsenderwarn, ip_maxrecverwarn = word_of_int maxrecverwarn,
             ip_minmsginterval = 0\<rparr>);
          Some (1, s)
        }
      | _ \<Rightarrow> None)"

definition faimtest_reportinterval :: "faimtest_env \<Rightarrow> callback" where
  "faimtest_reportinterval e fr args s =
     (case args of
        ArgInt interval # _ \<Rightarrow> do {
          priv \<leftarrow> priv_of e s;
          let s = (if fp_connected priv = 0 then set_priv e (priv\<lparr>fp_connected := 1\<rparr>) s else s);
          (_, s) \<leftarrow> aim_reqicbmparams no_client s;
          Some (1, s)
        }
      | _ \<Rightarrow> None)"

definition faimtest_parse_connerr :: "faimtest_env \<Rightarrow> callback" where
  "faimtest_parse_connerr e fr args s =
     (case args of
        ArgInt code # ArgStr msg # _ \<Rightarrow> do {
          f \<leftarrow> fr;
          s \<leftarrow> aim_conn_kill s (fr_conn f);
          priv \<leftarrow> priv_of e s;
          Some (1, set_priv e (priv\<lparr>fp_connected := 0\<rparr>) s)
        }
      | _ \<Rightarrow> None)"

definition conninitdone_admin :: callback where
  "conninitdone_admin fr args s = do { f \<leftarrow> fr; (_, s) \<leftarrow> aim_clientready no_client s (fr_conn f); Some (1, s) }"

text \<open>
  The buddy list and the profile go through buffers of 128 and 256 bytes. Where there is no owner,
  \<^verbatim>\<open>snprintf\<close> writes what the GNU library writes for a null pointer.
\<close>

definition faimtest_caps :: u32 where
  "faimtest_caps = AIM_CAPS_BUDDYICON OR AIM_CAPS_CHAT OR AIM_CAPS_GETFILE OR AIM_CAPS_SENDFILE OR AIM_CAPS_IMIMAGE OR
     AIM_CAPS_GAMES OR AIM_CAPS_SAVESTOCKS OR AIM_CAPS_SENDBUDDYLIST OR AIM_CAPS_ICQ OR AIM_CAPS_ICQUNKNOWN OR
     AIM_CAPS_ICQRTF OR AIM_CAPS_ICQSERVERRELAY OR AIM_CAPS_TRILLIANCRYPT"

definition shown :: "cstring option \<Rightarrow> cstring" where
  "shown p = (case p of None \<Rightarrow> cstr ''(null)'' | Some x \<Rightarrow> x)"

definition conninitdone_bos :: "faimtest_env \<Rightarrow> callback" where
  "conninitdone_bos e fr args s = do {
     priv \<leftarrow> priv_of e s;
     f \<leftarrow> fr;
     let conn = fr_conn f;
     let buddies = take 127 (cstr ''Buddy1&Buddy2&'' @
       (case fp_ohcaptainmycaptain priv of Some n \<Rightarrow> n | None \<Rightarrow> cstr ''blah'') @ cstr ''&'');
     let profile = take 255 (cstr ''Hello.<br>My captain is '' @ shown (fp_ohcaptainmycaptain priv) @
       cstr ''.  They were dumb enough to leave this message in their client, or they are using faimtest.  Shame on them.'');
     (_, s) \<leftarrow> aim_reqpersonalinfo no_client s conn;
     (_, s) \<leftarrow> aim_bos_reqlocaterights no_client s conn;
     (_, s) \<leftarrow> aim_bos_setprofile no_client s conn (Some profile) (Some (cstr ''blah blah blah Ole! blah blah blah'')) faimtest_caps;
     (_, s) \<leftarrow> aim_bos_reqbuddyrights no_client s conn;
     (_, s) \<leftarrow> aim_bos_setbuddylist no_client s conn (Some buddies);
     (_, s) \<leftarrow> aim_reqicbmparams no_client s;
     (_, s) \<leftarrow> aim_bos_reqrights no_client s conn;
     (_, s) \<leftarrow> aim_bos_setgroupperm no_client s conn AIM_FLAG_ALLUSERS;
     (_, s) \<leftarrow> aim_bos_setprivacyflags no_client s conn AIM_PRIVFLAGS_ALLOWIDLE;
     Some (1, s)
   }"

section \<open>Pieces of the client program for the server\<close>

text \<open>
  \<^verbatim>\<open>getaimdata\<close>: the bytes asked for of a file of the AIM client. Sizes and offsets are at most 32 bits
  in a type of 64, so no sum or difference wraps.
\<close>

definition le32 :: "int \<Rightarrow> u8 list" where
  "le32 n = aimutil_putle32 (word_of_int n)"

definition clamp_len :: "int \<Rightarrow> int \<Rightarrow> int \<Rightarrow> int" where
  "clamp_len fsize offset len =
     (let len = (if fsize - offset < len then fsize - offset else if fsize - len < len then fsize - len else len)
      in if len \<noteq> 0 then len mod 4096 else len)"

definition getaimdata ::
  "faimtest_env \<Rightarrow> aim_session \<Rightarrow> int \<Rightarrow> int \<Rightarrow> cstring option \<Rightarrow> (u8 list option \<times> aim_session) option" where
  "getaimdata e s offset len modname = do {
     priv \<leftarrow> priv_of e s;
     path \<leftarrow> fp_aimbinarypath priv;
     let (ok, s) = malloc s;
     if \<not> ok then Some (None, s)
     else do {
       let filename = path @ cstr ''/'' @ (case modname of Some m \<Rightarrow> m @ cstr ''.ocm'' | None \<Rightarrow> cstr ''aim.exe'');
       case fe_file e filename of
         None \<Rightarrow>
           (case modname of
              None \<Rightarrow> Some (None, s)
            | Some m \<Rightarrow> let (ok, s) = malloc s in Some (if ok then Some (m @ le32 offset @ le32 len) else None, s))
       | Some (readable, content) \<Rightarrow>
           (let fsize = int (length content)
            in if offset > fsize \<or> len > fsize
               then let (ok, s) = malloc s
                    in Some (if ok then Some ((case modname of Some m \<Rightarrow> m | None \<Rightarrow> []) @ le32 offset @ le32 len) else None, s)
               else let len = clamp_len fsize offset len; (ok, s) = malloc s
                    in Some (if ok \<and> readable \<and> len \<noteq> 0 \<and> offset + len \<le> fsize
                             then Some (take (nat len) (drop (nat offset) content)) else None, s))
     }
   }"

definition faimtest_memrequest :: "faimtest_env \<Rightarrow> callback" where
  "faimtest_memrequest e fr args s =
     (case args of
        ArgInt offset # ArgInt len # ArgStr modname # _ \<Rightarrow> do {
          priv \<leftarrow> priv_of e s;
          f \<leftarrow> fr;
          (data, s) \<leftarrow> (if fp_aimbinarypath priv \<noteq> None then getaimdata e s offset len modname else Some (None, s));
          (_, s) \<leftarrow> (case data of
             Some buf \<Rightarrow> aim_sendmemblock no_client s (fr_conn f) (word_of_int offset) (of_nat (length buf)) (Some buf)
                          AIM_SENDMEMBLOCK_FLAG_ISREQUEST
           | None \<Rightarrow> aim_sendmemblock no_client s (fr_conn f) (word_of_int offset) (word_of_int len) None
                       AIM_SENDMEMBLOCK_FLAG_ISREQUEST);
          Some (1, s)
        }
      | _ \<Rightarrow> None)"

section \<open>Logging in and out\<close>

definition bos_handlers :: "(u16 \<times> u16 \<times> faimtest_fn) list" where
  "bos_handlers = [
     (AIM_CB_FAM_SPECIAL, AIM_CB_SPECIAL_CONNCOMPLETE, Conncomplete),
     (AIM_CB_FAM_SPECIAL, AIM_CB_SPECIAL_CONNINITDONE, Conninitdone_bos),
     (AIM_CB_FAM_GEN, AIM_CB_GEN_SELFINFO, Handleselfinfo),
     (0x0013, 0x0003, Ssirights),
     (0x0013, 0x0006, Ssidata),
     (0x0013, 0x000f, Ssidatanochange),
     (0x0008, 0x0002, Handlepopup),
     (0x0009, 0x0003, Bosrights),
     (AIM_CB_FAM_GEN, AIM_CB_GEN_REDIRECT, Handleredirect),
     (AIM_CB_FAM_STS, AIM_CB_STS_SETREPORTINTERVAL, Reportinterval),
     (AIM_CB_FAM_BUD, AIM_CB_BUD_RIGHTSINFO, Parse_buddyrights),
     (AIM_CB_FAM_GEN, AIM_CB_GEN_MOTD, Parse_motd),
     (0x0004, 0x0005, Icbmparaminfo),
     (AIM_CB_FAM_SPECIAL, AIM_CB_SPECIAL_CONNERR, Parse_connerr),
     (AIM_CB_FAM_LOC, AIM_CB_LOC_RIGHTSINFO, Locrights),
     (0x0001, 0x001f, Memrequest),
     (AIM_CB_FAM_BUD, AIM_CB_BUD_ONCOMING, Parse_oncoming),
     (AIM_CB_FAM_BUD, AIM_CB_BUD_OFFGOING, Parse_offgoing),
     (AIM_CB_FAM_MSG, AIM_CB_MSG_INCOMING, Parse_incoming_im),
     (AIM_CB_FAM_LOC, AIM_CB_LOC_ERROR, Parse_locerr),
     (AIM_CB_FAM_MSG, AIM_CB_MSG_MISSEDCALL, Parse_misses),
     (AIM_CB_FAM_GEN, AIM_CB_GEN_RATECHANGE, Parse_ratechange),
     (AIM_CB_FAM_GEN, AIM_CB_GEN_EVIL, Parse_evilnotify),
     (0x000a, 0x0001, Parse_searcherror),
     (0x000a, 0x0003, Parse_searchreply),
     (AIM_CB_FAM_MSG, AIM_CB_MSG_ERROR, Parse_msgerr),
     (AIM_CB_FAM_LOC, AIM_CB_LOC_USERINFO, Parse_userinfo),
     (AIM_CB_FAM_MSG, AIM_CB_MSG_ACK, Parse_msgack),
     (0x0001, 0x0001, Parse_genericerr),
     (0x0003, 0x0001, Parse_genericerr),
     (0x0009, 0x0001, Parse_genericerr),
     (0x0001, 0x000b, Serverpause),
     (0x0001, 0x0012, Migrate),
     (AIM_CB_FAM_ICQ, AIM_CB_ICQ_OFFLINEMSG, Offlinemsg),
     (AIM_CB_FAM_ICQ, AIM_CB_ICQ_OFFLINEMSGCOMPLETE, Offlinemsgdone)]"

definition addcb_bos :: "aim_session \<Rightarrow> nat option \<Rightarrow> aim_session option" where
  "addcb_bos s bosconn = addhandlers bos_handlers bosconn s"

text \<open>The connection of standard input.\<close>

definition faimtest_init :: "faimtest_env \<Rightarrow> aim_session \<Rightarrow> (int \<times> aim_session) option" where
  "faimtest_init e s = do {
     (stdinconn, s) \<leftarrow> newconn_at e s 0 None;
     case stdinconn of
       None \<Rightarrow> Some (-1, s)
     | Some a \<Rightarrow> do { c \<leftarrow> conns s a; Some (0, put_conn a (c\<lparr>conn_fd := 0\<rparr>) s) }
   }"

definition faimtest_logout :: "faimtest_env \<Rightarrow> aim_session \<Rightarrow> (int \<times> aim_session) option" where
  "faimtest_logout e s = do {
     priv \<leftarrow> priv_of e s;
     (_, s) \<leftarrow> (case fp_ohcaptainmycaptain priv of
        None \<Rightarrow> Some (0, s)
      | Some n \<Rightarrow> aim_send_im no_client s n 0 (cstr ''ta ta...''));
     s \<leftarrow> aim_session_kill s;
     (_, s) \<leftarrow> faimtest_init e s;
     Some (0, s)
   }"

definition faimtest_parse_login :: "faimtest_env \<Rightarrow> callback" where
  "faimtest_parse_login e fr args s =
     (case args of
        ArgStr key # _ \<Rightarrow> do {
          priv \<leftarrow> priv_of e s;
          f \<leftarrow> fr;
          key \<leftarrow> key;
          (_, s) \<leftarrow> aim_send_login no_client s (fr_conn f) (fp_screenname priv) (fp_password priv)
                     (Some AIM_CLIENTINFO_KNOWNGOOD) key;
          Some (1, s)
        }
      | _ \<Rightarrow> None)"

text \<open>The new connection to a BOS server: its functions and the cookie, unless it failed.\<close>

definition open_bos :: "faimtest_env \<Rightarrow> aim_session \<Rightarrow> cstring option \<Rightarrow> u8 list option \<Rightarrow> (int \<times> aim_session) option" where
  "open_bos e s ip cookie = do {
     (bosconn, s) \<leftarrow> newconn_at e s AIM_CONN_TYPE_BOS ip;
     case bosconn of
       None \<Rightarrow> Some (1, s)
     | Some a \<Rightarrow> do {
         c \<leftarrow> conns s a;
         if conn_status c AND AIM_CONN_STATUS_CONNERR \<noteq> 0
         then do { s \<leftarrow> aim_conn_kill s bosconn; Some (1, s) }
         else do {
           s \<leftarrow> addcb_bos s bosconn;
           ck \<leftarrow> cookie;
           (_, s) \<leftarrow> aim_sendcookie no_client s bosconn ck;
           Some (1, s)
         }
       }
   }"

definition faimtest_parse_authresp :: "faimtest_env \<Rightarrow> callback" where
  "faimtest_parse_authresp e fr args s =
     (case args of
        ArgStr sn # ArgInt errorcode # ArgStr errorurl # ArgInt regstatus # ArgStr email # ArgStr bosip #
        ArgBytes cookie # _ \<Rightarrow> do {
          f \<leftarrow> fr;
          if errorcode \<noteq> 0 \<or> bosip = None \<or> cookie = None
          then do { s \<leftarrow> aim_conn_kill s (fr_conn f); Some (1, s) }
          else do { s \<leftarrow> aim_conn_kill s (fr_conn f); open_bos e s bosip cookie }
        }
      | _ \<Rightarrow> None)"

definition migrate_cb :: "faimtest_env \<Rightarrow> callback" where
  "migrate_cb e fr args s =
     (case args of
        ArgStr bosip # ArgBytes cookie # _ \<Rightarrow> do {
          f \<leftarrow> fr;
          s \<leftarrow> aim_conn_kill s (fr_conn f);
          open_bos e s bosip cookie
        }
      | _ \<Rightarrow> None)"

definition faimtest_login :: "faimtest_env \<Rightarrow> aim_session \<Rightarrow> cstring option \<Rightarrow> cstring option \<Rightarrow> (int \<times> aim_session) option" where
  "faimtest_login e s sn passwd = do {
     priv \<leftarrow> priv_of e s;
     let (priv, s) = (if sn = None then (priv, s)
                      else let (ok, s) = malloc s in (priv\<lparr>fp_screenname := if ok then sn else None\<rparr>, s));
     let (priv, s) = (if passwd = None then (priv, s)
                      else let (ok, s) = malloc s in (priv\<lparr>fp_password := if ok then passwd else None\<rparr>, s));
     let s = set_priv e priv s;
     let s = (if fp_proxy priv = None then s
              else aim_setupproxy s (fp_proxy priv) (fp_proxyusername priv) (fp_proxypass priv));
     if fp_screenname priv = None \<or> fp_password priv = None then Some (-1, s)
     else do {
       (authconn, s) \<leftarrow> newconn_at e s AIM_CONN_TYPE_AUTH
          (Some (case fp_server priv of Some x \<Rightarrow> x | None \<Rightarrow> FAIM_LOGIN_SERVER));
       case authconn of
         None \<Rightarrow> Some (-1, s)
       | Some a \<Rightarrow> do {
           c \<leftarrow> conns s a;
           if conn_fd c = -1 then do { s \<leftarrow> aim_conn_kill s authconn; Some (-1, s) }
           else do {
             s \<leftarrow> addhandlers [
                 (AIM_CB_FAM_SPECIAL, AIM_CB_SPECIAL_FLAPVER, Flapversion),
                 (AIM_CB_FAM_SPECIAL, AIM_CB_SPECIAL_CONNCOMPLETE, Conncomplete),
                 (0x0017, 0x0007, Parse_login),
                 (0x0017, 0x0003, Parse_authresp)] authconn s;
             (_, t) \<leftarrow> aim_request_login no_client (Some s) authconn (fp_screenname priv);
             s \<leftarrow> t;
             Some (0, s)
           }
         }
     }
   }"

section \<open>Chat rooms and other services\<close>

definition faimtest_chat_join :: callback where
  "faimtest_chat_join fr args s =
     (case args of
        ArgInt count # users # _ \<Rightarrow> do { f \<leftarrow> fr; _ \<leftarrow> aim_chat_getname (fr_conn f) s; Some (1, s) }
      | _ \<Rightarrow> None)"

definition faimtest_chat_leave :: callback where
  "faimtest_chat_leave fr args s =
     (case args of
        ArgInt count # users # _ \<Rightarrow> do { f \<leftarrow> fr; _ \<leftarrow> aim_chat_getname (fr_conn f) s; Some (1, s) }
      | _ \<Rightarrow> None)"

definition faimtest_chat_infoupdate :: callback where
  "faimtest_chat_infoupdate fr args s =
     (case args of
        ArgList [ArgInt exchange, ArgStr name, ArgInt inst] # ArgStr roomname # ArgInt usercount # users #
        ArgStr roomdesc # ArgInt flags # ArgInt creationtime # ArgInt maxmsglen # ArgInt unknown_d2 #
        ArgInt unknown_d5 # ArgInt maxvisiblemsglen # _ \<Rightarrow> do {
          f \<leftarrow> fr;
          _ \<leftarrow> aim_chat_getname (fr_conn f) s;
          Some (1, s)
        }
      | _ \<Rightarrow> None)"

text \<open>The echo is put together in a buffer of 1152 bytes, without a check.\<close>

definition faimtest_chat_incomingmsg :: callback where
  "faimtest_chat_incomingmsg fr args s =
     (case args of
        ArgUserinfo userinfo # ArgStr msg # _ \<Rightarrow> do {
          f \<leftarrow> fr;
          _ \<leftarrow> aim_chat_getname (fr_conn f) s;
          let sn = c_string_of (ui_sn userinfo);
          if sn \<noteq> sess_sn s then do {
            let tmpbuf = cstr ''('' @ sn @ cstr '' said '' @ [34] @ shown msg @ [34] @ cstr '')'';
            if length tmpbuf \<ge> 1152 then None
            else do {
              (_, s) \<leftarrow> aim_chat_send_im no_client s (fr_conn f) 0 (Some tmpbuf) (int (length tmpbuf));
              Some (1, s)
            }
          }
          else Some (1, s)
        }
      | _ \<Rightarrow> None)"

definition faimtest_chatnav_info :: callback where
  "faimtest_chatnav_info fr args s =
     (case args of
        ArgInt type # rest \<Rightarrow>
          (if type = 0x0002 then
             (case rest of ArgInt maxrooms # ArgInt exchangecount # ArgList exchanges # _ \<Rightarrow> Some (1, s) | _ \<Rightarrow> None)
           else if type = 0x0008 then
             (case rest of
                [ArgStr fqcn, ArgInt inst, ArgInt exchange, ArgInt flags, ArgInt createtime, ArgInt maxmsglen,
                 ArgInt maxoccupancy, ArgInt createperms, ArgInt unknown, ArgStr name, ArgStr ck] \<Rightarrow> Some (1, s)
              | _ \<Rightarrow> None)
           else Some (1, s))
      | _ \<Rightarrow> None)"

definition conninitdone_chat :: callback where
  "conninitdone_chat fr args s = do {
     f \<leftarrow> fr;
     (_, s) \<leftarrow> aim_clientready no_client s (fr_conn f);
     c \<leftarrow> conn_at s (fr_conn f);
     if conn_type c = AIM_CONN_TYPE_CHATNAV then do {
       s \<leftarrow> addhandlers [(0x000d, 0x0001, Parse_genericerr), (AIM_CB_FAM_CTN, AIM_CB_CTN_INFO, Chatnav_info)] (fr_conn f) s;
       (_, s) \<leftarrow> aim_chatnav_reqrights no_client s (fr_conn f);
       Some (1, s)
     }
     else if conn_type c = AIM_CONN_TYPE_CHAT then do {
       s \<leftarrow> addhandlers [
           (0x000e, 0x0001, Parse_genericerr),
           (AIM_CB_FAM_CHT, AIM_CB_CHT_USERJOIN, Chat_join),
           (AIM_CB_FAM_CHT, AIM_CB_CHT_USERLEAVE, Chat_leave),
           (AIM_CB_FAM_CHT, AIM_CB_CHT_ROOMINFOUPDATE, Chat_infoupdate),
           (AIM_CB_FAM_CHT, AIM_CB_CHT_INCOMINGMSG, Chat_incomingmsg)] (fr_conn f) s;
       Some (1, s)
     }
     else Some (1, s)
   }"

definition chatnav_redirect :: "faimtest_env \<Rightarrow> aim_session \<Rightarrow> cstring option \<Rightarrow> u8 list option \<Rightarrow> aim_session option" where
  "chatnav_redirect e s ip cookie = do {
     (tstconn, s) \<leftarrow> newconn_at e s AIM_CONN_TYPE_CHATNAV ip;
     case tstconn of
       None \<Rightarrow> Some s
     | Some a \<Rightarrow> do {
         c \<leftarrow> conns s a;
         if conn_status c AND AIM_CONN_STATUS_RESOLVERR \<noteq> 0 then aim_conn_kill s tstconn
         else do {
           s \<leftarrow> addhandlers [(AIM_CB_FAM_SPECIAL, AIM_CB_SPECIAL_CONNCOMPLETE, Conncomplete),
                            (AIM_CB_FAM_SPECIAL, AIM_CB_SPECIAL_CONNINITDONE, Conninitdone_chat)] tstconn s;
           ck \<leftarrow> cookie;
           (_, s) \<leftarrow> aim_sendcookie no_client s tstconn ck;
           Some s
         }
       }
   }"

definition chat_redirect ::
  "faimtest_env \<Rightarrow> aim_session \<Rightarrow> cstring option \<Rightarrow> u8 list option \<Rightarrow> u16 \<Rightarrow> cstring option \<Rightarrow> u16 \<Rightarrow> aim_session option" where
  "chat_redirect e s ip cookie exchange rname inst = do {
     (tstconn, s) \<leftarrow> newconn_at e s AIM_CONN_TYPE_CHAT ip;
     case tstconn of
       None \<Rightarrow> Some s
     | Some a \<Rightarrow> do {
         c \<leftarrow> conns s a;
         if conn_status c AND AIM_CONN_STATUS_RESOLVERR \<noteq> 0 then aim_conn_kill s tstconn
         else do {
           (_, s) \<leftarrow> aim_chat_attachname tstconn exchange rname inst s;
           s \<leftarrow> addhandlers [(AIM_CB_FAM_SPECIAL, AIM_CB_SPECIAL_CONNCOMPLETE, Conncomplete),
                            (AIM_CB_FAM_SPECIAL, AIM_CB_SPECIAL_CONNINITDONE, Conninitdone_chat)] tstconn s;
           ck \<leftarrow> cookie;
           (_, s) \<leftarrow> aim_sendcookie no_client s tstconn ck;
           Some s
         }
       }
   }"

definition faimtest_handleredirect :: "faimtest_env \<Rightarrow> callback" where
  "faimtest_handleredirect e fr args s =
     (case args of
        [ArgInt grp, ArgStr ip, ArgBytes cookie, ArgInt exchange, ArgStr rname, ArgInt inst] \<Rightarrow>
          (if grp = 0x0005 then Some (1, s)
           else if grp = 0x0007 then do {
             (tstconn, s) \<leftarrow> newconn_at e s AIM_CONN_TYPE_AUTH ip;
             case tstconn of
               None \<Rightarrow> Some (1, s)
             | Some a \<Rightarrow> do {
                 c \<leftarrow> conns s a;
                 if conn_status c AND AIM_CONN_STATUS_RESOLVERR \<noteq> 0 then Some (1, s)
                 else do {
                   s \<leftarrow> addhandlers [
                       (AIM_CB_FAM_SPECIAL, AIM_CB_SPECIAL_FLAPVER, Flapversion),
                       (AIM_CB_FAM_SPECIAL, AIM_CB_SPECIAL_CONNCOMPLETE, Conncomplete),
                       (AIM_CB_FAM_SPECIAL, AIM_CB_SPECIAL_CONNINITDONE, Conninitdone_admin),
                       (0x0007, 0x0007, Accountconfirm),
                       (0x0007, 0x0003, Infochange),
                       (0x0007, 0x0005, Infochange)] tstconn s;
                   ck \<leftarrow> cookie;
                   (_, s) \<leftarrow> aim_sendcookie no_client s tstconn ck;
                   Some (1, s)
                 }
               }
           }
           else if grp = 0x000d then do { s \<leftarrow> chatnav_redirect e s ip cookie; Some (1, s) }
           else if grp = 0x000e then do {
             s \<leftarrow> chat_redirect e s ip cookie (word_of_int exchange) rname (word_of_int inst);
             Some (1, s)
           }
           else Some (1, s))
      | _ \<Rightarrow> None)"

end
