(* ===== verification/Faimtalk.thy ===== *)
theory Faimtalk
  imports Faimcalls
begin

text \<open>
  Messages in \<^verbatim>\<open>faimtest\<close>: connections for direct messages (\<^verbatim>\<open>ft.c\<close>), the commands that other
  users can give it in a message, and both kinds of incoming messages (\<^verbatim>\<open>faimtest.c\<close>); and with that
  the client as the library sees it.
\<close>

section \<open>Direct messages\<close>

text \<open>
  A message of \<open>n\<close> digits; a negative length, or no memory, is not checked for. Where the text ends with
  \<^verbatim>\<open>sendmsg\<close>, the number is looked for behind its terminator.
\<close>

definition demanded :: "int \<Rightarrow> aim_session \<Rightarrow> (cstring \<times> aim_session) option" where
  "demanded n s = (let (ok, s) = malloc s in if n < 0 \<or> \<not> ok then None else Some (digits (nat n), s))"

definition directim_incoming :: callback where
  "directim_incoming fr args s =
     (case args of
        ArgBytes sn # ArgStr (Some msg) # _ \<Rightarrow> do {
          f \<leftarrow> fr;
          case c_strstr msg (cstr ''sendmsg'') of
            Some rest \<Rightarrow>
              (let i = c_atoi (drop 8 rest)
               in if length rest < 8 then None
                  else if i < 10000 then do {
                    (newbuf, s) \<leftarrow> demanded i s;
                    (_, s) \<leftarrow> aim_send_im_direct no_client s (fr_conn f) (Some newbuf);
                    Some (1, s)
                  }
                  else Some (1, s))
          | None \<Rightarrow> do {
              (_, s) \<leftarrow> aim_send_im_direct no_client s (fr_conn f)
                (Some (if c_strstr msg (cstr ''goodday'') \<noteq> None then cstr ''Good day to you, too''
                       else take 1023 (cstr ''unknown ('' @ msg @ cstr '')'' @ [10])));
              Some (1, s)
            }
        }
      | _ \<Rightarrow> None)"

definition directim_typing :: callback where
  "directim_typing fr args s = (case args of ArgBytes sn # _ \<Rightarrow> Some (1, s) | _ \<Rightarrow> None)"

definition direct_handlers :: "(u16 \<times> u16 \<times> faimtest_fn) list" where
  "direct_handlers = [(AIM_CB_FAM_OFT, AIM_CB_OFT_DIRECTIMINCOMING, Directim_incoming),
                      (AIM_CB_FAM_OFT, AIM_CB_OFT_DIRECTIMTYPING, Directim_typing)]"

definition faimtest_directim_initiate :: callback where
  "faimtest_directim_initiate fr args s =
     (case args of
        ArgConn newconn # ArgConn listenerconn # _ \<Rightarrow> do {
          s \<leftarrow> aim_conn_close listenerconn s;
          s \<leftarrow> aim_conn_kill s listenerconn;
          s \<leftarrow> addhandlers direct_handlers newconn s;
          (_, s) \<leftarrow> aim_send_im_direct no_client s newconn (Some (cstr ''goodday''));
          _ \<leftarrow> aim_directim_getsn newconn s;
          Some (1, s)
        }
      | _ \<Rightarrow> None)"

definition directim_start :: "faimtest_env \<Rightarrow> aim_session \<Rightarrow> cstring \<Rightarrow> aim_session option" where
  "directim_start e s sn = do {
     (newconn, s) \<leftarrow> aim_directim_initiate no_client (fe_net e (next_addr s)) s sn;
     case newconn of
       None \<Rightarrow> Some s
     | Some a \<Rightarrow> do {
         c \<leftarrow> conns s a;
         if conn_fd c = -1 then aim_conn_kill s newconn
         else addhandlers [(AIM_CB_FAM_OFT, AIM_CB_OFT_DIRECTIMINITIATE, Directim_initiate)] newconn s
       }
   }"

definition directim_requested ::
  "faimtest_env \<Rightarrow> aim_session \<Rightarrow> aim_userinfo \<Rightarrow> cstring option \<Rightarrow> u8 list \<Rightarrow> aim_session option" where
  "directim_requested e s userinfo clientip cookie = do {
     (newconn, s) \<leftarrow> aim_directim_connect (fe_net e (next_addr s)) s (Some (c_string_of (ui_sn userinfo))) clientip cookie;
     case newconn of
       None \<Rightarrow> Some s
     | Some a \<Rightarrow> do {
         c \<leftarrow> conns s a;
         if conn_fd c = -1 then aim_conn_kill s newconn
         else do {
           s \<leftarrow> addhandlers direct_handlers newconn s;
           (_, s) \<leftarrow> aim_send_im_direct no_client s newconn (Some (cstr ''goodday''));
           Some s
         }
       }
   }"

subsection \<open>File transfer, which the library does not do\<close>

text \<open>The listing is used without a check, and the library as built never has one.\<close>

definition getfile_start :: "aim_session \<Rightarrow> nat option \<Rightarrow> cstring \<Rightarrow> aim_session option" where
  "getfile_start s conn sn = do {
     let (newconn, s) = aim_getfile_initiate s conn sn;
     addhandlers [(AIM_CB_FAM_OFT, AIM_CB_OFT_GETFILEINITIATE, Getfile_initiate)] newconn s
   }"

definition getfile_requested :: "aim_session \<Rightarrow> aim_session option" where
  "getfile_requested s = do {
     let (fh, s) = aim_getlisting s;
     a \<leftarrow> fh;
     _ \<leftarrow> objs s a;
     let (newconn, s) = aim_accepttransfer s;
     case newconn of
       None \<Rightarrow> Some s
     | Some a \<Rightarrow> do {
         c \<leftarrow> conns s a;
         if conn_fd c = -1 then aim_conn_kill s newconn
         else addhandlers [
           (AIM_CB_FAM_OFT, AIM_CB_OFT_GETFILELISTINGREQ, Getfile_listingreq),
           (AIM_CB_FAM_OFT, AIM_CB_OFT_GETFILEFILEREQ, Getfile_filereq),
           (AIM_CB_FAM_OFT, AIM_CB_OFT_GETFILEFILESEND, Getfile_filesend),
           (AIM_CB_FAM_OFT, AIM_CB_OFT_GETFILECOMPLETE, Getfile_complete),
           (AIM_CB_FAM_OFT, AIM_CB_OFT_GETFILEDISCONNECT, Getfile_disconnect)] newconn s
       }
   }"

section \<open>Commands in messages\<close>

definition says :: "cstring \<Rightarrow> string \<Rightarrow> bool" where
  "says str w \<longleftrightarrow> c_strstr str (cstr w) \<noteq> None"

definition begins :: "cstring \<Rightarrow> string \<Rightarrow> nat \<Rightarrow> bool" where
  "begins str w n \<longleftrightarrow> strn_eq str (cstr w) n"

text \<open>The arguments of a message; members that are not set are not looked at either.\<close>

definition ext_args :: "cstring \<Rightarrow> u32 \<Rightarrow> sendimext_args" where
  "ext_args sn flags = \<lparr>sx_destsn = sn, sx_flags = flags, sx_msg = None, sx_msglen = 0, sx_mpmsg = None, sx_iconlen = 0,
     sx_iconstamp = 0, sx_iconsum = 0, sx_features = [], sx_featureslen = 0, sx_charset = 0, sx_charsubset = 0\<rparr>"

definition bindata :: "u8 list" where
  "bindata = map of_nat [0..<48]"

definition unidata :: "u16 list" where
  "unidata = [0x0055, 0x004e, 0x0049, 0x0043, 0x004f, 0x0044, 0x0045, 0x002e]"

definition send_multi :: "aim_session \<Rightarrow> cstring \<Rightarrow> (int \<times> aim_session) option" where
  "send_multi s sn = do {
     let (_, mpm, s) = aim_mpmsg_addascii aim_mpmsg_init (cstr ''Part 1, ASCII.  '') s;
     (_, mpm, s) \<leftarrow> aim_mpmsg_addunicode mpm unidata 8 s;
     let (_, mpm, s) = aim_mpmsg_addascii mpm (cstr ''Part 3, ASCII.  '') s;
     aim_send_im_ext no_client s (Some ((ext_args sn AIM_IMFLAGS_MULTIPART)\<lparr>sx_mpmsg := Some mpm\<rparr>))
   }"

definition send_prebin :: "aim_session \<Rightarrow> cstring \<Rightarrow> (int \<times> aim_session) option" where
  "send_prebin s sn = do {
     let (_, mpm, s) = aim_mpmsg_addascii aim_mpmsg_init (cstr ''This message has binary data.'') s;
     (_, mpm, s) \<leftarrow> aim_mpmsg_addraw mpm 0x4242 0x4242 bindata 48 s;
     aim_send_im_ext no_client s (Some ((ext_args sn AIM_IMFLAGS_MULTIPART)\<lparr>sx_mpmsg := Some mpm\<rparr>))
   }"

text \<open>The text has backslashes where there are bars here, and a form feed in one place.\<close>

definition rtf_text :: cstring where
  "rtf_text = map (\<lambda>b. if b = 124 then 92 else b)
     (cstr ''{|rtf1|ansi|ansicpg1252|deff0|deflang1033{|fonttbl{|f0|fswiss|fcharset0 Arial;}{|f1|froman|fprq2|fcharset0 Georgia;}'' @
      cstr ''{|f2|fmodern|fprq1|fcharset0 MS Mincho;}{|f3|froman|fprq2|fcharset2 Symbol;}}|viewkind4|uc1|pard|f0|fs20 Test|f1 test|f2'' @
      [12] @ cstr ''s44 test|f3|fs20 test|f0|par}'')"

text \<open>The commands after \<^verbatim>\<open>reqsendmsg\<close>, the last ones in the chain of comparisons.\<close>

definition handlecmd_admin :: "aim_session \<Rightarrow> nat option \<Rightarrow> cstring \<Rightarrow> cstring \<Rightarrow> (int \<times> aim_session) option" where
  "handlecmd_admin s conn sn str =
     (if begins str ''reqadmin'' 8 then aim_reqservice no_client s conn AIM_CONN_TYPE_AUTH
      else if begins str ''changenick'' 10 then do {
        auth \<leftarrow> aim_getconn_type s (uint AIM_CONN_TYPE_AUTH);
        aim_admin_setnick no_client s auth (cstr ''diputs8  1'')
      }
      else if begins str ''reqconfirm'' 10 then do {
        auth \<leftarrow> aim_getconn_type s (uint AIM_CONN_TYPE_AUTH);
        aim_admin_reqconfirm no_client s auth
      }
      else if begins str ''reqemail'' 8 then do {
        auth \<leftarrow> aim_getconn_type s (uint AIM_CONN_TYPE_AUTH);
        aim_admin_getinfo no_client s auth 0x0011
      }
      else if begins str ''changepass'' 8 then do {
        auth \<leftarrow> aim_getconn_type s (uint AIM_CONN_TYPE_AUTH);
        aim_admin_changepasswd no_client s auth (cstr ''NEWPASSWORD'') (cstr ''OLDPASSWORD'')
      }
      else if begins str ''setemail'' 8 then do {
        auth \<leftarrow> aim_getconn_type s (uint AIM_CONN_TYPE_AUTH);
        aim_admin_setemail no_client s auth (cstr ''NEWEMAILADDRESS'')
      }
      else if begins str ''sendmsg'' 7 then
        (let i = c_atoi (drop 8 str)
         in if i < 10000 then do {
              (newbuf, s) \<leftarrow> demanded i s;
              aim_send_im no_client s sn 0 newbuf
            }
            else Some (0, s))
      else if says str ''seticqstatus'' then aim_setextstatus no_client s conn AIM_ICQ_STATE_DND
      else if says str ''rtfmsg'' then
        aim_send_rtfmsg no_client s (Some \<lparr>rt_destsn = Some sn, rt_fgcolor = 0xffffffff, rt_bgcolor = 0x00000000,
          rt_rtfmsg = Some rtf_text\<rparr>)
      else aim_add_buddy no_client s conn (Some sn))"

text \<open>The commands on rooms, users and peers, from \<^verbatim>\<open>getfile\<close> on.\<close>

definition handlecmd_services ::
  "faimtest_env \<Rightarrow> faimtest_priv \<Rightarrow> aim_session \<Rightarrow> nat option \<Rightarrow> cstring \<Rightarrow> cstring \<Rightarrow> (int \<times> aim_session) option" where
  "handlecmd_services e priv s conn sn str =
     (if begins str ''getfile'' 7 then
        (case fp_ohcaptainmycaptain priv of
           None \<Rightarrow> aim_send_im no_client s sn (ucast AIM_IMFLAGS_ACK) (cstr ''I have no owner!'')
         | Some captain \<Rightarrow> do { s \<leftarrow> getfile_start s conn (if length str < 8 then captain else drop 8 str); Some (0, s) })
      else if begins str ''open chatnav'' 12 then aim_reqservice no_client s conn AIM_CONN_TYPE_CHATNAV
      else if begins str ''create'' 6 then do {
        nav \<leftarrow> aim_getconn_type s (uint AIM_CONN_TYPE_CHATNAV);
        aim_chatnav_createroom no_client s nav (if length str < 7 then cstr ''WorldDomination'' else drop 7 str) 0x0004
      }
      else if begins str ''close chatnav'' 13 then do {
        nav \<leftarrow> aim_getconn_type s (uint AIM_CONN_TYPE_CHATNAV);
        s \<leftarrow> aim_conn_kill s nav;
        Some (0, s)
      }
      else if begins str ''join'' 4 then aim_chat_join no_client s conn 0x0004 (Some (cstr ''worlddomination'')) 0x0000
      else if begins str ''leave'' 5 then aim_chat_leaveroom s (cstr ''worlddomination'')
      else if begins str ''getinfo'' 7 then do {
        (_, s) \<leftarrow> aim_getinfo no_client s conn (Some (cstr ''midendian'')) AIM_GETINFO_GENERALINFO;
        (_, s) \<leftarrow> aim_getinfo no_client s conn (Some (cstr ''midendian'')) AIM_GETINFO_AWAYMESSAGE;
        aim_getinfo no_client s conn (Some (cstr ''midendian'')) AIM_GETINFO_CAPABILITIES
      }
      else if says str ''open directim'' then do { s \<leftarrow> directim_start e s sn; Some (0, s) }
      else if says str ''lookup'' then aim_usersearch_address no_client s conn (Some (cstr ''mid@auk.cx''))
      else if begins str ''reqsendmsg'' 10 then do {
        captain \<leftarrow> fp_ohcaptainmycaptain priv;
        aim_send_im no_client s captain 0 (cstr ''sendmsg 7900'')
      }
      else handlecmd_admin s conn sn str)"

text \<open>The whole chain. A null owner is passed on to a function that takes its length.\<close>

definition faimtest_handlecmd ::
  "faimtest_env \<Rightarrow> aim_session \<Rightarrow> nat option \<Rightarrow> aim_userinfo \<Rightarrow> cstring \<Rightarrow> (int \<times> aim_session) option" where
  "faimtest_handlecmd e s conn userinfo str = do {
     priv \<leftarrow> priv_of e s;
     let sn = c_string_of (ui_sn userinfo);
     (_, s) \<leftarrow>
       (if begins str ''disconnect'' 10 then faimtest_logout e s
        else if says str ''goodday'' then aim_send_im no_client s sn (ucast AIM_IMFLAGS_ACK) (cstr ''Good day to you too.'')
        else if says str ''haveicon'' \<and> fp_buddyicon priv \<noteq> None then
          aim_send_im_ext no_client s (Some ((ext_args sn AIM_IMFLAGS_HASICON)
            \<lparr>sx_msg := Some (cstr ''I have an icon'' @ [0]), sx_msglen := 14, sx_iconlen := word_of_int (fp_buddyiconlen priv),
             sx_iconstamp := fp_buddyiconstamp priv, sx_iconsum := ucast (fp_buddyiconsum priv)\<rparr>))
        else if says str ''sendbin'' then
          aim_send_im_ext no_client s (Some ((ext_args sn AIM_IMFLAGS_CUSTOMCHARSET)
            \<lparr>sx_charset := 0x4242, sx_charsubset := 0x4242, sx_msg := Some bindata, sx_msglen := 48\<rparr>))
        else if says str ''sendmulti'' then send_multi s sn
        else if says str ''sendprebin'' then send_prebin s sn
        else if says str ''havefeat'' then
          aim_send_im_ext no_client s (Some ((ext_args sn AIM_IMFLAGS_CUSTOMFEATURES)
            \<lparr>sx_msg := Some (cstr ''I have nifty features.'' @ [0]), sx_msglen := 22,
             sx_features := [0x01, 0x01, 0x01, 0x02, 0x42, 0x43, 0x44, 0x45], sx_featureslen := 8\<rparr>))
        else if says str ''sendicon'' \<and> fp_buddyicon priv \<noteq> None then
          aim_send_icon no_client s (Some sn) (fp_buddyicon priv) (fp_buddyiconlen priv) (fp_buddyiconstamp priv)
            (fp_buddyiconsum priv)
        else if says str ''warnme'' then aim_send_warning no_client s conn sn 0
        else if says str ''anonwarn'' then aim_send_warning no_client s conn sn AIM_WARN_ANON
        else if says str ''setdirectoryinfo'' then
          aim_setdirectoryinfo no_client s conn (Some (cstr ''tsrif'')) (Some (cstr ''elddim'')) (Some (cstr ''tsal''))
            (Some (cstr ''nediam'')) (Some (cstr ''emankcin'')) (Some (cstr ''teerts'')) (Some (cstr ''ytic''))
            (Some (cstr ''etats'')) (Some (cstr ''piz'')) 0 1
        else if says str ''setinterests'' then
          aim_setuserinterests no_client s conn (Some (cstr ''interest1'')) (Some (cstr ''interest2''))
            (Some (cstr ''interest3'')) (Some (cstr ''interest4'')) (Some (cstr ''interest5'')) 1
        else handlecmd_services e priv s conn sn str);
     Some (0, s)
   }"

section \<open>Incoming messages\<close>

text \<open>A buffer of 8193 bytes, from which what is shown and what is obeyed is taken.\<close>

definition hex_digit :: "u16 \<Rightarrow> u8" where
  "hex_digit d = (if d < 10 then 48 + ucast d else 87 + ucast d)"

definition hex4 :: "u16 \<Rightarrow> cstring" where
  "hex4 n = map (\<lambda>k. hex_digit (drop_bit k n AND 0xf)) [12, 8, 4, 0]"

definition uni_chars :: "u16 \<Rightarrow> cstring" where
  "uni_chars uni =
     (if uni < 128 \<or> 160 \<le> uni \<and> uni \<le> 255 then c_string_of [ucast uni]
      else cstr ''&#'' @ hex4 uni @ cstr '';'')"

fun uni_loop :: "nat \<Rightarrow> u8 list \<Rightarrow> cstring \<Rightarrow> cstring option" where
  "uni_loop 0 msg buf = Some buf"
| "uni_loop (Suc n) (a # b # msg) buf =
     uni_loop n msg (take 8192 (buf @ uni_chars (push_bit 8 (ucast a) OR ucast b)))"
| "uni_loop (Suc n) _ buf = None"

text \<open>\<^verbatim>\<open>strncpy\<close> of a text that has no terminator, or has it too late to fit.\<close>

definition copied :: "u8 list \<Rightarrow> cstring option" where
  "copied msg = (if 0 \<in> set msg \<and> length (c_string_of msg) < 8193 then Some (c_string_of msg) else None)"

definition real_msg :: "bool \<Rightarrow> u8 list option \<Rightarrow> int \<Rightarrow> cstring option" where
  "real_msg unicode msg msglen =
     (if unicode then if msglen \<le> 0 then Some [] else do { m \<leftarrow> msg; uni_loop (nat ((msglen + 1) div 2)) m [] }
      else do { m \<leftarrow> msg; copied m })"

text \<open>The text after the tags it begins with; a tag that does not end is followed out of the buffer.\<close>

function skip_tags :: "cstring \<Rightarrow> cstring option" where
  "skip_tags [] = Some []"
| "skip_tags (b # bs) =
     (if b \<noteq> 60 then Some (b # bs)
      else case dropWhile (\<lambda>b. b \<noteq> 62) bs of [] \<Rightarrow> None | _ # rest \<Rightarrow> skip_tags rest)"
  by pat_completeness auto

termination skip_tags
proof (relation "measure length")
  fix b x :: u8 and bs rest :: cstring
  assume "dropWhile (\<lambda>b. b \<noteq> 62) bs = x # rest"
  then have "length (x # rest) \<le> length bs" by (metis length_dropWhile_le)
  then show "(rest, b # bs) \<in> measure length" by simp
qed simp

definition faimtest_parse_incoming_im_chan1 ::
  "faimtest_env \<Rightarrow> aim_session \<Rightarrow> nat option \<Rightarrow> aim_userinfo \<Rightarrow> cb_arg list \<Rightarrow> (int \<times> aim_session) option" where
  "faimtest_parse_incoming_im_chan1 e s conn userinfo args =
     (case args of
        ArgList parts # ArgInt icbmflags # ArgBytes msg # ArgInt msglen # ArgInt iconstamp # ArgInt iconlen #
        ArgInt iconsum # ArgBytes features # ArgInt featureslen # _ \<Rightarrow> do {
          priv \<leftarrow> priv_of e s;
          _ \<leftarrow> aim_fingerprintclient features featureslen;
          let flags = (word_of_int icbmflags :: u32);
          let sn = c_string_of (ui_sn userinfo);
          realmsg \<leftarrow> real_msg (has_flag flags AIM_IMFLAGS_UNICODE) msg msglen;
          (_, s) \<leftarrow> (if has_flag flags AIM_IMFLAGS_HASICON
             then aim_send_im no_client s sn (ucast AIM_IMFLAGS_BUDDYREQ) (cstr ''You have an icon'')
             else Some (0, s));
          tmpstr \<leftarrow> skip_tags realmsg;
          (_, s) \<leftarrow> faimtest_handlecmd e s conn userinfo tmpstr;
          (_, s) \<leftarrow> (if fp_buddyicon priv \<noteq> None \<and> has_flag flags AIM_IMFLAGS_BUDDYREQ
             then aim_send_icon no_client s (Some sn) (fp_buddyicon priv) (fp_buddyiconlen priv) (fp_buddyiconstamp priv)
                    (fp_buddyiconsum priv)
             else Some (0, s));
          Some (1, s)
        }
      | _ \<Rightarrow> None)"

definition faimtest_parse_incoming_im_chan2 ::
  "faimtest_env \<Rightarrow> aim_session \<Rightarrow> nat option \<Rightarrow> aim_userinfo \<Rightarrow> cb_arg list \<Rightarrow> (int \<times> aim_session) option" where
  "faimtest_parse_incoming_im_chan2 e s conn userinfo args =
     (case args of
        [ArgBytes cookie, ArgInt reqclass, ArgInt status, ArgInt errorcode, ArgStr clientip, ArgStr clientip2,
         ArgStr verifiedip, ArgInt port, ArgStr msg, ArgStr encoding, ArgStr language, ArgList info] \<Rightarrow>
          (let reqclass = (word_of_int reqclass :: u32)
           in if reqclass = AIM_CAPS_GETFILE then do { s \<leftarrow> getfile_requested s; Some (1, s) }
              else if reqclass = AIM_CAPS_CHAT then
                (case info of
                   [] \<Rightarrow> do { (_, s) \<leftarrow> aim_chat_join no_client s conn 0 None 0; Some (1, s) }
                 | ArgInt exchange # ArgStr name # ArgInt inst # _ \<Rightarrow> do {
                     (_, s) \<leftarrow> aim_chat_join no_client s conn (word_of_int exchange) name (word_of_int inst);
                     Some (1, s)
                   }
                 | _ \<Rightarrow> None)
              else if reqclass = AIM_CAPS_IMIMAGE then do {
                ck \<leftarrow> cookie;
                s \<leftarrow> directim_requested e s userinfo clientip ck;
                Some (1, s)
              }
              else Some (1, s))
      | _ \<Rightarrow> None)"

definition faimtest_parse_incoming_im :: "faimtest_env \<Rightarrow> callback" where
  "faimtest_parse_incoming_im e fr args s =
     (case args of
        ArgInt channel # ArgUserinfo userinfo # rest \<Rightarrow> do {
          f \<leftarrow> fr;
          (_, s) \<leftarrow>
            (if channel = 1 then (case rest of ArgList xs # _ \<Rightarrow>
                faimtest_parse_incoming_im_chan1 e s (fr_conn f) userinfo xs | _ \<Rightarrow> None)
             else if channel = 2 then (case rest of ArgList xs # _ \<Rightarrow>
                faimtest_parse_incoming_im_chan2 e s (fr_conn f) userinfo xs | _ \<Rightarrow> None)
             else Some (0, s));
          Some (1, s)
        }
      | _ \<Rightarrow> None)"

section \<open>The client\<close>

primrec faimtest_run :: "faimtest_env \<Rightarrow> faimtest_fn \<Rightarrow> callback" where
  "faimtest_run e Flapversion = faimtest_flapversion"
| "faimtest_run e Conncomplete = faimtest_conncomplete"
| "faimtest_run e Conninitdone_admin = conninitdone_admin"
| "faimtest_run e Conninitdone_bos = conninitdone_bos e"
| "faimtest_run e Parse_connerr = faimtest_parse_connerr e"
| "faimtest_run e Accountconfirm = faimtest_accountconfirm"
| "faimtest_run e Infochange = faimtest_infochange"
| "faimtest_run e Handleredirect = faimtest_handleredirect e"
| "faimtest_run e Icbmparaminfo = faimtest_icbmparaminfo"
| "faimtest_run e Parse_buddyrights = faimtest_parse_buddyrights"
| "faimtest_run e Bosrights = faimtest_bosrights"
| "faimtest_run e Locrights = faimtest_locrights"
| "faimtest_run e Reportinterval = faimtest_reportinterval e"
| "faimtest_run e Parse_motd = faimtest_parse_motd"
| "faimtest_run e Memrequest = faimtest_memrequest e"
| "faimtest_run e Handleselfinfo = faimtest_handleselfinfo"
| "faimtest_run e Parse_userinfo = faimtest_parse_userinfo"
| "faimtest_run e Parse_incoming_im = faimtest_parse_incoming_im e"
| "faimtest_run e Parse_oncoming = faimtest_parse_oncoming"
| "faimtest_run e Parse_offgoing = faimtest_parse_offgoing"
| "faimtest_run e Parse_genericerr = faimtest_parse_genericerr"
| "faimtest_run e Parse_msgerr = faimtest_parse_msgerr"
| "faimtest_run e Parse_locerr = faimtest_parse_locerr"
| "faimtest_run e Parse_misses = faimtest_parse_misses"
| "faimtest_run e Parse_msgack = faimtest_parse_msgack"
| "faimtest_run e Parse_ratechange = faimtest_parse_ratechange"
| "faimtest_run e Parse_evilnotify = faimtest_parse_evilnotify"
| "faimtest_run e Parse_searchreply = faimtest_parse_searchreply"
| "faimtest_run e Parse_searcherror = faimtest_parse_searcherror"
| "faimtest_run e Handlepopup = handlepopup"
| "faimtest_run e Serverpause = serverpause_cb"
| "faimtest_run e Migrate = migrate_cb e"
| "faimtest_run e Ssirights = ssirights"
| "faimtest_run e Ssidata = ssidata"
| "faimtest_run e Ssidatanochange = ssidatanochange"
| "faimtest_run e Offlinemsg = faimtest_offlinemsg"
| "faimtest_run e Offlinemsgdone = offlinemsgdone"
| "faimtest_run e Parse_login = faimtest_parse_login e"
| "faimtest_run e Parse_authresp = faimtest_parse_authresp e"
| "faimtest_run e Chat_join = faimtest_chat_join"
| "faimtest_run e Chat_leave = faimtest_chat_leave"
| "faimtest_run e Chat_infoupdate = faimtest_chat_infoupdate"
| "faimtest_run e Chat_incomingmsg = faimtest_chat_incomingmsg"
| "faimtest_run e Chatnav_info = faimtest_chatnav_info"
| "faimtest_run e Conninitdone_chat = conninitdone_chat"
| "faimtest_run e Directim_incoming = directim_incoming"
| "faimtest_run e Directim_typing = directim_typing"
| "faimtest_run e Directim_initiate = faimtest_directim_initiate"
| "faimtest_run e Getfile_filereq = (\<lambda>fr args s. None)"
| "faimtest_run e Getfile_filesend = (\<lambda>fr args s. None)"
| "faimtest_run e Getfile_complete = (\<lambda>fr args s. None)"
| "faimtest_run e Getfile_disconnect = (\<lambda>fr args s. None)"
| "faimtest_run e Getfile_listingreq = (\<lambda>fr args s. None)"
| "faimtest_run e Getfile_initiate = (\<lambda>fr args s. None)"

text \<open>None of them reads on in the stream of the frame.\<close>

definition faimtest_client :: "faimtest_env \<Rightarrow> client" where
  "faimtest_client e =
     \<lparr>cl_callback = (\<lambda>n fr args bs s.
        if n < length faimtest_fns
        then do { (r, s) \<leftarrow> faimtest_run e (faimtest_fns ! n) fr args s; Some (r, bs, s) }
        else None),
      cl_tx = (\<lambda>n fr s. None)\<rparr>"

end
