(* ===== verification/Faimmain.thy ===== *)
theory Faimmain
  imports Faimtalk
begin

text \<open>
  The program \<^verbatim>\<open>faimtest\<close>: its command line (\<^verbatim>\<open>commands.c\<close>), its start and its main loop
  (\<^verbatim>\<open>faimtest.c\<close>). What the user types reaches it line by line from \<^verbatim>\<open>readline\<close>.
\<close>

section \<open>Commands of the user\<close>

definition whitespace :: "u8 \<Rightarrow> bool" where
  "whitespace b \<longleftrightarrow> b = 32 \<or> b = 9"

definition stripwhite :: "cstring \<Rightarrow> cstring" where
  "stripwhite str = rev (dropWhile whitespace (rev (dropWhile whitespace str)))"

text \<open>\<^verbatim>\<open>sscanf(arg, "%d %32s", ...)\<close>: a number and a word, if there are both.\<close>

definition is_digit :: "u8 \<Rightarrow> bool" where
  "is_digit b \<longleftrightarrow> 48 \<le> b \<and> b \<le> 57"

definition is_space :: "u8 \<Rightarrow> bool" where
  "is_space b \<longleftrightarrow> b = 32 \<or> 9 \<le> b \<and> b \<le> 13"

definition scan_number_word :: "cstring \<Rightarrow> (int \<times> cstring) option" where
  "scan_number_word str =
     (let str = dropWhile is_space str;
          num = (case str of b # bs \<Rightarrow> if b = 45 \<or> b = 43 then bs else str | [] \<Rightarrow> []);
          word = take 32 (takeWhile (\<lambda>b. \<not> is_space b) (dropWhile is_space (dropWhile is_digit num)))
      in if takeWhile is_digit num = [] \<or> word = [] then None else Some (c_atoi str, word))"

record faimtest_state =
  ft_sess :: aim_session
  ft_keepgoing :: int
  ft_lastnop :: int

datatype command =
    Cmd_help | Cmd_quit | Cmd_login | Cmd_logout | Cmd_connlist | Cmd_goodday | Cmd_warn | Cmd_anonwarn
  | Cmd_sendmsg | Cmd_reqservice

definition cmdlist :: "(cstring \<times> command) list" where
  "cmdlist = [(cstr ''help'', Cmd_help), (cstr ''quit'', Cmd_quit), (cstr ''login'', Cmd_login),
     (cstr ''logout'', Cmd_logout), (cstr ''connlist'', Cmd_connlist), (cstr ''goodday'', Cmd_goodday),
     (cstr ''warn'', Cmd_warn), (cstr ''anonwarn'', Cmd_anonwarn), (cstr ''sendmsg'', Cmd_sendmsg),
     (cstr ''reqservice'', Cmd_reqservice)]"

definition cmdfind :: "cstring \<Rightarrow> command option" where
  "cmdfind name = map_option snd (find (\<lambda>x. fst x = name) cmdlist)"

definition fits_name :: "cstring \<Rightarrow> bool" where
  "fits_name arg \<longleftrightarrow> arg \<noteq> [] \<and> length arg < MAXSNLEN"

definition cmd_login :: "faimtest_env \<Rightarrow> cstring \<Rightarrow> aim_session \<Rightarrow> (int \<times> aim_session) option" where
  "cmd_login e arg s = do {
     let sn = takeWhile (\<lambda>b. b \<noteq> 32) arg;
     let passwd = (if 32 \<in> set arg then Some (drop (length sn + 1) arg) else None);
     (_, s) \<leftarrow> faimtest_login e s (Some sn) passwd;
     Some (0, s)
   }"

definition cmd_logout :: "faimtest_env \<Rightarrow> aim_session \<Rightarrow> (int \<times> aim_session) option" where
  "cmd_logout e s = do { (_, s) \<leftarrow> faimtest_logout e s; Some (0, s) }"

definition cmd_connlist :: "aim_session \<Rightarrow> (int \<times> aim_session) option" where
  "cmd_connlist s = do { _ \<leftarrow> live_conns s; Some (0, s) }"

definition cmd_goodday :: "cstring \<Rightarrow> aim_session \<Rightarrow> (int \<times> aim_session) option" where
  "cmd_goodday arg s =
     (if fits_name arg
      then do { (_, s) \<leftarrow> aim_send_im no_client s arg (ucast AIM_IMFLAGS_ACK) (cstr ''Good day to you too.''); Some (0, s) }
      else Some (0, s))"

definition cmd_warn :: "u32 \<Rightarrow> cstring \<Rightarrow> aim_session \<Rightarrow> (int \<times> aim_session) option" where
  "cmd_warn anon arg s =
     (if fits_name arg
      then do {
        bos \<leftarrow> aim_getconn_type s (uint AIM_CONN_TYPE_BOS);
        (_, s) \<leftarrow> aim_send_warning no_client s bos arg anon;
        Some (0, s)
      }
      else Some (0, s))"

text \<open>A length of -1 asks for no bytes and writes one; a smaller one is more than there is.\<close>

definition cmd_sendmsg :: "cstring \<Rightarrow> aim_session \<Rightarrow> (int \<times> aim_session) option" where
  "cmd_sendmsg arg s =
     (case scan_number_word arg of
        None \<Rightarrow> Some (0, s)
      | Some (len, sn) \<Rightarrow>
          (if len \<ge> 10000 then Some (0, s)
           else let (ok, s) = malloc s
                in if \<not> ok \<or> len < -1 then Some (0, s)
                   else if len = -1 then None
                   else do { (_, s) \<leftarrow> aim_send_im no_client s sn 0 (digits (nat len)); Some (0, s) }))"

definition cmd_reqservice :: "cstring \<Rightarrow> aim_session \<Rightarrow> (int \<times> aim_session) option" where
  "cmd_reqservice arg s = do {
     bos \<leftarrow> aim_getconn_type s (uint AIM_CONN_TYPE_BOS);
     (_, s) \<leftarrow> aim_reqservice no_client s bos (if arg = [] then 0x0002 else word_of_int (c_atoi arg));
     Some (0, s)
   }"

primrec run_command :: "faimtest_env \<Rightarrow> cstring \<Rightarrow> aim_session \<Rightarrow> command \<Rightarrow> (int \<times> aim_session) option" where
  "run_command e arg s Cmd_help = Some (0, s)"
| "run_command e arg s Cmd_quit = Some (0, s)"
| "run_command e arg s Cmd_login = cmd_login e arg s"
| "run_command e arg s Cmd_logout = cmd_logout e s"
| "run_command e arg s Cmd_connlist = cmd_connlist s"
| "run_command e arg s Cmd_goodday = cmd_goodday arg s"
| "run_command e arg s Cmd_warn = cmd_warn 0 arg s"
| "run_command e arg s Cmd_anonwarn = cmd_warn AIM_WARN_ANON arg s"
| "run_command e arg s Cmd_sendmsg = cmd_sendmsg arg s"
| "run_command e arg s Cmd_reqservice = cmd_reqservice arg s"

definition cmdexec :: "faimtest_env \<Rightarrow> cstring \<Rightarrow> faimtest_state \<Rightarrow> (int \<times> faimtest_state) option" where
  "cmdexec e line st =
     (let line = dropWhile whitespace line;
          word = takeWhile (\<lambda>b. \<not> whitespace b) line;
          arg = dropWhile whitespace (drop (length word + 1) line)
      in case cmdfind word of
           None \<Rightarrow> Some (-1, st)
         | Some cmd \<Rightarrow> do {
             (r, s) \<leftarrow> run_command e arg (ft_sess st) cmd;
             Some (r, st\<lparr>ft_sess := s, ft_keepgoing := (if cmd = Cmd_quit then 0 else ft_keepgoing st)\<rparr>)
           })"

definition fullline :: "faimtest_env \<Rightarrow> cstring \<Rightarrow> faimtest_state \<Rightarrow> faimtest_state option" where
  "fullline e line st =
     (let stripped = stripwhite line
      in if stripped = [] then Some st else do { (_, st) \<leftarrow> cmdexec e stripped st; Some st })"

section \<open>The program\<close>

text \<open>What one round of the main loop meets: the connection that is ready, a line that was completed, a peer.\<close>

record turn_env =
  te_select :: os_select
  te_line :: "cstring option"
  te_accept :: accept_event
  te_junk :: aim_frame

definition incoming_data :: "faimtest_env \<Rightarrow> int \<Rightarrow> turn_env \<Rightarrow> nat option \<Rightarrow> faimtest_state \<Rightarrow> faimtest_state option" where
  "incoming_data e mode t waitingconn st = do {
     let s = ft_sess st;
     let cl = faimtest_client e;
     c \<leftarrow> conn_at s waitingconn;
     if mode < 2 \<and> conn_fd c = 0 then
       (case te_line t of None \<Rightarrow> Some st | Some line \<Rightarrow> fullline e line st)
     else if conn_type c = AIM_CONN_TYPE_RENDEZVOUS_OUT then do {
       (r, s) \<leftarrow> aim_handlerendconnect cl s waitingconn (te_accept t);
       s \<leftarrow> (if r < 0 then aim_conn_kill s waitingconn else Some s);
       Some (st\<lparr>ft_sess := s\<rparr>)
     }
     else do {
       (r, s) \<leftarrow> aim_get_command cl (aim_get_command_rendezvous cl (te_junk t)) s waitingconn;
       if r \<ge> 0 then do { s \<leftarrow> aim_rxdispatch cl (module_handlers cl) s; Some (st\<lparr>ft_sess := s\<rparr>) }
       else do {
         c \<leftarrow> conn_at s waitingconn;
         _ \<leftarrow> (if conn_type c = AIM_CONN_TYPE_RENDEZVOUS \<and> conn_subtype c = AIM_CONN_SUBTYPE_OFT_DIRECTIM
              then aim_directim_getsn waitingconn s else Some None);
         s \<leftarrow> aim_conn_kill s waitingconn;
         bos \<leftarrow> aim_getconn_type s (uint AIM_CONN_TYPE_BOS);
         Some (st\<lparr>ft_sess := s, ft_keepgoing := (if bos = None \<and> mode = 2 then 0 else ft_keepgoing st)\<rparr>)
       }
     }
   }"

definition faimtest_turn :: "faimtest_env \<Rightarrow> int \<Rightarrow> turn_env \<Rightarrow> faimtest_state \<Rightarrow> faimtest_state option" where
  "faimtest_turn e mode t st = do {
     (waitingconn, selstat, s) \<leftarrow> aim_select (te_select t) (ft_sess st);
     priv \<leftarrow> priv_of e s;
     st \<leftarrow> (if fp_connected priv \<noteq> 0 \<and> os_now s - ft_lastnop st > 30
           then do {
             bos \<leftarrow> aim_getconn_type s (uint AIM_CONN_TYPE_BOS);
             (_, s) \<leftarrow> aim_flap_nop no_client s bos;
             Some (st\<lparr>ft_sess := s, ft_lastnop := os_now s\<rparr>)
           }
           else Some (st\<lparr>ft_sess := s\<rparr>));
     if selstat = -1 then Some (st\<lparr>ft_keepgoing := 0\<rparr>)
     else if selstat = 0 then Some st
     else if selstat = 1 then do { (_, s) \<leftarrow> aim_tx_flushqueue (ft_sess st); Some (st\<lparr>ft_sess := s\<rparr>) }
     else if selstat = 2 then incoming_data e mode t waitingconn st
     else Some st
   }"

text \<open>The icon to show to others, if its file can be read and is not too large.\<close>

definition load_icon ::
  "faimtest_env \<Rightarrow> cstring option \<Rightarrow> u32 \<Rightarrow> faimtest_priv \<Rightarrow> aim_session \<Rightarrow> (faimtest_priv \<times> aim_session) option" where
  "load_icon e path stamp priv s =
     (case Option.bind path (fe_file e) of
        Some (True, icon) \<Rightarrow>
          (if length icon > 7168 then Some (priv, s)
           else let (ok, s) = malloc s
                in if \<not> ok then None
                   else do {
                     csum \<leftarrow> aim_iconsum icon (int (length icon));
                     Some (priv\<lparr>fp_buddyicon := Some icon, fp_buddyiconlen := int (length icon),
                       fp_buddyiconstamp := stamp, fp_buddyiconsum := csum\<rparr>, s)
                   })
      | _ \<Rightarrow> Some (priv, s))"

text \<open>
  The start: from memory as it is to the main loop, or to the exit. The structure \<^verbatim>\<open>priv\<close> of
  \<^verbatim>\<open>main\<close> has an address of its own. When there is a path for the listing, the name of its file is
  written into memory that has no place for the terminator.
\<close>

definition faimtest_start ::
  "faimtest_env \<Rightarrow> int \<Rightarrow> faimtest_priv \<Rightarrow> cstring option \<Rightarrow> u32 \<Rightarrow> aim_session \<Rightarrow> (int + faimtest_state) option" where
  "faimtest_start e mode priv buddyiconpath stamp z = do {
     s \<leftarrow> aim_session_init z AIM_SESS_FLAGS_NONBLOCKCONNECT 1;
     let s = s\<lparr>next_addr := max (next_addr s) (Suc (fe_aux e))\<rparr>;
     _ \<leftarrow> (if fp_listingpath priv \<noteq> None then None else Some ());
     (priv, s) \<leftarrow> load_icon e buddyiconpath stamp priv s;
     let s = set_priv e priv s;
     (_, s) \<leftarrow> faimtest_init e s;
     (r, s) \<leftarrow> (if mode \<ge> 1 then faimtest_login e s (fp_screenname priv) (fp_password priv) else Some (0, s));
     if r = -1 then Some (Inl (-1)) else Some (Inr \<lparr>ft_sess = s, ft_keepgoing = 1, ft_lastnop = 0\<rparr>)
   }"

text \<open>The main loop, round after round, and the end of the session after it.\<close>

partial_function (option) main_loop ::
  "faimtest_env \<Rightarrow> int \<Rightarrow> (nat \<Rightarrow> turn_env) \<Rightarrow> nat \<Rightarrow> faimtest_state \<Rightarrow> aim_session option" where
  "main_loop e mode ts n st =
     (if ft_keepgoing st = 0 then aim_session_kill (ft_sess st)
      else do { st \<leftarrow> faimtest_turn e mode (ts n) st; main_loop e mode ts (Suc n) st })"

end
