(* ===== verification/Faimsafe.thy ===== *)
theory Faimsafe
  imports Faimmain
begin

text \<open>
  \<^verbatim>\<open>faimtest\<close> as a client of the library: none of its functions breaks a session, and none that
  kills a connection leaves its frame unhandled.
\<close>

section \<open>Its functions keep sessions intact\<close>

lemma set_priv_core: "core_kept s (set_priv e p s)"
  by (simp add: set_priv_def core_kept_def)

lemma okay_priv [keeps]:
  "(\<And>p. okay st I (g p)) \<Longrightarrow> okay st I (n \<bind> (\<lambda>p :: faimtest_priv. g p))"
  "(\<And>f. okay st I (h f)) \<Longrightarrow> okay st I (m \<bind> (\<lambda>f :: aim_frame. h f))"
  unfolding okay_def by (auto split: bind_splits)

declare addhandlers.simps [simp del]

lemma okay_last [keeps]: "okay st2 I m \<Longrightarrow> okay (\<lambda>s. s) I (m \<bind> (\<lambda>(a, y). Some y))"
  unfolding okay_def by (fastforce split: bind_splits)

text \<open>Whatever the library keeps, the functions it is used with keep.\<close>

context program_stable
begin

lemma no_client_polite [simp]: "polite no_client"
  by (simp add: polite_def no_client_def)

lemma set_priv_okay [keeps]: "I s \<Longrightarrow> I (set_priv e p s)"
  by (rule core [OF _ set_priv_core])

lemma newconn_at_okay [keeps]: "I s \<Longrightarrow> okay st2 I (newconn_at e s ty dest)"
  unfolding newconn_at_def by (rule keeps)

lemma addhandlers_okay [keeps]: "I s \<Longrightarrow> okay (\<lambda>s. s) I (addhandlers xs conn s)"
  by (induction xs arbitrary: s) (auto simp: addhandlers.simps intro!: keeps)

lemma conn_kill_okay [keeps]: "I s \<Longrightarrow> okay (\<lambda>s. s) I (aim_conn_kill s p)"
  by (rule okay_results) (rule killing)

lemma faimtest_init_okay [keeps]: "I s \<Longrightarrow> okay st2 I (faimtest_init e s)"
  unfolding faimtest_init_def by (auto intro!: keeps put_okay split: option.split)

lemma open_bos_okay [keeps]: "I s \<Longrightarrow> okay st2 I (open_bos e s ip ck)"
  unfolding open_bos_def addcb_bos_def by (auto split: option.split intro!: keeps)

lemma getaimdata_okay [keeps]: "I s \<Longrightarrow> okay st2 I (getaimdata e s ofs len m)"
  unfolding getaimdata_def by (auto simp: malloc_eq Let_def split: option.split intro!: keeps)

lemma setupproxy_okay [keeps]: "I s \<Longrightarrow> I (aim_setupproxy s server username password)"
  by (rule core [OF _ setupproxy_core])

lemma login_request_okay [keeps]:
  "I s \<Longrightarrow> okay st2 I (aim_request_login no_client (Some s) conn sn \<bind> (\<lambda>(a, t). t \<bind> (\<lambda>s. Some (b, s))))"
  unfolding okay_def by (auto split: bind_splits intro: request_login_okay [OF no_client_polite, unfolded okay_def, rule_format])

lemma login_okay [keeps]: "I s \<Longrightarrow> okay st2 I (faimtest_login e s sn pw)"
  unfolding faimtest_login_def
  by (auto simp: malloc_eq Let_def split: option.split if_split intro!: keeps)

end

lemmas session_kill_world [keeps] = session_kill_okay

lemma logout_world [keeps]: "world_ok s \<Longrightarrow> okay st2 world_ok (faimtest_logout e s)"
  unfolding faimtest_logout_def by (auto split: option.split intro!: keeps)

lemma redirect_world [keeps]:
  "world_ok s \<Longrightarrow> okay (\<lambda>s. s) world_ok (chatnav_redirect e s ip ck)"
  "world_ok s \<Longrightarrow> okay (\<lambda>s. s) world_ok (chat_redirect e s ip ck ex nm inst)"
  unfolding chatnav_redirect_def chat_redirect_def by (auto split: option.split intro!: keeps)

lemma demanded_world [keeps]: "world_ok s \<Longrightarrow> okay st2 world_ok (demanded n s)"
  unfolding demanded_def by (auto simp: malloc_eq intro!: keeps)

lemma directim_world [keeps]:
  "world_ok s \<Longrightarrow> okay (\<lambda>s. s) world_ok (directim_start e s sn)"
  "world_ok s \<Longrightarrow> okay (\<lambda>s. s) world_ok (directim_requested e s ui ip ck)"
  "world_ok s \<Longrightarrow> okay (\<lambda>s. s) world_ok (getfile_start s conn sn)"
  "world_ok s \<Longrightarrow> okay (\<lambda>s. s) world_ok (getfile_requested s)"
  unfolding directim_start_def directim_requested_def getfile_start_def getfile_requested_def aim_getfile_initiate_def
    aim_getlisting_def aim_accepttransfer_def Let_def
  by (auto split: option.split intro!: keeps)

lemma okay_guarded: "okay st I m \<Longrightarrow> okay st I n \<Longrightarrow> okay st I (if c then m else n)"
  by simp

lemma okay_where: "okay st I (f x) \<Longrightarrow> okay st I (let y = x in f y)"
  by simp

lemma okay_option: "okay st I n \<Longrightarrow> (\<And>x. okay st I (f x)) \<Longrightarrow> okay st I (case p of None \<Rightarrow> n | Some x \<Rightarrow> f x)"
  by (cases p) simp_all

lemmas okay_cases = okay_guarded okay_where okay_option world.no_client_polite

lemma admin_cmd_world [keeps]: "world_ok s \<Longrightarrow> okay st2 world_ok (handlecmd_admin s conn sn str)"
  unfolding handlecmd_admin_def by (intro okay_cases keeps; simp)

lemma services_cmd_world [keeps]: "world_ok s \<Longrightarrow> okay st2 world_ok (handlecmd_services e priv s conn sn str)"
  unfolding handlecmd_services_def by (intro okay_cases keeps; simp)

lemma mpmsg_world [keeps]:
  "world_ok s \<Longrightarrow> world_ok (snd (snd (aim_mpmsg_addascii m x s)))"
  "world_ok s \<Longrightarrow> okay st3 world_ok (aim_mpmsg_addunicode m us n s)"
  "world_ok s \<Longrightarrow> okay st3 world_ok (aim_mpmsg_addraw m cs sub bs n s)"
proof -
  assume s: "world_ok s"
  then have os: "world_ok (s\<lparr>os_allocs := x\<rparr>)" for x by (rule world.core) (simp add: core_kept_def)
  have added: "world_ok u" if "mpmsg_addsection mpm a b d n (s\<lparr>os_allocs := x\<rparr>) = (i, p, u)" for mpm a b d n x i p u
    using world.addsection_okay [OF os, of mpm a b d n x] that by simp
  show "world_ok (snd (snd (aim_mpmsg_addascii m x s)))"
    using s os by (simp add: aim_mpmsg_addascii_def malloc_eq world.addsection_okay)
  show "okay st3 world_ok (aim_mpmsg_addunicode m us n s)" "okay st3 world_ok (aim_mpmsg_addraw m cs sub bs n s)"
    using s os
    by (fastforce simp: okay_def aim_mpmsg_addunicode_def aim_mpmsg_addraw_def malloc_eq Let_def split: bind_splits if_splits dest: added)+
qed

lemma multi_world [keeps]:
  "world_ok s \<Longrightarrow> okay st2 world_ok (send_multi s sn)" "world_ok s \<Longrightarrow> okay st2 world_ok (send_prebin s sn)"
  unfolding send_multi_def send_prebin_def by (intro okay_cases keeps; simp)+

lemma handlecmd_world [keeps]: "world_ok s \<Longrightarrow> okay st2 world_ok (faimtest_handlecmd e s conn ui str)"
  unfolding faimtest_handlecmd_def by (intro okay_cases keeps; simp)

subsection \<open>Functions by their arguments\<close>

lemma okay_list:
  "okay st I n \<Longrightarrow> (\<And>x xs. okay st I (f x xs)) \<Longrightarrow> okay st I (case l of [] \<Rightarrow> n | x # xs \<Rightarrow> f x xs)"
  by (cases l) simp_all

lemma okay_arg:
  assumes "\<And>x. okay st I (f1 x)" "\<And>x. okay st I (f2 x)" "\<And>x. okay st I (f3 x)" "\<And>x. okay st I (f4 x)"
    "\<And>x. okay st I (f5 x)" "\<And>x. okay st I (f6 x)"
  shows "okay st I (case a of ArgInt x \<Rightarrow> f1 x | ArgStr x \<Rightarrow> f2 x | ArgBytes x \<Rightarrow> f3 x | ArgConn x \<Rightarrow> f4 x |
    ArgUserinfo x \<Rightarrow> f5 x | ArgList x \<Rightarrow> f6 x)"
  using assms by (cases a) simp_all

lemma okay_none: "okay st I None"
  by simp

lemma okay_some2: "I s \<Longrightarrow> okay st2 I (Some (r, s))"
  by simp

lemmas okay_args = okay_list okay_arg okay_none okay_some2 okay_cases

lemma shown_world:
  assumes "world_ok s"
  shows "okay st2 world_ok (faimtest_flapversion fr args s)" "okay st2 world_ok (faimtest_conncomplete fr args s)"
    "okay st2 world_ok (faimtest_accountconfirm fr args s)" "okay st2 world_ok (faimtest_infochange fr args s)"
    "okay st2 world_ok (faimtest_locrights fr args s)" "okay st2 world_ok (faimtest_parse_motd fr args s)"
    "okay st2 world_ok (faimtest_handleselfinfo fr args s)" "okay st2 world_ok (faimtest_parse_userinfo fr args s)"
    "okay st2 world_ok (faimtest_parse_oncoming fr args s)" "okay st2 world_ok (faimtest_parse_offgoing fr args s)"
    "okay st2 world_ok (faimtest_parse_genericerr fr args s)" "okay st2 world_ok (faimtest_parse_msgerr fr args s)"
    "okay st2 world_ok (faimtest_parse_locerr fr args s)" "okay st2 world_ok (faimtest_parse_misses fr args s)"
    "okay st2 world_ok (faimtest_parse_msgack fr args s)" "okay st2 world_ok (faimtest_parse_ratechange fr args s)"
    "okay st2 world_ok (faimtest_parse_evilnotify fr args s)" "okay st2 world_ok (faimtest_parse_searchreply fr args s)"
    "okay st2 world_ok (faimtest_parse_searcherror fr args s)" "okay st2 world_ok (handlepopup fr args s)"
    "okay st2 world_ok (faimtest_offlinemsg fr args s)" "okay st2 world_ok (directim_typing fr args s)"
    "okay st2 world_ok (faimtest_chat_join fr args s)" "okay st2 world_ok (faimtest_chat_leave fr args s)"
    "okay st2 world_ok (faimtest_chat_infoupdate fr args s)" "okay st2 world_ok (faimtest_chatnav_info fr args s)"
  unfolding faimtest_flapversion_def faimtest_conncomplete_def faimtest_accountconfirm_def faimtest_infochange_def
    faimtest_locrights_def faimtest_parse_motd_def faimtest_handleselfinfo_def faimtest_parse_userinfo_def
    faimtest_parse_oncoming_def faimtest_parse_offgoing_def faimtest_parse_genericerr_def faimtest_parse_msgerr_def
    faimtest_parse_locerr_def faimtest_parse_misses_def faimtest_parse_msgack_def faimtest_parse_ratechange_def
    faimtest_parse_evilnotify_def faimtest_parse_searchreply_def faimtest_parse_searcherror_def handlepopup_def
    faimtest_offlinemsg_def directim_typing_def faimtest_chat_join_def faimtest_chat_leave_def
    faimtest_chat_infoupdate_def faimtest_chatnav_info_def
  by (intro okay_args keeps; simp add: assms)+

lemma answering_world:
  assumes "world_ok s"
  shows "okay st2 world_ok (serverpause_cb fr args s)" "okay st2 world_ok (ssirights fr args s)"
    "okay st2 world_ok (ssidata fr args s)" "okay st2 world_ok (ssidatanochange fr args s)"
    "okay st2 world_ok (offlinemsgdone fr args s)" "okay st2 world_ok (faimtest_parse_buddyrights fr args s)"
    "okay st2 world_ok (faimtest_bosrights fr args s)" "okay st2 world_ok (faimtest_icbmparaminfo fr args s)"
    "okay st2 world_ok (faimtest_reportinterval e fr args s)" "okay st2 world_ok (faimtest_parse_connerr e fr args s)"
    "okay st2 world_ok (conninitdone_admin fr args s)" "okay st2 world_ok (conninitdone_bos e fr args s)"
    "okay st2 world_ok (faimtest_memrequest e fr args s)" "okay st2 world_ok (faimtest_parse_login e fr args s)"
    "okay st2 world_ok (faimtest_parse_authresp e fr args s)" "okay st2 world_ok (migrate_cb e fr args s)"
    "okay st2 world_ok (faimtest_chat_incomingmsg fr args s)" "okay st2 world_ok (conninitdone_chat fr args s)"
    "okay st2 world_ok (faimtest_handleredirect e fr args s)" "okay st2 world_ok (directim_incoming fr args s)"
    "okay st2 world_ok (faimtest_directim_initiate fr args s)" "okay st2 world_ok (faimtest_parse_incoming_im e fr args s)"
  unfolding serverpause_cb_def ssirights_def ssidata_def ssidatanochange_def offlinemsgdone_def
    faimtest_parse_buddyrights_def faimtest_bosrights_def faimtest_icbmparaminfo_def faimtest_reportinterval_def
    faimtest_parse_connerr_def conninitdone_admin_def conninitdone_bos_def faimtest_memrequest_def
    faimtest_parse_login_def faimtest_parse_authresp_def migrate_cb_def faimtest_chat_incomingmsg_def
    conninitdone_chat_def faimtest_handleredirect_def directim_incoming_def faimtest_directim_initiate_def
    faimtest_parse_incoming_im_def faimtest_parse_incoming_im_chan1_def faimtest_parse_incoming_im_chan2_def
  by (intro okay_args keeps; simp add: assms keeps)+

lemma run_world: "world_ok s \<Longrightarrow> okay st2 world_ok (faimtest_run e f fr args s)"
  by (cases f) (simp_all add: shown_world answering_world)

text \<open>All of them say that they have handled the frame.\<close>

lemma okay_then: "(\<And>x. okay st J (f x)) \<Longrightarrow> okay st J (m \<bind> f)"
  by (simp add: okay_def split: bind_splits)

lemma okay_pair: "(\<And>a b. okay st I (f a b)) \<Longrightarrow> okay st I (case p of (a, b) \<Rightarrow> f a b)"
  by (cases p) simp

lemma okay_one: "okay fst (\<lambda>r. r = 1) (Some (1, s))"
  by simp

lemma run_handles: "okay fst (\<lambda>r. r = 1) (faimtest_run e f fr args s)"
  by (cases f; simp only: faimtest_run.simps
    faimtest_flapversion_def faimtest_conncomplete_def faimtest_accountconfirm_def faimtest_infochange_def
    faimtest_locrights_def faimtest_parse_motd_def faimtest_handleselfinfo_def faimtest_parse_userinfo_def
    faimtest_parse_oncoming_def faimtest_parse_offgoing_def faimtest_parse_genericerr_def faimtest_parse_msgerr_def
    faimtest_parse_locerr_def faimtest_parse_misses_def faimtest_parse_msgack_def faimtest_parse_ratechange_def
    faimtest_parse_evilnotify_def faimtest_parse_searchreply_def faimtest_parse_searcherror_def handlepopup_def
    faimtest_offlinemsg_def directim_typing_def faimtest_chat_join_def faimtest_chat_leave_def
    faimtest_chat_infoupdate_def faimtest_chatnav_info_def
    serverpause_cb_def ssirights_def ssidata_def ssidatanochange_def offlinemsgdone_def
    faimtest_parse_buddyrights_def faimtest_bosrights_def faimtest_icbmparaminfo_def faimtest_reportinterval_def
    faimtest_parse_connerr_def conninitdone_admin_def conninitdone_bos_def faimtest_memrequest_def
    faimtest_parse_login_def faimtest_parse_authresp_def migrate_cb_def open_bos_def faimtest_chat_incomingmsg_def
    conninitdone_chat_def faimtest_handleredirect_def directim_incoming_def faimtest_directim_initiate_def
    faimtest_parse_incoming_im_def;
    intro okay_list okay_arg okay_none okay_guarded okay_where okay_option okay_then okay_pair okay_one)

lemma faimtest_careful: "careful (faimtest_client e)"
proof -
  have "world_ok s' \<and> r = 1" if "world_ok s" "cl_callback (faimtest_client e) n fr args bs s = Some (r, bs', s')"
    for n fr args bs s r bs' s'
    using that okayD [OF run_world [OF that(1)], of e "faimtest_fns ! n" fr args] okayD [OF run_handles [of e "faimtest_fns ! n" fr args s]]
    by (fastforce simp: faimtest_client_def split: bind_splits if_splits)
  moreover have "cl_tx (faimtest_client e) n f s = None" for n f s by (simp add: faimtest_client_def)
  ultimately show ?thesis unfolding careful_def by (metis option.distinct(1) word_of_int_1 zero_neq_one)
qed

section \<open>The program keeps its session intact\<close>

lemma malloc_world: "world_ok s \<Longrightarrow> world_ok (s\<lparr>os_allocs := x\<rparr>)"
  by (erule world.core) (simp add: core_kept_def)

lemma okay_conns: "(\<And>xs. okay st I (g xs)) \<Longrightarrow> okay st I (m \<bind> (\<lambda>xs :: (nat \<times> aim_conn) list. g xs))"
  by (rule okay_then)

lemma command_world [keeps]: "world_ok s \<Longrightarrow> okay st2 world_ok (run_command e arg s cmd)"
  by (cases cmd; simp only: run_command.simps cmd_login_def cmd_logout_def cmd_connlist_def cmd_goodday_def cmd_warn_def
      cmd_reqservice_def cmd_sendmsg_def malloc_eq prod.case;
    (intro okay_args okay_pair okay_conns malloc_world keeps; simp add: malloc_world)?)

definition st_world :: "faimtest_state \<Rightarrow> bool" where
  "st_world st \<longleftrightarrow> world_ok (ft_sess st)"

lemma st_world_upd [simp]:
  "st_world (st\<lparr>ft_sess := s\<rparr>) = world_ok s" "st_world (st\<lparr>ft_keepgoing := k\<rparr>) = st_world st"
  "st_world (st\<lparr>ft_lastnop := k\<rparr>) = st_world st"
  by (simp_all add: st_world_def)

lemma fullline_world: "st_world st \<Longrightarrow> okay (\<lambda>st. st) st_world (fullline e line st)"
  using command_world [of "ft_sess st" e]
  by (auto simp: fullline_def cmdexec_def okay_def st_world_def Let_def split: bind_splits option.splits)

lemma incoming_world:
  assumes "st_world st"
  shows "okay (\<lambda>st. st) st_world (incoming_data e mode t p st)"
proof -
  note polite = careful_polite [OF faimtest_careful [of e]]
  have w: "world_ok (ft_sess st)" using assms by (simp add: st_world_def)
  have rv: "okay st2 world_ok (aim_get_command (faimtest_client e) (aim_get_command_rendezvous (faimtest_client e) (te_junk t)) (ft_sess st) p)"
    "okay st2 world_ok (aim_handlerendconnect (faimtest_client e) (ft_sess st) p (te_accept t))"
    using w polite by (simp_all add: keeps)
  have d: "okay (\<lambda>s. s) world_ok (aim_rxdispatch (faimtest_client e) (module_handlers (faimtest_client e)) s)"
    if "world_ok s" for s by (rule rxdispatch_okay [OF faimtest_careful that])
  have k: "world_ok s \<Longrightarrow> okay (\<lambda>st. st) st_world (aim_conn_kill s p \<bind> (\<lambda>s. Some (st\<lparr>ft_sess := s\<rparr>)))" for s
    by (rule okay_bind [OF world.conn_kill_okay]) simp_all
  have k': "world_ok s \<Longrightarrow> okay (\<lambda>st. st) st_world (aim_conn_kill s p \<bind> (\<lambda>s. aim_getconn_type s ty \<bind>
      (\<lambda>bos. Some (st\<lparr>ft_sess := s, ft_keepgoing := g bos\<rparr>))))" for s ty g
    by (rule okay_bind [OF world.conn_kill_okay]) (auto intro!: okay_then)
  have d': "world_ok s \<Longrightarrow> okay (\<lambda>st. st) st_world (aim_rxdispatch (faimtest_client e) (module_handlers (faimtest_client e)) s \<bind>
      (\<lambda>s. Some (st\<lparr>ft_sess := s\<rparr>)))" for s
    by (rule okay_bind [OF d]) simp_all
  have k'': "world_ok s \<Longrightarrow> okay (\<lambda>st. st) st_world ((n :: aim_conn option) \<bind> (\<lambda>c. (q c :: u8 list option option) \<bind> (\<lambda>_.
      aim_conn_kill s p \<bind> (\<lambda>s. aim_getconn_type s ty \<bind> (\<lambda>bos. Some (st\<lparr>ft_sess := s, ft_keepgoing := g bos\<rparr>))))))" for s n q ty g
    by (intro okay_then [of _ _ _ n] okay_then [of _ _ _ "q _"] k')
  show ?thesis
    unfolding incoming_data_def Let_def
    by (rule okay_then, intro okay_guarded okay_option okay_bind [OF rv(2)] okay_bind [OF rv(1)])
      (auto simp: assms split: prod.split intro!: k d' k'' fullline_world [OF assms])
qed

lemma turn_world:
  assumes "st_world st" "faimtest_turn e mode t st = Some st'"
  shows "st_world st'"
proof -
  have w: "world_ok (ft_sess st)" using assms(1) by (simp add: st_world_def)
  have sel: "world_ok s" if "aim_select f (ft_sess st) = Some (p, n, s)" for f p n s
    by (rule world.core [OF w select_core [OF that]])
  have nop: "world_ok s'" if "aim_flap_nop no_client s conn = Some (r, s')" "world_ok s" for s conn r s'
    by (rule okay_taken(2) [OF that(1) world.flap_nop_okay]) (simp_all add: that)
  have fl: "world_ok s'" if "aim_tx_flushqueue s = Some (r, s')" "world_ok s" for s r s'
    by (rule world.flushing [OF that(2,1)])
  have inc: "st_world st''" if "incoming_data e mode t p st' = Some st''" "st_world st'" for p st' st''
    using incoming_world [OF that(2), of e mode t p] that(1) by (simp add: okay_def)
  from assms(2) show ?thesis
    by (auto simp: faimtest_turn_def split: bind_splits if_splits dest!: sel nop fl inc)
qed

lemma start_world:
  assumes "faimtest_start e mode priv icon stamp z = Some (Inr st)" "conns z = (\<lambda>_. None)"
  shows "st_world st"
proof -
  obtain s where s: "aim_session_init z AIM_SESS_FLAGS_NONBLOCKCONNECT 1 = Some s"
    using assms(1) by (auto simp: faimtest_start_def split: bind_splits)
  let ?s = "s\<lparr>next_addr := max (next_addr s) (Suc (fe_aux e))\<rparr>"
  have "world_ok s" by (rule session_init_world [OF s assms(2)])
  then have "world_ok ?s" by (rule world.core) (simp add: core_kept_def)
  then have icon: "world_ok s'" if "load_icon e icon stamp priv ?s = Some (p, s')" for p s'
    using that by (auto simp: load_icon_def malloc_eq Let_def malloc_world split: option.splits if_splits bool.splits bind_splits)
  have init: "world_ok s'" if "faimtest_init e (set_priv e p s) = Some (r, s')" "world_ok s" for s p r s'
    by (rule okay_taken(2) [OF that(1) world.faimtest_init_okay]) (simp add: world.set_priv_okay that(2))
  have login: "world_ok s'" if "faimtest_login e s sn pw = Some (r, s')" "world_ok s" for s sn pw r s'
    by (rule okay_taken(2) [OF that(1) world.login_okay [OF that(2)]])
  from assms(1) s show ?thesis
    by (auto simp: faimtest_start_def st_world_def split: bind_splits if_splits dest!: icon init login)
qed

text \<open>C12: The program that comes with the library is such a client: from its start on, whatever its user types, whatever
  servers, proxies, other users and peers send it, whatever files and names there are and whatever
  memory and sockets do, every round of its main loop leaves a session whose connections are live and listed
  once and whose waiting frames, in either queue, belong to them.\<close>

theorem faimtest_intact:
  assumes "faimtest_start e mode priv icon stamp z = Some (Inr st)" "conns z = (\<lambda>_. None)"
    "(\<lambda>st st'. ft_keepgoing st \<noteq> 0 \<and> (\<exists>t. faimtest_turn e mode t st = Some st'))\<^sup>*\<^sup>* st st'" "s' = ft_sess st'"
  shows "distinct (connlist s') \<and> set (connlist s') = dom (conns s') \<and>
    (\<forall>fr \<in> set (queue_incoming s') \<union> set (queue_outgoing s').
       fr_handled fr = 0 \<longrightarrow> (\<exists>a \<in> set (connlist s'). fr_conn fr = Some a)) \<and>
    distinct (map fr_id (queue_incoming s')) \<and> set (modlist s') \<subseteq> set default_modules"
proof -
  have "st_world st" by (rule start_world [OF assms(1,2)])
  with assms(3) have "st_world st'"
    by (induction rule: rtranclp_induct) (blast intro: turn_world)+
  then show ?thesis using session_ok_frames [of s'] unfolding st_world_def world_ok_def assms(4) by blast
qed

definition quiet_env :: faimtest_env where
  "quiet_env = \<lparr>fe_aux = 0, fe_net = (\<lambda>_. no_network), fe_file = (\<lambda>_. None)\<rparr>"

definition no_priv :: faimtest_priv where
  "no_priv = \<lparr>fp_aimbinarypath = None, fp_screenname = None, fp_password = None, fp_server = None, fp_proxy = None,
     fp_proxyusername = None, fp_proxypass = None, fp_ohcaptainmycaptain = None, fp_connected = 0, fp_listingpath = None,
     fp_buddyicon = None, fp_buddyiconlen = 0, fp_buddyiconstamp = 0, fp_buddyiconsum = 0\<rparr>"

definition typed :: "string \<Rightarrow> turn_env" where
  "typed line = \<lparr>te_select = (\<lambda>n r w. \<lparr>sel_result = 1, sel_errno = 0, sel_readable = [0], sel_writable = []\<rparr>),
     te_line = Some (cstr line), te_accept = AcceptError, te_junk = demo_frame 2 [] None\<rparr>"

theorem faimtest_intact_witness:
  "\<exists>st st'. faimtest_start quiet_env 0 no_priv None 0 (session0 3) = Some (Inr st) \<and>
     faimtest_turn quiet_env 0 (typed ''quit '') st = Some st' \<and> ft_keepgoing st' = 0 \<and>
     set (connlist (ft_sess st')) = dom (conns (ft_sess st')) \<and> connlist (ft_sess st') = [1]"
proof -
  obtain s where s: "aim_session_init (session0 3) AIM_SESS_FLAGS_NONBLOCKCONNECT 1 = Some s" "mem_ok s" "next_addr s = 0"
    "connlist s = []" "queue_outgoing s = []" "conns s = (\<lambda>_. None)" "objs s = (\<lambda>_. None)"
    by (auto simp: session_init_eq zero_session_def mem_ok_def)
  define c where "c = aim_conn_init (zero_conn\<lparr>conn_inside := Some \<lparr>in_groups = [], in_rates = []\<rparr>\<rparr>)
    \<lparr>conn_sessv := True, conn_type := 0, conn_status := 0, conn_fd := 0\<rparr>"
  have c: "conn_fd c = 0" "conn_status c = 0" by (simp_all add: c_def)
  have no_listing: "fp_listingpath no_priv = None" by (simp add: no_priv_def)
  obtain st where st: "faimtest_start quiet_env 0 no_priv None 0 (session0 3) = Some (Inr st)" "ft_keepgoing st = 1"
    "connlist (ft_sess st) = [1]" "conns (ft_sess st) = [1 \<mapsto> c]"
    "queue_outgoing (ft_sess st) = []" "priv_of quiet_env (ft_sess st) = Some no_priv"
    using s
    by (auto simp: faimtest_start_def load_icon_def quiet_env_def set_priv_def faimtest_init_def newconn_at_def aim_newconn_def
        getnext_ok priv_of_def c_def no_listing)
  have quit: "fullline e (cstr ''quit '') st' = Some (st'\<lparr>ft_keepgoing := 0\<rparr>)" for e st'
    by (simp add: fullline_def cmdexec_def stripwhite_def whitespace_def cmdfind_def cmdlist_def cstr_def Let_def)
  have p: "priv_of e (s\<lparr>os_errno := x\<rparr>) = priv_of e s" "fp_connected no_priv = 0" for e s x
    by (simp_all add: priv_of_def no_priv_def)
  have turn: "faimtest_turn quiet_env 0 (typed ''quit '') st =
      Some (st\<lparr>ft_sess := (ft_sess st)\<lparr>os_errno := 0\<rparr>, ft_keepgoing := 0\<rparr>)"
    using st(3-6) c
    by (simp add: faimtest_turn_def typed_def aim_select_def FD_SETSIZE_def conn_inprogress_def select_ready_def p
        incoming_data_def quit Let_def)
  from faimtest_intact [OF st(1) _ r_into_rtranclp refl, of "st\<lparr>ft_sess := (ft_sess st)\<lparr>os_errno := 0\<rparr>, ft_keepgoing := 0\<rparr>"]
  show ?thesis using st(1-4) turn by fastforce
qed

section \<open>Logging in again\<close>

text \<open>Every operation but two leaves the registry of modules as it is.\<close>

lemma enqueue_modules:
  assumes "aim_tx_enqueue cl s fr = Some (r, s')" "\<And>n f t q t'. modlist t = ms \<Longrightarrow> cl_tx cl n f t = Some (q, t') \<Longrightarrow> modlist t' = ms"
    "modlist s = ms"
  shows "modlist s' = ms"
proof -
  consider "aim_tx_enqueue__queuebased s fr = Some (r, s')" | "aim_tx_enqueue__immediate s fr = Some (r, s')"
    | n where "cl_tx cl n fr s = Some (r, s')"
    using assms(1) by (auto simp: aim_tx_enqueue_def split: bind_splits if_splits tx_mode.splits)
  then show ?thesis
  proof cases
    case 1
    with tidy_queued [OF 1] assms(3) show ?thesis by (simp add: tidy_def)
  next
    case 2
    with tidy_immediate [OF 2] assms(3) show ?thesis by (simp add: tidy_def)
  qed (use assms(2,3) in blast)
qed

interpretation bare: program_stable "\<lambda>s. modlist s = ms" for ms
proof unfold_locales
  fix s s' t :: aim_session
  assume s: "modlist s = ms"
  have tidy: "tidy s s' \<Longrightarrow> modlist s' = ms" for s' using s by (simp add: tidy_def)
  show "core_kept s s' \<Longrightarrow> modlist s' = ms" by (rule tidy [OF tidy_core])
  show "modlist s' = ms" if "aim_conn_close p s = Some s'" for p by (rule tidy [OF tidy_close [OF that]])
  show "modlist s' = ms" if "aim_conn_addgroup p g s = Some s'" for p g
    using that s by (auto simp: aim_conn_addgroup_def malloc_eq Let_def split: bind_splits if_splits)
  show "modlist s' = ms" if "aim_newconn ne s ty dest = Some (r, s')" for ne ty dest r by (rule tidy [OF tidy_newconn [OF that]])
  show "modlist s' = ms" if "aim_cloneconn s (Some b) = Some (r, s')" for b r by (rule tidy [OF tidy_clone [OF that]])
  show "modlist s' = ms" if "aim_tx_flushqueue s = Some (q, s')" for q by (rule tidy [OF tidy_flush [OF that]])
  show "modlist s' = ms" if "aim_conn_kill s p = Some s'" for p by (rule tidy [OF tidy_kill [OF that]])
  show "modlist s' = ms" if "aim_logoff s = Some (q, s')" for q by (rule tidy [OF tidy_logoff [OF that]])
  show "modlist (aim_purge_rxqueue s) = ms" using s by (simp add: aim_purge_rxqueue_def)
  show "modlist (put_conn a d s) = ms" for a d using s by simp
  show "modlist s' = ms" if "aim_tx_enqueue cl s fr = Some (r, s')"
    "\<And>n f t q t'. modlist t = ms \<Longrightarrow> cl_tx cl n f t = Some (q, t') \<Longrightarrow> modlist t' = ms" for cl fr r
    by (rule enqueue_modules [OF that s])
  show "modlist (t\<lparr>queue_incoming := queue_incoming t @ [fr]\<rparr>) = ms" if "core_kept (s\<lparr>next_addr := Suc (next_addr s)\<rparr>) t" for fr
    using that s by (simp add: core_kept_def)
qed

lemma dispatch_no_modules:
  assumes "modlist s = []" "conns s a = Some c" "flap_conn c" "fr_conn rx = Some a" "fr_hdr rx = Flap 2 sq" "bs_ok (fr_data rx)"
  shows "\<exists>bs. dispatch_frame cl hs rx s = Some (1, bs, s)"
proof -
  have "\<exists>bs. consumesnac hs s rx = Some (0, bs, s)"
  proof (cases "aim_bstream_empty (fr_data rx) < 10")
    case False
    then have "10 \<le> room (fr_data rx)" using assms(6) by (simp add: empty_eq)
    then show ?thesis using assms(1,6) by (simp add: consumesnac_def Let_def stream_simps)
  qed (simp add: consumesnac_def)
  with assms(1-5) show ?thesis
    by (auto simp: dispatch_frame_def fr_hdrtype_def fr_channel_def flap_conn_def AIM_FRAMETYPE_FLAP_def AIM_FRAMETYPE_OFT_def
        last_chance_def consumenonsnac_def)
qed

text \<open>C21: Logging out forgets more than it should: \<^verbatim>\<open>logout\<close> ends the session, which releases the modules, and
  \<^verbatim>\<open>login\<close> does not initialise it again; whatever SNAC comes in after that, on any connection and for
  any function that was registered, is marked as handled without anybody having seen it, the server's key
  for the password among them.\<close>

theorem login_after_logout:
  assumes "faimtest_logout e s = Some (r, s1)" "faimtest_login e s1 sn pw = Some (q, s2)"
  shows "modlist s2 = [] \<and>
    (\<forall>rx a c sq. conns s2 a = Some c \<and> flap_conn c \<and> fr_conn rx = Some a \<and> fr_hdr rx = Flap 2 sq \<and> bs_ok (fr_data rx) \<longrightarrow>
       (\<exists>bs. dispatch_frame (faimtest_client e) (module_handlers (faimtest_client e)) rx s2 = Some (1, bs, s2)))"
proof -
  obtain t q where "faimtest_init e (aim__shutdownmodules t) = Some (q, s1)"
    using assms(1) by (auto simp: faimtest_logout_def aim_session_kill_def Let_def split: bind_splits)
  then have "modlist s1 = []"
    using bare.faimtest_init_okay [of "aim__shutdownmodules t" "[]" e] by (simp add: okay_def aim__shutdownmodules_def)
  then have "modlist s2 = []" using bare.login_okay [of s1 "[]" e sn pw] assms(2) by (simp add: okay_def)
  with dispatch_no_modules show ?thesis by blast
qed

text \<open>Where the server is reached, logging in asks it for a key.\<close>

definition open_env :: faimtest_env where
  "open_env = \<lparr>fe_aux = 0, fe_net = (\<lambda>_. proxy_network), fe_file = (\<lambda>_. None)\<rparr>"

lemma request_login_queued:
  assumes "can_queue s a" "length sn \<le> 1000" "sn = [] \<or> \<not> (48 \<le> sn ! 0 \<and> sn ! 0 \<le> 57)"
  shows "\<exists>s' f1 sq. aim_request_login cl (Some s) (Some a) (Some sn) = Some (0, Some s') \<and>
    fr_hdr f1 = Flap 1 sq \<and> written (fr_data f1) = aimutil_put32 1 \<and>
    (\<exists>s1. queue_outgoing s1 = queue_outgoing s @ [f1] \<and>
       queued_snac s1 a 0x0017 0x0006 (snacid_next s1) (chain_wire [mk_tlv 0x0001 sn]) s')"
proof -
  let ?s = "s\<lparr>sess_flags := sess_flags s OR AIM_SESS_FLAGS_SNACLOGIN\<rparr>"
  have s: "can_queue ?s a" using assms(1) by (simp add: can_queue_def snacs_ok_def mem_ok_def)
  have "writes (\<lambda>bs s. do { (_, bs) \<leftarrow> aimbs_put32 bs 0x00000001; Some (bs, s) }) (aimutil_put32 1) t" for t
    by (simp add: writes_def put32_ok)
  with flap_frame_effect [OF s, of "aimutil_put32 1" 4 "\<lambda>bs s. do { (_, bs) \<leftarrow> aimbs_put32 bs 0x00000001; Some (bs, s) }" cl 1]
  obtain s1 f1 sq where s1: "aim_sendflapver cl ?s (Some a) = Some (0, s1)" "can_queue s1 a"
    "queue_outgoing s1 = queue_outgoing s @ [f1]" "fr_hdr f1 = Flap 1 sq" "written (fr_data f1) = aimutil_put32 1"
    by (auto simp: aim_sendflapver_def)
  have w: "writes (\<lambda>bs s. do { (ts, s) \<leftarrow> add_str [] 0x0001 sn s; put_chain ts bs s }) (chain_wire [mk_tlv 0x0001 sn]) t"
    if "same_queue s1 t" for t
    using that s1(2) assms(2) by (simp add: writes_def same_queue_def can_queue_def libc_simps put_chain_ok)
  have fit: "10 + int (length (chain_wire [mk_tlv 0x0001 sn])) \<le> 10 + 2 + 2 + int (length sn)"
    using assms(2) by (simp add: length_tlv_wire)
  obtain s' where "snac_frame cl s1 (Some a) (10 + 2 + 2 + int (length sn)) (cached_id 0x0017 0x0006 None) 0x0017 0x0006
      (\<lambda>bs s. do { (ts, s) \<leftarrow> add_str [] 0x0001 sn s; put_chain ts bs s }) = Some (0, s')"
    "queued_snac s1 a 0x0017 0x0006 (snacid_next s1) (chain_wire [mk_tlv 0x0001 sn]) s'"
    using cached_request [OF s1(2) fit _ w, where cl = cl and f = "0x0017" and t = "0x0006" and d = None and f' = "0x0017" and t' = "0x0006"]
      assms(2) by auto
  with s1 assms(3) show ?thesis by (auto simp: aim_request_login_def)
qed

lemma addhandlers_queue:
  "can_queue t a \<Longrightarrow> \<exists>u. addhandlers hs (Some a) t = Some u \<and> can_queue u a \<and> queue_outgoing u = queue_outgoing t"
proof (induction hs arbitrary: t)
  case (Cons h hs)
  then obtain t' r where "aim_conn_addhandler t (Some a) (fst h) (fst (snd h)) (Some (UserCb (fn_no (snd (snd h))))) 0 = Some (r, t')"
    "can_queue t' a" "queue_outgoing t' = queue_outgoing t"
    by (cases "checkdisallowed (fst h) (fst (snd h)) = 0")
      (auto simp: aim_conn_addhandler_def can_queue_def snacs_ok_def conn_inprogress_def Let_def)
  with Cons.IH [of t'] show ?case by (auto simp: addhandlers.simps)
qed (simp add: addhandlers.simps)

theorem login_after_logout_witness:
  "\<exists>s s1 s2. modlist s = default_modules \<and> faimtest_logout open_env s = Some (0, s1) \<and>
     faimtest_login open_env s1 None None = Some (0, s2) \<and> length (queue_outgoing s2) = 2 \<and> modlist s2 = []"
proof -
  let ?p = "no_priv\<lparr>fp_screenname := Some (cstr ''joe''), fp_password := Some (cstr ''secret'')\<rparr>"
  let ?s = "(session0 3)\<lparr>modlist := default_modules, next_addr := 1, objs := [0 \<mapsto> priv_obj ?p]\<rparr>"
  have p: "priv_of open_env ?s = Some ?p" "obj_priv (priv_obj ?p) = Some ?p" by (simp_all add: priv_of_def open_env_def)
  obtain s1 where s1: "faimtest_logout open_env ?s = Some (0, s1)" "priv_of open_env s1 = Some ?p" "mem_ok s1" "snacs_ok s1"
    "tx_enqueue s1 = TxQueued" "queue_outgoing s1 = []" "socks_server s1 = replicate 128 0" "connlist s1 = [1]"
    using p(1) 
    by (auto simp: faimtest_logout_def aim_session_kill_def aim_logoff_def aim_connrst_def aim_cleansnacs_def no_priv_def
        aim__shutdownmodules_def faimtest_init_def newconn_at_def aim_newconn_def getnext_ok Let_def priv_of_def open_env_def
        snacs_ok_def mem_ok_def session0_def put_conn_def)
  have net: "fe_net open_env x = proxy_network" "buf_string (replicate 128 0) = Some []" for x
    by (simp_all add: open_env_def buf_string_def c_string_of_def numeral_nat)
  define c where "c = aim_conn_init (zero_conn\<lparr>conn_inside := Some \<lparr>in_groups = [], in_rates = []\<rparr>\<rparr>)
    \<lparr>conn_sessv := True, conn_type := AIM_CONN_TYPE_AUTH, conn_fd := 4\<rparr>"
  define b where "b = next_addr s1"
  obtain t where t: "newconn_at open_env (set_priv open_env ?p s1) AIM_CONN_TYPE_AUTH (Some FAIM_LOGIN_SERVER) = Some (Some b, t)"
    "mem_ok t" "snacs_ok t" "tx_enqueue t = TxQueued" "queue_outgoing t = []" "conns t b = Some c"
    using s1(3-7) net
    by (auto simp: newconn_at_def aim_newconn_def getnext_ok Let_def aim_proxyconnect_def proxy_network_def no_network_def
        set_priv_def b_def c_def snacs_ok_def mem_ok_def put_conn_def AIM_CONN_TYPE_AUTH_def)
  let ?hs = "[(AIM_CB_FAM_SPECIAL, AIM_CB_SPECIAL_FLAPVER, Flapversion),
    (AIM_CB_FAM_SPECIAL, AIM_CB_SPECIAL_CONNCOMPLETE, Conncomplete), (0x0017, 0x0007, Parse_login), (0x0017, 0x0003, Parse_authresp)]"
  obtain u where u: "addhandlers ?hs (Some b) t = Some u" "can_queue u b" "queue_outgoing u = []"
    using t(2-6) addhandlers_queue [of t b ?hs]
    by (auto simp: can_queue_def c_def aim_conn_init_def AIM_CONN_TYPE_AUTH_def AIM_CONN_TYPE_RENDEZVOUS_def
        AIM_CONN_TYPE_RENDEZVOUS_OUT_def)
  from request_login_queued [OF u(2), of "cstr ''joe''" no_client] obtain s2 where s2:
    "aim_request_login no_client (Some u) (Some b) (Some (cstr ''joe'')) = Some (0, Some s2)" "length (queue_outgoing s2) = 2"
    using u(3) by (auto simp: cstr_def queued_snac_def)
  have "faimtest_login open_env s1 None None = Some (0, s2)"
    using s1(2) t(1,6) u(1) s2(1) by (simp add: faimtest_login_def no_priv_def c_def aim_conn_init_def)
  with s1(1) login_after_logout [OF s1(1) this] s2(2) show ?thesis
    by (intro exI [of _ ?s] exI [of _ s1] exI [of _ s2]) simp
qed

end
