(* ===== verification/Faimreply.thy ===== *)
theory Faimreply
  imports Faimsafe Received
begin

text \<open>
  \<^verbatim>\<open>faimtest\<close> at work: a message that another user sends it, from the bytes that come in to the frame with the
  answer in the transmit queue.
\<close>

section \<open>What the answer leaves alone\<close>

text \<open>Which connection a family is sent on does not depend on what has been received.\<close>

lemma findbygroup_kept:
  assumes "connlist t = connlist s" "\<And>x. map_option conn_inside (conns t x) = map_option conn_inside (conns s x)"
  shows "aim_conn_findbygroup t g = aim_conn_findbygroup s g"
proof -
  have "conn_walk (\<lambda>c. do { ins \<leftarrow> conn_inside c; Some (P ins) }) t as = conn_walk (\<lambda>c. do { ins \<leftarrow> conn_inside c; Some (P ins) }) s as"
    for P as
  proof (induction as)
    case (Cons x as)
    with assms(2) [of x] show ?case by (cases "conns s x"; cases "conns t x") (auto split: bind_split)
  qed simp
  then show ?thesis by (simp add: aim_conn_findbygroup_def assms(1))
qed

section \<open>Obeying a message\<close>

text \<open>A plain message, and the frame with the answer to it.\<close>

definition plain_im :: "cstring \<Rightarrow> sendimext_args" where
  "plain_im text = (ext_args [] 0)\<lparr>sx_msg := Some text, sx_msglen := int (length text)\<rparr>"

definition good_day :: cstring where
  "good_day = cstr ''Good day to you too.''"

definition answer_wire :: "u8 list \<Rightarrow> cstring \<Rightarrow> u8 list" where
  "answer_wire ck sn = ck @ aimutil_put16 0x0001 @ of_nat (length sn) # sn @
     chain_wire [mk_tlv 0x0002 ([5, 1, 0, 4] @ deffeatures @ aimutil_put16 0x0101 @ aimutil_put16 (of_nat (length good_day) + 4) @
       aimutil_put16 0 @ aimutil_put16 0 @ good_day), mk_tlv 0x0003 []]"

lemma goodday_sent:
  assumes "aim_conn_findbygroup s 0x0004 = Some (Some a)" "can_queue s a" "length sn \<le> 71"
  shows "\<exists>s' ck. aim_send_im no_client s sn (ucast AIM_IMFLAGS_ACK) (cstr ''Good day to you too.'') = Some (0, s') \<and>
    length ck = 8 \<and> queued_snac s a 0x0004 0x0006 (snacid_next s) (answer_wire ck sn) s'"
proof -
  obtain args where args: "aim_send_im no_client s sn (ucast AIM_IMFLAGS_ACK) (cstr ''Good day to you too.'') =
      aim_send_im_ext no_client s (Some args)" "sx_destsn args = sn" "sx_flags args = AIM_IMFLAGS_ACK"
    "sx_msg args = Some (good_day @ [0])" "sx_msglen args = 20"
    by (simp add: aim_send_im_def good_day_def cstr_def AIM_IMFLAGS_ACK_def AIM_IMFLAGS_CUSTOMFEATURES_def
        AIM_IMFLAGS_HASICON_def AIM_IMFLAGS_MULTIPART_def)
  have g: "length good_day = 20" by (simp add: good_day_def cstr_def)
  have secs: "im_sections args = [\<lparr>sec_charset = 0, sec_charsubset = 0, sec_data = Some (good_day @ [0]), sec_datalen = 20\<rparr>]"
    "im_features args = deffeatures"
    using args by (simp_all add: im_sections_def im_features_def im_charset_def im_charsubset_def)
  have ok: "im_ok args"
    using args assms(3) g by (simp add: im_ok_def secs MAXMSGLEN_def object_def im_value_def section_wire_def section_text_def deffeatures_def)
  have tlvs: "im_tlvs args = [mk_tlv 0x0002 ([5, 1, 0, 4] @ deffeatures @ aimutil_put16 0x0101 @
      aimutil_put16 (of_nat (length good_day) + 4) @ aimutil_put16 0 @ aimutil_put16 0 @ good_day), mk_tlv 0x0003 []]"
    using args g by (simp add: im_tlvs_def im_value_def secs section_wire_def section_text_def object_def flagged_def
        deffeatures_def aimutil_put16_def [of 4])
  have ck: "length (fst (rand_bytes 8 s)) = 8" by (metis length_rand_bytes prod.collapse)
  have "answer_wire (fst (rand_bytes 8 s)) sn =
      fst (rand_bytes 8 s) @ aimutil_put16 0x0001 @ of_nat (length (sx_destsn args)) # sx_destsn args @ chain_wire (im_tlvs args)"
    by (simp add: answer_wire_def args(2) tlvs)
  with im_ext_queued [OF assms(1,2) ok, of no_client] args(1) ck show ?thesis by (metis (no_types))
qed

lemma plain_im_ok: "0 < length text \<Longrightarrow> length text < 7000 \<Longrightarrow> im_ok (plain_im text)"
  by (simp add: im_ok_def plain_im_def ext_args_def im_sections_def im_value_def im_features_def deffeatures_def has_flag_def
      section_wire_def section_text_def object_def MAXMSGLEN_def)

lemma read_back_name:
  assumes "ui_fits ui"
  shows "c_string_of (ui_sn (read_back ui)) = c_string_of (ui_sn ui)" "length (c_string_of (ui_sn ui)) < 33"
proof -
  show "length (c_string_of (ui_sn ui)) < 33" using c_string_shorter [of "ui_sn ui"] assms by (simp add: ui_fits_def)
  show "c_string_of (ui_sn (read_back ui)) = c_string_of (ui_sn ui)"
    by (simp add: read_back_def Let_def c_string_of_def takeWhile_append)
qed

lemma goodday_obeyed:
  assumes "priv_of e s = Some priv" "0 \<notin> set text" "length text < 8193" "hd text \<noteq> 60"
    "\<not> begins text ''disconnect'' 10" "says text ''goodday''"
    "aim_send_im no_client s (c_string_of (ui_sn ui)) (ucast AIM_IMFLAGS_ACK) (cstr ''Good day to you too.'') = Some (r, s')"
  shows "faimtest_parse_incoming_im e (Some fr) [ArgInt 1, ArgUserinfo ui, ch1_arg (im_received (plain_im text))] s = Some (1, s')"
proof -
  define a where "a = im_received (plain_im text)"
  have a: "c1_msg a = Some (text @ [0])" "c1_msglen a = int (length text)" "c1_features a = Some deffeatures"
    "c1_featureslen a = 4" "c1_icbmflags a = AIM_IMFLAGS_CUSTOMFEATURES OR AIM_IMFLAGS_MULTIPART OR AIM_IMFLAGS_CUSTOMCHARSET"
  proof -
    have len: "unat (word_of_int (int (length text)) :: u16) = length text"
      using assms(3) by simp
    then have ulen: "uint (word_of_int (int (length text)) :: u16) = int (length text)" unfolding uint_nat by simp
    have secs: "im_sections (plain_im text) = [\<lparr>sec_charset = 0, sec_charsubset = 0, sec_data = Some text,
        sec_datalen = word_of_int (int (length text))\<rparr>]" "im_features (plain_im text) = deffeatures"
      by (simp_all add: plain_im_def ext_args_def im_sections_def im_features_def im_charset_def im_charsubset_def has_flag_def)
    have noflags: "\<not> has_flag (sx_flags (plain_im text)) f" for f by (simp add: plain_im_def ext_args_def has_flag_def)
    have "a = message_args (map padded (im_sections (plain_im text))) deffeatures"
      using noflags by (simp add: a_def im_received_def secs(2) set_flag_if_def flag_if_def icon_args_def Let_def)
    then show "c1_msg a = Some (text @ [0])" "c1_msglen a = int (length text)" "c1_features a = Some deffeatures"
      "c1_featureslen a = 4" "c1_icbmflags a = AIM_IMFLAGS_CUSTOMFEATURES OR AIM_IMFLAGS_MULTIPART OR AIM_IMFLAGS_CUSTOMCHARSET"
      using len ulen by (simp_all add: message_args_def best_section_def section_flags_def flag_if_def secs(1) padded_def
          section_text_def object_def Let_def deffeatures_def)
  qed
  have copy: "copied (text @ [0]) = Some text"
    using assms(2,3) by (simp add: copied_def c_string_of_def takeWhile_append)
  have skip: "skip_tags text = Some text" using assms(4) by (cases "text") simp_all
  have f: "aim_fingerprintclient (Some deffeatures) 4 = Some AIM_CLIENTTYPE_WINAIM41"
    by (simp add: aim_fingerprintclient_def fingerprints_def deffeatures_def)
  have cmd: "faimtest_handlecmd e s (fr_conn fr) ui text = Some (0, s')"
    using assms(1,5-7) by (simp add: faimtest_handlecmd_def)
  have flags: "\<not> has_flag (c1_icbmflags a) AIM_IMFLAGS_UNICODE" "\<not> has_flag (c1_icbmflags a) AIM_IMFLAGS_HASICON"
    "\<not> has_flag (c1_icbmflags a) AIM_IMFLAGS_BUDDYREQ"
    by (simp_all add: a(5) has_flag_def AIM_IMFLAGS_CUSTOMFEATURES_def AIM_IMFLAGS_MULTIPART_def AIM_IMFLAGS_CUSTOMCHARSET_def
        AIM_IMFLAGS_UNICODE_def AIM_IMFLAGS_HASICON_def AIM_IMFLAGS_BUDDYREQ_def)
  show ?thesis
    unfolding a_def [symmetric]
    using assms(1) flags
    by (simp add: faimtest_parse_incoming_im_def faimtest_parse_incoming_im_chan1_def ch1_arg_def a(1-4) f real_msg_def copy skip cmd)
qed

text \<open>C11: The example client answers: when another user's message that says \<^verbatim>\<open>goodday\<close> and is no tag and no
  order to disconnect comes in on a connection that serves messages, in whatever pieces and whoever sends it,
  receiving and dispatching leave one frame in the transmit queue of that connection, with the answer
  addressed to the sender, and nothing in the receive queue.\<close>

theorem goodday_answered:
  assumes "can_queue s a" "conns s a = Some c" "flap_conn c" "modlist s = default_modules" "queue_incoming s = []"
    "aim_conn_findbygroup s 0x0004 = Some (Some a)" "hooked s a 0x0004 0x0007 = Some (UserCb (fn_no Parse_incoming_im))"
    "priv_of e s = Some priv" "ui_fits ui" "length cookie = 8"
    "0 \<notin> set text" "0 < length text" "length text < 7000" "hd text \<noteq> 60" "\<not> begins text ''disconnect'' 10" "says text ''goodday''"
    "payload = snac_wire 0x0004 0x0007 fl i @ cookie @ aimutil_put16 0x0001 @ info_wire ui @ chain_wire (im_tlvs (plain_im text))"
    "length payload < 65536" "os_in s (conn_fd c) = map RecvChunk cs" "[] \<notin> set cs" "concat cs = flap_wire 2 sq payload"
  shows "\<exists>s1 s2 ck. aim_get_command (faimtest_client e) rv s (Some a) = Some (0, s1) \<and>
    aim_rxdispatch (faimtest_client e) (module_handlers (faimtest_client e)) s1 = Some s2 \<and> queue_incoming s2 = [] \<and>
    length ck = 8 \<and> queued_snac s a 0x0004 0x0006 (snacid_next s) (answer_wire ck (c_string_of (ui_sn ui))) s2"
proof -
  let ?cl = "faimtest_client e" and ?sn = "c_string_of (ui_sn ui)" and ?c = "c\<lparr>conn_lastactivity := os_now s\<rparr>"
  have "incoming s (conn_fd c) (flap_wire 2 sq payload @ []) []"
    using assms(19-21) by (auto simp: incoming_def)
  moreover have mem: "mem_ok s" using assms(1) by (simp add: can_queue_def)
  ultimately obtain s1 where s1: "aim_get_command ?cl rv s (Some a) = Some (0, s1)"
    "queue_incoming s1 = [\<lparr>fr_id = next_addr s, fr_hdr = Flap 2 sq,
        fr_data = \<lparr>bs_data = payload, bs_len = length payload, bs_off = 0\<rparr>,
        fr_handled = 0, fr_nofree = 0, fr_conn = Some a\<rparr>]"
    "conns s1 = (conns s)(a := Some ?c)" "mem_ok s1" "modlist s1 = default_modules"
    "connlist s1 = connlist s" "queue_outgoing s1 = queue_outgoing s" "objs s1 = objs s" "snac_hash s1 = snac_hash s"
    "snacid_next s1 = snacid_next s" "tx_enqueue s1 = tx_enqueue s"
    using get_command_frame [OF _ assms(2,3,18), where ty = 2 and sq = sq and later = "[]" and rest = "[]" and cl = ?cl and rv = rv] assms(4,5) by auto
  define fr where "fr = hd (queue_incoming s1)"
  have fr: "queue_incoming s1 = [fr]" "fr_conn fr = Some a" "fr_hdr fr = Flap 2 sq" "fr_handled fr = 0"
    "bs_ok (fr_data fr)" "unread (fr_data fr) = payload"
    using stream_of [OF refl assms(18)] s1(2) by (simp_all add: fr_def)
  have c: "conns s1 a = Some ?c" "flap_conn ?c" "hooked s1 a 0x0004 0x0007 = Some (UserCb (fn_no Parse_incoming_im))"
    "can_queue s1 a" "aim_conn_findbygroup s1 0x0004 = Some (Some a)" "priv_of e s1 = Some priv"
    subgoal using s1(3) by simp
    subgoal using assms(3) by (simp add: flap_conn_def conn_inprogress_def)
    subgoal using assms(2,7) s1(3) by (simp add: hooked_def)
    subgoal using assms(1,2) s1(3,4,9,10,11) by (auto simp: can_queue_def snacs_ok_def conn_inprogress_def)
    subgoal using findbygroup_kept [of s1 s 4] s1(3,6) assms(2,6) by simp
    subgoal using assms(8) s1(8) by (simp add: priv_of_def)
    done
  have ok: "im_ok (plain_im text)" by (rule plain_im_ok [OF assms(12,13)])
  have sn: "c_string_of (ui_sn (read_back ui)) = ?sn" "length ?sn \<le> 71" using read_back_name [OF assms(9)] by simp_all
  obtain s2 ck where s2: "aim_send_im no_client s1 ?sn (ucast AIM_IMFLAGS_ACK) (cstr ''Good day to you too.'') = Some (0, s2)"
    "length ck = 8" "queued_snac s1 a 0x0004 0x0006 (snacid_next s1) (answer_wire ck ?sn) s2"
    using goodday_sent [OF c(5,4) sn(2)] by blast
  have q: "queue_incoming s2 = [fr]"
    using received.im_requests(2) [where cl = no_client and s = s1 and fs = "[fr]"] fr(1) s2(1) by (auto simp: okay_def received.polite_def no_client_def)
  have cb: "cl_callback ?cl (fn_no Parse_incoming_im) (Some fr) [ArgInt 1, ArgUserinfo (read_back ui), ch1_arg (im_received (plain_im text))] bs s1 =
      Some (1, bs, s2)" for bs
    using goodday_obeyed [OF c(6) assms(11) _ assms(14-16), of "read_back ui" 0 s2 fr] s2(1) assms(13) fn_no_less
    by (simp add: sn(1) faimtest_client_def)
  have "aim_rxdispatch ?cl (module_handlers ?cl) s1 = Some (s2\<lparr>queue_incoming := []\<rparr>)"
    using dispatch_message [OF fr(1-5) fr(6) [unfolded assms(17)] c(1,2) s1(4,5) c(3) assms(9) ok assms(10), of ?cl] cb q by auto
  moreover have "queued_snac s a 0x0004 0x0006 (snacid_next s) (answer_wire ck ?sn) (s2\<lparr>queue_incoming := []\<rparr>)"
    using s2(3) s1(7,10) by (simp add: queued_snac_def can_queue_def snacs_ok_def mem_ok_def)
  ultimately show ?thesis using s1(1) s2(2) by fastforce
qed

theorem goodday_answered_witness:
  "\<exists>e s s1 s2 ck. queue_outgoing s = [] \<and> aim_get_command (faimtest_client e) (\<lambda>s c. None) s (Some 0) = Some (0, s1) \<and>
     aim_rxdispatch (faimtest_client e) (module_handlers (faimtest_client e)) s1 = Some s2 \<and>
     (\<exists>fr. queue_outgoing s2 = [fr] \<and> written (fr_data fr) = snac_wire 0x0004 0x0006 0 0 @ answer_wire ck (cstr ''joe''))"
proof -
  let ?e = "quiet_env\<lparr>fe_aux := 1\<rparr>" and ?ui = "zero_userinfo\<lparr>ui_sn := cstr ''joe'' @ replicate 30 0\<rparr>"
  let ?p = "snac_wire 4 7 0 1 @ [1, 2, 3, 4, 5, 6, 7, 8] @ aimutil_put16 0x0001 @ info_wire ?ui @
    chain_wire (im_tlvs (plain_im (cstr ''goodday'')))"
  let ?c = "(demo_conn 5)\<lparr>conn_inside := Some \<lparr>in_groups = [1, 4], in_rates = []\<rparr>,
      conn_handlerlist := [\<lparr>cb_family = 4, cb_type = 7, cb_handler = UserCb (fn_no Parse_incoming_im), cb_flags = 0\<rparr>]\<rparr>"
  let ?s = "demo_session\<lparr>conns := [0 \<mapsto> ?c], modlist := default_modules, objs := [1 \<mapsto> priv_obj no_priv],
    os_in := (\<lambda>_. [RecvChunk (flap_wire 2 9 ?p)])\<rparr>"
  have joe: "c_string_of (ui_sn ?ui) = cstr ''joe''" by (simp add: c_string_of_def cstr_def)
  have fits: "ui_fits ?ui" "length (info_wire ?ui) = 8"
    using zero_user_wire(2) joe
    by (simp_all add: ui_fits_def cstr_def zero_userinfo_def info_wire_def info_tlvs_def opt_def present_defs)
  have c: "can_queue ?s 0" "flap_conn ?c" "aim_conn_findbygroup ?s 0x0004 = Some (Some 0)"
    "hooked ?s 0 0x0004 0x0007 = Some (UserCb (fn_no Parse_incoming_im))" "priv_of ?e ?s = Some no_priv"
    subgoal by (simp add: can_queue_def snacs_ok_def demo_session_def session0_def mem_ok_def AIM_CONN_TYPE_BOS_def
          AIM_CONN_TYPE_RENDEZVOUS_def AIM_CONN_TYPE_RENDEZVOUS_OUT_def)
    subgoal by (simp add: flap_conn_def conn_inprogress_def demo_conn_def aim_conn_init_def zero_conn_def AIM_CONN_TYPE_BOS_def
          AIM_CONN_TYPE_RENDEZVOUS_def AIM_CONN_TYPE_RENDEZVOUS_OUT_def)
    by (simp_all add: aim_conn_findbygroup_def hooked_def priv_of_def)
  have t: "0 \<notin> set (cstr ''goodday'')" "0 < length (cstr ''goodday'')" "length (cstr ''goodday'') < 7000" "hd (cstr ''goodday'') \<noteq> 60"
    "\<not> begins (cstr ''goodday'') ''disconnect'' 10" "says (cstr ''goodday'') ''goodday''"
    by (simp_all add: cstr_def begins_def says_def strn_eq_def)
  have "length (chain_wire (im_tlvs (plain_im (cstr ''goodday'')))) < 1000"
    by (simp add: im_tlvs_def flagged_def plain_im_def ext_args_def has_flag_def tlv_wire_def im_value_def im_features_def im_sections_def
        deffeatures_def section_wire_def section_text_def object_def cstr_def)
  then have len: "length ?p < 65536" using fits(2) by simp
  from goodday_answered [OF c(1) _ c(2) _ _ c(3,4,5) fits(1) _ t refl len, where cs = "[flap_wire 2 9 ?p]" and sq = 9 and rv = "\<lambda>s c. None"]
  obtain s1 s2 ck where "aim_get_command (faimtest_client ?e) (\<lambda>s c. None) ?s (Some 0) = Some (0, s1)"
    "aim_rxdispatch (faimtest_client ?e) (module_handlers (faimtest_client ?e)) s1 = Some s2"
    "queued_snac ?s 0 4 6 (snacid_next ?s) (answer_wire ck (c_string_of (ui_sn ?ui))) s2"
    by (auto simp: flap_wire_def)
  then show ?thesis unfolding joe
    by (intro exI [of _ ?e] exI [of _ ?s] exI [of _ s1] exI [of _ s2] exI [of _ ck]) (auto simp: queued_snac_def demo_session_def)
qed

end
