(* ===== verification/Spec2Isabelle.thy ===== *)
theory Spec2Isabelle
  imports Bstream Tlv Session Snac Msgcookie Conn Txqueue Handlers Connlife Rxqueue Modules Rxhandlers Util
    Requests Userinfo Misc Locate Buddylist Admin Search Ssi Md5 Auth Service Chatnav Chat Icq Im Proxy Select Ft
    Keeps Intact Asking Peers Program Delivery Received Faimtest Faimcalls Faimtalk Faimmain Faimsafe
    Faimreply
begin

text \<open>
  A model of libfaim, the client side of the OSCAR protocol (AIM and ICQ).

  \<^bold>\<open>The program.\<close> A client holds a session with a list of connections. Bytes that arrive on a
  connection are cut into frames (FLAP), which wait in the receive queue; the dispatcher takes
  each frame to the module of its SNAC family and then to a catch-all module; a module parses
  the payload and calls the function the client registered for the family and subtype. What the
  client sends goes the other way: a request function builds a SNAC in a frame, remembers the
  request under a fresh id, and puts the frame in the transmit queue, from which it is flushed.

  \<^bold>\<open>The theories\<close>, in the order of the layers (all names are those of the C files under
  \<^verbatim>\<open>src/src\<close>, structures those of \<^verbatim>\<open>src/include\<close>):
  \<^item> \<open>Prelude\<close>: types and the byte-order macros of \<^verbatim>\<open>aim.h\<close>; \<open>Libc\<close>: memory, time, sockets and
    strings of the C library, as far as the code uses them;
  \<^item> \<open>Bstream\<close>: byte streams (\<^verbatim>\<open>rxqueue.c\<close>); \<open>Tlv\<close>: chains of type-length-value elements
    (\<^verbatim>\<open>tlv.c\<close>);
  \<^item> \<open>Session\<close>: the structures; \<open>Cache\<close>: the contract of a store of outstanding entries, a
    locale; \<open>Snac\<close> (\<^verbatim>\<open>snac.c\<close>) and \<open>Msgcookie\<close> (\<^verbatim>\<open>msgcookie.c\<close>), which interpret it;
  \<^item> \<open>Conn\<close> and \<open>Connlife\<close>: connections (\<^verbatim>\<open>conn.c\<close>), created, closed and killed; \<open>Txqueue\<close>
    (\<^verbatim>\<open>txqueue.c\<close>) and \<open>Rxqueue\<close> (\<^verbatim>\<open>rxqueue.c\<close>): the two queues;
  \<^item> \<open>Handlers\<close>, \<open>Modules\<close>, \<open>Rxhandlers\<close>: callbacks, the module registry and the dispatcher
    (\<^verbatim>\<open>rxhandlers.c\<close>), and the life of a session (\<^verbatim>\<open>conn.c\<close>);
  \<^item> \<open>Util\<close> (\<^verbatim>\<open>util.c\<close>), \<open>Requests\<close> (what all requests share, \<^verbatim>\<open>misc.c\<close>), \<open>Userinfo\<close>
    (\<^verbatim>\<open>info.c\<close>);
  \<^item> the modules: \<open>Misc\<close>, \<open>Locate\<close> (\<^verbatim>\<open>info.c\<close>), \<open>Buddylist\<close> (\<^verbatim>\<open>buddylist.c\<close>, \<^verbatim>\<open>bos.c\<close>),
    \<open>Admin\<close>, \<open>Search\<close> (\<^verbatim>\<open>search.c\<close>, \<^verbatim>\<open>stats.c\<close>, \<^verbatim>\<open>popups.c\<close>, \<^verbatim>\<open>adverts.c\<close>), \<open>Ssi\<close>, \<open>Service\<close> (\<^verbatim>\<open>service.c\<close>), \<open>Chatnav\<close>, \<open>Chat\<close>, \<open>Icq\<close>, \<open>Im\<close>;
  \<^item> \<open>Proxy\<close> (connections through a SOCKS proxy, \<^verbatim>\<open>conn.c\<close>), \<open>Select\<close>
    (\<^verbatim>\<open>aim_select\<close>, \<^verbatim>\<open>conn.c\<close>) and \<open>Ft\<close> (connections to peers, \<^verbatim>\<open>ft.c\<close>);
  \<^item> \<open>Md5\<close> (\<^verbatim>\<open>md5.c\<close>, with RFC 1321 as its specification) and \<open>Auth\<close> (\<^verbatim>\<open>auth.c\<close>): logging in;
  \<^item> \<open>Keeps\<close>: a calculus of what operations keep, as the locales \<open>core_stable\<close> and
    \<open>session_stable\<close>; \<open>Intact\<close>, \<open>Asking\<close> and \<open>Peers\<close>: all module handlers, all requests and the
    connections to peers keep whatever the locale asks for; \<open>Program\<close>: the library as a whole, with the
    dispatcher on the modules' own handlers, the steps of a client, and the invariant of sessions;
    \<open>Delivery\<close>: a message from the bytes that come in to the function of the client; \<open>Received\<close>: the
    walk of the dispatcher over the receive queue;
  \<^item> the client that comes with the library (\<^verbatim>\<open>utils/faimtest\<close>): \<open>Faimtest\<close> (its data, the functions it
    registers by name), \<open>Faimcalls\<close> (those functions, logging in and out, \<^verbatim>\<open>faimtest.c\<close>,
    \<^verbatim>\<open>login.c\<close>, \<^verbatim>\<open>chat.c\<close>), \<open>Faimtalk\<close> (messages and the commands in them, \<^verbatim>\<open>faimtest.c\<close>,
    \<^verbatim>\<open>ft.c\<close>), \<open>Faimmain\<close> (command line, start and main loop, \<^verbatim>\<open>commands.c\<close>, \<^verbatim>\<open>main\<close>) and
    \<open>Faimsafe\<close>: it is a client that \<open>Program\<close> allows, and what its logging out forgets; \<open>Faimreply\<close>: a
    message to it, from the bytes that come in to the frame with its answer.

  \<^bold>\<open>How state and effects are modelled.\<close> The state of the session and of the environment (what
  allocations, sockets and the clock will do) is one record passed along. An operation returns
  an \<open>option\<close>: \<open>None\<close> is undefined behaviour of C or a call that does not return, \<open>Some\<close> holds
  the result, error codes included, with everything the call changed. Connections and the
  objects they own live at addresses, so a dangling pointer is an address without an object.
  Fixed-width integers are words. Loops that may not end are \<open>partial_function (option)\<close>; there
  is no fuel anywhere.

  \<^bold>\<open>What the lemmas show.\<close> In every theory: which states are well formed and that operations keep
  them so, the effect of each operation in terms of the bytes left to read (\<open>unread\<close>) and
  written so far (\<open>written\<close>), and round trips with the peer operation. The properties say what
  a frame carries, what a parser hands to the client, that requests and answers are paired, that
  queues keep order, and which inputs break the library. The references they compare with are
  specifications and model no code: \<open>parse_chain\<close> and \<open>parse_stop\<close> for chains, \<open>rfc_md5\<close> for the
  digest (its tables and functions are those of the model, and the vector for ``abc'' of the RFC ties them
  down), \<open>read_back\<close> for user information, \<open>dispatch_all\<close> for the dispatcher.

  \<^bold>\<open>Parameters.\<close> The client (its callbacks and its own transmit function); what the name service
  and the calls that open a socket return (\<open>netenv\<close>), what \<^verbatim>\<open>accept\<close> and \<^verbatim>\<open>select\<close>
  return, and the content of a frame that is left uninitialised on the stack. The receive queue
  takes the reader of connections to peers as an argument, for which \<open>Ft\<close> has the code, and the
  dispatcher the table of the module handlers, which \<open>Program\<close> supplies. The example client has the files it
  reads and the lines its user types as parameters. Properties that need something of these say what.

  \<^bold>\<open>Not modelled.\<close> Debug output; releasing memory that only the releasing function refers to;
  the descriptor table (\<^verbatim>\<open>close\<close>); version strings (\<^verbatim>\<open>meta.c\<close>); code that is not
  compiled: lines under \<^verbatim>\<open>#if 0\<close> (most of file transfer in \<^verbatim>\<open>ft.c\<close>) and under
  \<^verbatim>\<open>ICQ_OSCAR_SUPPORT\<close>, which no build defines; deprecated files. Of \<^verbatim>\<open>utils/faimtest\<close>: what it prints,
  the options of its command line, and its functions for file transfer, which the library as built never
  calls. \<^verbatim>\<open>utils/aimdump\<close> and \<^verbatim>\<open>utils/aimpasswd\<close> are written for an older interface of the library and are in no build.
\<close>

end
